(* ===== verification/Ark_Prelude.thy ===== *)
theory Ark_Prelude
  imports Main "HOL-Library.Char_ord" "HOL-Library.List_Lexorder"
    "HOL-Library.Product_Lexorder" "HOL-Library.Option_ord"
begin

text \<open>
  Shared base of the development.  It holds

  \<^item> the effect type of the handlers: an operator is an \<^verbatim>\<open>async fn\<close> that
    talks to the Kubernetes API.  A handler is a function of the list of the calls made so far;
    it returns an error or a value, and the list with its own calls appended.  What a call
    answers is a parameter (an oracle of the calls made so far), because the API server is
    not part of the repository;
  \<^item> \<open>wp\<close>, the weakest precondition of a handler, with the rules that drive the
    proofs about handlers (collection \<open>eff_simps\<close>);
  \<^item> ordered association lists for Rust's \<^verbatim>\<open>BTreeMap\<close> (\<open>bt_insert\<close>,
    \<open>bt_collect\<close>) behind the interface \<open>ordered_dict\<close>.
\<close>

named_theorems eff_simps \<open>evaluation rules of handlers\<close>

section \<open>Handlers and their calls\<close>

type_synonym ('c, 'e, 'a) eff = "'c list \<Rightarrow> ('e + 'a) \<times> 'c list"

definition ret :: "'a \<Rightarrow> ('c, 'e, 'a) eff" where
  "ret a = (\<lambda>l. (Inr a, l))"

definition fail :: "'e \<Rightarrow> ('c, 'e, 'a) eff" where
  "fail e = (\<lambda>l. (Inl e, l))"

text \<open>Rust's \<^verbatim>\<open>?\<close>: stop at the first error, otherwise continue with the value.\<close>

definition tryE :: "('c, 'e, 'a) eff \<Rightarrow> ('a \<Rightarrow> ('c, 'e, 'b) eff) \<Rightarrow> ('c, 'e, 'b) eff" where
  "tryE m k = (\<lambda>l. case m l of (Inl e, l') \<Rightarrow> (Inl e, l') | (Inr a, l') \<Rightarrow> k a l')"

text \<open>A handler that looks at the error of a call instead of returning it (\<^verbatim>\<open>match\<close> on
  the result).\<close>

definition matchE :: "('c, 'e, 'a) eff \<Rightarrow> ('e \<Rightarrow> ('c, 'f, 'b) eff) \<Rightarrow> ('a \<Rightarrow> ('c, 'f, 'b) eff) \<Rightarrow> ('c, 'f, 'b) eff" where
  "matchE m h k = (\<lambda>l. case m l of (Inl e, l') \<Rightarrow> h e l' | (Inr a, l') \<Rightarrow> k a l')"

text \<open>One call: record it, and answer what the oracle says after the calls made so far.\<close>

definition call :: "('c list \<Rightarrow> 'c \<Rightarrow> 'e + 'a) \<Rightarrow> 'c \<Rightarrow> ('c, 'e, 'a) eff" where
  "call orc c = (\<lambda>l. (orc l c, l @ [c]))"

text \<open>Reading something that is not a call (the clock).\<close>

definition observe :: "('c list \<Rightarrow> 'a) \<Rightarrow> ('c, 'e, 'a) eff" where
  "observe f = (\<lambda>l. (Inr (f l), l))"

definition lift_result :: "'e + 'a \<Rightarrow> ('c, 'e, 'a) eff" where
  "lift_result r = (\<lambda>l. (r, l))"

definition result_of :: "('c, 'e, 'a) eff \<Rightarrow> 'e + 'a" where
  "result_of m = fst (m [])"

definition calls_of :: "('c, 'e, 'a) eff \<Rightarrow> 'c list" where
  "calls_of m = snd (m [])"

section \<open>Weakest preconditions\<close>

definition wp :: "('c, 'e, 'a) eff \<Rightarrow> ('e + 'a \<Rightarrow> 'c list \<Rightarrow> bool) \<Rightarrow> 'c list \<Rightarrow> bool" where
  "wp m Q l = Q (fst (m l)) (snd (m l))"

lemma wp_ret [eff_simps]: "wp (ret a) Q l = Q (Inr a) l"
  by (simp add: wp_def ret_def)

lemma wp_fail [eff_simps]: "wp (fail e) Q l = Q (Inl e) l"
  by (simp add: wp_def fail_def)

lemma wp_call [eff_simps]: "wp (call orc c) Q l = Q (orc l c) (l @ [c])"
  by (simp add: wp_def call_def)

lemma wp_observe [eff_simps]: "wp (observe f) Q l = Q (Inr (f l)) l"
  by (simp add: wp_def observe_def)

lemma wp_lift_result [eff_simps]: "wp (lift_result r) Q l = Q r l"
  by (simp add: wp_def lift_result_def)

lemma wp_tryE [eff_simps]:
  "wp (tryE m k) Q l =
     wp m (\<lambda>r l'. case r of Inl e \<Rightarrow> Q (Inl e) l' | Inr a \<Rightarrow> wp (k a) Q l') l"
  by (simp add: wp_def tryE_def split: prod.splits sum.splits)

lemma wp_matchE [eff_simps]:
  "wp (matchE m h k) Q l =
     wp m (\<lambda>r l'. case r of Inl e \<Rightarrow> wp (h e) Q l' | Inr a \<Rightarrow> wp (k a) Q l') l"
  by (simp add: wp_def matchE_def split: prod.splits sum.splits)

lemma wp_if [eff_simps]:
  "wp (if b then m else n) Q l = (if b then wp m Q l else wp n Q l)"
  by simp

lemma wp_mono:
  assumes "wp m Q l" and "\<And>r l'. Q r l' \<Longrightarrow> R r l'"
  shows "wp m R l"
  using assms by (simp add: wp_def)

lemma wp_conj: "wp m (\<lambda>r l'. Q r l' \<and> R r l') l = (wp m Q l \<and> wp m R l)"
  by (simp add: wp_def)

lemma wp_result: "wp m Q [] = Q (result_of m) (calls_of m)"
  by (simp add: wp_def result_of_def calls_of_def)

section \<open>Calls that all satisfy a predicate\<close>

definition emits :: "('c \<Rightarrow> bool) \<Rightarrow> ('c, 'e, 'a) eff \<Rightarrow> bool" where
  "emits P m = (\<forall>l. \<exists>cs. snd (m l) = l @ cs \<and> list_all P cs)"

named_theorems emits_intros \<open>introduction rules for the calls of a handler\<close>

lemma emits_ret [emits_intros]: "emits P (ret a)"
  by (simp add: emits_def ret_def)

lemma emits_fail [emits_intros]: "emits P (fail e)"
  by (simp add: emits_def fail_def)

lemma emits_observe [emits_intros]: "emits P (observe f)"
  by (simp add: emits_def observe_def)

lemma emits_lift_result [emits_intros]: "emits P (lift_result r)"
  by (simp add: emits_def lift_result_def)

lemma emits_call [emits_intros]: "P c \<Longrightarrow> emits P (call orc c)"
  by (simp add: emits_def call_def)

lemma emits_matchE [emits_intros]:
  assumes m: "emits P m" and h: "\<And>e. emits P (h e)" and k: "\<And>a. emits P (k a)"
  shows "emits P (matchE m h k)"
  unfolding emits_def
proof
  fix l
  obtain cs where cs: "snd (m l) = l @ cs" "list_all P cs"
    using m by (auto simp: emits_def)
  show "\<exists>cs. snd (matchE m h k l) = l @ cs \<and> list_all P cs"
  proof (cases "fst (m l)")
    case (Inl e)
    obtain ds where "snd (h e (l @ cs)) = (l @ cs) @ ds" "list_all P ds"
      using h [of e] unfolding emits_def by blast
    with Inl cs show ?thesis
      by (intro exI [of _ "cs @ ds"]) (cases "m l", simp add: matchE_def)
  next
    case (Inr a)
    obtain ds where "snd (k a (l @ cs)) = (l @ cs) @ ds" "list_all P ds"
      using k [of a] unfolding emits_def by blast
    with Inr cs show ?thesis
      by (intro exI [of _ "cs @ ds"]) (cases "m l", simp add: matchE_def)
  qed
qed

lemma tryE_matchE: "tryE m k = matchE m fail k"
  by (simp add: tryE_def matchE_def fail_def fun_eq_iff split: prod.splits sum.splits)

lemma emits_tryE [emits_intros]:
  "emits P m \<Longrightarrow> (\<And>a. emits P (k a)) \<Longrightarrow> emits P (tryE m k)"
  unfolding tryE_matchE by (rule emits_matchE) (auto intro: emits_intros)

lemma emits_if [emits_intros]:
  "(b \<Longrightarrow> emits P m) \<Longrightarrow> (\<not> b \<Longrightarrow> emits P n) \<Longrightarrow> emits P (if b then m else n)"
  by simp

lemma emits_case_option [emits_intros]:
  "(x = None \<Longrightarrow> emits P m) \<Longrightarrow> (\<And>a. x = Some a \<Longrightarrow> emits P (n a)) \<Longrightarrow>
     emits P (case x of None \<Rightarrow> m | Some a \<Rightarrow> n a)"
  by (cases x) auto

lemma emits_case_sum [emits_intros]:
  "(\<And>e. x = Inl e \<Longrightarrow> emits P (m e)) \<Longrightarrow> (\<And>a. x = Inr a \<Longrightarrow> emits P (n a)) \<Longrightarrow>
     emits P (case x of Inl e \<Rightarrow> m e | Inr a \<Rightarrow> n a)"
  by (cases x) auto

lemma emits_weaken: "emits P m \<Longrightarrow> (\<And>c. P c \<Longrightarrow> Q c) \<Longrightarrow> emits Q m"
  unfolding emits_def by (meson list.pred_mono_strong)

lemma emits_calls_of: "emits P m \<Longrightarrow> c \<in> set (calls_of m) \<Longrightarrow> P c"
  unfolding emits_def calls_of_def by (metis append_Nil list_all_iff)

lemma wp_emits:
  assumes "emits P m"
  shows "wp m (\<lambda>r l'. \<exists>cs. l' = l @ cs \<and> list_all P cs) l"
  using assms by (simp add: emits_def wp_def)

lemma wp_tryE_seq:
  assumes "wp m R l"
    and "\<And>e l'. R (Inl e) l' \<Longrightarrow> Q (Inl e) l'"
    and "\<And>a l'. R (Inr a) l' \<Longrightarrow> wp (k a) Q l'"
  shows "wp (tryE m k) Q l"
  unfolding wp_tryE by (rule wp_mono [OF assms(1)]) (auto split: sum.splits intro: assms(2,3))

lemma wp_calls: "wp m (\<lambda>r l'. Q l') [] \<Longrightarrow> Q (calls_of m)"
  by (simp add: wp_result)

section \<open>Ordered dictionaries: \<^verbatim>\<open>BTreeMap\<close>\<close>

text \<open>
  A \<^verbatim>\<open>BTreeMap\<close> is the list of its entries in key order.  Inserting replaces the
  value of an equal key.
\<close>

fun bt_insert :: "'k::linorder \<Rightarrow> 'v \<Rightarrow> ('k \<times> 'v) list \<Rightarrow> ('k \<times> 'v) list" where
  "bt_insert k v [] = [(k, v)]"
| "bt_insert k v (e # es) =
     (if k < fst e then (k, v) # e # es
      else if k = fst e then (k, v) # es
      else e # bt_insert k v es)"

definition bt_get :: "('k \<times> 'v) list \<Rightarrow> 'k \<Rightarrow> 'v option" where
  "bt_get m k = map_of m k"

definition bt_collect :: "('k::linorder \<times> 'v) list \<Rightarrow> ('k \<times> 'v) list" where
  "bt_collect es = fold (\<lambda>(k, v) m. bt_insert k v m) es []"

text \<open>\<^verbatim>\<open>BTreeMap::append\<close>: the other map's entries win.\<close>

definition bt_append :: "('k::linorder \<times> 'v) list \<Rightarrow> ('k \<times> 'v) list \<Rightarrow> ('k \<times> 'v) list" where
  "bt_append m n = fold (\<lambda>(k, v) m. bt_insert k v m) n m"

text \<open>\<^verbatim>\<open>entry(key).or_insert(value)\<close>: keep the value that is there.\<close>

definition bt_or_insert :: "'k::linorder \<Rightarrow> 'v \<Rightarrow> ('k \<times> 'v) list \<Rightarrow> ('k \<times> 'v) list" where
  "bt_or_insert k v m = (case bt_get m k of None \<Rightarrow> bt_insert k v m | Some _ \<Rightarrow> m)"

definition bt_sorted :: "('k::linorder \<times> 'v) list \<Rightarrow> bool" where
  "bt_sorted m = sorted_wrt (<) (map fst m)"

text \<open>The interface the clients of a map rely on.\<close>

locale ordered_dict =
  fixes emp :: "'m"
    and ins :: "'k::linorder \<Rightarrow> 'v \<Rightarrow> 'm \<Rightarrow> 'm"
    and get :: "'m \<Rightarrow> 'k \<Rightarrow> 'v option"
    and entries :: "'m \<Rightarrow> ('k \<times> 'v) list"
    and inv :: "'m \<Rightarrow> bool"
  assumes get_emp: "get emp k = None"
    and get_ins: "inv m \<Longrightarrow> get (ins k v m) k' = (if k' = k then Some v else get m k')"
    and get_entries: "inv m \<Longrightarrow> get m k = Some v \<longleftrightarrow> (k, v) \<in> set (entries m)"
    and ordered: "inv m \<Longrightarrow> sorted_wrt (<) (map fst (entries m))"
    and inv_emp: "inv emp"
    and inv_ins: "inv m \<Longrightarrow> inv (ins k v m)"
begin

definition collect :: "('k \<times> 'v) list \<Rightarrow> 'm" where
  "collect es = fold (\<lambda>(k, v) m. ins k v m) es emp"

lemma inv_fold: "inv m \<Longrightarrow> inv (fold (\<lambda>(k, v) m. ins k v m) es m)"
  by (induction es arbitrary: m) (auto intro: inv_ins)

lemma get_fold:
  "inv m \<Longrightarrow> get (fold (\<lambda>(k, v) m. ins k v m) es m) k =
     (case map_of (rev es) k of None \<Rightarrow> get m k | Some v \<Rightarrow> Some v)"
  by (induction es arbitrary: m)
     (auto simp: inv_ins get_ins map_add_def split: option.splits)

lemma inv_collect: "inv (collect es)"
  unfolding collect_def by (rule inv_fold) (rule inv_emp)

lemma get_collect: "get (collect es) k = map_of (rev es) k"
  unfolding collect_def by (simp add: get_fold inv_emp get_emp split: option.splits)

lemma distinct_entries: "inv m \<Longrightarrow> distinct (map fst (entries m))"
  by (drule ordered) (simp add: strict_sorted_iff)

lemma entries_collect_subset: "set (entries (collect es)) \<subseteq> set es"
proof
  fix x assume "x \<in> set (entries (collect es))"
  then have "get (collect es) (fst x) = Some (snd x)"
    using get_entries [OF inv_collect, of es "fst x" "snd x"] by simp
  then show "x \<in> set es"
    by (auto simp: get_collect dest!: map_of_SomeD)
qed

lemma keys_collect: "fst ` set (entries (collect es)) = fst ` set es"
proof
  show "fst ` set (entries (collect es)) \<subseteq> fst ` set es"
    using entries_collect_subset by (rule image_mono)
  show "fst ` set es \<subseteq> fst ` set (entries (collect es))"
  proof
    fix k assume "k \<in> fst ` set es"
    then have "map_of (rev es) k \<noteq> None"
      by (simp add: map_of_eq_None_iff)
    then obtain v where "get (collect es) k = Some v"
      by (auto simp: get_collect)
    then have "(k, v) \<in> set (entries (collect es))"
      using get_entries [OF inv_collect] by blast
    then show "k \<in> fst ` set (entries (collect es))"
      by force
  qed
qed

end

lemma set_keys_bt_insert: "fst ` set (bt_insert k v m) = insert k (fst ` set m)"
  by (induction m) auto

lemma bt_get_insert: "bt_get (bt_insert k v m) k' = (if k' = k then Some v else bt_get m k')"
  unfolding bt_get_def by (induction m) auto

lemma bt_sorted_insert: "bt_sorted m \<Longrightarrow> bt_sorted (bt_insert k v m)"
proof (induction m)
  case Nil
  then show ?case by (simp add: bt_sorted_def)
next
  case (Cons e es)
  then have IH: "bt_sorted (bt_insert k v es)" and above: "\<forall>x\<in>fst ` set es. fst e < x"
    by (auto simp: bt_sorted_def)
  consider "k < fst e" | "k = fst e" | "fst e < k" by fastforce
  then show ?case
  proof cases
    case 1
    with Cons.prems above show ?thesis
      by (auto simp: bt_sorted_def intro: order_less_trans)
  next
    case 2
    with Cons.prems show ?thesis by (auto simp: bt_sorted_def)
  next
    case 3
    then have "\<forall>x\<in>fst ` set (bt_insert k v es). fst e < x"
      using above by (simp add: set_keys_bt_insert)
    with 3 IH show ?thesis by (auto simp: bt_sorted_def)
  qed
qed

lemma bt_sorted_Nil: "bt_sorted []"
  by (simp add: bt_sorted_def)

interpretation bt: ordered_dict "[]" bt_insert bt_get "\<lambda>m. m" bt_sorted
proof unfold_locales
  show "bt_get [] k = None" for k
    by (simp add: bt_get_def)
  show "bt_get m k = Some v \<longleftrightarrow> (k, v) \<in> set m" if "bt_sorted m" for m k and v :: 'b
    using that unfolding bt_get_def bt_sorted_def
    by (simp add: map_of_eq_Some_iff strict_sorted_iff)
qed (auto simp: bt_get_insert bt_sorted_insert bt_sorted_Nil, auto simp: bt_sorted_def)

lemma bt_collect_eq: "bt_collect = bt.collect"
  by (simp add: fun_eq_iff bt_collect_def bt.collect_def)

lemma bt_get_collect: "bt_get (bt_collect es) k = map_of (rev es) k"
  by (simp add: bt_collect_eq bt.get_collect)

lemma bt_sorted_collect: "bt_sorted (bt_collect es)"
  by (simp add: bt_collect_eq bt.inv_collect)

lemma bt_sorted_append: "bt_sorted m \<Longrightarrow> bt_sorted (bt_append m n)"
  unfolding bt_append_def by (rule bt.inv_fold)

lemma bt_get_append:
  "bt_sorted m \<Longrightarrow> bt_get (bt_append m n) k =
     (case map_of (rev n) k of None \<Rightarrow> bt_get m k | Some v \<Rightarrow> Some v)"
  unfolding bt_append_def by (rule bt.get_fold)

lemma bt_get_or_insert:
  "bt_get (bt_or_insert k v m) k' =
     (if k' = k then (case bt_get m k of None \<Rightarrow> Some v | Some w \<Rightarrow> Some w) else bt_get m k')"
  by (auto simp: bt_or_insert_def bt_get_insert split: option.splits)

section \<open>Lists\<close>

text \<open>\<^verbatim>\<open>Vec::truncate\<close>, \<^verbatim>\<open>Vec::pop\<close> and the first element an iterator finds.\<close>

lemma filter_sort_key: "filter P (sort_key f xs) = sort_key f (filter P xs)"
  by (rule filter_sort)

lemma find_Some_D: "List.find P xs = Some x \<Longrightarrow> x \<in> set xs \<and> P x"
  by (induction xs) (auto split: if_splits)

lemma find_None_D: "List.find P xs = None \<longleftrightarrow> (\<forall>x\<in>set xs. \<not> P x)"
  by (induction xs) auto

fun join :: "string \<Rightarrow> string list \<Rightarrow> string" where
  "join sep [] = []"
| "join sep [x] = x"
| "join sep (x # xs) = x @ sep @ join sep xs"

end
