(* ===== verification/Ark_Std.thy ===== *)
theory Ark_Std
  imports Ark_Prelude "HOL-Library.Word"
begin

text \<open>
  The parts of Rust's standard library the program uses: \<^verbatim>\<open>Display\<close> and
  \<^verbatim>\<open>FromStr\<close> of numbers and booleans, and \<^verbatim>\<open>std::net::IpAddr\<close> with its
  textual form and derived order, names of paths, and integers that wrap.  Strings are byte lists (\<open>string\<close>), ordered
  bytewise as \<^verbatim>\<open>str\<close> is.
\<close>

type_synonym u8 = "8 word"
type_synonym u16 = "16 word"
type_synonym u32 = "32 word"
type_synonym u64 = "64 word"
type_synonym i32 = int
type_synonym i64 = int
type_synonym uuid = "128 word"

text \<open>A \<^verbatim>\<open>jiff::Timestamp\<close> and a duration: nanoseconds.\<close>

type_synonym timestamp = int
type_synonym duration = int

definition seconds :: "int \<Rightarrow> duration" where
  "seconds n = n * 1000000000"

definition hours :: "int \<Rightarrow> duration" where
  "hours n = seconds (n * 3600)"

section \<open>Display and parsing\<close>

definition digit_char :: "int \<Rightarrow> char" where
  "digit_char d = char_of (if d < 10 then 48 + d else 87 + d)"

text \<open>The digits of a number that is not negative, most significant first.\<close>

function digits_of :: "int \<Rightarrow> int \<Rightarrow> string" where
  "digits_of b n =
     (if b < 2 \<or> n < b then [digit_char n]
      else digits_of b (n div b) @ [digit_char (n mod b)])"
  by pat_completeness auto
termination
proof (relation "measure (\<lambda>(b, n). nat n)", simp)
  fix b n :: int
  assume "\<not> (b < 2 \<or> n < b)"
  then have "n div b < n" "0 < n" by (auto intro: int_div_less_self)
  then show "((b, n div b), (b, n)) \<in> measure (\<lambda>(b, n). nat n)" by simp
qed

declare digits_of.simps [simp del]

definition nat_str :: "nat \<Rightarrow> string" where
  "nat_str n = digits_of 10 (int n)"

text \<open>\<^verbatim>\<open>Display\<close> of an unsigned machine integer.\<close>

definition word_str :: "'w::len word \<Rightarrow> string" where
  "word_str w = digits_of 10 (uint w)"

definition int_str :: "int \<Rightarrow> string" where
  "int_str i = (if i < 0 then CHR ''-'' # digits_of 10 (- i) else digits_of 10 i)"

definition bool_str :: "bool \<Rightarrow> string" where
  "bool_str b = (if b then ''true'' else ''false'')"

definition bool_parse :: "string \<Rightarrow> bool option" where
  "bool_parse s = (if s = ''true'' then Some True else if s = ''false'' then Some False else None)"

definition digit_val :: "char \<Rightarrow> int option" where
  "digit_val c = (let n = of_char c in if 48 \<le> n \<and> n < 58 then Some (n - 48) else None)"

fun digits_val :: "int \<Rightarrow> string \<Rightarrow> int option" where
  "digits_val acc [] = Some acc"
| "digits_val acc (c # cs) =
     (case digit_val c of None \<Rightarrow> None | Some d \<Rightarrow> digits_val (acc * 10 + d) cs)"

text \<open>\<^verbatim>\<open>u64::from_str\<close>: an optional plus sign, at least one digit, no overflow.\<close>

definition strip_plus :: "string \<Rightarrow> string" where
  "strip_plus s = (if s \<noteq> [] \<and> hd s = CHR ''+'' then tl s else s)"

definition nat_parse :: "int \<Rightarrow> string \<Rightarrow> int option" where
  "nat_parse bound s =
     (let ds = strip_plus s
      in if ds = [] then None
         else case digits_val 0 ds of
                None \<Rightarrow> None
              | Some n \<Rightarrow> if n < bound then Some n else None)"

definition u64_parse :: "string \<Rightarrow> u64 option" where
  "u64_parse s = map_option of_int (nat_parse (2 ^ 64) s)"

definition u16_parse :: "string \<Rightarrow> u16 option" where
  "u16_parse s = map_option of_int (nat_parse (2 ^ 16) s)"

lemma digit_val_digit_char: "0 \<le> d \<Longrightarrow> d < 10 \<Longrightarrow> digit_val (digit_char d) = Some d"
  by (simp add: digit_val_def digit_char_def Let_def)

lemma digits_val_append:
  "digits_val acc (xs @ [c]) =
     (case digits_val acc xs of None \<Rightarrow> None
      | Some n \<Rightarrow> map_option (\<lambda>d. n * 10 + d) (digit_val c))"
  by (induction xs arbitrary: acc) (auto split: option.splits)

lemma digits_val_digits_of: "0 \<le> n \<Longrightarrow> digits_val 0 (digits_of 10 n) = Some n"
proof (induction "10 :: int" n rule: digits_of.induct)
  case (1 n)
  show ?case
  proof (cases "n < 10")
    case True
    with 1 show ?thesis
      by (subst digits_of.simps) (simp add: digit_val_digit_char)
  next
    case False
    with 1 show ?thesis
      by (subst digits_of.simps)
         (simp add: digits_val_append digit_val_digit_char div_mult_mod_eq)
  qed
qed

lemma digits_of_hd: "0 \<le> n \<Longrightarrow> \<exists>d cs. 0 \<le> d \<and> d < 10 \<and> digits_of 10 n = digit_char d # cs"
proof (induction "10 :: int" n rule: digits_of.induct)
  case (1 n)
  show ?case
  proof (cases "n < 10")
    case True
    with 1 show ?thesis by (subst digits_of.simps) auto
  next
    case False
    then have "0 \<le> n div 10" by simp
    with False obtain d cs where "0 \<le> d" "d < 10" "digits_of 10 (n div 10) = digit_char d # cs"
      using "1.hyps" by fastforce
    with False show ?thesis by (subst digits_of.simps) auto
  qed
qed

lemma digit_char_not_plus: "0 \<le> d \<Longrightarrow> d < 10 \<Longrightarrow> digit_char d \<noteq> CHR ''+''"
  using digit_val_digit_char [of d] by (auto simp: digit_val_def)

lemma nat_parse_digits_of: "0 \<le> n \<Longrightarrow> n < bound \<Longrightarrow> nat_parse bound (digits_of 10 n) = Some n"
  using digits_of_hd [of n] digits_val_digits_of [of n]
  by (auto simp: nat_parse_def strip_plus_def digit_char_not_plus Let_def)

lemma nat_str_inj: "nat_str a = nat_str b \<Longrightarrow> a = b"
  unfolding nat_str_def
  by (metis digits_val_digits_of option.inject of_nat_0_le_iff of_nat_eq_iff)

lemma word_str_inj: "word_str a = word_str b \<Longrightarrow> a = b"
  unfolding word_str_def
  by (metis digits_val_digits_of option.inject uint_ge_0 word_uint_eq_iff)

lemma u64_parse_word_str: "u64_parse (word_str w) = Some w"
  using uint_bounded [of w] by (simp add: u64_parse_def word_str_def nat_parse_digits_of)

text \<open>\<^verbatim>\<open>i64::from_str\<close>: an optional sign, at least one digit, no overflow.\<close>

definition i64_parse :: "string \<Rightarrow> int option" where
  "i64_parse s =
     (if s \<noteq> [] \<and> hd s = CHR ''-'' then
        (if tl s = [] then None
         else case digits_val 0 (tl s) of
                None \<Rightarrow> None
              | Some n \<Rightarrow> if n \<le> 2 ^ 63 then Some (- n) else None)
      else nat_parse (2 ^ 63) s)"

lemma digit_char_not_minus: "0 \<le> d \<Longrightarrow> d < 10 \<Longrightarrow> digit_char d \<noteq> CHR ''-''"
  using digit_val_digit_char [of d] by (auto simp: digit_val_def)

lemma i64_parse_int_str:
  assumes "- (2 ^ 63) \<le> n" and "n < 2 ^ 63"
  shows "i64_parse (int_str n) = Some n"
proof (cases "n < 0")
  case True
  obtain d cs where "digits_of 10 (- n) = digit_char d # cs"
    using digits_of_hd [of "- n"] True by auto
  with True assms show ?thesis
    using digits_val_digits_of [of "- n"] by (simp add: i64_parse_def int_str_def)
next
  case False
  obtain d cs where hd: "0 \<le> d" "d < 10" "digits_of 10 n = digit_char d # cs"
    using digits_of_hd [of n] False by auto
  from digit_char_not_minus [OF hd(1,2)] have "i64_parse (digits_of 10 n) = nat_parse (2 ^ 63) (digits_of 10 n)"
    unfolding i64_parse_def hd(3) by simp
  with False assms show ?thesis
    by (simp add: int_str_def nat_parse_digits_of)
qed

lemma i64_parse_Nil [simp]: "i64_parse [] = None"
  by (simp add: i64_parse_def nat_parse_def strip_plus_def)

lemma bool_parse_str: "bool_parse (bool_str b) = Some b"
  by (simp add: bool_parse_def bool_str_def)

text \<open>\<^verbatim>\<open>str::trim().is_empty()\<close>, for ASCII white space.\<close>

definition is_space :: "char \<Rightarrow> bool" where
  "is_space c = (c = CHR '' '' \<or> of_char c \<in> {9 .. 13 :: nat})"

definition is_blank :: "string \<Rightarrow> bool" where
  "is_blank s = list_all is_space s"

text \<open>\<^verbatim>\<open>str::trim\<close>, for ASCII white space.\<close>

definition trim :: "string \<Rightarrow> string" where
  "trim s = rev (dropWhile is_space (rev (dropWhile is_space s)))"

section \<open>IP addresses\<close>

datatype IpAddr = V4 u32 | V6 "128 word"

instantiation IpAddr :: linorder
begin

fun less_eq_IpAddr :: "IpAddr \<Rightarrow> IpAddr \<Rightarrow> bool" where
  "less_eq_IpAddr (V4 a) (V4 b) = (a \<le> b)"
| "less_eq_IpAddr (V4 a) (V6 b) = True"
| "less_eq_IpAddr (V6 a) (V4 b) = False"
| "less_eq_IpAddr (V6 a) (V6 b) = (a \<le> b)"

definition less_IpAddr :: "IpAddr \<Rightarrow> IpAddr \<Rightarrow> bool" where
  "less_IpAddr a b = (a \<le> b \<and> \<not> b \<le> a)"

instance
proof
  fix x y z :: IpAddr
  show "(x < y) = (x \<le> y \<and> \<not> y \<le> x)" by (rule less_IpAddr_def)
  show "x \<le> x" by (cases x) auto
  show "x \<le> y \<Longrightarrow> y \<le> z \<Longrightarrow> x \<le> z" by (cases x; cases y; cases z) auto
  show "x \<le> y \<Longrightarrow> y \<le> x \<Longrightarrow> x = y" by (cases x; cases y) auto
  show "x \<le> y \<or> y \<le> x" by (cases x; cases y) auto
qed

end

definition ipv4_str :: "u32 \<Rightarrow> string" where
  "ipv4_str a = (let n = uint a in
     join ''.'' (map (digits_of 10) [n div 16777216, n div 65536 mod 256, n div 256 mod 256, n mod 256]))"

text \<open>\<^verbatim>\<open>Ipv4Addr::from_str\<close>: four decimal octets of at most three digits, without
  leading zeros.\<close>

fun split_on :: "char \<Rightarrow> string \<Rightarrow> string list" where
  "split_on c [] = [[]]"
| "split_on c (x # xs) =
     (if x = c then [] # split_on c xs
      else (case split_on c xs of [] \<Rightarrow> [[x]] | s # ss \<Rightarrow> (x # s) # ss))"

definition octet_parse :: "string \<Rightarrow> int option" where
  "octet_parse s =
     (if s = [] \<or> length s > 3 \<or> (length s > 1 \<and> hd s = CHR ''0'') then None
      else case digits_val 0 s of
             None \<Rightarrow> None
           | Some n \<Rightarrow> if n < 256 then Some n else None)"

definition ipv4_parse :: "string \<Rightarrow> u32 option" where
  "ipv4_parse s =
     (case map octet_parse (split_on CHR ''.'' s) of
        [Some a, Some b, Some c, Some d] \<Rightarrow>
          Some (of_int (a * 16777216 + b * 65536 + c * 256 + d))
      | _ \<Rightarrow> None)"

definition ipv6_segments :: "128 word \<Rightarrow> int list" where
  "ipv6_segments a = map (\<lambda>i. uint a div 2 ^ (112 - 16 * i) mod 65536) [0..<8]"

text \<open>The first longest run of zero segments, as (start, length).\<close>

fun zero_run :: "nat \<Rightarrow> nat \<times> nat \<Rightarrow> nat \<times> nat \<Rightarrow> int list \<Rightarrow> nat \<times> nat" where
  "zero_run i current longest [] = longest"
| "zero_run i current longest (x # xs) =
     (if x = 0 then
        (let c = (if snd current = 0 then i else fst current, snd current + 1)
         in zero_run (i + 1) c (if snd c > snd longest then c else longest) xs)
      else zero_run (i + 1) (0, 0) longest xs)"

definition ipv6_str :: "128 word \<Rightarrow> string" where
  "ipv6_str a =
     (let segs = ipv6_segments a;
          hex = (\<lambda>xs. join '':'' (map (digits_of 16) xs))
      in if take 6 segs = [0, 0, 0, 0, 0, 65535]
         then ''::ffff:'' @ ipv4_str (of_int (uint a))
         else (let (start, len) = zero_run 0 (0, 0) (0, 0) segs
               in if len > 1
                  then hex (take start segs) @ ''::'' @ hex (drop (start + len) segs)
                  else hex segs))"

fun ip_str :: "IpAddr \<Rightarrow> string" where
  "ip_str (V4 a) = ipv4_str a"
| "ip_str (V6 a) = ipv6_str a"

section \<open>Paths\<close>

text \<open>\<^verbatim>\<open>Path::file_name\<close>, \<^verbatim>\<open>Path::extension\<close>, and the
  trimming of a character.\<close>

definition file_name :: "string \<Rightarrow> string option" where
  "file_name path =
     (case rev (filter (\<lambda>c. c \<noteq> [] \<and> c \<noteq> ''.'') (split_on (CHR ''/'') path)) of
        [] \<Rightarrow> None
      | c # _ \<Rightarrow> if c = ''..'' then None else Some c)"

definition name_extension :: "string \<Rightarrow> string option" where
  "name_extension name =
     (case rev (split_on (CHR ''.'') name) of
        ext # before \<Rightarrow> if before = [] \<or> before = [[]] then None else Some ext
      | [] \<Rightarrow> None)"

definition extension :: "string \<Rightarrow> string option" where
  "extension path = Option.bind (file_name path) name_extension"

definition trim_start_char :: "char \<Rightarrow> string \<Rightarrow> string" where
  "trim_start_char c s = dropWhile (\<lambda>x. x = c) s"

definition trim_end_char :: "char \<Rightarrow> string \<Rightarrow> string" where
  "trim_end_char c s = rev (dropWhile (\<lambda>x. x = c) (rev s))"

section \<open>Integers that wrap\<close>

definition wrap64 :: "int \<Rightarrow> i64" where
  "wrap64 n = (n + 2 ^ 63) mod 2 ^ 64 - 2 ^ 63"

definition wrap32 :: "int \<Rightarrow> i32" where
  "wrap32 n = (n + 2 ^ 31) mod 2 ^ 32 - 2 ^ 31"

text \<open>An \<^verbatim>\<open>i32\<close> or a \<^verbatim>\<open>usize\<close>, cast to \<^verbatim>\<open>usize\<close>.\<close>

definition as_usize :: "int \<Rightarrow> int" where
  "as_usize n = n mod 2 ^ 64"

lemma wrap64_id: "- (2 ^ 63) \<le> n \<Longrightarrow> n < 2 ^ 63 \<Longrightarrow> wrap64 n = n"
  by (simp add: wrap64_def)

lemma wrap64_range: "- (2 ^ 63) \<le> wrap64 n \<and> wrap64 n < 2 ^ 63"
  by (simp add: wrap64_def)

lemma wrap32_id: "- (2 ^ 31) \<le> n \<Longrightarrow> n < 2 ^ 31 \<Longrightarrow> wrap32 n = n"
  by (simp add: wrap32_def)

lemma as_usize_id: "0 \<le> n \<Longrightarrow> n < 2 ^ 64 \<Longrightarrow> as_usize n = n"
  by (simp add: as_usize_def)

end
