(* ===== verification/Ark_Kube.thy ===== *)
theory Ark_Kube
  imports Ark_Std
begin

text \<open>
  The Kubernetes vocabulary the crates use: object metadata (\<^verbatim>\<open>k8s_openapi\<close>), the
  controller's \<^verbatim>\<open>Action\<close>, errors.  These are data only.  What the API server
  answers is a parameter of every handler; it is never defined here.
\<close>

text \<open>\<^verbatim>\<open>kube::Error\<close>, \<^verbatim>\<open>anyhow::Error\<close> and panics: a message.\<close>

datatype error = KubeError string | Anyhow string | Panic string

text \<open>\<^verbatim>\<open>kube::runtime::controller::Action\<close>.\<close>

datatype Action = Requeue duration | AwaitChange

type_synonym labels = "(string \<times> string) list"

record OwnerReference =
  owner_kind :: string
  owner_name :: string
  owner_uid :: string
  owner_block_deletion :: "bool option"
  owner_controller :: "bool option"

record ObjectMeta =
  meta_name :: "string option"
  meta_namespace :: "string option"
  meta_annotations :: "labels option"
  meta_labels :: "labels option"
  meta_creation :: "timestamp option"
  meta_deletion :: "timestamp option"
  meta_generation :: "int option"
  meta_resource_version :: "string option"
  meta_uid :: "string option"
  meta_owners :: "OwnerReference list option"
  meta_finalizers :: "string list option"

definition meta_default :: ObjectMeta where
  "meta_default = \<lparr>meta_name = None, meta_namespace = None, meta_annotations = None,
     meta_labels = None, meta_creation = None, meta_deletion = None, meta_generation = None,
     meta_resource_version = None, meta_uid = None, meta_owners = None,
     meta_finalizers = None\<rparr>"

text \<open>\<^verbatim>\<open>ResourceExt::name_any\<close>: the name, or the generated name, or nothing; the
  objects a controller reconciles have a name.\<close>

definition name_any :: "ObjectMeta \<Rightarrow> string" where
  "name_any m = (case meta_name m of Some n \<Rightarrow> n | None \<Rightarrow> [])"

definition label_of :: "ObjectMeta \<Rightarrow> string \<Rightarrow> string option" where
  "label_of m k = Option.bind (meta_labels m) (\<lambda>ls. bt_get ls k)"

text \<open>\<^verbatim>\<open>metav1.Condition\<close>.\<close>

record Condition =
  last_transition_time :: timestamp
  cond_message :: string
  observed_generation :: "int option"
  cond_reason :: string
  cond_status :: string
  cond_type :: string

text \<open>Resource quantities are texts; requirements map a resource name to its quantity.\<close>

type_synonym Quantity = string

record ResourceRequirements =
  res_limits :: "(string \<times> Quantity) list option"
  res_requests :: "(string \<times> Quantity) list option"

text \<open>The event a controller publishes.\<close>

datatype EventType = Normal | Warning

record Event =
  event_type :: EventType
  event_reason :: string
  event_note :: "string option"
  event_action :: string

text \<open>\<^verbatim>\<open>unwrap_or_default\<close> and friends.\<close>

definition unwrap_or :: "'a \<Rightarrow> 'a option \<Rightarrow> 'a" where
  "unwrap_or d x = (case x of None \<Rightarrow> d | Some a \<Rightarrow> a)"

lemma unwrap_or_simps [simp]: "unwrap_or d None = d" "unwrap_or d (Some a) = a"
  by (simp_all add: unwrap_or_def)

definition is_none_or :: "('a \<Rightarrow> bool) \<Rightarrow> 'a option \<Rightarrow> bool" where
  "is_none_or P x = (case x of None \<Rightarrow> True | Some a \<Rightarrow> P a)"

definition is_some_and :: "('a \<Rightarrow> bool) \<Rightarrow> 'a option \<Rightarrow> bool" where
  "is_some_and P x = (case x of None \<Rightarrow> False | Some a \<Rightarrow> P a)"

lemma is_none_or_simps [simp]: "is_none_or P None" "is_none_or P (Some a) = P a"
  by (simp_all add: is_none_or_def)

lemma is_some_and_simps [simp]: "\<not> is_some_and P None" "is_some_and P (Some a) = P a"
  by (simp_all add: is_some_and_def)

end
