(* ===== verification/Kiss_Box.thy ===== *)
theory Kiss_Box
  imports Ark_Kube
begin

text \<open>
  The box resource of \<^verbatim>\<open>crates/openark-kiss-api/src/box.rs\<close>: a bare-metal
  machine with its group (cluster and role), power and access information, and its
  life-cycle state.
\<close>

section \<open>Third-party code\<close>

text \<open>
  What the crates take from packages that are not in the repository, as parameters: the text of
  a UUID (\<^verbatim>\<open>uuid\<close>), snake-case conversion (\<^verbatim>\<open>convert_case\<close>) and IPv4 networks
  (\<^verbatim>\<open>ipnet\<close>).
\<close>

record Ipv4Net =
  net_addr :: u32
  net_prefix :: u8

record externals =
  uuid_str :: "uuid \<Rightarrow> string"
  to_snake :: "string \<Rightarrow> string"
  net_parse :: "string \<Rightarrow> Ipv4Net option"
  net_str :: "Ipv4Net \<Rightarrow> string"
  net_network :: "Ipv4Net \<Rightarrow> u32"
  net_netmask :: "Ipv4Net \<Rightarrow> u32"

section \<open>Groups and roles\<close>

datatype BoxGroupRole =
  ControlPlane | Compute | Dashboard | Desktop | Gateway | Storage | Robot
| GenericWorker | ExternalWorker

definition role_default :: BoxGroupRole where
  "role_default = GenericWorker"

definition is_domain_specific :: "BoxGroupRole \<Rightarrow> bool" where
  "is_domain_specific r = (case r of Robot \<Rightarrow> True | _ \<Rightarrow> False)"

definition is_member :: "BoxGroupRole \<Rightarrow> bool" where
  "is_member r = (case r of ExternalWorker \<Rightarrow> False | _ \<Rightarrow> True)"

definition to_playbook :: "BoxGroupRole \<Rightarrow> string" where
  "to_playbook r = ''playbook-'' @
     (case r of ControlPlane \<Rightarrow> ''control_plane'' | _ \<Rightarrow> ''worker'') @ ''.yaml''"

fun role_str :: "BoxGroupRole \<Rightarrow> string" where
  "role_str ControlPlane = ''ControlPlane''"
| "role_str Compute = ''Compute''"
| "role_str Dashboard = ''Dashboard''"
| "role_str Desktop = ''Desktop''"
| "role_str Gateway = ''Gateway''"
| "role_str Storage = ''Storage''"
| "role_str Robot = ''Robot''"
| "role_str GenericWorker = ''GenericWorker''"
| "role_str ExternalWorker = ''ExternalWorker''"

definition all_roles :: "BoxGroupRole list" where
  "all_roles = [ControlPlane, Compute, Dashboard, Desktop, Gateway, Storage, Robot,
     GenericWorker, ExternalWorker]"

text \<open>\<^verbatim>\<open>EnumString\<close>: the variant of that name.\<close>

definition role_parse :: "string \<Rightarrow> BoxGroupRole option" where
  "role_parse s = List.find (\<lambda>r. role_str r = s) all_roles"

lemma role_str_inj: "role_str r = role_str r' \<Longrightarrow> r = r'"
  by (cases r; cases r') auto

lemma role_parse_str [simp]: "role_parse (role_str r) = Some r"
  by (cases r) (simp_all add: role_parse_def all_roles_def)

record BoxGroupSpec =
  cluster_name :: string
  role :: BoxGroupRole

definition DEFAULT_CLUSTER_NAME :: string where
  "DEFAULT_CLUSTER_NAME = ''default''"

definition group_default :: BoxGroupSpec where
  "group_default = \<lparr>cluster_name = DEFAULT_CLUSTER_NAME, role = role_default\<rparr>"

definition is_default :: "BoxGroupSpec \<Rightarrow> bool" where
  "is_default g = (cluster_name g = DEFAULT_CLUSTER_NAME)"

definition cluster_domain :: "BoxGroupSpec \<Rightarrow> string" where
  "cluster_domain g =
     (if is_default g then ''openark'' else cluster_name g @ ''.openark'')"

section \<open>Machine, power, access\<close>

record BoxMachineSpec =
  machine_uuid :: uuid

definition hostname :: "externals \<Rightarrow> BoxMachineSpec \<Rightarrow> string" where
  "hostname X m = uuid_str X (machine_uuid m)"

datatype BoxPowerType = IntelAMT | Ipmi

record BoxPowerSpec =
  power_address :: "IpAddr option"
  power_type :: BoxPowerType

record BoxAccessInterfaceSpec =
  address :: IpAddr
  speed_mbps :: "u64 option"

record 'i BoxAccessSpec =
  primary :: "'i option"

definition access_default :: "'i BoxAccessSpec" where
  "access_default = \<lparr>primary = None\<rparr>"

definition management :: "BoxAccessInterfaceSpec BoxAccessSpec \<Rightarrow> BoxAccessInterfaceSpec option" where
  "management a = primary a"

section \<open>States\<close>

datatype BoxState =
  New | Commissioning | Ready | Joining | Running | GroupChanged | Failed | Disconnected

instantiation BoxState :: linorder
begin

fun state_rank :: "BoxState \<Rightarrow> nat" where
  "state_rank New = 0"
| "state_rank Commissioning = 1"
| "state_rank Ready = 2"
| "state_rank Joining = 3"
| "state_rank Running = 4"
| "state_rank GroupChanged = 5"
| "state_rank Failed = 6"
| "state_rank Disconnected = 7"

definition less_eq_BoxState :: "BoxState \<Rightarrow> BoxState \<Rightarrow> bool" where
  "less_eq_BoxState a b = (state_rank a \<le> state_rank b)"

definition less_BoxState :: "BoxState \<Rightarrow> BoxState \<Rightarrow> bool" where
  "less_BoxState a b = (state_rank a < state_rank b)"

instance
proof
  fix x y z :: BoxState
  show "x \<le> y \<Longrightarrow> y \<le> x \<Longrightarrow> x = y"
    unfolding less_eq_BoxState_def by (cases x; cases y) simp_all
qed (auto simp: less_eq_BoxState_def less_BoxState_def)

end

fun state_str :: "BoxState \<Rightarrow> string" where
  "state_str New = ''New''"
| "state_str Commissioning = ''Commissioning''"
| "state_str Ready = ''Ready''"
| "state_str Joining = ''Joining''"
| "state_str Running = ''Running''"
| "state_str GroupChanged = ''GroupChanged''"
| "state_str Failed = ''Failed''"
| "state_str Disconnected = ''Disconnected''"

definition all_states :: "BoxState list" where
  "all_states = [New, Commissioning, Ready, Joining, Running, GroupChanged, Failed, Disconnected]"

definition state_parse :: "string \<Rightarrow> BoxState option" where
  "state_parse s = List.find (\<lambda>x. state_str x = s) all_states"

lemma state_parse_str [simp]: "state_parse (state_str x) = Some x"
  by (cases x) (simp_all add: state_parse_def all_states_def)

fun as_task :: "BoxState \<Rightarrow> string option" where
  "as_task New = None"
| "as_task Commissioning = Some ''commission''"
| "as_task Ready = None"
| "as_task Joining = Some ''join''"
| "as_task Running = Some ''ping''"
| "as_task GroupChanged = Some ''reset''"
| "as_task Failed = Some ''reset''"
| "as_task Disconnected = Some ''reset''"

fun cron :: "BoxState \<Rightarrow> string option" where
  "cron Running = Some ''@hourly''"
| "cron GroupChanged = Some ''@hourly''"
| "cron Failed = Some ''@hourly''"
| "cron Disconnected = Some ''@hourly''"
| "cron _ = None"

fun next_state :: "BoxState \<Rightarrow> BoxState" where
  "next_state New = Commissioning"
| "next_state Commissioning = Commissioning"
| "next_state Ready = Joining"
| "next_state Joining = Joining"
| "next_state Running = Running"
| "next_state GroupChanged = GroupChanged"
| "next_state Failed = Failed"
| "next_state Disconnected = Disconnected"

fun timeout :: "BoxState \<Rightarrow> duration option" where
  "timeout New = None"
| "timeout Commissioning = Some (hours 2)"
| "timeout Ready = None"
| "timeout Joining = Some (hours 2)"
| "timeout Running = None"
| "timeout GroupChanged = None"
| "timeout Failed = None"
| "timeout Disconnected = None"

definition timeout_new :: duration where
  "timeout_new = seconds 30"

fun complete :: "BoxState \<Rightarrow> BoxState option" where
  "complete New = None"
| "complete Commissioning = None"
| "complete Ready = None"
| "complete Joining = Some Running"
| "complete Running = None"
| "complete GroupChanged = None"
| "complete Failed = None"
| "complete Disconnected = None"

section \<open>The resource\<close>

record BoxSpec =
  group :: BoxGroupSpec
  machine :: BoxMachineSpec
  power :: "BoxPowerSpec option"

record BoxStatus =
  state :: BoxState
  access :: "BoxAccessInterfaceSpec BoxAccessSpec"
  bind_group :: "BoxGroupSpec option"
  last_updated :: timestamp

record BoxCrd =
  metadata :: ObjectMeta
  spec :: BoxSpec
  status :: "BoxStatus option"

definition crd_last_updated :: "BoxCrd \<Rightarrow> timestamp option" where
  "crd_last_updated b =
     (case map_option last_updated (status b) of
        Some t \<Rightarrow> Some t
      | None \<Rightarrow> meta_creation (metadata b))"

section \<open>Requests of the gateway\<close>

record BoxAccessInterfaceQuery =
  query_address :: IpAddr
  query_speed_mbps :: "string option"

definition try_from_interface :: "BoxAccessInterfaceQuery \<Rightarrow> error + BoxAccessInterfaceSpec" where
  "try_from_interface v =
     (case query_speed_mbps v of
        None \<Rightarrow> Inr \<lparr>address = query_address v, speed_mbps = None\<rparr>
      | Some s \<Rightarrow> (case u64_parse s of
                     None \<Rightarrow> Inl (Anyhow ''ParseIntError'')
                   | Some n \<Rightarrow> Inr \<lparr>address = query_address v, speed_mbps = Some n\<rparr>))"

definition try_from_access ::
  "BoxAccessInterfaceQuery BoxAccessSpec \<Rightarrow> error + BoxAccessInterfaceSpec BoxAccessSpec" where
  "try_from_access v =
     (case primary v of
        None \<Rightarrow> Inr \<lparr>primary = None\<rparr>
      | Some q \<Rightarrow> (case try_from_interface q of
                     Inl e \<Rightarrow> Inl e
                   | Inr i \<Rightarrow> Inr \<lparr>primary = Some i\<rparr>))"

record BoxNewQuery =
  new_access_primary :: BoxAccessInterfaceQuery
  new_machine :: BoxMachineSpec

record BoxCommissionQuery =
  com_access :: "BoxAccessInterfaceQuery BoxAccessSpec"
  com_machine :: BoxMachineSpec
  com_power :: "BoxPowerSpec option"
  com_reset :: bool

section \<open>Facts about the state machine of a box\<close>

text \<open>Every state but Ready either stays, or leaves New: \<open>next_state\<close> is idempotent.\<close>

lemma next_state_idem: "next_state (next_state x) = next_state x"
  by (cases x) simp_all

lemma next_state_le: "x \<le> next_state x"
  by (cases x) (simp_all add: less_eq_BoxState_def)

lemma cron_has_task: "cron x \<noteq> None \<Longrightarrow> as_task x \<noteq> None"
  by (cases x) simp_all

lemma timeout_is_waiting: "timeout x \<noteq> None \<Longrightarrow> next_state x = x \<and> cron x = None"
  by (cases x) simp_all

lemma complete_iff: "complete x = Some y \<longleftrightarrow> x = Joining \<and> y = Running"
  by (cases x) auto

lemma try_from_interface_roundtrip:
  "try_from_interface \<lparr>query_address = a, query_speed_mbps = map_option word_str s\<rparr> =
     Inr \<lparr>address = a, speed_mbps = s\<rparr>"
  by (cases s) (simp_all add: try_from_interface_def u64_parse_word_str)

section \<open>Example boxes\<close>

definition example_externals :: externals where
  "example_externals = \<lparr>uuid_str = word_str, to_snake = (\<lambda>s. s), net_parse = (\<lambda>_. None),
     net_str = (\<lambda>_. []), net_network = net_addr, net_netmask = net_addr\<rparr>"

definition example_box :: "uuid \<Rightarrow> BoxGroupSpec \<Rightarrow> BoxStatus option \<Rightarrow> BoxCrd" where
  "example_box u g s = \<lparr>
     metadata = meta_default\<lparr>meta_name := Some (word_str u), meta_creation := Some (uint u)\<rparr>,
     spec = \<lparr>group = g, machine = \<lparr>machine_uuid = u\<rparr>, power = None\<rparr>,
     status = s\<rparr>"

definition example_status :: "BoxState \<Rightarrow> BoxGroupSpec option \<Rightarrow> BoxStatus" where
  "example_status st g = \<lparr>state = st,
     access = \<lparr>primary = Some \<lparr>address = V4 1, speed_mbps = None\<rparr>\<rparr>,
     bind_group = g, last_updated = 0\<rparr>"

end
