(* ===== verification/Kiss_Config.thy ===== *)
theory Kiss_Config
  imports Kiss_Box
begin

text \<open>
  The \<^verbatim>\<open>kiss-config\<close> config map of
  \<^verbatim>\<open>crates/openark-kiss-ansible/src/config.rs\<close>: every variable is required and parsed
  with the \<^verbatim>\<open>FromStr\<close> of its type; the first failure is the error.
\<close>

record KissConfig =
  allow_critical_commands :: bool
  allow_pruning_network_interfaces :: bool
  bootstrapper_network_dns_server_ns1 :: u32
  bootstrapper_network_dns_server_ns2 :: u32
  etcd_nodes_max :: nat
  group_default_role :: BoxGroupRole
  group_enable_default_cluster :: bool
  group_enforce_ansible_control_planes :: bool
  group_force_reset :: bool
  group_force_reset_os :: bool
  group_reset_storage :: bool
  kiss_cluster_name :: string
  kubespray_image :: string
  network_interface_mtu_size :: u16
  network_ipv4_dhcp_duration :: string
  network_ipv4_dhcp_range_begin :: u32
  network_ipv4_dhcp_range_end :: u32
  network_ipv4_gateway :: u32
  network_ipv4_subnet :: Ipv4Net
  network_nameserver_incluster_ipv4 :: u32
  os_dist :: string
  os_kernel :: string
  os_version :: string

definition infer :: "(string \<Rightarrow> 'r option) \<Rightarrow> labels option \<Rightarrow> string \<Rightarrow> error + 'r" where
  "infer parse data key =
     (case Option.bind data (\<lambda>d. bt_get d key) of
        None \<Rightarrow> Inl (Anyhow (''failed to find the configuration variable: '' @ key))
      | Some e \<Rightarrow> (case parse e of
                     None \<Rightarrow> Inl (Anyhow ''parse error'')
                   | Some r \<Rightarrow> Inr r))"

definition and_then :: "'e + 'a \<Rightarrow> ('a \<Rightarrow> 'e + 'b) \<Rightarrow> 'e + 'b" where
  "and_then r k = (case r of Inl e \<Rightarrow> Inl e | Inr a \<Rightarrow> k a)"

definition usize_parse :: "string \<Rightarrow> nat option" where
  "usize_parse s = map_option nat (nat_parse (2 ^ 64) s)"

definition try_default_config :: "externals \<Rightarrow> labels option \<Rightarrow> error + KissConfig" where
  "try_default_config X c =
     and_then (infer bool_parse c ''allow_critical_commands'') (\<lambda>acc.
     and_then (infer bool_parse c ''allow_pruning_network_interfaces'') (\<lambda>apn.
     and_then (infer ipv4_parse c ''bootstrapper_network_dns_server_ns1'') (\<lambda>ns1.
     and_then (infer ipv4_parse c ''bootstrapper_network_dns_server_ns2'') (\<lambda>ns2.
     and_then (infer usize_parse c ''etcd_nodes_max'') (\<lambda>enm.
     and_then (infer role_parse c ''group_default_role'') (\<lambda>gdr.
     and_then (infer bool_parse c ''group_enable_default_cluster'') (\<lambda>ged.
     and_then (infer bool_parse c ''group_enforce_ansible_control_planes'') (\<lambda>gea.
     and_then (infer bool_parse c ''group_force_reset'') (\<lambda>gfr.
     and_then (infer bool_parse c ''group_force_reset_os'') (\<lambda>gfo.
     and_then (infer bool_parse c ''group_reset_storage'') (\<lambda>grs.
     and_then (infer Some c ''kiss_cluster_name'') (\<lambda>kcn.
     and_then (infer Some c ''kubespray_image'') (\<lambda>ki.
     and_then (infer u16_parse c ''network_interface_mtu_size'') (\<lambda>mtu.
     and_then (infer Some c ''network_ipv4_dhcp_duration'') (\<lambda>ndd.
     and_then (infer ipv4_parse c ''network_ipv4_dhcp_range_begin'') (\<lambda>nrb.
     and_then (infer ipv4_parse c ''network_ipv4_dhcp_range_end'') (\<lambda>nre.
     and_then (infer ipv4_parse c ''network_ipv4_gateway'') (\<lambda>ngw.
     and_then (infer (net_parse X) c ''network_ipv4_subnet'') (\<lambda>nsn.
     and_then (infer ipv4_parse c ''network_nameserver_incluster_ipv4'') (\<lambda>nni.
     and_then (infer Some c ''os_dist'') (\<lambda>od.
     and_then (infer Some c ''os_kernel'') (\<lambda>ok.
     and_then (infer Some c ''os_version'') (\<lambda>ov.
     Inr \<lparr>allow_critical_commands = acc,
          allow_pruning_network_interfaces = apn,
          bootstrapper_network_dns_server_ns1 = ns1,
          bootstrapper_network_dns_server_ns2 = ns2,
          etcd_nodes_max = enm,
          group_default_role = gdr,
          group_enable_default_cluster = ged,
          group_enforce_ansible_control_planes = gea,
          group_force_reset = gfr,
          group_force_reset_os = gfo,
          group_reset_storage = grs,
          kiss_cluster_name = kcn,
          kubespray_image = ki,
          network_interface_mtu_size = mtu,
          network_ipv4_dhcp_duration = ndd,
          network_ipv4_dhcp_range_begin = nrb,
          network_ipv4_dhcp_range_end = nre,
          network_ipv4_gateway = ngw,
          network_ipv4_subnet = nsn,
          network_nameserver_incluster_ipv4 = nni,
          os_dist = od,
          os_kernel = ok,
          os_version = ov\<rparr>)))))))))))))))))))))))"

text \<open>\<^verbatim>\<open>KissConfig::try_default\<close>: fetch the config map, then parse it.\<close>

definition try_default ::
  "externals \<Rightarrow> ('c, error, labels option) eff \<Rightarrow> ('c, error, KissConfig) eff" where
  "try_default X get_config_map =
     tryE get_config_map (\<lambda>data. lift_result (try_default_config X data))"

lemma and_then_Inr: "and_then r k = Inr b \<longleftrightarrow> (\<exists>a. r = Inr a \<and> k a = Inr b)"
  by (cases r) (simp_all add: and_then_def)

lemma infer_Inr:
  "infer parse data key = Inr r \<longleftrightarrow>
     (\<exists>d e. data = Some d \<and> bt_get d key = Some e \<and> parse e = Some r)"
  by (auto simp: infer_def bind_eq_Some_conv bind_eq_None_conv split: option.splits)

text \<open>The variables a config map must hold.\<close>

definition required_variables :: "string list" where
  "required_variables =
     [''allow_critical_commands'', ''allow_pruning_network_interfaces'',
      ''bootstrapper_network_dns_server_ns1'', ''bootstrapper_network_dns_server_ns2'',
      ''etcd_nodes_max'', ''group_default_role'', ''group_enable_default_cluster'',
      ''group_enforce_ansible_control_planes'', ''group_force_reset'', ''group_force_reset_os'',
      ''group_reset_storage'', ''kiss_cluster_name'', ''kubespray_image'',
      ''network_interface_mtu_size'', ''network_ipv4_dhcp_duration'',
      ''network_ipv4_dhcp_range_begin'', ''network_ipv4_dhcp_range_end'',
      ''network_ipv4_gateway'', ''network_ipv4_subnet'', ''network_nameserver_incluster_ipv4'',
      ''os_dist'', ''os_kernel'', ''os_version'']"

lemma try_default_config_complete:
  assumes "try_default_config X c = Inr cfg"
  shows "\<exists>d. c = Some d \<and> (\<forall>k\<in>set required_variables. bt_get d k \<noteq> None)"
  using assms
  unfolding try_default_config_def and_then_Inr infer_Inr required_variables_def
  by (elim exE conjE) simp

section \<open>An example configuration\<close>

definition example_config :: KissConfig where
  "example_config = \<lparr>
     allow_critical_commands = False,
     allow_pruning_network_interfaces = False,
     bootstrapper_network_dns_server_ns1 = 1,
     bootstrapper_network_dns_server_ns2 = 2,
     etcd_nodes_max = 5,
     group_default_role = GenericWorker,
     group_enable_default_cluster = True,
     group_enforce_ansible_control_planes = False,
     group_force_reset = False,
     group_force_reset_os = False,
     group_reset_storage = False,
     kiss_cluster_name = ''default'',
     kubespray_image = ''kubespray'',
     network_interface_mtu_size = 1500,
     network_ipv4_dhcp_duration = ''2h'',
     network_ipv4_dhcp_range_begin = 10,
     network_ipv4_dhcp_range_end = 20,
     network_ipv4_gateway = 1,
     network_ipv4_subnet = \<lparr>net_addr = 0, net_prefix = 16\<rparr>,
     network_nameserver_incluster_ipv4 = 3,
     os_dist = ''ubuntu'',
     os_kernel = ''6'',
     os_version = ''24''\<rparr>"

end
