(* ===== verification/Kiss_Cluster.thy ===== *)
theory Kiss_Cluster
  imports Kiss_Config
begin

text \<open>
  The view of a cluster of \<^verbatim>\<open>crates/openark-kiss-ansible/src/cluster.rs\<close>: the control
  planes and workers of a cluster as ordered maps from node states to boxes, the inventories
  handed to Ansible, and the admission test \<open>is_joinable\<close>.
\<close>

section \<open>Node states\<close>

datatype ClusterBoxState = ClusterBoxState
  (created_at: "timestamp option")
  (node_hostname: string)
  (ip: "IpAddr option")
  (is_ready: bool)
  (is_running: bool)
  (node_uuid: uuid)

text \<open>The derived order: field by field.\<close>

definition node_key ::
  "ClusterBoxState \<Rightarrow> timestamp option \<times> string \<times> IpAddr option \<times> bool \<times> bool \<times> uuid" where
  "node_key n = (created_at n, node_hostname n, ip n, is_ready n, is_running n, node_uuid n)"

lemma node_key_inj [simp]: "node_key a = node_key b \<longleftrightarrow> a = b"
  by (cases a; cases b) (simp add: node_key_def)

instantiation ClusterBoxState :: linorder
begin

definition less_eq_ClusterBoxState :: "ClusterBoxState \<Rightarrow> ClusterBoxState \<Rightarrow> bool" where
  "less_eq_ClusterBoxState a b = (node_key a \<le> node_key b)"

definition less_ClusterBoxState :: "ClusterBoxState \<Rightarrow> ClusterBoxState \<Rightarrow> bool" where
  "less_ClusterBoxState a b = (node_key a < node_key b)"

instance
proof
  fix x y z :: ClusterBoxState
  show "(x < y) = (x \<le> y \<and> \<not> y \<le> x)"
    by (simp add: less_eq_ClusterBoxState_def less_ClusterBoxState_def less_le_not_le)
  show "x \<le> x"
    by (simp add: less_eq_ClusterBoxState_def)
  show "x \<le> y \<Longrightarrow> y \<le> z \<Longrightarrow> x \<le> z"
    unfolding less_eq_ClusterBoxState_def by (rule order_trans)
  show "x \<le> y \<Longrightarrow> y \<le> x \<Longrightarrow> x = y"
    unfolding less_eq_ClusterBoxState_def by (simp add: order_antisym flip: node_key_inj)
  show "x \<le> y \<or> y \<le> x"
    unfolding less_eq_ClusterBoxState_def by (rule linear)
qed

end

definition from_box :: "externals \<Rightarrow> BoxCrd \<Rightarrow> ClusterBoxState" where
  "from_box X b = ClusterBoxState
     (meta_creation (metadata b))
     (hostname X (machine (spec b)))
     (case status b of
        None \<Rightarrow> None
      | Some s \<Rightarrow> map_option address (primary (access s)))
     (case status b of None \<Rightarrow> False | Some s \<Rightarrow> state s \<in> {Ready, Running})
     (case status b of None \<Rightarrow> False | Some s \<Rightarrow> state s = Running)
     (machine_uuid (machine (spec b)))"

definition get_host :: "ClusterBoxState \<Rightarrow> string option" where
  "get_host n = (case ip n of None \<Rightarrow> None | Some a \<Rightarrow> Some (node_hostname n @ '':'' @ ip_str a))"

section \<open>Box groups\<close>

type_synonym ClusterBoxGroup = "(ClusterBoxState \<times> BoxCrd) list"

datatype ClusterBoxFilter = FilterRunning | RunningWith uuid

definition filter_contains :: "ClusterBoxFilter \<Rightarrow> uuid \<Rightarrow> bool" where
  "filter_contains f target = (case f of FilterRunning \<Rightarrow> False | RunningWith u \<Rightarrow> u = target)"

definition control_planes_of :: "externals \<Rightarrow> string \<Rightarrow> BoxCrd list \<Rightarrow> ClusterBoxGroup" where
  "control_planes_of X name items =
     bt_collect (map (\<lambda>b. (from_box X b, b))
       (filter (\<lambda>b. cluster_name (group (spec b)) = name \<and> role (group (spec b)) = ControlPlane) items))"

definition workers_of :: "externals \<Rightarrow> string \<Rightarrow> BoxCrd list \<Rightarrow> ClusterBoxGroup" where
  "workers_of X name items =
     bt_collect (map (\<lambda>b. (from_box X b, b))
       (filter (\<lambda>b. cluster_name (group (spec b)) = name \<and> role (group (spec b)) \<noteq> ControlPlane) items))"

definition load_control_planes ::
  "externals \<Rightarrow> ('c, error, BoxCrd list) eff \<Rightarrow> string \<Rightarrow> ('c, error, ClusterBoxGroup) eff" where
  "load_control_planes X list_boxes name =
     tryE list_boxes (\<lambda>items. ret (control_planes_of X name items))"

definition load_worker_nodes ::
  "externals \<Rightarrow> ('c, error, BoxCrd list) eff \<Rightarrow> string \<Rightarrow> ('c, error, ClusterBoxGroup) eff" where
  "load_worker_nodes X list_boxes name =
     tryE list_boxes (\<lambda>items. ret (workers_of X name items))"

definition contains_uuid :: "ClusterBoxGroup \<Rightarrow> uuid \<Rightarrow> bool" where
  "contains_uuid g u = list_ex (\<lambda>(n, _). node_uuid n = u) g"

definition is_next :: "ClusterBoxGroup \<Rightarrow> uuid \<Rightarrow> bool" where
  "is_next g u =
     (case List.find (\<lambda>(n, _). \<not> is_running n) g of
        None \<Rightarrow> False
      | Some (n, _) \<Rightarrow> node_uuid n = u)"

definition group_is_running :: "ClusterBoxGroup \<Rightarrow> bool" where
  "group_is_running g = list_ex (\<lambda>(n, _). is_running n) g"

definition group_iter :: "ClusterBoxGroup \<Rightarrow> ClusterBoxFilter \<Rightarrow> (ClusterBoxState \<times> BoxCrd) list" where
  "group_iter g f =
     sort_key (\<lambda>(n, _). (created_at n, n))
       (filter (\<lambda>(n, _). is_running n \<or> filter_contains f (node_uuid n)) g)"

definition num_ready :: "ClusterBoxGroup \<Rightarrow> nat" where
  "num_ready g = length (filter (\<lambda>(n, _). is_ready n) g)"

definition num_running :: "ClusterBoxGroup \<Rightarrow> nat" where
  "num_running g = length (filter (\<lambda>(n, _). is_running n) g)"

definition num_total :: "ClusterBoxGroup \<Rightarrow> nat" where
  "num_total g = length g"

definition group_to_vec :: "ClusterBoxGroup \<Rightarrow> ClusterBoxFilter \<Rightarrow> ClusterBoxState list" where
  "group_to_vec g f = map fst (group_iter g f)"

definition get_nodes_as_string ::
  "ClusterBoxState list \<Rightarrow> string \<Rightarrow> (ClusterBoxState \<Rightarrow> 'k::linorder) \<Rightarrow> string" where
  "get_nodes_as_string nodes node_role sort_by =
     join '' '' (map (\<lambda>host. node_role @ '':'' @ host)
       (List.map_filter get_host (sort_key sort_by nodes)))"

definition sort_nodes_by_date ::
  "ClusterBoxState \<Rightarrow> bool \<times> timestamp option \<times> ClusterBoxState" where
  "sort_nodes_by_date n = (\<not> is_running n, created_at n, n)"

definition sort_nodes_by_name :: "ClusterBoxState \<Rightarrow> bool \<times> uuid" where
  "sort_nodes_by_name n = (\<not> is_running n, node_uuid n)"

section \<open>The state of a cluster\<close>

record ClusterState =
  config :: KissConfig
  control_planes :: ClusterBoxGroup
  owner_group :: BoxGroupSpec
  owner_uuid :: uuid
  workers :: "ClusterBoxGroup option"

definition load ::
  "externals \<Rightarrow> ('c, error, BoxCrd list) eff \<Rightarrow> KissConfig \<Rightarrow> BoxSpec \<Rightarrow> bool \<Rightarrow>
     ('c, error, ClusterState) eff" where
  "load X list_boxes cfg owner load_workers =
     tryE (load_control_planes X list_boxes (cluster_name (group owner))) (\<lambda>cps.
     tryE (if load_workers
           then tryE (load_worker_nodes X list_boxes (cluster_name (group owner))) (\<lambda>ws. ret (Some ws))
           else ret None) (\<lambda>ws.
     ret \<lparr>config = cfg, control_planes = cps, owner_group = group owner,
          owner_uuid = machine_uuid (machine owner), workers = ws\<rparr>))"

text \<open>The view of a cluster given by a list of all boxes.\<close>

definition cluster_view :: "externals \<Rightarrow> KissConfig \<Rightarrow> BoxSpec \<Rightarrow> BoxCrd list \<Rightarrow> ClusterState" where
  "cluster_view X cfg owner items =
     \<lparr>config = cfg, control_planes = control_planes_of X (cluster_name (group owner)) items,
      owner_group = group owner, owner_uuid = machine_uuid (machine owner), workers = None\<rparr>"

lemma load_view:
  "load X list_boxes cfg owner False = tryE list_boxes (\<lambda>items. ret (cluster_view X cfg owner items))"
  by (simp add: load_def load_control_planes_def tryE_def ret_def cluster_view_def fun_eq_iff
      split: prod.splits sum.splits)

definition load_current_cluster ::
  "externals \<Rightarrow> ('c, error, labels option) eff \<Rightarrow> ('c, error, BoxCrd list) eff \<Rightarrow> bool \<Rightarrow>
     ('c, error, ClusterState) eff" where
  "load_current_cluster X get_config_map list_boxes load_workers =
     tryE (try_default X get_config_map) (\<lambda>cfg.
     let name = kiss_cluster_name cfg in
     tryE (load_control_planes X list_boxes name) (\<lambda>cps.
     case group_iter cps FilterRunning of
       [] \<Rightarrow> fail (Anyhow (''cluster '' @ name @ '' is not running''))
     | (owner, _) # _ \<Rightarrow>
         tryE (if load_workers
               then tryE (load_worker_nodes X list_boxes name) (\<lambda>ws. ret (Some ws))
               else ret None) (\<lambda>ws.
         ret \<lparr>config = cfg, control_planes = cps,
              owner_group = \<lparr>cluster_name = name, role = ControlPlane\<rparr>,
              owner_uuid = node_uuid owner, workers = ws\<rparr>)))"

definition get_first_control_plane :: "ClusterState \<Rightarrow> error + BoxCrd" where
  "get_first_control_plane c =
     (case group_iter (control_planes c) FilterRunning of
        [] \<Rightarrow> Inl (Anyhow (''Cluster \"'' @ cluster_name (owner_group c) @
                        ''\" status: control-plane nodes are ready''))
      | (_, b) # _ \<Rightarrow> Inr b)"

definition get_control_planes_as_string :: "ClusterState \<Rightarrow> string" where
  "get_control_planes_as_string c =
     get_nodes_as_string (group_to_vec (control_planes c) (RunningWith (owner_uuid c)))
       ''kube_control_plane'' sort_nodes_by_name"

definition etcd_nodes :: "ClusterState \<Rightarrow> ClusterBoxState list" where
  "etcd_nodes c =
     (let nodes = group_to_vec (control_planes c) (RunningWith (owner_uuid c));
          m = etcd_nodes_max (config c);
          nodes = (if m > 0 then take m nodes else nodes)
      in if even (length nodes) then butlast nodes else nodes)"

definition get_etcd_nodes_as_string :: "ClusterState \<Rightarrow> string" where
  "get_etcd_nodes_as_string c = get_nodes_as_string (etcd_nodes c) ''etcd'' sort_nodes_by_date"

definition get_worker_nodes :: "ClusterState \<Rightarrow> error + BoxCrd list" where
  "get_worker_nodes c =
     (case workers c of
        None \<Rightarrow> Inl (Anyhow ''worker nodes are not loaded'')
      | Some ws \<Rightarrow> Inr (map snd (group_iter ws FilterRunning)))"

definition get_worker_nodes_as_string :: "ClusterState \<Rightarrow> string" where
  "get_worker_nodes_as_string c =
     (case workers c of
        None \<Rightarrow> []
      | Some ws \<Rightarrow> get_nodes_as_string (group_to_vec ws FilterRunning) ''kube_node'' sort_nodes_by_date)"

definition is_control_plane_ready :: "ClusterState \<Rightarrow> bool" where
  "is_control_plane_ready c =
     (num_ready (control_planes c) = num_total (control_planes c))"

definition is_control_plane_running :: "ClusterState \<Rightarrow> bool" where
  "is_control_plane_running c =
     (if num_running (control_planes c) = 0 \<and> \<not> is_default (owner_group c) then False
      else num_running (control_planes c) = num_total (control_planes c))"

definition is_node_control_plane :: "ClusterState \<Rightarrow> bool" where
  "is_node_control_plane c = contains_uuid (control_planes c) (owner_uuid c)"

definition is_joinable :: "ClusterState \<Rightarrow> bool" where
  "is_joinable c =
     (if is_node_control_plane c
      then is_control_plane_ready c \<and> is_next (control_planes c) (owner_uuid c)
      else is_control_plane_running c)"

definition is_new :: "ClusterState \<Rightarrow> bool" where
  "is_new c = (is_node_control_plane c \<and> \<not> group_is_running (control_planes c))"

section \<open>Facts about box groups\<close>

lemma created_mono: "a \<le> b \<Longrightarrow> created_at a \<le> created_at b"
  by (auto simp: less_eq_ClusterBoxState_def node_key_def less_eq_prod_def)

lemma node_le_created:
  assumes "a \<le> b"
  shows "(created_at a, a) \<le> (created_at b, b)"
proof -
  have "created_at a < created_at b \<or> created_at a = created_at b"
    using created_mono [OF assms] by (simp add: order.order_iff_strict)
  with assms show ?thesis by (auto simp: less_eq_prod_def)
qed

lemma bt_sorted_control_planes: "bt_sorted (control_planes_of X name items)"
  by (simp add: control_planes_of_def bt_sorted_collect)

lemma bt_sorted_workers: "bt_sorted (workers_of X name items)"
  by (simp add: workers_of_def bt_sorted_collect)

text \<open>The nodes of a loaded group describe boxes of that cluster and role.\<close>

lemma control_planes_of_sound:
  "(n, b) \<in> set (control_planes_of X name items) \<Longrightarrow>
     b \<in> set items \<and> n = from_box X b \<and> cluster_name (group (spec b)) = name
     \<and> role (group (spec b)) = ControlPlane"
  unfolding control_planes_of_def bt_collect_eq
  by (drule subsetD [OF bt.entries_collect_subset]) auto

lemma control_planes_of_complete:
  assumes "b \<in> set items" "cluster_name (group (spec b)) = name" "role (group (spec b)) = ControlPlane"
  shows "from_box X b \<in> fst ` set (control_planes_of X name items)"
  unfolding control_planes_of_def bt_collect_eq bt.keys_collect
  using assms by force

text \<open>Iterating a group visits its nodes in the order of the map: sorting by creation date
  and node changes nothing.\<close>

lemma group_iter_filter:
  assumes "bt_sorted g"
  shows "group_iter g f = filter (\<lambda>(n, _). is_running n \<or> filter_contains f (node_uuid n)) g"
proof -
  let ?g = "filter (\<lambda>(n, _). is_running n \<or> filter_contains f (node_uuid n)) g"
  have srt: "sorted_wrt (\<lambda>x y. fst x \<le> fst y) ?g"
    using assms unfolding bt_sorted_def sorted_wrt_map
    by (intro sorted_wrt_filter) (auto elim: sorted_wrt_mono_rel [rotated])
  have key: "(case x of (n, _) \<Rightarrow> (created_at n, n)) \<le> (case y of (n, _) \<Rightarrow> (created_at n, n))"
    if "fst x \<le> fst y" for x y :: "ClusterBoxState \<times> BoxCrd"
    using node_le_created [OF that] by (simp add: case_prod_beta)
  have "sorted (map (\<lambda>(n, _). (created_at n, n)) ?g)"
    unfolding sorted_map using srt by (rule sorted_wrt_mono_rel [rotated]) (rule key)
  then show ?thesis
    unfolding group_iter_def by (rule sort_key_id_if_sorted)
qed

lemma set_group_to_vec:
  "set (group_to_vec g f) = {n \<in> fst ` set g. is_running n \<or> filter_contains f (node_uuid n)}"
  by (force simp: group_to_vec_def group_iter_def)

lemma length_group_to_vec_le: "length (group_to_vec g f) \<le> num_total g"
  by (simp add: group_to_vec_def group_iter_def num_total_def)

lemma all_ready_iff: "num_ready g = num_total g \<longleftrightarrow> (\<forall>(n, _)\<in>set g. is_ready n)"
  unfolding num_ready_def num_total_def by (metis (no_types, lifting) length_filter_less
      filter_True nat_less_le case_prod_unfold)

lemma all_running_iff: "num_running g = num_total g \<longleftrightarrow> (\<forall>(n, _)\<in>set g. is_running n)"
  unfolding num_running_def num_total_def by (metis (no_types, lifting) length_filter_less
      filter_True nat_less_le case_prod_unfold)

lemma is_next_unique: "is_next g u \<Longrightarrow> is_next g v \<Longrightarrow> u = v"
  by (auto simp: is_next_def split: option.splits)

lemma is_next_waiting:
  "is_next g u \<Longrightarrow> \<exists>n b. (n, b) \<in> set g \<and> node_uuid n = u \<and> \<not> is_running n"
  by (auto simp: is_next_def split: option.splits dest!: find_Some_D)

section \<open>An example cluster\<close>

text \<open>Three control planes of the cluster \<open>edge\<close>: two running, the third ready.\<close>

definition example_control_planes :: ClusterBoxGroup where
  "example_control_planes =
     (let g = \<lparr>cluster_name = ''edge'', role = ControlPlane\<rparr> in
      map (\<lambda>(u, st). let b = example_box u g (Some (example_status st (Some g)))
                     in (from_box example_externals b, b))
        [(1, Running), (2, Running), (3, Ready)])"

definition example_cluster :: ClusterState where
  "example_cluster = \<lparr>config = example_config, control_planes = example_control_planes,
     owner_group = \<lparr>cluster_name = ''edge'', role = ControlPlane\<rparr>, owner_uuid = 3,
     workers = None\<rparr>"

lemmas example_defs = Let_def example_cluster_def example_control_planes_def example_config_def
  example_box_def example_status_def example_externals_def from_box_def hostname_def

section \<open>Properties\<close>

text \<open>Two control planes cannot both be admitted from the same view of a cluster: the admitted one
  is the first node that is not running, and every other control plane is ready or running.\<close>

theorem join_exclusive:
  assumes "is_joinable c" and "is_node_control_plane c"
    and "is_joinable d" and "is_node_control_plane d"
    and "control_planes c = control_planes d"
  shows "owner_uuid c = owner_uuid d
    \<and> (\<forall>(n, b)\<in>set (control_planes c). is_ready n)
    \<and> (\<exists>(n, b)\<in>set (control_planes c). node_uuid n = owner_uuid c \<and> \<not> is_running n)"
proof -
  have c: "is_next (control_planes c) (owner_uuid c)"
    and ready: "\<forall>(n, b)\<in>set (control_planes c). is_ready n"
    using assms(1,2) by (auto simp: is_joinable_def is_control_plane_ready_def all_ready_iff)
  have "is_next (control_planes c) (owner_uuid d)"
    using assms(3-5) by (simp add: is_joinable_def)
  with c have "owner_uuid c = owner_uuid d" by (rule is_next_unique)
  with ready is_next_waiting [OF c] show ?thesis by blast
qed

lemma example_joinable: "is_joinable example_cluster \<and> is_node_control_plane example_cluster"
  by (simp add: example_defs is_joinable_def is_node_control_plane_def contains_uuid_def
      is_control_plane_ready_def num_ready_def num_total_def is_next_def)

theorem join_exclusive_witness:
  "list_all (\<lambda>(n, b). is_ready n) (control_planes example_cluster)
    \<and> (\<exists>(n, b)\<in>set (control_planes example_cluster).
         node_uuid n = owner_uuid example_cluster \<and> \<not> is_running n)"
  using join_exclusive [of example_cluster example_cluster] example_joinable
  unfolding list_all_iff by blast

text \<open>The candidates for etcd: the running control planes and the owner, oldest first.\<close>

definition etcd_candidates :: "ClusterState \<Rightarrow> ClusterBoxState list" where
  "etcd_candidates c = group_to_vec (control_planes c) (RunningWith (owner_uuid c))"

definition etcd_limit :: "ClusterState \<Rightarrow> nat" where
  "etcd_limit c = (if etcd_nodes_max (config c) = 0 then length (etcd_candidates c)
                   else min (etcd_nodes_max (config c)) (length (etcd_candidates c)))"

lemma etcd_nodes_take:
  "etcd_nodes c = take (if even (etcd_limit c) then etcd_limit c - 1 else etcd_limit c) (etcd_candidates c)"
  by (auto simp: etcd_nodes_def etcd_limit_def etcd_candidates_def Let_def butlast_conv_take min_def)

lemma etcd_limit_le: "etcd_limit c \<le> length (etcd_candidates c)"
  by (simp add: etcd_limit_def)

lemma etcd_nodes_length:
  "length (etcd_nodes c) = (if even (etcd_limit c) then etcd_limit c - 1 else etcd_limit c)"
  using etcd_limit_le [of c] by (auto simp: etcd_nodes_take)

lemma etcd_nodes_parity: "etcd_nodes c = [] \<or> odd (length (etcd_nodes c))"
  using etcd_nodes_length [of c] by (cases "etcd_limit c") (auto split: if_splits)

text \<open>The etcd members are the longest prefix of the candidates whose length is odd and does not
  exceed \<open>etcd_nodes_max\<close> (0 means no limit); without candidates there are none.\<close>

theorem etcd_nodes_odd:
  "etcd_nodes c = take (length (etcd_nodes c)) (etcd_candidates c)
   \<and> length (etcd_nodes c) = (if even (etcd_limit c) then etcd_limit c - 1 else etcd_limit c)
   \<and> (etcd_nodes c = [] \<or> odd (length (etcd_nodes c)))
   \<and> (etcd_nodes_max (config c) = 0 \<or> length (etcd_nodes c) \<le> etcd_nodes_max (config c))
   \<and> (etcd_nodes c = []) = (etcd_candidates c = [])"
proof -
  have max: "etcd_nodes_max (config c) = 0 \<or> etcd_limit c \<le> etcd_nodes_max (config c)"
    and zero: "etcd_limit c = 0 \<longleftrightarrow> etcd_candidates c = []"
    by (auto simp: etcd_limit_def min_def)
  have "(etcd_nodes c = []) = (etcd_candidates c = [])"
    using zero etcd_nodes_parity [of c] etcd_nodes_length [of c]
    by (cases "etcd_limit c") (auto split: if_splits)
  moreover have "etcd_nodes c = take (length (etcd_nodes c)) (etcd_candidates c)"
    using etcd_nodes_take [of c] etcd_nodes_length [of c] by simp
  moreover have "length (etcd_nodes c) \<le> etcd_limit c"
    by (simp add: etcd_nodes_length)
  ultimately show ?thesis
    using max etcd_nodes_length [of c] etcd_nodes_parity [of c] by auto
qed

lemma example_etcd_nodes: "map node_uuid (etcd_nodes example_cluster) = [1, 2, 3]
    \<and> list_all (\<lambda>n. ip n \<noteq> None) (etcd_nodes example_cluster)"
proof -
  have "bt_sorted example_control_planes"
    by (simp add: example_defs bt_sorted_def less_ClusterBoxState_def node_key_def less_prod_def)
  then show ?thesis
    by (simp add: etcd_nodes_def group_to_vec_def group_iter_filter filter_contains_def example_defs)
qed

theorem etcd_nodes_odd_witness:
  "etcd_nodes example_cluster = take 3 (etcd_candidates example_cluster) \<and> odd (length (etcd_nodes example_cluster))"
proof -
  have "length (etcd_nodes example_cluster) = 3"
    using arg_cong [OF conjunct1 [OF example_etcd_nodes], of length] by simp
  with etcd_nodes_odd [of example_cluster] show ?thesis
    by auto
qed

text \<open>The hosts written into the inventory are those of the members with an address, so the
  parity of the members carries over exactly when all of them have one.\<close>

definition etcd_hosts :: "ClusterState \<Rightarrow> string list" where
  "etcd_hosts c = List.map_filter get_host (sort_key sort_nodes_by_date (etcd_nodes c))"

lemma get_etcd_nodes_hosts:
  "get_etcd_nodes_as_string c = join '' '' (map (\<lambda>h. ''etcd:'' @ h) (etcd_hosts c))"
  by (simp add: get_etcd_nodes_as_string_def get_nodes_as_string_def etcd_hosts_def)

lemma length_map_filter: "length (List.map_filter f xs) = length (filter (\<lambda>x. f x \<noteq> None) xs)"
  by (induction xs) (auto simp: List.map_filter_simps split: option.splits)

lemma length_filter_sort_key: "length (filter P (sort_key f xs)) = length (filter P xs)"
  by (metis filter_sort length_sort)

lemma get_host_None: "get_host n = None \<longleftrightarrow> ip n = None"
  by (simp add: get_host_def split: option.splits)

text \<open>As many etcd hosts are written into the inventory as members have an address; a cluster whose
  members all have one gets an odd number of hosts.\<close>

theorem etcd_hosts_odd:
  "length (etcd_hosts c) = length (filter (\<lambda>n. ip n \<noteq> None) (etcd_nodes c))
   \<and> ((\<forall>n\<in>set (etcd_nodes c). ip n \<noteq> None) \<longrightarrow> etcd_hosts c = [] \<or> odd (length (etcd_hosts c)))"
proof -
  have len: "length (etcd_hosts c) = length (filter (\<lambda>n. ip n \<noteq> None) (etcd_nodes c))"
    by (simp add: etcd_hosts_def length_map_filter length_filter_sort_key get_host_None)
  moreover have "etcd_hosts c = [] \<or> odd (length (etcd_hosts c))"
    if "\<forall>n\<in>set (etcd_nodes c). ip n \<noteq> None"
    using that len etcd_nodes_parity [of c] by (auto simp: filter_True)
  ultimately show ?thesis by blast
qed

theorem etcd_hosts_odd_witness: "odd (length (etcd_hosts example_cluster))"
proof -
  have ips: "\<forall>n\<in>set (etcd_nodes example_cluster). ip n \<noteq> None"
    and ne: "length (etcd_nodes example_cluster) = 3"
    using example_etcd_nodes by (auto simp: list_all_iff dest: arg_cong [of _ _ length])
  from etcd_hosts_odd [of example_cluster] ips ne show ?thesis
    by (auto simp: filter_True)
qed

end
