(* ===== verification/Kiss_Ansible.thy ===== *)
theory Kiss_Ansible
  imports Kiss_Cluster
begin

text \<open>
  Spawning an Ansible job (\<^verbatim>\<open>crates/openark-kiss-ansible/src/lib.rs\<close> and
  \<^verbatim>\<open>job.rs\<close>): the job or cron job with its labels, environment and volumes, and the
  handler \<open>spawn\<close> that clears the box's previous jobs, tests whether the cluster admits
  the box, and creates the job.
\<close>

section \<open>Jobs\<close>

datatype EnvVarSource = ConfigMapKeyRef string string | SecretKeyRef string string

record EnvVar =
  env_name :: string
  env_value :: "string option"
  env_value_from :: "EnvVarSource option"

definition env_val :: "string \<Rightarrow> string option \<Rightarrow> EnvVar" where
  "env_val n v = \<lparr>env_name = n, env_value = v, env_value_from = None\<rparr>"

definition env_ref :: "string \<Rightarrow> EnvVarSource \<Rightarrow> EnvVar" where
  "env_ref n r = \<lparr>env_name = n, env_value = None, env_value_from = Some r\<rparr>"

record Toleration =
  tol_operator :: string
  tol_effect :: string

record NodeSelectorRequirement =
  sel_key :: string
  sel_operator :: string
  sel_values :: "string list option"

record Affinity =
  preferred_terms :: "(nat \<times> NodeSelectorRequirement list) list"
  required_terms :: "NodeSelectorRequirement list list"

definition affinity :: Affinity where
  "affinity = \<lparr>
     preferred_terms = [(1, [\<lparr>sel_key = ''node-role.kubernetes.io/kiss-ephemeral-control-plane'',
                              sel_operator = ''DoesNotExist'', sel_values = None\<rparr>])],
     required_terms = [[\<lparr>sel_key = ''node-role.kubernetes.io/kiss'',
                         sel_operator = ''In'', sel_values = Some [''ControlPlane'']\<rparr>]]\<rparr>"

datatype VolumeSource =
  ConfigMapVolume string nat "bool option"
| SecretVolume string nat "(string \<times> string) list"

record Container =
  con_image :: string
  con_image_pull_policy :: string
  con_command :: "string list"
  con_args :: "string list"
  con_env :: "EnvVar list"
  con_resources :: ResourceRequirements
  con_volume_mounts :: "(string \<times> string) list"

record JobSpec =
  ttl_seconds_after_finished :: nat
  template_labels :: "labels option"
  job_affinity :: Affinity
  job_nameservers :: "string list"
  host_network :: bool
  priority_class_name :: string
  restart_policy :: string
  service_account :: string
  tolerations :: "Toleration list option"
  job_container :: Container
  job_volumes :: "(string \<times> VolumeSource) list"

record JobStatus =
  succeeded :: "i32 option"
  failed :: "i32 option"

record Job =
  job_meta :: ObjectMeta
  job_spec :: "JobSpec option"
  job_status :: "JobStatus option"

record CronJob =
  cron_meta :: ObjectMeta
  concurrency_policy :: string
  schedule :: string
  starting_deadline_seconds :: nat
  cron_job_meta :: ObjectMeta
  cron_job_spec :: JobSpec

datatype AnsibleResourceType = MinimalResource | NormalResource

definition resource_default :: AnsibleResourceType where
  "resource_default = NormalResource"

fun resource_requirements :: "AnsibleResourceType \<Rightarrow> ResourceRequirements" where
  "resource_requirements MinimalResource =
     \<lparr>res_limits = Some (bt_collect [(''cpu'', ''100m''), (''memory'', ''500Mi'')]), res_requests = None\<rparr>"
| "resource_requirements NormalResource =
     \<lparr>res_limits = Some (bt_collect [(''cpu'', ''900m''), (''memory'', ''2Gi'')]), res_requests = None\<rparr>"

record AnsibleJob =
  job_cron :: "string option"
  job_task :: string
  job_box :: BoxCrd
  job_new_group :: "BoxGroupSpec option"
  job_new_state :: "BoxState option"
  job_is_critical :: bool
  job_resource_type :: AnsibleResourceType
  job_use_workers :: bool

record AnsibleClient =
  kiss :: KissConfig
  client_namespace :: string

definition LABEL_BOX_NAME :: string where
  "LABEL_BOX_NAME = ''kiss.ulagbulag.io/box_name''"

definition LABEL_BOX_MACHINE_UUID :: string where
  "LABEL_BOX_MACHINE_UUID = ''kiss.ulagbulag.io/box_machine_uuid''"

definition LABEL_COMPLETED_STATE :: string where
  "LABEL_COMPLETED_STATE = ''kiss.ulagbulag.io/completed_state''"

definition LABEL_JOB_NAME :: string where
  "LABEL_JOB_NAME = ''kiss.ulagbulag.io/job_name''"

definition LABEL_JOB_IS_CRITICAL :: string where
  "LABEL_JOB_IS_CRITICAL = ''kiss.ulagbulag.io/is_critical''"

definition LABEL_VERIFY_BIND_GROUP :: string where
  "LABEL_VERIFY_BIND_GROUP = ''kiss.ulagbulag.io/verify-bind-group''"

lemmas label_defs = LABEL_BOX_NAME_def LABEL_BOX_MACHINE_UUID_def LABEL_COMPLETED_STATE_def
  LABEL_JOB_NAME_def LABEL_JOB_IS_CRITICAL_def LABEL_VERIFY_BIND_GROUP_def

section \<open>The parts of a job\<close>

definition box_key :: "externals \<Rightarrow> BoxCrd \<Rightarrow> string" where
  "box_key X b = uuid_str X (machine_uuid (machine (spec b)))"

definition job_name :: "externals \<Rightarrow> AnsibleJob \<Rightarrow> string" where
  "job_name X j = ''box-'' @ job_task j @ ''-'' @ box_key X (job_box j)"

definition verify_bind_group :: "BoxCrd \<Rightarrow> bool" where
  "verify_bind_group b =
     unwrap_or True (Option.bind (label_of (metadata b) LABEL_VERIFY_BIND_GROUP) bool_parse)"

definition must_reset :: "KissConfig \<Rightarrow> BoxCrd \<Rightarrow> bool" where
  "must_reset cfg b =
     (group_force_reset cfg \<or>
      verify_bind_group b \<and> Option.bind (status b) bind_group \<noteq> Some (group (spec b)))"

definition priority_class :: "BoxGroupRole \<Rightarrow> string" where
  "priority_class r =
     (case r of ControlPlane \<Rightarrow> ''system-cluster-critical'' | _ \<Rightarrow> ''k8s-cluster-critical'')"

definition job_selector :: "externals \<Rightarrow> BoxCrd \<Rightarrow> string" where
  "job_selector X b =
     LABEL_BOX_NAME @ ''='' @ box_key X b @ '','' @ LABEL_JOB_IS_CRITICAL @ ''!=true''"

definition job_labels :: "externals \<Rightarrow> AnsibleJob \<Rightarrow> labels" where
  "job_labels X j =
     bt_collect (List.map_filter id
       [Some (LABEL_BOX_NAME, box_key X (job_box j)),
        Some (LABEL_BOX_MACHINE_UUID, uuid_str X (machine_uuid (machine (spec (job_box j))))),
        Some (LABEL_JOB_IS_CRITICAL, bool_str (job_is_critical j)),
        Some (LABEL_JOB_NAME, job_task j),
        Some (''serviceType'', ''ansible-task''),
        map_option (\<lambda>s. (LABEL_COMPLETED_STATE, s))
          (map_option state_str (Option.bind (job_new_state j) complete))])"

definition job_metadata :: "externals \<Rightarrow> AnsibleClient \<Rightarrow> AnsibleJob \<Rightarrow> ObjectMeta" where
  "job_metadata X c j = meta_default\<lparr>
     meta_name := Some (job_name X j),
     meta_namespace := Some (client_namespace c),
     meta_labels := Some (job_labels X j)\<rparr>"

definition kiss_config_secret :: "string \<Rightarrow> EnvVarSource" where
  "kiss_config_secret k = SecretKeyRef ''kiss-config'' k"

definition env_host :: "externals \<Rightarrow> AnsibleClient \<Rightarrow> AnsibleJob \<Rightarrow> EnvVar list" where
  "env_host X c j =
     (let b = job_box j; cfg = kiss c in
      [env_val ''ansible_host'' (Some (hostname X (machine (spec b)))),
       env_val ''ansible_host_id'' (Some (box_key X b)),
       env_val ''ansible_host_uuid'' (Some (uuid_str X (machine_uuid (machine (spec b))))),
       env_val ''ansible_ssh_host''
         (map_option (\<lambda>i. ip_str (address i)) (Option.bind (status b) (\<lambda>s. management (access s)))),
       env_val ''ansible_ssh_private_key_file'' (Some ''/root/.ssh/id_ed25519''),
       env_ref ''ansible_user'' (ConfigMapKeyRef ''kiss-config'' ''auth_ssh_username''),
       env_val ''kiss_allow_critical_commands'' (Some (bool_str (allow_critical_commands cfg))),
       env_val ''kiss_allow_pruning_network_interfaces''
         (Some (bool_str (allow_pruning_network_interfaces cfg))),
       env_val ''kiss_ansible_task_name'' (Some (job_task j))])"

definition wants_inventory :: "BoxState option \<Rightarrow> bool" where
  "wants_inventory s = (case s of None \<Rightarrow> True | Some x \<Rightarrow> x = Joining)"

definition env_cluster ::
  "externals \<Rightarrow> AnsibleClient \<Rightarrow> AnsibleJob \<Rightarrow> ClusterState \<Rightarrow> EnvVar list" where
  "env_cluster X c j cs =
     (let g = group (spec (job_box j)) in
      [env_val ''kiss_cluster_control_planes''
         (Some (if wants_inventory (job_new_state j) then get_control_planes_as_string cs else [])),
       env_val ''kiss_cluster_etcd_nodes''
         (Some (if wants_inventory (job_new_state j) then get_etcd_nodes_as_string cs else [])),
       env_val ''kiss_cluster_name'' (Some (cluster_name g)),
       env_val ''kiss_cluster_name_snake_case'' (Some (to_snake X (cluster_name g))),
       env_val ''kiss_cluster_domain'' (Some (cluster_domain g)),
       env_val ''kiss_cluster_is_default'' (Some (bool_str (is_default g))),
       env_val ''kiss_cluster_is_new'' (Some (bool_str (is_new cs))),
       env_val ''kiss_cluster_worker_nodes''
         (Some (if job_use_workers j then get_worker_nodes_as_string cs else []))])"

definition env_group :: "AnsibleClient \<Rightarrow> AnsibleJob \<Rightarrow> EnvVar list" where
  "env_group c j =
     (let cfg = kiss c; b = job_box j; g = group (spec b) in
      [env_val ''kiss_group_default_role'' (Some (role_str (group_default_role cfg))),
       env_val ''kiss_group_enable_default_cluster''
         (Some (bool_str (group_enable_default_cluster cfg))),
       env_val ''kiss_group_force_reset'' (Some (bool_str (must_reset cfg b))),
       env_val ''kiss_group_force_reset_os'' (Some (bool_str (group_force_reset_os cfg))),
       env_val ''kiss_group_reset_storage'' (Some (bool_str (group_reset_storage cfg))),
       env_val ''kiss_group_role'' (Some (role_str (role g))),
       env_val ''kiss_group_role_is_domain_specific'' (Some (bool_str (is_domain_specific (role g)))),
       env_val ''kiss_group_role_is_member'' (Some (bool_str (is_member (role g))))])"

definition env_network :: "externals \<Rightarrow> AnsibleClient \<Rightarrow> EnvVar list" where
  "env_network X c =
     (let cfg = kiss c; net = network_ipv4_subnet cfg in
      [env_val ''kiss_network_interface_mtu_size'' (Some (word_str (network_interface_mtu_size cfg))),
       env_val ''kiss_network_ipv4_dhcp_duration'' (Some (network_ipv4_dhcp_duration cfg)),
       env_val ''kiss_network_ipv4_dhcp_range_begin'' (Some (ipv4_str (network_ipv4_dhcp_range_begin cfg))),
       env_val ''kiss_network_ipv4_dhcp_range_end'' (Some (ipv4_str (network_ipv4_dhcp_range_end cfg))),
       env_val ''kiss_network_ipv4_gateway'' (Some (ipv4_str (network_ipv4_gateway cfg))),
       env_val ''kiss_network_ipv4_subnet'' (Some (net_str X net)),
       env_val ''kiss_network_ipv4_subnet_address'' (Some (ipv4_str (net_network X net))),
       env_val ''kiss_network_ipv4_subnet_mask'' (Some (ipv4_str (net_netmask X net))),
       env_val ''kiss_network_ipv4_subnet_mask_prefix'' (Some (word_str (net_prefix net))),
       env_val ''kiss_network_nameserver_incluster_ipv4''
         (Some (ipv4_str (network_nameserver_incluster_ipv4 cfg))),
       env_ref ''kiss_network_wireless_wifi_key_mgmt'' (kiss_config_secret ''network_wireless_wifi_key_mgmt''),
       env_ref ''kiss_network_wireless_wifi_key_psk'' (kiss_config_secret ''network_wireless_wifi_key_psk''),
       env_ref ''kiss_network_wireless_wifi_ssid'' (kiss_config_secret ''network_wireless_wifi_ssid'')])"

definition power_host :: "BoxCrd \<Rightarrow> BoxPowerType \<Rightarrow> string option" where
  "power_host b t =
     (case power (spec b) of
        None \<Rightarrow> None
      | Some p \<Rightarrow> if power_type p = t then map_option ip_str (power_address p) else None)"

definition env_power :: "AnsibleClient \<Rightarrow> AnsibleJob \<Rightarrow> EnvVar list" where
  "env_power c j =
     (let cfg = kiss c; b = job_box j in
      [env_val ''kiss_os_dist'' (Some (os_dist cfg)),
       env_val ''kiss_os_kernel'' (Some (os_kernel cfg)),
       env_val ''kiss_os_version'' (Some (os_version cfg)),
       env_val ''kiss_power_intel_amt_host'' (power_host b IntelAMT),
       env_ref ''kiss_power_intel_amt_username'' (kiss_config_secret ''power_intel_amt_username''),
       env_ref ''kiss_power_intel_amt_password'' (kiss_config_secret ''power_intel_amt_password''),
       env_val ''kiss_power_ipmi_host'' (power_host b Ipmi),
       env_ref ''kiss_power_ipmi_username'' (kiss_config_secret ''power_ipmi_username''),
       env_ref ''kiss_power_ipmi_password'' (kiss_config_secret ''power_ipmi_password''),
       env_ref ''kiss_submit_base_url'' (kiss_config_secret ''submit_base_url'')])"

definition job_mounts :: "(string \<times> string) list" where
  "job_mounts =
     [(''ansible'', ''/root/ansible''),
      (''ansible-defaults'', ''/root/ansible/defaults''),
      (''playbook'', ''/opt/playbook''),
      (''tasks'', ''/opt/playbook/tasks''),
      (''ssh'', ''/root/.ssh'')]"

definition volumes_of :: "AnsibleClient \<Rightarrow> AnsibleJob \<Rightarrow> (string \<times> VolumeSource) list" where
  "volumes_of c j =
     [(''ansible'', ConfigMapVolume (''ansible-control-planes-'' @ cluster_name (group (spec (job_box j))))
         256 (Some (\<not> group_enforce_ansible_control_planes (kiss c)))),
      (''ansible-defaults'', ConfigMapVolume ''ansible-control-planes-default'' 256 None),
      (''playbook'', ConfigMapVolume ''ansible-task-common'' 256 None),
      (''tasks'', ConfigMapVolume (''ansible-task-'' @ job_task j) 256 None),
      (''ssh'', SecretVolume ''kiss-config'' 256 [(''auth_ssh_key_id_ed25519'', ''id_ed25519'')])]"

definition container_of ::
  "externals \<Rightarrow> AnsibleClient \<Rightarrow> AnsibleJob \<Rightarrow> ClusterState \<Rightarrow> Container" where
  "container_of X c j cs = \<lparr>
     con_image = kubespray_image (kiss c),
     con_image_pull_policy = ''Always'',
     con_command = [''ansible-playbook''],
     con_args =
       [''--become'', ''--become-user=root'',
        ''--inventory'', ''/root/ansible/defaults/defaults.yaml'',
        ''--inventory'', ''/root/ansible/defaults/all.yaml'',
        ''--inventory'', ''/root/ansible/config.yaml'',
        ''--inventory'', ''/root/ansible/hosts.yaml'',
        ''/opt/playbook/'' @ to_playbook (role (group (spec (job_box j))))],
     con_env = env_host X c j @ env_cluster X c j cs @ env_group c j @ env_network X c @ env_power c j,
     con_resources = resource_requirements (job_resource_type j),
     con_volume_mounts = job_mounts\<rparr>"

definition job_spec_of ::
  "externals \<Rightarrow> AnsibleClient \<Rightarrow> AnsibleJob \<Rightarrow> ClusterState \<Rightarrow> JobSpec" where
  "job_spec_of X c j cs = \<lparr>
     ttl_seconds_after_finished = 0,
     template_labels = Some (job_labels X j),
     job_affinity = affinity,
     job_nameservers = [ipv4_str (bootstrapper_network_dns_server_ns1 (kiss c)),
                        ipv4_str (bootstrapper_network_dns_server_ns2 (kiss c))],
     host_network = True,
     priority_class_name = priority_class (role (group (spec (job_box j)))),
     restart_policy = ''OnFailure'',
     service_account = ''ansible-playbook'',
     tolerations =
       (if job_is_critical j
        then Some [\<lparr>tol_operator = ''Exists'', tol_effect = ''NoExecute''\<rparr>,
                   \<lparr>tol_operator = ''Exists'', tol_effect = ''NoSchedule''\<rparr>]
        else None),
     job_container = container_of X c j cs,
     job_volumes = volumes_of c j\<rparr>"

section \<open>Spawning\<close>

text \<open>The calls of the KISS components to the API server, and its answers.\<close>

datatype kiss_call =
  GetConfigMap string string
| ListBoxes
| DeleteCronJobs string string
| DeleteJobs string string
| CreateCronJob string CronJob
| CreateJob string Job
| GetBox string
| CreateBox ObjectMeta BoxSpec
| PatchBox string BoxSpec
| PatchBoxStatus string BoxStatus
| ApplyBoxState string BoxState timestamp
| PublishEvent string Event

record kiss_api =
  answer :: "kiss_call list \<Rightarrow> kiss_call \<Rightarrow> error + unit"
  answer_boxes :: "kiss_call list \<Rightarrow> kiss_call \<Rightarrow> error + BoxCrd list"
  answer_box :: "kiss_call list \<Rightarrow> kiss_call \<Rightarrow> error + BoxCrd option"
  answer_config :: "kiss_call list \<Rightarrow> kiss_call \<Rightarrow> error + labels option"
  clock :: "kiss_call list \<Rightarrow> timestamp"

type_synonym 'a kiss_eff = "(kiss_call, error, 'a) eff"

definition list_boxes :: "kiss_api \<Rightarrow> BoxCrd list kiss_eff" where
  "list_boxes A = call (answer_boxes A) ListBoxes"

definition try_new :: "externals \<Rightarrow> kiss_api \<Rightarrow> string \<Rightarrow> AnsibleClient kiss_eff" where
  "try_new X A namespace =
     tryE (try_default X (call (answer_config A) (GetConfigMap namespace ''kiss-config''))) (\<lambda>cfg.
     ret \<lparr>kiss = cfg, client_namespace = namespace\<rparr>)"

text \<open>The call that creates the job: a cron job when there is a schedule.\<close>

definition job_call :: "externals \<Rightarrow> AnsibleClient \<Rightarrow> AnsibleJob \<Rightarrow> ClusterState \<Rightarrow> kiss_call" where
  "job_call X c j cs =
     (case job_cron j of
        Some sched \<Rightarrow> CreateCronJob (client_namespace c)
          \<lparr>cron_meta = job_metadata X c j,
           concurrency_policy = ''Replace'',
           schedule = sched,
           starting_deadline_seconds = 180,
           cron_job_meta = job_metadata X c j,
           cron_job_spec = job_spec_of X c j cs\<rparr>
      | None \<Rightarrow> CreateJob (client_namespace c)
          \<lparr>job_meta = job_metadata X c j, job_spec = Some (job_spec_of X c j cs), job_status = None\<rparr>)"

definition spawn :: "externals \<Rightarrow> kiss_api \<Rightarrow> AnsibleClient \<Rightarrow> AnsibleJob \<Rightarrow> bool kiss_eff" where
  "spawn X A c j =
     tryE (call (answer A) (DeleteCronJobs (client_namespace c) (job_selector X (job_box j)))) (\<lambda>_.
     tryE (call (answer A) (DeleteJobs (client_namespace c) (job_selector X (job_box j)))) (\<lambda>_.
     tryE (load X (list_boxes A) (kiss c) (spec (job_box j)) (job_use_workers j)) (\<lambda>cs.
     if job_new_state j = Some Joining \<and> \<not> is_joinable cs
     then ret False
     else tryE (call (answer A) (job_call X c j cs)) (\<lambda>_. ret True))))"

section \<open>Facts\<close>

lemma job_label_entry:
  "label_of (job_metadata X c j) k =
     map_of (rev (List.map_filter id
       [Some (LABEL_BOX_NAME, box_key X (job_box j)),
        Some (LABEL_BOX_MACHINE_UUID, uuid_str X (machine_uuid (machine (spec (job_box j))))),
        Some (LABEL_JOB_IS_CRITICAL, bool_str (job_is_critical j)),
        Some (LABEL_JOB_NAME, job_task j),
        Some (''serviceType'', ''ansible-task''),
        map_option (\<lambda>s. (LABEL_COMPLETED_STATE, s))
          (map_option state_str (Option.bind (job_new_state j) complete))])) k"
  by (simp add: label_of_def job_metadata_def meta_default_def job_labels_def bt_get_collect)

lemma job_label_box: "label_of (job_metadata X c j) LABEL_BOX_NAME = Some (box_key X (job_box j))"
  unfolding job_label_entry
  by (cases "Option.bind (job_new_state j) complete") (simp_all add: List.map_filter_def label_defs)

lemma job_label_completed:
  "label_of (job_metadata X c j) LABEL_COMPLETED_STATE =
     map_option state_str (Option.bind (job_new_state j) complete)"
  unfolding job_label_entry
  by (cases "Option.bind (job_new_state j) complete") (simp_all add: List.map_filter_def label_defs)

lemma job_label_critical:
  "label_of (job_metadata X c j) LABEL_JOB_IS_CRITICAL = Some (bool_str (job_is_critical j))"
  unfolding job_label_entry
  by (cases "Option.bind (job_new_state j) complete") (simp_all add: List.map_filter_def label_defs)

text \<open>The calls of \<open>spawn\<close>, in order; it creates a job exactly when it answers true.\<close>

definition spawn_admits :: "externals \<Rightarrow> kiss_api \<Rightarrow> AnsibleClient \<Rightarrow> AnsibleJob \<Rightarrow> kiss_call list \<Rightarrow> bool" where
  "spawn_admits X A c j l =
     (\<exists>items. answer_boxes A l ListBoxes = Inr items
        \<and> (job_new_state j = Some Joining \<longrightarrow> is_joinable (cluster_view X (kiss c) (spec (job_box j)) items)))"

definition is_create :: "kiss_call \<Rightarrow> bool" where
  "is_create k = (case k of CreateJob _ _ \<Rightarrow> True | CreateCronJob _ _ \<Rightarrow> True | _ \<Rightarrow> False)"

definition is_spawn_call :: "kiss_call \<Rightarrow> bool" where
  "is_spawn_call k =
     (case k of DeleteCronJobs _ _ \<Rightarrow> True | DeleteJobs _ _ \<Rightarrow> True | ListBoxes \<Rightarrow> True
      | CreateJob _ _ \<Rightarrow> True | CreateCronJob _ _ \<Rightarrow> True | _ \<Rightarrow> False)"

lemma emits_load:
  "P ListBoxes \<Longrightarrow> emits P (load X (list_boxes A) cfg owner w)"
  unfolding load_def load_control_planes_def load_worker_nodes_def list_boxes_def
  by (intro emits_intros) simp_all

lemma is_create_job_call: "is_create (job_call X c j cs)"
  by (simp add: job_call_def is_create_def split: option.splits)

lemma is_spawn_job_call: "is_spawn_call (job_call X c j cs)"
  by (simp add: job_call_def is_spawn_call_def split: option.splits)

lemma emits_spawn: "emits is_spawn_call (spawn X A c j)"
  unfolding spawn_def
  by (intro emits_intros emits_load is_spawn_job_call) (simp_all add: is_spawn_call_def)

text \<open>What \<open>spawn\<close> does without workers, after any log of calls.\<close>

definition clear_calls :: "externals \<Rightarrow> AnsibleClient \<Rightarrow> BoxCrd \<Rightarrow> kiss_call list" where
  "clear_calls X c b =
     [DeleteCronJobs (client_namespace c) (job_selector X b), DeleteJobs (client_namespace c) (job_selector X b)]"

lemma spawn_result:
  assumes "\<not> job_use_workers j"
  shows "wp (spawn X A c j) (\<lambda>r l'.
     case r of
       Inl e \<Rightarrow> True
     | Inr spawned \<Rightarrow> \<exists>items.
         answer_boxes A (l @ clear_calls X c (job_box j)) ListBoxes = Inr items
         \<and> (let cs = cluster_view X (kiss c) (spec (job_box j)) items in
             spawned = (job_new_state j = Some Joining \<longrightarrow> is_joinable cs)
             \<and> l' = l @ clear_calls X c (job_box j) @ ListBoxes #
                     (if spawned then [job_call X c j cs] else []))) l"
  using assms
  by (auto simp: spawn_def load_view list_boxes_def eff_simps Let_def clear_calls_def
      split: sum.splits)

end
