(* ===== verification/Kiss_Operator.thy ===== *)
theory Kiss_Operator
  imports Kiss_Ansible
begin

text \<open>
  The two controllers of \<^verbatim>\<open>crates/openark-kiss-operator\<close>: \<open>reconcile_box\<close> moves a box
  through its life cycle and spawns its Ansible jobs; \<open>reconcile_job\<close> copies the outcome of
  a job to the state of its box.
\<close>

section \<open>Events\<close>

datatype Reason = ProvisioningError | ProvisioningUpdated

fun reason_str :: "Reason \<Rightarrow> string" where
  "reason_str ProvisioningError = ''ProvisioningError''"
| "reason_str ProvisioningUpdated = ''ProvisioningUpdated''"

definition reason_accepted :: "Reason \<Rightarrow> bool" where
  "reason_accepted r = (case r of ProvisioningUpdated \<Rightarrow> True | _ \<Rightarrow> False)"

definition report_update :: "kiss_api \<Rightarrow> string \<Rightarrow> string \<Rightarrow> unit kiss_eff" where
  "report_update A reference message =
     call (answer A) (PublishEvent reference
       \<lparr>event_type = Normal, event_reason = reason_str ProvisioningUpdated,
        event_note = Some message, event_action = ''Scheduling''\<rparr>)"

section \<open>The box controller\<close>

record BoxContext =
  ansible :: AnsibleClient
  enable_cronjobs :: bool
  interval :: duration

definition box_state :: "BoxCrd \<Rightarrow> BoxState" where
  "box_state b = (case status b of None \<Rightarrow> New | Some s \<Rightarrow> state s)"

definition is_bind_group_updated :: "BoxCrd \<Rightarrow> bool" where
  "is_bind_group_updated b =
     (case Option.bind (status b) bind_group of
        None \<Rightarrow> True
      | Some g \<Rightarrow> g \<noteq> group (spec b))"

definition has_access :: "BoxCrd \<Rightarrow> bool" where
  "has_access b = (case status b of None \<Rightarrow> False | Some s \<Rightarrow> primary (access s) \<noteq> None)"

text \<open>New boxes without access: wait, or give up after \<open>timeout_new\<close>.\<close>

definition wait_new_box :: "BoxCrd \<Rightarrow> timestamp \<Rightarrow> Action + BoxState" where
  "wait_new_box b now =
     (if box_state b = New \<and> \<not> has_access b
      then (case crd_last_updated b of
              Some t \<Rightarrow> if now > t + timeout_new then Inr Disconnected
                         else Inl (Requeue timeout_new)
            | None \<Rightarrow> Inl (Requeue timeout_new))
      else Inr (next_state (box_state b)))"

definition is_timed_out :: "BoxCrd \<Rightarrow> timestamp \<Rightarrow> bool" where
  "is_timed_out b now =
     (case (timeout (box_state b), crd_last_updated b) of
        (Some d, Some t) \<Rightarrow> now > t + d
      | _ \<Rightarrow> False)"

definition capture_changes :: "BoxCrd \<Rightarrow> timestamp \<Rightarrow> BoxState \<Rightarrow> BoxState" where
  "capture_changes b now new =
     (let new = (if is_timed_out b now then Failed else new)
      in if box_state b = Running \<and> is_bind_group_updated b then Disconnected else new)"

definition apply_default_role ::
  "kiss_api \<Rightarrow> BoxContext \<Rightarrow> BoxCrd \<Rightarrow> Action kiss_eff" where
  "apply_default_role A ctx b =
     (let default_role = group_default_role (kiss (ansible ctx)); name = name_any (metadata b) in
      tryE (call (answer A) (PatchBox name
        ((spec b)\<lparr>group := (group (spec b))\<lparr>role := default_role\<rparr>\<rparr>))) (\<lambda>_.
      tryE (report_update A name (''Changed the default role to '' @ role_str default_role)) (\<lambda>_.
      ret (Requeue (interval ctx)))))"

definition resource_type_of :: "BoxState \<Rightarrow> AnsibleResourceType" where
  "resource_type_of old =
     (if old \<in> {New, Commissioning, Ready, Joining} then NormalResource else MinimalResource)"

text \<open>The reasons not to join now; \<open>None\<close> when the box shall join.\<close>

definition skip_joining ::
  "kiss_api \<Rightarrow> BoxContext \<Rightarrow> BoxCrd \<Rightarrow> (Action kiss_eff) option" where
  "skip_joining A ctx b =
     (let cfg = kiss (ansible ctx); name = name_any (metadata b); g = group (spec b) in
      if role g = ExternalWorker then
        Some (tryE (report_update A name ''Skipped joining (box is external)'') (\<lambda>_.
              ret (Requeue (interval ctx))))
      else if \<not> group_enable_default_cluster cfg \<and> is_default g \<and> role g = GenericWorker then
        Some (tryE (report_update A name ''Skipped joining (default cluster is disabled)'') (\<lambda>_.
              ret (Requeue (interval ctx))))
      else if \<not> is_bind_group_updated b then
        Some (tryE (observe (clock A)) (\<lambda>t.
              tryE (call (answer A) (PatchBoxStatus name
                \<lparr>state = Running,
                 access = (case status b of None \<Rightarrow> access_default | Some s \<Rightarrow> access s),
                 bind_group = Option.bind (status b) bind_group,
                 last_updated = t\<rparr>)) (\<lambda>_.
              tryE (report_update A name ''Skipped joining (already joined)'') (\<lambda>_.
              ret (Requeue (interval ctx))))))
      else None)"

definition ansible_job ::
  "BoxCrd \<Rightarrow> BoxState \<Rightarrow> string \<Rightarrow> BoxGroupSpec option \<Rightarrow> AnsibleJob" where
  "ansible_job b new task new_group = \<lparr>
     job_cron = cron new,
     job_task = task,
     job_box = b,
     job_new_group = new_group,
     job_new_state = Some new,
     job_is_critical = False,
     job_resource_type = resource_type_of (box_state b),
     job_use_workers = False\<rparr>"

text \<open>The status written when the state changes.\<close>

definition next_status :: "BoxCrd \<Rightarrow> BoxState \<Rightarrow> timestamp \<Rightarrow> BoxStatus" where
  "next_status b new t = \<lparr>
     state = new,
     access = (case status b of None \<Rightarrow> access_default | Some s \<Rightarrow> access s),
     bind_group = (if new = Joining then Some (group (spec b)) else Option.bind (status b) bind_group),
     last_updated = t\<rparr>"

definition wait_for_change :: "kiss_api \<Rightarrow> BoxCrd \<Rightarrow> Action kiss_eff" where
  "wait_for_change A b =
     tryE (report_update A (name_any (metadata b)) ''Waiting for being changed'') (\<lambda>_.
     ret AwaitChange)"

definition commit_state :: "kiss_api \<Rightarrow> BoxContext \<Rightarrow> BoxCrd \<Rightarrow> BoxState \<Rightarrow> Action kiss_eff" where
  "commit_state A ctx b new =
     (if box_state b = new then wait_for_change A b
      else tryE (observe (clock A)) (\<lambda>t.
           tryE (call (answer A) (PatchBoxStatus (name_any (metadata b)) (next_status b new t))) (\<lambda>_.
           tryE (report_update A (name_any (metadata b)) (''Updated state: '' @ state_str new)) (\<lambda>_.
           ret (Requeue (interval ctx))))))"

definition advance ::
  "externals \<Rightarrow> kiss_api \<Rightarrow> BoxContext \<Rightarrow> BoxCrd \<Rightarrow> BoxState \<Rightarrow> BoxGroupSpec option \<Rightarrow> Action kiss_eff" where
  "advance X A ctx b new new_group =
     (if box_state b \<noteq> new \<or> enable_cronjobs ctx \<and> cron new \<noteq> None then
        (case as_task new of
           None \<Rightarrow> commit_state A ctx b new
         | Some task \<Rightarrow>
             tryE (spawn X A (ansible ctx) (ansible_job b new task new_group)) (\<lambda>is_spawned.
             if \<not> is_spawned
             then tryE (report_update A (name_any (metadata b)) ''Cannot spawn an Ansible job; waiting'') (\<lambda>_.
                  ret (Requeue (seconds 60)))
             else commit_state A ctx b new))
      else wait_for_change A b)"

definition join_or_advance ::
  "externals \<Rightarrow> kiss_api \<Rightarrow> BoxContext \<Rightarrow> BoxCrd \<Rightarrow> BoxState \<Rightarrow> Action kiss_eff" where
  "join_or_advance X A ctx b new =
     (if box_state b \<noteq> Joining \<and> new = Joining
      then (case skip_joining A ctx b of
              Some skip \<Rightarrow> skip
            | None \<Rightarrow> advance X A ctx b new (Some (group (spec b))))
      else advance X A ctx b new None)"

definition reconcile_box ::
  "externals \<Rightarrow> kiss_api \<Rightarrow> BoxContext \<Rightarrow> BoxCrd \<Rightarrow> Action kiss_eff" where
  "reconcile_box X A ctx b =
     tryE (observe (clock A)) (\<lambda>now.
     if role (group (spec b)) = GenericWorker
        \<and> role (group (spec b)) \<noteq> group_default_role (kiss (ansible ctx))
     then apply_default_role A ctx b
     else (case wait_new_box b now of
             Inl action \<Rightarrow> ret action
           | Inr new0 \<Rightarrow> join_or_advance X A ctx b (capture_changes b now new0)))"

definition error_policy_box :: "BoxContext \<Rightarrow> Action" where
  "error_policy_box ctx = Requeue (interval ctx)"

section \<open>The job controller\<close>

definition get_label :: "(string \<Rightarrow> 't option) \<Rightarrow> Job \<Rightarrow> string \<Rightarrow> 't option" where
  "get_label parse j label = Option.bind (label_of (job_meta j) label) parse"

definition get_box_name :: "Job \<Rightarrow> string option" where
  "get_box_name j = get_label Some j LABEL_BOX_NAME"

definition is_critical :: "Job \<Rightarrow> bool" where
  "is_critical j = unwrap_or False (get_label bool_parse j LABEL_JOB_IS_CRITICAL)"

definition update_box_state ::
  "kiss_api \<Rightarrow> duration \<Rightarrow> string \<Rightarrow> BoxState \<Rightarrow> Action kiss_eff" where
  "update_box_state A ival box_name new =
     tryE (observe (clock A)) (\<lambda>t.
     tryE (call (answer A) (ApplyBoxState box_name new t)) (\<lambda>_.
     tryE (report_update A box_name (''Updated state: '' @ state_str new)) (\<lambda>_.
     ret (Requeue ival))))"

definition count_positive :: "i32 option \<Rightarrow> bool" where
  "count_positive n = (unwrap_or 0 n > 0)"

definition completed_state :: "Job \<Rightarrow> BoxState option" where
  "completed_state j = Option.bind (label_of (job_meta j) LABEL_COMPLETED_STATE) state_parse"

definition reconcile_job :: "kiss_api \<Rightarrow> duration \<Rightarrow> Job \<Rightarrow> Action kiss_eff" where
  "reconcile_job A ival j =
     (case get_box_name j of
        None \<Rightarrow> ret AwaitChange
      | Some box_name \<Rightarrow>
          if is_critical j then ret AwaitChange
          else if count_positive (Option.bind (job_status j) succeeded) then
            (case completed_state j of
               Some new \<Rightarrow> update_box_state A ival box_name new
             | None \<Rightarrow> ret (Requeue ival))
          else if count_positive (Option.bind (job_status j) failed) then
            update_box_state A ival box_name Failed
          else ret (Requeue ival))"

definition error_policy_job :: Action where
  "error_policy_job = Requeue (seconds 30)"

section \<open>The life cycle of a box\<close>

text \<open>The state changes the box controller may write.\<close>

inductive box_transition :: "BoxState \<Rightarrow> BoxState \<Rightarrow> bool" where
  provision: "box_transition New Commissioning"
| unreachable: "box_transition New Disconnected"
| commission_timeout: "box_transition Commissioning Failed"
| join: "box_transition Ready Joining"
| joined_already: "box_transition Ready Running"
| join_timeout: "box_transition Joining Failed"
| group_changed: "box_transition Running Disconnected"

inductive_cases box_transitionE: "box_transition x y"

inductive_simps box_transition_to_Joining: "box_transition x Joining"
inductive_simps box_transition_to_Running: "box_transition x Running"

lemma box_transition_irrefl: "\<not> box_transition x x"
  by (auto elim: box_transitionE)

definition box_access :: "BoxCrd \<Rightarrow> BoxAccessInterfaceSpec BoxAccessSpec" where
  "box_access b = (case status b of None \<Rightarrow> access_default | Some s \<Rightarrow> access s)"

definition box_bind_group :: "BoxCrd \<Rightarrow> BoxGroupSpec option" where
  "box_bind_group b = Option.bind (status b) bind_group"

text \<open>The state decided before any call.\<close>

lemma capture_changes_transition:
  assumes "wait_new_box b now = Inr new0" and "capture_changes b now new0 \<noteq> box_state b"
  shows "box_transition (box_state b) (capture_changes b now new0)"
proof (cases "box_state b = New \<and> \<not> has_access b")
  case True
  then have "new0 = Disconnected"
    using assms(1) by (auto simp: wait_new_box_def split: option.splits if_splits)
  with True show ?thesis
    by (simp add: capture_changes_def is_timed_out_def box_transition.intros)
next
  case False
  then have new0: "new0 = next_state (box_state b)"
    using assms(1) by (auto simp: wait_new_box_def)
  show ?thesis
    using assms(2) unfolding new0 capture_changes_def is_timed_out_def Let_def
    by (cases "box_state b") (auto split: if_splits option.splits intro: box_transition.intros)
qed

lemma capture_changes_Joining:
  assumes "capture_changes b now new0 = Joining" and "wait_new_box b now = Inr new0"
  shows "box_state b = Ready \<or> box_state b = Joining"
proof (cases "capture_changes b now new0 = box_state b")
  case True
  with assms show ?thesis by simp
next
  case False
  with capture_changes_transition [OF assms(2) False] assms(1) show ?thesis
    by (simp add: box_transition_to_Joining)
qed

text \<open>What a status written by the controller holds.\<close>

definition status_written :: "BoxCrd \<Rightarrow> string \<Rightarrow> BoxStatus \<Rightarrow> bool" where
  "status_written b n s \<longleftrightarrow>
     n = name_any (metadata b)
     \<and> box_transition (box_state b) (state s)
     \<and> access s = box_access b
     \<and> bind_group s = (if state s = Joining then Some (group (spec b)) else box_bind_group b)"

definition status_call_ok :: "BoxCrd \<Rightarrow> kiss_call \<Rightarrow> bool" where
  "status_call_ok b k = (case k of PatchBoxStatus n s \<Rightarrow> status_written b n s | _ \<Rightarrow> True)"

lemma status_call_ok_simps [simp]:
  "status_call_ok b (PatchBoxStatus n s) = status_written b n s"
  "is_spawn_call k \<Longrightarrow> status_call_ok b k"
  "status_call_ok b (PublishEvent n e)"
  "status_call_ok b (PatchBox n sp)"
  by (auto simp: status_call_ok_def is_spawn_call_def split: kiss_call.splits)

lemma emits_report_update: "(\<And>e. P (PublishEvent n e)) \<Longrightarrow> emits P (report_update A n m)"
  unfolding report_update_def by (rule emits_call)

lemma emits_spawn_ok: "emits (status_call_ok b) (spawn X A c j)"
  by (rule emits_weaken [OF emits_spawn]) simp

lemma emits_commit_state:
  assumes "new \<noteq> box_state b \<Longrightarrow> box_transition (box_state b) new"
  shows "emits (status_call_ok b) (commit_state A ctx b new)"
  unfolding commit_state_def wait_for_change_def
  using assms
  by (intro emits_intros emits_report_update)
     (auto simp: status_written_def next_status_def box_access_def box_bind_group_def)

lemma emits_advance:
  assumes "new \<noteq> box_state b \<Longrightarrow> box_transition (box_state b) new"
  shows "emits (status_call_ok b) (advance X A ctx b new ng)"
  unfolding advance_def wait_for_change_def
  by (intro emits_intros emits_report_update emits_spawn_ok emits_commit_state) (use assms in auto)

lemma emits_skip_joining:
  assumes "skip_joining A ctx b = Some skip" and "box_state b = Ready"
  shows "emits (status_call_ok b) skip"
  using assms
  by (auto simp: skip_joining_def Let_def status_written_def box_access_def box_bind_group_def
      split: if_splits intro!: emits_intros emits_report_update intro: box_transition.intros)

lemma emits_join_or_advance:
  assumes "new \<noteq> box_state b \<Longrightarrow> box_transition (box_state b) new"
  shows "emits (status_call_ok b) (join_or_advance X A ctx b new)"
  unfolding join_or_advance_def
proof (intro emits_intros emits_advance)
  show "emits (status_call_ok b) skip"
    if "box_state b \<noteq> Joining \<and> new = Joining" "skip_joining A ctx b = Some skip" for skip
    using assms that by (intro emits_skip_joining [OF that(2)]) (auto simp: box_transition_to_Joining)
qed (use assms in auto)

lemma emits_reconcile_box: "emits (status_call_ok b) (reconcile_box X A ctx b)"
  unfolding reconcile_box_def apply_default_role_def Let_def
  by (intro emits_intros emits_report_update emits_join_or_advance)
     (auto intro: capture_changes_transition dest: sym)

text \<open>Every status the box controller writes belongs to the reconciled box, changes its state along
  \<open>box_transition\<close>, keeps its access, and sets the bound group only when the box joins, to the
  group of its specification.\<close>

theorem reconcile_box_status:
  assumes "PatchBoxStatus n s \<in> set (calls_of (reconcile_box X A ctx b))"
  shows "status_written b n s"
  using emits_calls_of [OF emits_reconcile_box assms] by simp

section \<open>Admission\<close>

text \<open>The log holds a list of all boxes from which the cluster admits the box.\<close>

definition admitted ::
  "externals \<Rightarrow> kiss_api \<Rightarrow> KissConfig \<Rightarrow> BoxCrd \<Rightarrow> kiss_call list \<Rightarrow> bool" where
  "admitted X A cfg b l' \<longleftrightarrow>
     (\<exists>l items cs. l' = l @ ListBoxes # cs \<and> answer_boxes A l ListBoxes = Inr items
        \<and> is_joinable (cluster_view X cfg (spec b) items))"

lemma admitted_append: "admitted X A cfg b l \<Longrightarrow> admitted X A cfg b (l @ cs)"
  unfolding admitted_def by force

definition writes_joining :: "kiss_call \<Rightarrow> bool" where
  "writes_joining k = (case k of PatchBoxStatus n s \<Rightarrow> state s = Joining | _ \<Rightarrow> False)"

lemma writes_joining_simps [simp]:
  "writes_joining (PatchBoxStatus n s) \<longleftrightarrow> state s = Joining"
  "is_spawn_call k \<Longrightarrow> \<not> writes_joining k"
  "\<not> writes_joining (PublishEvent n e)"
  "\<not> writes_joining (PatchBox n sp)"
  by (auto simp: writes_joining_def is_spawn_call_def split: kiss_call.splits)

definition joins_admitted ::
  "externals \<Rightarrow> kiss_api \<Rightarrow> KissConfig \<Rightarrow> BoxCrd \<Rightarrow> kiss_call list \<Rightarrow> bool" where
  "joins_admitted X A cfg b l \<longleftrightarrow> ((\<exists>k\<in>set l. writes_joining k) \<longrightarrow> admitted X A cfg b l)"

lemma joins_admitted_emits:
  assumes "emits (\<lambda>k. \<not> writes_joining k) m" and "joins_admitted X A cfg b l"
  shows "wp m (\<lambda>r. joins_admitted X A cfg b) l"
  by (rule wp_mono [OF wp_emits [OF assms(1)]])
     (use assms(2) in \<open>auto simp: joins_admitted_def list_all_iff dest: admitted_append\<close>)

lemma emits_spawn_quiet: "emits (\<lambda>k. \<not> writes_joining k) (spawn X A c j)"
  by (rule emits_weaken [OF emits_spawn]) simp

lemma emits_commit_quiet:
  "new \<noteq> Joining \<Longrightarrow> emits (\<lambda>k. \<not> writes_joining k) (commit_state A ctx b new)"
  unfolding commit_state_def wait_for_change_def
  by (intro emits_intros emits_report_update) (auto simp: next_status_def)

lemma emits_advance_quiet:
  "new \<noteq> Joining \<Longrightarrow> emits (\<lambda>k. \<not> writes_joining k) (advance X A ctx b new ng)"
  unfolding advance_def wait_for_change_def
  by (intro emits_intros emits_report_update emits_spawn_quiet emits_commit_quiet) auto

lemma emits_skip_quiet:
  "skip_joining A ctx b = Some skip \<Longrightarrow> emits (\<lambda>k. \<not> writes_joining k) skip"
  by (auto simp: skip_joining_def Let_def split: if_splits intro!: emits_intros emits_report_update)

lemma commit_admitted:
  assumes "admitted X A cfg b l"
  shows "wp (commit_state A ctx b new) (\<lambda>r. joins_admitted X A cfg b) l"
proof -
  have "emits (\<lambda>_. True) (commit_state A ctx b new)"
    unfolding commit_state_def wait_for_change_def
    by (intro emits_intros emits_report_update) simp_all
  then show ?thesis
    by (rule wp_mono [OF wp_emits])
       (use assms in \<open>auto simp: joins_admitted_def dest: admitted_append\<close>)
qed

lemma advance_admitted:
  assumes l: "joins_admitted X A (kiss (ansible ctx)) b l" and new: "box_state b \<noteq> Joining"
  shows "wp (advance X A ctx b Joining ng) (\<lambda>r. joins_admitted X A (kiss (ansible ctx)) b) l"
proof -
  let ?j = "ansible_job b Joining ''join'' ng"
  have "wp (spawn X A (ansible ctx) ?j) (\<lambda>r l'. joins_admitted X A (kiss (ansible ctx)) b l'
          \<and> (r = Inr True \<longrightarrow> admitted X A (kiss (ansible ctx)) b l')) l"
    unfolding wp_conj
  proof
    show "wp (spawn X A (ansible ctx) ?j) (\<lambda>r. joins_admitted X A (kiss (ansible ctx)) b) l"
      by (rule joins_admitted_emits [OF emits_spawn_quiet l])
    show "wp (spawn X A (ansible ctx) ?j)
        (\<lambda>r l'. r = Inr True \<longrightarrow> admitted X A (kiss (ansible ctx)) b l') l"
      by (rule wp_mono [OF spawn_result])
         (auto simp: ansible_job_def admitted_def Let_def, metis append.assoc)
  qed
  then have "wp (tryE (spawn X A (ansible ctx) ?j) (\<lambda>is_spawned.
      if \<not> is_spawned
      then tryE (report_update A (name_any (metadata b)) ''Cannot spawn an Ansible job; waiting'')
             (\<lambda>_. ret (Requeue (seconds 60)))
      else commit_state A ctx b Joining)) (\<lambda>r. joins_admitted X A (kiss (ansible ctx)) b) l"
    by (rule wp_tryE_seq)
       (auto intro!: commit_admitted joins_admitted_emits emits_intros emits_report_update)
  with new show ?thesis by (simp add: advance_def)
qed

lemma reconcile_box_admitted:
  "wp (reconcile_box X A ctx b) (\<lambda>r. joins_admitted X A (kiss (ansible ctx)) b) []"
proof -
  have nil: "joins_admitted X A (kiss (ansible ctx)) b []"
    by (simp add: joins_admitted_def)
  have "wp (join_or_advance X A ctx b new) (\<lambda>r. joins_admitted X A (kiss (ansible ctx)) b) []" for new
  proof (cases "new = Joining")
    case False
    then show ?thesis
      by (simp add: join_or_advance_def joins_admitted_emits [OF emits_advance_quiet nil])
  next
    case True
    show ?thesis
    proof (cases "box_state b = Joining")
      case True
      have "emits (\<lambda>k. \<not> writes_joining k) (join_or_advance X A ctx b Joining)" if "\<not> enable_cronjobs ctx \<or> cron Joining = None"
        using True that unfolding join_or_advance_def advance_def wait_for_change_def
        by (intro emits_intros emits_report_update) auto
      then show ?thesis
        using \<open>new = Joining\<close> by (auto intro: joins_admitted_emits [OF _ nil])
    next
      case False
      with True show ?thesis
        by (auto simp: join_or_advance_def split: option.splits
            intro: joins_admitted_emits [OF emits_skip_quiet nil] advance_admitted [OF nil])
    qed
  qed
  moreover have "emits (\<lambda>k. \<not> writes_joining k) (apply_default_role A ctx b)"
    unfolding apply_default_role_def Let_def by (intro emits_intros emits_report_update) simp_all
  ultimately show ?thesis
    unfolding reconcile_box_def wp_tryE wp_observe sum.case wp_if
    by (simp add: joins_admitted_emits [OF _ nil] emits_ret split: sum.splits)
qed

text \<open>C2.
  A box is marked Joining only after the controller listed all boxes and the cluster admitted the
  box from that list.\<close>

theorem reconcile_box_joins_admitted:
  assumes "PatchBoxStatus n s \<in> set (calls_of (reconcile_box X A ctx b))" and "state s = Joining"
  shows "admitted X A (kiss (ansible ctx)) b (calls_of (reconcile_box X A ctx b))"
proof -
  have "joins_admitted X A (kiss (ansible ctx)) b (calls_of (reconcile_box X A ctx b))"
    by (rule wp_calls) (rule reconcile_box_admitted)
  with assms show ?thesis
    by (force simp: joins_admitted_def)
qed

section \<open>Examples\<close>

text \<open>An API that answers every call, with a fixed list of boxes.\<close>

definition example_api :: "BoxCrd list \<Rightarrow> timestamp \<Rightarrow> kiss_api" where
  "example_api items now = \<lparr>answer = (\<lambda>_ _. Inr ()), answer_boxes = (\<lambda>_ _. Inr items),
     answer_box = (\<lambda>_ _. Inr None), answer_config = (\<lambda>_ _. Inr None), clock = (\<lambda>_. now)\<rparr>"

definition example_context :: BoxContext where
  "example_context = \<lparr>ansible = \<lparr>kiss = example_config, client_namespace = ''kiss''\<rparr>,
     enable_cronjobs = False, interval = seconds 30\<rparr>"

definition edge :: "BoxGroupRole \<Rightarrow> BoxGroupSpec" where
  "edge r = \<lparr>cluster_name = ''edge'', role = r\<rparr>"

definition ready_box :: BoxCrd where
  "ready_box = example_box 3 (edge ControlPlane) (Some (example_status Ready None))"

lemma ready_box_joins:
  "PatchBoxStatus ''3'' (next_status ready_box Joining 7)
     \<in> set (calls_of (reconcile_box example_externals (example_api [ready_box] 7) example_context ready_box))"
  by code_simp

theorem reconcile_box_status_witness:
  "status_written ready_box ''3'' (next_status ready_box Joining 7)"
  by (rule reconcile_box_status [OF ready_box_joins])

theorem reconcile_box_joins_admitted_witness:
  "admitted example_externals (example_api [ready_box] 7) example_config ready_box
     (calls_of (reconcile_box example_externals (example_api [ready_box] 7) example_context ready_box))"
  using reconcile_box_joins_admitted [OF ready_box_joins]
  by (simp add: next_status_def example_context_def)

section \<open>Time limits\<close>

definition default_role_applies :: "BoxContext \<Rightarrow> BoxCrd \<Rightarrow> bool" where
  "default_role_applies ctx b \<longleftrightarrow>
     role (group (spec b)) = GenericWorker \<and> group_default_role (kiss (ansible ctx)) \<noteq> GenericWorker"

definition update_event :: "BoxCrd \<Rightarrow> string \<Rightarrow> kiss_call" where
  "update_event b msg = PublishEvent (name_any (metadata b))
     \<lparr>event_type = Normal, event_reason = ''ProvisioningUpdated'', event_note = Some msg,
      event_action = ''Scheduling''\<rparr>"

lemma report_update_event:
  "report_update A (name_any (metadata b)) msg = call (answer A) (update_event b msg)"
  by (simp add: report_update_def update_event_def)

lemma reconcile_box_unfold:
  assumes "\<not> default_role_applies ctx b"
  shows "reconcile_box X A ctx b = tryE (observe (clock A)) (\<lambda>now.
     case wait_new_box b now of
       Inl action \<Rightarrow> ret action
     | Inr new0 \<Rightarrow> join_or_advance X A ctx b (capture_changes b now new0))"
  using assms by (auto simp: reconcile_box_def default_role_applies_def fun_eq_iff tryE_def observe_def)

lemma timed_out_state: "is_timed_out b now \<Longrightarrow> box_state b = Commissioning \<or> box_state b = Joining"
  by (cases "box_state b") (auto simp: is_timed_out_def)

lemma timed_out_fails:
  assumes "is_timed_out b now"
  shows "wait_new_box b now = Inr (box_state b)" "capture_changes b now new = Failed"
  using timed_out_state [OF assms] assms by (auto simp: wait_new_box_def capture_changes_def)

text \<open>The job that resets a failed box.\<close>

definition reset_job :: "BoxCrd \<Rightarrow> AnsibleJob" where
  "reset_job b = ansible_job b Failed ''reset'' None"

definition fail_calls ::
  "externals \<Rightarrow> AnsibleClient \<Rightarrow> BoxCrd \<Rightarrow> BoxCrd list \<Rightarrow> timestamp \<Rightarrow> kiss_call list" where
  "fail_calls X c b items t =
     clear_calls X c b @
     [ListBoxes, job_call X c (reset_job b) (cluster_view X (kiss c) (spec b) items),
      PatchBoxStatus (name_any (metadata b)) (next_status b Failed t),
      update_event b ''Updated state: Failed'']"

lemma advance_fails:
  assumes "box_state b = Commissioning \<or> box_state b = Joining"
  shows "wp (advance X A ctx b Failed None) (\<lambda>r l. \<forall>a. r = Inr a \<longrightarrow>
     a = Requeue (interval ctx) \<and> (\<exists>items t. l = fail_calls X (ansible ctx) b items t)) []"
  using assms
  by (auto simp: advance_def commit_state_def spawn_def load_view list_boxes_def report_update_event
      eff_simps fail_calls_def clear_calls_def reset_job_def ansible_job_def split: sum.splits)

text \<open>A box that stayed in Commissioning or Joining beyond its time limit is given up: when the
  reconciliation succeeds, its old jobs are deleted, the hourly reset job is created and the
  status Failed is written, in this order, and the box is looked at again after the interval.\<close>

theorem timeout_fails:
  assumes "\<not> default_role_applies ctx b" and "is_timed_out b (clock A [])"
    and "result_of (reconcile_box X A ctx b) = Inr a"
  shows "a = Requeue (interval ctx)
    \<and> (\<exists>items t. calls_of (reconcile_box X A ctx b) = fail_calls X (ansible ctx) b items t)"
proof -
  have "join_or_advance X A ctx b Failed = advance X A ctx b Failed None"
    by (simp add: join_or_advance_def)
  with advance_fails [OF timed_out_state [OF assms(2)], of X A ctx] timed_out_fails [OF assms(2)]
  have "wp (reconcile_box X A ctx b) (\<lambda>r l. \<forall>a. r = Inr a \<longrightarrow>
     a = Requeue (interval ctx) \<and> (\<exists>items t. l = fail_calls X (ansible ctx) b items t)) []"
    unfolding reconcile_box_unfold [OF assms(1)] by (simp add: eff_simps)
  with assms(3) show ?thesis by (simp add: wp_result)
qed

definition joining_box :: BoxCrd where
  "joining_box = example_box 3 (edge ControlPlane) (Some (example_status Joining (Some (edge ControlPlane))))"

lemma joining_box_overdue:
  "\<not> default_role_applies example_context joining_box
   \<and> is_timed_out joining_box (clock (example_api [joining_box] (hours 3)) [])
   \<and> result_of (reconcile_box example_externals (example_api [joining_box] (hours 3))
        example_context joining_box) = Inr (Requeue (seconds 30))"
  by code_simp

theorem timeout_fails_witness:
  "\<exists>items t. calls_of (reconcile_box example_externals (example_api [joining_box] (hours 3))
      example_context joining_box)
    = fail_calls example_externals (ansible example_context) joining_box items t"
  using timeout_fails [of example_context joining_box] joining_box_overdue by blast

text \<open>Within its time limit a box in Commissioning or Joining only gets the event that it is waiting:
  no status is written, and the controller asks for no further reconciliation, so the limit is
  noticed only when something else triggers one.\<close>

theorem waiting_box_not_requeued:
  assumes "\<not> default_role_applies ctx b"
    and "box_state b = Commissioning \<or> box_state b = Joining"
    and "\<not> is_timed_out b (clock A [])"
  shows "calls_of (reconcile_box X A ctx b) = [update_event b ''Waiting for being changed'']
    \<and> (\<forall>a. result_of (reconcile_box X A ctx b) = Inr a \<longrightarrow> a = AwaitChange)"
proof -
  have "wait_new_box b (clock A []) = Inr (box_state b)"
    "capture_changes b (clock A []) (box_state b) = box_state b"
    using assms(2,3) by (auto simp: wait_new_box_def capture_changes_def)
  then have "wp (reconcile_box X A ctx b) (\<lambda>r l. l = [update_event b ''Waiting for being changed'']
      \<and> (\<forall>a. r = Inr a \<longrightarrow> a = AwaitChange)) []"
    unfolding reconcile_box_unfold [OF assms(1)] using assms(2)
    by (auto simp: eff_simps join_or_advance_def advance_def wait_for_change_def report_update_event
        split: sum.splits)
  then show ?thesis by (simp add: wp_result)
qed

lemma joining_box_on_time:
  "\<not> default_role_applies example_context joining_box \<and> box_state joining_box = Joining
   \<and> \<not> is_timed_out joining_box (clock (example_api [joining_box] (hours 1)) [])"
  by code_simp

theorem waiting_box_not_requeued_witness:
  "calls_of (reconcile_box example_externals (example_api [joining_box] (hours 1))
      example_context joining_box) = [update_event joining_box ''Waiting for being changed'']"
  using waiting_box_not_requeued [of example_context joining_box] joining_box_on_time by blast

section \<open>Outcomes of jobs\<close>

text \<open>A job as \<open>spawn\<close> creates it, with the status the cluster reports later.\<close>

definition spawned_job :: "externals \<Rightarrow> AnsibleClient \<Rightarrow> AnsibleJob \<Rightarrow> JobSpec \<Rightarrow> JobStatus \<Rightarrow> Job" where
  "spawned_job X c j sp st = \<lparr>job_meta = job_metadata X c j, job_spec = Some sp, job_status = Some st\<rparr>"

lemma spawned_job_labels:
  "get_box_name (spawned_job X c j sp st) = Some (box_key X (job_box j))"
  "is_critical (spawned_job X c j sp st) = job_is_critical j"
  "completed_state (spawned_job X c j sp st) = Option.bind (job_new_state j) complete"
  by (auto simp: get_box_name_def get_label_def is_critical_def completed_state_def spawned_job_def
      job_label_box job_label_critical job_label_completed bool_parse_str option.map_comp
      split: Option.bind_splits)

definition outcome_state :: "AnsibleJob \<Rightarrow> JobStatus \<Rightarrow> BoxState option" where
  "outcome_state j st =
     (if job_is_critical j then None
      else if count_positive (succeeded st) then Option.bind (job_new_state j) complete
      else if count_positive (failed st) then Some Failed
      else None)"

text \<open>The outcome of a spawned job reaches the box it was spawned for: a success completes only a
  join (to Running), a failure marks the box Failed, and critical or unfinished jobs change
  nothing.\<close>

theorem job_outcome:
  "calls_of (reconcile_job A ival (spawned_job X c j sp st)) =
     (case outcome_state j st of
        None \<Rightarrow> []
      | Some new \<Rightarrow>
          ApplyBoxState (box_key X (job_box j)) new (clock A [])
          # (if \<exists>e. answer A [] (ApplyBoxState (box_key X (job_box j)) new (clock A [])) = Inl e then []
             else [PublishEvent (box_key X (job_box j))
               \<lparr>event_type = Normal, event_reason = ''ProvisioningUpdated'',
                event_note = Some (''Updated state: '' @ state_str new), event_action = ''Scheduling''\<rparr>]))
   \<and> (\<forall>new. outcome_state j st = Some new \<longrightarrow> new = Failed \<or> new = Running \<and> job_new_state j = Some Joining)"
proof
  show "\<forall>new. outcome_state j st = Some new \<longrightarrow> new = Failed \<or> new = Running \<and> job_new_state j = Some Joining"
    by (auto simp: outcome_state_def complete_iff split: if_splits Option.bind_splits)
  have job: "job_status (spawned_job X c j sp st) = Some st"
    by (simp add: spawned_job_def)
  show "calls_of (reconcile_job A ival (spawned_job X c j sp st)) =
     (case outcome_state j st of
        None \<Rightarrow> []
      | Some new \<Rightarrow>
          ApplyBoxState (box_key X (job_box j)) new (clock A [])
          # (if \<exists>e. answer A [] (ApplyBoxState (box_key X (job_box j)) new (clock A [])) = Inl e then []
             else [PublishEvent (box_key X (job_box j))
               \<lparr>event_type = Normal, event_reason = ''ProvisioningUpdated'',
                event_note = Some (''Updated state: '' @ state_str new), event_action = ''Scheduling''\<rparr>]))"
    unfolding reconcile_job_def spawned_job_labels outcome_state_def job
    by (simp add: calls_of_def update_box_state_def report_update_def tryE_def observe_def call_def ret_def
        split: option.splits sum.splits)
qed

definition join_job :: AnsibleJob where
  "join_job = ansible_job ready_box Joining ''join'' None"

theorem job_outcome_witness:
  "calls_of (reconcile_job (example_api [] 7) 30 (spawned_job example_externals
     (ansible example_context) join_job
     (job_spec_of example_externals (ansible example_context) join_job example_cluster)
     \<lparr>succeeded = Some 1, failed = None\<rparr>)) \<noteq> []
   \<and> outcome_state join_job \<lparr>succeeded = Some 1, failed = None\<rparr> = Some Running"
proof -
  have "outcome_state join_job \<lparr>succeeded = Some 1, failed = None\<rparr> = Some Running"
    by (simp add: outcome_state_def join_job_def ansible_job_def count_positive_def)
  with job_outcome [of "example_api [] 7" 30 example_externals "ansible example_context" join_job
      "job_spec_of example_externals (ansible example_context) join_job example_cluster"
      "\<lparr>succeeded = Some 1, failed = None\<rparr>"]
  show ?thesis by simp
qed

end
