(* ===== verification/Kiss_Backend.thy ===== *)
theory Kiss_Backend
  imports Kiss_Operator
begin

text \<open>
  The two requests of the gateway (\<^verbatim>\<open>crates/openark-kiss-backend/src/routes\<close>): a machine
  that boots registers itself with \<open>new_box\<close> and reports its hardware with
  \<open>commission_box\<close>.  Both answer 200 or 403; \<open>respond\<close> is that translation.
\<close>

datatype HttpStatus = Http_Ok | Http_Forbidden

definition respond :: "error + unit \<Rightarrow> HttpStatus" where
  "respond r = (case r of Inr _ \<Rightarrow> Http_Ok | Inl _ \<Rightarrow> Http_Forbidden)"

section \<open>Registering a box\<close>

text \<open>The status patch of a registration: the query's speed is parsed while the patch is built.\<close>

definition patch_new_status ::
  "kiss_api \<Rightarrow> string \<Rightarrow> BoxAccessInterfaceQuery \<Rightarrow> BoxGroupSpec option \<Rightarrow> unit kiss_eff" where
  "patch_new_status A name q g =
     tryE (lift_result (try_from_interface q)) (\<lambda>i.
     tryE (observe (clock A)) (\<lambda>t.
     call (answer A) (PatchBoxStatus name
       \<lparr>state = New, access = \<lparr>primary = Some i\<rparr>, bind_group = g, last_updated = t\<rparr>)))"

definition new_box :: "externals \<Rightarrow> kiss_api \<Rightarrow> BoxNewQuery \<Rightarrow> unit kiss_eff" where
  "new_box X A q =
     (let name = uuid_str X (machine_uuid (new_machine q)) in
      tryE (call (answer_box A) (GetBox name)) (\<lambda>found.
      case found of
        Some b \<Rightarrow> patch_new_status A name (new_access_primary q) (Option.bind (status b) bind_group)
      | None \<Rightarrow>
          tryE (call (answer A) (CreateBox (meta_default\<lparr>meta_name := Some name\<rparr>)
            \<lparr>group = group_default, machine = new_machine q, power = None\<rparr>)) (\<lambda>_.
          patch_new_status A name (new_access_primary q) None)))"

section \<open>Commissioning a box\<close>

definition commission_box :: "externals \<Rightarrow> kiss_api \<Rightarrow> BoxCommissionQuery \<Rightarrow> unit kiss_eff" where
  "commission_box X A q =
     (let name = uuid_str X (machine_uuid (com_machine q)) in
      tryE (call (answer_box A) (GetBox name)) (\<lambda>found.
      case found of
        Some b \<Rightarrow>
          tryE (lift_result (try_from_access (com_access q))) (\<lambda>acc.
          tryE (observe (clock A)) (\<lambda>t.
          tryE (call (answer A) (PatchBox name
            \<lparr>group = group (spec b), machine = com_machine q, power = com_power q\<rparr>)) (\<lambda>_.
          call (answer A) (PatchBoxStatus name
            \<lparr>state = Ready, access = acc,
             bind_group = (if com_reset q then None else Option.bind (status b) bind_group),
             last_updated = t\<rparr>))))
      | None \<Rightarrow> fail (Anyhow (''no such box: '' @ name))))"

section \<open>Properties\<close>

definition is_write :: "kiss_call \<Rightarrow> bool" where
  "is_write k = (case k of CreateBox _ _ \<Rightarrow> True | PatchBox _ _ \<Rightarrow> True | PatchBoxStatus _ _ \<Rightarrow> True | _ \<Rightarrow> False)"

text \<open>Commissioning is all or nothing as far as the request is concerned: a request for an unknown
  box, or one whose speed does not parse, is refused before anything is written; any other
  request keeps the group of the box, stores the reported machine, power and access, and makes the
  box Ready, forgetting its bound group exactly when the request asks for a reset.\<close>

theorem commission_box_writes:
  assumes "answer_box A [] (GetBox (uuid_str X (machine_uuid (com_machine q)))) = Inr found"
  shows "filter is_write (calls_of (commission_box X A q)) =
    (case (found, try_from_access (com_access q)) of
       (Some b, Inr acc) \<Rightarrow>
         (let n = uuid_str X (machine_uuid (com_machine q));
              t = clock A [GetBox n];
              w = PatchBox n \<lparr>group = group (spec b), machine = com_machine q, power = com_power q\<rparr>
          in w # (if \<exists>e. answer A [GetBox n] w = Inl e then [] else [PatchBoxStatus n
               \<lparr>state = Ready, access = acc,
                bind_group = (if com_reset q then None else box_bind_group b), last_updated = t\<rparr>]))
     | _ \<Rightarrow> [])"
  using assms
  by (auto simp: calls_of_def commission_box_def Let_def tryE_def call_def observe_def fail_def
      lift_result_def is_write_def box_bind_group_def split: option.splits sum.splits)

definition example_query :: "string option \<Rightarrow> BoxAccessInterfaceQuery" where
  "example_query s = \<lparr>query_address = V4 1, query_speed_mbps = s\<rparr>"

definition example_commission :: BoxCommissionQuery where
  "example_commission = \<lparr>com_access = \<lparr>primary = Some (example_query (Some ''1000''))\<rparr>,
     com_machine = \<lparr>machine_uuid = 3\<rparr>, com_power = None, com_reset = True\<rparr>"

definition example_api_with :: "BoxCrd option \<Rightarrow> kiss_api" where
  "example_api_with found = (example_api [] 7)\<lparr>answer_box := (\<lambda>_ _. Inr found)\<rparr>"

theorem commission_box_writes_witness:
  "length (filter is_write (calls_of (commission_box example_externals
     (example_api_with (Some ready_box)) example_commission))) = 2"
proof -
  have speed: "try_from_access (com_access example_commission) =
      Inr \<lparr>primary = Some \<lparr>address = V4 1, speed_mbps = Some 1000\<rparr>\<rparr>"
    by code_simp
  show ?thesis
    by (subst commission_box_writes [where found = "Some ready_box"])
       (simp_all add: speed example_api_with_def example_api_def Let_def)
qed

definition new_status :: "BoxAccessInterfaceSpec \<Rightarrow> BoxGroupSpec option \<Rightarrow> timestamp \<Rightarrow> BoxStatus" where
  "new_status i g t = \<lparr>state = New, access = \<lparr>primary = Some i\<rparr>, bind_group = g, last_updated = t\<rparr>"

text \<open>Registering keeps the group a known box is bound to and restarts it at New; an unknown box is
  created in the default group.  A speed that does not parse is refused with an error, but for an
  unknown box only after the box has been created, without a status.\<close>

theorem new_box_writes:
  assumes "answer_box A [] (GetBox (uuid_str X (machine_uuid (new_machine q)))) = Inr found"
    and "\<And>l k. answer A l k = Inr ()"
  shows "filter is_write (calls_of (new_box X A q)) =
    (let n = uuid_str X (machine_uuid (new_machine q));
         create = CreateBox (meta_default\<lparr>meta_name := Some n\<rparr>)
           \<lparr>group = group_default, machine = new_machine q, power = None\<rparr>
     in case (found, try_from_interface (new_access_primary q)) of
          (Some b, Inl _) \<Rightarrow> []
        | (Some b, Inr i) \<Rightarrow> [PatchBoxStatus n (new_status i (box_bind_group b) (clock A [GetBox n]))]
        | (None, Inl _) \<Rightarrow> [create]
        | (None, Inr i) \<Rightarrow> [create, PatchBoxStatus n (new_status i None (clock A [GetBox n, create]))])
   \<and> respond (result_of (new_box X A q)) =
       (case try_from_interface (new_access_primary q) of Inl _ \<Rightarrow> Http_Forbidden | Inr _ \<Rightarrow> Http_Ok)"
  using assms
  by (auto simp: result_of_def calls_of_def new_box_def patch_new_status_def Let_def tryE_def call_def
      observe_def lift_result_def is_write_def new_status_def respond_def box_bind_group_def
      split: option.splits sum.splits)

definition example_new :: BoxNewQuery where
  "example_new = \<lparr>new_access_primary = example_query (Some ''fast''), new_machine = \<lparr>machine_uuid = 3\<rparr>\<rparr>"

theorem new_box_writes_witness:
  "respond (result_of (new_box example_externals (example_api_with None) example_new)) = Http_Forbidden
   \<and> length (filter is_write (calls_of (new_box example_externals (example_api_with None) example_new))) = 1"
proof -
  have "try_from_interface (new_access_primary example_new) = Inl (Anyhow ''ParseIntError'')"
    by code_simp
  with new_box_writes [of "example_api_with None" example_externals example_new None]
  show ?thesis
    by (simp add: example_api_with_def example_api_def Let_def)
qed

end
