(* ===== verification/Kiss_System.thy ===== *)
theory Kiss_System
  imports Kiss_Backend "HOL-Library.Sublist"
begin

text \<open>
  The KISS components together, around the store of the API server: the box controller, the job
  controller, the gateway, and users who edit or delete boxes.  A step runs one handler on the
  current boxes; any prefix of its calls takes effect, since a handler may fail or be killed after
  each of them.  A controller runs its handler on the stored box, not on an older copy.

  The theorem: at any time each cluster has at most one control plane that is joining.
\<close>

section \<open>The store\<close>

type_synonym box_store = "BoxCrd list"

definition box_name :: "BoxCrd \<Rightarrow> string" where
  "box_name b = name_any (metadata b)"

definition lookup_box :: "box_store \<Rightarrow> string \<Rightarrow> BoxCrd option" where
  "lookup_box S n = List.find (\<lambda>b. box_name b = n) S"

definition update_box :: "string \<Rightarrow> (BoxCrd \<Rightarrow> BoxCrd) \<Rightarrow> box_store \<Rightarrow> box_store" where
  "update_box n f S = map (\<lambda>b. if box_name b = n then f b else b) S"

text \<open>A patch of the state alone leaves the rest of the status, by default empty.\<close>

definition set_state :: "BoxState \<Rightarrow> timestamp \<Rightarrow> BoxCrd \<Rightarrow> BoxCrd" where
  "set_state st t b = b\<lparr>status := Some \<lparr>state = st, access = box_access b,
     bind_group = box_bind_group b, last_updated = t\<rparr>\<rparr>"

definition apply_call :: "kiss_call \<Rightarrow> box_store \<Rightarrow> box_store" where
  "apply_call k S =
     (case k of
        CreateBox m sp \<Rightarrow>
          if lookup_box S (name_any m) = None then S @ [\<lparr>metadata = m, spec = sp, status = None\<rparr>] else S
      | PatchBox n sp \<Rightarrow> update_box n (\<lambda>b. b\<lparr>spec := sp\<rparr>) S
      | PatchBoxStatus n st \<Rightarrow> update_box n (\<lambda>b. b\<lparr>status := Some st\<rparr>) S
      | ApplyBoxState n st t \<Rightarrow> update_box n (set_state st t) S
      | _ \<Rightarrow> S)"

definition apply_calls :: "kiss_call list \<Rightarrow> box_store \<Rightarrow> box_store" where
  "apply_calls ks S = fold apply_call ks S"

text \<open>An API whose lists and lookups show the store.\<close>

definition shows_store :: "kiss_api \<Rightarrow> box_store \<Rightarrow> bool" where
  "shows_store A S \<longleftrightarrow>
     (\<forall>l. answer_boxes A l ListBoxes = Inr S \<or> (\<exists>e. answer_boxes A l ListBoxes = Inl e))
     \<and> (\<forall>l n. answer_box A l (GetBox n) = Inr (lookup_box S n) \<or> (\<exists>e. answer_box A l (GetBox n) = Inl e))"

section \<open>Steps\<close>

inductive system_step :: "externals \<Rightarrow> BoxContext \<Rightarrow> box_store \<Rightarrow> box_store \<Rightarrow> bool"
  for X ctx where
  reconcile_box_step:
    "\<lbrakk>b \<in> set S; shows_store A S; prefix ks (calls_of (reconcile_box X A ctx b))\<rbrakk>
       \<Longrightarrow> system_step X ctx S (apply_calls ks S)"
| reconcile_job_step:
    "prefix ks (calls_of (reconcile_job A ival (spawned_job X (ansible ctx) j sp st)))
       \<Longrightarrow> system_step X ctx S (apply_calls ks S)"
| register_step:
    "\<lbrakk>shows_store A S; prefix ks (calls_of (new_box X A q))\<rbrakk>
       \<Longrightarrow> system_step X ctx S (apply_calls ks S)"
| commission_step:
    "\<lbrakk>shows_store A S; prefix ks (calls_of (commission_box X A r))\<rbrakk>
       \<Longrightarrow> system_step X ctx S (apply_calls ks S)"
| edit_step:
    "\<lbrakk>b \<in> set S; box_state b \<noteq> Joining\<rbrakk>
       \<Longrightarrow> system_step X ctx S (update_box (box_name b) (\<lambda>b. b\<lparr>spec := (spec b)\<lparr>group := g\<rparr>\<rparr>) S)"
| delete_step:
    "system_step X ctx S (filter (\<lambda>b. box_name b \<noteq> n) S)"

inductive reachable :: "externals \<Rightarrow> BoxContext \<Rightarrow> box_store \<Rightarrow> bool"
  for X ctx where
  start: "reachable X ctx []"
| step: "\<lbrakk>reachable X ctx S; system_step X ctx S S'\<rbrakk> \<Longrightarrow> reachable X ctx S'"

section \<open>The invariant\<close>

definition joining_control_plane :: "BoxCrd \<Rightarrow> bool" where
  "joining_control_plane b \<longleftrightarrow> box_state b = Joining \<and> role (group (spec b)) = ControlPlane"

definition named_by_uuid :: "externals \<Rightarrow> BoxCrd \<Rightarrow> bool" where
  "named_by_uuid X b \<longleftrightarrow> box_name b = uuid_str X (machine_uuid (machine (spec b)))"

definition role_settled :: "BoxContext \<Rightarrow> BoxCrd \<Rightarrow> bool" where
  "role_settled ctx b \<longleftrightarrow> (box_state b = Joining \<longrightarrow> \<not> default_role_applies ctx b)"

definition exclusive :: "box_store \<Rightarrow> bool" where
  "exclusive S \<longleftrightarrow> (\<forall>b\<in>set S. \<forall>c\<in>set S.
     joining_control_plane b \<and> joining_control_plane c
     \<and> cluster_name (group (spec b)) = cluster_name (group (spec c)) \<longrightarrow> b = c)"

definition store_inv :: "externals \<Rightarrow> BoxContext \<Rightarrow> box_store \<Rightarrow> bool" where
  "store_inv X ctx S \<longleftrightarrow>
     distinct (map box_name S) \<and> list_all (named_by_uuid X) S \<and> list_all (role_settled ctx) S
     \<and> exclusive S"

text \<open>An update of one box that starts no second join of a control plane.\<close>

definition tame ::
  "externals \<Rightarrow> BoxContext \<Rightarrow> box_store \<Rightarrow> (BoxCrd \<Rightarrow> BoxCrd) \<Rightarrow> BoxCrd \<Rightarrow> bool" where
  "tame X ctx S f b \<longleftrightarrow>
     metadata (f b) = metadata b \<and> named_by_uuid X (f b) \<and> role_settled ctx (f b)
     \<and> (joining_control_plane (f b) \<longrightarrow>
          joining_control_plane b \<and> cluster_name (group (spec (f b))) = cluster_name (group (spec b))
          \<or> (\<forall>c\<in>set S. joining_control_plane c
               \<and> cluster_name (group (spec c)) = cluster_name (group (spec (f b)))
               \<longrightarrow> box_name c = box_name b))"

lemma update_box_names:
  "(\<And>b. b \<in> set S \<Longrightarrow> box_name b = n \<Longrightarrow> metadata (f b) = metadata b) \<Longrightarrow>
     map box_name (update_box n f S) = map box_name S"
  by (auto simp: update_box_def box_name_def)

lemma distinct_box_name:
  "distinct (map box_name S) \<Longrightarrow> b \<in> set S \<Longrightarrow> c \<in> set S \<Longrightarrow> box_name b = box_name c \<Longrightarrow> b = c"
  by (auto simp: distinct_map dest: inj_onD)

lemma exclusive_update_one:
  assumes inv: "distinct (map box_name S)" "exclusive S" and tame: "tame X ctx S f b"
    and b: "b \<in> set S" and c: "c \<in> set S" "box_name c \<noteq> box_name b"
    and j: "joining_control_plane (f b)" "joining_control_plane c"
    and cl: "cluster_name (group (spec (f b))) = cluster_name (group (spec c))"
  shows False
proof -
  from tame j(1) consider
    "joining_control_plane b" "cluster_name (group (spec (f b))) = cluster_name (group (spec b))"
  | "\<forall>c\<in>set S. joining_control_plane c
       \<and> cluster_name (group (spec c)) = cluster_name (group (spec (f b))) \<longrightarrow> box_name c = box_name b"
    by (auto simp: tame_def)
  then show False
  proof cases
    case 1
    with inv(2) b c(1) j(2) cl have "b = c" by (auto simp: exclusive_def)
    with c(2) show False by simp
  next
    case 2
    with c j(2) cl show False by auto
  qed
qed

lemma store_inv_update:
  assumes inv: "store_inv X ctx S"
    and tame: "\<And>b. b \<in> set S \<Longrightarrow> box_name b = n \<Longrightarrow> tame X ctx S f b"
  shows "store_inv X ctx (update_box n f S)"
proof -
  have inv': "distinct (map box_name S)" "exclusive S"
    using inv by (auto simp: store_inv_def)
  have names: "map box_name (update_box n f S) = map box_name S"
    by (rule update_box_names) (use tame in \<open>auto simp: tame_def\<close>)
  have ex: "exclusive (update_box n f S)"
    unfolding exclusive_def
  proof (intro ballI impI, elim conjE)
    fix b c
    assume b: "b \<in> set (update_box n f S)" and c: "c \<in> set (update_box n f S)"
      and j: "joining_control_plane b" "joining_control_plane c"
      and cl: "cluster_name (group (spec b)) = cluster_name (group (spec c))"
    obtain b0 c0 where 0: "b0 \<in> set S" "c0 \<in> set S"
      and b0: "b = (if box_name b0 = n then f b0 else b0)"
      and c0: "c = (if box_name c0 = n then f c0 else c0)"
      using b c by (auto simp: update_box_def)
    consider "box_name b0 = n" "box_name c0 = n" | "box_name b0 = n" "box_name c0 \<noteq> n"
      | "box_name b0 \<noteq> n" "box_name c0 = n" | "box_name b0 \<noteq> n" "box_name c0 \<noteq> n" by blast
    then show "b = c"
    proof cases
      case 1
      then show ?thesis using distinct_box_name [OF inv'(1) 0] b0 c0 by simp
    next
      case 2
      with exclusive_update_one [OF inv' tame [OF 0(1)] 0(1) 0(2)] j cl b0 c0 show ?thesis by simp
    next
      case 3
      with exclusive_update_one [OF inv' tame [OF 0(2)] 0(2) 0(1)] j cl b0 c0 show ?thesis by simp
    next
      case 4
      with inv'(2) 0 j cl b0 c0 show ?thesis by (simp add: exclusive_def)
    qed
  qed
  have "list_all (named_by_uuid X) (update_box n f S) \<and> list_all (role_settled ctx) (update_box n f S)"
    using inv tame by (auto simp: store_inv_def list_all_iff update_box_def tame_def)
  with ex names inv show ?thesis by (simp add: store_inv_def)
qed

section \<open>Handlers keep the invariant\<close>

text \<open>Any property of the store that the calls of a handler keep holds after a prefix of them.\<close>

lemma apply_calls_inv:
  assumes "wp m (\<lambda>_. list_all P) []" and "prefix ks (calls_of m)"
    and "\<And>k S. P k \<Longrightarrow> I S \<Longrightarrow> I (apply_call k S)" and "I S"
  shows "I (apply_calls ks S)"
proof -
  have "list_all P (calls_of m)"
    using assms(1) by (rule wp_calls)
  with assms(2) have "list_all P ks"
    by (auto simp: prefix_def)
  with assms(4) show ?thesis
    unfolding apply_calls_def by (induction ks arbitrary: S) (auto intro: assms(3))
qed

text \<open>Calls that start no join and keep groups and machines.\<close>

definition quiet :: "externals \<Rightarrow> kiss_call \<Rightarrow> bool" where
  "quiet X k =
     (case k of
        CreateBox m sp \<Rightarrow> name_any m = uuid_str X (machine_uuid (machine sp))
      | PatchBox n sp \<Rightarrow> False
      | PatchBoxStatus n st \<Rightarrow> state st \<noteq> Joining
      | ApplyBoxState n st t \<Rightarrow> st \<noteq> Joining
      | _ \<Rightarrow> True)"

lemma not_joining_tame:
  assumes "metadata (f b) = metadata b" "machine (spec (f b)) = machine (spec b)"
    "box_state (f b) \<noteq> Joining" "store_inv X ctx S" "b \<in> set S"
  shows "tame X ctx S f b"
  using assms
  by (auto simp: tame_def named_by_uuid_def box_name_def role_settled_def joining_control_plane_def
      store_inv_def list_all_iff)

lemma quiet_inv:
  assumes "quiet X k" and "store_inv X ctx S"
  shows "store_inv X ctx (apply_call k S)"
proof (cases k)
  case (CreateBox m sp)
  with assms show ?thesis
    by (auto simp: apply_call_def quiet_def store_inv_def lookup_box_def named_by_uuid_def box_name_def
        role_settled_def box_state_def exclusive_def joining_control_plane_def list_all_iff find_None_iff)
next
  case (PatchBoxStatus n st)
  with assms show ?thesis
    by (auto simp: apply_call_def quiet_def box_state_def intro!: store_inv_update not_joining_tame)
next
  case (ApplyBoxState n st t)
  with assms show ?thesis
    by (auto simp: apply_call_def quiet_def set_state_def box_state_def
        intro!: store_inv_update not_joining_tame)
qed (use assms in \<open>auto simp: apply_call_def quiet_def\<close>)

lemma reconcile_job_quiet:
  "wp (reconcile_job A ival (spawned_job X c j sp st)) (\<lambda>_. list_all (quiet X)) []"
  unfolding reconcile_job_def spawned_job_labels update_box_state_def report_update_def
  by (auto simp: eff_simps quiet_def complete_iff split: option.splits sum.splits Option.bind_splits)

lemma new_box_quiet: "wp (new_box X A q) (\<lambda>_. list_all (quiet X)) []"
  unfolding new_box_def patch_new_status_def Let_def
  by (auto simp: eff_simps quiet_def name_any_def meta_default_def split: option.splits sum.splits)

text \<open>Commissioning also replaces the machine and power of the box, and keeps its group.\<close>

definition group_is :: "string \<Rightarrow> BoxGroupSpec \<Rightarrow> box_store \<Rightarrow> bool" where
  "group_is n g S \<longleftrightarrow> (\<forall>b\<in>set S. box_name b = n \<longrightarrow> group (spec b) = g)"

definition commission_call :: "externals \<Rightarrow> string \<Rightarrow> BoxGroupSpec \<Rightarrow> kiss_call \<Rightarrow> bool" where
  "commission_call X n g k =
     (case k of
        PatchBox m sp \<Rightarrow> m = n \<and> group sp = g \<and> uuid_str X (machine_uuid (machine sp)) = n
      | CreateBox m sp \<Rightarrow> False
      | _ \<Rightarrow> quiet X k)"

lemma commission_call_inv:
  assumes "commission_call X n g k" and "store_inv X ctx S \<and> group_is n g S"
  shows "store_inv X ctx (apply_call k S) \<and> group_is n g (apply_call k S)"
proof (cases k)
  case (PatchBox m sp)
  have "tame X ctx S (\<lambda>b. b\<lparr>spec := sp\<rparr>) b" if "b \<in> set S" "box_name b = n" for b
    using assms that PatchBox
    by (auto simp: tame_def commission_call_def group_is_def named_by_uuid_def box_name_def
        role_settled_def joining_control_plane_def box_state_def default_role_applies_def
        store_inv_def list_all_iff)
  with assms PatchBox show ?thesis
    by (auto simp: commission_call_def apply_call_def group_is_def update_box_def box_name_def
        intro!: store_inv_update [unfolded update_box_def box_name_def])
next
  case (PatchBoxStatus m st)
  with assms show ?thesis
    using quiet_inv [of X k ctx S]
    by (auto simp: commission_call_def apply_call_def group_is_def update_box_def box_name_def)
next
  case (ApplyBoxState m st t)
  with assms show ?thesis
    using quiet_inv [of X k ctx S]
    by (auto simp: commission_call_def apply_call_def group_is_def update_box_def box_name_def set_state_def)
qed (use assms in \<open>auto simp: commission_call_def apply_call_def\<close>)

lemma commission_box_calls:
  assumes "shows_store A S" and "store_inv X ctx S"
  shows "\<exists>g. group_is (uuid_str X (machine_uuid (com_machine q))) g S
     \<and> wp (commission_box X A q) (\<lambda>_. list_all (commission_call X (uuid_str X (machine_uuid (com_machine q))) g)) []"
proof -
  define n where "n = uuid_str X (machine_uuid (com_machine q))"
  define g where "g = (case lookup_box S n of None \<Rightarrow> group_default | Some b \<Rightarrow> group (spec b))"
  have "group_is n g S"
  proof (cases "lookup_box S n")
    case None
    then show ?thesis by (auto simp: group_is_def lookup_box_def find_None_iff)
  next
    case (Some b)
    then have b: "b \<in> set S" "box_name b = n"
      by (auto simp: lookup_box_def dest: find_Some_D)
    with assms(2) have "c = b" if "c \<in> set S" "box_name c = n" for c
      using that distinct_box_name [of S c b] by (simp add: store_inv_def)
    with Some show ?thesis by (auto simp: group_is_def g_def)
  qed
  moreover have "answer_box A [] (GetBox n) = Inr (lookup_box S n) \<or> (\<exists>e. answer_box A [] (GetBox n) = Inl e)"
    using assms(1) by (simp add: shows_store_def)
  then have "wp (commission_box X A q) (\<lambda>_. list_all (commission_call X n g)) []"
    unfolding commission_box_def Let_def
    by (auto simp: eff_simps commission_call_def quiet_def n_def [symmetric] g_def split: option.splits sum.splits)
  ultimately show ?thesis unfolding n_def by blast
qed

text \<open>The default role is only given to boxes that are not joining.\<close>

definition unjoined :: "string \<Rightarrow> BoxMachineSpec \<Rightarrow> box_store \<Rightarrow> bool" where
  "unjoined n m S \<longleftrightarrow>
     (\<forall>c\<in>set S. box_name c = n \<longrightarrow> box_state c \<noteq> Joining \<and> machine (spec c) = m)"

definition default_role_call :: "BoxCrd \<Rightarrow> kiss_call \<Rightarrow> bool" where
  "default_role_call b k =
     (case k of
        PatchBox n sp \<Rightarrow> n = box_name b \<and> machine sp = machine (spec b)
      | PublishEvent _ _ \<Rightarrow> True
      | _ \<Rightarrow> False)"

lemma default_role_call_inv:
  assumes "default_role_call b k"
    and "store_inv X ctx S \<and> unjoined (box_name b) (machine (spec b)) S"
  shows "store_inv X ctx (apply_call k S) \<and> unjoined (box_name b) (machine (spec b)) (apply_call k S)"
proof (cases k)
  case (PatchBox n sp)
  have "tame X ctx S (\<lambda>c. c\<lparr>spec := sp\<rparr>) c" if "c \<in> set S" "box_name c = n" for c
    by (rule not_joining_tame)
       (use assms that PatchBox in \<open>auto simp: default_role_call_def unjoined_def box_state_def\<close>)
  with assms PatchBox show ?thesis
    by (auto simp: default_role_call_def apply_call_def unjoined_def update_box_def box_name_def box_state_def
        intro!: store_inv_update [unfolded update_box_def box_name_def])
qed (use assms in \<open>auto simp: default_role_call_def apply_call_def\<close>)

lemma reconcile_default_role_calls:
  assumes "default_role_applies ctx b"
  shows "wp (reconcile_box X A ctx b) (\<lambda>_. list_all (default_role_call b)) []"
proof -
  have "reconcile_box X A ctx b = tryE (observe (clock A)) (\<lambda>now. apply_default_role A ctx b)"
    using assms by (auto simp: reconcile_box_def default_role_applies_def)
  then show ?thesis
    by (auto simp: apply_default_role_def report_update_def eff_simps Let_def default_role_call_def
        box_name_def split: sum.splits)
qed

text \<open>Otherwise the controller only writes the status of the box.  \<open>sole\<close>: no other control
  plane of the cluster is joining.\<close>

definition sole :: "BoxCrd \<Rightarrow> box_store \<Rightarrow> bool" where
  "sole b S \<longleftrightarrow> (\<forall>c\<in>set S. joining_control_plane c
     \<and> cluster_name (group (spec c)) = cluster_name (group (spec b)) \<longrightarrow> box_name c = box_name b)"

definition spec_is :: "BoxCrd \<Rightarrow> box_store \<Rightarrow> bool" where
  "spec_is b S \<longleftrightarrow> (\<forall>c\<in>set S. box_name c = box_name b \<longrightarrow> spec c = spec b)"

definition status_call :: "bool \<Rightarrow> BoxCrd \<Rightarrow> kiss_call \<Rightarrow> bool" where
  "status_call J b k =
     (case k of
        PatchBoxStatus n st \<Rightarrow> n = box_name b \<and> (state st = Joining \<and> role (group (spec b)) = ControlPlane \<longrightarrow> J)
      | PatchBox _ _ \<Rightarrow> False
      | CreateBox _ _ \<Rightarrow> False
      | ApplyBoxState _ _ _ \<Rightarrow> False
      | _ \<Rightarrow> True)"

lemma status_call_inv:
  assumes b: "\<not> default_role_applies ctx b" and k: "status_call J b k"
    and inv: "store_inv X ctx S \<and> spec_is b S \<and> (J \<longrightarrow> sole b S)"
  shows "store_inv X ctx (apply_call k S) \<and> spec_is b (apply_call k S) \<and> (J \<longrightarrow> sole b (apply_call k S))"
proof (cases k)
  case (PatchBoxStatus n st)
  have n: "n = box_name b"
    and j: "state st = Joining \<and> role (group (spec b)) = ControlPlane \<longrightarrow> J"
    using k PatchBoxStatus by (auto simp: status_call_def)
  have "tame X ctx S (\<lambda>c. c\<lparr>status := Some st\<rparr>) c" if c: "c \<in> set S" "box_name c = n" for c
  proof -
    have sp: "spec c = spec b" and named: "named_by_uuid X c"
      using inv c n by (auto simp: spec_is_def store_inv_def list_all_iff)
    have "named_by_uuid X (c\<lparr>status := Some st\<rparr>)"
      using named by (simp add: named_by_uuid_def box_name_def)
    moreover have "role_settled ctx (c\<lparr>status := Some st\<rparr>)"
      using b sp by (simp add: role_settled_def default_role_applies_def)
    moreover have "sole b S" if "joining_control_plane (c\<lparr>status := Some st\<rparr>)"
      using that j inv sp by (simp add: joining_control_plane_def box_state_def)
    ultimately show ?thesis
      unfolding tame_def using sp c n by (simp add: sole_def)
  qed
  then have "store_inv X ctx (apply_call k S)"
    using inv by (auto simp: PatchBoxStatus apply_call_def intro!: store_inv_update)
  moreover have "spec_is b (apply_call k S)"
    using inv by (auto simp: PatchBoxStatus apply_call_def spec_is_def update_box_def box_name_def)
  moreover have "J \<longrightarrow> sole b (apply_call k S)"
  proof
    assume J
    with inv have "sole b S" by simp
    moreover have "n = box_name b"
      using k PatchBoxStatus by (simp add: status_call_def)
    ultimately show "sole b (apply_call k S)"
      unfolding PatchBoxStatus apply_call_def sole_def update_box_def
      by (auto simp: box_name_def)
  qed
  ultimately show ?thesis by simp
qed (use inv k in \<open>auto simp: status_call_def apply_call_def\<close>)

lemma is_spawn_call_status: "is_spawn_call k \<Longrightarrow> status_call J b k"
  by (auto simp: status_call_def is_spawn_call_def split: kiss_call.splits)

text \<open>The calls of a reconciliation without a default role, of whatever state.\<close>

lemma emits_reconcile_status_call:
  assumes "\<not> default_role_applies ctx b"
  shows "emits (status_call True b) (reconcile_box X A ctx b)"
proof -
  have commit: "emits (status_call True b) (commit_state A ctx b new)" for new
    unfolding commit_state_def wait_for_change_def report_update_event
    by (intro emits_intros) (auto simp: status_call_def update_event_def box_name_def)
  have adv: "emits (status_call True b) (advance X A ctx b new ng)" for new ng
    unfolding advance_def wait_for_change_def report_update_event
    by (intro emits_intros commit emits_weaken [OF emits_spawn])
       (auto simp: status_call_def update_event_def intro: is_spawn_call_status [unfolded status_call_def])
  have skip: "emits (status_call True b) skip" if "skip_joining A ctx b = Some skip" for skip
    using that
    by (auto simp: skip_joining_def Let_def report_update_def status_call_def box_name_def
        split: if_splits intro!: emits_intros)
  show ?thesis
    unfolding reconcile_box_unfold [OF assms] join_or_advance_def
    by (intro emits_intros adv skip)
qed

lemma status_call_weaken: "status_call True b k \<Longrightarrow> (writes_joining k \<Longrightarrow> J) \<Longrightarrow> status_call J b k"
  by (cases k) (auto simp: status_call_def)

lemma reconcile_status_calls:
  assumes "\<not> default_role_applies ctx b"
  shows "list_all (status_call (\<exists>k\<in>set (calls_of (reconcile_box X A ctx b)). writes_joining k) b)
    (calls_of (reconcile_box X A ctx b))"
  unfolding list_all_iff
proof
  fix k
  assume k: "k \<in> set (calls_of (reconcile_box X A ctx b))"
  show "status_call (\<exists>k\<in>set (calls_of (reconcile_box X A ctx b)). writes_joining k) b k"
    by (rule status_call_weaken [OF emits_calls_of [OF emits_reconcile_status_call [OF assms] k]])
       (rule bexI [OF _ k])
qed

text \<open>A cluster that admits a control plane has no other joining control plane.\<close>

lemma admitted_sole:
  assumes adm: "admitted X A cfg b l" and S: "shows_store A S" and b: "b \<in> set S"
    and cp: "role (group (spec b)) = ControlPlane"
  shows "sole b S"
proof -
  obtain l0 items where "answer_boxes A l0 ListBoxes = Inr items"
    and join: "is_joinable (cluster_view X cfg (spec b) items)"
    using adm by (auto simp: admitted_def)
  with S have items: "items = S"
    unfolding shows_store_def by (metis Inr_Inl_False sum.inject(2))
  let ?g = "control_planes_of X (cluster_name (group (spec b))) S"
  have "from_box X b \<in> fst ` set ?g"
    using control_planes_of_complete [OF b refl cp] .
  then have "contains_uuid ?g (machine_uuid (machine (spec b)))"
    by (force simp: contains_uuid_def list_ex_iff from_box_def)
  with join items have ready: "\<forall>(n, _)\<in>set ?g. is_ready n"
    by (simp add: is_joinable_def is_node_control_plane_def cluster_view_def is_control_plane_ready_def
        all_ready_iff)
  have "\<not> joining_control_plane c"
    if "c \<in> set S" "cluster_name (group (spec c)) = cluster_name (group (spec b))" for c
  proof
    assume j: "joining_control_plane c"
    then have "from_box X c \<in> fst ` set ?g"
      using control_planes_of_complete [OF that] by (simp add: joining_control_plane_def)
    with ready have "is_ready (from_box X c)" by force
    with j show False
      by (auto simp: from_box_def joining_control_plane_def box_state_def split: option.splits)
  qed
  then show ?thesis by (auto simp: sole_def)
qed

lemma reconcile_box_step_inv:
  assumes b: "b \<in> set S" and A: "shows_store A S"
    and ks: "prefix ks (calls_of (reconcile_box X A ctx b))" and inv: "store_inv X ctx S"
  shows "store_inv X ctx (apply_calls ks S)"
proof (cases "default_role_applies ctx b")
  case True
  have "unjoined (box_name b) (machine (spec b)) S"
    using inv b True distinct_box_name [of S _ b]
    by (auto simp: unjoined_def store_inv_def list_all_iff role_settled_def)
  with inv apply_calls_inv [where I = "\<lambda>S. store_inv X ctx S \<and> unjoined (box_name b) (machine (spec b)) S",
      OF reconcile_default_role_calls [OF True] ks default_role_call_inv]
  show ?thesis by blast
next
  case False
  let ?J = "\<exists>k\<in>set (calls_of (reconcile_box X A ctx b)). writes_joining k"
  let ?K = "?J \<and> role (group (spec b)) = ControlPlane"
  have adm: "?J \<longrightarrow> admitted X A (kiss (ansible ctx)) b (calls_of (reconcile_box X A ctx b))"
    using wp_calls [OF reconcile_box_admitted [of X A ctx b]] by (simp add: joins_admitted_def)
  then have sole: "?K \<longrightarrow> sole b S"
    using admitted_sole [OF _ A b] by blast
  have "status_call ?K b k" if "status_call ?J b k" for k
    using that by (cases k) (simp_all add: status_call_def)
  then have calls: "wp (reconcile_box X A ctx b) (\<lambda>_. list_all (status_call ?K b)) []"
    using reconcile_status_calls [OF False, of X A] by (simp add: wp_result list_all_iff)
  have "spec_is b S"
    using inv b distinct_box_name [of S _ b] by (auto simp: spec_is_def store_inv_def)
  with inv sole apply_calls_inv [where I = "\<lambda>S. store_inv X ctx S \<and> spec_is b S \<and> (?K \<longrightarrow> sole b S)",
      OF calls ks status_call_inv [OF False]]
  show ?thesis by blast
qed

lemma store_inv_delete: "store_inv X ctx S \<Longrightarrow> store_inv X ctx (filter P S)"
  by (auto simp: store_inv_def list_all_iff exclusive_def distinct_map_filter)

lemma edit_step_inv:
  assumes inv: "store_inv X ctx S" and b: "b \<in> set S" "box_state b \<noteq> Joining"
  shows "store_inv X ctx (update_box (box_name b) (\<lambda>b. b\<lparr>spec := (spec b)\<lparr>group := g\<rparr>\<rparr>) S)"
proof (rule store_inv_update [OF inv])
  fix c
  assume c: "c \<in> set S" "box_name c = box_name b"
  with inv b have "c = b"
    using distinct_box_name [of S c b] by (simp add: store_inv_def)
  with b(2) show "tame X ctx S (\<lambda>b. b\<lparr>spec := (spec b)\<lparr>group := g\<rparr>\<rparr>) c"
    by (intro not_joining_tame [OF _ _ _ inv c(1)]) (simp_all add: box_state_def)
qed

lemma system_step_inv: "system_step X ctx S S' \<Longrightarrow> store_inv X ctx S \<Longrightarrow> store_inv X ctx S'"
proof (induction rule: system_step.induct)
  case (reconcile_box_step b S A ks)
  then show ?case by (rule reconcile_box_step_inv)
next
  case (reconcile_job_step ks A ival j sp st S)
  from reconcile_job_quiet this(1) quiet_inv this(2) show ?case by (rule apply_calls_inv)
next
  case (register_step A S ks q)
  from new_box_quiet this(2) quiet_inv this(3) show ?case by (rule apply_calls_inv)
next
  case (commission_step A S ks r)
  then obtain g where "group_is (uuid_str X (machine_uuid (com_machine r))) g S"
    "wp (commission_box X A r) (\<lambda>_. list_all (commission_call X (uuid_str X (machine_uuid (com_machine r))) g)) []"
    using commission_box_calls by blast
  with apply_calls_inv [where I = "\<lambda>S. store_inv X ctx S \<and> group_is (uuid_str X (machine_uuid (com_machine r))) g S",
      OF this(2) commission_step(2) commission_call_inv] commission_step(3)
  show ?case by blast
qed (auto intro: edit_step_inv store_inv_delete)

lemma reachable_inv: "reachable X ctx S \<Longrightarrow> store_inv X ctx S"
proof (induction rule: reachable.induct)
  case start
  show ?case by (simp add: store_inv_def exclusive_def)
qed (rule system_step_inv)

section \<open>Properties\<close>

text \<open>C1.
  However registrations, commissionings, reconciliations, job outcomes, edits of boxes that are not
  joining, deletions and crashes follow each other, no cluster ever has two control planes joining
  at the same time.\<close>

theorem one_joining_control_plane:
  assumes "reachable X ctx S" and "b \<in> set S" and "c \<in> set S"
    and "box_state b = Joining" and "role (group (spec b)) = ControlPlane"
    and "box_state c = Joining" and "role (group (spec c)) = ControlPlane"
    and "cluster_name (group (spec b)) = cluster_name (group (spec c))"
  shows "box_name b = box_name c"
  using reachable_inv [OF assms(1)] assms(2-)
  by (auto simp: store_inv_def exclusive_def joining_control_plane_def)

section \<open>An example run\<close>

text \<open>A machine registers, a user makes it a control plane of \<open>edge\<close>, it is commissioned, and
  the controller joins it.\<close>

definition run_api :: "box_store \<Rightarrow> kiss_api" where
  "run_api S = \<lparr>answer = (\<lambda>_ _. Inr ()), answer_boxes = (\<lambda>_ _. Inr S),
     answer_box = (\<lambda>_ k. case k of GetBox n \<Rightarrow> Inr (lookup_box S n) | _ \<Rightarrow> Inr None),
     answer_config = (\<lambda>_ _. Inr None), clock = (\<lambda>_. 0)\<rparr>"

lemma run_api_shows: "shows_store (run_api S) S"
  by (simp add: shows_store_def run_api_def)

definition run1 :: box_store where
  "run1 = apply_calls (calls_of (new_box example_externals (run_api [])
     \<lparr>new_access_primary = example_query None, new_machine = \<lparr>machine_uuid = 3\<rparr>\<rparr>)) []"

definition run2 :: box_store where
  "run2 = update_box ''3'' (\<lambda>b. b\<lparr>spec := (spec b)\<lparr>group := edge ControlPlane\<rparr>\<rparr>) run1"

definition run3 :: box_store where
  "run3 = apply_calls (calls_of (commission_box example_externals (run_api run2) example_commission)) run2"

definition run4 :: box_store where
  "run4 = apply_calls (calls_of (reconcile_box example_externals (run_api run3) example_context (hd run3))) run3"

lemma run1_box: "map box_name run1 = [''3''] \<and> map box_state run1 = [New]"
  by code_simp

lemma run3_ne: "run3 \<noteq> []"
  by code_simp

lemma run4_box:
  "map box_name run4 = [''3''] \<and> map box_state run4 = [Joining]
   \<and> map (\<lambda>b. group (spec b)) run4 = [edge ControlPlane]"
  by code_simp

lemma run4_reachable: "reachable example_externals example_context run4"
proof -
  have r1: "reachable example_externals example_context run1"
    unfolding run1_def
    by (rule reachable.step [OF reachable.start register_step [OF run_api_shows prefix_order.refl]])
  obtain b where b1: "run1 = [b]"
    using run1_box by (auto simp: map_eq_Cons_conv)
  have name: "box_name b = ''3''" and "box_state b = New"
    using run1_box unfolding b1 by simp_all
  then have "b \<in> set run1" "box_state b \<noteq> Joining"
    unfolding b1 by simp_all
  then have "reachable example_externals example_context run2"
    unfolding run2_def name [symmetric] by (rule reachable.step [OF r1 edit_step])
  then have "reachable example_externals example_context run3"
    unfolding run3_def
    by (rule reachable.step [OF _ commission_step [OF run_api_shows prefix_order.refl]])
  then show ?thesis
    unfolding run4_def
    by (rule reachable.step [OF _ reconcile_box_step [OF _ run_api_shows prefix_order.refl]])
       (simp add: run3_ne)
qed

theorem one_joining_control_plane_witness:
  "box_state (hd run4) = Joining \<and> box_name (hd run4) = box_name (last run4)"
proof -
  obtain b where "run4 = [b]"
    using run4_box by (auto simp: map_eq_Cons_conv)
  then have b: "run4 = [b]" "box_state b = Joining" "group (spec b) = edge ControlPlane"
    using run4_box unfolding \<open>run4 = [b]\<close> by simp_all
  have "box_name (hd run4) = box_name (last run4)"
    by (rule one_joining_control_plane [OF run4_reachable]) (simp_all add: b edge_def)
  with b(2) show ?thesis
    unfolding b(1) by simp
qed

end
