(* ===== verification/Kiss_Dns.thy ===== *)
theory Kiss_Dns
  imports Kiss_Box
begin

text \<open>
  The DNS server of the boxes (\<^verbatim>\<open>crates/openark-kiss-dns/src/reloader.rs\<close>): watch
  events keep a catalog that maps the domain name of a box, under each origin, to its address.
  Domain names are those of the \<^verbatim>\<open>hickory\<close> library, a parameter.  The updates of one
  event are futures that are polled in any order (\<^verbatim>\<open>FuturesUnordered\<close>): the order is
  an argument of the handlers, any list with the origins as its elements.
\<close>

section \<open>The library of domain names\<close>

record 'n dns_lib =
  name_parse :: "string \<Rightarrow> string + 'n"
  append_domain :: "'n \<Rightarrow> 'n \<Rightarrow> string + 'n"
  to_lower :: "'n \<Rightarrow> 'n"

datatype RData = A u32 | AAAA "128 word"

record 'n DnsRecord =
  record_name :: 'n
  record_ttl :: nat
  record_data :: RData

record 'n Authority =
  authority_origin :: 'n
  authority_records :: "'n DnsRecord list"

type_synonym 'n Catalog = "'n \<rightharpoonup> 'n Authority"

section \<open>The reloader\<close>

record 'n ReloaderContext =
  origins :: "'n list"

primrec parse_all :: "'n dns_lib \<Rightarrow> string list \<Rightarrow> string + 'n list" where
  "parse_all L [] = Inr []"
| "parse_all L (s # ss) =
     (case name_parse L s of
        Inl e \<Rightarrow> Inl e
      | Inr n \<Rightarrow> (case parse_all L ss of Inl e \<Rightarrow> Inl e | Inr ns \<Rightarrow> Inr (n # ns)))"

definition reloader_try_new :: "'n dns_lib \<Rightarrow> string \<Rightarrow> string + 'n ReloaderContext" where
  "reloader_try_new L domain =
     (case parse_all L [''.'', ''box'', ''node'', domain, ''box.'' @ domain, ''node.'' @ domain] of
        Inl e \<Rightarrow> Inl e
      | Inr ns \<Rightarrow> Inr \<lparr>origins = ns\<rparr>)"

datatype box_event =
  Apply BoxCrd
| InitApply BoxCrd
| Delete BoxCrd
| Init
| InitDone

definition handle_error :: "string \<Rightarrow> error" where
  "handle_error e = KubeError e"

definition domain_of :: "'n dns_lib \<Rightarrow> string \<Rightarrow> 'n \<Rightarrow> error + 'n" where
  "domain_of L name origin =
     (case name_parse L name of
        Inl e \<Rightarrow> Inl (handle_error e)
      | Inr n \<Rightarrow> (case append_domain L n origin of
                     Inl e \<Rightarrow> Inl (handle_error e)
                   | Inr d \<Rightarrow> Inr d))"

definition rdata_of :: "IpAddr \<Rightarrow> RData" where
  "rdata_of a = (case a of V4 w \<Rightarrow> A w | V6 w \<Rightarrow> AAAA w)"

definition authority_of :: "'n \<Rightarrow> 'n \<Rightarrow> IpAddr \<Rightarrow> 'n Authority" where
  "authority_of origin name addr = \<lparr>authority_origin = origin,
     authority_records = [\<lparr>record_name = name, record_ttl = 300, record_data = rdata_of addr\<rparr>]\<rparr>"

text \<open>\<^verbatim>\<open>try_collect\<close>: one update after the other, until one fails.\<close>

primrec try_each :: "('o \<Rightarrow> 's \<Rightarrow> (error + unit) \<times> 's) \<Rightarrow> 'o list \<Rightarrow> 's \<Rightarrow> (error + unit) \<times> 's" where
  "try_each f [] s = (Inr (), s)"
| "try_each f (x # xs) s =
     (case f x s of (Inl e, s') \<Rightarrow> (Inl e, s') | (Inr _, s') \<Rightarrow> try_each f xs s')"

definition handle_delete ::
  "'n dns_lib \<Rightarrow> 'n list \<Rightarrow> BoxCrd \<Rightarrow> 'n Catalog \<Rightarrow> (error + unit) \<times> 'n Catalog" where
  "handle_delete L order object cat =
     try_each (\<lambda>origin c.
       case domain_of L (name_any (metadata object)) origin of
         Inl e \<Rightarrow> (Inl e, c)
       | Inr name \<Rightarrow> (Inr (), c(to_lower L name := None))) order cat"

definition object_address :: "BoxCrd \<Rightarrow> IpAddr option" where
  "object_address b = map_option address (Option.bind (status b) (\<lambda>s. primary (access s)))"

definition handle_apply ::
  "'n dns_lib \<Rightarrow> 'n list \<Rightarrow> BoxCrd \<Rightarrow> 'n Catalog \<Rightarrow> (error + unit) \<times> 'n Catalog" where
  "handle_apply L order object cat =
     (case object_address object of
        None \<Rightarrow> handle_delete L order object cat
      | Some addr \<Rightarrow>
          try_each (\<lambda>origin c.
            case domain_of L (name_any (metadata object)) origin of
              Inl e \<Rightarrow> (Inl e, c)
            | Inr name \<Rightarrow> (Inr (), c(to_lower L name \<mapsto> authority_of origin name addr))) order cat)"

definition handle_event ::
  "'n dns_lib \<Rightarrow> 'n list \<Rightarrow> box_event \<Rightarrow> 'n Catalog \<Rightarrow> (error + unit) \<times> 'n Catalog" where
  "handle_event L order event cat =
     (case event of
        Apply object \<Rightarrow> handle_apply L order object cat
      | InitApply object \<Rightarrow> handle_apply L order object cat
      | Delete object \<Rightarrow> handle_delete L order object cat
      | Init \<Rightarrow> (Inr (), cat)
      | InitDone \<Rightarrow> (Inr (), cat))"

text \<open>The watch loop: a failed event restarts the watch, and the catalog stays.\<close>

primrec watch :: "'n dns_lib \<Rightarrow> ('n list \<times> box_event) list \<Rightarrow> 'n Catalog \<Rightarrow> 'n Catalog" where
  "watch L [] cat = cat"
| "watch L (e # es) cat = watch L es (snd (handle_event L (fst e) (snd e) cat))"

section \<open>The addresses a catalog answers\<close>

definition answers :: "'n dns_lib \<Rightarrow> 'n Catalog \<Rightarrow> 'n \<Rightarrow> RData list" where
  "answers L cat d =
     (case cat (to_lower L d) of None \<Rightarrow> [] | Some a \<Rightarrow> map record_data (authority_records a))"

text \<open>What the server promises: the address given by the last event of a box.\<close>

primrec dns_view :: "('n list \<times> box_event) list \<Rightarrow> (string \<rightharpoonup> IpAddr) \<Rightarrow> (string \<rightharpoonup> IpAddr)" where
  "dns_view [] v = v"
| "dns_view (e # es) v = dns_view es
     (case snd e of
        Apply b \<Rightarrow> v(name_any (metadata b) := object_address b)
      | InitApply b \<Rightarrow> v(name_any (metadata b) := object_address b)
      | Delete b \<Rightarrow> v(name_any (metadata b) := None)
      | _ \<Rightarrow> v)"

definition event_box :: "box_event \<Rightarrow> string option" where
  "event_box e =
     (case e of
        Apply b \<Rightarrow> Some (name_any (metadata b))
      | InitApply b \<Rightarrow> Some (name_any (metadata b))
      | Delete b \<Rightarrow> Some (name_any (metadata b))
      | _ \<Rightarrow> None)"

text \<open>The names of the boxes are valid domain names, and those of different boxes differ.\<close>

definition good_names :: "'n dns_lib \<Rightarrow> 'n list \<Rightarrow> string set \<Rightarrow> bool" where
  "good_names L os N \<longleftrightarrow>
     (\<forall>x\<in>N. \<forall>org\<in>set os. \<exists>d. domain_of L x org = Inr d)
     \<and> (\<forall>x\<in>N. \<forall>y\<in>N. \<forall>org\<in>set os. \<forall>org'\<in>set os. \<forall>d d'.
          domain_of L x org = Inr d \<longrightarrow> domain_of L y org' = Inr d' \<longrightarrow> to_lower L d = to_lower L d' \<longrightarrow> x = y)"

definition shows_view :: "'n dns_lib \<Rightarrow> 'n list \<Rightarrow> string set \<Rightarrow> (string \<rightharpoonup> IpAddr) \<Rightarrow> 'n Catalog \<Rightarrow> bool" where
  "shows_view L os N v cat \<longleftrightarrow>
     (\<forall>x\<in>N. \<forall>org\<in>set os. \<forall>d. domain_of L x org = Inr d \<longrightarrow>
        answers L cat d = (case v x of None \<Rightarrow> [] | Some a \<Rightarrow> [rdata_of a]))"

text \<open>One event, for any function that sets the entries of a box.\<close>

lemma try_each_update:
  assumes "\<forall>org\<in>set os. \<exists>d. full org = Inr d"
  shows "try_each (\<lambda>org c. case full org of Inl e \<Rightarrow> (Inl e, c) | Inr d \<Rightarrow> (Inr (), c(low d := f org d))) os cat =
     (Inr (), fold (\<lambda>org c. c(low (projr (full org)) := f org (projr (full org)))) os cat)"
  using assms by (induction os arbitrary: cat) auto

lemma fold_update_other:
  "k \<notin> (\<lambda>org. low (projr (full org))) ` set os \<Longrightarrow>
     fold (\<lambda>org c. c(low (projr (full org)) := f org (projr (full org)))) os cat k = cat k"
  by (induction os arbitrary: cat) auto

lemma fold_update_in:
  assumes "k \<in> (\<lambda>org. low (projr (full org))) ` set os"
  shows "\<exists>org\<in>set os. fold (\<lambda>org c. c(low (projr (full org)) := f org (projr (full org)))) os cat k
     = f org (projr (full org))"
  using assms
proof (induction os arbitrary: cat)
  case (Cons x xs)
  show ?case
  proof (cases "k \<in> (\<lambda>org. low (projr (full org))) ` set xs")
    case True
    then show ?thesis using Cons.IH by simp
  next
    case False
    with Cons.prems have "k = low (projr (full x))" by auto
    with fold_update_other [OF False, of f "cat(low (projr (full x)) := f x (projr (full x)))"]
    have "fold (\<lambda>org c. c(low (projr (full org)) := f org (projr (full org)))) (x # xs) cat k
        = f x (projr (full x))"
      using \<open>k = low (projr (full x))\<close> by (simp only: fold.simps comp_apply fun_upd_same)
    then show ?thesis by (rule bexI) simp
  qed
qed simp

lemma shows_view_update:
  assumes good: "good_names L os N" and x: "x \<in> N" and set: "set order = set os"
    and view: "shows_view L os N v cat"
    and f: "\<And>org d. (case f org d of None \<Rightarrow> [] | Some a \<Rightarrow> map record_data (authority_records a))
                = (case r of None \<Rightarrow> [] | Some a \<Rightarrow> [rdata_of a])"
  shows "shows_view L os N (v(x := r))
    (fold (\<lambda>org c. c(to_lower L (projr (domain_of L x org)) := f org (projr (domain_of L x org)))) order cat)"
    (is "shows_view L os N _ ?cat")
  unfolding shows_view_def
proof (intro ballI allI impI)
  fix y org d
  assume y: "y \<in> N" and org: "org \<in> set os" and d: "domain_of L y org = Inr d"
  let ?keys = "(\<lambda>org. to_lower L (projr (domain_of L x org))) ` set order"
  show "answers L ?cat d = (case (v(x := r)) y of None \<Rightarrow> [] | Some a \<Rightarrow> [rdata_of a])"
  proof (cases "to_lower L d \<in> ?keys")
    case True
    then obtain o2 where o2: "o2 \<in> set os" "to_lower L d = to_lower L (projr (domain_of L x o2))"
      using set by auto
    moreover obtain d2 where "domain_of L x o2 = Inr d2"
      using good x o2(1) unfolding good_names_def by blast
    ultimately have "y = x"
      using good x y org d unfolding good_names_def by (metis sum.sel(2))
    moreover obtain o3 where "?cat (to_lower L d) = f o3 (projr (domain_of L x o3))"
      using fold_update_in [OF True] by blast
    ultimately show ?thesis by (simp add: answers_def f)
  next
    case False
    have "y \<noteq> x"
    proof
      assume "y = x"
      with d have "to_lower L d = to_lower L (projr (domain_of L x org))" by simp
      with False org set show False by blast
    qed
    moreover have "?cat (to_lower L d) = cat (to_lower L d)"
      using False by (rule fold_update_other)
    ultimately show ?thesis
      using view y org d by (simp add: answers_def shows_view_def)
  qed
qed

lemma handle_event_view:
  assumes good: "good_names L os N" and set: "set order = set os"
    and box: "\<And>x. event_box e = Some x \<Longrightarrow> x \<in> N" and view: "shows_view L os N v cat"
  shows "shows_view L os N (dns_view [(order, e)] v) (snd (handle_event L order e cat))
     \<and> fst (handle_event L order e cat) = Inr ()"
proof -
  have names: "\<forall>org\<in>set order. \<exists>d. domain_of L x org = Inr d" if "x \<in> N" for x
    using good set that by (simp add: good_names_def)
  have del: "shows_view L os N (v(name_any (metadata b) := None)) (snd (handle_delete L order b cat))
      \<and> fst (handle_delete L order b cat) = Inr ()" if "name_any (metadata b) \<in> N" for b
    unfolding handle_delete_def try_each_update [OF names [OF that], where f = "\<lambda>_ _. None"]
    using shows_view_update [OF good that set view, of "\<lambda>_ _. None" None] by simp
  have app: "shows_view L os N (v(name_any (metadata b) := object_address b)) (snd (handle_apply L order b cat))
      \<and> fst (handle_apply L order b cat) = Inr ()" if "name_any (metadata b) \<in> N" for b
  proof (cases "object_address b")
    case None
    with del [OF that] show ?thesis by (simp add: handle_apply_def)
  next
    case (Some a)
    with shows_view_update [OF good that set view, of "\<lambda>org d. Some (authority_of org d a)" "Some a"]
    show ?thesis
      by (simp add: handle_apply_def try_each_update [OF names [OF that],
            where f = "\<lambda>org d. Some (authority_of org d a)"] authority_of_def)
  qed
  show ?thesis
    using box view app del by (cases e) (simp_all add: handle_event_def event_box_def)
qed

lemma dns_view_append: "dns_view (es @ es') v = dns_view es' (dns_view es v)"
  by (induction es arbitrary: v) auto

lemma watch_view:
  assumes "good_names L os N" and "shows_view L os N v cat"
    and "\<forall>(order, e)\<in>set es. set order = set os \<and> (\<forall>x. event_box e = Some x \<longrightarrow> x \<in> N)"
  shows "shows_view L os N (dns_view es v) (watch L es cat)"
  using assms(2,3)
proof (induction es arbitrary: v cat)
  case (Cons p es)
  obtain order e where p: "p = (order, e)" by force
  have "shows_view L os N (dns_view [(order, e)] v) (snd (handle_event L order e cat))"
    using handle_event_view [OF assms(1), of order e] Cons.prems p by auto
  from Cons.IH [OF this] Cons.prems(2) p show ?case by simp
qed simp

section \<open>Any names\<close>

text \<open>Without any demand on the names: an event writes the names of its box under the origins in
  order, up to the first origin under which there is no valid name.\<close>

definition names_of :: "'n dns_lib \<Rightarrow> 'n list \<Rightarrow> string \<Rightarrow> 'n set" where
  "names_of L order x =
     (\<lambda>org. to_lower L (projr (domain_of L x org))) ` set (takeWhile (\<lambda>org. \<not> isl (domain_of L x org)) order)"

definition event_address :: "box_event \<Rightarrow> IpAddr option" where
  "event_address e = (case e of Apply b \<Rightarrow> object_address b | InitApply b \<Rightarrow> object_address b | _ \<Rightarrow> None)"

text \<open>The last event that writes a name, and the address that it gives to it.\<close>

primrec last_address :: "'n dns_lib \<Rightarrow> ('n list \<times> box_event) list \<Rightarrow> 'n \<Rightarrow> IpAddr option \<Rightarrow> IpAddr option" where
  "last_address L [] k a = a"
| "last_address L (e # es) k a = last_address L es k
     (case event_box (snd e) of
        Some x \<Rightarrow> if k \<in> names_of L (fst e) x then event_address (snd e) else a
      | None \<Rightarrow> a)"

definition answer_of :: "IpAddr option \<Rightarrow> RData list" where
  "answer_of a = (case a of None \<Rightarrow> [] | Some a \<Rightarrow> [rdata_of a])"

lemma try_each_prefix:
  "snd (try_each (\<lambda>org c. case full org of Inl e \<Rightarrow> (Inl e, c) | Inr d \<Rightarrow> (Inr (), c(low d := f org d))) os cat) =
     fold (\<lambda>org c. c(low (projr (full org)) := f org (projr (full org)))) (takeWhile (\<lambda>org. \<not> isl (full org)) os) cat"
  by (induction os arbitrary: cat) (auto split: sum.splits)

lemma answers_after_event:
  assumes f: "\<And>org d. (case f org d of None \<Rightarrow> [] | Some a \<Rightarrow> map record_data (authority_records a)) = answer_of r"
  shows "answers L (snd (try_each (\<lambda>org c. case domain_of L x org of
      Inl e \<Rightarrow> (Inl e, c) | Inr d \<Rightarrow> (Inr (), c(to_lower L d := f org d))) order cat)) d =
    (if to_lower L d \<in> names_of L order x then answer_of r else answers L cat d)"
proof (cases "to_lower L d \<in> names_of L order x")
  case True
  obtain org where "fold (\<lambda>org c. c(to_lower L (projr (domain_of L x org)) := f org (projr (domain_of L x org))))
      (takeWhile (\<lambda>org. \<not> isl (domain_of L x org)) order) cat (to_lower L d) = f org (projr (domain_of L x org))"
    using fold_update_in [where low = "to_lower L" and full = "domain_of L x", OF True [unfolded names_of_def], of f cat]
    by blast
  with True show ?thesis
    by (simp add: answers_def try_each_prefix [where low = "to_lower L" and full = "domain_of L x"] f)
next
  case False
  from fold_update_other [where low = "to_lower L" and full = "domain_of L x", OF this [unfolded names_of_def], of f cat] False
  show ?thesis
    by (simp add: answers_def try_each_prefix [where low = "to_lower L" and full = "domain_of L x"])
qed

lemma answers_deleted:
  "answers L (snd (handle_delete L order b cat)) d =
     (if to_lower L d \<in> names_of L order (name_any (metadata b)) then [] else answers L cat d)"
  using answers_after_event [of "\<lambda>_ _. None" None L "name_any (metadata b)" order cat d]
  by (simp add: handle_delete_def answer_of_def)

lemma answers_applied:
  "answers L (snd (handle_apply L order b cat)) d =
     (if to_lower L d \<in> names_of L order (name_any (metadata b)) then answer_of (object_address b) else answers L cat d)"
proof (cases "object_address b")
  case None
  then show ?thesis by (simp add: handle_apply_def answers_deleted answer_of_def)
next
  case (Some a)
  then show ?thesis
    using answers_after_event [of "\<lambda>org d. Some (authority_of org d a)" "Some a" L "name_any (metadata b)" order cat d]
    by (simp add: handle_apply_def authority_of_def answer_of_def)
qed

lemma watch_answers:
  "answers L cat d = answer_of a \<Longrightarrow> answers L (watch L es cat) d = answer_of (last_address L es (to_lower L d) a)"
proof (induction es arbitrary: cat a)
  case (Cons e es)
  have "answers L (snd (handle_event L (fst e) (snd e) cat)) d = answer_of (case event_box (snd e) of
      Some x \<Rightarrow> if to_lower L d \<in> names_of L (fst e) x then event_address (snd e) else a
    | None \<Rightarrow> a)"
    by (cases "snd e")
      (simp_all add: handle_event_def event_box_def event_address_def answers_applied answers_deleted Cons.prems answer_of_def)
  from Cons.IH [OF this] show ?case by simp
qed simp

section \<open>Properties\<close>

text \<open>C8.
  After any sequence of watch events, whose updates are polled in any order, the server answers under
  a name exactly the address that the last event writing this name has given it, and nothing when
  that event was a deletion or had no address.  An event writes the names of its box under the
  origins, up to the first origin under which the box has no valid name, and replaces what another box
  has written there.  When all names are valid and no two boxes share one under any origins, this
  is the address that the last event of the box gives.\<close>

theorem dns_answers_last_event:
  "answers L (watch L es Map.empty) d = answer_of (last_address L es (to_lower L d) None)
   \<and> (good_names L os N
      \<and> (\<forall>(order, e)\<in>set es. set order = set os \<and> (\<forall>x. event_box e = Some x \<longrightarrow> x \<in> N))
      \<and> x \<in> N \<and> org \<in> set os \<and> domain_of L x org = Inr d
      \<longrightarrow> answers L (watch L es Map.empty) d = answer_of (dns_view es Map.empty x))"
proof (intro conjI impI)
  show "answers L (watch L es Map.empty) d = answer_of (last_address L es (to_lower L d) None)"
    by (rule watch_answers) (simp add: answers_def answer_of_def)
  assume good: "good_names L os N
      \<and> (\<forall>(order, e)\<in>set es. set order = set os \<and> (\<forall>x. event_box e = Some x \<longrightarrow> x \<in> N))
      \<and> x \<in> N \<and> org \<in> set os \<and> domain_of L x org = Inr d"
  have empty: "shows_view L os N Map.empty Map.empty"
    by (simp add: shows_view_def answers_def)
  from good have g: "good_names L os N"
    "\<forall>(order, e)\<in>set es. set order = set os \<and> (\<forall>x. event_box e = Some x \<longrightarrow> x \<in> N)"
    "x \<in> N" "org \<in> set os" "domain_of L x org = Inr d"
    by blast+
  from watch_view [OF g(1) empty g(2)] g(3-5) show "answers L (watch L es Map.empty) d = answer_of (dns_view es Map.empty x)"
    by (simp add: shows_view_def answer_of_def)
qed

text \<open>Domain names as lists of labels, case already folded.\<close>

definition label_lib :: "string list dns_lib" where
  "label_lib = \<lparr>name_parse = (\<lambda>s. if s = ''.'' then Inr [] else Inr [s]),
     append_domain = (\<lambda>n org. Inr (n @ org)), to_lower = (\<lambda>n. n)\<rparr>"

definition label_origins :: "string list list" where
  "label_origins = [[], [''box''], [''node'']]"

definition addressed_box :: BoxCrd where
  "addressed_box = example_box 7 group_default (Some (example_status Running None))"

definition example_events :: "(string list list \<times> box_event) list" where
  "example_events = [(label_origins, Init), (rev label_origins, InitApply addressed_box),
     (label_origins, InitDone)]"

lemma example_names: "good_names label_lib label_origins {''7''}"
  by (simp add: good_names_def domain_of_def label_lib_def label_origins_def)

lemma example_events_ok:
  "(\<forall>(order, e)\<in>set example_events. set order = set label_origins
      \<and> (\<forall>x. event_box e = Some x \<longrightarrow> x \<in> {''7''}))
   \<and> domain_of label_lib ''7'' [''box''] = Inr [''7'', ''box'']
   \<and> dns_view example_events Map.empty ''7'' = Some (V4 1)"
proof -
  have "name_any (metadata addressed_box) = ''7'' \<and> object_address addressed_box = Some (V4 1)"
    by code_simp
  then show ?thesis
    by (simp add: example_events_def event_box_def domain_of_def label_lib_def)
qed

theorem dns_answers_last_event_witness:
  "answers label_lib (watch label_lib example_events Map.empty) [''7'', ''box''] = [A 1]"
proof -
  have "answers label_lib (watch label_lib example_events Map.empty) [''7'', ''box''] =
      answer_of (dns_view example_events Map.empty ''7'')"
    using conjunct2 [OF dns_answers_last_event [of label_lib example_events "[''7'', ''box'']" label_origins "{''7''}" "''7''" "[''box'']"]]
      example_names example_events_ok
    by (simp add: label_origins_def)
  with example_events_ok show ?thesis by (simp add: answer_of_def rdata_of_def)
qed

text \<open>Two boxes can share a name: the box \<^verbatim>\<open>a.box\<close> under the root and the box
  \<^verbatim>\<open>a\<close> under \<^verbatim>\<open>box\<close>.  Deleting the one takes the name from the other.\<close>

definition dotted_lib :: "string list dns_lib" where
  "dotted_lib = \<lparr>name_parse = (\<lambda>s. if s = ''.'' then Inr [] else Inr (if s = ''a.box'' then [''a'', ''box''] else [s])),
     append_domain = (\<lambda>n org. Inr (n @ org)), to_lower = (\<lambda>n. n)\<rparr>"

lemma shared_name_is_lost:
  assumes "name_any (metadata b) = ''a''" and "name_any (metadata c) = ''a.box''"
  shows "answers dotted_lib (watch dotted_lib [(label_origins, Apply b), (label_origins, Delete c)] Map.empty) [''a'', ''box''] = []"
proof -
  have "[''a'', ''box''] \<in> names_of dotted_lib label_origins ''a.box''"
    by (force simp: names_of_def label_origins_def domain_of_def dotted_lib_def)
  moreover have "to_lower dotted_lib [''a'', ''box''] = [''a'', ''box'']"
    by (simp add: dotted_lib_def)
  ultimately show ?thesis
    by (simp only: watch.simps fst_conv snd_conv handle_event_def box_event.case answers_deleted assms(2) if_True)
qed

text \<open>A restart of the watch relists the boxes but forgets none: a box that was deleted while the watch
  was down is not among the relisted ones and keeps being answered.\<close>

theorem dns_restart_keeps_deleted:
  assumes "good_names L os N"
    and "\<forall>(order, e)\<in>set es. set order = set os \<and> (\<forall>x. event_box e = Some x \<longrightarrow> x \<in> N)"
    and "\<forall>b\<in>set bs. name_any (metadata b) \<in> N - {x}"
    and "x \<in> N" and "org \<in> set os" and "domain_of L x org = Inr d"
  shows "answers L (watch L (es @ (os, Init) # map (\<lambda>b. (os, InitApply b)) bs @ [(os, InitDone)]) Map.empty) d
    = answers L (watch L es Map.empty) d"
proof -
  let ?es = "es @ (os, Init) # map (\<lambda>b. (os, InitApply b)) bs @ [(os, InitDone)]"
  have "dns_view (map (\<lambda>b. (os, InitApply b)) bs) v x = v x" for v
    using assms(3) by (induction bs arbitrary: v) auto
  then have view: "dns_view ?es Map.empty x = dns_view es Map.empty x"
    by (simp add: dns_view_append)
  have empty: "shows_view L os N Map.empty Map.empty"
    by (simp add: shows_view_def answers_def)
  have "\<forall>(order, e)\<in>set ?es. set order = set os \<and> (\<forall>x. event_box e = Some x \<longrightarrow> x \<in> N)"
    using assms(2,3) by (auto simp: event_box_def)
  from watch_view [OF assms(1) empty this] watch_view [OF assms(1) empty assms(2)] view assms(4-6)
  show ?thesis by (simp add: shows_view_def)
qed

theorem dns_restart_keeps_deleted_witness:
  "answers label_lib (watch label_lib (example_events @ (label_origins, Init) #
     map (\<lambda>b. (label_origins, InitApply b)) [] @ [(label_origins, InitDone)]) Map.empty) [''7'', ''box'']
   = answers label_lib (watch label_lib example_events Map.empty) [''7'', ''box'']"
  by (rule dns_restart_keeps_deleted [OF example_names, where x = "''7''" and org = "[''box'']"])
     (use example_events_ok in \<open>simp_all add: label_origins_def\<close>)

end
