(* ===== verification/Ark_Operator.thy ===== *)
theory Ark_Operator
  imports Ark_Kube
begin

text \<open>
  The operator library (\<^verbatim>\<open>crates/openark-core/src/operator.rs\<close>): reporting a status
  with \<open>commit\<close>, and installing resource definitions.  The traits \<^verbatim>\<open>Resource\<close> and
  \<^verbatim>\<open>Reason\<close> are arguments of the operations; their contracts are the locales
  \<open>resource_api\<close> and \<open>status_reason\<close>.  The calls of the operator that uses the library are
  arguments too (\<open>patch\<close>, \<open>publish\<close>).
\<close>

section \<open>Arguments\<close>

record OperatorArgs =
  controller_name :: string
  controller_pod_name :: "string option"
  install_crds :: bool
  args_namespace :: "string option"
  upgrade_crds :: bool

section \<open>Resource definitions\<close>

datatype 'd crd_call =
  GetCrdMetadata string
| CreateCrd string 'd
| ApplyCrd string string 'd

definition install_crd ::
  "('d crd_call list \<Rightarrow> 'd crd_call \<Rightarrow> error + ObjectMeta option) \<Rightarrow>
   ('d crd_call list \<Rightarrow> 'd crd_call \<Rightarrow> error + unit) \<Rightarrow>
   OperatorArgs \<Rightarrow> string \<Rightarrow> 'd \<Rightarrow> ('d crd_call, error, unit) eff" where
  "install_crd ans_meta ans args name crd =
     tryE (call ans_meta (GetCrdMetadata name)) (\<lambda>found.
     if found = None then
       tryE (call ans (CreateCrd (controller_name args) crd)) (\<lambda>_. ret ())
     else if upgrade_crds args then
       tryE (call ans (ApplyCrd (controller_name args) name crd)) (\<lambda>_. ret ())
     else ret ())"

section \<open>Conditions\<close>

definition is_conditions_changed :: "Condition list \<Rightarrow> Condition list \<Rightarrow> bool" where
  "is_conditions_changed a b \<longleftrightarrow>
     length a \<noteq> length b
     \<or> list_ex (\<lambda>(a, b).
          cond_message a \<noteq> cond_message b
          \<or> observed_generation a \<noteq> None \<and> observed_generation a \<noteq> observed_generation b
          \<or> cond_reason a \<noteq> cond_reason b
          \<or> cond_status a \<noteq> cond_status b
          \<or> cond_type a \<noteq> cond_type b) (zip a b)"

record 'r Status =
  status_reason :: 'r
  status_message :: string
  requeue :: bool

definition into_condition ::
  "('r \<Rightarrow> bool) \<Rightarrow> ('r \<Rightarrow> string) \<Rightarrow> timestamp \<Rightarrow> 'r Status \<Rightarrow> ObjectMeta \<Rightarrow> Condition" where
  "into_condition accepted reason_str now st m = \<lparr>
     last_transition_time = now,
     cond_message = status_message st,
     observed_generation = meta_generation m,
     cond_reason = reason_str (status_reason st),
     cond_status = (if accepted (status_reason st) then ''True'' else ''False''),
     cond_type = ''Accepted''\<rparr>"

definition status_event :: "('r \<Rightarrow> bool) \<Rightarrow> ('r \<Rightarrow> string) \<Rightarrow> 'r \<Rightarrow> string \<Rightarrow> Event" where
  "status_event accepted reason_str r message = \<lparr>
     event_type = (if accepted r then Normal else Warning),
     event_reason = reason_str r,
     event_note = Some message,
     event_action = ''Accepted''\<rparr>"

section \<open>Committing a status\<close>

record ('k, 's) resource_ops =
  res_meta :: "'k \<Rightarrow> ObjectMeta"
  res_conditions :: "'k \<Rightarrow> Condition list option"
  res_build_status :: "'k \<Rightarrow> Condition list \<Rightarrow> 's"

definition has_changed ::
  "('k, 's) resource_ops \<Rightarrow> 'k \<Rightarrow> Condition list \<Rightarrow> bool" where
  "has_changed R object conditions =
     is_none_or (is_conditions_changed conditions) (res_conditions R object)"

definition commit ::
  "('k, 's) resource_ops \<Rightarrow> ('r \<Rightarrow> bool) \<Rightarrow> ('r \<Rightarrow> string) \<Rightarrow>
   (string \<Rightarrow> 's \<Rightarrow> ('c, error, unit) eff) \<Rightarrow> ('k \<Rightarrow> Event \<Rightarrow> ('c, error, unit) eff) \<Rightarrow>
   ('c list \<Rightarrow> timestamp) \<Rightarrow> duration \<Rightarrow> 'k \<Rightarrow> 'r Status \<Rightarrow> ('c, error, Action) eff" where
  "commit R accepted reason_str patch publish now ival object st =
     tryE (observe now) (\<lambda>t.
     let conditions = [into_condition accepted reason_str t st (res_meta R object)] in
     tryE (if has_changed R object conditions
           then (case meta_name (res_meta R object) of
                   None \<Rightarrow> fail (Panic ''conciled resource'')
                 | Some name \<Rightarrow> patch name (res_build_status R object conditions))
           else ret ()) (\<lambda>_.
     tryE (publish object (status_event accepted reason_str (status_reason st) (status_message st))) (\<lambda>_.
     ret (if requeue st then Requeue ival else AwaitChange))))"

section \<open>The contracts\<close>

text \<open>What the operators rely on: the status built from conditions shows these conditions once it
  is stored, and storing a status keeps the metadata.\<close>

locale resource_api =
  fixes R :: "('k, 's) resource_ops"
    and store_status :: "'s \<Rightarrow> 'k \<Rightarrow> 'k"
  assumes conditions_stored: "res_conditions R (store_status (res_build_status R k cs) k) = Some cs"
    and meta_stored: "res_meta R (store_status s k) = res_meta R k"

text \<open>Reasons print differently.\<close>

locale reason_api =
  fixes accepted :: "'r \<Rightarrow> bool"
    and reason_str :: "'r \<Rightarrow> string"
  assumes reason_inj: "reason_str r = reason_str r' \<Longrightarrow> r = r'"

lemma is_conditions_changed_single:
  "is_conditions_changed [a] [b] \<longleftrightarrow>
     cond_message a \<noteq> cond_message b
     \<or> observed_generation a \<noteq> None \<and> observed_generation a \<noteq> observed_generation b
     \<or> cond_reason a \<noteq> cond_reason b \<or> cond_status a \<noteq> cond_status b \<or> cond_type a \<noteq> cond_type b"
  by (simp add: is_conditions_changed_def)

lemma is_conditions_changed_refl [simp]: "\<not> is_conditions_changed cs cs"
proof -
  have "\<forall>(a, b)\<in>set (zip cs cs). a = b"
    by (induction cs) auto
  then show ?thesis
    by (fastforce simp: is_conditions_changed_def list_ex_iff)
qed

locale committing = resource_api R store_status + reason_api accepted reason_str
  for R :: "('k, 's) resource_ops" and store_status :: "'s \<Rightarrow> 'k \<Rightarrow> 'k"
    and accepted :: "'r \<Rightarrow> bool" and reason_str :: "'r \<Rightarrow> string"
begin

text \<open>The object after its status has been committed at time \<open>t\<close>.\<close>

definition committed :: "timestamp \<Rightarrow> 'r Status \<Rightarrow> 'k \<Rightarrow> 'k" where
  "committed t st k =
     store_status (res_build_status R k [into_condition accepted reason_str t st (res_meta R k)]) k"

lemma committed_conditions:
  "res_conditions R (committed t st k) = Some [into_condition accepted reason_str t st (res_meta R k)]"
  by (simp add: committed_def conditions_stored)

lemma committed_meta: "res_meta R (committed t st k) = res_meta R k"
  by (simp add: committed_def meta_stored)

lemma committed_unchanged:
  "has_changed R (committed t st k)
     [into_condition accepted reason_str t' st' (res_meta R (committed t st k))] \<longleftrightarrow>
   status_reason st' \<noteq> status_reason st \<or> status_message st' \<noteq> status_message st"
  unfolding has_changed_def committed_conditions is_none_or_simps is_conditions_changed_single committed_meta
  by (auto simp: into_condition_def dest: reason_inj)

text \<open>Committing again writes exactly when the reason or the message differs.\<close>

lemma commit_again:
  "commit R accepted reason_str patch publish now ival (committed t st k) st' l =
     (if status_reason st' \<noteq> status_reason st \<or> status_message st' \<noteq> status_message st
      then tryE (case meta_name (res_meta R k) of
              None \<Rightarrow> fail (Panic ''conciled resource'')
            | Some name \<Rightarrow> patch name (res_build_status R (committed t st k)
                [into_condition accepted reason_str (now l) st' (res_meta R k)]))
           (\<lambda>_. tryE (publish (committed t st k)
             (status_event accepted reason_str (status_reason st') (status_message st')))
           (\<lambda>_. ret (if requeue st' then Requeue ival else AwaitChange))) l
      else tryE (publish (committed t st k)
             (status_event accepted reason_str (status_reason st') (status_message st')))
           (\<lambda>_. ret (if requeue st' then Requeue ival else AwaitChange)) l)"
  using committed_unchanged [of t st k "now l" st'] unfolding committed_meta
  by (simp add: commit_def tryE_def observe_def ret_def Let_def committed_meta)

end

section \<open>Properties of installing\<close>

text \<open>Installing a resource definition creates it when it is missing, replaces it only when upgrades
  are asked for, and otherwise changes nothing; a failed lookup changes nothing either.\<close>

theorem install_crd_calls:
  "calls_of (install_crd ans_meta ans args name crd) =
     GetCrdMetadata name #
     (case ans_meta [] (GetCrdMetadata name) of
        Inl _ \<Rightarrow> []
      | Inr None \<Rightarrow> [CreateCrd (controller_name args) crd]
      | Inr (Some _) \<Rightarrow> if upgrade_crds args then [ApplyCrd (controller_name args) name crd] else [])"
  by (auto simp: calls_of_def install_crd_def tryE_def call_def ret_def split: option.splits sum.splits)

end
