(* ===== verification/Spectrum_Api.thy ===== *)
theory Spectrum_Api
  imports Ark_Operator
begin

text \<open>
  The data of the spectrum components (\<^verbatim>\<open>crates/openark-spectrum-api\<close>): the custom
  resources Pool, PoolClaim, Histogram and MetricsClass with their statuses, the references, and
  the requests between the operator and the pool.  The type variable \<open>'w\<close> stands for
  \<^verbatim>\<open>f64\<close>: nothing here computes with it.  \<open>'v\<close> stands for JSON values.
\<close>

section \<open>References\<close>

record ObjectReference =
  ref_group :: string
  ref_kind :: string
  ref_name :: string
  ref_namespace :: "string option"

definition object_reference_str :: "ObjectReference \<Rightarrow> string" where
  "object_reference_str r =
     (case (ref_group r, ref_namespace r) of
        ([], None) \<Rightarrow> ref_kind r @ ''/'' @ ref_name r
      | ([], Some ns) \<Rightarrow> ref_kind r @ ''/'' @ ns @ ''/'' @ ref_name r
      | (g, None) \<Rightarrow> g @ ''/'' @ ref_kind r @ ''//'' @ ref_name r
      | (g, Some ns) \<Rightarrow> g @ ''/'' @ ref_kind r @ ''/'' @ ns @ ''/'' @ ref_name r)"

record ServiceReference =
  service_object :: ObjectReference
  service_port :: u16

section \<open>Requests to the pool\<close>

datatype CommitState = Pending | Preparing | Running

definition commit_state_default :: CommitState where
  "commit_state_default = Pending"

fun commit_state_raw :: "CommitState \<Rightarrow> u8" where
  "commit_state_raw Pending = 0"
| "commit_state_raw Preparing = 1"
| "commit_state_raw Running = 2"

definition from_raw :: "u8 \<Rightarrow> CommitState option" where
  "from_raw v = (if v = 0 then Some Pending else if v = 1 then Some Preparing
                 else if v = 2 then Some Running else None)"

lemma from_raw_raw [simp]: "from_raw (commit_state_raw s) = Some s"
  by (cases s) (simp_all add: from_raw_def)

record 't PoolResource =
  res_claim :: "'t option"
  res_state :: CommitState

definition pool_resource_default :: "'t PoolResource" where
  "pool_resource_default = \<lparr>res_claim = None, res_state = commit_state_default\<rparr>"

datatype PoolResourceHttpMethod = DELETE | GET | PATCH | POST

fun http_method :: "PoolResourceHttpMethod \<Rightarrow> string" where
  "http_method DELETE = ''DELETE''"
| "http_method GET = ''GET''"
| "http_method PATCH = ''PATCH''"
| "http_method POST = ''POST''"

datatype 'v PoolResourceHttpBody = JsonBody "(string \<times> 'v) list"

record 'v PoolResourceHttpProbe =
  probe_method :: PoolResourceHttpMethod
  probe_path :: string
  probe_port :: u16
  probe_secure :: bool
  probe_body :: "'v PoolResourceHttpBody option"

datatype 'v PoolResourceProbe = Http "'v PoolResourceHttpProbe"

record 'v PoolResourceLifecycle =
  pre_start :: "'v PoolResourceProbe list"

definition lifecycle_default :: "'v PoolResourceLifecycle" where
  "lifecycle_default = \<lparr>pre_start = []\<rparr>"

record PoolRequest =
  req_namespace :: string
  req_resources :: "string list"

record PoolResponse =
  bound_resources :: "string PoolResource list"

record 'v PoolCommitRequestItem =
  commit_lifecycle :: "'v PoolResourceLifecycle"
  commit_name :: string
  commit_pool :: PoolRequest
  commit_priority :: i32

record 'v PoolCommitRequest =
  commit_items :: "'v PoolCommitRequestItem list"

record 't WeightRequest =
  weight_metadata :: ObjectMeta
  weight_list :: "'t list"

record 'w WeightResponse =
  response_weights :: "'w option list"

section \<open>Statuses\<close>

text \<open>The four resources have the same status and the same test for acceptance.\<close>

record ResourceStatus =
  conditions :: "Condition list"

definition is_accepted :: "ResourceStatus \<Rightarrow> bool" where
  "is_accepted s =
     list_ex (\<lambda>c. cond_type c = ''Accepted'' \<and> cond_reason c = ''Accepted'' \<and> cond_status c = ''True'')
       (conditions s)"

definition default_conditions :: "string \<Rightarrow> Condition list" where
  "default_conditions message =
     [\<lparr>last_transition_time = 0, cond_message = message, observed_generation = None,
       cond_reason = ''Pending'', cond_status = ''Unknown'', cond_type = ''Accepted''\<rparr>]"

section \<open>PoolClaim\<close>

record 'w PoolResourceSettings =
  set_penalty :: "'w option"
  set_priority :: "i32 option"
  set_max :: "'w option"
  set_min :: "'w option"
  set_weight :: "u64 option"

definition settings_default :: "'w PoolResourceSettings" where
  "settings_default = \<lparr>set_penalty = None, set_priority = None, set_max = None, set_min = None, set_weight = None\<rparr>"

record ('w, 'v) PoolClaimSpec =
  pool_name :: string
  lifecycle :: "'v PoolResourceLifecycle"
  resources :: "'w PoolResourceSettings"

record ('w, 'v) PoolClaimCrd =
  claim_meta :: ObjectMeta
  claim_spec :: "('w, 'v) PoolClaimSpec"
  claim_status :: "ResourceStatus option"

definition claim_conditions :: "('w, 'v) PoolClaimCrd \<Rightarrow> Condition list option" where
  "claim_conditions k = map_option conditions (claim_status k)"

definition claim_build_status :: "('w, 'v) PoolClaimCrd \<Rightarrow> Condition list \<Rightarrow> ResourceStatus" where
  "claim_build_status k cs = \<lparr>conditions = cs\<rparr>"

definition claim_status_default :: ResourceStatus where
  "claim_status_default = \<lparr>conditions = default_conditions ''Waiting for class''\<rparr>"

definition claim_ops :: "(('w, 'v) PoolClaimCrd, ResourceStatus) resource_ops" where
  "claim_ops = \<lparr>res_meta = claim_meta, res_conditions = claim_conditions, res_build_status = claim_build_status\<rparr>"

interpretation claim_api: resource_api claim_ops "\<lambda>s k. k\<lparr>claim_status := Some s\<rparr>"
  by unfold_locales (simp_all add: claim_ops_def claim_conditions_def claim_build_status_def)

section \<open>Pool\<close>

record PoolSpec =
  pool_metrics_class_name :: string
  pool_target_ref :: ObjectReference

record PoolCrd =
  pool_meta :: ObjectMeta
  pool_spec :: PoolSpec
  pool_status :: "ResourceStatus option"

definition pool_conditions :: "PoolCrd \<Rightarrow> Condition list option" where
  "pool_conditions k = map_option conditions (pool_status k)"

definition pool_build_status :: "PoolCrd \<Rightarrow> Condition list \<Rightarrow> ResourceStatus" where
  "pool_build_status k cs = \<lparr>conditions = cs\<rparr>"

definition pool_status_default :: ResourceStatus where
  "pool_status_default = \<lparr>conditions = default_conditions ''Waiting for class''\<rparr>"

definition pool_ops :: "(PoolCrd, ResourceStatus) resource_ops" where
  "pool_ops = \<lparr>res_meta = pool_meta, res_conditions = pool_conditions, res_build_status = pool_build_status\<rparr>"

interpretation pool_api: resource_api pool_ops "\<lambda>s k. k\<lparr>pool_status := Some s\<rparr>"
  by unfold_locales (simp_all add: pool_ops_def pool_conditions_def pool_build_status_def)

section \<open>Histogram\<close>

record HistogramSettings =
  accumulate :: "bool option"
  hist_interval :: "u64 option"
  hist_size :: u8

record HistogramSpec =
  hist_metrics_class_name :: string
  hist_target_ref :: ObjectReference
  hist_settings :: HistogramSettings

record HistogramCrd =
  hist_meta :: ObjectMeta
  hist_spec :: HistogramSpec
  hist_status :: "ResourceStatus option"

definition hist_conditions :: "HistogramCrd \<Rightarrow> Condition list option" where
  "hist_conditions k = map_option conditions (hist_status k)"

definition hist_build_status :: "HistogramCrd \<Rightarrow> Condition list \<Rightarrow> ResourceStatus" where
  "hist_build_status k cs = \<lparr>conditions = cs\<rparr>"

definition hist_status_default :: ResourceStatus where
  "hist_status_default = \<lparr>conditions = default_conditions ''Waiting for class''\<rparr>"

definition hist_ops :: "(HistogramCrd, ResourceStatus) resource_ops" where
  "hist_ops = \<lparr>res_meta = hist_meta, res_conditions = hist_conditions, res_build_status = hist_build_status\<rparr>"

interpretation hist_api: resource_api hist_ops "\<lambda>s k. k\<lparr>hist_status := Some s\<rparr>"
  by unfold_locales (simp_all add: hist_ops_def hist_conditions_def hist_build_status_def)

section \<open>MetricsClass\<close>

record MetricsClassSpec =
  class_controller_name :: string
  class_description :: string
  class_backend_ref :: ServiceReference

record MetricsClassCrd =
  class_meta :: ObjectMeta
  class_spec :: MetricsClassSpec
  class_status :: "ResourceStatus option"

definition class_conditions :: "MetricsClassCrd \<Rightarrow> Condition list option" where
  "class_conditions k = map_option conditions (class_status k)"

definition class_build_status :: "MetricsClassCrd \<Rightarrow> Condition list \<Rightarrow> ResourceStatus" where
  "class_build_status k cs = \<lparr>conditions = cs\<rparr>"

definition class_status_default :: ResourceStatus where
  "class_status_default = \<lparr>conditions = default_conditions ''Waiting for controller''\<rparr>"

definition class_ops :: "(MetricsClassCrd, ResourceStatus) resource_ops" where
  "class_ops = \<lparr>res_meta = class_meta, res_conditions = class_conditions, res_build_status = class_build_status\<rparr>"

interpretation class_api: resource_api class_ops "\<lambda>s k. k\<lparr>class_status := Some s\<rparr>"
  by unfold_locales (simp_all add: class_ops_def class_conditions_def class_build_status_def)

section \<open>Facts\<close>

lemma not_accepted_by_default: "\<not> is_accepted \<lparr>conditions = default_conditions m\<rparr>"
  by (simp add: is_accepted_def default_conditions_def)

lemma append_slash_eq:
  "CHR ''/'' \<notin> set a \<Longrightarrow> CHR ''/'' \<notin> set b \<Longrightarrow> a @ CHR ''/'' # x = b @ CHR ''/'' # y \<longleftrightarrow> a = b \<and> x = y"
proof (induction a arbitrary: b)
  case Nil
  then show ?case by (cases b) auto
next
  case (Cons c a)
  then show ?case by (cases b) auto
qed

text \<open>A reference whose parts hold no slash: names of Kubernetes objects.\<close>

definition plain_reference :: "ObjectReference \<Rightarrow> bool" where
  "plain_reference r \<longleftrightarrow>
     CHR ''/'' \<notin> set (ref_group r) \<and> CHR ''/'' \<notin> set (ref_kind r) \<and> CHR ''/'' \<notin> set (ref_name r)
     \<and> (case ref_namespace r of None \<Rightarrow> True | Some ns \<Rightarrow> ns \<noteq> [] \<and> CHR ''/'' \<notin> set ns)"

lemma plain_parts_eq:
  assumes "CHR ''/'' \<notin> set a" "CHR ''/'' \<notin> set b" "CHR ''/'' \<notin> set m"
  shows "m \<noteq> a @ CHR ''/'' # x" "a @ CHR ''/'' # x \<noteq> m"
  using assms by auto

lemma plain_start_eq:
  assumes "CHR ''/'' \<notin> set a" "a \<noteq> []"
  shows "CHR ''/'' # x \<noteq> a @ y" "a @ y \<noteq> CHR ''/'' # x"
  using assms by (cases a; auto)+

lemma reference_str_inj:
  assumes "plain_reference r" and "plain_reference s"
    and "object_reference_str r = object_reference_str s"
  shows "r = s"
proof -
  obtain g k n ns where r: "r = \<lparr>ref_group = g, ref_kind = k, ref_name = n, ref_namespace = ns\<rparr>"
    by (cases r)
  obtain g' k' n' ns' where s: "s = \<lparr>ref_group = g', ref_kind = k', ref_name = n', ref_namespace = ns'\<rparr>"
    by (cases s)
  show ?thesis
    using assms unfolding r s plain_reference_def object_reference_str_def
    by (cases g; cases g'; cases ns; cases ns')
       (auto simp: append_slash_eq plain_parts_eq plain_start_eq append_slash_eq [where a = "_ # _", simplified]
          append_slash_eq [where b = "_ # _", simplified])
qed

text \<open>The text of a reference, which is the key of the pool's tables, determines the reference: two
  objects have the same text only when they are the same object (names of Kubernetes objects hold
  no slash, and a namespace is not empty).\<close>

theorem object_reference_str_inj:
  assumes "plain_reference r" and "plain_reference s"
  shows "object_reference_str r = object_reference_str s \<longleftrightarrow> r = s"
  using reference_str_inj [OF assms] by blast

definition endpoint_reference :: "string \<Rightarrow> string \<Rightarrow> ObjectReference" where
  "endpoint_reference ns n = \<lparr>ref_group = ''discovery.k8s.io'', ref_kind = ''Endpoint'',
     ref_name = n, ref_namespace = Some ns\<rparr>"

theorem object_reference_str_inj_witness:
  "object_reference_str (endpoint_reference ''a'' ''b'') \<noteq> object_reference_str (endpoint_reference ''a'' ''c'')"
  by (subst object_reference_str_inj) (simp_all add: plain_reference_def endpoint_reference_def)

end
