(* ===== verification/Spectrum_Scheduler.thy ===== *)
theory Spectrum_Scheduler
  imports Complex_Main Spectrum_Api "HOL-Library.Multiset"
begin

text \<open>
  The scheduler (\<^verbatim>\<open>crates/openark-spectrum-scheduler/src\<close>): resources with weights are
  distributed over the items that claim them.  The linear problems are built here as the source
  builds them; the solver is a library, a parameter that answers a problem with a value for each
  variable.  \<open>'w\<close> stands for \<^verbatim>\<open>f64\<close>: the definitions only use the operations of its
  syntactic classes, so that what is proved without further assumptions holds for floating point
  numbers too; the properties on the meaning of weights are for a linearly ordered field.
\<close>

section \<open>Items\<close>

record 'w Resource =
  penalty :: 'w
  priority :: i32
  min_weight :: "'w option"
  max_weight :: "'w option"
  weight :: u64

definition resource_default :: "'w::zero Resource" where
  "resource_default = \<lparr>penalty = 0, priority = 0, min_weight = None, max_weight = None, weight = 1\<rparr>"

record ('w, 'v, 't) Item =
  item_claim :: "('w, 'v) PoolClaimCrd"
  item_resource :: "'w Resource"
  item_item :: 't

record ('w, 's) WeightedItems =
  weighted_items :: "'s list"
  weighted_weights :: "'w option list"

record ('v, 's, 't) ScheduledItem =
  scheduled_item :: 't
  scheduled_lifecycle :: "'v PoolResourceLifecycle"
  scheduled_priority :: i32
  scheduled_resources :: "'s list"

record ('w, 'v, 't) State =
  allocated :: "nat list list"
  bound :: "nat PoolResource list"
  filled :: "'w list"
  items :: "('w, 'v, 't) Item list"
  remaining :: "nat list"
  weights :: "'w list"

text \<open>Taking the resources of each item out of the list, each at most once.\<close>

definition take_resource :: "nat \<Rightarrow> 's option list \<Rightarrow> 's option \<times> 's option list" where
  "take_resource i rs = (if i < length rs then (rs ! i, rs[i := None]) else (None, rs))"

primrec take_resources :: "nat list \<Rightarrow> 's option list \<Rightarrow> 's list \<times> 's option list" where
  "take_resources [] rs = ([], rs)"
| "take_resources (i # is) rs =
     (let (r, rs1) = take_resource i rs; (out, rs2) = take_resources is rs1
      in (case r of None \<Rightarrow> out | Some s \<Rightarrow> s # out, rs2))"

primrec collect_items ::
  "(('w, 'v, 't) Item \<times> nat list) list \<Rightarrow> 's option list \<Rightarrow> ('v, 's, 't) ScheduledItem list" where
  "collect_items [] rs = []"
| "collect_items (p # ps) rs =
     (let (out, rs1) = take_resources (snd p) rs
      in \<lparr>scheduled_item = item_item (fst p),
          scheduled_lifecycle = lifecycle (claim_spec (item_claim (fst p))),
          scheduled_priority = priority (item_resource (fst p)),
          scheduled_resources = out\<rparr> # collect_items ps rs1)"

definition collect ::
  "('w, 'v, 't) State \<Rightarrow> ('w, 's) WeightedItems \<Rightarrow> ('v, 's, 't) ScheduledItem list" where
  "collect st rs = collect_items (zip (items st) (allocated st)) (map Some (weighted_items rs))"

section \<open>Linear problems\<close>

datatype 'w expr =
  Const 'w
| Var nat
| Add "'w expr" "'w expr"
| Sub "'w expr" "'w expr"
| Scale 'w "'w expr"
| Div "'w expr" 'w

datatype 'w lp_constraint =
  LessEq "'w expr" "'w expr"
| GreaterEq "'w expr" "'w expr"
| Equal "'w expr" "'w expr"

datatype direction = Maximisation | Minimisation

datatype 'w variable = Binary | AtLeast 'w

record 'w problem =
  prob_variables :: "'w variable list"
  prob_direction :: direction
  prob_objective :: "'w expr"
  prob_constraints :: "'w lp_constraint list"

datatype 'w answer = Solution "nat \<Rightarrow> 'w" | Infeasible | Unsolved string

type_synonym 'w lp_solver = "'w problem \<Rightarrow> 'w answer"

section \<open>One problem\<close>

record Solver =
  solver_direction :: direction
  solver_items :: "nat list"
  use_all :: bool
  use_max :: bool
  use_min :: bool

datatype schedule_error = Resolution string | SchedulePanic string

text \<open>Every index of the code is checked: an access out of range is a panic.\<close>

definition index_panic :: schedule_error where
  "index_panic = SchedulePanic ''index out of bounds''"

definition index_at :: "'a list \<Rightarrow> nat \<Rightarrow> schedule_error + 'a" where
  "index_at xs i = (if i < length xs then Inr (xs ! i) else Inl index_panic)"

definition bindR :: "'e + 'a \<Rightarrow> ('a \<Rightarrow> 'e + 'b) \<Rightarrow> 'e + 'b" where
  "bindR r f = (case r of Inl e \<Rightarrow> Inl e | Inr a \<Rightarrow> f a)"

primrec foldR :: "('a \<Rightarrow> 'b \<Rightarrow> 'e + 'b) \<Rightarrow> 'a list \<Rightarrow> 'b \<Rightarrow> 'e + 'b" where
  "foldR f [] b = Inr b"
| "foldR f (x # xs) b = bindR (f x b) (foldR f xs)"

primrec mapR :: "('a \<Rightarrow> 'e + 'b) \<Rightarrow> 'a list \<Rightarrow> 'e + 'b list" where
  "mapR f [] = Inr []"
| "mapR f (x # xs) = bindR (f x) (\<lambda>y. bindR (mapR f xs) (\<lambda>ys. Inr (y # ys)))"

text \<open>The variable of a row (remaining resource) and a column (target).\<close>

definition y_var :: "nat \<Rightarrow> nat \<Rightarrow> nat \<Rightarrow> nat" where
  "y_var n_j row col = row * n_j + col"

definition penalty_at :: "('w::zero, 'v, 't) State \<Rightarrow> nat \<Rightarrow> nat \<Rightarrow> schedule_error + 'w" where
  "penalty_at st i j =
     bindR (index_at (bound st) i) (\<lambda>r.
     case res_claim r of
       None \<Rightarrow> Inr 0
     | Some j2 \<Rightarrow> if j = j2 then Inr 0
                  else bindR (index_at (items st) j) (\<lambda>it. Inr (penalty (item_resource it))))"

definition load_at :: "('w::{zero,plus}, 'v, 't) State \<Rightarrow> nat list \<Rightarrow> nat \<times> nat \<Rightarrow> schedule_error + 'w expr" where
  "load_at st targets p =
     foldR (\<lambda>q acc.
       bindR (penalty_at st (snd q) (snd p)) (\<lambda>pen.
       bindR (index_at (weights st) (snd q)) (\<lambda>w.
       Inr (Add acc (Scale (w + pen) (Var (y_var (length targets) (fst q) (fst p)))))))) 
       (enumerate 0 (remaining st)) (Const 0)"

definition loads_at :: "('w::{zero,plus}, 'v, 't) State \<Rightarrow> nat list \<Rightarrow> schedule_error + 'w expr list" where
  "loads_at st targets = mapR (load_at st targets) (enumerate 0 targets)"

definition bind_constraints ::
  "bool \<Rightarrow> nat \<Rightarrow> nat \<Rightarrow> ('w::{zero,one}) lp_constraint list" where
  "bind_constraints all_used n_i n_j =
     map (\<lambda>row. let e = fold (\<lambda>col acc. Add acc (Var (y_var n_j row col))) [0..<n_j] (Const 0)
               in if all_used then Equal e (Const 1) else LessEq e (Const 1)) [0..<n_i]"

definition item_range ::
  "('w::{zero,plus}, 'v, 't) State \<Rightarrow> Solver \<Rightarrow> 'w expr list \<Rightarrow> nat \<times> nat \<Rightarrow> schedule_error + 'w lp_constraint list" where
  "item_range st s load p =
     bindR (index_at (filled st) (snd p)) (\<lambda>f.
     bindR (index_at load (fst p)) (\<lambda>l.
     let load_j = Add (Const f) l in
     bindR (if use_min s then bindR (index_at (items st) (snd p)) (\<lambda>it.
              Inr (case min_weight (item_resource it) of
                     Some m \<Rightarrow> [GreaterEq load_j (Const m)]
                   | None \<Rightarrow> []))
            else Inr []) (\<lambda>lower.
     if use_max s then bindR (index_at (items st) (snd p)) (\<lambda>it.
       case max_weight (item_resource it) of
         Some m \<Rightarrow> Inr (lower @ [LessEq load_j (Const m)])
       | None \<Rightarrow>
           (case min_weight (item_resource it) of
              None \<Rightarrow> Inl (SchedulePanic ''guaranteed item'')
            | Some m \<Rightarrow> Inr (lower @ [Equal load_j (Const m)])))
     else Inr lower)))"

definition range_constraints ::
  "('w::{zero,plus}, 'v, 't) State \<Rightarrow> Solver \<Rightarrow> 'w expr list \<Rightarrow> schedule_error + 'w lp_constraint list" where
  "range_constraints st s load =
     bindR (mapR (item_range st s load) (enumerate 0 (solver_items s))) (\<lambda>css. Inr (concat css))"

text \<open>The largest deviation \<open>d\<close>, the last variable, between the loads per weight.\<close>

definition share_at ::
  "(u64 \<Rightarrow> 'w) \<Rightarrow> ('w, 'v, 't) State \<Rightarrow> 'w expr list \<Rightarrow> nat \<times> nat \<Rightarrow> schedule_error + 'w expr" where
  "share_at as_f64 st load p =
     bindR (index_at (items st) (snd p)) (\<lambda>it.
     bindR (index_at (filled st) (snd p)) (\<lambda>f.
     bindR (index_at load (fst p)) (\<lambda>l.
     Inr (Div (Add (Const f) l) (as_f64 (weight (item_resource it)))))))"

definition deviation_constraints ::
  "(u64 \<Rightarrow> 'w) \<Rightarrow> ('w, 'v, 't) State \<Rightarrow> 'w expr list \<Rightarrow> nat list \<Rightarrow> nat \<Rightarrow> schedule_error + 'w lp_constraint list" where
  "deviation_constraints as_f64 st load targets d =
     bindR (mapR (\<lambda>p1.
       bindR (share_at as_f64 st load p1) (\<lambda>e1.
       bindR (mapR (\<lambda>p2.
         bindR (share_at as_f64 st load p2) (\<lambda>e2.
         Inr [LessEq (Sub e1 e2) (Var d), LessEq (Sub e2 e1) (Var d)]))
         (enumerate 0 targets)) (\<lambda>css. Inr (concat css))))
       (enumerate 0 targets)) (\<lambda>css. Inr (concat css))"

definition build_problem ::
  "(u64 \<Rightarrow> 'w) \<Rightarrow> ('w::{zero,one,plus}, 'v, 't) State \<Rightarrow> Solver \<Rightarrow> schedule_error + 'w problem" where
  "build_problem as_f64 st s =
     (let targets = solver_items s; n_i = length (remaining st); n_j = length targets;
          cs = bind_constraints (use_all s) n_i n_j
      in bindR (loads_at st targets) (\<lambda>load.
         bindR (if use_min s \<or> use_max s then range_constraints st s load else Inr []) (\<lambda>rs.
         case solver_direction s of
           Maximisation \<Rightarrow>
             bindR (foldR (\<lambda>col acc. bindR (index_at load col) (\<lambda>l. Inr (Add acc l))) [0..<n_j] (Const 0)) (\<lambda>obj.
             Inr \<lparr>prob_variables = replicate (n_i * n_j) Binary, prob_direction = Maximisation,
                  prob_objective = obj, prob_constraints = cs @ rs\<rparr>)
         | Minimisation \<Rightarrow>
             bindR (deviation_constraints as_f64 st load targets (n_i * n_j)) (\<lambda>ds.
             Inr \<lparr>prob_variables = replicate (n_i * n_j) Binary @ [AtLeast 0], prob_direction = Minimisation,
                  prob_objective = Var (n_i * n_j), prob_constraints = cs @ rs @ ds\<rparr>))))"

text \<open>Storing a solution: each variable above one half gives its resource to its target.\<close>

definition assign_at :: "nat \<times> nat \<Rightarrow> ('w::plus, 'v, 't) State \<Rightarrow> schedule_error + ('w, 'v, 't) State" where
  "assign_at p st =
     (let (i, j) = p in
      bindR (index_at (allocated st) j) (\<lambda>a.
      bindR (index_at (filled st) j) (\<lambda>f.
      bindR (index_at (weights st) i) (\<lambda>w.
      Inr (st\<lparr>allocated := (allocated st)[j := a @ [i]], filled := (filled st)[j := f + w],
             remaining := removeAll i (remaining st)\<rparr>)))))"

definition chosen :: "(nat \<Rightarrow> 'w::{one,plus,inverse,ord}) \<Rightarrow> nat \<Rightarrow> nat list \<Rightarrow> nat list \<Rightarrow> (nat \<times> nat) list" where
  "chosen sol n_j rows targets =
     concat (map (\<lambda>(row, i). List.map_filter
       (\<lambda>(col, j). if sol (y_var n_j row col) > 1 / (1 + 1) then Some (i, j) else None)
       (enumerate 0 targets)) (enumerate 0 rows))"

definition store_solution ::
  "(nat \<Rightarrow> 'w::{one,plus,inverse,ord}) \<Rightarrow> nat list \<Rightarrow> ('w, 'v, 't) State \<Rightarrow> schedule_error + ('w, 'v, 't) State" where
  "store_solution sol targets st = foldR assign_at (chosen sol (length targets) (remaining st) targets) st"

definition solve ::
  "(u64 \<Rightarrow> 'w) \<Rightarrow> 'w lp_solver \<Rightarrow> Solver \<Rightarrow> ('w::{zero,one,plus,inverse,ord}, 'v, 't) State \<Rightarrow>
     schedule_error + bool \<times> ('w, 'v, 't) State" where
  "solve as_f64 lp s st =
     (if remaining st = [] \<or> solver_items s = [] then Inr (False, st)
      else bindR (build_problem as_f64 st s) (\<lambda>p.
           case lp p of
             Solution sol \<Rightarrow> bindR (store_solution sol (solver_items s) st) (\<lambda>st'. Inr (True, st'))
           | Infeasible \<Rightarrow> Inr (False, st)
           | Unsolved e \<Rightarrow> Inl (Resolution e)))"

section \<open>Scheduling\<close>

text \<open>\<^verbatim>\<open>Iterator::min\<close> and \<^verbatim>\<open>max\<close> on the known weights.\<close>

definition min_of :: "'w::ord list \<Rightarrow> 'w option" where
  "min_of ws = (case ws of [] \<Rightarrow> None | w # ws \<Rightarrow> Some (fold (\<lambda>x m. if x < m then x else m) ws w))"

definition max_of :: "'w::ord list \<Rightarrow> 'w option" where
  "max_of ws = (case ws of [] \<Rightarrow> None | w # ws \<Rightarrow> Some (fold (\<lambda>x m. if x < m then m else x) ws w))"

definition known_weights :: "'w option list \<Rightarrow> 'w list" where
  "known_weights ws = List.map_filter id ws"

definition weights_min :: "'w::{zero,one,ord} option list \<Rightarrow> 'w" where
  "weights_min ws = (let m = (case min_of (known_weights ws) of None \<Rightarrow> 0 | Some m \<Rightarrow> m)
                     in if m < 1 then 1 else m)"

definition weights_max :: "'w::{zero,one,ord} option list \<Rightarrow> 'w" where
  "weights_max ws = (let m = (case max_of (known_weights ws) of None \<Rightarrow> 0 | Some m \<Rightarrow> m)
                     in if m > weights_min ws then weights_min ws else m)"

definition weights_avg :: "'w::{zero,one,plus,inverse,ord} option list \<Rightarrow> 'w" where
  "weights_avg ws = (weights_min ws + weights_max ws) / (1 + 1)"

definition flatten_weights :: "'w::{zero,one,plus,inverse,ord} option list \<Rightarrow> 'w list" where
  "flatten_weights ws = map (\<lambda>opt. case opt of Some w \<Rightarrow> w | None \<Rightarrow> weights_avg ws) ws"

text \<open>Locked resources are given to their items; the others remain.\<close>

definition prefill_one ::
  "nat \<times> nat PoolResource \<Rightarrow> ('w::plus, 'v, 't) State \<Rightarrow> schedule_error + ('w, 'v, 't) State" where
  "prefill_one p st =
     (let (i, last) = p
      in case (res_claim last, res_state last) of
           (Some j, Preparing) \<Rightarrow>
             bindR (index_at (allocated st) j) (\<lambda>a.
             bindR (index_at (filled st) j) (\<lambda>f.
             bindR (index_at (weights st) i) (\<lambda>w.
             Inr (st\<lparr>allocated := (allocated st)[j := a @ [i]], filled := (filled st)[j := f + w]\<rparr>))))
         | _ \<Rightarrow> Inr (st\<lparr>remaining := remaining st @ [i]\<rparr>))"

primrec prefill ::
  "(nat \<times> nat PoolResource) list \<Rightarrow> ('w::plus, 'v, 't) State \<Rightarrow> schedule_error + ('w, 'v, 't) State" where
  "prefill [] st = Inr st"
| "prefill (p # ps) st = (case prefill_one p st of Inl e \<Rightarrow> Inl e | Inr st' \<Rightarrow> prefill ps st')"

definition best_effort :: "('w, 'v, 't) Item list \<Rightarrow> nat list" where
  "best_effort its = filter (\<lambda>j. max_weight (item_resource (its ! j)) = None) [0..<length its]"

definition burstable :: "('w, 'v, 't) Item list \<Rightarrow> nat list" where
  "burstable its = filter (\<lambda>j. min_weight (item_resource (its ! j)) \<noteq> None) [0..<length its]"

definition guaranteed :: "('w, 'v, 't) Item list \<Rightarrow> nat list" where
  "guaranteed its = filter (\<lambda>j. min_weight (item_resource (its ! j)) \<noteq> None
     \<and> max_weight (item_resource (its ! j)) \<noteq> None) [0..<length its]"

definition build_tiers :: "('w, 'v, 't) Item list \<Rightarrow> nat list \<Rightarrow> schedule_error + nat list list" where
  "build_tiers its targets =
     bindR (foldR (\<lambda>j tiers. bindR (index_at (map (\<lambda>it. priority (item_resource it)) its) j) (\<lambda>p.
              Inr (bt_insert p (unwrap_or [] (bt_get tiers p) @ [j]) tiers))) targets [])
       (\<lambda>tiers. Inr (map snd tiers))"

text \<open>The tiers one after the other, until one cannot be served.\<close>

primrec solve_tiers ::
  "(u64 \<Rightarrow> 'w) \<Rightarrow> 'w lp_solver \<Rightarrow> nat list list \<Rightarrow> ('w::{zero,one,plus,inverse,ord}, 'v, 't) State \<Rightarrow>
     schedule_error + ('w, 'v, 't) State" where
  "solve_tiers as_f64 lp [] st = Inr st"
| "solve_tiers as_f64 lp (t # ts) st =
     (case solve as_f64 lp \<lparr>solver_direction = Maximisation, solver_items = t, use_all = False,
                            use_max = True, use_min = True\<rparr> st of
        Inl e \<Rightarrow> Inl e
      | Inr (ok, st') \<Rightarrow> if ok then solve_tiers as_f64 lp ts st' else Inr st')"

definition initial_state ::
  "('w::{zero,one,plus,inverse,ord}, 'v, 't) Item list \<Rightarrow> nat PoolResource list \<Rightarrow> 'w option list \<Rightarrow>
     ('w, 'v, 't) State" where
  "initial_state its bnd ws = \<lparr>allocated = replicate (length its) [], bound = bnd,
     filled = replicate (length its) 0, items = its, remaining = [], weights = flatten_weights ws\<rparr>"

definition solve_best_effort ::
  "(u64 \<Rightarrow> 'w) \<Rightarrow> 'w lp_solver \<Rightarrow> nat list \<Rightarrow> ('w::{zero,one,plus,inverse,ord}, 'v, 't) State \<Rightarrow>
     schedule_error + ('w, 'v, 't) State" where
  "solve_best_effort as_f64 lp be st =
     (if remaining st \<noteq> [] \<and> be \<noteq> [] then
        (case solve as_f64 lp \<lparr>solver_direction = Minimisation, solver_items = be, use_all = True,
                               use_max = False, use_min = False\<rparr> st of
           Inl e \<Rightarrow> Inl e
         | Inr (_, st') \<Rightarrow> Inr st')
      else Inr st)"

definition tiers_of ::
  "(u64 \<Rightarrow> 'w) \<Rightarrow> 'w lp_solver \<Rightarrow> nat list \<Rightarrow> ('w::{zero,one,plus,inverse,ord}, 'v, 't) State \<Rightarrow>
     schedule_error + ('w, 'v, 't) State" where
  "tiers_of as_f64 lp targets st =
     bindR (build_tiers (items st) targets) (\<lambda>tiers. solve_tiers as_f64 lp tiers st)"

definition schedule_state ::
  "(u64 \<Rightarrow> 'w) \<Rightarrow> 'w lp_solver \<Rightarrow> ('w::{zero,one,plus,inverse,ord}, 'v, 't) Item list \<Rightarrow>
     nat PoolResource list \<Rightarrow> 'w option list \<Rightarrow> schedule_error + ('w, 'v, 't) State" where
  "schedule_state as_f64 lp its bnd ws =
     bindR (prefill (enumerate 0 bnd) (initial_state its bnd ws)) (\<lambda>st.
     bindR (tiers_of as_f64 lp (guaranteed its) st) (\<lambda>st1.
     bindR (tiers_of as_f64 lp (burstable its) st1) (\<lambda>st2.
     solve_best_effort as_f64 lp (best_effort its) st2)))"

definition schedule ::
  "(u64 \<Rightarrow> 'w) \<Rightarrow> 'w lp_solver \<Rightarrow> ('w::{zero,one,plus,inverse,ord}, 'v, 't) Item list \<Rightarrow>
     nat PoolResource list \<Rightarrow> ('w, 's) WeightedItems \<Rightarrow> schedule_error + ('v, 's, 't) ScheduledItem list" where
  "schedule as_f64 lp its bnd rs =
     (if length (weighted_items rs) \<noteq> length (weighted_weights rs)
      then Inl (SchedulePanic ''assertion failed'')
      else if its = [] \<or> weighted_items rs = [] then Inr []
      else (case schedule_state as_f64 lp its bnd (weighted_weights rs) of
              Inl e \<Rightarrow> Inl e
            | Inr st \<Rightarrow> Inr (collect st rs)))"

section \<open>The problems without checks\<close>

text \<open>The same with the indices taken for granted; the proofs on the meaning of the problems are about
  these.  A checked operation gives the same, or the panic.\<close>

definition penalty_of :: "('w::zero, 'v, 't) State \<Rightarrow> nat \<Rightarrow> nat \<Rightarrow> 'w" where
  "penalty_of st i j =
     (case res_claim (bound st ! i) of
        None \<Rightarrow> 0
      | Some j2 \<Rightarrow> if j = j2 then 0 else penalty (item_resource (items st ! j)))"

definition load_of :: "('w::{zero,plus}, 'v, 't) State \<Rightarrow> nat list \<Rightarrow> nat \<Rightarrow> nat \<Rightarrow> 'w expr" where
  "load_of st targets col j =
     fold (\<lambda>(row, i) acc.
       Add acc (Scale (weights st ! i + penalty_of st i j) (Var (y_var (length targets) row col))))
       (enumerate 0 (remaining st)) (Const 0)"

definition plain_range ::
  "('w::{zero,plus}, 'v, 't) State \<Rightarrow> Solver \<Rightarrow> nat \<Rightarrow> nat \<Rightarrow> schedule_error + 'w lp_constraint list" where
  "plain_range st s col j =
     (let load_j = Add (Const (filled st ! j)) (load_of st (solver_items s) col j);
          lower = (case (use_min s, min_weight (item_resource (items st ! j))) of
                     (True, Some m) \<Rightarrow> [GreaterEq load_j (Const m)]
                   | _ \<Rightarrow> [])
      in if use_max s then
           (case max_weight (item_resource (items st ! j)) of
              Some m \<Rightarrow> Inr (lower @ [LessEq load_j (Const m)])
            | None \<Rightarrow>
                (case min_weight (item_resource (items st ! j)) of
                   None \<Rightarrow> Inl (SchedulePanic ''guaranteed item'')
                 | Some m \<Rightarrow> Inr (lower @ [Equal load_j (Const m)])))
         else Inr lower)"

primrec plain_range_list ::
  "('w::{zero,plus}, 'v, 't) State \<Rightarrow> Solver \<Rightarrow> (nat \<times> nat) list \<Rightarrow> schedule_error + 'w lp_constraint list" where
  "plain_range_list st s [] = Inr []"
| "plain_range_list st s (p # ps) =
     (case plain_range st s (fst p) (snd p) of
        Inl e \<Rightarrow> Inl e
      | Inr cs \<Rightarrow> (case plain_range_list st s ps of Inl e \<Rightarrow> Inl e | Inr ds \<Rightarrow> Inr (cs @ ds)))"

definition plain_range_constraints ::
  "('w::{zero,plus}, 'v, 't) State \<Rightarrow> Solver \<Rightarrow> schedule_error + 'w lp_constraint list" where
  "plain_range_constraints st s = plain_range_list st s (enumerate 0 (solver_items s))"

definition plain_deviation_constraints ::
  "(u64 \<Rightarrow> 'w) \<Rightarrow> ('w::{zero,plus}, 'v, 't) State \<Rightarrow> nat list \<Rightarrow> nat \<Rightarrow> 'w lp_constraint list" where
  "plain_deviation_constraints as_f64 st targets d =
     (let share = (\<lambda>(col, j). Div (Add (Const (filled st ! j)) (load_of st targets col j))
                     (as_f64 (weight (item_resource (items st ! j)))))
      in concat (map (\<lambda>p1. concat (map (\<lambda>p2.
           [LessEq (Sub (share p1) (share p2)) (Var d), LessEq (Sub (share p2) (share p1)) (Var d)])
           (enumerate 0 targets))) (enumerate 0 targets)))"

definition plain_problem ::
  "(u64 \<Rightarrow> 'w) \<Rightarrow> ('w::{zero,one,plus}, 'v, 't) State \<Rightarrow> Solver \<Rightarrow> schedule_error + 'w problem" where
  "plain_problem as_f64 st s =
     (let targets = solver_items s; n_i = length (remaining st); n_j = length targets;
          cs = bind_constraints (use_all s) n_i n_j
      in case (if use_min s \<or> use_max s then plain_range_constraints st s else Inr []) of
           Inl e \<Rightarrow> Inl e
         | Inr rs \<Rightarrow>
             (case solver_direction s of
                Maximisation \<Rightarrow> Inr
                  \<lparr>prob_variables = replicate (n_i * n_j) Binary, prob_direction = Maximisation,
                   prob_objective = fold (\<lambda>col acc. Add acc (load_of st targets col (targets ! col)))
                     [0..<n_j] (Const 0),
                   prob_constraints = cs @ rs\<rparr>
              | Minimisation \<Rightarrow> Inr
                  \<lparr>prob_variables = replicate (n_i * n_j) Binary @ [AtLeast 0], prob_direction = Minimisation,
                   prob_objective = Var (n_i * n_j),
                   prob_constraints = cs @ rs @ plain_deviation_constraints as_f64 st targets (n_i * n_j)\<rparr>))"

definition assign :: "nat \<Rightarrow> nat \<Rightarrow> ('w::plus, 'v, 't) State \<Rightarrow> ('w, 'v, 't) State" where
  "assign i j st = st\<lparr>allocated := (allocated st)[j := allocated st ! j @ [i]],
     filled := (filled st)[j := filled st ! j + weights st ! i],
     remaining := removeAll i (remaining st)\<rparr>"

definition plain_store ::
  "(nat \<Rightarrow> 'w::{one,plus,inverse,ord}) \<Rightarrow> nat list \<Rightarrow> ('w, 'v, 't) State \<Rightarrow> ('w, 'v, 't) State" where
  "plain_store sol targets st =
     fold (\<lambda>(i, j). assign i j) (chosen sol (length targets) (remaining st) targets) st"

definition plain_solve ::
  "(u64 \<Rightarrow> 'w) \<Rightarrow> 'w lp_solver \<Rightarrow> Solver \<Rightarrow> ('w::{zero,one,plus,inverse,ord}, 'v, 't) State \<Rightarrow>
     schedule_error + bool \<times> ('w, 'v, 't) State" where
  "plain_solve as_f64 lp s st =
     (if remaining st = [] \<or> solver_items s = [] then Inr (False, st)
      else case plain_problem as_f64 st s of
             Inl e \<Rightarrow> Inl e
           | Inr p \<Rightarrow>
               (case lp p of
                  Solution sol \<Rightarrow> Inr (True, plain_store sol (solver_items s) st)
                | Infeasible \<Rightarrow> Inr (False, st)
                | Unsolved e \<Rightarrow> Inl (Resolution e)))"

definition tier_lists :: "('w, 'v, 't) Item list \<Rightarrow> nat list \<Rightarrow> nat list list" where
  "tier_lists its targets =
     map snd (fold (\<lambda>j tiers. let p = priority (item_resource (its ! j))
                              in bt_insert p (unwrap_or [] (bt_get tiers p) @ [j]) tiers) targets [])"

text \<open>\<open>agrees ok r p\<close>: the checked result \<open>r\<close> is \<open>p\<close>, or the panic when the indices are not \<open>ok\<close>.\<close>

definition agrees :: "bool \<Rightarrow> schedule_error + 'a \<Rightarrow> schedule_error + 'a \<Rightarrow> bool" where
  "agrees ok r p \<longleftrightarrow> r = p \<or> \<not> ok \<and> r = Inl index_panic"

lemma bindR_simps [simp]: "bindR (Inr a) f = f a" "bindR (Inl e) f = Inl e"
  by (simp_all add: bindR_def)

lemma agrees_refl [simp]: "agrees ok r r"
  by (simp add: agrees_def)

lemma agrees_index: "(ok \<Longrightarrow> i < length xs) \<Longrightarrow> agrees ok (index_at xs i) (Inr (xs ! i))"
  by (auto simp: agrees_def index_at_def)

lemma agrees_bindI: "agrees ok r (Inr a) \<Longrightarrow> agrees ok (f a) q \<Longrightarrow> agrees ok (bindR r f) q"
  by (auto simp: agrees_def)

lemma agrees_bind:
  "agrees ok r p \<Longrightarrow> (\<And>a. p = Inr a \<Longrightarrow> agrees ok (f a) (g a)) \<Longrightarrow> agrees ok (bindR r f) (bindR p g)"
  by (cases p) (auto simp: agrees_def)

lemma agrees_foldR:
  "(\<And>x b. x \<in> set xs \<Longrightarrow> agrees ok (f x b) (Inr (g x b))) \<Longrightarrow> agrees ok (foldR f xs b) (Inr (fold g xs b))"
  by (induction xs arbitrary: b) (auto intro: agrees_bindI)

lemma agrees_mapR:
  "(\<And>x. x \<in> set xs \<Longrightarrow> agrees ok (f x) (g x)) \<Longrightarrow> agrees ok (mapR f xs) (mapR g xs)"
  by (induction xs) (auto intro!: agrees_bind)

lemma mapR_Inr [simp]: "mapR (\<lambda>x. Inr (g x)) xs = Inr (map g xs)"
  by (induction xs) simp_all

lemma agrees_mono: "agrees ok' r p \<Longrightarrow> (ok \<Longrightarrow> ok') \<Longrightarrow> agrees ok r p"
  by (auto simp: agrees_def)

text \<open>The indices of a state and of the targets of a problem.\<close>

definition indices_ok :: "('w, 'v, 't) State \<Rightarrow> nat list \<Rightarrow> bool" where
  "indices_ok st targets \<longleftrightarrow>
     (\<forall>i\<in>set (remaining st). i < length (weights st) \<and> i < length (bound st))
     \<and> (\<forall>j\<in>set targets. j < length (items st) \<and> j < length (filled st) \<and> j < length (allocated st))"

lemma in_enumerate:
  "p \<in> set (enumerate 0 xs) \<Longrightarrow> fst p < length xs \<and> snd p = xs ! fst p \<and> snd p \<in> set xs"
  by (cases p) (auto simp: in_set_enumerate_eq)

lemma agrees_load:
  assumes "snd p \<in> set ts"
  shows "agrees (indices_ok st ts) (load_at st ts p) (Inr (load_of st ts (fst p) (snd p)))"
proof -
  let ?ok = "indices_ok st ts"
  have pen: "agrees ?ok (penalty_at st i j) (Inr (penalty_of st i j))"
    if "i \<in> set (remaining st)" "j \<in> set ts" for i j
    using that unfolding penalty_at_def penalty_of_def
    by (intro agrees_bindI [OF agrees_index [of _ i "bound st"]])
      (auto simp: indices_ok_def split: option.split intro!: agrees_bindI [OF agrees_index [of _ j "items st"]])
  have "agrees ?ok (load_at st ts p) (Inr (fold (\<lambda>q acc.
      Add acc (Scale (weights st ! snd q + penalty_of st (snd q) (snd p)) (Var (y_var (length ts) (fst q) (fst p)))))
      (enumerate 0 (remaining st)) (Const 0)))"
    unfolding load_at_def
  proof (rule agrees_foldR)
    fix q acc
    assume "q \<in> set (enumerate 0 (remaining st))"
    then have "snd q \<in> set (remaining st)"
      by (simp add: in_enumerate)
    then show "agrees ?ok (bindR (penalty_at st (snd q) (snd p)) (\<lambda>pen. bindR (index_at (weights st) (snd q)) (\<lambda>w.
        Inr (Add acc (Scale (w + pen) (Var (y_var (length ts) (fst q) (fst p))))))))
      (Inr (Add acc (Scale (weights st ! snd q + penalty_of st (snd q) (snd p)) (Var (y_var (length ts) (fst q) (fst p))))))"
      using assms by (intro agrees_bindI [OF pen] agrees_bindI [OF agrees_index]) (auto simp: indices_ok_def)
  qed
  then show ?thesis
    by (simp add: load_of_def split_def)
qed

definition plain_loads :: "('w::{zero,plus}, 'v, 't) State \<Rightarrow> nat list \<Rightarrow> 'w expr list" where
  "plain_loads st ts = map (\<lambda>p. load_of st ts (fst p) (snd p)) (enumerate 0 ts)"

lemma agrees_loads: "agrees (indices_ok st ts) (loads_at st ts) (Inr (plain_loads st ts))"
proof -
  have "agrees (indices_ok st ts) (mapR (load_at st ts) (enumerate 0 ts))
      (mapR (\<lambda>p. Inr (load_of st ts (fst p) (snd p))) (enumerate 0 ts))"
    by (rule agrees_mapR, rule agrees_load) (simp add: in_enumerate)
  then show ?thesis by (simp add: loads_at_def plain_loads_def)
qed

lemma plain_loads_nth [simp]:
  "length (plain_loads st ts) = length ts"
  "col < length ts \<Longrightarrow> plain_loads st ts ! col = load_of st ts col (ts ! col)"
  by (simp_all add: plain_loads_def nth_enumerate_eq)

lemma agrees_load_index:
  "p \<in> set (enumerate 0 ts) \<Longrightarrow>
     agrees ok (index_at (plain_loads st ts) (fst p)) (Inr (load_of st ts (fst p) (snd p)))"
  using agrees_index [of ok "fst p" "plain_loads st ts"] by (auto dest!: in_enumerate)

lemma agrees_range:
  assumes "p \<in> set (enumerate 0 (solver_items s))"
  shows "agrees (indices_ok st (solver_items s)) (item_range st s (plain_loads st (solver_items s)) p)
    (plain_range st s (fst p) (snd p))"
proof -
  let ?ok = "indices_ok st (solver_items s)"
  have j: "snd p \<in> set (solver_items s)"
    using in_enumerate [OF assms] by simp
  have f: "agrees ?ok (index_at (filled st) (snd p)) (Inr (filled st ! snd p))"
    and it: "agrees ?ok (index_at (items st) (snd p)) (Inr (items st ! snd p))"
    using j by (auto intro!: agrees_index simp: indices_ok_def)
  have lower: "agrees ?ok (if use_min s then bindR (index_at (items st) (snd p)) (\<lambda>it.
          Inr (case min_weight (item_resource it) of Some m \<Rightarrow> [GreaterEq l (Const m)] | None \<Rightarrow> [])) else Inr [])
      (Inr (case (use_min s, min_weight (item_resource (items st ! snd p))) of
          (True, Some m) \<Rightarrow> [GreaterEq l (Const m)] | _ \<Rightarrow> []))" for l
    by (cases "use_min s") (auto intro!: agrees_bindI [OF it] split: option.split)
  show ?thesis
    unfolding item_range_def plain_range_def Let_def
    by (rule agrees_bindI [OF f], rule agrees_bindI [OF agrees_load_index [OF assms]], rule agrees_bindI [OF lower],
        cases "use_max s") (auto intro!: agrees_bindI [OF it] split: option.split)
qed

lemma plain_range_list_mapR:
  "plain_range_list st s ps = bindR (mapR (\<lambda>p. plain_range st s (fst p) (snd p)) ps) (\<lambda>css. Inr (concat css))"
  by (induction ps) (auto simp: bindR_def split: sum.splits)

lemma agrees_ranges:
  "agrees (indices_ok st (solver_items s)) (range_constraints st s (plain_loads st (solver_items s)))
     (plain_range_constraints st s)"
  unfolding range_constraints_def plain_range_constraints_def plain_range_list_mapR
  by (rule agrees_bind [OF agrees_mapR]) (simp_all add: agrees_range)

lemma agrees_share:
  assumes "p \<in> set (enumerate 0 ts)"
  shows "agrees (indices_ok st ts) (share_at as_f64 st (plain_loads st ts) p)
    (Inr (Div (Add (Const (filled st ! snd p)) (load_of st ts (fst p) (snd p)))
      (as_f64 (weight (item_resource (items st ! snd p))))))"
  unfolding share_at_def
  by (rule agrees_bindI [OF agrees_index], use in_enumerate [OF assms] in \<open>simp add: indices_ok_def\<close>,
      rule agrees_bindI [OF agrees_index], use in_enumerate [OF assms] in \<open>simp add: indices_ok_def\<close>,
      rule agrees_bindI [OF agrees_load_index [OF assms]]) simp

lemma agrees_deviation:
  "agrees (indices_ok st ts) (deviation_constraints as_f64 st (plain_loads st ts) ts d)
     (Inr (plain_deviation_constraints as_f64 st ts d))"
proof -
  let ?ok = "indices_ok st ts" and ?load = "plain_loads st ts"
  let ?e = "\<lambda>p. Div (Add (Const (filled st ! snd p)) (load_of st ts (fst p) (snd p)))
      (as_f64 (weight (item_resource (items st ! snd p))))"
  let ?cs = "\<lambda>e1 p2. [LessEq (Sub e1 (?e p2)) (Var d), LessEq (Sub (?e p2) e1) (Var d)]"
  have inner: "agrees ?ok (mapR (\<lambda>p2. bindR (share_at as_f64 st ?load p2) (\<lambda>e2.
      Inr [LessEq (Sub e1 e2) (Var d), LessEq (Sub e2 e1) (Var d)])) (enumerate 0 ts))
    (Inr (map (?cs e1) (enumerate 0 ts)))" for e1
    unfolding mapR_Inr [symmetric]
    by (rule agrees_mapR, rule agrees_bindI [OF agrees_share]) simp_all
  have "agrees ?ok (mapR (\<lambda>p1. bindR (share_at as_f64 st ?load p1) (\<lambda>e1.
        bindR (mapR (\<lambda>p2. bindR (share_at as_f64 st ?load p2) (\<lambda>e2.
          Inr [LessEq (Sub e1 e2) (Var d), LessEq (Sub e2 e1) (Var d)])) (enumerate 0 ts))
        (\<lambda>css. Inr (concat css)))) (enumerate 0 ts))
    (Inr (map (\<lambda>p1. concat (map (?cs (?e p1)) (enumerate 0 ts))) (enumerate 0 ts)))"
    unfolding mapR_Inr [symmetric, of _ "enumerate 0 ts"]
    by (rule agrees_mapR, rule agrees_bindI [OF agrees_share], assumption, rule agrees_bindI [OF inner]) simp
  then show ?thesis
    unfolding deviation_constraints_def
    by (rule agrees_bindI) (simp add: plain_deviation_constraints_def split_def Let_def)
qed

lemma agrees_problem:
  "agrees (indices_ok st (solver_items s)) (build_problem as_f64 st s) (plain_problem as_f64 st s)"
proof -
  let ?ts = "solver_items s"
  let ?ok = "indices_ok st ?ts"
  have obj: "agrees ?ok (foldR (\<lambda>col acc. bindR (index_at (plain_loads st ?ts) col) (\<lambda>l. Inr (Add acc l)))
        [0..<length ?ts] (Const 0))
      (Inr (fold (\<lambda>col acc. Add acc (load_of st ?ts col (?ts ! col))) [0..<length ?ts] (Const 0)))"
  proof (rule agrees_foldR)
    fix col acc
    assume "col \<in> set [0..<length ?ts]"
    then show "agrees ?ok (bindR (index_at (plain_loads st ?ts) col) (\<lambda>l. Inr (Add acc l)))
        (Inr (Add acc (load_of st ?ts col (?ts ! col))))"
      by (intro agrees_bindI [OF agrees_index]) simp_all
  qed
  have ranges: "agrees ?ok (if use_min s \<or> use_max s then range_constraints st s (plain_loads st ?ts) else Inr [])
      (if use_min s \<or> use_max s then plain_range_constraints st s else Inr [])"
    by (simp add: agrees_ranges)
  have "agrees ?ok (build_problem as_f64 st s)
      (bindR (if use_min s \<or> use_max s then plain_range_constraints st s else Inr []) (\<lambda>rs.
        case solver_direction s of
          Maximisation \<Rightarrow> Inr
            \<lparr>prob_variables = replicate (length (remaining st) * length ?ts) Binary, prob_direction = Maximisation,
             prob_objective = fold (\<lambda>col acc. Add acc (load_of st ?ts col (?ts ! col))) [0..<length ?ts] (Const 0),
             prob_constraints = bind_constraints (use_all s) (length (remaining st)) (length ?ts) @ rs\<rparr>
        | Minimisation \<Rightarrow> Inr
            \<lparr>prob_variables = replicate (length (remaining st) * length ?ts) Binary @ [AtLeast 0],
             prob_direction = Minimisation, prob_objective = Var (length (remaining st) * length ?ts),
             prob_constraints = bind_constraints (use_all s) (length (remaining st)) (length ?ts) @ rs
               @ plain_deviation_constraints as_f64 st ?ts (length (remaining st) * length ?ts)\<rparr>))"
    unfolding build_problem_def Let_def
    by (rule agrees_bindI [OF agrees_loads], rule agrees_bind [OF ranges])
      (auto intro!: agrees_bindI [OF obj] agrees_bindI [OF agrees_deviation] split: direction.split)
  then show ?thesis
    by (simp add: plain_problem_def bindR_def Let_def)
qed

lemma agrees_store:
  "agrees (\<forall>(i, j)\<in>set ps. i < length (weights st) \<and> j < length (allocated st) \<and> j < length (filled st))
     (foldR assign_at ps st) (Inr (fold (\<lambda>(i, j). assign i j) ps st))"
proof (induction ps arbitrary: st)
  case (Cons p ps)
  obtain i j where p: "p = (i, j)" by force
  let ?ok = "\<forall>(i, j)\<in>set (p # ps). i < length (weights st) \<and> j < length (allocated st) \<and> j < length (filled st)"
  have one: "agrees ?ok (assign_at (i, j) st) (Inr (assign i j st))"
    unfolding assign_at_def Let_def prod.case
    by (intro agrees_bindI [OF agrees_index]) (auto simp: p assign_def)
  have "agrees ?ok (foldR assign_at ps (assign i j st)) (Inr (fold (\<lambda>(i, j). assign i j) ps (assign i j st)))"
    by (rule agrees_mono [OF Cons.IH]) (auto simp: assign_def)
  with one p show ?case by (simp add: agrees_bindI)
qed simp

lemma chosen_in: "(i, j) \<in> set (chosen sol n rows ts) \<Longrightarrow> i \<in> set rows \<and> j \<in> set ts"
  by (force simp: chosen_def List.map_filter_def in_set_enumerate_eq split: if_splits)

lemma agrees_store_solution:
  "agrees (indices_ok st ts) (store_solution sol ts st) (Inr (plain_store sol ts st))"
  unfolding store_solution_def plain_store_def
  by (rule agrees_mono [OF agrees_store]) (auto simp: indices_ok_def dest!: chosen_in)

lemma agrees_solve:
  "agrees (indices_ok st (solver_items s)) (solve as_f64 lp s st) (plain_solve as_f64 lp s st)"
proof -
  have "plain_solve as_f64 lp s st =
      (if remaining st = [] \<or> solver_items s = [] then Inr (False, st)
       else bindR (plain_problem as_f64 st s) (\<lambda>p.
         case lp p of
           Solution sol \<Rightarrow> Inr (True, plain_store sol (solver_items s) st)
         | Infeasible \<Rightarrow> Inr (False, st)
         | Unsolved e \<Rightarrow> Inl (Resolution e)))"
    by (simp add: plain_solve_def bindR_def)
  then show ?thesis
    by (auto simp: solve_def intro!: agrees_bind [OF agrees_problem] agrees_bindI [OF agrees_store_solution]
        split: answer.split)
qed

lemma solve_plain: "solve as_f64 lp s st = Inr r \<Longrightarrow> plain_solve as_f64 lp s st = Inr r"
  using agrees_solve [of st s as_f64 lp] by (auto simp: agrees_def)

lemma solve_checked:
  "indices_ok st (solver_items s) \<Longrightarrow> solve as_f64 lp s st = plain_solve as_f64 lp s st"
  using agrees_solve [of st s as_f64 lp] by (auto simp: agrees_def)

lemma bindR_Inr_iff: "bindR r f = Inr b \<longleftrightarrow> (\<exists>a. r = Inr a \<and> f a = Inr b)"
  by (cases r) simp_all

lemma build_tiers_eq:
  assumes "\<forall>j\<in>set ts. j < length its"
  shows "build_tiers its ts = Inr (tier_lists its ts)"
proof -
  have "agrees True (build_tiers its ts) (Inr (tier_lists its ts))"
    unfolding build_tiers_def tier_lists_def
  proof (rule agrees_bindI [OF agrees_foldR])
    fix j and tiers :: "(int \<times> nat list) list"
    assume "j \<in> set ts"
    with assms show "agrees True (bindR (index_at (map (\<lambda>it. priority (item_resource it)) its) j) (\<lambda>p.
          Inr (bt_insert p (unwrap_or [] (bt_get tiers p) @ [j]) tiers)))
        (Inr (let p = priority (item_resource (its ! j)) in bt_insert p (unwrap_or [] (bt_get tiers p) @ [j]) tiers))"
      by (intro agrees_bindI [OF agrees_index]) (simp_all add: Let_def)
  qed simp
  then show ?thesis by (simp add: agrees_def)
qed

lemma tiers_of_eq:
  "\<forall>j\<in>set ts. j < length (items st) \<Longrightarrow>
     tiers_of as_f64 lp ts st = solve_tiers as_f64 lp (tier_lists (items st) ts) st"
  by (simp add: tiers_of_def build_tiers_eq)

section \<open>Allocations\<close>

text \<open>All resources an item holds or that remain, as a multiset: no step may lose or duplicate
  one.\<close>

definition handed_out :: "('w, 'v, 't) State \<Rightarrow> nat list" where
  "handed_out st = concat (allocated st) @ remaining st"

definition state_ok :: "('w, 'v, 't) State \<Rightarrow> bool" where
  "state_ok st \<longleftrightarrow> distinct (handed_out st) \<and> length (allocated st) = length (items st)
     \<and> length (filled st) = length (items st)"

lemma mset_concat_update:
  "j < length xss \<Longrightarrow> mset (concat (xss[j := xss ! j @ [x]])) = add_mset x (mset (concat xss))"
proof (induction xss arbitrary: j)
  case (Cons xs xss)
  then show ?case by (cases j) auto
qed simp

lemma removeAll_mset:
  "distinct xs \<Longrightarrow> i \<in> set xs \<Longrightarrow> add_mset i (mset (removeAll i xs)) = mset xs"
  by (simp add: distinct_remove1_removeAll [symmetric])

lemma assign_simps [simp]:
  "length (allocated (assign i j st)) = length (allocated st)"
  "length (filled (assign i j st)) = length (filled st)"
  "items (assign i j st) = items st" "bound (assign i j st) = bound st" "weights (assign i j st) = weights st"
  "remaining (assign i j st) = removeAll i (remaining st)"
  by (simp_all add: assign_def)

lemma handed_out_assign:
  assumes "distinct (remaining st)" "i \<in> set (remaining st)" "j < length (allocated st)"
  shows "mset (handed_out (assign i j st)) = mset (handed_out st)"
  using mset_concat_update [OF assms(3), of i] removeAll_mset [OF assms(1,2)]
  by (simp add: handed_out_def assign_def)

lemma fold_assign_simps:
  "items (fold (\<lambda>(i, j). assign i j) ps st) = items st"
  "bound (fold (\<lambda>(i, j). assign i j) ps st) = bound st"
  "weights (fold (\<lambda>(i, j). assign i j) ps st) = weights st"
  "length (allocated (fold (\<lambda>(i, j). assign i j) ps st)) = length (allocated st)"
  "length (filled (fold (\<lambda>(i, j). assign i j) ps st)) = length (filled st)"
  by (induction ps arbitrary: st) auto

lemma fold_assign_remaining:
  "remaining (fold (\<lambda>(i, j). assign i j) ps st) = filter (\<lambda>i. i \<notin> fst ` set ps) (remaining st)"
proof (induction ps arbitrary: st)
  case (Cons p ps)
  show ?case
    by (cases p) (auto simp: Cons.IH removeAll_filter_not_eq intro: filter_cong)
qed simp

lemma handed_out_fold:
  assumes "distinct (remaining st)" "distinct (map fst ps)"
    "fst ` set ps \<subseteq> set (remaining st)" "\<forall>(i, j)\<in>set ps. j < length (allocated st)"
  shows "mset (handed_out (fold (\<lambda>(i, j). assign i j) ps st)) = mset (handed_out st)"
  using assms
proof (induction ps arbitrary: st)
  case (Cons p ps)
  obtain i j where p: "p = (i, j)" by force
  have "mset (handed_out (fold (\<lambda>(i, j). assign i j) ps (assign i j st))) = mset (handed_out (assign i j st))"
    using Cons.prems p by (intro Cons.IH) (auto simp: distinct_removeAll)
  with handed_out_assign [of st i j] Cons.prems p show ?case by simp
qed simp

section \<open>Sound solvers\<close>

primrec eval_expr :: "(nat \<Rightarrow> 'w::field) \<Rightarrow> 'w expr \<Rightarrow> 'w" where
  "eval_expr v (Const c) = c"
| "eval_expr v (Var n) = v n"
| "eval_expr v (Add a b) = eval_expr v a + eval_expr v b"
| "eval_expr v (Sub a b) = eval_expr v a - eval_expr v b"
| "eval_expr v (Scale c a) = c * eval_expr v a"
| "eval_expr v (Div a c) = eval_expr v a / c"

fun holds :: "(nat \<Rightarrow> 'w::linordered_field) \<Rightarrow> 'w lp_constraint \<Rightarrow> bool" where
  "holds v (LessEq a b) = (eval_expr v a \<le> eval_expr v b)"
| "holds v (GreaterEq a b) = (eval_expr v a \<ge> eval_expr v b)"
| "holds v (Equal a b) = (eval_expr v a = eval_expr v b)"

fun allowed :: "'w::linordered_field variable \<Rightarrow> 'w \<Rightarrow> bool" where
  "allowed Binary x = (x = 0 \<or> x = 1)"
| "allowed (AtLeast m) x = (m \<le> x)"

definition feasible :: "'w::linordered_field problem \<Rightarrow> (nat \<Rightarrow> 'w) \<Rightarrow> bool" where
  "feasible p v \<longleftrightarrow>
     (\<forall>n<length (prob_variables p). allowed (prob_variables p ! n) (v n))
     \<and> (\<forall>c\<in>set (prob_constraints p). holds v c)"

text \<open>What the code relies on: a solution satisfies the constraints.\<close>

definition sound_solver :: "'w::linordered_field lp_solver \<Rightarrow> bool" where
  "sound_solver lp \<longleftrightarrow> (\<forall>p v. lp p = Solution v \<longrightarrow> feasible p v)"

lemma eval_fold_add:
  "eval_expr v (fold (\<lambda>x acc. Add acc (f x)) xs a) = eval_expr v a + sum_list (map (\<lambda>x. eval_expr v (f x)) xs)"
  by (induction xs arbitrary: a) (simp_all add: add.assoc)

lemma eval_fold_add_pair:
  "eval_expr v (fold (\<lambda>(r, i) acc. Add acc (f r i)) xs a)
     = eval_expr v a + sum_list (map (\<lambda>(r, i). eval_expr v (f r i)) xs)"
  by (induction xs arbitrary: a) (auto simp: add.assoc)

lemma count_ones:
  fixes s :: "'x \<Rightarrow> 'w::linordered_field"
  shows "\<forall>x\<in>set xs. s x = 0 \<or> s x = 1 \<Longrightarrow>
     of_nat (length (filter (\<lambda>x. s x > 1 / (1 + 1)) xs)) = sum_list (map s xs)"
proof (induction xs)
  case (Cons x xs)
  have "\<not> (0::'w) > 1 / (1 + 1)" "(1::'w) > 1 / (1 + 1)"
    by simp_all
  with Cons show ?case by auto
qed simp

definition row_choices :: "(nat \<Rightarrow> 'w::{one,plus,inverse,ord}) \<Rightarrow> nat \<Rightarrow> nat \<Rightarrow> nat list \<Rightarrow> nat \<Rightarrow> (nat \<times> nat) list" where
  "row_choices sol n_j row targets i = List.map_filter
     (\<lambda>(col, j). if sol (y_var n_j row col) > 1 / (1 + 1) then Some (i, j) else None) (enumerate 0 targets)"

lemma chosen_rows:
  "chosen sol n_j rows targets = concat (map (\<lambda>(row, i). row_choices sol n_j row targets i) (enumerate 0 rows))"
  by (simp add: chosen_def row_choices_def)

lemma length_map_filter_pred:
  "length (List.map_filter (\<lambda>(c, j). if P c then Some (f c j) else None) (zip cs js))
     = length (filter P (take (length js) cs))"
proof (induction cs arbitrary: js)
  case (Cons c cs)
  then show ?case by (cases js) (auto simp: List.map_filter_simps)
qed (simp add: List.map_filter_simps)

lemma length_row_choices:
  "length (row_choices sol n_j row targets i)
     = length (filter (\<lambda>col. sol (y_var n_j row col) > 1 / (1 + 1)) [0..<length targets])"
  unfolding row_choices_def enumerate_eq_zip by (subst length_map_filter_pred) simp

lemma row_choices_in: "(i', j) \<in> set (row_choices sol n_j row targets i) \<Longrightarrow> i' = i \<and> j \<in> set targets"
  by (auto simp: row_choices_def List.map_filter_def in_set_enumerate_eq split: if_splits)

text \<open>The choices of a feasible solution: at most one target for each resource, exactly one when all
  must be used.\<close>

lemma y_var_less: "row < n_i \<Longrightarrow> col < n_j \<Longrightarrow> y_var n_j row col < n_i * n_j"
proof -
  assume a: "row < n_i" "col < n_j"
  then have "row * n_j + col < (row + 1) * n_j" by simp
  also have "\<dots> \<le> n_i * n_j" using a by (intro mult_right_mono) simp_all
  finally show ?thesis by (simp add: y_var_def)
qed

lemma build_problem_shape:
  assumes "plain_problem as_f64 st s = Inr p"
  shows "set (bind_constraints (use_all s) (length (remaining st)) (length (solver_items s))) \<subseteq> set (prob_constraints p)"
    and "take (length (remaining st) * length (solver_items s)) (prob_variables p)
      = replicate (length (remaining st) * length (solver_items s)) Binary"
    and "length (remaining st) * length (solver_items s) \<le> length (prob_variables p)"
  using assms
  by (auto simp: plain_problem_def Let_def split: sum.splits direction.splits)

lemma feasible_rows:
  fixes v :: "nat \<Rightarrow> 'w::linordered_field"
  assumes p: "plain_problem as_f64 st s = Inr p" and v: "feasible p v" and row: "row < length (remaining st)"
  shows "\<forall>col\<in>set [0..<length (solver_items s)]. v (y_var (length (solver_items s)) row col) = 0
      \<or> v (y_var (length (solver_items s)) row col) = 1"
    and "sum_list (map (\<lambda>col. v (y_var (length (solver_items s)) row col)) [0..<length (solver_items s)]) \<le> 1"
    and "use_all s \<Longrightarrow>
      sum_list (map (\<lambda>col. v (y_var (length (solver_items s)) row col)) [0..<length (solver_items s)]) = 1"
proof -
  let ?n = "length (solver_items s)" and ?m = "length (remaining st)"
  show "\<forall>col\<in>set [0..<?n]. v (y_var ?n row col) = 0 \<or> v (y_var ?n row col) = 1"
  proof
    fix col
    assume "col \<in> set [0..<?n]"
    then have y: "y_var ?n row col < ?m * ?n"
      using y_var_less [OF row] by simp
    then have "prob_variables p ! y_var ?n row col = Binary"
      using build_problem_shape(2) [OF p] by (metis nth_replicate nth_take)
    moreover have "y_var ?n row col < length (prob_variables p)"
      using y build_problem_shape(3) [OF p] by simp
    ultimately show "v (y_var ?n row col) = 0 \<or> v (y_var ?n row col) = 1"
      using v by (metis allowed.simps(1) feasible_def)
  qed
  let ?e = "fold (\<lambda>col acc. Add acc (Var (y_var ?n row col))) [0..<?n] (Const 0)"
  have "(if use_all s then Equal ?e (Const 1) else LessEq ?e (Const 1)) \<in> set (bind_constraints (use_all s) ?m ?n)"
    using row by (auto simp: bind_constraints_def Let_def)
  with build_problem_shape(1) [OF p] v
  have h: "holds v (if use_all s then Equal ?e (Const 1) else LessEq ?e (Const 1))"
    unfolding feasible_def by blast
  have e: "eval_expr v ?e = sum_list (map (\<lambda>col. v (y_var ?n row col)) [0..<?n])"
    by (simp add: eval_fold_add)
  show "sum_list (map (\<lambda>col. v (y_var ?n row col)) [0..<?n]) \<le> 1"
    using h by (cases "use_all s") (simp_all add: e)
  show "use_all s \<Longrightarrow> sum_list (map (\<lambda>col. v (y_var ?n row col)) [0..<?n]) = 1"
    using h by (simp add: e)
qed

lemma feasible_choices:
  fixes v :: "nat \<Rightarrow> 'w::linordered_field"
  assumes p: "plain_problem as_f64 st s = Inr p" and v: "feasible p v" and row: "row < length (remaining st)"
  shows "length (row_choices v (length (solver_items s)) row (solver_items s) i) \<le> 1"
    and "use_all s \<Longrightarrow> length (row_choices v (length (solver_items s)) row (solver_items s) i) = 1"
proof -
  have c: "(of_nat (length (row_choices v (length (solver_items s)) row (solver_items s) i)) :: 'w)
    = sum_list (map (\<lambda>col. v (y_var (length (solver_items s)) row col)) [0..<length (solver_items s)])"
    unfolding length_row_choices by (rule count_ones) (rule feasible_rows(1) [OF p v row])
  have "(of_nat (length (row_choices v (length (solver_items s)) row (solver_items s) i)) :: 'w) \<le> of_nat 1"
    unfolding c using feasible_rows(2) [OF p v row] by simp
  then show "length (row_choices v (length (solver_items s)) row (solver_items s) i) \<le> 1"
    by (simp only: of_nat_le_iff)
  assume "use_all s"
  then have "(of_nat (length (row_choices v (length (solver_items s)) row (solver_items s) i)) :: 'w) = of_nat 1"
    unfolding c using feasible_rows(3) [OF p v row] by simp
  then show "length (row_choices v (length (solver_items s)) row (solver_items s) i) = 1"
    by (simp only: of_nat_eq_iff)
qed

text \<open>Pairing each row with at most one choice keeps the resources distinct.\<close>

lemma distinct_row_pairs:
  assumes "distinct rows" and "\<forall>(r, i)\<in>set (enumerate n rows). length (g r i) \<le> 1"
    and "\<forall>(r, i)\<in>set (enumerate n rows). \<forall>q\<in>set (g r i). fst q = i"
  shows "distinct (map fst (concat (map (\<lambda>(r, i). g r i) (enumerate n rows))))
    \<and> fst ` set (concat (map (\<lambda>(r, i). g r i) (enumerate n rows))) \<subseteq> set rows"
  using assms
proof (induction rows arbitrary: n)
  case (Cons i rows)
  define R where "R = concat (map (\<lambda>(r, i). g r i) (enumerate (Suc n) rows))"
  have "distinct (map fst R) \<and> fst ` set R \<subseteq> set rows"
    unfolding R_def using Cons.prems by (intro Cons.IH) auto
  moreover have c: "concat (map (\<lambda>(r, i). g r i) (enumerate n (i # rows))) = g n i @ R"
    by (simp add: R_def)
  moreover have "g n i = [] \<or> (\<exists>q. g n i = [q] \<and> fst q = i)"
    using Cons.prems(2,3) by (cases "g n i"; cases "tl (g n i)") auto
  ultimately show ?case using Cons.prems(1) unfolding c by auto
qed simp

lemma chosen_pairs:
  fixes v :: "nat \<Rightarrow> 'w::linordered_field"
  assumes p: "plain_problem as_f64 st s = Inr p" and v: "feasible p v" and d: "distinct (remaining st)"
  defines "ps \<equiv> chosen v (length (solver_items s)) (remaining st) (solver_items s)"
  shows "distinct (map fst ps)" and "fst ` set ps \<subseteq> set (remaining st)"
    and "\<forall>(i, j)\<in>set ps. j \<in> set (solver_items s)"
    and "use_all s \<Longrightarrow> fst ` set ps = set (remaining st)"
proof -
  let ?g = "\<lambda>r i. row_choices v (length (solver_items s)) r (solver_items s) i"
  have len: "length (?g r i) \<le> 1" if "(r, i) \<in> set (enumerate 0 (remaining st))" for r i
    using that feasible_choices(1) [OF p v] by (auto simp: in_set_enumerate_eq)
  have one: "length (?g r i) = 1" if "use_all s" "(r, i) \<in> set (enumerate 0 (remaining st))" for r i
    using that feasible_choices(2) [OF p v] by (auto simp: in_set_enumerate_eq)
  have fst: "fst q = i" if "q \<in> set (?g r i)" for r i q
    using that row_choices_in [of "fst q" "snd q" v "length (solver_items s)" r "solver_items s" i] by simp
  have "distinct (map fst ps) \<and> fst ` set ps \<subseteq> set (remaining st)"
    unfolding ps_def chosen_rows by (rule distinct_row_pairs [OF d]) (use len fst in auto)
  then show dist: "distinct (map fst ps)" and sub: "fst ` set ps \<subseteq> set (remaining st)" by auto
  show "\<forall>(i, j)\<in>set ps. j \<in> set (solver_items s)"
    unfolding ps_def chosen_rows using row_choices_in by fastforce
  assume all: "use_all s"
  have "i \<in> fst ` set ps" if "i \<in> set (remaining st)" for i
  proof -
    obtain r where "r < length (remaining st)" "remaining st ! r = i"
      using \<open>i \<in> set (remaining st)\<close> by (auto simp: in_set_conv_nth)
    then have r: "(r, i) \<in> set (enumerate 0 (remaining st))"
      by (simp add: in_set_enumerate_eq)
    obtain q where "q \<in> set (?g r i)"
      using one [OF all r] by (cases "?g r i") auto
    with r fst [OF this] show ?thesis
      unfolding ps_def chosen_rows by force
  qed
  with sub show "fst ` set ps = set (remaining st)" by auto
qed

section \<open>Scheduling keeps the allocation\<close>

text \<open>What a step of the scheduler keeps: the resources handed out, the locks, the items.\<close>

definition extends :: "('w, 'v, 't) State \<Rightarrow> ('w, 'v, 't) State \<Rightarrow> bool" where
  "extends st st' \<longleftrightarrow>
     mset (handed_out st') = mset (handed_out st) \<and> state_ok st'
     \<and> items st' = items st \<and> bound st' = bound st \<and> weights st' = weights st
     \<and> set (remaining st') \<subseteq> set (remaining st)
     \<and> (\<forall>j<length (items st). set (allocated st ! j) \<subseteq> set (allocated st' ! j))"

lemma extends_refl: "state_ok st \<Longrightarrow> extends st st"
  by (simp add: extends_def)

lemma extends_trans: "extends st st' \<Longrightarrow> extends st' st'' \<Longrightarrow> extends st st''"
  by (auto simp: extends_def) blast+

lemma allocated_fold_mono:
  "set (allocated st ! j) \<subseteq> set (allocated (fold (\<lambda>(i, j). assign i j) ps st) ! j)"
proof (induction ps arbitrary: st)
  case (Cons p ps)
  obtain i j' where p: "p = (i, j')" by force
  have "set (allocated st ! j) \<subseteq> set (allocated (assign i j' st) ! j)"
    by (cases "j' < length (allocated st)") (auto simp: assign_def nth_list_update list_update_beyond)
  with Cons.IH [of "assign i j' st"] p show ?case by auto
qed simp

lemma store_solution_extends:
  fixes v :: "nat \<Rightarrow> 'w::linordered_field"
  assumes ok: "state_ok st" and p: "plain_problem as_f64 st s = Inr p" and v: "feasible p v"
    and tgt: "\<forall>j\<in>set (solver_items s). j < length (items st)"
  shows "extends st (plain_store v (solver_items s) st)"
    and "use_all s \<Longrightarrow> remaining (plain_store v (solver_items s) st) = []"
proof -
  define ps where "ps = chosen v (length (solver_items s)) (remaining st) (solver_items s)"
  have d: "distinct (remaining st)"
    using ok by (simp add: state_ok_def handed_out_def)
  note pairs = chosen_pairs [OF p v d, folded ps_def]
  have len: "length (allocated st) = length (items st)"
    using ok by (simp add: state_ok_def)
  have "mset (handed_out (fold (\<lambda>(i, j). assign i j) ps st)) = mset (handed_out st)"
    by (rule handed_out_fold [OF d pairs(1,2)]) (use pairs(3) tgt len in auto)
  moreover from this have "distinct (handed_out (fold (\<lambda>(i, j). assign i j) ps st))"
    using ok by (simp add: state_ok_def distinct_count_atmost_1 set_mset_mset [symmetric] del: set_mset_mset)
  ultimately show "extends st (plain_store v (solver_items s) st)"
    using ok allocated_fold_mono [of st _ ps]
    by (auto simp: plain_store_def ps_def [symmetric] extends_def state_ok_def fold_assign_simps
        fold_assign_remaining)
  show "use_all s \<Longrightarrow> remaining (plain_store v (solver_items s) st) = []"
    using pairs(4) by (simp add: plain_store_def ps_def [symmetric] fold_assign_remaining filter_empty_conv)
qed

lemma solve_extends:
  fixes st :: "('w::linordered_field, 'v, 't) State"
  assumes "solve as_f64 lp s st = Inr (b, st')" and "sound_solver lp" and "state_ok st"
    and "\<forall>j\<in>set (solver_items s). j < length (items st)"
  shows "extends st st'"
  using solve_plain [OF assms(1)] assms(2,3) store_solution_extends(1) [OF assms(3) _ _ assms(4)]
  by (auto simp: plain_solve_def sound_solver_def extends_refl split: if_splits sum.splits answer.splits)

lemma build_tiers_mset: "mset (concat (tier_lists its ts)) = mset ts"
proof -
  let ?f = "\<lambda>j tiers. let p = priority (item_resource (its ! j))
                in bt_insert p (unwrap_or [] (bt_get tiers p) @ [j]) tiers"
  have ins: "mset (concat (map snd (bt_insert p (unwrap_or [] (bt_get m p) @ [j]) m)))
      = add_mset j (mset (concat (map snd m)))" if "bt_sorted m" for p j and m :: "(int \<times> nat list) list"
    using that
  proof (induction m)
    case (Cons e m)
    have "bt_get m p = None" if "p \<le> fst e"
    proof (rule ccontr)
      assume "bt_get m p \<noteq> None"
      then have "p \<in> fst ` set m"
        by (simp add: bt_get_def map_of_eq_None_iff)
      with Cons.prems that show False by (auto simp: bt_sorted_def)
    qed
    with Cons show ?case
      by (auto simp: bt_get_def bt_sorted_def split: prod.splits)
  qed (simp add: bt_get_def)
  have "bt_sorted (fold ?f ts m) \<and> mset (concat (map snd (fold ?f ts m))) = mset ts + mset (concat (map snd m))"
    if "bt_sorted m" for m
    using that by (induction ts arbitrary: m) (auto simp: ins bt_sorted_insert Let_def)
  from this [of "[]"] show ?thesis by (simp add: tier_lists_def bt_sorted_Nil)
qed

lemma build_tiers_in: "t \<in> set (tier_lists its ts) \<Longrightarrow> j \<in> set t \<Longrightarrow> j \<in> set ts"
  using build_tiers_mset [of its ts] by (metis UN_I mset_eq_setD set_concat)

lemma solve_tiers_extends:
  fixes st :: "('w::linordered_field, 'v, 't) State"
  assumes "solve_tiers as_f64 lp tiers st = Inr st'" and "sound_solver lp" and "state_ok st"
    and "\<forall>t\<in>set tiers. \<forall>j\<in>set t. j < length (items st)"
  shows "extends st st'"
  using assms
proof (induction tiers arbitrary: st)
  case Nil
  then show ?case by (simp add: extends_refl)
next
  case (Cons t tiers)
  obtain ok st1 where s1: "solve as_f64 lp \<lparr>solver_direction = Maximisation, solver_items = t,
      use_all = False, use_max = True, use_min = True\<rparr> st = Inr (ok, st1)"
    using Cons.prems(1) by (auto split: sum.splits)
  have e: "extends st st1"
    using solve_extends [OF s1 Cons.prems(2,3)] Cons.prems(4) by simp
  show ?case
  proof (cases ok)
    case False
    with Cons.prems(1) s1 e show ?thesis by simp
  next
    case True
    with Cons.prems(1) s1 have "solve_tiers as_f64 lp tiers st1 = Inr st'" by simp
    then have "extends st1 st'"
      using Cons.prems e by (intro Cons.IH) (auto simp: extends_def)
    with e show ?thesis by (rule extends_trans)
  qed
qed

section \<open>Prefilling\<close>

definition locked_by :: "nat PoolResource \<Rightarrow> nat option" where
  "locked_by r = (if res_state r = Preparing then res_claim r else None)"

definition keeps_shape :: "('w, 'v, 't) State \<Rightarrow> ('w, 'v, 't) State \<Rightarrow> bool" where
  "keeps_shape st st' \<longleftrightarrow>
     items st' = items st \<and> bound st' = bound st \<and> weights st' = weights st
     \<and> length (allocated st') = length (allocated st) \<and> length (filled st') = length (filled st)
     \<and> (\<forall>j. set (allocated st ! j) \<subseteq> set (allocated st' ! j))
     \<and> set (remaining st) \<subseteq> set (remaining st')"

text \<open>A locked resource is with its item, any other remains.\<close>

definition placed :: "nat \<Rightarrow> ('w, 'v, 't) State \<Rightarrow> nat \<Rightarrow> nat PoolResource \<Rightarrow> bool" where
  "placed n st i r =
     (case locked_by r of
        Some j \<Rightarrow> j < n \<and> i \<in> set (allocated st ! j)
      | None \<Rightarrow> i \<in> set (remaining st))"

lemma placed_mono: "placed n st i r \<Longrightarrow> keeps_shape st st' \<Longrightarrow> placed n st' i r"
  by (auto simp: placed_def keeps_shape_def split: option.splits)

lemma prefill_one_shape:
  assumes "prefill_one (i, r) st = Inr st'"
  shows "keeps_shape st st' \<and> mset (handed_out st') = add_mset i (mset (handed_out st))
    \<and> placed (length (allocated st)) st' i r"
proof (cases "locked_by r")
  case None
  then have "st' = st\<lparr>remaining := remaining st @ [i]\<rparr>"
    using assms by (auto simp: prefill_one_def locked_by_def bindR_Inr_iff index_at_def split: option.splits CommitState.splits if_splits)
  with None show ?thesis by (auto simp: keeps_shape_def handed_out_def placed_def)
next
  case (Some j)
  then have j: "j < length (allocated st)"
    and st': "st' = st\<lparr>allocated := (allocated st)[j := allocated st ! j @ [i]],
                filled := (filled st)[j := filled st ! j + weights st ! i]\<rparr>"
    using assms by (auto simp: prefill_one_def locked_by_def bindR_Inr_iff index_at_def split: option.splits CommitState.splits if_splits)
  have "set (allocated st ! k) \<subseteq> set (allocated st' ! k)" for k
    using j by (cases "k = j") (auto simp: st')
  moreover have "mset (handed_out st') = add_mset i (mset (handed_out st))"
    using mset_concat_update [OF j, of i] by (simp add: st' handed_out_def)
  ultimately show ?thesis using j Some by (simp add: keeps_shape_def st' placed_def)
qed

lemma keeps_shape_trans: "keeps_shape a b \<Longrightarrow> keeps_shape b c \<Longrightarrow> keeps_shape a c"
  unfolding keeps_shape_def by (auto, blast+)

lemma prefill_shape:
  assumes "prefill ps st = Inr st'"
  shows "keeps_shape st st' \<and> mset (handed_out st') = mset (handed_out st) + mset (map fst ps)
    \<and> (\<forall>(i, r)\<in>set ps. placed (length (allocated st)) st' i r)"
  using assms
proof (induction ps arbitrary: st)
  case Nil
  then show ?case by (simp add: keeps_shape_def)
next
  case (Cons p ps)
  obtain i r where p: "p = (i, r)" by force
  obtain st1 where st1: "prefill_one (i, r) st = Inr st1" "prefill ps st1 = Inr st'"
    using Cons.prems p by (auto split: sum.splits)
  have 1: "keeps_shape st st1" "mset (handed_out st1) = add_mset i (mset (handed_out st))"
    "placed (length (allocated st)) st1 i r"
    using prefill_one_shape [OF st1(1)] by auto
  have len: "length (allocated st1) = length (allocated st)"
    using 1(1) by (simp add: keeps_shape_def)
  have 2: "keeps_shape st1 st'" "mset (handed_out st') = mset (handed_out st1) + mset (map fst ps)"
    "\<forall>(i, r)\<in>set ps. placed (length (allocated st)) st' i r"
    using Cons.IH [OF st1(2)] unfolding len by auto
  with 1(2) keeps_shape_trans [OF 1(1) 2(1)] placed_mono [OF 1(3) 2(1)] p show ?case by simp
qed

text \<open>The state before the problems are solved.\<close>

lemma prefilled_ok:
  assumes "prefill (enumerate 0 bnd) (initial_state its bnd ws) = Inr st"
  shows "state_ok st" and "items st = its" and "weights st = flatten_weights ws" and "bound st = bnd"
    and "mset (handed_out st) = mset [0..<length bnd]"
    and "\<And>i. i < length bnd \<Longrightarrow> placed (length its) st i (bnd ! i)"
proof -
  have init: "handed_out (initial_state its bnd ws) = []"
    by (simp add: handed_out_def initial_state_def)
  note shape = prefill_shape [OF assms]
  then show m: "mset (handed_out st) = mset [0..<length bnd]"
    by (simp add: init)
  then have "distinct (handed_out st)"
    by (metis distinct_upt mset_eq_imp_distinct_iff)
  with shape show "state_ok st" by (simp add: state_ok_def keeps_shape_def initial_state_def)
  show "items st = its" "weights st = flatten_weights ws" "bound st = bnd"
    using shape by (simp_all add: keeps_shape_def initial_state_def)
  have len: "length (allocated (initial_state its bnd ws)) = length its"
    by (simp add: initial_state_def)
  show "placed (length its) st i (bnd ! i)" if "i < length bnd" for i
  proof -
    have "(i, bnd ! i) \<in> set (enumerate 0 bnd)"
      using that by (simp add: in_set_enumerate_eq)
    with shape show ?thesis unfolding len by blast
  qed
qed

lemma targets_less:
  "\<forall>j\<in>set (best_effort its). j < length its" "\<forall>j\<in>set (burstable its). j < length its"
  "\<forall>j\<in>set (guaranteed its). j < length its"
  by (auto simp: best_effort_def burstable_def guaranteed_def)

lemma best_effort_extends:
  fixes st :: "('w::linordered_field, 'v, 't) State"
  assumes "solve_best_effort as_f64 lp be st = Inr st'" and "sound_solver lp" and "state_ok st"
    and "\<forall>j\<in>set be. j < length (items st)"
  shows "extends st st'"
proof (cases "remaining st \<noteq> [] \<and> be \<noteq> []")
  case True
  then obtain b where "solve as_f64 lp \<lparr>solver_direction = Minimisation, solver_items = be, use_all = True,
      use_max = False, use_min = False\<rparr> st = Inr (b, st')"
    using assms(1) by (auto simp: solve_best_effort_def split: sum.splits)
  from solve_extends [OF this assms(2,3)] assms(4) show ?thesis by simp
next
  case False
  with assms(1,3) show ?thesis by (simp add: solve_best_effort_def extends_refl)
qed

lemma schedule_state_extends:
  fixes its :: "('w::linordered_field, 'v, 't) Item list"
  assumes "schedule_state as_f64 lp its bnd ws = Inr st'" and "sound_solver lp"
  obtains st where "prefill (enumerate 0 bnd) (initial_state its bnd ws) = Inr st" and "extends st st'"
proof -
  obtain st st1 st2 where st: "prefill (enumerate 0 bnd) (initial_state its bnd ws) = Inr st"
    and tiers1: "tiers_of as_f64 lp (guaranteed its) st = Inr st1"
    and tiers2: "tiers_of as_f64 lp (burstable its) st1 = Inr st2"
    and st3: "solve_best_effort as_f64 lp (best_effort its) st2 = Inr st'"
    using assms(1) by (auto simp: schedule_state_def bindR_Inr_iff)
  note ok = prefilled_ok [OF st]
  have st1: "solve_tiers as_f64 lp (tier_lists its (guaranteed its)) st = Inr st1"
    using tiers1 ok(2) by (simp add: tiers_of_eq targets_less)
  have e1: "extends st st1"
    by (rule solve_tiers_extends [OF st1 assms(2) ok(1)])
       (use targets_less(3) [of its] ok(2) build_tiers_in in blast)
  then have i1: "state_ok st1" "items st1 = its" using ok(2) by (auto simp: extends_def)
  have st2: "solve_tiers as_f64 lp (tier_lists its (burstable its)) st1 = Inr st2"
    using tiers2 i1(2) by (simp add: tiers_of_eq targets_less)
  have e2: "extends st1 st2"
    by (rule solve_tiers_extends [OF st2 assms(2) i1(1)])
       (use targets_less(2) [of its] i1(2) build_tiers_in in blast)
  then have i2: "state_ok st2" "items st2 = its" using i1(2) by (auto simp: extends_def)
  have "extends st2 st'"
    by (rule best_effort_extends [OF st3 assms(2) i2(1)]) (use targets_less i2(2) in auto)
  with e1 e2 have "extends st st'" by (blast intro: extends_trans)
  with st that show thesis by blast
qed

section \<open>Indices stay in range\<close>

definition is_panic :: "schedule_error + 'a \<Rightarrow> bool" where
  "is_panic r = (case r of Inl (SchedulePanic _) \<Rightarrow> True | _ \<Rightarrow> False)"

definition in_range :: "('w, 'v, 't) State \<Rightarrow> bool" where
  "in_range st \<longleftrightarrow> (\<forall>i\<in>set (remaining st). i < length (weights st) \<and> i < length (bound st))
     \<and> length (allocated st) = length (items st) \<and> length (filled st) = length (items st)"

lemma in_range_indices:
  "in_range st \<Longrightarrow> \<forall>j\<in>set ts. j < length (items st) \<Longrightarrow> indices_ok st ts"
  by (auto simp: in_range_def indices_ok_def)

lemma not_panic_bindR:
  "\<not> is_panic r \<Longrightarrow> (\<And>a. r = Inr a \<Longrightarrow> \<not> is_panic (f a)) \<Longrightarrow> \<not> is_panic (bindR r f)"
  by (cases r) (auto simp: is_panic_def split: schedule_error.splits)

lemma not_panic_bind:
  "\<not> is_panic r \<Longrightarrow> (\<And>a. r = Inr a \<Longrightarrow> \<not> is_panic (f a)) \<Longrightarrow>
     \<not> is_panic (case r of Inl e \<Rightarrow> Inl e | Inr a \<Rightarrow> f a)"
  by (cases r) (auto simp: is_panic_def split: schedule_error.splits)

lemma item_range_total:
  "min_weight (item_resource (items st ! j)) \<noteq> None \<Longrightarrow> \<exists>cs. plain_range st s col j = Inr cs"
  by (auto simp: plain_range_def Let_def split: option.splits)

lemma range_list_total:
  "\<forall>p\<in>set ps. min_weight (item_resource (items st ! snd p)) \<noteq> None \<Longrightarrow> \<exists>cs. plain_range_list st s ps = Inr cs"
proof (induction ps)
  case (Cons p ps)
  then obtain cs ds where "plain_range st s (fst p) (snd p) = Inr cs" "plain_range_list st s ps = Inr ds"
    using item_range_total [of st "snd p" s "fst p"] by auto
  then show ?case by simp
qed simp

lemma range_constraints_total:
  assumes "\<forall>j\<in>set (solver_items s). min_weight (item_resource (items st ! j)) \<noteq> None"
  shows "\<exists>cs. plain_range_constraints st s = Inr cs"
  unfolding plain_range_constraints_def
  by (rule range_list_total) (use assms in \<open>auto simp: in_set_enumerate_eq\<close>)

lemma solve_range:
  assumes "in_range st" and "\<forall>j\<in>set (solver_items s). j < length (items st)"
    and "use_min s \<or> use_max s \<Longrightarrow> \<forall>j\<in>set (solver_items s). min_weight (item_resource (items st ! j)) \<noteq> None"
  shows "\<not> is_panic (solve as_f64 lp s st)"
    and "solve as_f64 lp s st = Inr (b, st') \<Longrightarrow> in_range st' \<and> items st' = items st"
proof -
  note plain = solve_checked [OF in_range_indices [OF assms(1,2)]]
  have "\<exists>p. plain_problem as_f64 st s = Inr p"
    using assms(3) range_constraints_total [of s st]
    by (auto simp: plain_problem_def Let_def split: direction.splits)
  then show "\<not> is_panic (solve as_f64 lp s st)"
    by (auto simp: plain plain_solve_def is_panic_def split: answer.splits)
  show "solve as_f64 lp s st = Inr (b, st') \<Longrightarrow> in_range st' \<and> items st' = items st"
    using assms(1)
    by (auto simp: plain plain_solve_def plain_store_def fold_assign_simps fold_assign_remaining in_range_def
        split: if_splits sum.splits answer.splits)
qed

lemma solve_tiers_range:
  assumes "in_range st" and "\<forall>t\<in>set tiers. \<forall>j\<in>set t. j < length (items st)"
    and "\<forall>t\<in>set tiers. \<forall>j\<in>set t. min_weight (item_resource (items st ! j)) \<noteq> None"
  shows "\<not> is_panic (solve_tiers as_f64 lp tiers st)
    \<and> (\<forall>st'. solve_tiers as_f64 lp tiers st = Inr st' \<longrightarrow> in_range st' \<and> items st' = items st)"
  using assms
proof (induction tiers arbitrary: st)
  case (Cons t tiers)
  let ?s = "\<lparr>solver_direction = Maximisation, solver_items = t, use_all = False, use_max = True, use_min = True\<rparr>"
  have t: "\<forall>j\<in>set t. j < length (items st)" "\<forall>j\<in>set t. min_weight (item_resource (items st ! j)) \<noteq> None"
    using Cons.prems(2,3) by simp_all
  have t': "\<forall>j\<in>set (solver_items ?s). j < length (items st)"
    "\<forall>j\<in>set (solver_items ?s). min_weight (item_resource (items st ! j)) \<noteq> None"
    by (simp_all add: t)
  note 1 = solve_range [OF Cons.prems(1) t'(1) t'(2), of as_f64 lp]
  show ?case
  proof (cases "solve as_f64 lp ?s st")
    case (Inl e)
    with 1(1) show ?thesis by (simp add: is_panic_def)
  next
    case (Inr r)
    then obtain b st1 where r: "solve as_f64 lp ?s st = Inr (b, st1)" by (cases r) simp
    with 1(2) have "in_range st1" "items st1 = items st" by blast+
    then have "\<not> is_panic (solve_tiers as_f64 lp tiers st1)
        \<and> (\<forall>st'. solve_tiers as_f64 lp tiers st1 = Inr st' \<longrightarrow> in_range st' \<and> items st' = items st1)"
      using Cons.prems(2,3) by (intro Cons.IH) auto
    with r \<open>in_range st1\<close> \<open>items st1 = items st\<close> show ?thesis
      by (cases b) (simp_all add: is_panic_def)
  qed
qed (simp add: is_panic_def)

lemma tiers_of_range:
  assumes "in_range st" and "\<forall>j\<in>set ts. j < length (items st) \<and> min_weight (item_resource (items st ! j)) \<noteq> None"
  shows "\<not> is_panic (tiers_of as_f64 lp ts st)"
    and "tiers_of as_f64 lp ts st = Inr st' \<Longrightarrow> in_range st' \<and> items st' = items st"
  using solve_tiers_range [OF assms(1), of "tier_lists (items st) ts" as_f64 lp] assms(2) build_tiers_in
  by (metis tiers_of_eq)+

lemma prefill_range:
  assumes "\<forall>(i, r)\<in>set ps. i < length (weights st) \<and> i < length (bound st)
      \<and> (\<forall>j. locked_by r = Some j \<longrightarrow> j < length (items st))"
    and "in_range st"
  shows "\<exists>st'. prefill ps st = Inr st' \<and> in_range st' \<and> items st' = items st"
  using assms
proof (induction ps arbitrary: st)
  case (Cons p ps)
  obtain i r where p: "p = (i, r)" by force
  have "\<exists>st1. prefill_one (i, r) st = Inr st1 \<and> in_range st1 \<and> items st1 = items st
      \<and> weights st1 = weights st \<and> bound st1 = bound st"
    using Cons.prems p
    by (auto simp: prefill_one_def locked_by_def in_range_def index_at_def split: option.splits CommitState.splits)
  then obtain st1 where st1: "prefill_one (i, r) st = Inr st1" "in_range st1" "items st1 = items st"
    "weights st1 = weights st" "bound st1 = bound st" by blast
  have "\<exists>st'. prefill ps st1 = Inr st' \<and> in_range st' \<and> items st' = items st1"
    using Cons.prems(1) st1 by (intro Cons.IH) auto
  with st1 p show ?case by auto
qed simp

lemma best_effort_range:
  assumes "in_range st" and "\<forall>j\<in>set be. j < length (items st)"
  shows "\<not> is_panic (solve_best_effort as_f64 lp be st)"
  using solve_range(1) [OF assms(1), of "\<lparr>solver_direction = Minimisation, solver_items = be, use_all = True,
      use_max = False, use_min = False\<rparr>" as_f64 lp] assms(2)
  by (auto simp: solve_best_effort_def is_panic_def split: sum.splits prod.splits)

lemma shape_solve:
  "solve as_f64 lp s st = Inr (b, st') \<Longrightarrow> items st' = items st \<and> length (allocated st') = length (allocated st)"
  by (drule solve_plain)
    (auto simp: plain_solve_def plain_store_def fold_assign_simps split: if_splits sum.splits answer.splits)

lemma shape_solve_tiers:
  "solve_tiers as_f64 lp tiers st = Inr st' \<Longrightarrow> items st' = items st \<and> length (allocated st') = length (allocated st)"
  by (induction tiers arbitrary: st) (auto split: sum.splits if_splits dest: shape_solve)

lemma shape_tiers_of:
  "tiers_of as_f64 lp ts st = Inr st' \<Longrightarrow> items st' = items st \<and> length (allocated st') = length (allocated st)"
  by (auto simp: tiers_of_def bindR_Inr_iff dest: shape_solve_tiers)

lemma shape_prefill:
  "prefill ps st = Inr st' \<Longrightarrow> items st' = items st \<and> length (allocated st') = length (allocated st)"
  using prefill_shape by (auto simp: keeps_shape_def)

lemma shape_best_effort:
  "solve_best_effort as_f64 lp be st = Inr st' \<Longrightarrow> items st' = items st \<and> length (allocated st') = length (allocated st)"
  by (auto simp: solve_best_effort_def split: sum.splits if_splits dest: shape_solve)

lemma shape_schedule_state:
  assumes "schedule_state as_f64 lp its bnd ws = Inr st"
  shows "items st = its \<and> length (allocated st) = length its"
proof -
  obtain st0 st1 st2 where "prefill (enumerate 0 bnd) (initial_state its bnd ws) = Inr st0"
    and "tiers_of as_f64 lp (guaranteed its) st0 = Inr st1" and "tiers_of as_f64 lp (burstable its) st1 = Inr st2"
    and "solve_best_effort as_f64 lp (best_effort its) st2 = Inr st"
    using assms by (auto simp: schedule_state_def bindR_Inr_iff)
  from shape_prefill [OF this(1)] shape_tiers_of [OF this(2)] shape_tiers_of [OF this(3)] shape_best_effort [OF this(4)]
  show ?thesis by (simp add: initial_state_def)
qed

section \<open>Collecting\<close>

definition somes :: "'s option list \<Rightarrow> 's list" where
  "somes rs = List.map_filter id rs"

lemma somes_update_None:
  "i < length rs \<Longrightarrow> mset (somes rs) = (case rs ! i of None \<Rightarrow> {#} | Some s \<Rightarrow> {#s#}) + mset (somes (rs[i := None]))"
proof (induction rs arbitrary: i)
  case (Cons r rs)
  then show ?case
    by (cases i) (auto simp: somes_def List.map_filter_simps split: option.splits)
qed simp

lemma take_resources_mset:
  "mset (somes rs) = mset (fst (take_resources is rs)) + mset (somes (snd (take_resources is rs)))"
proof (induction "is" arbitrary: rs)
  case (Cons i "is")
  show ?case
    using Cons.IH [of "snd (take_resource i rs)"] somes_update_None [of i rs]
    by (auto simp: take_resource_def split: prod.splits option.splits)
qed simp

lemma collect_items_mset:
  "\<exists>left. mset (somes rs) = mset (concat (map scheduled_resources (collect_items ps rs))) + left"
proof (induction ps arbitrary: rs)
  case (Cons p ps)
  obtain out rs1 where t: "take_resources (snd p) rs = (out, rs1)" by force
  obtain left where "mset (somes rs1) = mset (concat (map scheduled_resources (collect_items ps rs1))) + left"
    using Cons.IH by blast
  with take_resources_mset [of rs "snd p"] t show ?case by (intro exI [of _ left]) simp
qed simp

lemma length_collect_items: "length (collect_items ps rs) = length ps"
  by (induction ps arbitrary: rs) (auto split: prod.splits)

text \<open>What each item takes: its resources that are still there.\<close>

lemma all_less_Suc_shift: "(\<forall>k<Suc n. P k) \<longleftrightarrow> P 0 \<and> (\<forall>k<n. P (Suc k))"
  using less_Suc_eq_0_disj by auto

lemma take_resource_left:
  "length (snd (take_resource k rs)) = length rs"
  "i < length rs \<Longrightarrow> snd (take_resource k rs) ! i = (if i = k then None else rs ! i)"
  by (auto simp: take_resource_def nth_list_update)

lemma snd_take_resources:
  "snd (take_resources (k # is) rs) = snd (take_resources is (snd (take_resource k rs)))"
  by (simp split: prod.splits)

lemma take_resources_length: "length (snd (take_resources is rs)) = length rs"
  by (induction "is" arbitrary: rs)
    (simp_all add: snd_take_resources take_resource_left(1) del: take_resources.simps(2))

lemma take_resources_left:
  "i < length rs \<Longrightarrow> snd (take_resources is rs) ! i = (if i \<in> set is then None else rs ! i)"
  by (induction "is" arbitrary: rs)
    (simp_all add: snd_take_resources take_resource_left del: take_resources.simps(2))

lemma take_resources_taken:
  "set (fst (take_resources is rs)) = {s. \<exists>i\<in>set is. i < length rs \<and> rs ! i = Some s}"
proof (induction "is" arbitrary: rs)
  case (Cons i "is")
  have step: "set (fst (take_resources (i # is) rs)) =
      set_option (fst (take_resource i rs)) \<union> set (fst (take_resources is (snd (take_resource i rs))))"
    by (auto split: prod.splits option.splits)
  show ?case
  proof (cases "i < length rs")
    case True
    then have r: "take_resource i rs = (rs ! i, rs[i := None])" by (simp add: take_resource_def)
    have "(k < length (rs[i := None]) \<and> rs[i := None] ! k = Some s) \<longleftrightarrow> (k < length rs \<and> k \<noteq> i \<and> rs ! k = Some s)" for k s
      using True by (cases "k = i") auto
    then have "set (fst (take_resources (i # is) rs)) =
        {s. rs ! i = Some s} \<union> {s. \<exists>k\<in>set is. k < length rs \<and> k \<noteq> i \<and> rs ! k = Some s}"
      unfolding step r fst_conv snd_conv Cons.IH by (auto simp: elem_set)
    with True show ?thesis by auto
  next
    case False
    then have "take_resource i rs = (None, rs)" by (simp add: take_resource_def)
    with False show ?thesis unfolding step by (auto simp: Cons.IH)
  qed
qed simp

lemma collect_items_spec:
  assumes "k < length ps"
  shows "set (scheduled_resources (collect_items ps rs ! k)) =
    {s. \<exists>i\<in>set (snd (ps ! k)). i < length rs \<and> rs ! i = Some s \<and> (\<forall>k'<k. i \<notin> set (snd (ps ! k')))}"
  using assms
proof (induction ps arbitrary: rs k)
  case (Cons p ps)
  let ?rs1 = "snd (take_resources (snd p) rs)"
  have step: "collect_items (p # ps) rs ! 0 = \<lparr>scheduled_item = item_item (fst p),
      scheduled_lifecycle = lifecycle (claim_spec (item_claim (fst p))),
      scheduled_priority = priority (item_resource (fst p)),
      scheduled_resources = fst (take_resources (snd p) rs)\<rparr>"
    "\<And>n. collect_items (p # ps) rs ! Suc n = collect_items ps ?rs1 ! n"
    by (simp_all split: prod.splits)
  show ?case
  proof (cases k)
    case 0
    then show ?thesis by (simp add: step take_resources_taken del: collect_items.simps)
  next
    case (Suc n)
    have left: "(i < length ?rs1 \<and> ?rs1 ! i = Some s) \<longleftrightarrow> (i < length rs \<and> rs ! i = Some s \<and> i \<notin> set (snd p))" for i s
      using take_resources_length [of "snd p" rs] take_resources_left [of i rs "snd p"] by auto
    have "n < length ps" using Cons.prems Suc by simp
    then have "set (scheduled_resources (collect_items ps ?rs1 ! n)) =
        {s. \<exists>i\<in>set (snd (ps ! n)). (i < length ?rs1 \<and> ?rs1 ! i = Some s) \<and> (\<forall>m<n. i \<notin> set (snd (ps ! m)))}"
      unfolding conj_assoc by (rule Cons.IH)
    then show ?thesis
      unfolding left Suc step(2) all_less_Suc_shift nth_Cons_0 nth_Cons_Suc by blast
  qed
qed simp

lemma collect_items_items:
  "map (\<lambda>x. (scheduled_item x, scheduled_lifecycle x, scheduled_priority x)) (collect_items ps rs)
   = map (\<lambda>p. (item_item (fst p), lifecycle (claim_spec (item_claim (fst p))), priority (item_resource (fst p)))) ps"
  by (induction ps arbitrary: rs) (auto split: prod.splits)

lemma somes_map_Some [simp]: "somes (map Some xs) = xs"
  by (induction xs) (simp_all add: somes_def List.map_filter_simps)

section \<open>What the items are filled with\<close>

definition weight_for :: "'w::monoid_add list \<Rightarrow> nat \<Rightarrow> (nat \<times> nat) list \<Rightarrow> 'w" where
  "weight_for ws j ps = sum_list (map (\<lambda>(i, _). ws ! i) (filter (\<lambda>q. snd q = j) ps))"

lemma filled_fold_assign:
  assumes "j < length (filled st)"
  shows "filled (fold (\<lambda>(i, j). assign i j) ps st) ! j = filled st ! j + weight_for (weights st) j ps"
  using assms
proof (induction ps arbitrary: st)
  case (Cons p ps)
  obtain i j' where p: "p = (i, j')" by force
  have "filled (assign i j' st) ! j = filled st ! j + (if j' = j then weights st ! i else 0)"
    using Cons.prems by (simp add: assign_def nth_list_update)
  with Cons p show ?case by (simp add: weight_for_def add.assoc)
qed (simp add: weight_for_def)

lemma filter_row:
  assumes "distinct ts" and "col < length ts"
  shows "filter (\<lambda>q. snd q = ts ! col)
      (List.map_filter (\<lambda>(c, j). if P c then Some (i, j) else None) (enumerate n ts))
    = (if P (n + col) then [(i, ts ! col)] else [])"
  using assms
proof (induction ts arbitrary: n col)
  case (Cons t ts)
  have notin: "filter (\<lambda>q. snd q = t) (List.map_filter (\<lambda>(c, j). if P c then Some (i, j) else None)
      (enumerate m ts)) = []" for m
    using Cons.prems(1)
    by (auto simp: filter_empty_conv List.map_filter_def in_set_enumerate_eq split: if_splits)
  show ?case
  proof (cases col)
    case 0
    with notin show ?thesis by (simp add: List.map_filter_simps)
  next
    case (Suc c)
    have "t \<noteq> ts ! c" using Cons.prems Suc by auto
    with Cons.IH [of c "Suc n"] Cons.prems Suc show ?thesis by (simp add: List.map_filter_simps)
  qed
qed simp

lemma weight_for_chosen:
  fixes v :: "nat \<Rightarrow> 'w::linordered_field"
  assumes "distinct ts" and "col < length ts"
  shows "weight_for ws (ts ! col) (chosen v n_j rows ts) =
    sum_list (map (\<lambda>(row, i). if v (y_var n_j row col) > 1 / (1 + 1) then ws ! i else 0) (enumerate 0 rows))"
proof -
  have row: "filter (\<lambda>q. snd q = ts ! col) (row_choices v n_j r ts i)
      = (if v (y_var n_j r col) > 1 / (1 + 1) then [(i, ts ! col)] else [])" for r i
    unfolding row_choices_def using filter_row [OF assms, of "\<lambda>c. v (y_var n_j r c) > 1 / (1 + 1)" i 0] by simp
  have "weight_for ws (ts ! col) (concat (map (\<lambda>(r, i). row_choices v n_j r ts i) xs)) =
      sum_list (map (\<lambda>(r, i). if v (y_var n_j r col) > 1 / (1 + 1) then ws ! i else 0) xs)" for xs
    by (induction xs) (auto simp: weight_for_def row)
  then show ?thesis by (simp add: chosen_rows)
qed

lemma eval_load:
  "eval_expr v (load_of st targets col j) = sum_list (map (\<lambda>(row, i).
     (weights st ! i + penalty_of st i j) * v (y_var (length targets) row col)) (enumerate 0 (remaining st)))"
  by (simp add: load_of_def eval_fold_add_pair)

lemma range_list_in:
  "plain_range_list st s ps = Inr cs \<Longrightarrow> p \<in> set ps \<Longrightarrow>
     \<exists>ds. plain_range st s (fst p) (snd p) = Inr ds \<and> set ds \<subseteq> set cs"
  by (induction ps arbitrary: cs) (force split: sum.splits)+

lemma build_problem_ranges:
  assumes "plain_problem as_f64 st s = Inr p" and "use_min s" and "col < length (solver_items s)"
  shows "\<exists>ds. plain_range st s col (solver_items s ! col) = Inr ds \<and> set ds \<subseteq> set (prob_constraints p)"
proof -
  obtain rs where r: "plain_range_constraints st s = Inr rs"
    using assms(1,2) by (auto simp: plain_problem_def Let_def split: sum.splits)
  with assms(1,2) have rs: "set rs \<subseteq> set (prob_constraints p)"
    by (auto simp: plain_problem_def Let_def split: direction.splits)
  have "(col, solver_items s ! col) \<in> set (enumerate 0 (solver_items s))"
    using assms(3) by (simp add: in_set_enumerate_eq)
  with range_list_in [OF r [unfolded plain_range_constraints_def]] rs show ?thesis
    by fastforce
qed

text \<open>Without penalties, the load the constraints bound is what the item is filled with.\<close>

lemma filled_solution:
  fixes v :: "nat \<Rightarrow> 'w::linordered_field"
  assumes p: "plain_problem as_f64 st s = Inr p" and v: "feasible p v"
    and d: "distinct (solver_items s)" and col: "col < length (solver_items s)"
    and len: "solver_items s ! col < length (filled st)"
    and pen: "\<forall>i\<in>set (remaining st). penalty_of st i (solver_items s ! col) = 0"
  shows "filled (plain_store v (solver_items s) st) ! (solver_items s ! col)
    = eval_expr v (Add (Const (filled st ! (solver_items s ! col)))
        (load_of st (solver_items s) col (solver_items s ! col)))"
proof -
  let ?n = "length (solver_items s)"
  have bin: "v (y_var ?n row col) = 0 \<or> v (y_var ?n row col) = 1" if "row < length (remaining st)" for row
    using feasible_rows(1) [OF p v that] col by simp
  have half: "\<not> (0::'w) > 1 / (1 + 1)" "(1::'w) > 1 / (1 + 1)"
    by simp_all
  have "(if v (y_var ?n row col) > 1 / (1 + 1) then weights st ! i else 0)
      = (weights st ! i + penalty_of st i (solver_items s ! col)) * v (y_var ?n row col)"
    if "(row, i) \<in> set (enumerate 0 (remaining st))" for row i
    using that bin [of row] pen half by (auto simp: in_set_enumerate_eq)
  then have "map (\<lambda>(row, i). if v (y_var ?n row col) > 1 / (1 + 1) then weights st ! i else 0) (enumerate 0 (remaining st))
    = map (\<lambda>(row, i). (weights st ! i + penalty_of st i (solver_items s ! col)) * v (y_var ?n row col))
        (enumerate 0 (remaining st))"
    by (intro map_cong) auto
  then show ?thesis
    by (simp only: plain_store_def filled_fold_assign [OF len] weight_for_chosen [OF d col] eval_load
        eval_expr.simps)
qed

section \<open>Known weights\<close>

lemma fold_min: "fold (\<lambda>x m. if x < m then x else m) ws (w::'w::linorder) = Min (insert w (set ws))"
proof (induction ws arbitrary: w)
  case (Cons x ws)
  have "(if x < w then x else w) = min w x" by (auto simp: min_def)
  with Cons show ?case
    by (cases "ws = []") (simp_all add: ac_simps)
qed simp

lemma min_of_Min: "ws \<noteq> [] \<Longrightarrow> min_of ws = Some (Min (set (ws :: 'w::linorder list)))"
  by (cases ws) (simp_all add: min_of_def fold_min)

lemma fold_max: "fold (\<lambda>x m. if x < m then m else x) ws (w::'w::linorder) \<in> insert w (set ws)"
proof (induction ws arbitrary: w)
  case (Cons x ws)
  from Cons [of "if w < x then x else w"] show ?case by (auto split: if_splits)
qed simp

lemma max_of_in: "max_of ws = Some m \<Longrightarrow> m \<in> set (ws :: 'w::linorder list)"
  using fold_max by (cases ws) (auto simp: max_of_def)

section \<open>An example solver\<close>

text \<open>Trying all values of the binary variables; the deviation is bounded by 1000.\<close>

definition brute_force :: "rat lp_solver" where
  "brute_force p =
     (let n = length (filter (\<lambda>x. x = Binary) (prob_variables p))
      in case List.find (\<lambda>bs. list_all (\<lambda>k. allowed (prob_variables p ! k) (if k < n then bs ! k else 1000))
                                  [0..<length (prob_variables p)]
                              \<and> list_all (holds (\<lambda>k. if k < n then bs ! k else 1000)) (prob_constraints p))
                (List.n_lists n [0, 1]) of
           None \<Rightarrow> Infeasible
         | Some bs \<Rightarrow> Solution (\<lambda>k. if k < n then bs ! k else 1000))"

lemma brute_force_sound: "sound_solver brute_force"
  by (auto simp: sound_solver_def brute_force_def Let_def feasible_def list_all_iff
      split: option.splits dest!: find_Some_D)

definition rat_of_u64 :: "u64 \<Rightarrow> rat" where
  "rat_of_u64 n = of_int (uint n)"

definition example_item :: "string \<Rightarrow> rat option \<Rightarrow> rat option \<Rightarrow> (rat, unit, unit) Item" where
  "example_item n lo hi = \<lparr>
     item_claim = \<lparr>claim_meta = meta_default\<lparr>meta_name := Some n\<rparr>,
       claim_spec = \<lparr>pool_name = ''pool'', lifecycle = lifecycle_default, resources = settings_default\<rparr>,
       claim_status = None\<rparr>,
     item_resource = resource_default\<lparr>min_weight := lo, max_weight := hi\<rparr>,
     item_item = ()\<rparr>"

definition example_bound :: "nat PoolResource list" where
  "example_bound = [\<lparr>res_claim = Some 0, res_state = Preparing\<rparr>, pool_resource_default]"

lemma example_schedule:
  "map_sum (\<lambda>e. ()) (\<lambda>st. (allocated st, remaining st))
     (schedule_state rat_of_u64 brute_force [example_item ''a'' None None] example_bound [Some 2, None])
   = Inr ([[0, 1]], [])"
  by code_simp

section \<open>Properties\<close>

text \<open>C3.
  With a sound solver no resource is lost or given twice: the resources of the items and the
  remaining ones are together exactly the bound resources, each once, and a resource whose probes
  are running stays with the item it is locked by.\<close>

theorem schedule_partition:
  fixes its :: "('w::linordered_field, 'v, 't) Item list"
  assumes "schedule_state as_f64 lp its bnd ws = Inr st" and "sound_solver lp"
  shows "distinct (concat (allocated st) @ remaining st)
    \<and> set (concat (allocated st) @ remaining st) = {0..<length bnd}
    \<and> (\<forall>i<length bnd. \<forall>j. locked_by (bnd ! i) = Some j \<longrightarrow> i \<in> set (allocated st ! j))"
proof -
  obtain st0 where st0: "prefill (enumerate 0 bnd) (initial_state its bnd ws) = Inr st0" and e: "extends st0 st"
    by (rule schedule_state_extends [OF assms])
  note ok = prefilled_ok [OF st0]
  have m: "mset (handed_out st) = mset [0..<length bnd]"
    using e ok(5) by (simp add: extends_def)
  then have "distinct (handed_out st)" "set (handed_out st) = {0..<length bnd}"
    by (metis distinct_upt mset_eq_imp_distinct_iff) (metis m mset_eq_setD set_upt)
  moreover have "i \<in> set (allocated st ! j)" if "i < length bnd" "locked_by (bnd ! i) = Some j" for i j
    using ok(6) [OF that(1)] that(2) e ok(2) by (auto simp: placed_def extends_def)
  ultimately show ?thesis by (simp add: handed_out_def)
qed

theorem schedule_partition_witness:
  "\<exists>st. schedule_state rat_of_u64 brute_force [example_item ''a'' None None] example_bound [Some 2, None] = Inr st
     \<and> 0 \<in> set (allocated st ! 0)"
proof -
  obtain st where st: "schedule_state rat_of_u64 brute_force [example_item ''a'' None None] example_bound [Some 2, None] = Inr st"
    using example_schedule
    by (cases "schedule_state rat_of_u64 brute_force [example_item ''a'' None None] example_bound [Some 2, None]") auto
  from schedule_partition [OF this brute_force_sound] have "0 \<in> set (allocated st ! 0)"
    by (auto simp: example_bound_def locked_by_def)
  with st show ?thesis by blast
qed

text \<open>C4.
  Whatever the solver answers, the answer lists the items in their order, each with its item, its life
  cycle and its priority, and each resource is handed out at most once: an item gets exactly the
  resources that it has been allocated and that are not allocated to an item before it.  When there
  are no items or no resources the answer is empty.\<close>

theorem schedule_hands_out_once:
  assumes "schedule as_f64 lp its bnd rs = Inr out"
  shows "mset (concat (map scheduled_resources out)) \<subseteq># mset (weighted_items rs)
    \<and> (if its = [] \<or> weighted_items rs = [] then out = []
       else map (\<lambda>x. (scheduled_item x, scheduled_lifecycle x, scheduled_priority x)) out
            = map (\<lambda>it. (item_item it, lifecycle (claim_spec (item_claim it)), priority (item_resource it))) its
         \<and> (\<exists>st. schedule_state as_f64 lp its bnd (weighted_weights rs) = Inr st
            \<and> length (allocated st) = length its
            \<and> (\<forall>k<length its. set (scheduled_resources (out ! k)) =
                 (\<lambda>i. weighted_items rs ! i) ` {i \<in> set (allocated st ! k).
                   i < length (weighted_items rs) \<and> (\<forall>k'<k. i \<notin> set (allocated st ! k'))})))"
proof (cases "its = [] \<or> weighted_items rs = []")
  case True
  with assms show ?thesis by (auto simp: schedule_def split: if_splits)
next
  case False
  then obtain st where "out = collect st rs" and st: "schedule_state as_f64 lp its bnd (weighted_weights rs) = Inr st"
    using assms by (auto simp: schedule_def split: if_splits sum.splits)
  moreover have shape: "items st = its" "length (allocated st) = length its"
    using shape_schedule_state [OF st] by simp_all
  ultimately have out: "out = collect_items (zip its (allocated st)) (map Some (weighted_items rs))"
    by (simp add: collect_def)
  obtain left where m: "mset (weighted_items rs) = mset (concat (map scheduled_resources out)) + left"
    using collect_items_mset [of "map Some (weighted_items rs)" "zip its (allocated st)"] out by auto
  have order: "map (\<lambda>x. (scheduled_item x, scheduled_lifecycle x, scheduled_priority x)) out
      = map (\<lambda>it. (item_item it, lifecycle (claim_spec (item_claim it)), priority (item_resource it))) its"
    by (rule nth_equalityI) (simp_all add: out collect_items_items length_collect_items shape(2))
  have "set (scheduled_resources (out ! k)) = (\<lambda>i. weighted_items rs ! i) ` {i \<in> set (allocated st ! k).
      i < length (weighted_items rs) \<and> (\<forall>k'<k. i \<notin> set (allocated st ! k'))}" if "k < length its" for k
    using collect_items_spec [of k "zip its (allocated st)" "map Some (weighted_items rs)"] that shape(2)
    by (auto simp: out)
  with False m order st shape show ?thesis by auto
qed

definition example_resources :: "(rat, string) WeightedItems" where
  "example_resources = \<lparr>weighted_items = [''r0'', ''r1''], weighted_weights = [Some 2, None]\<rparr>"

lemma example_schedule_out:
  "map_sum (\<lambda>e. ()) (map scheduled_resources)
     (schedule rat_of_u64 brute_force [example_item ''a'' None None] example_bound example_resources)
   = Inr [[''r0'', ''r1'']]"
  by code_simp

theorem schedule_hands_out_once_witness:
  "\<exists>out. schedule rat_of_u64 brute_force [example_item ''a'' None None] example_bound example_resources = Inr out
     \<and> length out = 1"
proof -
  obtain out where out: "schedule rat_of_u64 brute_force [example_item ''a'' None None] example_bound example_resources = Inr out"
    using example_schedule_out
    by (cases "schedule rat_of_u64 brute_force [example_item ''a'' None None] example_bound example_resources") auto
  have "length (weighted_items example_resources) = 2" by (simp add: example_resources_def)
  with schedule_hands_out_once [OF out] have "map (\<lambda>x. (scheduled_item x, scheduled_lifecycle x, scheduled_priority x)) out
      = map (\<lambda>it. (item_item it, lifecycle (claim_spec (item_claim it)), priority (item_resource it)))
          [example_item ''a'' None None]"
    by (auto split: if_splits)
  from arg_cong [OF this, of length] have "length out = 1" by simp
  with out show ?thesis by blast
qed



text \<open>C6.
  A solved problem whose ranges are required fills each of its items to at least its minimum and at
  most its maximum (exactly its minimum when it has no maximum), provided none of the remaining
  resources would move to the item at a penalty.\<close>

theorem solve_meets_ranges:
  fixes st :: "('w::linordered_field, 'v, 't) State"
  assumes "solve as_f64 lp s st = Inr (True, st')" and "sound_solver lp"
    and "use_min s" and "use_max s" and "distinct (solver_items s)"
    and "j \<in> set (solver_items s)" and "j < length (filled st)"
    and "\<forall>i\<in>set (remaining st). penalty_of st i j = 0"
  shows "(\<forall>m. min_weight (item_resource (items st ! j)) = Some m \<longrightarrow> m \<le> filled st' ! j)
    \<and> (case max_weight (item_resource (items st ! j)) of
         Some m \<Rightarrow> filled st' ! j \<le> m
       | None \<Rightarrow> min_weight (item_resource (items st ! j)) = Some (filled st' ! j))"
proof -
  obtain p v where p: "plain_problem as_f64 st s = Inr p" and "lp p = Solution v"
    and st': "st' = plain_store v (solver_items s) st"
    using solve_plain [OF assms(1)] by (auto simp: plain_solve_def split: if_splits sum.splits answer.splits)
  with assms(2) have v: "feasible p v" by (simp add: sound_solver_def)
  obtain col where col: "col < length (solver_items s)" "solver_items s ! col = j"
    using assms(6) by (auto simp: in_set_conv_nth)
  have fill: "filled st' ! j = eval_expr v (Add (Const (filled st ! j)) (load_of st (solver_items s) col j))"
    using filled_solution [OF p v assms(5) col(1)] assms(7,8) col(2) st' by simp
  obtain ds where ds: "plain_range st s col j = Inr ds" "\<forall>c\<in>set ds. holds v c"
    using build_problem_ranges [OF p assms(3) col(1)] v col(2) by (auto simp: feasible_def)
  show ?thesis
    using ds assms(3,4) unfolding fill
    by (auto simp: plain_range_def Let_def split: option.splits)
qed

definition ranged_state :: "(rat, unit, unit) State" where
  "ranged_state = \<lparr>allocated = [[]], bound = [pool_resource_default, pool_resource_default], filled = [0],
     items = [example_item ''a'' (Some 2) (Some 2)], remaining = [0, 1], weights = [2, 3]\<rparr>"

definition ranged_solver :: Solver where
  "ranged_solver = \<lparr>solver_direction = Maximisation, solver_items = [0], use_all = False,
     use_max = True, use_min = True\<rparr>"

lemma ranged_solved:
  "map_sum (\<lambda>e. ()) (map_prod id allocated) (solve rat_of_u64 brute_force ranged_solver ranged_state)
   = Inr (True, [[0]])"
  by code_simp

theorem solve_meets_ranges_witness:
  "\<exists>st'. solve rat_of_u64 brute_force ranged_solver ranged_state = Inr (True, st') \<and> 2 \<le> filled st' ! 0"
proof -
  obtain st' where st': "solve rat_of_u64 brute_force ranged_solver ranged_state = Inr (True, st')"
    using ranged_solved
    by (cases "solve rat_of_u64 brute_force ranged_solver ranged_state") auto
  from solve_meets_ranges [OF st' brute_force_sound, of 0] have "2 \<le> filled st' ! 0"
    by (auto simp: ranged_solver_def ranged_state_def penalty_of_def pool_resource_default_def example_item_def
        split: option.splits)
  with st' show ?thesis by blast
qed

text \<open>A problem that must use all resources and is solved leaves none.\<close>

theorem best_effort_uses_all:
  fixes st :: "('w::linordered_field, 'v, 't) State"
  assumes "solve as_f64 lp s st = Inr (True, st')" and "sound_solver lp" and "use_all s"
    and "state_ok st" and "\<forall>j\<in>set (solver_items s). j < length (items st)"
  shows "remaining st' = [] \<and> mset (concat (allocated st')) = mset (concat (allocated st) @ remaining st)"
proof -
  obtain p v where p: "plain_problem as_f64 st s = Inr p" and "lp p = Solution v"
    and st': "st' = plain_store v (solver_items s) st"
    using solve_plain [OF assms(1)] by (auto simp: plain_solve_def split: if_splits sum.splits answer.splits)
  with assms(2) have v: "feasible p v" by (simp add: sound_solver_def)
  have "remaining st' = []" "mset (handed_out st') = mset (handed_out st)"
    using store_solution_extends [OF assms(4) p v assms(5)] assms(3) st' by (simp_all add: extends_def)
  then show ?thesis by (simp add: handed_out_def)
qed

definition even_solver :: Solver where
  "even_solver = \<lparr>solver_direction = Minimisation, solver_items = [0], use_all = True,
     use_max = False, use_min = False\<rparr>"

lemma even_solved:
  "map_sum (\<lambda>e. ()) (map_prod id allocated) (solve rat_of_u64 brute_force even_solver ranged_state)
   = Inr (True, [[0, 1]])"
  by code_simp

theorem best_effort_uses_all_witness:
  "\<exists>st'. solve rat_of_u64 brute_force even_solver ranged_state = Inr (True, st') \<and> remaining st' = []"
proof -
  obtain st' where st': "solve rat_of_u64 brute_force even_solver ranged_state = Inr (True, st')"
    using even_solved
    by (cases "solve rat_of_u64 brute_force even_solver ranged_state") auto
  from best_effort_uses_all [OF st' brute_force_sound] have "remaining st' = []"
    by (simp add: even_solver_def ranged_state_def state_ok_def handed_out_def)
  with st' show ?thesis by blast
qed

text \<open>The weight given to a resource of unknown weight is not the average of the known weights: as soon
  as these are at least 1 it is the smallest of them.\<close>

theorem unknown_weight_is_minimum:
  fixes ws :: "'w::linordered_field option list"
  assumes "known_weights ws \<noteq> []" and "\<forall>w\<in>set (known_weights ws). 1 \<le> w"
  shows "weights_avg ws = Min (set (known_weights ws))"
proof -
  let ?m = "Min (set (known_weights ws))"
  have m: "?m \<in> set (known_weights ws)" "\<forall>w\<in>set (known_weights ws). ?m \<le> w"
    using assms(1) by simp_all
  have min: "weights_min ws = ?m"
    using assms m by (auto simp: weights_min_def min_of_Min not_less Let_def simp del: Min_less_iff)
  obtain x where x: "max_of (known_weights ws) = Some x"
    using assms(1) by (cases "known_weights ws") (auto simp: max_of_def)
  have "?m \<le> x"
    using m(2) max_of_in [OF x] by blast
  then have "weights_max ws = ?m"
    by (simp add: weights_max_def x min)
  with min show ?thesis by (simp add: weights_avg_def)
qed

theorem unknown_weight_is_minimum_witness: "weights_avg [Some 100, Some 300, None] = (100 :: rat)"
  by (subst unknown_weight_is_minimum) (simp_all add: known_weights_def List.map_filter_simps)

end
