(* ===== verification/Spectrum_Pool.thy ===== *)
theory Spectrum_Pool
  imports Spectrum_Api
begin

text \<open>
  The pool server (\<^verbatim>\<open>crates/openark-spectrum-pool/src\<close>: \<^verbatim>\<open>store.rs\<close>,
  \<^verbatim>\<open>pool.rs\<close>, \<^verbatim>\<open>routes/service.rs\<close>): two tables of a transactional store (the
  claim of each resource, and its commit state), a number of permits for background probes, and
  the probes that are running.  Inserting into a table and committing a transaction may fail
  (\<open>db_faults\<close>); a failed transaction leaves the tables as they were.  Whether a probe succeeds is
  an argument of the step that completes it.
\<close>

section \<open>State\<close>

record 'v probe_task =
  task_key :: string
  task_address :: string
  task_probes :: "'v PoolResourceProbe list"

record 'v pool_state =
  table_claim :: "string \<rightharpoonup> string"
  table_ready :: "string \<rightharpoonup> u8"
  permits :: nat
  tasks :: "'v probe_task list"

record db_faults =
  insert_fails :: "string \<Rightarrow> bool"
  commit_fails :: bool

definition db_error :: error where
  "db_error = Anyhow ''storage error''"

text \<open>\<^verbatim>\<open>StoreArgs::build\<close>: the tables of the file, if there is one; all permits.\<close>

definition build_store ::
  "nat \<Rightarrow> ((string \<rightharpoonup> string) \<times> (string \<rightharpoonup> u8)) option \<Rightarrow> 'v pool_state" where
  "build_store max_pool file =
     (case file of
        None \<Rightarrow> \<lparr>table_claim = Map.empty, table_ready = Map.empty, permits = max_pool, tasks = []\<rparr>
      | Some (c, r) \<Rightarrow> \<lparr>table_claim = c, table_ready = r, permits = max_pool, tasks = []\<rparr>)"

definition faultless :: db_faults where
  "faultless = \<lparr>insert_fails = (\<lambda>_. False), commit_fails = False\<rparr>"

section \<open>Reading\<close>

definition get_resource :: "'v pool_state \<Rightarrow> ObjectReference \<Rightarrow> string PoolResource" where
  "get_resource st key =
     \<lparr>res_claim = table_claim st (object_reference_str key),
      res_state = unwrap_or commit_state_default
        (Option.bind (table_ready st (object_reference_str key)) from_raw)\<rparr>"

definition endpoint_key :: "string \<Rightarrow> string \<Rightarrow> ObjectReference" where
  "endpoint_key namespace name =
     \<lparr>ref_group = ''discovery.k8s.io'', ref_kind = ''Endpoint'', ref_name = name,
      ref_namespace = Some namespace\<rparr>"

definition try_handle :: "'v pool_state \<Rightarrow> PoolRequest \<Rightarrow> PoolResponse" where
  "try_handle st args =
     \<lparr>bound_resources =
        map (\<lambda>name. get_resource st (endpoint_key (req_namespace args) name)) (req_resources args)\<rparr>"

section \<open>Probes\<close>

definition probe_url :: "string \<Rightarrow> 'v PoolResourceHttpProbe \<Rightarrow> string" where
  "probe_url addr p =
     (if probe_secure p then ''https'' else ''http'') @ ''://'' @ addr @ '':'' @ word_str (probe_port p)
       @ probe_path p"

text \<open>An HTTP exchange: the method, the address and the body; true when it succeeds.\<close>

definition execute_probe ::
  "(string \<Rightarrow> string \<Rightarrow> 'v PoolResourceHttpBody option \<Rightarrow> bool) \<Rightarrow> string \<Rightarrow> 'v PoolResourceProbe \<Rightarrow> bool" where
  "execute_probe http addr p =
     (case p of Http q \<Rightarrow> http (http_method (probe_method q)) (probe_url addr q) (probe_body q))"

text \<open>The probes run in order until one fails; true when all succeeded.\<close>

primrec run_probes ::
  "(string \<Rightarrow> string \<Rightarrow> 'v PoolResourceHttpBody option \<Rightarrow> bool) \<Rightarrow> string \<Rightarrow> 'v PoolResourceProbe list \<Rightarrow> bool" where
  "run_probes http addr [] = True"
| "run_probes http addr (p # ps) = (if execute_probe http addr p then run_probes http addr ps else False)"

text \<open>Starting probes takes a permit.\<close>

definition pool_commit ::
  "string \<Rightarrow> string \<Rightarrow> 'v PoolResourceProbe list \<Rightarrow> 'v pool_state \<Rightarrow> CommitState \<times> 'v pool_state" where
  "pool_commit key addr probes st =
     (if permits st = 0 then (Pending, st)
      else (Preparing, st\<lparr>permits := permits st - 1,
              tasks := tasks st @ [\<lparr>task_key = key, task_address = addr, task_probes = probes\<rparr>]\<rparr>))"

text \<open>The background task ends: its callback writes the state of the key in a transaction of its own.\<close>

definition complete_task ::
  "db_faults \<Rightarrow> (string \<Rightarrow> string \<Rightarrow> 'v PoolResourceHttpBody option \<Rightarrow> bool) \<Rightarrow> nat \<Rightarrow> 'v pool_state \<Rightarrow> 'v pool_state" where
  "complete_task D http i st =
     (if i < length (tasks st) then
        (let t = tasks st ! i;
             new = (if run_probes http (task_address t) (task_probes t) then Running else Pending);
             st' = st\<lparr>tasks := take i (tasks st) @ drop (Suc i) (tasks st)\<rparr>
         in if insert_fails D (task_key t) \<or> commit_fails D then st'
            else st'\<lparr>table_ready := (table_ready st)(task_key t \<mapsto> commit_state_raw new)\<rparr>)
      else st)"

section \<open>Committing\<close>

definition put ::
  "db_faults \<Rightarrow> ObjectReference \<Rightarrow> string \<Rightarrow> string \<Rightarrow> 'v PoolResourceLifecycle \<Rightarrow> 'v pool_state \<Rightarrow>
     (error + CommitState) \<times> 'v pool_state" where
  "put D key value addr lc st =
     (let k = object_reference_str key;
          (state, st1) =
            (case pre_start lc of
               [] \<Rightarrow> (Running, st)
             | probes \<Rightarrow> pool_commit k addr probes st)
      in if insert_fails D k then (Inl db_error, st1)
         else (Inr state, st1\<lparr>table_claim := (table_claim st1)(k \<mapsto> value),
                             table_ready := (table_ready st1)(k \<mapsto> commit_state_raw state)\<rparr>))"

record 'v commit_value =
  val_address :: string
  val_claim_name :: string
  val_lifecycle :: "'v PoolResourceLifecycle"
  val_resource :: ObjectReference

type_synonym commit_key = "int \<times> (nat \<times> nat) \<times> string \<times> string"

text \<open>The resources of an item that are not yet claimed by it, with their keys.\<close>

definition item_entries ::
  "'v pool_state \<Rightarrow> nat \<Rightarrow> 'v PoolCommitRequestItem \<Rightarrow> (commit_key \<times> 'v commit_value) list" where
  "item_entries st item_index item =
     (let ns = req_namespace (commit_pool item);
          names = filter (\<lambda>name. res_claim (get_resource st (endpoint_key ns name)) \<noteq> Some (commit_name item))
                    (req_resources (commit_pool item))
      in map (\<lambda>(resource_index, name).
           ((commit_priority item, (resource_index, item_index), commit_name item, name),
            \<lparr>val_address = name, val_claim_name = commit_name item, val_lifecycle = commit_lifecycle item,
             val_resource = endpoint_key ns name\<rparr>))
         (enumerate 0 names))"

definition commit_orders ::
  "'v pool_state \<Rightarrow> 'v PoolCommitRequest \<Rightarrow> (commit_key \<times> 'v commit_value) list" where
  "commit_orders st args =
     bt_collect (concat (map (\<lambda>(item_index, item). item_entries st item_index item)
       (enumerate 0 (commit_items args))))"

primrec put_all ::
  "db_faults \<Rightarrow> 'v commit_value list \<Rightarrow> 'v pool_state \<Rightarrow> (error + unit) \<times> 'v pool_state" where
  "put_all D [] st = (Inr (), st)"
| "put_all D (v # vs) st =
     (case put D (val_resource v) (val_claim_name v) (val_address v) (val_lifecycle v) st of
        (Inl e, st') \<Rightarrow> (Inl e, st')
      | (Inr Pending, st') \<Rightarrow> (Inr (), st')
      | (Inr _, st') \<Rightarrow> put_all D vs st')"

definition roll_back :: "'v pool_state \<Rightarrow> 'v pool_state \<Rightarrow> 'v pool_state" where
  "roll_back st st' = st'\<lparr>table_claim := table_claim st, table_ready := table_ready st\<rparr>"

definition try_handle_commit ::
  "db_faults \<Rightarrow> 'v PoolCommitRequest \<Rightarrow> 'v pool_state \<Rightarrow> (error + unit) \<times> 'v pool_state" where
  "try_handle_commit D args st =
     (case put_all D (map snd (commit_orders st args)) st of
        (Inl e, st') \<Rightarrow> (Inl e, roll_back st st')
      | (Inr _, st') \<Rightarrow>
          if commit_fails D then (Inl db_error, roll_back st st') else (Inr (), st'))"

section \<open>Steps\<close>

text \<open>A run whose storage faults all satisfy \<open>P\<close>.\<close>

inductive pool_step :: "(db_faults \<Rightarrow> bool) \<Rightarrow> 'v pool_state \<Rightarrow> 'v pool_state \<Rightarrow> bool" for P where
  commit_request: "P D \<Longrightarrow> pool_step P st (snd (try_handle_commit D args st))"
| task_completes: "P D \<Longrightarrow> pool_step P st (complete_task D http i st)"

inductive pool_steps :: "(db_faults \<Rightarrow> bool) \<Rightarrow> 'v pool_state \<Rightarrow> 'v pool_state \<Rightarrow> bool" for P where
  none: "pool_steps P st st"
| more: "pool_steps P st st' \<Longrightarrow> pool_step P st' st'' \<Longrightarrow> pool_steps P st st''"

lemma pool_steps_inv:
  assumes "pool_steps P st st'" and "I st"
    and "\<And>D args st. P D \<Longrightarrow> I st \<Longrightarrow> I (snd (try_handle_commit D args st))"
    and "\<And>D http i st. P D \<Longrightarrow> I st \<Longrightarrow> I (complete_task D http i st)"
  shows "I st'"
  using assms(1,2) by (induction rule: pool_steps.induct) (auto elim!: pool_step.cases intro: assms(3,4))

section \<open>Facts\<close>

lemma put_cases:
  obtains (running) "pre_start lc = []" | (pending) "pre_start lc \<noteq> []" "permits st = 0"
    | (preparing) "pre_start lc \<noteq> []" "permits st > 0"
  by blast

lemma put_state:
  "snd (put D key v addr lc st) =
     (let k = object_reference_str key;
          st1 = (if pre_start lc = [] then st else snd (pool_commit k addr (pre_start lc) st));
          s = (if pre_start lc = [] then Running else fst (pool_commit k addr (pre_start lc) st))
      in if insert_fails D k then st1
         else st1\<lparr>table_claim := (table_claim st1)(k \<mapsto> v), table_ready := (table_ready st1)(k \<mapsto> commit_state_raw s)\<rparr>)"
  by (simp add: put_def Let_def split: list.split prod.split)

lemma put_result:
  "fst (put D key v addr lc st) =
     (if insert_fails D (object_reference_str key) then Inl db_error
      else Inr (if pre_start lc = [] then Running else if permits st = 0 then Pending else Preparing))"
  by (simp add: put_def Let_def pool_commit_def split: list.split)

text \<open>Permits are taken, never given back.\<close>

lemma permits_put: "permits (snd (put D key v addr lc st)) \<le> permits st"
  by (auto simp: put_state Let_def pool_commit_def)

lemma permits_put_all: "permits (snd (put_all D vs st)) \<le> permits st"
proof (induction vs arbitrary: st)
  case (Cons v vs)
  obtain r st' where p: "put D (val_resource v) (val_claim_name v) (val_address v) (val_lifecycle v) st = (r, st')"
    by force
  have "permits st' \<le> permits st"
    using permits_put [of D "val_resource v" "val_claim_name v" "val_address v" "val_lifecycle v" st] p by simp
  with Cons.IH [of st'] p show ?case
    by (auto split: sum.splits CommitState.splits)
qed simp

lemma permits_commit: "permits (snd (try_handle_commit D args st)) \<le> permits st"
  using permits_put_all [of D "map snd (commit_orders st args)" st]
  by (auto simp: try_handle_commit_def roll_back_def split: prod.splits sum.splits)

lemma permits_complete: "permits (complete_task D http i st) = permits st"
  by (simp add: complete_task_def Let_def)

lemma permits_steps: "pool_steps P st st' \<Longrightarrow> permits st' \<le> permits st"
  by (erule pool_steps_inv [where I = "\<lambda>s. permits s \<le> permits st"])
     (auto simp: permits_complete intro: order_trans [OF permits_commit])

section \<open>The tables\<close>

text \<open>What a store of claims promises to its clients: a read sees the last write of that
  resource.\<close>

locale claim_store =
  fixes get :: "'s \<Rightarrow> ObjectReference \<Rightarrow> string PoolResource"
    and store :: "ObjectReference \<Rightarrow> string \<Rightarrow> CommitState \<Rightarrow> 's \<Rightarrow> 's"
  assumes get_write: "plain_reference r \<Longrightarrow> plain_reference r' \<Longrightarrow>
    get (store r v c s) r' = (if r' = r then \<lparr>res_claim = Some v, res_state = c\<rparr> else get s r')"
begin

definition write_all :: "(ObjectReference \<times> string \<times> CommitState) list \<Rightarrow> 's \<Rightarrow> 's" where
  "write_all ws s = fold (\<lambda>(r, v, c). store r v c) ws s"

lemma get_write_all:
  "\<forall>(r, _)\<in>set ws. plain_reference r \<Longrightarrow> plain_reference r' \<Longrightarrow>
     get (write_all ws s) r' =
       (case map_of (rev ws) r' of None \<Rightarrow> get s r' | Some (v, c) \<Rightarrow> \<lparr>res_claim = Some v, res_state = c\<rparr>)"
  unfolding write_all_def
  by (induction ws arbitrary: s) (auto simp: get_write map_add_def split: option.splits)

end

definition write_tables :: "ObjectReference \<Rightarrow> string \<Rightarrow> CommitState \<Rightarrow> 'v pool_state \<Rightarrow> 'v pool_state" where
  "write_tables r v c st =
     st\<lparr>table_claim := (table_claim st)(object_reference_str r \<mapsto> v),
        table_ready := (table_ready st)(object_reference_str r \<mapsto> commit_state_raw c)\<rparr>"

interpretation pool_tables: claim_store get_resource write_tables
proof
  fix r r' :: ObjectReference and v c and st :: "'v pool_state"
  assume "plain_reference r" "plain_reference r'"
  then have "object_reference_str r' = object_reference_str r \<longleftrightarrow> r' = r"
    using reference_str_inj by blast
  then show "get_resource (write_tables r v c st) r' =
      (if r' = r then \<lparr>res_claim = Some v, res_state = c\<rparr> else get_resource st r')"
    by (auto simp: get_resource_def write_tables_def)
qed

lemma get_resource_put:
  assumes "fst (put D r v addr lc st) = Inr c"
  shows "get_resource (snd (put D r v addr lc st)) r' = get_resource (write_tables r v c st) r'"
  using assms
  by (auto simp: put_state put_result Let_def pool_commit_def write_tables_def get_resource_def
      split: if_splits)

lemma get_resource_tables [simp]:
  "get_resource (st\<lparr>permits := p\<rparr>) r = get_resource st r"
  "get_resource (st\<lparr>tasks := ts\<rparr>) r = get_resource st r"
  by (simp_all add: get_resource_def)

section \<open>Tasks\<close>

definition task_bound :: "nat \<Rightarrow> 'v pool_state \<Rightarrow> bool" where
  "task_bound n st \<longleftrightarrow> permits st + length (tasks st) \<le> n"

definition no_orphans :: "'v pool_state \<Rightarrow> bool" where
  "no_orphans st \<longleftrightarrow>
     (\<forall>k. Option.bind (table_ready st k) from_raw = Some Preparing \<longrightarrow> k \<in> task_key ` set (tasks st))"

lemma task_bound_put: "task_bound n st \<Longrightarrow> task_bound n (snd (put D r v addr lc st))"
  by (auto simp: task_bound_def put_state Let_def pool_commit_def)

lemma no_orphans_put: "no_orphans st \<Longrightarrow> no_orphans (snd (put D r v addr lc st))"
  by (auto simp: no_orphans_def put_state Let_def pool_commit_def from_raw_def)

lemma put_all_inv:
  assumes "\<And>D r v addr lc st. I st \<Longrightarrow> I (snd (put D r v addr lc st))" and "I st"
  shows "I (snd (put_all D vs st))"
  using assms(2)
proof (induction vs arbitrary: st)
  case (Cons v vs)
  obtain r st' where p: "put D (val_resource v) (val_claim_name v) (val_address v) (val_lifecycle v) st = (r, st')"
    by force
  have "I st'"
    using assms(1) [OF Cons.prems, of D "val_resource v" "val_claim_name v" "val_address v" "val_lifecycle v"] p
    by simp
  with Cons.IH [of st'] p show ?case
    by (auto split: sum.splits CommitState.splits)
qed simp

text \<open>Tasks are only added while putting, so that rolling back the tables loses none.\<close>

lemma put_tasks: "set (tasks st) \<subseteq> set (tasks (snd (put D r v addr lc st)))"
  by (auto simp: put_state Let_def pool_commit_def)

lemma put_all_tasks: "set (tasks st) \<subseteq> set (tasks (snd (put_all D vs st)))"
  by (rule put_all_inv [where I = "\<lambda>s. set (tasks st) \<subseteq> set (tasks s)"]) (use put_tasks in blast)+

lemma task_bound_commit: "task_bound n st \<Longrightarrow> task_bound n (snd (try_handle_commit D args st))"
  using put_all_inv [where I = "task_bound n", OF task_bound_put, of st D "map snd (commit_orders st args)"]
  by (auto simp: try_handle_commit_def roll_back_def task_bound_def split: prod.splits sum.splits)

lemma no_orphans_roll_back:
  "no_orphans st \<Longrightarrow> set (tasks st) \<subseteq> set (tasks st') \<Longrightarrow> no_orphans (roll_back st st')"
  by (auto simp: no_orphans_def roll_back_def)

lemma no_orphans_commit: "no_orphans st \<Longrightarrow> no_orphans (snd (try_handle_commit D args st))"
  using put_all_inv [where I = no_orphans, OF no_orphans_put, of st D "map snd (commit_orders st args)"]
    put_all_tasks [of st D "map snd (commit_orders st args)"]
  by (auto simp: try_handle_commit_def intro!: no_orphans_roll_back split: prod.splits sum.splits)

lemma task_removed:
  assumes "i < length ts" and "x \<in> set ts" and "x \<noteq> ts ! i"
  shows "x \<in> set (take i ts @ drop (Suc i) ts)"
proof -
  have "set ts = set (take i ts @ ts ! i # drop (Suc i) ts)"
    using id_take_nth_drop [OF assms(1)] by simp
  with assms(2,3) show ?thesis by auto
qed

lemma task_bound_complete: "task_bound n st \<Longrightarrow> task_bound n (complete_task D http i st)"
  by (auto simp: task_bound_def complete_task_def Let_def)

text \<open>A completed task leaves its key in another state than Preparing.\<close>

lemma complete_task_ready:
  assumes "i < length (tasks st)" and "\<not> insert_fails D (task_key (tasks st ! i))" and "\<not> commit_fails D"
  shows "table_ready (complete_task D http i st) = (table_ready st)(task_key (tasks st ! i) \<mapsto>
      commit_state_raw (if run_probes http (task_address (tasks st ! i)) (task_probes (tasks st ! i))
                        then Running else Pending))"
    and "table_claim (complete_task D http i st) = table_claim st"
  using assms by (simp_all add: complete_task_def Let_def)

lemma no_orphans_complete:
  assumes "no_orphans st" and "\<not> insert_fails D (task_key (tasks st ! i))" and "\<not> commit_fails D"
  shows "no_orphans (complete_task D http i st)"
proof (cases "i < length (tasks st)")
  case False
  with assms(1) show ?thesis by (simp add: complete_task_def)
next
  case True
  have ts: "tasks (complete_task D http i st) = take i (tasks st) @ drop (Suc i) (tasks st)"
    using True by (simp add: complete_task_def Let_def)
  show ?thesis
    unfolding no_orphans_def
  proof (intro allI impI)
    fix k
    assume k: "Option.bind (table_ready (complete_task D http i st) k) from_raw = Some Preparing"
    then have "k \<noteq> task_key (tasks st ! i)"
      by (auto simp: complete_task_ready [OF True assms(2,3)] split: if_splits)
    with k have "Option.bind (table_ready st k) from_raw = Some Preparing"
      by (simp add: complete_task_ready [OF True assms(2,3)])
    then obtain t where "t \<in> set (tasks st)" "task_key t = k"
      using assms(1) by (auto simp: no_orphans_def)
    with \<open>k \<noteq> _\<close> task_removed [OF True, of t] show "k \<in> task_key ` set (tasks (complete_task D http i st))"
      unfolding ts by blast
  qed
qed

section \<open>The order of a commit\<close>

definition put_value :: "db_faults \<Rightarrow> 'v commit_value \<Rightarrow> 'v pool_state \<Rightarrow> (error + CommitState) \<times> 'v pool_state" where
  "put_value D v = put D (val_resource v) (val_claim_name v) (val_address v) (val_lifecycle v)"

definition put_values :: "'v commit_value list \<Rightarrow> 'v pool_state \<Rightarrow> 'v pool_state" where
  "put_values vs st = fold (\<lambda>v s. snd (put_value faultless v s)) vs st"

text \<open>The first \<open>k\<close> values are stored; the last of them is the first that is Pending.\<close>

definition stops_at :: "nat \<Rightarrow> 'v commit_value list \<Rightarrow> 'v pool_state \<Rightarrow> bool" where
  "stops_at k vs st \<longleftrightarrow>
     k \<le> length vs
     \<and> (\<forall>i. Suc i < k \<longrightarrow> fst (put_value faultless (vs ! i) (put_values (take i vs) st)) \<noteq> Inr Pending)
     \<and> (k < length vs \<longrightarrow>
          0 < k \<and> fst (put_value faultless (vs ! (k - 1)) (put_values (take (k - 1) vs) st)) = Inr Pending)"

lemma put_value_faultless: "\<exists>c. fst (put_value faultless v st) = Inr c"
  by (simp add: put_value_def put_result faultless_def)

lemma put_all_stops:
  "\<exists>k. stops_at k vs st \<and> put_all faultless vs st = (Inr (), put_values (take k vs) st)"
proof (induction vs arbitrary: st)
  case Nil
  then show ?case by (simp add: stops_at_def put_values_def)
next
  case (Cons v vs)
  obtain c st' where p: "put_value faultless v st = (Inr c, st')"
    using put_value_faultless [of v st] by (cases "put_value faultless v st") auto
  then have v: "put_values (v # ws) st = put_values ws st'" for ws
    by (simp add: put_values_def)
  show ?case
  proof (cases "c = Pending")
    case True
    then have "stops_at 1 (v # vs) st"
      using p by (simp add: stops_at_def put_values_def)
    moreover have "put_all faultless (v # vs) st = (Inr (), put_values (take 1 (v # vs)) st)"
      using p True by (simp add: v put_values_def put_value_def)
    ultimately show ?thesis by blast
  next
    case False
    obtain k where k: "stops_at k vs st'" "put_all faultless vs st' = (Inr (), put_values (take k vs) st')"
      using Cons.IH by blast
    have "stops_at (Suc k) (v # vs) st"
      using k(1) p False unfolding stops_at_def
      by (auto simp: v nth_Cons' take_Cons' put_values_def split: nat.splits)
    moreover have "put_all faultless (v # vs) st = (Inr (), put_values (take (Suc k) (v # vs)) st)"
      using k(2) p False by (cases c) (auto simp: v put_value_def)
    ultimately show ?thesis by blast
  qed
qed

section \<open>Example requests\<close>

definition probe_lifecycle :: "unit PoolResourceLifecycle" where
  "probe_lifecycle = \<lparr>pre_start = [Http \<lparr>probe_method = GET, probe_path = ''/'', probe_port = 80,
     probe_secure = False, probe_body = None\<rparr>]\<rparr>"

definition commit_of :: "string \<Rightarrow> string \<Rightarrow> unit PoolCommitRequest" where
  "commit_of claim_name name = \<lparr>commit_items = [\<lparr>commit_lifecycle = probe_lifecycle, commit_name = claim_name,
     commit_pool = \<lparr>req_namespace = ''ns'', req_resources = [name]\<rparr>, commit_priority = 0\<rparr>]\<rparr>"

section \<open>Properties\<close>

text \<open>Committing a resource and reading it back gives the claim and the state that the commit answered;
  every other resource reads as before.\<close>

theorem put_then_get:
  assumes "fst (put D r v addr lc st) = Inr c" and "plain_reference r" and "plain_reference r'"
  shows "get_resource (snd (put D r v addr lc st)) r' =
    (if r' = r then \<lparr>res_claim = Some v, res_state = c\<rparr> else get_resource st r')"
  unfolding get_resource_put [OF assms(1)] by (rule pool_tables.get_write [OF assms(2,3)])

theorem put_then_get_witness:
  "get_resource (snd (put faultless (endpoint_key ''ns'' ''a'') ''c'' ''a'' lifecycle_default
     (build_store 1 None))) (endpoint_key ''ns'' ''a'') = \<lparr>res_claim = Some ''c'', res_state = Running\<rparr>"
  by (subst put_then_get [where c = Running])
     (simp_all add: put_result faultless_def lifecycle_default_def plain_reference_def endpoint_key_def)

text \<open>At most \<open>max_pool\<close> probe tasks ever run at the same time.\<close>

theorem probe_tasks_bounded:
  assumes "pool_steps P (build_store max_pool file) st"
  shows "length (tasks st) \<le> max_pool"
proof -
  have "task_bound max_pool (build_store max_pool file)"
    by (simp add: task_bound_def build_store_def split: option.splits)
  with assms have "task_bound max_pool st"
    by (rule pool_steps_inv) (auto intro: task_bound_commit task_bound_complete)
  then show ?thesis by (simp add: task_bound_def)
qed

theorem probe_tasks_bounded_witness:
  "length (tasks (snd (try_handle_commit faultless (commit_of ''c'' ''a'') (build_store 3 None)))) \<le> 3"
  by (rule probe_tasks_bounded [OF more [OF none commit_request [where P = "\<lambda>_. True"]]]) simp

text \<open>A permit taken for probes is never given back, not even when the probes complete: once they are
  used up, every later commit of a resource with probes answers Pending and starts nothing.\<close>

theorem permits_never_return:
  assumes "pool_steps P st st'" and "permits st = 0" and "pre_start lc \<noteq> []"
    and "\<not> insert_fails D (object_reference_str r)"
  shows "fst (put D r v addr lc st') = Inr Pending
    \<and> tasks (snd (put D r v addr lc st')) = tasks st'
    \<and> res_state (get_resource (snd (put D r v addr lc st')) r) = Pending"
  using permits_steps [OF assms(1)] assms(2-4)
  by (simp add: put_result put_state Let_def pool_commit_def get_resource_def from_raw_def)

text \<open>One permit; the probe of the resource \<open>a\<close> has succeeded.\<close>

definition used_pool :: "unit pool_state" where
  "used_pool = complete_task faultless (\<lambda>_ _ _. True) 0
     (snd (try_handle_commit faultless (commit_of ''c'' ''a'') (build_store 1 None)))"

lemma used_pool_state:
  "permits used_pool = 0 \<and> tasks used_pool = []
   \<and> get_resource used_pool (endpoint_key ''ns'' ''a'') = \<lparr>res_claim = Some ''c'', res_state = Running\<rparr>"
  by code_simp

theorem permits_never_return_witness:
  "fst (put faultless (endpoint_key ''ns'' ''b'') ''d'' ''b'' probe_lifecycle used_pool) = Inr Pending"
  using permits_never_return [OF none, of used_pool probe_lifecycle faultless "endpoint_key ''ns'' ''b''" "''d''" "''b''"]
    used_pool_state
  by (simp add: probe_lifecycle_def faultless_def)

text \<open>While the storage does not fail, a resource is Preparing only as long as its probes are running; a
  restart keeps the tables of the file and loses the running probes, so that such a resource stays
  Preparing with nothing left to complete it.\<close>

theorem preparing_until_restart:
  assumes "pool_steps (\<lambda>D. D = faultless) (build_store max_pool None) st"
    and "res_state (get_resource st r) = Preparing"
  shows "(\<exists>t\<in>set (tasks st). task_key t = object_reference_str r)
    \<and> (let st' = build_store max_pool (Some (table_claim st, table_ready st)) in
        get_resource st' r = get_resource st r \<and> tasks st' = [])"
proof -
  have "no_orphans (build_store max_pool None)"
    by (simp add: no_orphans_def build_store_def)
  with assms(1) have "no_orphans st"
    by (rule pool_steps_inv) (auto intro: no_orphans_commit no_orphans_complete simp: faultless_def)
  moreover have "Option.bind (table_ready st (object_reference_str r)) from_raw = Some Preparing"
    using assms(2)
    by (auto simp: get_resource_def unwrap_or_def commit_state_default_def split: option.splits)
  ultimately show ?thesis
    by (force simp: no_orphans_def build_store_def get_resource_def)
qed

definition preparing_pool :: "unit pool_state" where
  "preparing_pool = snd (try_handle_commit faultless (commit_of ''c'' ''a'') (build_store 1 None))"

lemma preparing_pool_state: "res_state (get_resource preparing_pool (endpoint_key ''ns'' ''a'')) = Preparing"
  by code_simp

lemma preparing_pool_run: "pool_steps (\<lambda>D. D = faultless) (build_store 1 None) preparing_pool"
  unfolding preparing_pool_def by (rule more [OF none commit_request]) (rule refl)

theorem preparing_until_restart_witness: "tasks preparing_pool \<noteq> []"
  using preparing_until_restart [OF preparing_pool_run preparing_pool_state] by auto

text \<open>A resource that is already claimed by the item is left alone, whatever its state: a request whose
  resources all carry its claims changes nothing, so that a resource left Pending (no permit, or a
  failed probe) is not probed again for the same claim.\<close>

theorem commit_skips_claimed:
  assumes "\<forall>item\<in>set (commit_items args). \<forall>name\<in>set (req_resources (commit_pool item)).
    res_claim (get_resource st (endpoint_key (req_namespace (commit_pool item)) name)) = Some (commit_name item)"
  shows "snd (try_handle_commit D args st) = st"
proof -
  have "item_entries st i item = []" if "item \<in> set (commit_items args)" for i item
    using assms that by (auto simp: item_entries_def Let_def)
  then have none: "concat (map (\<lambda>(i, item). item_entries st i item) (enumerate 0 (commit_items args))) = []"
    by (auto simp: in_set_enumerate_eq)
  have "commit_orders st args = []"
    unfolding commit_orders_def none by (simp add: bt_collect_def)
  then show ?thesis
    by (simp add: try_handle_commit_def roll_back_def)
qed

definition failed_pool :: "unit pool_state" where
  "failed_pool = complete_task faultless (\<lambda>_ _ _. False) 0
     (snd (try_handle_commit faultless (commit_of ''c'' ''a'') (build_store 2 None)))"

lemma failed_pool_state:
  "get_resource failed_pool (endpoint_key ''ns'' ''a'') = \<lparr>res_claim = Some ''c'', res_state = Pending\<rparr>"
  by code_simp

theorem commit_skips_claimed_witness:
  "snd (try_handle_commit faultless (commit_of ''c'' ''a'') failed_pool) = failed_pool"
  by (rule commit_skips_claimed) (simp add: commit_of_def failed_pool_state)

text \<open>The probes of an earlier claim decide the state of the resource even after another claim has taken
  it: when they end, the claim stays and the state becomes theirs.\<close>

theorem stale_probes_decide:
  assumes "i < length (tasks st)" and "task_key (tasks st ! i) = object_reference_str r"
    and "\<not> insert_fails D (object_reference_str r)" and "\<not> commit_fails D"
  shows "get_resource (complete_task D http i st) r =
    \<lparr>res_claim = res_claim (get_resource st r),
     res_state = (if run_probes http (task_address (tasks st ! i)) (task_probes (tasks st ! i))
                  then Running else Pending)\<rparr>"
  using assms
  by (simp add: get_resource_def complete_task_ready [OF assms(1)] from_raw_def)

definition plain_commit :: "unit PoolCommitRequest" where
  "plain_commit = \<lparr>commit_items = [\<lparr>commit_lifecycle = lifecycle_default, commit_name = ''d'',
     commit_pool = \<lparr>req_namespace = ''ns'', req_resources = [''a'']\<rparr>, commit_priority = 0\<rparr>]\<rparr>"

definition retaken_pool :: "unit pool_state" where
  "retaken_pool = snd (try_handle_commit faultless plain_commit preparing_pool)"

lemma retaken_pool_state:
  "length (tasks retaken_pool) = 1 \<and> task_key (tasks retaken_pool ! 0) = object_reference_str (endpoint_key ''ns'' ''a'')
   \<and> get_resource retaken_pool (endpoint_key ''ns'' ''a'') = \<lparr>res_claim = Some ''d'', res_state = Running\<rparr>
   \<and> \<not> run_probes (\<lambda>_ _ _. False) (task_address (tasks retaken_pool ! 0)) (task_probes (tasks retaken_pool ! 0))"
  by code_simp

theorem stale_probes_decide_witness:
  "get_resource (complete_task faultless (\<lambda>_ _ _. False) 0 retaken_pool) (endpoint_key ''ns'' ''a'')
   = \<lparr>res_claim = Some ''d'', res_state = Pending\<rparr>"
  using stale_probes_decide [of 0 retaken_pool "endpoint_key ''ns'' ''a''" faultless "\<lambda>_ _ _. False"]
    retaken_pool_state
  by (simp add: faultless_def)

text \<open>While the storage does not fail, a commit stores the unclaimed resources in ascending order of
  priority, then round by round over the items, and stops after the first one that stays Pending.\<close>

theorem commit_order:
  "sorted_wrt (<) (map fst (commit_orders st args))
   \<and> (\<exists>k. stops_at k (map snd (commit_orders st args)) st
        \<and> try_handle_commit faultless args st = (Inr (), put_values (take k (map snd (commit_orders st args))) st))"
proof
  show "sorted_wrt (<) (map fst (commit_orders st args))"
    using bt_sorted_collect unfolding commit_orders_def bt_sorted_def by blast
  obtain k where "stops_at k (map snd (commit_orders st args)) st"
    "put_all faultless (map snd (commit_orders st args)) st
       = (Inr (), put_values (take k (map snd (commit_orders st args))) st)"
    using put_all_stops by blast
  then show "\<exists>k. stops_at k (map snd (commit_orders st args)) st
        \<and> try_handle_commit faultless args st = (Inr (), put_values (take k (map snd (commit_orders st args))) st)"
    by (auto simp: try_handle_commit_def faultless_def)
qed

end
