(* ===== verification/Spectrum_Targets.thy ===== *)
theory Spectrum_Targets
  imports Spectrum_Scheduler Spectrum_Pool
begin

text \<open>
  The shared part of the spectrum operator (\<^verbatim>\<open>crates/openark-spectrum-operator/src\<close>:
  \<^verbatim>\<open>status.rs\<close>, \<^verbatim>\<open>utils/mod.rs\<close>, \<^verbatim>\<open>targets\<close>): reasons, the Kubernetes
  objects it handles, the calls it makes, looking up classes, pools and targets, and fetching the
  weighted endpoints of a service.  JSON values are texts here.
\<close>

section \<open>Reasons\<close>

datatype Reason =
  Accepted | InvalidBackendRef | InvalidHistogram | InvalidMetricsClass | InvalidPool
| InvalidTarget | Pending | ProvisioningError

fun reason_str :: "Reason \<Rightarrow> string" where
  "reason_str Accepted = ''Accepted''"
| "reason_str InvalidBackendRef = ''InvalidBackendRef''"
| "reason_str InvalidHistogram = ''InvalidHistogram''"
| "reason_str InvalidMetricsClass = ''InvalidMetricsClass''"
| "reason_str InvalidPool = ''InvalidPool''"
| "reason_str InvalidTarget = ''InvalidTarget''"
| "reason_str Pending = ''Pending''"
| "reason_str ProvisioningError = ''ProvisioningError''"

definition accepted :: "Reason \<Rightarrow> bool" where
  "accepted r = (r = Accepted)"

lemma reason_str_inj: "reason_str r = reason_str s \<Longrightarrow> r = s"
  by (cases r; cases s) simp_all

definition invalid :: "Reason \<Rightarrow> string \<Rightarrow> bool \<Rightarrow> Reason Status" where
  "invalid r message again = \<lparr>status_reason = r, status_message = message, requeue = again\<rparr>"

section \<open>Kubernetes objects\<close>

record ServicePort =
  port_app_protocol :: "string option"
  port_name :: "string option"
  port_number :: int
  port_protocol :: "string option"

text \<open>\<open>spec_other\<close> stands for the fields the code does not name.\<close>

record ServiceSpec =
  cluster_ip :: "string option"
  cluster_ips :: "string list option"
  external_ips :: "string list option"
  external_name :: "string option"
  load_balancer_ip :: "string option"
  publish_not_ready_addresses :: "bool option"
  selector :: "labels option"
  ip_families :: "string list option"
  spec_ports :: "ServicePort list option"
  spec_other :: string

record Service =
  svc_meta :: ObjectMeta
  svc_spec :: "ServiceSpec option"

record Endpoint =
  addresses :: "string list"
  endpoint_other :: string

record EndpointPort =
  ep_app_protocol :: "string option"
  ep_name :: "string option"
  ep_port :: "int option"
  ep_protocol :: "string option"

record EndpointSlice =
  address_type :: string
  slice_endpoints :: "Endpoint list"
  slice_meta :: ObjectMeta
  slice_ports :: "EndpointPort list option"

section \<open>Calls\<close>

datatype spec_call =
  GetMetricsClass string
| GetPool string string
| GetService string string
| GetServiceMetadata string string
| ListSlices string string
| ListServices string string
| ListClaims string string
| CreateSlice string EndpointSlice
| ReplaceSlice string string EndpointSlice
| DeleteSlice string string
| CreateService string Service
| ReplaceService string string Service
| DeleteService string string
| PatchResourceStatus string ResourceStatus
| Publish string Event
| GetHealth string
| GetWeights string ObjectMeta "Endpoint list"
| GetBindingStates string PoolRequest
| CommitBindingStates string "string PoolCommitRequest"

record 'w spec_api =
  ans_unit :: "spec_call list \<Rightarrow> spec_call \<Rightarrow> error + unit"
  ans_exists :: "spec_call list \<Rightarrow> spec_call \<Rightarrow> error + bool"
  ans_class :: "spec_call list \<Rightarrow> spec_call \<Rightarrow> error + MetricsClassCrd option"
  ans_pool :: "spec_call list \<Rightarrow> spec_call \<Rightarrow> error + PoolCrd option"
  ans_service :: "spec_call list \<Rightarrow> spec_call \<Rightarrow> error + Service option"
  ans_slices :: "spec_call list \<Rightarrow> spec_call \<Rightarrow> error + EndpointSlice list"
  ans_services :: "spec_call list \<Rightarrow> spec_call \<Rightarrow> error + Service list"
  ans_claims :: "spec_call list \<Rightarrow> spec_call \<Rightarrow> error + ('w, string) PoolClaimCrd list"
  ans_weights :: "spec_call list \<Rightarrow> spec_call \<Rightarrow> string + 'w WeightResponse"
  ans_states :: "spec_call list \<Rightarrow> spec_call \<Rightarrow> string + PoolResponse"
  ans_http :: "spec_call list \<Rightarrow> spec_call \<Rightarrow> string + unit"
  spec_clock :: "spec_call list \<Rightarrow> timestamp"
  url_parse :: "string \<Rightarrow> string + string"

type_synonym 'a spec_eff = "(spec_call, error, 'a) eff"

text \<open>A call whose error is only looked at.\<close>

definition ask :: "(spec_call list \<Rightarrow> spec_call \<Rightarrow> string + 'a) \<Rightarrow> spec_call \<Rightarrow> (string + 'a) spec_eff" where
  "ask orc c = (\<lambda>l. (Inr (orc l c), l @ [c]))"

lemma wp_ask [eff_simps]: "wp (ask orc c) Q l = Q (Inr (orc l c)) (l @ [c])"
  by (simp add: wp_def ask_def)

lemma emits_ask [emits_intros]: "P c \<Longrightarrow> emits P (ask orc c)"
  by (simp add: emits_def ask_def)

text \<open>Continue with the value of an inner result, or return its status.\<close>

definition on_ok :: "(Reason Status + 'a) spec_eff \<Rightarrow> ('a \<Rightarrow> (Reason Status + 'b) spec_eff) \<Rightarrow> (Reason Status + 'b) spec_eff" where
  "on_ok m k = tryE m (\<lambda>r. case r of Inl s \<Rightarrow> ret (Inl s) | Inr a \<Rightarrow> k a)"

section \<open>Addresses of services\<close>

definition build_url_by_raw :: "'w spec_api \<Rightarrow> string \<Rightarrow> string \<Rightarrow> u16 \<Rightarrow> string + string" where
  "build_url_by_raw A name namespace port =
     (case url_parse A (''http://'' @ name @ ''.'' @ namespace @ ''.svc:'' @ word_str port) of
        Inl e \<Rightarrow> Inl (''Failed to parse service URL: '' @ e)
      | Inr u \<Rightarrow> Inr u)"

definition build_url_by_class :: "'w spec_api \<Rightarrow> MetricsClassCrd \<Rightarrow> string + string" where
  "build_url_by_class A cls =
     (let r = class_backend_ref (class_spec cls); object = service_object r
      in case ref_namespace object of
           None \<Rightarrow> Inl (''Required backend namespace: '' @ ref_kind object @ ''/???/'' @ ref_name object)
         | Some ns \<Rightarrow> build_url_by_raw A (ref_name object) ns (service_port r))"

definition build_url_by_service :: "'w spec_api \<Rightarrow> Service \<Rightarrow> u16 \<Rightarrow> error + (string + string)" where
  "build_url_by_service A svc port =
     (case meta_namespace (svc_meta svc) of
        None \<Rightarrow> Inl (Panic ''namespaced resource'')
      | Some ns \<Rightarrow> Inr (build_url_by_raw A (name_any (svc_meta svc)) ns port))"

section \<open>Classes and pools\<close>

definition get_metrics_class :: "'w spec_api \<Rightarrow> string \<Rightarrow> (Reason Status + MetricsClassCrd) spec_eff" where
  "get_metrics_class A name =
     (if is_blank name then ret (Inl (invalid InvalidMetricsClass ''Empty metrics class'' False))
      else tryE (call (ans_class A) (GetMetricsClass name)) (\<lambda>found.
        case found of
          Some cls \<Rightarrow>
            if is_some_and is_accepted (class_status cls) then ret (Inr cls)
            else ret (Inl (invalid Pending (''Class is not accepted: '' @ name) True))
        | None \<Rightarrow> ret (Inl (invalid InvalidMetricsClass (''Class not found: '' @ name) True))))"

definition get_pool :: "'w spec_api \<Rightarrow> string \<Rightarrow> string \<Rightarrow> (Reason Status + PoolCrd) spec_eff" where
  "get_pool A namespace name =
     (if is_blank name then ret (Inl (invalid InvalidPool ''Empty pool'' False))
      else tryE (call (ans_pool A) (GetPool namespace name)) (\<lambda>found.
        case found of
          Some p \<Rightarrow>
            if is_some_and is_accepted (pool_status p) then ret (Inr p)
            else ret (Inl (invalid Pending (''Pool is not accepted: '' @ name) True))
        | None \<Rightarrow> ret (Inl (invalid InvalidPool (''Pool not found: '' @ name) True))))"

definition update_or_create_service :: "'w spec_api \<Rightarrow> string \<Rightarrow> string \<Rightarrow> Service \<Rightarrow> unit spec_eff" where
  "update_or_create_service A namespace name item =
     tryE (call (ans_exists A) (GetServiceMetadata namespace name)) (\<lambda>found.
     if found then call (ans_unit A) (ReplaceService namespace name item)
     else call (ans_unit A) (CreateService namespace item))"

section \<open>Targets\<close>

datatype Target = ServiceTarget "ServiceSpec option"

definition get_target ::
  "'w spec_api \<Rightarrow> string \<Rightarrow> ObjectReference \<Rightarrow> (Reason Status + ObjectMeta \<times> Target) spec_eff" where
  "get_target A namespace target_ref =
     (let ns = unwrap_or namespace (ref_namespace target_ref);
          g = ref_group target_ref; kind = ref_kind target_ref; name = ref_name target_ref
      in if g = [] \<and> kind = ''Service'' then
           tryE (call (ans_service A) (GetService ns name)) (\<lambda>found.
           case found of
             Some item \<Rightarrow> ret (Inr (svc_meta item, ServiceTarget (svc_spec item)))
           | None \<Rightarrow> ret (Inl (invalid InvalidTarget
               (''Target not found: '' @ kind @ ''/'' @ ns @ ''/'' @ name) True)))
         else ret (Inl (invalid InvalidTarget
           (if g = [] then ''Unsupported target kind: '' @ kind
            else ''Unsupported target kind: '' @ g @ ''/'' @ kind) False)))"

definition LABEL_KEY_SELECTOR :: string where
  "LABEL_KEY_SELECTOR = ''kubernetes.io/service-name''"

definition infer_address_type :: "ServiceSpec option \<Rightarrow> string" where
  "infer_address_type spec =
     (if is_none_or (\<lambda>s. is_none_or (\<lambda>fs. list_ex (\<lambda>f. f = ''IPv4'') fs) (ip_families s)) spec
      then ''IPv4'' else ''IPv6'')"

definition mirror_spec :: "ServiceSpec option \<Rightarrow> ServiceSpec option" where
  "mirror_spec spec = map_option (\<lambda>s. s\<lparr>
     cluster_ip := None, cluster_ips := None, external_ips := None, external_name := None,
     load_balancer_ip := None, publish_not_ready_addresses := None, selector := None\<rparr>) spec"

definition get_endpoints :: "'w spec_api \<Rightarrow> string \<Rightarrow> string \<Rightarrow> string \<Rightarrow> Endpoint list spec_eff" where
  "get_endpoints A namespace addr_type label_selector =
     tryE (call (ans_slices A) (ListSlices namespace label_selector)) (\<lambda>slices.
     ret (concat (map slice_endpoints (filter (\<lambda>s. address_type s = addr_type) slices))))"

definition get_weighted_endpoints ::
  "'w spec_api \<Rightarrow> string \<Rightarrow> ObjectMeta \<Rightarrow> MetricsClassCrd \<Rightarrow> ObjectMeta \<Rightarrow>
     (Reason Status + ('w, Endpoint) WeightedItems) spec_eff" where
  "get_weighted_endpoints A addr_type child_metadata cls target_metadata =
     (case (meta_name target_metadata, meta_namespace target_metadata) of
        (Some target_name, Some target_namespace) \<Rightarrow>
          tryE (get_endpoints A target_namespace addr_type (LABEL_KEY_SELECTOR @ ''='' @ target_name)) (\<lambda>its.
          case build_url_by_class A cls of
            Inl e \<Rightarrow> ret (Inl (invalid InvalidMetricsClass e True))
          | Inr url \<Rightarrow>
              tryE (ask (ans_weights A) (GetWeights url
                (meta_default\<lparr>meta_name := Some target_name, meta_namespace := Some target_namespace,
                  meta_annotations := meta_annotations child_metadata,
                  meta_labels := meta_labels child_metadata\<rparr>) its)) (\<lambda>response.
              case response of
                Inl e \<Rightarrow> ret (Inl (invalid ProvisioningError (''Failed to get service weights: '' @ e) True))
              | Inr r \<Rightarrow>
                  if length its \<noteq> length (response_weights r)
                  then ret (Inl (invalid InvalidMetricsClass ''Invalid weights'' True))
                  else ret (Inr \<lparr>weighted_items = its, weighted_weights = response_weights r\<rparr>)))
      | _ \<Rightarrow> fail (Panic ''Namespaced resource''))"

section \<open>Children\<close>

definition owner_ref :: "string \<Rightarrow> ObjectMeta \<Rightarrow> OwnerReference option" where
  "owner_ref kind m =
     (case (meta_name m, meta_uid m) of
        (Some n, Some u) \<Rightarrow> Some \<lparr>owner_kind = kind, owner_name = n, owner_uid = u,
                              owner_block_deletion = None, owner_controller = None\<rparr>
      | _ \<Rightarrow> None)"

text \<open>The maps of the target, overridden by those of the owner.\<close>

definition merged :: "labels option \<Rightarrow> labels option \<Rightarrow> labels" where
  "merged target own = (case own of None \<Rightarrow> unwrap_or [] target | Some m \<Rightarrow> bt_append (unwrap_or [] target) m)"

definition convert_ports :: "ServiceSpec option \<Rightarrow> EndpointPort list option" where
  "convert_ports spec =
     map_option (map (\<lambda>p. \<lparr>ep_app_protocol = port_app_protocol p, ep_name = port_name p,
                           ep_port = Some (port_number p), ep_protocol = port_protocol p\<rparr>))
       (Option.bind spec spec_ports)"

text \<open>Creating or replacing the slice of a child.\<close>

definition store_slice :: "'w spec_api \<Rightarrow> string \<Rightarrow> EndpointSlice list \<Rightarrow> string \<Rightarrow> EndpointSlice \<Rightarrow> unit spec_eff" where
  "store_slice A namespace olds child_name item =
     (if list_ex (\<lambda>s. meta_name (slice_meta s) = Some child_name) olds
      then call (ans_unit A) (ReplaceSlice namespace child_name item)
      else call (ans_unit A) (CreateSlice namespace item))"

definition store_service :: "'w spec_api \<Rightarrow> string \<Rightarrow> Service list \<Rightarrow> string \<Rightarrow> Service \<Rightarrow> unit spec_eff" where
  "store_service A namespace olds child_name item =
     (if list_ex (\<lambda>s. meta_name (svc_meta s) = Some child_name) olds
      then call (ans_unit A) (ReplaceService namespace child_name item)
      else call (ans_unit A) (CreateService namespace item))"

primrec for_each :: "('x \<Rightarrow> unit spec_eff) \<Rightarrow> 'x list \<Rightarrow> unit spec_eff" where
  "for_each f [] = ret ()"
| "for_each f (x # xs) = tryE (f x) (\<lambda>_. for_each f xs)"

definition delete_unmanaged ::
  "'w spec_api \<Rightarrow> (string \<Rightarrow> spec_call) \<Rightarrow> string list \<Rightarrow> ObjectMeta list \<Rightarrow> unit spec_eff" where
  "delete_unmanaged A del children olds =
     for_each (\<lambda>m. if name_any m \<in> set children then ret ()
                   else call (ans_unit A) (del (name_any m))) olds"

text \<open>\<^verbatim>\<open>BTreeSet\<close>: the sorted names.\<close>

definition name_set :: "string list \<Rightarrow> string list" where
  "name_set ns = sort (remdups ns)"

lemma set_name_set [simp]: "set (name_set ns) = set ns"
  by (simp add: name_set_def)

lemma name_set_sorted: "sorted ns \<Longrightarrow> distinct ns \<Longrightarrow> name_set ns = ns"
  by (simp add: name_set_def distinct_remdups_id sorted_sort_id)

end
