(* ===== verification/Spectrum_Operator.thy ===== *)
theory Spectrum_Operator
  imports Spectrum_Targets
begin

text \<open>
  The controllers of metrics classes and pool claims of the spectrum operator
  (\<^verbatim>\<open>metrics_class.rs\<close>, \<^verbatim>\<open>pool_claim/mod.rs\<close>,
  \<^verbatim>\<open>pool_claim/service.rs\<close>), its arguments and the metadata of children.  The
  type variable \<open>'w\<close> stands for \<^verbatim>\<open>f64\<close>; how one is printed is a parameter.
\<close>

section \<open>Arguments\<close>

record Args =
  label_histogram_parent :: string
  label_histogram_weight :: string
  label_pool_claim_lifecycle_pre_start :: string
  label_pool_claim_parent :: string
  label_pool_claim_priority :: string
  label_pool_claim_weight :: string
  label_pool_claim_weight_penalty :: string
  label_pool_claim_weight_max :: string
  label_pool_claim_weight_min :: string
  label_pool_parent :: string
  args_operator :: OperatorArgs
  pool_base_url :: string

definition status_interval :: duration where
  "status_interval = seconds 30"

definition install_all_crds ::
  "('d crd_call list \<Rightarrow> 'd crd_call \<Rightarrow> error + ObjectMeta option) \<Rightarrow>
   ('d crd_call list \<Rightarrow> 'd crd_call \<Rightarrow> error + unit) \<Rightarrow>
   OperatorArgs \<Rightarrow> (string \<times> 'd) \<Rightarrow> (string \<times> 'd) \<Rightarrow> (string \<times> 'd) \<Rightarrow> (string \<times> 'd) \<Rightarrow>
   ('d crd_call, error, unit) eff" where
  "install_all_crds ans_meta ans args hist cls claim pool =
     tryE (install_crd ans_meta ans args (fst hist) (snd hist)) (\<lambda>_.
     tryE (install_crd ans_meta ans args (fst cls) (snd cls)) (\<lambda>_.
     tryE (install_crd ans_meta ans args (fst claim) (snd claim)) (\<lambda>_.
     tryE (install_crd ans_meta ans args (fst pool) (snd pool)) ret)))"

section \<open>Statuses\<close>

definition commit_status ::
  "'w spec_api \<Rightarrow> ('k, ResourceStatus) resource_ops \<Rightarrow> 'k \<Rightarrow> Reason Status \<Rightarrow> Action spec_eff" where
  "commit_status A R object st =
     commit R accepted reason_str
       (\<lambda>name s. call (ans_unit A) (PatchResourceStatus name s))
       (\<lambda>k event. call (ans_unit A) (Publish (name_any (res_meta R k)) event))
       (spec_clock A) status_interval object st"

definition error_policy :: "'k \<Rightarrow> error \<Rightarrow> Action" where
  "error_policy k e = Requeue status_interval"

text \<open>Continue with the value of an inner result, or commit its status.\<close>

definition or_commit ::
  "'w spec_api \<Rightarrow> ('k, ResourceStatus) resource_ops \<Rightarrow> 'k \<Rightarrow> (Reason Status + 'a) spec_eff \<Rightarrow>
     ('a \<Rightarrow> Action spec_eff) \<Rightarrow> Action spec_eff" where
  "or_commit A R object m k =
     tryE m (\<lambda>r. case r of Inl st \<Rightarrow> commit_status A R object st | Inr a \<Rightarrow> k a)"

interpretation class_commit: committing class_ops "\<lambda>s k. k\<lparr>class_status := Some s\<rparr>" accepted reason_str
  by unfold_locales (simp add: reason_str_inj)

interpretation claim_commit: committing claim_ops "\<lambda>s k. k\<lparr>claim_status := Some s\<rparr>" accepted reason_str
  by unfold_locales

interpretation pool_commit: committing pool_ops "\<lambda>s k. k\<lparr>pool_status := Some s\<rparr>" accepted reason_str
  by unfold_locales

interpretation hist_commit: committing hist_ops "\<lambda>s k. k\<lparr>hist_status := Some s\<rparr>" accepted reason_str
  by unfold_locales

section \<open>Metrics classes\<close>

definition port_allowed :: "u16 \<Rightarrow> bool" where
  "port_allowed port \<longleftrightarrow> \<not> (port < 1024 \<and> port \<noteq> 80 \<and> port \<noteq> 443 \<or> port \<ge> 40000)"

definition port_undefined :: "Service \<Rightarrow> u16 \<Rightarrow> bool" where
  "port_undefined svc port \<longleftrightarrow>
     is_none_or (\<lambda>ports. list_all (\<lambda>p. port_number p \<noteq> uint port)
         (filter (\<lambda>p. is_none_or (\<lambda>protocol. protocol = ''TCP'') (port_protocol p)) ports))
       (Option.bind (svc_spec svc) spec_ports)"

definition validate_service :: "'w spec_api \<Rightarrow> Service \<Rightarrow> u16 \<Rightarrow> (Reason Status + unit) spec_eff" where
  "validate_service A svc port =
     (if \<not> port_allowed port then ret (Inl (invalid InvalidBackendRef ''Invalid port number'' False))
      else if port_undefined svc port
      then ret (Inl (invalid InvalidBackendRef ''Undefined port number'' True))
      else case build_url_by_service A svc port of
             Inl e \<Rightarrow> fail e
           | Inr (Inl e) \<Rightarrow> ret (Inl (invalid InvalidBackendRef e True))
           | Inr (Inr url) \<Rightarrow>
               tryE (ask (ans_http A) (GetHealth url)) (\<lambda>health.
               case health of
                 Inr _ \<Rightarrow> ret (Inr ())
               | Inl e \<Rightarrow> ret (Inl (invalid InvalidBackendRef
                   (''Unhealthy service: '' @ e @ '': '' @ url) True))))"

definition reconcile_class :: "'w spec_api \<Rightarrow> string \<Rightarrow> MetricsClassCrd \<Rightarrow> Action spec_eff" where
  "reconcile_class A controller cls =
     (if class_controller_name (class_spec cls) \<noteq> controller then ret AwaitChange
      else
        let backend = service_object (class_backend_ref (class_spec cls));
            port = service_port (class_backend_ref (class_spec cls));
            g = ref_group backend; kind = ref_kind backend; name = ref_name backend
        in if g = [] \<and> kind = ''Service'' then
             (case ref_namespace backend of
                Some namespace \<Rightarrow>
                  tryE (call (ans_service A) (GetService namespace name)) (\<lambda>found.
                  case found of
                    Some svc \<Rightarrow>
                      or_commit A class_ops cls (validate_service A svc port) (\<lambda>_.
                      commit_status A class_ops cls
                        (invalid Accepted ''Valid MetricsClass'' False))
                  | None \<Rightarrow> commit_status A class_ops cls (invalid InvalidBackendRef
                      (''Missing backend: '' @ kind @ ''/'' @ namespace @ ''/'' @ name) True))
              | None \<Rightarrow> commit_status A class_ops cls (invalid InvalidBackendRef
                  (''Required backend namespace: '' @ kind @ ''/???/'' @ name) False))
           else commit_status A class_ops cls (invalid InvalidBackendRef
                  (if g = [] then ''Unsupported backend kind: '' @ kind
                   else ''Unsupported backend kind: '' @ g @ ''/'' @ kind) False))"

section \<open>Children\<close>

definition child_owners :: "string \<Rightarrow> string \<Rightarrow> ObjectMeta \<Rightarrow> error + OwnerReference list" where
  "child_owners kind message m =
     (case owner_ref kind m of
        None \<Rightarrow> Inl (Panic message)
      | Some r \<Rightarrow> Inr [r\<lparr>owner_block_deletion := Some True, owner_controller := Some False\<rparr>])"

text \<open>The metadata of the children of a pool or a histogram.\<close>

definition child_template ::
  "string \<Rightarrow> string \<Rightarrow> string \<Rightarrow> ObjectMeta \<Rightarrow> ObjectMeta \<Rightarrow> OwnerReference list \<Rightarrow> ObjectMeta" where
  "child_template label_parent name namespace target own owners =
     meta_default\<lparr>meta_namespace := Some namespace,
       meta_annotations := Some (merged (meta_annotations target) (meta_annotations own)),
       meta_labels := Some (bt_insert label_parent name (merged (meta_labels target) (meta_labels own))),
       meta_owners := Some owners\<rparr>"

section \<open>Pool claims\<close>

definition claim_child ::
  "('w \<Rightarrow> string) \<Rightarrow> Args \<Rightarrow> ('w, 'v) PoolClaimCrd \<Rightarrow> string \<Rightarrow> ObjectMeta \<Rightarrow> OwnerReference list \<Rightarrow> ObjectMeta" where
  "claim_child f64_str args claim namespace target owners =
     (let own = claim_meta claim; name = name_any own; rs = resources (claim_spec claim);
          number = (\<lambda>x. unwrap_or [] (map_option f64_str x));
          annotations =
            bt_insert (label_pool_claim_weight_min args) (number (set_min rs))
            (bt_insert (label_pool_claim_weight_max args) (number (set_max rs))
            (bt_insert (label_pool_claim_weight_penalty args) (number (set_penalty rs))
              (merged (meta_annotations target) (meta_annotations own))));
          labels =
            bt_insert (label_pool_claim_weight args) (word_str (unwrap_or 1 (set_weight rs)))
            (bt_insert (label_pool_claim_priority args) (int_str (unwrap_or 0 (set_priority rs)))
            (bt_insert (label_pool_claim_lifecycle_pre_start args)
               (nat_str (length (pre_start (lifecycle (claim_spec claim)))))
            (bt_insert (label_pool_parent args) (pool_name (claim_spec claim))
            (bt_insert (label_pool_claim_parent args) name
              (merged (meta_labels target) (meta_labels own))))))
      in meta_default\<lparr>meta_name := Some name, meta_namespace := Some namespace,
           meta_annotations := Some annotations, meta_labels := Some labels,
           meta_owners := Some owners\<rparr>)"

definition claim_update :: "'w spec_api \<Rightarrow> string \<Rightarrow> string \<Rightarrow> ObjectMeta \<Rightarrow> ServiceSpec option \<Rightarrow> unit spec_eff" where
  "claim_update A namespace name child target_spec =
     update_or_create_service A namespace name \<lparr>svc_meta = child, svc_spec = mirror_spec target_spec\<rparr>"

definition reconcile_claim ::
  "'w spec_api \<Rightarrow> ('w \<Rightarrow> string) \<Rightarrow> Args \<Rightarrow> ('w, 'v) PoolClaimCrd \<Rightarrow> Action spec_eff" where
  "reconcile_claim A f64_str args claim =
     (case meta_namespace (claim_meta claim) of
        None \<Rightarrow> fail (Panic ''Namespaced resource'')
      | Some namespace \<Rightarrow>
          or_commit A claim_ops claim (get_pool A namespace (pool_name (claim_spec claim))) (\<lambda>pool.
          or_commit A claim_ops claim (get_target A namespace (pool_target_ref (pool_spec pool)))
            (\<lambda>(target_meta, target).
          tryE (lift_result (child_owners ''PoolClaim'' ''pool claim owner reference'' (claim_meta claim)))
            (\<lambda>owners.
          case target of
            ServiceTarget target_spec \<Rightarrow>
              tryE (claim_update A namespace (name_any (claim_meta claim))
                (claim_child f64_str args claim namespace target_meta owners) target_spec) (\<lambda>_.
              commit_status A claim_ops claim (invalid Accepted ''Valid PoolClaim'' False))))))"

definition selector_free :: "Service \<Rightarrow> bool" where
  "selector_free svc \<longleftrightarrow> is_none_or (\<lambda>spec. selector spec = None) (svc_spec svc)"

section \<open>Statuses that accept\<close>

lemma reason_str_Accepted [simp]: "reason_str r = ''Accepted'' \<longleftrightarrow> r = Accepted"
  by (cases r) simp_all

lemma accepted_iff:
  "is_accepted \<lparr>conditions = [into_condition accepted reason_str t st m]\<rparr> \<longleftrightarrow> status_reason st = Accepted"
  by (auto simp: is_accepted_def into_condition_def accepted_def)

text \<open>Calls that store no accepting status.\<close>

definition not_accepting :: "spec_call \<Rightarrow> bool" where
  "not_accepting c = (case c of PatchResourceStatus n s \<Rightarrow> \<not> is_accepted s | _ \<Rightarrow> True)"

lemma not_accepting_simps [simp]:
  "not_accepting (PatchResourceStatus n s) \<longleftrightarrow> \<not> is_accepted s"
  "not_accepting (Publish m e)" "not_accepting (GetService a b)" "not_accepting (GetHealth u)"
  "not_accepting (GetMetricsClass a)" "not_accepting (GetPool a b)" "not_accepting (GetServiceMetadata a b)"
  "not_accepting (CreateService a svc)" "not_accepting (ReplaceService a b svc)"
  by (simp_all add: not_accepting_def)

text \<open>The calls of \<open>commit_status\<close>: a status is stored when the conditions have changed.\<close>

definition plain_status :: "('k, ResourceStatus) resource_ops \<Rightarrow> bool" where
  "plain_status R \<longleftrightarrow> (\<forall>k cs. res_build_status R k cs = \<lparr>conditions = cs\<rparr>)"

lemma plain_ops [simp]: "plain_status class_ops" "plain_status claim_ops" "plain_status pool_ops" "plain_status hist_ops"
  by (simp_all add: plain_status_def class_ops_def claim_ops_def pool_ops_def hist_ops_def
       class_build_status_def claim_build_status_def pool_build_status_def hist_build_status_def)

lemma emits_commit_status:
  assumes "plain_status R" and "status_reason st \<noteq> Accepted"
  shows "emits not_accepting (commit_status A R object st)"
  using assms unfolding commit_status_def commit_def Let_def
  by (intro emits_intros) (simp_all add: plain_status_def accepted_iff)

lemma wp_commit_status:
  assumes "plain_status R" and "status_reason st \<noteq> Accepted" and "\<And>c. c \<in> set l \<Longrightarrow> not_accepting c"
  shows "wp (commit_status A R object st) (\<lambda>r l'. \<forall>c\<in>set l'. not_accepting c) l"
  by (rule wp_mono [OF wp_emits [OF emits_commit_status [OF assms(1,2), of A object]]])
     (use assms(3) in \<open>auto simp: list_all_iff\<close>)

lemma wp_triv: "(\<And>r l'. Q r l') \<Longrightarrow> wp m Q l"
  by (simp add: wp_def)

text \<open>What has to hold of a class when its status becomes accepted.\<close>

definition class_checked :: "'w spec_api \<Rightarrow> string \<Rightarrow> MetricsClassCrd \<Rightarrow> bool" where
  "class_checked A controller cls \<longleftrightarrow>
     (let backend = service_object (class_backend_ref (class_spec cls));
          port = service_port (class_backend_ref (class_spec cls))
      in class_controller_name (class_spec cls) = controller
         \<and> ref_group backend = [] \<and> ref_kind backend = ''Service''
         \<and> (\<exists>ns svc url. ref_namespace backend = Some ns
            \<and> ans_service A [] (GetService ns (ref_name backend)) = Inr (Some svc)
            \<and> port_allowed port \<and> \<not> port_undefined svc port
            \<and> build_url_by_service A svc port = Inr (Inr url)
            \<and> ans_http A [GetService ns (ref_name backend)] (GetHealth url) = Inr ()))"

lemma reconcile_class_calls:
  "wp (reconcile_class A controller cls)
     (\<lambda>r l. \<forall>c\<in>set l. \<not> not_accepting c \<longrightarrow> class_checked A controller cls) []"
proof (cases "class_checked A controller cls")
  case True
  then show ?thesis by (intro wp_triv) simp
next
  case False
  then show ?thesis
    unfolding reconcile_class_def or_commit_def validate_service_def Let_def
    by (auto simp: eff_simps class_checked_def Let_def invalid_def
          intro!: wp_commit_status split: option.splits sum.splits)
qed

text \<open>The labels by which a pool finds the service of a claim.\<close>

definition label_keys :: "Args \<Rightarrow> string list" where
  "label_keys args = [label_pool_claim_parent args, label_pool_parent args,
     label_pool_claim_lifecycle_pre_start args, label_pool_claim_priority args, label_pool_claim_weight args]"

definition serves_claim :: "Args \<Rightarrow> ('w, 'v) PoolClaimCrd \<Rightarrow> Service \<Rightarrow> bool" where
  "serves_claim args claim svc \<longleftrightarrow>
     meta_name (svc_meta svc) = Some (name_any (claim_meta claim))
     \<and> meta_namespace (svc_meta svc) = meta_namespace (claim_meta claim)
     \<and> label_of (svc_meta svc) (label_pool_parent args) = Some (pool_name (claim_spec claim))
     \<and> label_of (svc_meta svc) (label_pool_claim_parent args) = Some (name_any (claim_meta claim))
     \<and> selector_free svc"

lemma claim_child_serves:
  assumes "distinct (label_keys args)" and "meta_namespace (claim_meta claim) = Some ns"
  shows "serves_claim args claim
    \<lparr>svc_meta = claim_child f64_str args claim ns target owners, svc_spec = mirror_spec spec\<rparr>"
  using assms
  by (auto simp: serves_claim_def claim_child_def label_of_def bt_get_insert label_keys_def meta_default_def Let_def
       selector_free_def mirror_spec_def option.map_sel is_none_or_def split: option.splits)

definition claim_served :: "Args \<Rightarrow> ('w, 'v) PoolClaimCrd \<Rightarrow> spec_call list \<Rightarrow> bool" where
  "claim_served args claim l \<longleftrightarrow>
     (\<exists>ns svc. serves_claim args claim svc
        \<and> (CreateService ns svc \<in> set l \<or> ReplaceService ns (name_any (claim_meta claim)) svc \<in> set l))"

lemma commit_status_grows: "\<exists>cs. snd (commit_status A R object st l) = l @ cs"
proof -
  have "emits (\<lambda>_. True) (commit_status A R object st)"
    unfolding commit_status_def commit_def Let_def by (intro emits_intros) simp_all
  then show ?thesis by (auto simp: emits_def)
qed

lemma wp_commit_served:
  "claim_served args claim l \<Longrightarrow>
     wp (commit_status A R object st) (\<lambda>r l'. P r l' \<or> claim_served args claim l') l"
  using commit_status_grows [of A R object st l] by (fastforce simp: wp_def claim_served_def)

lemma wp_commit_unserved:
  assumes "plain_status R" and "status_reason st \<noteq> Accepted" and "\<forall>c\<in>set l. not_accepting c"
  shows "wp (commit_status A R object st) (\<lambda>r l'. (\<forall>c\<in>set l'. not_accepting c) \<or> claim_served args claim l') l"
  by (rule wp_mono [OF wp_commit_status [OF assms(1,2)]]) (use assms(3) in auto)

lemma wp_commit_claim:
  assumes "plain_status R"
    and "status_reason st \<noteq> Accepted \<and> (\<forall>c\<in>set l. not_accepting c) \<or> claim_served args claim l"
  shows "wp (commit_status A R object st) (\<lambda>r l'. (\<forall>c\<in>set l'. not_accepting c) \<or> claim_served args claim l') l"
  using assms wp_commit_unserved [OF assms(1)] wp_commit_served by fast

lemma reconcile_claim_calls:
  assumes "distinct (label_keys args)"
  shows "wp (reconcile_claim A f64_str args claim)
     (\<lambda>r l. (\<forall>c\<in>set l. not_accepting c) \<or> claim_served args claim l) []"
proof (cases "meta_namespace (claim_meta claim)")
  case None
  then show ?thesis by (simp add: reconcile_claim_def eff_simps)
next
  case (Some ns)
  note serves = claim_child_serves [OF assms Some]
  have served: "claim_served args claim (l @ [CreateService ns
        \<lparr>svc_meta = claim_child f64_str args claim ns target owners, svc_spec = mirror_spec spec\<rparr>])"
    "claim_served args claim (l @ [ReplaceService ns (name_any (claim_meta claim))
        \<lparr>svc_meta = claim_child f64_str args claim ns target owners, svc_spec = mirror_spec spec\<rparr>])" for l target owners spec
    using serves unfolding claim_served_def by (meson in_set_conv_decomp)+
  note served = served [of "[_, _, _]", simplified] served [of "[_, _]", simplified]
  show ?thesis
    unfolding reconcile_claim_def or_commit_def get_pool_def get_target_def claim_update_def
      update_or_create_service_def Let_def invalid_def
    using Some
    by (auto simp: eff_simps served intro!: wp_commit_claim
          split: option.splits sum.splits Target.splits)
qed

section \<open>Properties\<close>

text \<open>A metrics class becomes accepted only for its own controller, with a backend that is a service
  in a named namespace, that was found, defines the TCP port asked for in the allowed ranges, and
  answered its health check.\<close>

theorem accepted_class_is_checked:
  assumes "PatchResourceStatus n s \<in> set (calls_of (reconcile_class A controller cls))" and "is_accepted s"
  shows "class_checked A controller cls"
  using wp_calls [OF reconcile_class_calls [of A controller cls]] assms by fastforce

definition example_service :: Service where
  "example_service = \<lparr>svc_meta = meta_default\<lparr>meta_name := Some ''m'', meta_namespace := Some ''ns''\<rparr>,
     svc_spec = Some \<lparr>cluster_ip = Some ''None'', cluster_ips = None, external_ips = None, external_name = None,
       load_balancer_ip = None, publish_not_ready_addresses = None, selector = Some [(''app'', ''m'')],
       ip_families = None,
       spec_ports = Some [\<lparr>port_app_protocol = None, port_name = None, port_number = 8080, port_protocol = Some ''TCP''\<rparr>],
       spec_other = []\<rparr>\<rparr>"

definition example_target :: ObjectReference where
  "example_target = \<lparr>ref_group = [], ref_kind = ''Service'', ref_name = ''m'', ref_namespace = Some ''ns''\<rparr>"

definition example_class :: MetricsClassCrd where
  "example_class = \<lparr>class_meta = meta_default\<lparr>meta_name := Some ''c''\<rparr>,
     class_spec = \<lparr>class_controller_name = ''ark'', class_description = [],
       class_backend_ref = \<lparr>service_object = example_target, service_port = 8080\<rparr>\<rparr>,
     class_status = None\<rparr>"

definition example_pool :: PoolCrd where
  "example_pool = \<lparr>pool_meta = meta_default\<lparr>meta_name := Some ''p'', meta_namespace := Some ''ns''\<rparr>,
     pool_spec = \<lparr>pool_metrics_class_name = ''c'', pool_target_ref = example_target\<rparr>,
     pool_status = Some \<lparr>conditions = [into_condition accepted reason_str 0 (invalid Accepted [] False) meta_default]\<rparr>\<rparr>"

definition example_api :: "rat spec_api" where
  "example_api = \<lparr>ans_unit = \<lambda>l c. Inr (), ans_exists = \<lambda>l c. Inr False, ans_class = \<lambda>l c. Inr None,
     ans_pool = \<lambda>l c. Inr (Some example_pool), ans_service = \<lambda>l c. Inr (Some example_service),
     ans_slices = \<lambda>l c. Inr [], ans_services = \<lambda>l c. Inr [], ans_claims = \<lambda>l c. Inr [],
     ans_weights = \<lambda>l c. Inl [], ans_states = \<lambda>l c. Inl [], ans_http = \<lambda>l c. Inr (),
     spec_clock = \<lambda>l. 7, url_parse = \<lambda>s. Inr s\<rparr>"

definition accepted_status :: "ObjectMeta \<Rightarrow> string \<Rightarrow> ResourceStatus" where
  "accepted_status m message =
     \<lparr>conditions = [into_condition accepted reason_str 7 (invalid Accepted message False) m]\<rparr>"

lemma example_class_calls:
  "PatchResourceStatus ''c'' (accepted_status (class_meta example_class) ''Valid MetricsClass'')
     \<in> set (calls_of (reconcile_class example_api ''ark'' example_class))"
  by code_simp

lemma accepted_status_accepts: "is_accepted (accepted_status m message)"
  by (simp add: accepted_status_def accepted_iff invalid_def)

theorem accepted_class_is_checked_witness: "class_checked example_api ''ark'' example_class"
  by (rule accepted_class_is_checked [OF example_class_calls accepted_status_accepts])

text \<open>A pool claim becomes accepted only after its service was created or replaced, and that service
  carries the labels by which the pool finds it: the name of the pool and the name of the claim;
  it has no selector, so that the endpoints are only those the pool gives it.\<close>

theorem accepted_claim_is_served:
  assumes "distinct (label_keys args)"
    and "PatchResourceStatus n s \<in> set (calls_of (reconcile_claim A f64_str args claim))" and "is_accepted s"
  shows "\<exists>ns svc. serves_claim args claim svc
    \<and> (CreateService ns svc \<in> set (calls_of (reconcile_claim A f64_str args claim))
       \<or> ReplaceService ns (name_any (claim_meta claim)) svc \<in> set (calls_of (reconcile_claim A f64_str args claim)))"
  using wp_calls [OF reconcile_claim_calls [OF assms(1), of A f64_str claim]] assms(2,3)
  unfolding claim_served_def by fastforce

definition example_args :: Args where
  "example_args = \<lparr>label_histogram_parent = ''hp'', label_histogram_weight = ''hw'',
     label_pool_claim_lifecycle_pre_start = ''ps'', label_pool_claim_parent = ''cp'',
     label_pool_claim_priority = ''pr'', label_pool_claim_weight = ''w'',
     label_pool_claim_weight_penalty = ''wp'', label_pool_claim_weight_max = ''wx'',
     label_pool_claim_weight_min = ''wn'', label_pool_parent = ''pp'',
     args_operator = \<lparr>controller_name = ''ark'', controller_pod_name = None, install_crds = False,
       args_namespace = None, upgrade_crds = False\<rparr>, pool_base_url = ''http://pool''\<rparr>"

definition example_claim :: "(rat, string) PoolClaimCrd" where
  "example_claim = \<lparr>claim_meta = meta_default\<lparr>meta_name := Some ''a'', meta_namespace := Some ''ns'', meta_uid := Some ''u''\<rparr>,
     claim_spec = \<lparr>pool_name = ''p'', lifecycle = lifecycle_default, resources = settings_default\<rparr>,
     claim_status = None\<rparr>"

lemma example_claim_calls:
  "PatchResourceStatus ''a'' (accepted_status (claim_meta example_claim) ''Valid PoolClaim'')
     \<in> set (calls_of (reconcile_claim example_api (\<lambda>_. []) example_args example_claim))"
  by code_simp

theorem accepted_claim_is_served_witness:
  "\<exists>svc. serves_claim example_args example_claim svc"
  using accepted_claim_is_served [OF _ example_claim_calls accepted_status_accepts]
  by (auto simp: label_keys_def example_args_def)

text \<open>Reconciling with the same verdict does not write the status again, so that the controller does
  not wake itself up: after a status was stored, committing one with the same reason and message
  only publishes an event; a different one is stored.\<close>

theorem same_status_is_not_written:
  fixes A :: "'w spec_api" and cls :: MetricsClassCrd
  assumes "meta_name (class_meta cls) = Some n"
    and "ans_unit A l (PatchResourceStatus n s) = Inr ()"
    and "s = \<lparr>conditions = [into_condition accepted reason_str (spec_clock A l) st' (class_meta cls)]\<rparr>"
  shows "snd (commit_status A class_ops
      (cls\<lparr>class_status := Some \<lparr>conditions = [into_condition accepted reason_str t st (class_meta cls)]\<rparr>\<rparr>) st' l) =
    l @ (if status_reason st' \<noteq> status_reason st \<or> status_message st' \<noteq> status_message st
         then [PatchResourceStatus n s] else [])
      @ [Publish n (status_event accepted reason_str (status_reason st') (status_message st'))]"
proof -
  have stored: "class_commit.committed t st cls =
      cls\<lparr>class_status := Some \<lparr>conditions = [into_condition accepted reason_str t st (class_meta cls)]\<rparr>\<rparr>"
    by (simp add: class_commit.committed_def) (simp add: class_ops_def class_build_status_def)
  show ?thesis
    using assms unfolding commit_status_def stored [symmetric] class_commit.commit_again
    unfolding stored
    by (simp add: tryE_def call_def ret_def class_ops_def class_build_status_def name_any_def split: sum.splits)
qed

theorem same_status_is_not_written_witness:
  "snd (commit_status example_api class_ops
      (example_class\<lparr>class_status := Some \<lparr>conditions = [into_condition accepted reason_str 3 (invalid Pending ''wait'' True) (class_meta example_class)]\<rparr>\<rparr>)
      (invalid Pending ''wait'' True) []) =
    [Publish ''c'' (status_event accepted reason_str Pending ''wait'')]"
  using same_status_is_not_written [of example_class "''c''" example_api "[]" _ "invalid Pending ''wait'' True" 3 "invalid Pending ''wait'' True"]
  by (simp add: example_class_def example_api_def invalid_def)

end
