(* ===== verification/Spectrum_Histogram.thy ===== *)
theory Spectrum_Histogram
  imports Spectrum_Targets "HOL-Library.Sublist"
begin

unbundle bit_operations_syntax

text \<open>
  Histograms (\<^verbatim>\<open>crates/openark-spectrum-operator/src/utils/histogram.rs\<close>): the weights are
  scaled to \<open>0 \<dots> 2 ^ (sz - 1)\<close>, and an item is in the buckets of the bits of its
  scaled weight; with \<open>accumulate\<close> also in all the buckets below.  Weights are computed
  exactly here, in an archimedean field (\<open>'w\<close>, for \<^verbatim>\<open>f64\<close>): rounding, infinities
  and NaN are not modelled.  Bits are those of \<^verbatim>\<open>u64\<close>.
\<close>

section \<open>Building a histogram\<close>

definition DEFAULT_WEIGHT :: u64 where
  "DEFAULT_WEIGHT = - 1 div 2"

text \<open>\<^verbatim>\<open>floor().0 as u64\<close>: the cast of a float saturates.\<close>

definition floor_u64 :: "'w::floor_ceiling \<Rightarrow> u64" where
  "floor_u64 x = (let n = \<lfloor>x\<rfloor> in if n < 0 then 0 else if 2 ^ 64 \<le> n then - 1 else word_of_int n)"

definition hist_bounds :: "'w::{zero,linorder} \<Rightarrow> 'w option list \<Rightarrow> 'w \<times> 'w" where
  "hist_bounds f64_max ws =
     (let (mn, mx) = fold (\<lambda>e (mn, mx). (min mn e, max mx e)) ws (Some f64_max, None)
      in (unwrap_or 0 mn, unwrap_or 0 mx))"

definition hist_scale :: "nat \<Rightarrow> 'w::ring_1" where
  "hist_scale sz = of_int (uint (push_bit (sz - 1) (1 :: u64)))"

definition hist_normalize :: "'w::floor_ceiling \<Rightarrow> nat \<Rightarrow> 'w option list \<Rightarrow> u64 list" where
  "hist_normalize f64_max sz ws =
     (let (mn, mx) = hist_bounds f64_max ws
      in if mn < mx then
           map (\<lambda>weight. case weight of
                 Some w \<Rightarrow> floor_u64 ((w - mn) / (mx - mn) * hist_scale sz)
               | None \<Rightarrow> DEFAULT_WEIGHT) ws
         else replicate (length ws) DEFAULT_WEIGHT)"

definition has_bit :: "u64 \<Rightarrow> nat \<Rightarrow> bool" where
  "has_bit bits offset = (drop_bit offset bits AND 1 = 1)"

text \<open>The loop over the offsets from \<open>size - 1\<close> down to 0.\<close>

fun fill_bits :: "nat \<Rightarrow> u64 \<Rightarrow> u64" where
  "fill_bits 0 bits = bits"
| "fill_bits (Suc offset) bits =
     (if has_bit bits offset then push_bit (offset + 1) 1 - 1 else fill_bits offset bits)"

definition hist_bits :: "bool \<Rightarrow> nat \<Rightarrow> u64 \<Rightarrow> u64" where
  "hist_bits accum sz w =
     (let bits = max (w AND (push_bit sz 1 - 1)) 1
      in if accum then fill_bits sz bits else bits)"

definition hist_filters :: "bool \<Rightarrow> nat \<Rightarrow> u64 list \<Rightarrow> bool list list" where
  "hist_filters accum sz ws =
     map (\<lambda>w. map (has_bit (hist_bits accum sz w)) [0..<sz]) ws"

definition hist_collect :: "nat \<Rightarrow> 't list \<Rightarrow> bool list list \<Rightarrow> 't list list" where
  "hist_collect sz data filters =
     map (\<lambda>offset. map fst (filter (\<lambda>(_, f). f ! offset) (zip data filters))) [0..<sz]"

definition hist_build ::
  "'w::floor_ceiling \<Rightarrow> HistogramSettings \<Rightarrow> 't list \<Rightarrow> 'w option list \<Rightarrow>
     error + (Reason Status + 't list list)" where
  "hist_build f64_max settings data ws =
     (let accum = unwrap_or False (accumulate settings); sz = unat (hist_size settings)
      in if length data \<noteq> length ws then Inl (Panic ''assertion failed'')
         else if sz = 0 then
           Inr (Inl (invalid InvalidHistogram ''Invalid histogram size: Too small'' False))
         else if sz > 63 then
           Inr (Inl (invalid InvalidHistogram ''Invalid histogram size: Too large'' False))
         else Inr (Inr (hist_collect sz data
                (hist_filters accum sz (hist_normalize f64_max sz ws)))))"

section \<open>Bits\<close>

lemma has_bit_iff: "has_bit bits k = bit bits k"
  by (simp add: has_bit_def and_one_eq bit_iff_odd_drop_bit odd_iff_mod_2_eq_one)

lemma push_mask: "push_bit n 1 - 1 = (mask n :: u64)"
  by (simp add: push_bit_eq_mult mask_eq_exp_minus_1)

lemma bit_push_mask: "n < 64 \<Longrightarrow> bit (push_bit n 1 - 1 :: u64) k \<longleftrightarrow> k < n"
  unfolding push_mask by (auto simp: bit_mask_iff)

lemma and_push_mask: "w AND (push_bit n 1 - 1) = take_bit n (w :: u64)"
  unfolding push_mask by (simp add: take_bit_eq_mask)

text \<open>The highest bit of a word below \<open>2 ^ Suc n\<close>.\<close>

lemma high_bit:
  fixes w :: u64
  assumes "uint w < 2 ^ Suc n" and "n < 64"
  shows "bit w n \<longleftrightarrow> 2 ^ n \<le> uint w"
proof -
  have bit_eq: "bit w n \<longleftrightarrow> odd (uint w div 2 ^ n)"
    using assms(2) by (simp add: bit_word_iff_drop_bit_and bit_uint_iff flip: bit_iff_odd)
  show ?thesis
  proof (cases "2 ^ n \<le> uint w")
    case True
    then have "uint w div 2 ^ n = 1"
      using assms(1) by (intro int_div_pos_eq [of _ _ _ "uint w - 2 ^ n"]) auto
    with True bit_eq show ?thesis by simp
  next
    case False
    then have "uint w div 2 ^ n = 0" by simp
    with False bit_eq show ?thesis by simp
  qed
qed

text \<open>Filling gives the buckets whose number's power the weight reaches.\<close>

lemma fill_bits_iff:
  "1 \<le> uint b \<Longrightarrow> uint b < 2 ^ n \<Longrightarrow> n \<le> 63 \<Longrightarrow> has_bit (fill_bits n b) k \<longleftrightarrow> 2 ^ k \<le> uint b"
proof (induction n)
  case 0
  then show ?case by simp
next
  case (Suc n)
  have hb: "has_bit b n \<longleftrightarrow> 2 ^ n \<le> uint b"
    unfolding has_bit_iff using Suc.prems by (intro high_bit) auto
  show ?case
  proof (cases "has_bit b n")
    case True
    have "2 ^ k \<le> uint b \<longleftrightarrow> k \<le> n"
    proof
      assume "2 ^ k \<le> uint b"
      then have "(2 :: int) ^ k < 2 ^ Suc n" using Suc.prems(2) by linarith
      then show "k \<le> n" by (metis less_Suc_eq_le one_less_numeral_iff power_less_imp_less_exp semiring_norm(76))
    next
      assume "k \<le> n"
      then have "(2 :: int) ^ k \<le> 2 ^ n" by simp
      then show "2 ^ k \<le> uint b" using True hb by linarith
    qed
    moreover have "has_bit (fill_bits (Suc n) b) k \<longleftrightarrow> k \<le> n"
      using True Suc.prems(3) bit_push_mask [of "Suc n" k] by (simp add: has_bit_iff less_Suc_eq_le)
    ultimately show ?thesis by simp
  next
    case False
    with hb Suc show ?thesis by simp
  qed
qed

definition base_bits :: "nat \<Rightarrow> u64 \<Rightarrow> u64" where
  "base_bits sz w = max (take_bit sz w) 1"

lemma hist_bits_eq: "hist_bits accum sz w = (if accum then fill_bits sz (base_bits sz w) else base_bits sz w)"
  unfolding hist_bits_def base_bits_def and_push_mask Let_def by simp

lemma uint_base_bits: "uint (base_bits sz w) = max (uint w mod 2 ^ sz) 1" if "sz \<le> 63"
proof -
  have "uint (take_bit sz w) = uint w mod 2 ^ sz"
    using that unfolding unsigned_take_bit_eq by (simp add: take_bit_eq_mod)
  then show ?thesis
    unfolding base_bits_def max_def word_le_def if_distrib [of uint] by (simp only: uint_1)
qed

lemma base_bits_range:
  assumes "0 < sz" and "sz \<le> 63"
  shows "1 \<le> uint (base_bits sz w)" "uint (base_bits sz w) < 2 ^ sz"
proof -
  have "(1 :: int) < 2 ^ sz" using assms(1) by simp
  then show "1 \<le> uint (base_bits sz w)" "uint (base_bits sz w) < 2 ^ sz"
    using assms(2) by (auto simp: uint_base_bits)
qed

lemma some_bit:
  assumes "0 < sz" and "sz \<le> 63"
  shows "\<exists>k. k < sz \<and> has_bit (hist_bits accum sz w) k"
proof (cases accum)
  case True
  then show ?thesis
    using assms base_bits_range [OF assms, of w] by (auto simp: hist_bits_eq fill_bits_iff intro!: exI [of _ 0])
next
  case False
  have "base_bits sz w \<noteq> 0" using base_bits_range [OF assms, of w] by auto
  then obtain k where k: "bit (base_bits sz w) k" by (auto simp: bit_eq_iff)
  have "take_bit sz (base_bits sz w) = base_bits sz w"
    using assms by (auto simp: base_bits_def max_def take_bit_of_1)
  then have "k < sz" using k by (metis bit_take_bit_iff)
  with k False show ?thesis by (auto simp: hist_bits_eq has_bit_iff)
qed

section \<open>Scaled weights\<close>

lemma floor_u64_mono:
  fixes x y :: "'w::floor_ceiling"
  assumes "x \<le> y"
  shows "uint (floor_u64 x) \<le> uint (floor_u64 y)"
proof -
  have f: "\<lfloor>x\<rfloor> \<le> \<lfloor>y\<rfloor>" using assms by (rule floor_mono)
  have small: "uint (word_of_int n :: u64) = n" if "0 \<le> n" "n < 2 ^ 64" for n
    using that by (simp add: uint_word_of_int)
  have top: "uint (- 1 :: u64) = 2 ^ 64 - 1" by (simp add: unsigned_minus_1_eq_mask mask_eq_exp_minus_1)
  have bound: "uint (w :: u64) \<le> 2 ^ 64 - 1" for w
    using uint_bounded [of w] by simp
  consider "\<lfloor>x\<rfloor> < 0" | "2 ^ 64 \<le> \<lfloor>y\<rfloor>" | "0 \<le> \<lfloor>x\<rfloor>" "\<lfloor>y\<rfloor> < 2 ^ 64" by linarith
  then show ?thesis
  proof cases
    case 1
    then show ?thesis by (simp add: floor_u64_def)
  next
    case 2
    then have "floor_u64 y = - 1" by (simp add: floor_u64_def Let_def)
    with bound top show ?thesis by (simp only:)
  next
    case 3
    with f have range: "\<not> \<lfloor>x\<rfloor> < 0" "\<not> 2 ^ 64 \<le> \<lfloor>x\<rfloor>" "\<not> \<lfloor>y\<rfloor> < 0" "\<not> 2 ^ 64 \<le> \<lfloor>y\<rfloor>"
      by linarith+
    have "floor_u64 x = word_of_int \<lfloor>x\<rfloor>" "floor_u64 y = word_of_int \<lfloor>y\<rfloor>"
      unfolding floor_u64_def Let_def by (simp_all only: range if_False)
    moreover have "uint (word_of_int \<lfloor>x\<rfloor> :: u64) = \<lfloor>x\<rfloor>" "uint (word_of_int \<lfloor>y\<rfloor> :: u64) = \<lfloor>y\<rfloor>"
      using range by (auto intro!: small)
    ultimately show ?thesis using f by (simp only:)
  qed
qed

lemma floor_u64_of_int:
  assumes "0 \<le> n" and "n < 2 ^ 64"
  shows "uint (floor_u64 (of_int n :: 'w::floor_ceiling)) = n"
proof -
  have "floor_u64 (of_int n :: 'w) = word_of_int n"
    using assms by (simp add: floor_u64_def Let_def)
  with assms show ?thesis by (simp add: uint_word_of_int)
qed

lemma floor_u64_le:
  fixes x :: "'w::floor_ceiling"
  assumes "x \<le> of_int n" and "0 \<le> n" and "n < 2 ^ 64"
  shows "uint (floor_u64 x) \<le> n"
  using floor_u64_mono [OF assms(1)] floor_u64_of_int [OF assms(2,3), where 'w = 'w] by (simp only:)

lemma hist_scale_eq: "0 < sz \<Longrightarrow> sz \<le> 63 \<Longrightarrow> hist_scale sz = of_int (2 ^ (sz - 1))"
proof -
  assume "0 < sz" "sz \<le> 63"
  then have "(2 :: int) ^ (sz - 1) < 2 ^ 64"
    by (intro power_strict_increasing) auto
  then have "uint (push_bit (sz - 1) (1 :: u64)) = 2 ^ (sz - 1)"
    unfolding unsigned_push_bit_eq by (simp add: take_bit_eq_mod)
  then show ?thesis by (simp only: hist_scale_def)
qed

text \<open>The bounds over the known weights; one unknown weight makes the minimum zero.\<close>

lemma bounds_fold:
  fixes lo hi :: "'w::linorder option"
  shows "fst (fold (\<lambda>e (mn, mx). (min mn e, max mx e)) ws (lo, hi)) \<le> lo"
    "\<And>e. e \<in> set ws \<Longrightarrow> fst (fold (\<lambda>e (mn, mx). (min mn e, max mx e)) ws (lo, hi)) \<le> e"
    "hi \<le> snd (fold (\<lambda>e (mn, mx). (min mn e, max mx e)) ws (lo, hi))"
    "\<And>e. e \<in> set ws \<Longrightarrow> e \<le> snd (fold (\<lambda>e (mn, mx). (min mn e, max mx e)) ws (lo, hi))"
proof (induction ws arbitrary: lo hi)
  case (Cons x xs)
  { case 1 show ?case using Cons.IH(1) [of "min lo x" "max hi x"] by simp
  next case (2 e) show ?case
      using 2 Cons.IH(1) [of "min lo x" "max hi x"] Cons.IH(2) [of e "min lo x" "max hi x"] by auto
  next case 3 show ?case using Cons.IH(3) [of "max hi x" "min lo x"] by simp
  next case (4 e) show ?case
      using 4 Cons.IH(3) [of "max hi x" "min lo x"] Cons.IH(4) [of e "min lo x" "max hi x"] by auto }
qed simp_all

lemma hist_bounds_max:
  assumes "Some w \<in> set ws"
  shows "w \<le> snd (hist_bounds f64_max ws)"
  using bounds_fold(4) [OF assms, of "Some f64_max" None]
  by (auto simp: hist_bounds_def unwrap_or_def Let_def split: prod.splits option.splits)

lemma bounds_fold_attained:
  fixes lo hi :: "'w::linorder option"
  shows "snd (fold (\<lambda>e (mn, mx). (min mn e, max mx e)) ws (lo, hi)) \<in> insert hi (set ws)"
proof (induction ws arbitrary: lo hi)
  case (Cons x xs)
  show ?case using Cons.IH [of "min lo x" "max hi x"] by (auto simp: max_def split: if_splits)
qed simp

text \<open>The maximum is the weight of the heaviest item.\<close>

lemma hist_bounds_heaviest:
  assumes "Some w \<in> set ws" and "\<And>v. Some v \<in> set ws \<Longrightarrow> v \<le> w"
  shows "snd (hist_bounds f64_max ws) = w"
proof -
  let ?hi = "snd (fold (\<lambda>e (mn, mx). (min mn e, max mx e)) ws (Some f64_max, None))"
  have "Some w \<le> ?hi" using bounds_fold(4) [OF assms(1)] .
  then obtain v where v: "?hi = Some v" "w \<le> v" by (cases ?hi) auto
  then have "Some v \<in> set ws"
    using bounds_fold_attained [of ws "Some f64_max" None] by simp
  then have "v = w" using assms(2) v(2) by force
  with v(1) show ?thesis
    by (auto simp: hist_bounds_def Let_def split: prod.splits)
qed

lemma hist_bounds_unknown:
  assumes "None \<in> set ws"
  shows "fst (hist_bounds f64_max ws) = 0"
  using bounds_fold(2) [OF assms, of "Some f64_max" None]
  by (auto simp: hist_bounds_def unwrap_or_def Let_def split: prod.splits option.splits)

section \<open>The buckets\<close>

text \<open>Whether the item with this scaled weight is in bucket \<open>k\<close>.\<close>

definition in_bucket :: "bool \<Rightarrow> nat \<Rightarrow> u64 \<Rightarrow> nat \<Rightarrow> bool" where
  "in_bucket accum sz w k = has_bit (hist_bits accum sz w) k"

lemma hist_build_ok:
  assumes "hist_build f64_max settings data ws = Inr (Inr bs)"
  shows "length data = length ws" "0 < unat (hist_size settings)" "unat (hist_size settings) \<le> 63"
    "bs = hist_collect (unat (hist_size settings)) data
       (hist_filters (unwrap_or False (accumulate settings)) (unat (hist_size settings))
         (hist_normalize f64_max (unat (hist_size settings)) ws))"
  using assms by (auto simp: hist_build_def Let_def split: if_splits)

lemma length_normalize [simp]: "length (hist_normalize f64_max sz ws) = length ws"
  by (simp add: hist_normalize_def split: prod.splits)

text \<open>A bucket holds the items at the positions whose scaled weight is in it, in their order.\<close>

lemma bucket_nth:
  assumes "k < sz" and "length data = length ns"
  shows "hist_collect sz data (hist_filters accum sz ns) ! k =
     map (nth data) (filter (\<lambda>i. in_bucket accum sz (ns ! i) k) [0..<length ns])"
proof -
  let ?f = "\<lambda>w. map (has_bit (hist_bits accum sz w)) [0..<sz]"
  have "zip data (map ?f ns) = map (\<lambda>i. (data ! i, ?f (ns ! i))) [0..<length ns]"
    using assms(2) by (intro nth_equalityI) auto
  then show ?thesis
    using assms(1) by (simp add: hist_collect_def hist_filters_def filter_map comp_def in_bucket_def)
qed

lemma in_bucket_nth:
  assumes "k < sz" and "length data = length ns" and "distinct data" and "i < length ns"
  shows "data ! i \<in> set (hist_collect sz data (hist_filters accum sz ns) ! k) \<longleftrightarrow> in_bucket accum sz (ns ! i) k"
  using assms by (auto simp: bucket_nth nth_eq_iff_index_eq)

lemma in_bucket_accum:
  assumes "0 < sz" and "sz \<le> 63"
  shows "in_bucket True sz w k \<longleftrightarrow> 2 ^ k \<le> max (uint w mod 2 ^ sz) 1"
  using base_bits_range [OF assms, of w] assms
  by (simp add: in_bucket_def hist_bits_eq fill_bits_iff flip: uint_base_bits)

lemma in_bucket_default:
  assumes "k < sz" and "sz \<le> 63"
  shows "in_bucket accum sz DEFAULT_WEIGHT k"
proof -
  have d: "DEFAULT_WEIGHT = mask 63"
    by (simp add: DEFAULT_WEIGHT_def mask_eq_exp_minus_1)
  have "take_bit sz DEFAULT_WEIGHT = (mask sz :: u64)"
    using assms unfolding d by (simp add: take_bit_of_mask min_def)
  moreover have "max (mask sz) 1 = (mask sz :: u64)"
  proof -
    have "bit (mask sz :: u64) 0" using assms by (simp add: bit_mask_iff)
    then have "mask sz \<noteq> (0 :: u64)" by (metis bit_0_eq bot_apply bot_bool_def)
    then have "0 < unat (mask sz :: u64)" by (simp only: unat_gt_0 simp_thms)
    then have "(1 :: u64) \<le> mask sz" by (simp only: word_le_nat_alt unat_1 Suc_le_eq One_nat_def)
    then show ?thesis by (simp add: max_def)
  qed
  ultimately have base: "base_bits sz DEFAULT_WEIGHT = mask sz"
    unfolding base_bits_def by (simp only:)
  show ?thesis
  proof (cases accum)
    case True
    have "bit (base_bits sz DEFAULT_WEIGHT) (sz - 1)"
      using assms unfolding base by (simp add: bit_mask_iff)
    then have "fill_bits sz (base_bits sz DEFAULT_WEIGHT) = push_bit sz 1 - 1"
      using assms by (cases sz) (simp_all add: has_bit_iff)
    with True assms show ?thesis
      using bit_push_mask [of sz k] by (simp add: in_bucket_def hist_bits_eq has_bit_iff)
  next
    case False
    with assms base show ?thesis
      by (simp add: in_bucket_def hist_bits_eq has_bit_iff bit_mask_iff)
  qed
qed

lemma buckets_subseq:
  assumes "k < sz" and "length data = length ns"
  shows "subseq (hist_collect sz data (hist_filters accum sz ns) ! k) data"
proof -
  have "subseq (map (nth data) (filter (\<lambda>i. in_bucket accum sz (ns ! i) k) [0..<length ns]))
          (map (nth data) [0..<length ns])"
    by (intro subseq_map subseq_filter_left)
  moreover have "map (nth data) [0..<length ns] = data"
    using assms(2) by (metis map_nth)
  ultimately show ?thesis using assms by (simp only: bucket_nth)
qed

lemma buckets_cover:
  assumes "0 < sz" and "sz \<le> 63" and "length data = length ns"
  shows "set data \<subseteq> (\<Union>b\<in>set (hist_collect sz data (hist_filters accum sz ns)). set b)"
proof
  fix x assume "x \<in> set data"
  then obtain i where i: "i < length ns" "x = data ! i"
    using assms(3) by (metis in_set_conv_nth)
  obtain k where k: "k < sz" "in_bucket accum sz (ns ! i) k"
    using some_bit [OF assms(1,2)] unfolding in_bucket_def by blast
  have "x \<in> set (hist_collect sz data (hist_filters accum sz ns) ! k)"
    using i k assms(3) by (auto simp: bucket_nth)
  moreover have "hist_collect sz data (hist_filters accum sz ns) ! k \<in> set (hist_collect sz data (hist_filters accum sz ns))"
    using k by (intro nth_mem) (simp add: hist_collect_def)
  ultimately show "x \<in> (\<Union>b\<in>set (hist_collect sz data (hist_filters accum sz ns)). set b)"
    by blast
qed

text \<open>Scaled weights stay below the scale, and heavier ones are not smaller.\<close>

lemma normalize_known:
  assumes "i < length ws" and "ws ! i = Some w" and "hist_bounds f64_max ws = (mn, mx)" and "mn < mx"
  shows "hist_normalize f64_max sz ws ! i = floor_u64 ((w - mn) / (mx - mn) * hist_scale sz)"
  using assms by (simp add: hist_normalize_def)

lemma normalize_uniform:
  assumes "i < length ws" and "hist_bounds f64_max ws = (mn, mx)" and "\<not> mn < mx \<or> ws ! i = None"
  shows "hist_normalize f64_max sz ws ! i = DEFAULT_WEIGHT"
  using assms by (auto simp: hist_normalize_def)

lemma normalize_range:
  assumes "0 < sz" "sz \<le> 63" and "i < length ws" "ws ! i = Some w"
    and "hist_bounds f64_max ws = (mn, mx)" "mn < mx"
  shows "uint (hist_normalize f64_max sz ws ! i) \<le> 2 ^ (sz - 1)"
proof -
  have "w \<le> mx"
    using hist_bounds_max [of w ws f64_max] assms(3,4,5) by (metis nth_mem snd_conv)
  then have "(w - mn) / (mx - mn) \<le> 1" using assms(6) by simp
  then have "(w - mn) / (mx - mn) * hist_scale sz \<le> 1 * hist_scale sz"
    using assms(1,2) by (intro mult_right_mono) (simp_all add: hist_scale_eq)
  then have "uint (floor_u64 ((w - mn) / (mx - mn) * hist_scale sz)) \<le> 2 ^ (sz - 1)"
    using assms(1,2)
    by (intro floor_u64_le) (auto simp: hist_scale_eq intro!: power_strict_increasing [of "sz - 1" 64 "2 :: int", simplified])
  then show ?thesis using assms(3-6) by (simp only: normalize_known)
qed

lemma normalize_mono:
  assumes "0 < sz" "sz \<le> 63" and "i < length ws" "ws ! i = Some w" and "j < length ws" "ws ! j = Some v"
    and "w \<le> v"
  shows "uint (hist_normalize f64_max sz ws ! i) mod 2 ^ sz \<le> uint (hist_normalize f64_max sz ws ! j) mod 2 ^ sz"
proof -
  obtain mn mx where b: "hist_bounds f64_max ws = (mn, mx)" by force
  show ?thesis
  proof (cases "mn < mx")
    case False
    then show ?thesis using normalize_uniform [OF _ b] assms(3,5) by simp
  next
    case True
    have small: "uint (hist_normalize f64_max sz ws ! a) < 2 ^ sz" if "a < length ws" "ws ! a = Some u" for a u
    proof -
      have "(2 :: int) ^ (sz - 1) < 2 ^ sz" using assms(1) by (intro power_strict_increasing) auto
      with normalize_range [OF assms(1,2) that b True] show ?thesis by (rule le_less_trans)
    qed
    have "(w - mn) / (mx - mn) * hist_scale sz \<le> (v - mn) / (mx - mn) * hist_scale sz"
      using assms(1,2,7) True by (intro mult_right_mono divide_right_mono) (simp_all add: hist_scale_eq)
    from floor_u64_mono [OF this] show ?thesis
      using small [OF assms(3,4)] small [OF assms(5,6)]
      by (simp only: normalize_known [OF assms(3,4) b True] normalize_known [OF assms(5,6) b True]
            mod_pos_pos_trivial uint_ge_0)
  qed
qed

lemma in_last_bucket:
  assumes "0 < sz" and "sz \<le> 63" and "uint w = 2 ^ (sz - 1)"
  shows "in_bucket accum sz w (sz - 1)"
proof -
  have "(2 :: int) ^ (sz - 1) < 2 ^ sz" using assms(1) by (intro power_strict_increasing) auto
  then have base: "uint (base_bits sz w) = 2 ^ (sz - 1)"
    using assms(2,3) one_le_power [of "2 :: int" "sz - 1"] by (simp only: uint_base_bits mod_pos_pos_trivial) simp
  have "bit (base_bits sz w) (sz - 1)"
    using high_bit [of "base_bits sz w" "sz - 1"] base base_bits_range [OF assms(1,2), of w] assms(1,2) by simp
  then show ?thesis
    using fill_bits_iff [of "base_bits sz w" sz "sz - 1"] base base_bits_range [OF assms(1,2), of w] assms(2)
    by (simp add: in_bucket_def hist_bits_eq has_bit_iff)
qed

section \<open>Properties\<close>

definition example_settings :: HistogramSettings where
  "example_settings = \<lparr>accumulate = Some True, hist_interval = None, hist_size = 3\<rparr>"

lemma example_hist:
  "hist_build (1000 :: rat) example_settings [''a'', ''b'', ''c''] [Some 1, Some 3, None] =
     Inr (Inr [[''a'', ''b'', ''c''], [''b'', ''c''], [''b'', ''c'']])"
  by code_simp

text \<open>A histogram has as many buckets as asked for, at least one and at most 63; every bucket holds
  items of the data in their order, and every item is in some bucket: none is lost.\<close>

theorem histogram_covers:
  assumes "hist_build f64_max settings data ws = Inr (Inr bs)"
  shows "length bs = unat (hist_size settings) \<and> 1 \<le> length bs \<and> length bs \<le> 63
    \<and> (\<forall>b\<in>set bs. subseq b data) \<and> (\<Union>b\<in>set bs. set b) = set data"
proof -
  note ok = hist_build_ok [OF assms]
  have len: "length bs = unat (hist_size settings)"
    using ok(4) by (simp add: hist_collect_def)
  have sub: "\<forall>b\<in>set bs. subseq b data"
    using ok(1,4) len by (auto simp: in_set_conv_nth intro!: buckets_subseq)
  then have "(\<Union>b\<in>set bs. set b) \<subseteq> set data"
    by (auto dest!: bspec elim: list_emb_set)
  moreover have "set data \<subseteq> (\<Union>b\<in>set bs. set b)"
    unfolding ok(4) using ok(1-3) by (intro buckets_cover) auto
  ultimately show ?thesis using len sub ok(2,3) by auto
qed

theorem histogram_covers_witness:
  "length [[''a'', ''b'', ''c''], [''b'', ''c''], [''b'', ''c'']] = unat (hist_size example_settings)
   \<and> subseq [''b'', ''c''] [''a'', ''b'', ''c'']"
  using histogram_covers [OF example_hist] by simp

text \<open>With \<^verbatim>\<open>accumulate\<close>, of two items with known weights the heavier one is in every bucket
  the lighter one is in.\<close>

theorem heavier_in_every_bucket:
  assumes "hist_build f64_max settings data ws = Inr (Inr bs)" and "accumulate settings = Some True"
    and "distinct data" and "i < length ws" and "ws ! i = Some w" and "j < length ws" and "ws ! j = Some v"
    and "w \<le> v" and "k < length bs" and "data ! i \<in> set (bs ! k)"
  shows "data ! j \<in> set (bs ! k)"
proof -
  let ?sz = "unat (hist_size settings)"
  note ok = hist_build_ok [OF assms(1)]
  have k: "k < ?sz" using ok(4) assms(9) by (simp add: hist_collect_def)
  have bucket: "data ! a \<in> set (bs ! k) \<longleftrightarrow> in_bucket True ?sz (hist_normalize f64_max ?sz ws ! a) k"
    if "a < length ws" for a
    unfolding ok(4) using in_bucket_nth [OF k _ assms(3)] ok(1) that assms(2) by simp
  have "uint (hist_normalize f64_max ?sz ws ! i) mod 2 ^ ?sz \<le> uint (hist_normalize f64_max ?sz ws ! j) mod 2 ^ ?sz"
    using ok(2,3) assms(4-8) by (intro normalize_mono)
  with assms(10) show ?thesis
    using in_bucket_accum [OF ok(2,3)] bucket [OF assms(4)] bucket [OF assms(6)] by (meson le_max_iff_disj order_trans)
qed

theorem heavier_in_every_bucket_witness: "''b'' \<in> set [''a'', ''b'', ''c'']"
  using heavier_in_every_bucket [OF example_hist _ _, where i = 0 and j = 1 and k = 0 and w = 1 and v = 3]
  by (simp add: example_settings_def)

text \<open>An item whose weight is unknown is in every bucket.\<close>

theorem unknown_weight_everywhere:
  assumes "hist_build f64_max settings data ws = Inr (Inr bs)" and "i < length ws" and "ws ! i = None"
    and "b \<in> set bs"
  shows "data ! i \<in> set b"
proof -
  note ok = hist_build_ok [OF assms(1)]
  obtain k where k: "k < unat (hist_size settings)" "b = bs ! k"
    using assms(4) ok(4) by (auto simp: in_set_conv_nth hist_collect_def)
  obtain mn mx where b: "hist_bounds f64_max ws = (mn, mx)" by force
  show ?thesis
    unfolding k(2) ok(4) using k(1) ok(1,3) assms(2,3) normalize_uniform [OF assms(2) b]
    by (auto simp: bucket_nth in_bucket_default intro!: image_eqI [of _ _ i])
qed

theorem unknown_weight_everywhere_witness: "''c'' \<in> set [''b'', ''c'']"
  using unknown_weight_everywhere [OF example_hist, of 2 "[''b'', ''c'']"] by simp

text \<open>The heaviest item is always in the last bucket.\<close>

theorem heaviest_in_last_bucket:
  assumes "hist_build f64_max settings data ws = Inr (Inr bs)" and "i < length ws" and "ws ! i = Some w"
    and "\<And>v. Some v \<in> set ws \<Longrightarrow> v \<le> w"
  shows "data ! i \<in> set (last bs)"
proof -
  let ?sz = "unat (hist_size settings)"
  note ok = hist_build_ok [OF assms(1)]
  obtain mn mx where b: "hist_bounds f64_max ws = (mn, mx)" by force
  have mx: "mx = w"
    using hist_bounds_heaviest [of w ws f64_max] assms(2-4) b by (metis nth_mem snd_conv)
  have "in_bucket accum ?sz (hist_normalize f64_max ?sz ws ! i) (?sz - 1)" for accum
  proof (cases "mn < mx")
    case True
    then have "(w - mn) / (mx - mn) * hist_scale ?sz = of_int (2 ^ (?sz - 1))"
      using mx ok(2,3) by (simp add: hist_scale_eq)
    moreover have "(2 :: int) ^ (?sz - 1) < 2 ^ 64"
      using ok(3) by (intro power_strict_increasing) auto
    ultimately have "uint (hist_normalize f64_max ?sz ws ! i) = 2 ^ (?sz - 1)"
      unfolding normalize_known [OF assms(2,3) b True] by (simp only: floor_u64_of_int zero_le_power zero_le_numeral)
    then show ?thesis by (rule in_last_bucket [OF ok(2,3)])
  next
    case False
    then show ?thesis
      using normalize_uniform [OF assms(2) b] ok(2,3) by (simp add: in_bucket_default)
  qed
  moreover have "last bs = bs ! (?sz - 1)"
    using ok(2,4) by (simp add: last_conv_nth hist_collect_def)
  ultimately show ?thesis
    using ok(1,2,4) assms(2) by (auto simp: bucket_nth intro!: image_eqI [of _ _ i])
qed

theorem heaviest_in_last_bucket_witness: "''b'' \<in> set (last [[''a'', ''b'', ''c''], [''b'', ''c''], [''b'', ''c'']])"
  using heaviest_in_last_bucket [OF example_hist, of 1 3] by force

end
