(* ===== verification/Spectrum_Children.thy ===== *)
theory Spectrum_Children
  imports Spectrum_Operator Spectrum_Histogram
begin

text \<open>
  The controllers of pools and histograms (\<^verbatim>\<open>pool/mod.rs\<close>,
  \<^verbatim>\<open>pool/service.rs\<close>, \<^verbatim>\<open>histogram/mod.rs\<close>,
  \<^verbatim>\<open>histogram/service.rs\<close>): the endpoints of a target are distributed over child
  services, whose endpoint slices are created, replaced and deleted.
\<close>

section \<open>Endpoint slices of children\<close>

text \<open>The metadata of a child: the template with the name and two labels.\<close>

definition child_meta :: "ObjectMeta \<Rightarrow> string \<Rightarrow> string \<Rightarrow> string \<Rightarrow> ObjectMeta" where
  "child_meta template child_name key text =
     template\<lparr>meta_name := Some child_name,
       meta_labels := Some (bt_insert key text
         (bt_insert LABEL_KEY_SELECTOR child_name (unwrap_or [] (meta_labels template))))\<rparr>"

definition child_slice :: "ServiceSpec option \<Rightarrow> ObjectMeta \<Rightarrow> Endpoint list \<Rightarrow> EndpointSlice" where
  "child_slice target_spec m endpoints =
     \<lparr>address_type = infer_address_type target_spec, slice_endpoints = endpoints, slice_meta = m,
      slice_ports = convert_ports target_spec\<rparr>"

section \<open>Pools\<close>

record PoolContext =
  ctx_child :: ObjectMeta
  ctx_class :: MetricsClassCrd
  ctx_label_claim_parent :: string
  ctx_label_parent :: string
  ctx_name :: string
  ctx_namespace :: string
  ctx_pool_url :: string
  ctx_target_meta :: ObjectMeta
  ctx_target_spec :: "ServiceSpec option"

text \<open>The item of a claimed service: the service and the claim it names.\<close>

definition pool_item ::
  "string \<Rightarrow> ('w::zero, string) PoolClaimCrd list \<Rightarrow> Service \<Rightarrow> ('w, string, Service) Item option" where
  "pool_item label_claim_parent claims svc =
     Option.bind (label_of (svc_meta svc) label_claim_parent) (\<lambda>claim_name.
     map_option (\<lambda>claim. \<lparr>item_claim = claim,
         item_resource = \<lparr>
           penalty = unwrap_or 0 (set_penalty (resources (claim_spec claim))),
           priority = unwrap_or 0 (set_priority (resources (claim_spec claim))),
           min_weight = set_min (resources (claim_spec claim)),
           max_weight = set_max (resources (claim_spec claim)),
           weight = unwrap_or 1 (set_weight (resources (claim_spec claim)))\<rparr>,
         item_item = svc\<rparr>)
       (List.find (\<lambda>claim. meta_name (claim_meta claim) = Some claim_name) claims))"

definition pool_items ::
  "string \<Rightarrow> ('w::zero, string) PoolClaimCrd list \<Rightarrow> Service list \<Rightarrow> ('w, string, Service) Item list" where
  "pool_items label_claim_parent claims services =
     List.map_filter (pool_item label_claim_parent claims) services"

text \<open>The first address of each endpoint is the name of the resource.\<close>

definition first_addresses :: "Endpoint list \<Rightarrow> error + string list" where
  "first_addresses es =
     (if list_ex (\<lambda>e. addresses e = []) es then Inl (Panic ''conciled endpoint'')
      else Inr (map (\<lambda>e. hd (addresses e)) es))"

definition index_where :: "('x \<Rightarrow> bool) \<Rightarrow> 'x list \<Rightarrow> nat option" where
  "index_where P xs = map_option fst (List.find (\<lambda>(i, x). P x) (enumerate 0 xs))"

definition map_bound ::
  "('w, string, Service) Item list \<Rightarrow> string PoolResource list \<Rightarrow> nat PoolResource list" where
  "map_bound its bnd =
     map (\<lambda>r. \<lparr>res_claim = Option.bind (res_claim r) (\<lambda>claim_name.
          index_where (\<lambda>item. Some claim_name = meta_name (claim_meta (item_claim item))) its),
        res_state = res_state r\<rparr>) bnd"

primrec commit_request_items ::
  "string \<Rightarrow> (string, Endpoint, Service) ScheduledItem list \<Rightarrow> error + string PoolCommitRequestItem list" where
  "commit_request_items namespace [] = Inr []"
| "commit_request_items namespace (item # its) =
     (case first_addresses (scheduled_resources item) of
        Inl e \<Rightarrow> Inl e
      | Inr as \<Rightarrow> map_sum id (\<lambda>rest.
          \<lparr>commit_lifecycle = scheduled_lifecycle item,
           commit_name = name_any (svc_meta (scheduled_item item)),
           commit_pool = \<lparr>req_namespace = namespace, req_resources = as\<rparr>,
           commit_priority = scheduled_priority item\<rparr> # rest) (commit_request_items namespace its))"

text \<open>The names of the children, sorted, next to the items in the order they were listed.\<close>

definition pool_children :: "(string, Endpoint, Service) ScheduledItem list \<Rightarrow> string list" where
  "pool_children its = name_set (map (\<lambda>item. name_any (svc_meta (scheduled_item item))) its)"

definition pool_slices ::
  "PoolContext \<Rightarrow> (string, Endpoint, Service) ScheduledItem list \<Rightarrow> (string \<times> EndpointSlice) list" where
  "pool_slices ctx its =
     map (\<lambda>(child_name, item). (child_name,
        child_slice (ctx_target_spec ctx)
          (child_meta (ctx_child ctx) child_name (ctx_label_claim_parent ctx) child_name)
          (scheduled_resources item)))
       (zip (pool_children its) its)"

definition pool_store ::
  "'w spec_api \<Rightarrow> PoolContext \<Rightarrow> (string, Endpoint, Service) ScheduledItem list \<Rightarrow> (Reason Status + unit) spec_eff" where
  "pool_store A ctx its =
     tryE (call (ans_slices A) (ListSlices (ctx_namespace ctx) (ctx_label_parent ctx @ ''='' @ ctx_name ctx)))
       (\<lambda>olds.
     tryE (for_each (\<lambda>(child_name, item). store_slice A (ctx_namespace ctx) olds child_name item)
       (pool_slices ctx its)) (\<lambda>_.
     tryE (delete_unmanaged A (DeleteSlice (ctx_namespace ctx)) (pool_children its) (map slice_meta olds)) (\<lambda>_.
     ret (Inr ()))))"

definition pool_commit ::
  "'w spec_api \<Rightarrow> PoolContext \<Rightarrow> (string, Endpoint, Service) ScheduledItem list \<Rightarrow> (Reason Status + unit) spec_eff" where
  "pool_commit A ctx its =
     tryE (lift_result (commit_request_items (ctx_namespace ctx) its)) (\<lambda>request.
     tryE (ask (ans_http A) (CommitBindingStates (ctx_pool_url ctx) \<lparr>commit_items = request\<rparr>)) (\<lambda>response.
     case response of
       Inl e \<Rightarrow> ret (Inl (invalid InvalidPool (''Failed to commit binding states: '' @ e) True))
     | Inr _ \<Rightarrow> ret (Inr ())))"

definition pool_allocate ::
  "'w spec_api \<Rightarrow> (u64 \<Rightarrow> 'w) \<Rightarrow> 'w lp_solver \<Rightarrow> PoolContext \<Rightarrow>
     ('w::{zero,one,plus,inverse,ord}, Endpoint) WeightedItems \<Rightarrow>
     (Reason Status + (string, Endpoint, Service) ScheduledItem list) spec_eff" where
  "pool_allocate A as_f64 lp ctx endpoints =
     tryE (call (ans_claims A) (ListClaims (ctx_namespace ctx) (''spec.poolName='' @ ctx_name ctx))) (\<lambda>claims.
     tryE (call (ans_services A) (ListServices (ctx_namespace ctx) (ctx_label_parent ctx @ ''='' @ ctx_name ctx)))
       (\<lambda>services.
     let its = pool_items (ctx_label_claim_parent ctx) claims services in
     tryE (lift_result (first_addresses (weighted_items endpoints))) (\<lambda>names.
     tryE (ask (ans_states A) (GetBindingStates (ctx_pool_url ctx)
       \<lparr>req_namespace = ctx_namespace ctx, req_resources = names\<rparr>)) (\<lambda>response.
     case response of
       Inl e \<Rightarrow> ret (Inl (invalid InvalidPool (''Failed to fetch binding states: '' @ e) True))
     | Inr states \<Rightarrow>
         (case schedule as_f64 lp its (map_bound its (bound_resources states)) endpoints of
            Inl (SchedulePanic e) \<Rightarrow> fail (Panic e)
          | Inl (Resolution e) \<Rightarrow>
              ret (Inl (invalid InvalidPool (''Failed to allocate resources: '' @ e) True))
          | Inr scheduled \<Rightarrow> ret (Inr scheduled))))))"

definition pool_update ::
  "'w spec_api \<Rightarrow> (u64 \<Rightarrow> 'w) \<Rightarrow> ('w::{zero,one,plus,inverse,ord}) lp_solver \<Rightarrow> PoolContext \<Rightarrow>
     (Reason Status + unit) spec_eff" where
  "pool_update A as_f64 lp ctx =
     on_ok (get_weighted_endpoints A (infer_address_type (ctx_target_spec ctx)) (ctx_child ctx)
       (ctx_class ctx) (ctx_target_meta ctx)) (\<lambda>endpoints.
     on_ok (pool_allocate A as_f64 lp ctx endpoints) (\<lambda>scheduled.
     on_ok (pool_commit A ctx scheduled) (\<lambda>_.
     pool_store A ctx scheduled)))"

definition reconcile_pool ::
  "'w spec_api \<Rightarrow> (u64 \<Rightarrow> 'w) \<Rightarrow> ('w::{zero,one,plus,inverse,ord}) lp_solver \<Rightarrow> Args \<Rightarrow> PoolCrd \<Rightarrow> Action spec_eff" where
  "reconcile_pool A as_f64 lp args pool =
     (case meta_namespace (pool_meta pool) of
        None \<Rightarrow> fail (Panic ''Namespaced resource'')
      | Some namespace \<Rightarrow>
          let name = name_any (pool_meta pool) in
          or_commit A pool_ops pool (get_metrics_class A (pool_metrics_class_name (pool_spec pool))) (\<lambda>cls.
          or_commit A pool_ops pool (get_target A namespace (pool_target_ref (pool_spec pool))) (\<lambda>(target_meta, target).
          tryE (lift_result (child_owners ''Pool'' ''pool owner reference'' (pool_meta pool))) (\<lambda>owners.
          case target of
            ServiceTarget target_spec \<Rightarrow>
              or_commit A pool_ops pool (pool_update A as_f64 lp
                \<lparr>ctx_child = child_template (label_pool_parent args) name namespace target_meta (pool_meta pool) owners,
                 ctx_class = cls, ctx_label_claim_parent = label_pool_claim_parent args,
                 ctx_label_parent = label_pool_parent args, ctx_name = name, ctx_namespace = namespace,
                 ctx_pool_url = pool_base_url args, ctx_target_meta = target_meta, ctx_target_spec = target_spec\<rparr>)
                (\<lambda>_. commit_status A pool_ops pool (invalid Accepted ''Valid Pool'' True))))))"

section \<open>Histograms\<close>

record HistContext =
  hist_child :: ObjectMeta
  hist_class :: MetricsClassCrd
  hist_label_parent :: string
  hist_label_weight :: string
  hist_name :: string
  hist_namespace :: string
  hist_options :: HistogramSettings
  hist_target_meta :: ObjectMeta
  hist_target_spec :: "ServiceSpec option"

text \<open>The names of the children, sorted as texts, next to the buckets.\<close>

definition hist_children :: "string \<Rightarrow> nat \<Rightarrow> string list" where
  "hist_children name n = name_set (map (\<lambda>index. name @ ''-'' @ nat_str index) [0..<n])"

definition hist_objects :: "HistContext \<Rightarrow> Endpoint list list \<Rightarrow> (string \<times> EndpointSlice \<times> Service) list" where
  "hist_objects ctx buckets =
     map (\<lambda>(index, child_name, endpoints).
        let m = child_meta (hist_child ctx) child_name (hist_label_weight ctx) (nat_str index)
        in (child_name, child_slice (hist_target_spec ctx) m endpoints,
            \<lparr>svc_meta = m, svc_spec = mirror_spec (hist_target_spec ctx)\<rparr>))
       (enumerate 0 (zip (hist_children (hist_name ctx) (length buckets)) buckets))"

definition hist_store :: "'w spec_api \<Rightarrow> HistContext \<Rightarrow> Endpoint list list \<Rightarrow> (Reason Status + unit) spec_eff" where
  "hist_store A ctx buckets =
     (let selector = hist_label_parent ctx @ ''='' @ hist_name ctx; ns = hist_namespace ctx;
          children = hist_children (hist_name ctx) (length buckets) in
      tryE (call (ans_slices A) (ListSlices ns selector)) (\<lambda>old_slices.
      tryE (call (ans_services A) (ListServices ns selector)) (\<lambda>old_services.
      tryE (for_each (\<lambda>(child_name, slice, svc).
          tryE (store_slice A ns old_slices child_name slice) (\<lambda>_.
          store_service A ns old_services child_name svc)) (hist_objects ctx buckets)) (\<lambda>_.
      tryE (delete_unmanaged A (DeleteSlice ns) children (map slice_meta old_slices)) (\<lambda>_.
      tryE (delete_unmanaged A (DeleteService ns) children (map svc_meta old_services)) (\<lambda>_.
      ret (Inr ())))))))"

definition hist_update :: "'w::floor_ceiling spec_api \<Rightarrow> 'w \<Rightarrow> HistContext \<Rightarrow> (Reason Status + unit) spec_eff" where
  "hist_update A f64_max ctx =
     on_ok (get_weighted_endpoints A (infer_address_type (hist_target_spec ctx)) (hist_child ctx)
       (hist_class ctx) (hist_target_meta ctx)) (\<lambda>endpoints.
     on_ok (lift_result (hist_build f64_max (hist_options ctx) (weighted_items endpoints) (weighted_weights endpoints)))
       (hist_store A ctx))"

definition reconcile_hist :: "'w::floor_ceiling spec_api \<Rightarrow> 'w \<Rightarrow> Args \<Rightarrow> HistogramCrd \<Rightarrow> Action spec_eff" where
  "reconcile_hist A f64_max args hist =
     (case meta_namespace (hist_meta hist) of
        None \<Rightarrow> fail (Panic ''Namespaced resource'')
      | Some namespace \<Rightarrow>
          let name = name_any (hist_meta hist) in
          or_commit A hist_ops hist (get_metrics_class A (hist_metrics_class_name (hist_spec hist))) (\<lambda>cls.
          or_commit A hist_ops hist (get_target A namespace (hist_target_ref (hist_spec hist))) (\<lambda>(target_meta, target).
          tryE (lift_result (child_owners ''Histogram'' ''histogram owner reference'' (hist_meta hist))) (\<lambda>owners.
          case target of
            ServiceTarget target_spec \<Rightarrow>
              or_commit A hist_ops hist (hist_update A f64_max
                \<lparr>hist_child = child_template (label_histogram_parent args) name namespace target_meta (hist_meta hist) owners,
                 hist_class = cls, hist_label_parent = label_histogram_parent args,
                 hist_label_weight = label_histogram_weight args, hist_name = name, hist_namespace = namespace,
                 hist_options = hist_settings (hist_spec hist), hist_target_meta = target_meta,
                 hist_target_spec = target_spec\<rparr>)
                (\<lambda>_. commit_status A hist_ops hist (invalid Accepted ''Valid Histogram'' True))))))"

section \<open>Names of children\<close>

lemma name_set_fix: "name_set ns = ns \<longleftrightarrow> sorted ns \<and> distinct ns"
  by (metis name_set_def name_set_sorted distinct_remdups distinct_sort sorted_sort)

lemma length_pool_children: "length (pool_children its) \<le> length its"
  by (simp add: pool_children_def name_set_def order_trans [OF length_remdups_leq])

lemma pool_slices_names: "map fst (pool_slices ctx its) = pool_children its"
proof -
  have "map fst (pool_slices ctx its) = map fst (zip (pool_children its) its)"
    by (simp add: pool_slices_def comp_def case_prod_beta)
  then show ?thesis using length_pool_children [of its] by (simp add: map_fst_zip_take)
qed

lemma hist_objects_names: "map fst (hist_objects ctx bs) = hist_children (hist_name ctx) (length bs)"
proof -
  have len: "length (hist_children (hist_name ctx) (length bs)) \<le> length bs"
    by (simp add: hist_children_def name_set_def order_trans [OF length_remdups_leq])
  have "map fst (hist_objects ctx bs) =
      map fst (map snd (enumerate 0 (zip (hist_children (hist_name ctx) (length bs)) bs)))"
    unfolding hist_objects_def map_map by (rule map_cong) (auto simp: Let_def)
  then show ?thesis using len by (simp add: map_fst_zip_take)
qed

lemma name_less_iff: "name @ (x :: string) < name @ y \<longleftrightarrow> x < y"
  by (induction name) auto

lemma name_le_iff: "name @ (x :: string) \<le> name @ y \<longleftrightarrow> x \<le> y"
  by (induction name) auto

lemma digits_sorted: "sorted_wrt (<) (map nat_str [0..<10])"
  by code_simp

lemma eleven_unsorted: "nat_str 10 < nat_str 2"
  by code_simp

lemma nat_strs_sorted: "sorted (map (\<lambda>i. name @ ''-'' @ nat_str i) [0..<n]) \<longleftrightarrow> n \<le> 10"
proof
  assume s: "sorted (map (\<lambda>i. name @ ''-'' @ nat_str i) [0..<n])"
  show "n \<le> 10"
  proof (rule ccontr)
    assume "\<not> n \<le> 10"
    then have "name @ ''-'' @ nat_str (Suc (Suc 0)) \<le> name @ ''-'' @ nat_str 10"
      using sorted_nth_mono [OF s, of 2 10] by simp
    with eleven_unsorted show False by (simp add: name_le_iff numeral_2_eq_2)
  qed
next
  assume "n \<le> 10"
  have "sorted_wrt (<) (map nat_str [0..<n])"
  proof -
    have "map nat_str [0..<n] = take n (map nat_str [0..<10])"
      using \<open>n \<le> 10\<close> by (simp add: take_map)
    then show ?thesis using digits_sorted by (simp only: sorted_wrt_take)
  qed
  then have "sorted_wrt (<) (map (\<lambda>i. name @ ''-'' @ nat_str i) [0..<n])"
    by (simp add: sorted_wrt_map name_less_iff)
  then show "sorted (map (\<lambda>i. name @ ''-'' @ nat_str i) [0..<n])"
    by (simp only: strict_sorted_imp_sorted)
qed

lemma nat_strs_distinct: "distinct (map (\<lambda>i. name @ ''-'' @ nat_str i) [0..<n])"
  by (auto simp: distinct_map inj_on_def dest: nat_str_inj)

section \<open>Slices and the services they are for\<close>

definition service_name :: "(string, Endpoint, Service) ScheduledItem \<Rightarrow> string" where
  "service_name item = name_any (svc_meta (scheduled_item item))"

definition pool_slice :: "PoolContext \<Rightarrow> string \<Rightarrow> Endpoint list \<Rightarrow> string \<times> EndpointSlice" where
  "pool_slice ctx n es =
     (n, child_slice (ctx_target_spec ctx) (child_meta (ctx_child ctx) n (ctx_label_claim_parent ctx) n) es)"

text \<open>The slice a service is due.\<close>

definition due_slice :: "PoolContext \<Rightarrow> (string, Endpoint, Service) ScheduledItem \<Rightarrow> string \<times> EndpointSlice" where
  "due_slice ctx item = pool_slice ctx (service_name item) (scheduled_resources item)"

lemma pool_slice_eq [simp]: "pool_slice ctx n es = pool_slice ctx m fs \<longleftrightarrow> n = m \<and> es = fs"
  by (auto simp: pool_slice_def child_slice_def)

lemma pool_children_names: "pool_children its = name_set (map service_name its)"
  by (simp add: pool_children_def service_name_def [abs_def])

lemma pool_children_set: "pool_children its = sorted_list_of_set (service_name ` set its)"
  by (simp add: pool_children_names name_set_def sorted_list_of_set_sort_remdups [symmetric])

lemma pool_slices_zip:
  "pool_slices ctx its = map (\<lambda>(n, item). pool_slice ctx n (scheduled_resources item)) (zip (pool_children its) its)"
  by (simp add: pool_slices_def pool_slice_def)

lemma pool_slices_places:
  "pool_slices ctx its =
     map (\<lambda>k. pool_slice ctx (sorted_list_of_set (service_name ` set its) ! k) (scheduled_resources (its ! k)))
       [0..<card (service_name ` set its)]"
  using length_pool_children [of its]
  by (intro nth_equalityI) (simp_all add: pool_slices_zip pool_children_set)

lemma named_slices_due:
  assumes "pool_children its = map service_name its"
  shows "set (pool_slices ctx its) = due_slice ctx ` set its"
proof -
  have "pool_slices ctx its = map (due_slice ctx) its"
    by (rule nth_equalityI) (simp_all add: pool_slices_zip assms due_slice_def)
  then show ?thesis
    by simp
qed

lemma due_slices_names:
  assumes "distinct (map scheduled_resources its)" and "set (pool_slices ctx its) = due_slice ctx ` set its"
  shows "pool_children its = map service_name its"
proof -
  have own: "i = j" if "i < length its" "j < length its" "scheduled_resources (its ! i) = scheduled_resources (its ! j)" for i j
    using nth_eq_iff_index_eq [OF assms(1), of i j] that by simp
  have place: "\<exists>j<length (pool_children its). due_slice ctx (its ! i) = pool_slice ctx (pool_children its ! j) (scheduled_resources (its ! j))"
    if "i < length its" for i
  proof -
    have "due_slice ctx (its ! i) \<in> set (pool_slices ctx its)"
      using that assms(2) by simp
    then show ?thesis
      by (auto simp: pool_slices_zip set_zip)
  qed
  show ?thesis
  proof (rule nth_equalityI)
    show len: "length (pool_children its) = length (map service_name its)"
    proof (rule ccontr)
      assume "length (pool_children its) \<noteq> length (map service_name its)"
      then have short: "length (pool_children its) < length its"
        using length_pool_children [of its] by simp
      from place [OF short] obtain j where j: "j < length (pool_children its)"
        "scheduled_resources (its ! length (pool_children its)) = scheduled_resources (its ! j)"
        by (auto simp: due_slice_def)
      then have "length (pool_children its) = j"
        using own [OF short less_trans [OF j(1) short] j(2)] by blast
      with j(1) show False
        by simp
    qed
    fix i assume "i < length (pool_children its)"
    with len place [of i] own [of i] show "pool_children its ! i = map service_name its ! i"
      by (auto simp: due_slice_def)
  qed
qed

section \<open>Stored slices\<close>

text \<open>The names of the slices a namespace holds, after a call.\<close>

fun slice_effect :: "spec_call \<Rightarrow> string set \<Rightarrow> string set" where
  "slice_effect (CreateSlice ns s) names = insert (name_any (slice_meta s)) names"
| "slice_effect (DeleteSlice ns n) names = names - {n}"
| "slice_effect c names = names"

definition slices_after :: "spec_call list \<Rightarrow> string set \<Rightarrow> string set" where
  "slices_after l names = fold slice_effect l names"

lemma slices_after_append: "slices_after (l @ l') names = slices_after l' (slices_after l names)"
  by (simp add: slices_after_def)

lemma slices_after_snoc: "slices_after (l @ [c]) names = slice_effect c (slices_after l names)"
  by (simp add: slices_after_def)

text \<open>Storing the slices adds their names, when the replaced ones exist.\<close>

lemma wp_store_slices:
  assumes "\<forall>(n, s)\<in>set ps. name_any (slice_meta s) = n"
    and "\<And>n. (\<exists>s\<in>set olds. meta_name (slice_meta s) = Some n) \<Longrightarrow> n \<in> slices_after l names"
  shows "wp (for_each (\<lambda>(n, s). store_slice A ns olds n s) ps)
     (\<lambda>r l'. \<forall>u. r = Inr u \<longrightarrow> slices_after l' names = slices_after l names \<union> fst ` set ps) l"
  using assms
proof (induction ps arbitrary: l)
  case Nil
  then show ?case by (simp add: eff_simps)
next
  case (Cons p ps)
  obtain n s where p: "p = (n, s)" by force
  have step: "slices_after (l @ [c]) names = insert n (slices_after l names)"
    if "c = CreateSlice ns s \<or> c = ReplaceSlice ns n s \<and> (\<exists>s\<in>set olds. meta_name (slice_meta s) = Some n)" for c
  proof -
    have "(\<exists>s\<in>set olds. meta_name (slice_meta s) = Some n) \<longrightarrow> n \<in> slices_after l names"
      using Cons.prems(2) by simp
    with that Cons.prems(1) p show ?thesis by (auto simp: slices_after_snoc)
  qed
  have tail: "wp (for_each (\<lambda>(n, s). store_slice A ns olds n s) ps)
     (\<lambda>r l'. \<forall>u. r = Inr u \<longrightarrow> slices_after l' names = slices_after l names \<union> fst ` set (p # ps)) (l @ [c])"
    if "c = CreateSlice ns s \<or> c = ReplaceSlice ns n s \<and> (\<exists>s\<in>set olds. meta_name (slice_meta s) = Some n)" for c
    by (rule wp_mono [OF Cons.IH [of "l @ [c]"]])
       (use Cons.prems step [OF that] p in auto)
  show ?case
    using tail by (auto simp: p store_slice_def eff_simps list_ex_iff split: sum.splits)
qed

lemma wp_delete_slices:
  "wp (delete_unmanaged A (DeleteSlice ns) children olds)
     (\<lambda>r l'. \<forall>u. r = Inr u \<longrightarrow>
        slices_after l' names = slices_after l names - (name_any ` set olds - set children)) l"
  unfolding delete_unmanaged_def
proof (induction olds arbitrary: l)
  case Nil
  then show ?case by (simp add: eff_simps)
next
  case (Cons m olds)
  show ?case
    by (auto simp: eff_simps slices_after_snoc split: sum.splits intro!: wp_mono [OF Cons.IH])
qed

lemma find_distinct_keys:
  assumes "x \<in> set xs" and "distinct (map f xs)" and "f x = k"
  shows "List.find (\<lambda>y. f y = k) xs = Some x"
  using assms by (induction xs) (auto simp: image_iff)

lemma pool_slices_meta: "\<forall>(n, s)\<in>set (pool_slices ctx its). name_any (slice_meta s) = n"
  by (auto simp: pool_slices_def child_slice_def child_meta_def name_any_def)

lemma wp_pool_store:
  assumes "ans_slices A [] (ListSlices (ctx_namespace ctx) (ctx_label_parent ctx @ ''='' @ ctx_name ctx)) = Inr olds"
  shows "wp (pool_store A ctx its) (\<lambda>r l. r = Inr (Inr ()) \<longrightarrow>
     slices_after l (name_any ` slice_meta ` set olds) = set (pool_children its)) []"
proof -
  let ?names = "name_any ` slice_meta ` set olds"
  let ?list = "ListSlices (ctx_namespace ctx) (ctx_label_parent ctx @ ''='' @ ctx_name ctx)"
  have start: "slices_after [?list] ?names = ?names" by (simp add: slices_after_def)
  have stored: "wp (for_each (\<lambda>(n, s). store_slice A (ctx_namespace ctx) olds n s) (pool_slices ctx its))
     (\<lambda>r l. \<forall>u. r = Inr u \<longrightarrow> slices_after l ?names = ?names \<union> set (pool_children its)) [?list]"
  proof -
    have set_eq: "fst ` set (pool_slices ctx its) = set (pool_children its)"
      by (metis pool_slices_names set_map)
    have known: "n \<in> slices_after [?list] ?names" if "\<exists>s\<in>set olds. meta_name (slice_meta s) = Some n" for n
      using that unfolding start by (force simp: name_any_def)
    show ?thesis
      using wp_store_slices [where A = A and ns = "ctx_namespace ctx", OF pool_slices_meta [of ctx its] known] unfolding start set_eq .
  qed
  have deleted: "wp (delete_unmanaged A (DeleteSlice (ctx_namespace ctx)) (pool_children its) (map slice_meta olds))
     (\<lambda>r l'. \<forall>u. r = Inr u \<longrightarrow> slices_after l' ?names = set (pool_children its)) l"
    if "slices_after l ?names = ?names \<union> set (pool_children its)" for l
    by (rule wp_mono [OF wp_delete_slices [where names = ?names]]) (use that in auto)
  show ?thesis
    unfolding pool_store_def wp_tryE wp_call append_Nil assms sum.case
    by (rule wp_mono [OF stored])
       (auto simp: eff_simps split: sum.splits intro!: wp_mono [OF deleted])
qed

section \<open>Properties\<close>

text \<open>The service a claim controller creates is matched with that claim by the pool controller, which
  then schedules it with the priority, the weight and the range of the claim.\<close>

theorem claim_service_is_matched:
  assumes "serves_claim args claim svc" and "claim \<in> set claims"
    and "distinct (map (\<lambda>k. meta_name (claim_meta k)) claims)"
    and "meta_name (claim_meta claim) \<noteq> None"
  shows "pool_item (label_pool_claim_parent args) claims svc = Some \<lparr>item_claim = claim,
    item_resource = \<lparr>penalty = unwrap_or 0 (set_penalty (resources (claim_spec claim))),
      priority = unwrap_or 0 (set_priority (resources (claim_spec claim))),
      min_weight = set_min (resources (claim_spec claim)), max_weight = set_max (resources (claim_spec claim)),
      weight = unwrap_or 1 (set_weight (resources (claim_spec claim)))\<rparr>,
    item_item = svc\<rparr>"
proof -
  have label: "label_of (svc_meta svc) (label_pool_claim_parent args) = Some (name_any (claim_meta claim))"
    using assms(1) by (simp add: serves_claim_def)
  have "meta_name (claim_meta claim) = Some (name_any (claim_meta claim))"
    using assms(4) by (auto simp: name_any_def)
  then have "List.find (\<lambda>k. meta_name (claim_meta k) = Some (name_any (claim_meta claim))) claims = Some claim"
    by (rule find_distinct_keys [OF assms(2,3)])
  with label show ?thesis by (simp add: pool_item_def)
qed

definition claimed_service :: Service where
  "claimed_service = \<lparr>svc_meta = claim_child (\<lambda>_. []) example_args example_claim ''ns'' meta_default [],
     svc_spec = mirror_spec None\<rparr>"

theorem claim_service_is_matched_witness:
  "pool_item ''cp'' [example_claim] claimed_service \<noteq> None"
proof -
  have "serves_claim example_args example_claim claimed_service"
    unfolding claimed_service_def
    by (intro claim_child_serves) (simp_all add: label_keys_def example_args_def example_claim_def)
  then show ?thesis
    using claim_service_is_matched [of example_args example_claim claimed_service "[example_claim]"]
    by (simp add: example_args_def example_claim_def)
qed

text \<open>C32.
  A pool scheduled endpoints to services, no two of them the same list.  What is stored are the slices that
  the services are due, each with the name, the labels and the endpoints of one service, exactly when the services
  were listed in strictly ascending order of their names.  In any other order some service does not get
  its slice: the code pairs the sorted names, each once, with the endpoints of the items in the order they
  were listed, so that the slice at a place holds the endpoints of the service listed there under the name
  that comes there in sorted order, and the endpoints of services behind the number of names are in no slice.\<close>

theorem pool_slices_match_iff:
  assumes "distinct (map scheduled_resources its)"
  shows "(set (pool_slices ctx its) = due_slice ctx ` set its
      \<longleftrightarrow> sorted (map service_name its) \<and> distinct (map service_name its))
    \<and> pool_slices ctx its =
        map (\<lambda>k. pool_slice ctx (sorted_list_of_set (service_name ` set its) ! k) (scheduled_resources (its ! k)))
          [0..<card (service_name ` set its)]"
proof
  show "set (pool_slices ctx its) = due_slice ctx ` set its
      \<longleftrightarrow> sorted (map service_name its) \<and> distinct (map service_name its)"
  proof
    assume "set (pool_slices ctx its) = due_slice ctx ` set its"
    then have "pool_children its = map service_name its"
      by (rule due_slices_names [OF assms])
    then show "sorted (map service_name its) \<and> distinct (map service_name its)"
      by (metis pool_children_set sorted_list_of_set.distinct_sorted_key_list_of_set sorted_list_of_set.sorted_sorted_key_list_of_set)
  next
    assume "sorted (map service_name its) \<and> distinct (map service_name its)"
    then have "pool_children its = map service_name its"
      by (simp add: pool_children_names name_set_fix)
    then show "set (pool_slices ctx its) = due_slice ctx ` set its"
      by (rule named_slices_due)
  qed
  show "pool_slices ctx its =
        map (\<lambda>k. pool_slice ctx (sorted_list_of_set (service_name ` set its) ! k) (scheduled_resources (its ! k)))
          [0..<card (service_name ` set its)]"
    by (rule pool_slices_places)
qed

definition served :: "string \<Rightarrow> Endpoint list \<Rightarrow> (string, Endpoint, Service) ScheduledItem" where
  "served n es = \<lparr>scheduled_item = \<lparr>svc_meta = meta_default\<lparr>meta_name := Some n\<rparr>, svc_spec = mirror_spec None\<rparr>,
     scheduled_lifecycle = lifecycle_default, scheduled_priority = 0, scheduled_resources = es\<rparr>"

text \<open>The children of a histogram carry the number of their bucket exactly when there are at most ten
  buckets: with eleven, the child named \<^verbatim>\<open>name-10\<close> holds bucket 2.\<close>

theorem hist_names_match_iff:
  "map fst (hist_objects ctx bs) = map (\<lambda>i. hist_name ctx @ ''-'' @ nat_str i) [0..<length bs]
   \<longleftrightarrow> length bs \<le> 10"
  unfolding hist_objects_names hist_children_def name_set_fix
  using nat_strs_sorted [of "hist_name ctx" "length bs"] nat_strs_distinct by blast

text \<open>When a pool has been stored, the endpoint slices under its label are exactly those of its
  children: slices are created or replaced for the claimed services, and all others are deleted.\<close>

theorem slices_are_children:
  assumes "ans_slices A [] (ListSlices (ctx_namespace ctx) (ctx_label_parent ctx @ ''='' @ ctx_name ctx)) = Inr olds"
    and "result_of (pool_store A ctx its) = Inr (Inr ())"
  shows "slices_after (calls_of (pool_store A ctx its)) (name_any ` slice_meta ` set olds) = set (pool_children its)"
  using wp_pool_store [OF assms(1), of its] assms(2) by (simp add: wp_result)

definition example_context :: PoolContext where
  "example_context = \<lparr>ctx_child = meta_default, ctx_class = example_class, ctx_label_claim_parent = ''cp'',
     ctx_label_parent = ''pp'', ctx_name = ''p'', ctx_namespace = ''ns'', ctx_pool_url = [],
     ctx_target_meta = meta_default, ctx_target_spec = None\<rparr>"

definition old_slice :: EndpointSlice where
  "old_slice = child_slice None (meta_default\<lparr>meta_name := Some ''old''\<rparr>) []"

theorem pool_slices_match_iff_witness:
  "set (pool_slices example_context [served ''b'' [\<lparr>addresses = [''10.0.0.1''], endpoint_other = ''p''\<rparr>], served ''a'' []])
      \<noteq> {pool_slice example_context ''b'' [\<lparr>addresses = [''10.0.0.1''], endpoint_other = ''p''\<rparr>], pool_slice example_context ''a'' []}
    \<and> pool_slices example_context [served ''b'' [\<lparr>addresses = [''10.0.0.1''], endpoint_other = ''p''\<rparr>], served ''a'' []]
      = [pool_slice example_context ''a'' [\<lparr>addresses = [''10.0.0.1''], endpoint_other = ''p''\<rparr>], pool_slice example_context ''b'' []]"
proof -
  let ?its = "[served ''b'' [\<lparr>addresses = [''10.0.0.1''], endpoint_other = ''p''\<rparr>], served ''a'' []]"
  have "service_name (served n es) = n" "scheduled_resources (served n es) = es" for n es
    by (simp_all add: service_name_def served_def name_any_def)
  moreover have "sorted_list_of_set {''b'', ''a''} = [''a'', ''b'']"
    by simp
  ultimately show ?thesis
    using pool_slices_match_iff [of ?its example_context]
    by (simp add: due_slice_def upt_rec doubleton_eq_iff)
qed

theorem slices_are_children_witness:
  "slices_after (calls_of (pool_store (example_api\<lparr>ans_slices := \<lambda>l c. Inr [old_slice]\<rparr>) example_context
     [\<lparr>scheduled_item = example_service, scheduled_lifecycle = lifecycle_default,
       scheduled_priority = 0, scheduled_resources = []\<rparr>])) {''old''} = {''m''}"
proof -
  let ?A = "example_api\<lparr>ans_slices := \<lambda>l c. Inr [old_slice]\<rparr>"
  let ?its = "[\<lparr>scheduled_item = example_service, scheduled_lifecycle = lifecycle_default,
       scheduled_priority = 0, scheduled_resources = []\<rparr>]"
  have "result_of (pool_store ?A example_context ?its) = Inr (Inr ())"
    by code_simp
  then show ?thesis
    using slices_are_children [of ?A example_context "[old_slice]" ?its]
    by (simp add: old_slice_def child_slice_def name_any_def pool_children_def name_set_def example_service_def)
qed

end
