(* ===== verification/Vine_Profile.thy ===== *)
theory Vine_Profile
  imports Ark_Operator
begin

text \<open>
  The data of VINE sessions (\<^verbatim>\<open>crates/openark-vine-session-api/src\<close>:
  \<^verbatim>\<open>profile.rs\<close>, \<^verbatim>\<open>binding.rs\<close>,
  \<^verbatim>\<open>owned_profile.rs\<close>): session profiles, bindings, and the values the operator
  hands to the session chart.  URLs, paths, container ports and environment variables are texts.
\<close>

section \<open>Parts of profiles\<close>

record DriverSpec =
  driver_version :: string

type_synonym DriversSpec = "(string \<times> DriverSpec) list"

record ImageSpec =
  image_repo :: "string option"
  image_tag :: "string option"
  image_pull_policy :: "string option"

record ExternalServiceSpec =
  ext_image :: "ImageSpec option"

type_synonym ExternalServicesSpec = "(string \<times> ExternalServiceSpec) list"

record FeaturesSpec =
  feat_audio :: "bool option"
  feat_containers :: "bool option"
  feat_data :: "bool option"
  feat_dbus :: "bool option"
  feat_device_passthrough :: "bool option"
  feat_host_audio :: "bool option"
  feat_host_bluetooth :: "bool option"
  feat_host_dbus :: "bool option"
  feat_host_display :: "bool option"
  feat_host_udev :: "bool option"
  feat_ipc_passthrough :: "bool option"
  feat_service :: "bool option"

definition features_default :: FeaturesSpec where
  "features_default = \<lparr>feat_audio = None, feat_containers = None, feat_data = None, feat_dbus = None,
     feat_device_passthrough = None, feat_host_audio = None, feat_host_bluetooth = None,
     feat_host_dbus = None, feat_host_display = None, feat_host_udev = None,
     feat_ipc_passthrough = None, feat_service = None\<rparr>"

record GreeterSpec =
  greeter_image :: "ImageSpec option"

record PersistenceSpec =
  persist_enabled :: "bool option"
  persist_access_modes :: "string list option"
  persist_resources :: "ResourceRequirements option"
  persist_storage_class :: "string option"

definition persistence_default :: PersistenceSpec where
  "persistence_default = \<lparr>persist_enabled = None, persist_access_modes = None,
     persist_resources = None, persist_storage_class = None\<rparr>"

record RegionSpec =
  timezone :: "string option"

record ServiceSwitch =
  service_enabled :: "bool option"

record ServicesSpec =
  novnc :: "ServiceSwitch option"
  rdp :: "ServiceSwitch option"
  ssh :: "ServiceSwitch option"
  x11vnc :: "ServiceSwitch option"

definition services_default :: ServicesSpec where
  "services_default = \<lparr>novnc = None, rdp = None, ssh = None, x11vnc = None\<rparr>"

datatype SessionMode = Desktop | Manual | Notebook | NvidiaTriton | Ollama

definition mode_default :: SessionMode where
  "mode_default = Manual"

definition is_pod :: "SessionMode \<Rightarrow> bool" where
  "is_pod m \<longleftrightarrow> m \<noteq> Manual"

record SessionContextSpec =
  context_uid :: "u32 option"
  context_gid :: "u32 option"
  host_ipc :: "bool option"
  host_network :: "bool option"
  host_pid :: "bool option"
  context_privileged :: "bool option"
  context_root :: "bool option"
  context_sudo :: "bool option"

record SessionLocaleLcSpec =
  lc_all :: "string option"

record SessionLocaleSpec =
  locale_global :: "string option"
  locale_lang :: "string option"
  locale_lc :: "SessionLocaleLcSpec option"

record SessionTemplateSpec =
  background_image_url :: "string option"
  fonts_url :: "string option"
  template_git :: "string option"
  template_git_branch :: "string option"
  icons_url :: "string option"
  themes_url :: "string option"

record SessionSpec =
  session_context :: "SessionContextSpec option"
  session_image :: "ImageSpec option"
  session_locale :: "SessionLocaleSpec option"
  session_template :: "SessionTemplateSpec option"
  session_command :: "string list option"
  session_args :: "string list option"
  session_env :: "string list option"
  session_resources :: "ResourceRequirements option"

definition session_default :: SessionSpec where
  "session_default = \<lparr>session_context = None, session_image = None, session_locale = None,
     session_template = None, session_command = None, session_args = None, session_env = None,
     session_resources = None\<rparr>"

record UserSpec =
  user_shell :: "string option"

record VMSourceSpec =
  vm_source_url :: "string option"

record VMWindowsSpec =
  windows_eula :: "bool option"
  windows_source :: "VMSourceSpec option"

record VMSpec =
  vm_enabled :: "bool option"
  vm_os :: "string option"
  vm_windows :: "VMWindowsSpec option"

definition vm_default :: VMSpec where
  "vm_default = \<lparr>vm_enabled = None, vm_os = None, vm_windows = None\<rparr>"

datatype VolumeType = LocalOwned | LocalShared | RemoteOwned | Temporary

definition volume_type_default :: VolumeType where
  "volume_type_default = Temporary"

record VolumeSpec =
  volume_type :: VolumeType

record VolumeContainerSpec =
  container_root :: bool

record VolumeClaimSpec =
  claim_capacity :: "(string \<times> Quantity) list option"

record PersistentVolumeClaimVolumeSource =
  claim_name :: string
  claim_read_only :: "bool option"

record VolumeSharingSpec =
  share_enabled :: "bool option"
  persistent_volume_claim :: "PersistentVolumeClaimVolumeSource option"

definition sharing_default :: VolumeSharingSpec where
  "sharing_default = \<lparr>share_enabled = None, persistent_volume_claim = None\<rparr>"

record VolumesSpec =
  vol_container :: VolumeContainerSpec
  vol_home :: VolumeSpec
  vol_vm :: VolumeSpec
  host_path_prefix :: "string option"
  vol_public :: "VolumeSharingSpec option"
  vol_static :: "VolumeSharingSpec option"
  vol_local :: "VolumeClaimSpec option"

definition volumes_default :: VolumesSpec where
  "volumes_default = \<lparr>vol_container = \<lparr>container_root = False\<rparr>,
     vol_home = \<lparr>volume_type = volume_type_default\<rparr>, vol_vm = \<lparr>volume_type = volume_type_default\<rparr>,
     host_path_prefix = None, vol_public = None, vol_static = None, vol_local = None\<rparr>"

section \<open>Profiles\<close>

record SessionProfileSpec =
  prof_drivers :: "DriversSpec option"
  prof_external_services :: "ExternalServicesSpec option"
  prof_extra_services :: "string list option"
  prof_features :: "FeaturesSpec option"
  prof_greeter :: "GreeterSpec option"
  prof_mode :: "SessionMode option"
  prof_persistence :: "PersistenceSpec option"
  prof_region :: "RegionSpec option"
  prof_services :: "ServicesSpec option"
  prof_session :: "SessionSpec option"
  prof_user :: "UserSpec option"
  prof_vm :: "VMSpec option"
  prof_volumes :: "VolumesSpec option"

definition profile_default :: SessionProfileSpec where
  "profile_default = \<lparr>prof_drivers = None, prof_external_services = None, prof_extra_services = None,
     prof_features = None, prof_greeter = None, prof_mode = None, prof_persistence = None,
     prof_region = None, prof_services = None, prof_session = None, prof_user = None, prof_vm = None,
     prof_volumes = None\<rparr>"

record SessionProfileCrd =
  profile_meta :: ObjectMeta
  profile_spec :: SessionProfileSpec

section \<open>Bindings\<close>

datatype SessionBindingUserKind = Guest | User

record SessionBindingUserSpec =
  user_kind :: SessionBindingUserKind
  user_name :: "string option"
  user_privileged :: "bool option"

definition binding_user_default :: SessionBindingUserSpec where
  "binding_user_default = \<lparr>user_kind = Guest, user_name = None, user_privileged = None\<rparr>"

record SessionBindingSpec =
  binding_enabled :: "bool option"
  node_selector :: "labels option"
  binding_priority :: i32
  binding_profile :: string
  binding_user :: SessionBindingUserSpec

record SessionBindingCrd =
  binding_meta :: ObjectMeta
  binding_spec :: SessionBindingSpec

section \<open>Values of the session chart\<close>

record OwnedAuthSpec =
  auth_domain :: string

record OwnedFeaturesSpec =
  owned_features :: FeaturesSpec
  owned_gateway :: bool
  owned_ingress_enabled :: bool
  owned_vm_enabled :: bool

record OwnedIngressSpec =
  ingress_domain :: string

record OwnedNodeSpec =
  node_alias :: "string option"
  node_name :: string

record OwnedOpenArkLabelsSpec =
  ark_bind :: string
  ark_bind_mode :: string
  ark_bind_node :: string
  ark_bind_persistent :: string
  ark_bind_profile :: string
  ark_bind_user :: string
  ark_is_private :: string
  ark_signed_out :: string

record OwnedOpenArkSpec =
  openark_labels :: OwnedOpenArkLabelsSpec

record OwnedUserSpec =
  owned_binding :: SessionBindingUserSpec
  owned_user :: UserSpec

record OwnedVMHostDeviceSpec =
  device_api_group :: string
  device_kind :: string
  device_vendor :: string
  device_product :: string

record OwnedVMSpec =
  owned_vm_data :: VMSpec
  owned_host_devices :: "OwnedVMHostDeviceSpec list option"

record OwnedSessionProfileSpec =
  owned_auth :: OwnedAuthSpec
  owned_drivers :: DriversSpec
  owned_external_services :: ExternalServicesSpec
  owned_extra_services :: "string list"
  owned_feature_set :: OwnedFeaturesSpec
  owned_greeter :: GreeterSpec
  owned_ingress :: OwnedIngressSpec
  owned_mode :: SessionMode
  owned_node :: OwnedNodeSpec
  owned_openark :: OwnedOpenArkSpec
  owned_persistence :: PersistenceSpec
  owned_region :: RegionSpec
  owned_services :: ServicesSpec
  owned_session :: SessionSpec
  owned_user_spec :: OwnedUserSpec
  owned_vm :: OwnedVMSpec
  owned_volumes :: VolumesSpec

end
