(* ===== verification/Vine_Session.thy ===== *)
theory Vine_Session
  imports Complex_Main Vine_Profile
begin

text \<open>
  The session of a node (\<^verbatim>\<open>crates/openark-vine-session-api/src/lib.rs\<close>): its
  metadata is kept in the labels of the node, its locks in the taints.  A session is loaded from
  the node, changed, and written back as a patch.  What the code takes from libraries is in the
  record \<open>vine_lib\<close>: the conversion between timestamps and milliseconds, the arithmetic of
  quantities, a change of letter case and the conversion of values to JSON.  \<open>'q\<close> stands
  for parsed quantities and \<open>'w\<close> for \<^verbatim>\<open>f64\<close>, with exact arithmetic.
\<close>

section \<open>Libraries\<close>

record ('q, 'w) vine_lib =
  from_millisecond :: "int \<Rightarrow> timestamp option"
  as_millisecond :: "timestamp \<Rightarrow> int"
  quantity_parse :: "string \<Rightarrow> 'q option"
  quantity_add :: "'q \<Rightarrow> 'q \<Rightarrow> 'q"
  quantity_sub :: "'q \<Rightarrow> 'q \<Rightarrow> 'q"
  quantity_default :: 'q
  to_bytes_f64 :: "'q \<Rightarrow> 'w option"
  to_bytes_i128 :: "'q \<Rightarrow> int option"
  to_pascal :: "string \<Rightarrow> string"

section \<open>GPUs and compute modes\<close>

datatype VineSessionGPU = Intel | Nvidia

definition try_from_vendor :: "string \<Rightarrow> VineSessionGPU option" where
  "try_from_vendor vendor =
     (if vendor = ''0x8086'' then Some Intel else if vendor = ''0x10de'' then Some Nvidia else None)"

definition gpu_parse :: "string \<Rightarrow> VineSessionGPU option" where
  "gpu_parse s = (if s = ''intel'' then Some Intel else if s = ''nvidia'' then Some Nvidia else None)"

datatype ComputeMode = Container | Kueue | VM

definition compute_mode_default :: ComputeMode where
  "compute_mode_default = VM"

fun compute_mode_str :: "ComputeMode \<Rightarrow> string" where
  "compute_mode_str Container = ''container''"
| "compute_mode_str Kueue = ''kueue''"
| "compute_mode_str VM = ''vm''"

definition compute_mode_parse :: "string \<Rightarrow> ComputeMode option" where
  "compute_mode_parse s =
     (if s = ''container'' then Some Container else if s = ''kueue'' then Some Kueue
      else if s = ''vm'' then Some VM else None)"

fun as_nvidia_gpu_replicas :: "ComputeMode \<Rightarrow> u32" where
  "as_nvidia_gpu_replicas Container = 256"
| "as_nvidia_gpu_replicas Kueue = 1"
| "as_nvidia_gpu_replicas VM = 1"

fun as_nvidia_gpu_workload_config :: "ComputeMode \<Rightarrow> string" where
  "as_nvidia_gpu_workload_config Container = ''container''"
| "as_nvidia_gpu_workload_config Kueue = ''container''"
| "as_nvidia_gpu_workload_config VM = ''vm-passthrough''"

definition infer_compute_mode :: "SessionProfileCrd \<Rightarrow> ComputeMode" where
  "infer_compute_mode profile =
     (if is_some_and (\<lambda>vm. unwrap_or False (vm_enabled vm)) (prof_vm (profile_spec profile)) then VM
      else if is_pod (unwrap_or mode_default (prof_mode (profile_spec profile))) then Container
      else Kueue)"

section \<open>Arguments\<close>

record VineSessionArgs =
  auth_domain_name :: string
  duration_sign_out_seconds :: i64
  feature_gateway :: bool
  feature_ingress :: bool
  feature_vm :: bool
  force_gpu :: "VineSessionGPU option"
  ingress_domain_name :: string
  label_alias :: string
  label_bind :: string
  label_bind_cpu :: string
  label_bind_memory :: string
  label_bind_mode :: string
  label_bind_namespace :: string
  label_bind_node :: string
  label_bind_persistent :: string
  label_bind_privileged :: string
  label_bind_profile :: string
  label_bind_revision :: string
  label_bind_storage :: string
  label_bind_timestamp :: string
  label_bind_user :: string
  label_compute_mode :: string
  label_gpu :: string
  label_is_private :: string
  label_signed_out :: string
  source_path :: string
  source_repo_revision :: string
  source_repo_url :: string
  args_timezone :: "string option"

definition duration_sign_out :: "VineSessionArgs \<Rightarrow> duration" where
  "duration_sign_out args = seconds (duration_sign_out_seconds args)"

section \<open>Nodes and pods\<close>

record Taint =
  taint_key :: string
  taint_value :: "string option"
  taint_effect :: string
  time_added :: "timestamp option"

record NodeSpec =
  spec_taints :: "Taint list option"
  spec_unschedulable :: "bool option"

record NodeStatus =
  capacity :: "(string \<times> Quantity) list option"
  allocatable :: "(string \<times> Quantity) list option"

record Node =
  node_meta :: ObjectMeta
  node_spec :: "NodeSpec option"
  node_status :: "NodeStatus option"

record PodContainer =
  container_resources :: "ResourceRequirements option"
  restart_policy :: "string option"

record PodSpec =
  init_containers :: "PodContainer list option"
  containers :: "PodContainer list"

record Pod =
  pod_meta :: ObjectMeta
  pod_spec :: "PodSpec option"

definition filter_taint :: "Taint \<Rightarrow> string \<Rightarrow> bool" where
  "filter_taint taint key \<longleftrightarrow> taint_key taint = key \<and> taint_effect taint = ''NoExecute''"

definition option_filter :: "('a \<Rightarrow> bool) \<Rightarrow> 'a option \<Rightarrow> 'a option" where
  "option_filter P x = (case x of None \<Rightarrow> None | Some a \<Rightarrow> if P a then Some a else None)"

definition to_node_spec :: "VineSessionArgs \<Rightarrow> Node \<Rightarrow> OwnedNodeSpec" where
  "to_node_spec args node = \<lparr>
     node_alias = Some (unwrap_or (name_any (node_meta node))
       (option_filter (\<lambda>alias. \<not> is_blank alias) (label_of (node_meta node) (label_alias args)))),
     node_name = name_any (node_meta node)\<rparr>"

definition to_openark_auth_spec :: "VineSessionArgs \<Rightarrow> OwnedAuthSpec" where
  "to_openark_auth_spec args = \<lparr>auth_domain = auth_domain_name args\<rparr>"

definition to_openark_ingress_spec :: "VineSessionArgs \<Rightarrow> OwnedIngressSpec" where
  "to_openark_ingress_spec args = \<lparr>ingress_domain = ingress_domain_name args\<rparr>"

definition to_openark_labels :: "VineSessionArgs \<Rightarrow> OwnedOpenArkLabelsSpec" where
  "to_openark_labels args = \<lparr>ark_bind = label_bind args, ark_bind_mode = label_bind_mode args,
     ark_bind_node = label_bind_node args, ark_bind_persistent = label_bind_persistent args,
     ark_bind_profile = label_bind_profile args, ark_bind_user = label_bind_user args,
     ark_is_private = label_is_private args, ark_signed_out = label_signed_out args\<rparr>"

section \<open>Metadata\<close>

record Metadata =
  md_alias :: "string option"
  md_bind :: "bool option"
  md_bind_cpu :: "Quantity option"
  md_bind_memory :: "Quantity option"
  md_bind_namespace :: "string option"
  md_bind_node :: "string option"
  md_bind_persistent :: "bool option"
  md_bind_privileged :: "bool option"
  md_bind_profile :: "string option"
  md_bind_revision :: "string option"
  md_bind_storage :: "Quantity option"
  md_bind_timestamp :: "timestamp option"
  md_bind_user :: "string option"
  md_compute_mode :: "ComputeMode option"
  md_gpu :: "VineSessionGPU option"
  md_name :: "string option"
  md_signed_out :: "bool option"

definition text_label :: "ObjectMeta \<Rightarrow> string \<Rightarrow> string option" where
  "text_label m key = option_filter (\<lambda>v. v \<noteq> []) (label_of m key)"

definition load_metadata :: "('q, 'w) vine_lib \<Rightarrow> VineSessionArgs \<Rightarrow> ObjectMeta \<Rightarrow> Metadata" where
  "load_metadata L args m = \<lparr>
     md_alias = text_label m (label_alias args),
     md_bind = Option.bind (label_of m (label_bind args)) bool_parse,
     md_bind_cpu = text_label m (label_bind_cpu args),
     md_bind_memory = text_label m (label_bind_memory args),
     md_bind_namespace = text_label m (label_bind_namespace args),
     md_bind_node = text_label m (label_bind_node args),
     md_bind_persistent = Option.bind (label_of m (label_bind_persistent args)) bool_parse,
     md_bind_privileged = Option.bind (label_of m (label_bind_privileged args)) bool_parse,
     md_bind_profile = text_label m (label_bind_profile args),
     md_bind_revision = text_label m (label_bind_revision args),
     md_bind_storage = text_label m (label_bind_storage args),
     md_bind_timestamp = Option.bind (Option.bind (label_of m (label_bind_timestamp args)) i64_parse)
       (from_millisecond L),
     md_bind_user = text_label m (label_bind_user args),
     md_compute_mode = Option.bind (label_of m (label_compute_mode args)) compute_mode_parse,
     md_gpu = Option.bind (label_of m (label_gpu args)) gpu_parse,
     md_name = meta_name m,
     md_signed_out = Option.bind (label_of m (label_signed_out args)) bool_parse\<rparr>"

definition label_entries :: "('q, 'w) vine_lib \<Rightarrow> VineSessionArgs \<Rightarrow> Metadata \<Rightarrow> labels" where
  "label_entries L args md =
     (let mode = unwrap_or compute_mode_default (md_compute_mode md) in
      [(label_alias args, unwrap_or [] (md_alias md)),
       (label_bind args, bool_str (unwrap_or False (md_bind md))),
       (label_bind_cpu args, unwrap_or [] (md_bind_cpu md)),
       (label_bind_memory args, unwrap_or [] (md_bind_memory md)),
       (label_bind_namespace args, unwrap_or [] (md_bind_namespace md)),
       (label_bind_node args, unwrap_or [] (md_bind_node md)),
       (label_bind_persistent args, bool_str (unwrap_or False (md_bind_persistent md))),
       (label_bind_profile args, unwrap_or [] (md_bind_profile md)),
       (label_bind_revision args, unwrap_or [] (md_bind_revision md)),
       (label_bind_storage args, unwrap_or [] (md_bind_storage md)),
       (label_bind_timestamp args,
         unwrap_or [] (map_option (\<lambda>t. int_str (as_millisecond L t)) (md_bind_timestamp md))),
       (label_bind_user args, unwrap_or [] (md_bind_user md)),
       (label_compute_mode args, compute_mode_str mode),
       (label_signed_out args, bool_str (unwrap_or True (md_signed_out md))),
       (''nvidia.com/device-plugin.config'', ''kiss-Desktop''),
       (''nvidia.com/gpu.replicas'', word_str (as_nvidia_gpu_replicas mode)),
       (''nvidia.com/gpu.sharing-strategy'', ''time-slicing''),
       (''nvidia.com/gpu.workload.config'', as_nvidia_gpu_workload_config mode)])"

definition build_labels :: "('q, 'w) vine_lib \<Rightarrow> VineSessionArgs \<Rightarrow> Metadata \<Rightarrow> labels" where
  "build_labels L args md = bt_collect (label_entries L args md)"

section \<open>Sessions\<close>

record NodeSession =
  sess_metadata :: Metadata
  sess_node :: Node
  sess_taints :: "Taint list"
  sess_unreachable :: bool

definition load_session :: "('q, 'w) vine_lib \<Rightarrow> VineSessionArgs \<Rightarrow> Node \<Rightarrow> NodeSession" where
  "load_session L args node =
     (let taints = Option.bind (node_spec node) spec_taints in
      \<lparr>sess_metadata = load_metadata L args (node_meta node),
       sess_node = node,
       sess_taints = unwrap_or [] taints,
       sess_unreachable = unwrap_or False
         (map_option (list_ex (\<lambda>t. filter_taint t ''node.kubernetes.io/unreachable'')) taints)\<rparr>)"

definition get_profile :: "NodeSession \<Rightarrow> string option" where
  "get_profile s = md_bind_profile (sess_metadata s)"

definition get_user :: "NodeSession \<Rightarrow> string option" where
  "get_user s = option_filter (\<lambda>u. u \<noteq> []) (md_bind_user (sess_metadata s))"

definition not_ready :: "NodeSession \<Rightarrow> bool" where
  "not_ready s \<longleftrightarrow> md_bind (sess_metadata s) \<noteq> Some True"

definition signed_out :: "NodeSession \<Rightarrow> bool" where
  "signed_out s = unwrap_or True (md_signed_out (sess_metadata s))"

definition remaining_until :: "timestamp \<Rightarrow> timestamp \<Rightarrow> duration option" where
  "remaining_until completed now = (if completed > now then Some (completed - now) else None)"

definition signing_out :: "VineSessionArgs \<Rightarrow> NodeSession \<Rightarrow> timestamp \<Rightarrow> duration option" where
  "signing_out args s now =
     Option.bind (List.find (\<lambda>t. filter_taint t (label_signed_out args)) (sess_taints s)) (\<lambda>taint.
     Option.bind (time_added taint) (\<lambda>added.
     remaining_until (added + duration_sign_out args) now))"

definition append_labels :: "('q, 'w) vine_lib \<Rightarrow> VineSessionArgs \<Rightarrow> NodeSession \<Rightarrow> labels \<Rightarrow> labels" where
  "append_labels L args s ls =
     fold (\<lambda>(key, v) m. bt_insert key v m) (build_labels L args (sess_metadata s)) ls"

section \<open>Resources of a node\<close>

definition sidecar :: "PodContainer \<Rightarrow> bool" where
  "sidecar c \<longleftrightarrow> is_some_and (\<lambda>policy. policy = ''Always'') (restart_policy c)"

definition container_limit :: "('q, 'w) vine_lib \<Rightarrow> string \<Rightarrow> PodContainer \<Rightarrow> 'q option" where
  "container_limit L key c =
     Option.bind (container_resources c) (\<lambda>r. Option.bind (res_limits r) (\<lambda>ls.
     Option.bind (bt_get ls key) (quantity_parse L)))"

definition pod_limits :: "('q, 'w) vine_lib \<Rightarrow> string \<Rightarrow> Pod \<Rightarrow> 'q list" where
  "pod_limits L key pod =
     (case pod_spec pod of
        None \<Rightarrow> []
      | Some spec \<Rightarrow> List.map_filter (container_limit L key)
          (filter sidecar (unwrap_or [] (init_containers spec)) @ containers spec))"

definition reduce :: "('q \<Rightarrow> 'q \<Rightarrow> 'q) \<Rightarrow> 'q list \<Rightarrow> 'q option" where
  "reduce f qs = (case qs of [] \<Rightarrow> None | q # qs \<Rightarrow> Some (fold (\<lambda>b a. f a b) qs q))"

definition collect_resource_limits :: "('q, 'w) vine_lib \<Rightarrow> Pod list \<Rightarrow> string \<Rightarrow> 'q" where
  "collect_resource_limits L pods key =
     unwrap_or (quantity_default L) (reduce (quantity_add L) (concat (map (pod_limits L key) pods)))"

definition u32_cast :: "int \<Rightarrow> u32" where
  "u32_cast n = (if n < 0 then 0 else if 2 ^ 32 \<le> n then - 1 else word_of_int n)"

text \<open>What remains of the processors, less one, and of the memory, less two GiB.\<close>

definition free_cpu :: "('q, 'w::floor_ceiling) vine_lib \<Rightarrow> (string \<times> Quantity) list \<Rightarrow> 'q \<Rightarrow> u32" where
  "free_cpu L alloc used =
     (let cpu = unwrap_or 0 (Option.bind (Option.bind (bt_get alloc ''cpu'') (quantity_parse L))
            (\<lambda>q. to_bytes_f64 L (quantity_sub L q used)));
          cores = \<lfloor>cpu - 1\<rfloor>
      in if 0 \<le> cores then u32_cast cores else 0)"

definition i128_sub :: "int \<Rightarrow> int \<Rightarrow> int option" where
  "i128_sub a b = (if - (2 ^ 127) \<le> a - b \<and> a - b < 2 ^ 127 then Some (a - b) else None)"

definition free_memory :: "('q, 'w) vine_lib \<Rightarrow> (string \<times> Quantity) list \<Rightarrow> 'q \<Rightarrow> int" where
  "free_memory L alloc used =
     unwrap_or 0 (option_filter (\<lambda>v. 0 \<le> v)
       (Option.bind (Option.bind (Option.bind (bt_get alloc ''memory'') (quantity_parse L))
          (\<lambda>q. to_bytes_i128 L (quantity_sub L q used))) (\<lambda>v. i128_sub v (2 * 2 ^ 30))))"

definition apply_node ::
  "('q, 'w::floor_ceiling) vine_lib \<Rightarrow> VineSessionArgs \<Rightarrow> Pod list \<Rightarrow> NodeSession \<Rightarrow> NodeSession" where
  "apply_node L args pods s =
     (let pods = filter (\<lambda>pod. label_of (pod_meta pod) (label_bind_node args) = None) pods;
          cpu = collect_resource_limits L pods ''cpu''; memory = collect_resource_limits L pods ''memory'';
          md = sess_metadata s;
          md = (case Option.bind (node_status (sess_node s)) allocatable of
                  None \<Rightarrow> md
                | Some alloc \<Rightarrow> md\<lparr>md_bind_cpu := Some (word_str (free_cpu L alloc cpu)),
                                  md_bind_memory := Some (int_str (free_memory L alloc memory))\<rparr>)
      in s\<lparr>sess_metadata := md\<lparr>md_bind_node := md_name md\<rparr>\<rparr>)"

section \<open>Taints\<close>

fun set_taint_in :: "string \<Rightarrow> string \<Rightarrow> timestamp \<Rightarrow> Taint list \<Rightarrow> Taint list \<times> timestamp" where
  "set_taint_in key v now [] =
     ([\<lparr>taint_key = key, taint_value = Some v, taint_effect = ''NoExecute'', time_added = Some now\<rparr>], now)"
| "set_taint_in key v now (t # ts) =
     (if filter_taint t key then (t\<lparr>taint_value := Some v\<rparr> # ts, unwrap_or now (time_added t))
      else (let (ts', added) = set_taint_in key v now ts in (t # ts', added)))"

definition set_taint :: "string \<Rightarrow> string \<Rightarrow> timestamp \<Rightarrow> NodeSession \<Rightarrow> NodeSession \<times> timestamp" where
  "set_taint key v now s =
     (let (ts, added) = set_taint_in key v now (sess_taints s) in (s\<lparr>sess_taints := ts\<rparr>, added))"

fun remove_taint_in :: "string \<Rightarrow> Taint list \<Rightarrow> Taint list" where
  "remove_taint_in key [] = []"
| "remove_taint_in key (t # ts) = (if filter_taint t key then ts else t # remove_taint_in key ts)"

definition remove_taint :: "string \<Rightarrow> NodeSession \<Rightarrow> NodeSession" where
  "remove_taint key s = s\<lparr>sess_taints := remove_taint_in key (sess_taints s)\<rparr>"

section \<open>Profiles of a session\<close>

datatype ProfileState =
  Changed string
| Created SessionBindingCrd SessionProfileCrd
| Deleted "string option"
| Unchanged SessionBindingCrd SessionProfileCrd

definition has_changed :: "ProfileState \<Rightarrow> bool" where
  "has_changed st = (case st of Changed _ \<Rightarrow> True | Deleted _ \<Rightarrow> True | _ \<Rightarrow> False)"

definition profile_state ::
  "Metadata \<Rightarrow> (SessionBindingCrd \<times> SessionProfileCrd) option \<Rightarrow> ProfileState" where
  "profile_state md choice =
     (case choice of
        None \<Rightarrow> Deleted (md_bind_profile md)
      | Some (binding, profile) \<Rightarrow>
          (case md_bind_profile md of
             None \<Rightarrow> Created binding profile
           | Some p \<Rightarrow>
               if p = binding_profile (binding_spec binding)
                  \<and> md_bind_revision md = meta_resource_version (profile_meta profile)
               then Unchanged binding profile else Changed p))"

definition bound_metadata ::
  "Metadata \<Rightarrow> SessionBindingCrd \<Rightarrow> SessionProfileCrd \<Rightarrow> timestamp \<Rightarrow> Metadata" where
  "bound_metadata md binding profile now =
     (let kept = (case profile_state md (Some (binding, profile)) of
                    Unchanged _ _ \<Rightarrow> md_bind_timestamp md | _ \<Rightarrow> None);
          user = binding_user (binding_spec binding)
      in md\<lparr>md_bind := Some True,
           md_bind_namespace := None,
           md_bind_persistent := Some (unwrap_or False
             (Option.bind (prof_persistence (profile_spec profile)) persist_enabled)),
           md_bind_privileged := user_privileged user,
           md_bind_profile := Some (binding_profile (binding_spec binding)),
           md_bind_revision := meta_resource_version (profile_meta profile),
           md_bind_timestamp := Some (unwrap_or now kept),
           md_bind_user := (case user_kind user of Guest \<Rightarrow> None | User \<Rightarrow> user_name user),
           md_compute_mode := Some (infer_compute_mode profile)\<rparr>)"

definition unbound_metadata :: "Metadata \<Rightarrow> Metadata" where
  "unbound_metadata md = md\<lparr>md_bind := Some False, md_bind_namespace := None,
     md_bind_persistent := Some False, md_bind_profile := None, md_bind_revision := None,
     md_bind_timestamp := None, md_bind_user := None\<rparr>"

definition apply_profile ::
  "VineSessionArgs \<Rightarrow> (SessionBindingCrd \<times> SessionProfileCrd) option \<Rightarrow> timestamp \<Rightarrow> NodeSession \<Rightarrow>
     NodeSession \<times> ProfileState" where
  "apply_profile args choice now s =
     (let md = sess_metadata s in
      (case choice of
         Some (binding, profile) \<Rightarrow>
           fst (set_taint (label_bind_profile args) (binding_profile (binding_spec binding)) now
             (fst (set_taint (label_bind args) ''true'' now
               (s\<lparr>sess_metadata := bound_metadata md binding profile now\<rparr>))))
       | None \<Rightarrow>
           remove_taint (label_bind_profile args)
             (remove_taint (label_bind args) (s\<lparr>sess_metadata := unbound_metadata md\<rparr>)),
       profile_state md choice))"

definition remove_session_revision :: "NodeSession \<Rightarrow> NodeSession" where
  "remove_session_revision s = s\<lparr>sess_metadata := (sess_metadata s)\<lparr>md_bind_revision := None\<rparr>\<rparr>"

definition set_sign_out ::
  "VineSessionArgs \<Rightarrow> timestamp \<Rightarrow> bool \<Rightarrow> NodeSession \<Rightarrow> NodeSession \<times> duration option" where
  "set_sign_out args now sign_out s =
     (if sign_out then
        (let s = s\<lparr>sess_metadata := (sess_metadata s)\<lparr>md_bind := Some False, md_bind_revision := None,
               md_bind_namespace := None, md_bind_persistent := Some False, md_bind_profile := None,
               md_bind_timestamp := None, md_bind_user := None, md_compute_mode := Some VM,
               md_signed_out := Some True\<rparr>\<rparr>;
             (s, added) = set_taint (label_signed_out args) ''true'' now s
         in (s, remaining_until (added + duration_sign_out args) now))
      else (s\<lparr>sess_unreachable := False,
              sess_metadata := (sess_metadata s)\<lparr>md_signed_out := Some False\<rparr>\<rparr>, None))"

section \<open>Writing a session\<close>

record NodePatch =
  patch_labels :: labels
  patch_name :: "string option"
  patch_taints :: "Taint list"
  patch_unschedulable :: bool

definition to_patch :: "('q, 'w) vine_lib \<Rightarrow> VineSessionArgs \<Rightarrow> NodeSession \<Rightarrow> NodePatch" where
  "to_patch L args s = \<lparr>patch_labels = build_labels L args (sess_metadata s),
     patch_name = md_name (sess_metadata s), patch_taints = sess_taints s,
     patch_unschedulable = sess_unreachable s\<rparr>"

text \<open>The regular expression \<^verbatim>\<open>^nvidia\.com/[A-Z0-9_]+$\<close>.\<close>

definition device_char :: "char \<Rightarrow> bool" where
  "device_char c \<longleftrightarrow> (let n = of_char c :: nat in 65 \<le> n \<and> n \<le> 90 \<or> 48 \<le> n \<and> n \<le> 57 \<or> n = 95)"

definition nvidia_device :: "string \<Rightarrow> bool" where
  "nvidia_device key \<longleftrightarrow>
     take 11 key = ''nvidia.com/'' \<and> drop 11 key \<noteq> [] \<and> list_all device_char (drop 11 key)"

definition ends_with :: "string \<Rightarrow> string \<Rightarrow> bool" where
  "ends_with suffix s \<longleftrightarrow> length suffix \<le> length s \<and> drop (length s - length suffix) s = suffix"

definition to_resources_compute :: "VineSessionArgs \<Rightarrow> NodeSession \<Rightarrow> string + (string \<times> Quantity) list" where
  "to_resources_compute args s =
     (let md = sess_metadata s in
      case md_bind_cpu md of
        None \<Rightarrow> Inl ''CPU is not provisioned yet''
      | Some cpu \<Rightarrow>
          (case md_bind_memory md of
             None \<Rightarrow> Inl ''Memory is not provisioned yet''
           | Some memory \<Rightarrow>
               (let m = bt_insert ''memory'' memory (bt_insert ''cpu'' cpu []) in
                case (case force_gpu args of Some g \<Rightarrow> Some g | None \<Rightarrow> md_gpu md) of
                  None \<Rightarrow> Inl ''GPU is not detected or not provisioned yet''
                | Some Intel \<Rightarrow> Inr m
                | Some Nvidia \<Rightarrow>
                    (case md_compute_mode md of
                       None \<Rightarrow> Inr m
                     | Some VM \<Rightarrow> Inr (fold (\<lambda>(key, _) m. bt_insert key ''1'' m)
                         (filter (\<lambda>(key, _). nvidia_device key \<and> \<not> ends_with ''_Audio'' key)
                           (unwrap_or [] (Option.bind (node_status (sess_node s)) allocatable))) m)
                     | Some _ \<Rightarrow> Inr (bt_insert ''nvidia.com/gpu'' ''1'' m)))))"

definition to_resources_local_storage :: "NodeSession \<Rightarrow> string + (string \<times> Quantity) list" where
  "to_resources_local_storage s =
     (case md_bind_storage (sess_metadata s) of
        None \<Rightarrow> Inl ''Local storage is not provisioned yet''
      | Some storage \<Rightarrow> Inr (bt_insert ''storage'' storage []))"

section \<open>Loading what was written\<close>

lemma compute_mode_parse_str: "compute_mode_parse (compute_mode_str m) = Some m"
  by (cases m) (simp_all add: compute_mode_parse_def)

text \<open>The keys the operator writes, and those it only reads.\<close>

definition written_keys :: "VineSessionArgs \<Rightarrow> string list" where
  "written_keys args = [label_alias args, label_bind args, label_bind_cpu args, label_bind_memory args,
     label_bind_namespace args, label_bind_node args, label_bind_persistent args, label_bind_profile args,
     label_bind_revision args, label_bind_storage args, label_bind_timestamp args, label_bind_user args,
     label_compute_mode args, label_signed_out args, ''nvidia.com/device-plugin.config'',
     ''nvidia.com/gpu.replicas'', ''nvidia.com/gpu.sharing-strategy'', ''nvidia.com/gpu.workload.config'']"

definition distinct_keys :: "VineSessionArgs \<Rightarrow> bool" where
  "distinct_keys args \<longleftrightarrow> distinct (label_bind_privileged args # label_gpu args # written_keys args)"

text \<open>What the API server does with a strategic merge patch of a node: the labels of the patch are
  merged into those of the node, the taints replace the old ones, the name and the status stay.  The
  time of a taint is kept to the second (\<^verbatim>\<open>metav1.Time\<close>).\<close>

definition whole_second :: "timestamp \<Rightarrow> timestamp" where
  "whole_second t = t - t mod seconds 1"

definition stored_taint :: "Taint \<Rightarrow> Taint" where
  "stored_taint t = t\<lparr>time_added := map_option whole_second (time_added t)\<rparr>"

lemma filter_stored_taint [simp]: "filter_taint (stored_taint t) key = filter_taint t key"
  by (simp add: filter_taint_def stored_taint_def)

lemma stored_taint_fields [simp]:
  "taint_key (stored_taint t) = taint_key t" "taint_effect (stored_taint t) = taint_effect t"
  "taint_value (stored_taint t) = taint_value t" "time_added (stored_taint t) = map_option whole_second (time_added t)"
  by (simp_all add: stored_taint_def)

lemma find_stored_taint:
  "List.find (\<lambda>t. filter_taint t key) (map stored_taint ts) =
     map_option stored_taint (List.find (\<lambda>t. filter_taint t key) ts)"
  by (induction ts) simp_all

lemma whole_second_bounds: "whole_second t \<le> t" "t < whole_second t + seconds 1"
  by (simp_all add: whole_second_def seconds_def)

definition merges :: "Node \<Rightarrow> NodePatch \<Rightarrow> Node \<Rightarrow> bool" where
  "merges node p node' \<longleftrightarrow>
     (\<forall>k. label_of (node_meta node') k =
        (case bt_get (patch_labels p) k of None \<Rightarrow> label_of (node_meta node) k | Some v \<Rightarrow> Some v))
     \<and> meta_name (node_meta node') = meta_name (node_meta node)
     \<and> Option.bind (node_spec node') spec_taints = Some (map stored_taint (patch_taints p))
     \<and> node_status node' = node_status node"

lemma keys_label_entries: "map fst (label_entries L args md) = written_keys args"
  by (simp add: label_entries_def written_keys_def Let_def)

lemma map_of_rev_distinct: "distinct (map fst es) \<Longrightarrow> map_of (rev es) = map_of es"
  by (rule map_of_inject_set [THEN iffD2]) (simp_all add: rev_map [symmetric])

lemma bt_get_build_labels:
  assumes "distinct_keys args"
  shows "bt_get (build_labels L args md) k = map_of (label_entries L args md) k"
  using assms map_of_rev_distinct [of "label_entries L args md"]
  by (simp add: build_labels_def bt_get_collect keys_label_entries distinct_keys_def)

text \<open>What loading gives back: texts that are empty count as missing, and switches that are
  missing get their default.\<close>

definition full :: "string option \<Rightarrow> string option" where
  "full x = option_filter (\<lambda>v. v \<noteq> []) x"

definition stored_metadata :: "('q, 'w) vine_lib \<Rightarrow> VineSessionArgs \<Rightarrow> ObjectMeta \<Rightarrow> Metadata \<Rightarrow> Metadata" where
  "stored_metadata L args m md = \<lparr>
     md_alias = full (md_alias md),
     md_bind = Some (unwrap_or False (md_bind md)),
     md_bind_cpu = full (md_bind_cpu md),
     md_bind_memory = full (md_bind_memory md),
     md_bind_namespace = full (md_bind_namespace md),
     md_bind_node = full (md_bind_node md),
     md_bind_persistent = Some (unwrap_or False (md_bind_persistent md)),
     md_bind_privileged = Option.bind (label_of m (label_bind_privileged args)) bool_parse,
     md_bind_profile = full (md_bind_profile md),
     md_bind_revision = full (md_bind_revision md),
     md_bind_storage = full (md_bind_storage md),
     md_bind_timestamp = Option.bind (map_option (as_millisecond L) (md_bind_timestamp md)) (from_millisecond L),
     md_bind_user = full (md_bind_user md),
     md_compute_mode = Some (unwrap_or compute_mode_default (md_compute_mode md)),
     md_gpu = Option.bind (label_of m (label_gpu args)) gpu_parse,
     md_name = meta_name m,
     md_signed_out = Some (unwrap_or True (md_signed_out md))\<rparr>"

lemma full_unwrap: "option_filter (\<lambda>v. v \<noteq> []) (Some (unwrap_or [] x)) = full x"
  by (cases x) (simp_all add: full_def option_filter_def)

lemma full_full [simp]: "full (full x) = full x"
  by (cases x) (simp_all add: full_def option_filter_def)

definition in_i64 :: "('q, 'w) vine_lib \<Rightarrow> Metadata \<Rightarrow> bool" where
  "in_i64 L md \<longleftrightarrow> is_none_or (\<lambda>t. - (2 ^ 63) \<le> as_millisecond L t \<and> as_millisecond L t < 2 ^ 63)
     (md_bind_timestamp md)"

lemma stored_stamp:
  assumes "in_i64 L md"
  shows "Option.bind (i64_parse (unwrap_or [] (map_option (\<lambda>t. int_str (as_millisecond L t)) (md_bind_timestamp md))))
      (from_millisecond L) = Option.bind (map_option (as_millisecond L) (md_bind_timestamp md)) (from_millisecond L)"
  using assms by (cases "md_bind_timestamp md") (simp_all add: in_i64_def i64_parse_int_str)

lemma merged_label:
  assumes "distinct_keys args" and "merges node (to_patch L args s) node'"
  shows "label_of (node_meta node') k =
    (case map_of (label_entries L args (sess_metadata s)) k of
       None \<Rightarrow> label_of (node_meta node) k | Some v \<Rightarrow> Some v)"
  using assms by (simp add: merges_def to_patch_def bt_get_build_labels)

lemma map_of_entry:
  assumes "distinct_keys args" and "(k, v) \<in> set (label_entries L args md)"
  shows "map_of (label_entries L args md) k = Some v"
  using assms by (intro map_of_is_SomeI) (simp_all add: keys_label_entries distinct_keys_def)

lemma map_of_absent:
  assumes "k \<notin> set (written_keys args)"
  shows "map_of (label_entries L args md) k = None"
  using assms keys_label_entries [of L args md] by (metis map_of_eq_None_iff set_map)

lemma load_merged:
  assumes keys: "distinct_keys args" and m: "merges node (to_patch L args s) node'"
    and range: "in_i64 L (sess_metadata s)"
  shows "load_metadata L args (node_meta node') = stored_metadata L args (node_meta node) (sess_metadata s)"
proof -
  let ?md = "sess_metadata s"
  have written: "label_of (node_meta node') k = Some v" if "(k, v) \<in> set (label_entries L args ?md)" for k v
    using map_of_entry [OF keys that] by (simp add: merged_label [OF keys m])
  have other: "label_of (node_meta node') k = label_of (node_meta node) k" if "k \<notin> set (written_keys args)" for k
    using map_of_absent [OF that, of L ?md] by (simp add: merged_label [OF keys m])
  have privileged: "label_of (node_meta node') (label_bind_privileged args) = label_of (node_meta node) (label_bind_privileged args)"
    and gpu: "label_of (node_meta node') (label_gpu args) = label_of (node_meta node) (label_gpu args)"
    using keys by (simp_all add: other distinct_keys_def)
  have labels:
    "label_of (node_meta node') (label_alias args) = Some (unwrap_or [] (md_alias ?md))"
    "label_of (node_meta node') (label_bind args) = Some (bool_str (unwrap_or False (md_bind ?md)))"
    "label_of (node_meta node') (label_bind_cpu args) = Some (unwrap_or [] (md_bind_cpu ?md))"
    "label_of (node_meta node') (label_bind_memory args) = Some (unwrap_or [] (md_bind_memory ?md))"
    "label_of (node_meta node') (label_bind_namespace args) = Some (unwrap_or [] (md_bind_namespace ?md))"
    "label_of (node_meta node') (label_bind_node args) = Some (unwrap_or [] (md_bind_node ?md))"
    "label_of (node_meta node') (label_bind_persistent args) = Some (bool_str (unwrap_or False (md_bind_persistent ?md)))"
    "label_of (node_meta node') (label_bind_profile args) = Some (unwrap_or [] (md_bind_profile ?md))"
    "label_of (node_meta node') (label_bind_revision args) = Some (unwrap_or [] (md_bind_revision ?md))"
    "label_of (node_meta node') (label_bind_storage args) = Some (unwrap_or [] (md_bind_storage ?md))"
    "label_of (node_meta node') (label_bind_user args) = Some (unwrap_or [] (md_bind_user ?md))"
    "label_of (node_meta node') (label_compute_mode args) =
       Some (compute_mode_str (unwrap_or compute_mode_default (md_compute_mode ?md)))"
    "label_of (node_meta node') (label_signed_out args) = Some (bool_str (unwrap_or True (md_signed_out ?md)))"
    by (rule written, simp add: label_entries_def Let_def)+
  have stamp: "label_of (node_meta node') (label_bind_timestamp args) =
      Some (unwrap_or [] (map_option (\<lambda>t. int_str (as_millisecond L t)) (md_bind_timestamp ?md)))"
    by (rule written) (simp add: label_entries_def Let_def)
  have "meta_name (node_meta node') = meta_name (node_meta node)"
    using m by (simp add: merges_def)
  then show ?thesis
    unfolding load_metadata_def stored_metadata_def text_label_def privileged gpu labels stamp full_unwrap
    by (simp add: stored_stamp [OF range] compute_mode_parse_str bool_parse_str)
qed

end
