(* ===== verification/Vine_Operator.thy ===== *)
theory Vine_Operator
  imports Vine_Session
begin

text \<open>
  The session operator (\<^verbatim>\<open>crates/openark-vine-session-operator/src/main.rs\<close>): it
  binds each node to the first of the matching bindings, keeps an application with the session
  chart for it, and signs the node out when its binding or profile changes.
\<close>

section \<open>Arguments and reasons\<close>

record Args =
  args_api :: VineSessionArgs
  destination_name :: string
  drain_unreachable_nodes :: bool
  label_selector :: string
  args_operator :: OperatorArgs
  project_name :: string
  session_namespace :: string
  volume_name_public :: "string option"
  volume_name_static :: "string option"

datatype Reason = SessionError | SessionUpdated

fun reason_str :: "Reason \<Rightarrow> string" where
  "reason_str SessionError = ''SessionError''"
| "reason_str SessionUpdated = ''SessionUpdated''"

definition accepted :: "Reason \<Rightarrow> bool" where
  "accepted r \<longleftrightarrow> r = SessionUpdated"

section \<open>Applications\<close>

record ApplicationSource =
  release_name :: string
  chart_values :: string
  chart_path :: string
  repo_url :: string
  target_revision :: string

record ApplicationSpec =
  dest_name :: string
  dest_namespace :: string
  ignored_group :: string
  ignored_kind :: string
  ignored_pointers :: "string list"
  app_project :: string
  app_source :: ApplicationSource
  sync_enabled :: bool
  sync_prune :: bool
  sync_self_heal :: bool
  namespace_labels :: labels
  sync_options :: "string list"

record Application =
  app_meta :: ObjectMeta
  app_spec :: ApplicationSpec
  app_sync_status :: "string option"

datatype AppState = AppCreated | AppDeleted | AppDeleting | NodeNotReady

section \<open>Values of the session chart\<close>

definition is_selected :: "labels option \<Rightarrow> labels option \<Rightarrow> bool" where
  "is_selected node selector =
     (case selector of
        None \<Rightarrow> True
      | Some sel \<Rightarrow>
          (case node of
             None \<Rightarrow> sel = []
           | Some ls \<Rightarrow> list_all (\<lambda>(key, v). bt_get ls key = Some v) sel))"

definition usize_parse :: "string \<Rightarrow> int option" where
  "usize_parse s = nat_parse (2 ^ 64) s"

definition host_devices_of :: "('q, 'w) vine_lib \<Rightarrow> string \<times> Quantity \<Rightarrow> OwnedVMHostDeviceSpec list" where
  "host_devices_of L e =
     (case split_on CHR ''-'' (fst e) of
        [api_group, kind, vendor, product] \<Rightarrow>
          if length api_group \<le> 4 then []
          else if drop (length api_group - 4) api_group \<notin> {''/pci'', ''/usb''} then []
          else (case usize_parse (snd e) of
                  None \<Rightarrow> []
                | Some count \<Rightarrow> replicate (nat count)
                    \<lparr>device_api_group = api_group, device_kind = to_pascal L kind,
                     device_vendor = vendor, device_product = product\<rparr>)
      | _ \<Rightarrow> [])"

definition collect_node_host_devices :: "('q, 'w) vine_lib \<Rightarrow> Node \<Rightarrow> OwnedVMHostDeviceSpec list" where
  "collect_node_host_devices L node =
     (case Option.bind (node_status node) capacity of
        None \<Rightarrow> []
      | Some cap \<Rightarrow> concat (map (host_devices_of L) cap))"

definition attach_shared_volume :: "VolumeSharingSpec \<Rightarrow> string option \<Rightarrow> VolumeSharingSpec" where
  "attach_shared_volume volume default_name =
     (case default_name of
        Some name \<Rightarrow>
          if unwrap_or False (share_enabled volume)
             \<and> is_none_or (\<lambda>claim. claim_name claim = []) (persistent_volume_claim volume)
          then volume\<lparr>persistent_volume_claim := Some
                 ((unwrap_or \<lparr>claim_name = [], claim_read_only = None\<rparr> (persistent_volume_claim volume))
                   \<lparr>claim_name := name\<rparr>)\<rparr>
          else volume
      | None \<Rightarrow> volume)"

text \<open>\<^verbatim>\<open>entry(key).or_insert(value)\<close> for all pairs.\<close>

definition or_insert_all :: "('k::linorder \<times> 'v) list \<Rightarrow> ('k \<times> 'v) list \<Rightarrow> ('k \<times> 'v) list" where
  "or_insert_all m es = fold (\<lambda>(k, v) m. bt_or_insert k v m) es m"

definition provisioned_session ::
  "VineSessionArgs \<Rightarrow> NodeSession \<Rightarrow> SessionSpec \<Rightarrow> SessionSpec option" where
  "provisioned_session args s spec =
     (case to_resources_compute args s of
        Inl _ \<Rightarrow> None
      | Inr rs \<Rightarrow>
          (let req = unwrap_or \<lparr>res_limits = None, res_requests = None\<rparr> (session_resources spec)
           in Some (spec\<lparr>session_resources :=
                Some (req\<lparr>res_limits := Some (or_insert_all (unwrap_or [] (res_limits req)) rs)\<rparr>)\<rparr>)))"

definition provisioned_devices ::
  "('q, 'w) vine_lib \<Rightarrow> Node \<Rightarrow> FeaturesSpec \<Rightarrow> VMSpec \<Rightarrow> OwnedVMHostDeviceSpec list option option" where
  "provisioned_devices L node features vm =
     (if unwrap_or False (feat_host_display features) \<and> unwrap_or False (vm_enabled vm) then
        (let devices = collect_node_host_devices L node
         in if list_ex (\<lambda>d. ends_with ''/pci'' (device_api_group d) \<and> device_kind d = ''UsbController'') devices
            then Some (Some devices) else None)
      else Some None)"

definition provisioned_volumes :: "Args \<Rightarrow> NodeSession \<Rightarrow> VolumesSpec \<Rightarrow> VolumesSpec option" where
  "provisioned_volumes args s volumes =
     (case to_resources_local_storage s of
        Inl _ \<Rightarrow> None
      | Inr rs \<Rightarrow>
          (let local = unwrap_or \<lparr>claim_capacity = None\<rparr> (vol_local volumes)
           in Some (volumes\<lparr>
                vol_local := Some (local\<lparr>claim_capacity :=
                  Some (or_insert_all (unwrap_or [] (claim_capacity local)) rs)\<rparr>),
                vol_public := Some (attach_shared_volume (unwrap_or sharing_default (vol_public volumes))
                  (volume_name_public args)),
                vol_static := Some (attach_shared_volume (unwrap_or sharing_default (vol_static volumes))
                  (volume_name_static args))\<rparr>)))"

definition build_owned_session_profile ::
  "('q, 'w) vine_lib \<Rightarrow> Args \<Rightarrow> Node \<Rightarrow> NodeSession \<Rightarrow> SessionBindingSpec \<Rightarrow> SessionProfileSpec \<Rightarrow>
     AppState + OwnedSessionProfileSpec" where
  "build_owned_session_profile L args node s binding profile =
     (let api = args_api args;
          features = unwrap_or features_default (prof_features profile);
          vm = unwrap_or vm_default (prof_vm profile)
      in case provisioned_session api s (unwrap_or session_default (prof_session profile)) of
           None \<Rightarrow> Inl NodeNotReady
         | Some session_spec \<Rightarrow>
             (case provisioned_devices L node features vm of
                None \<Rightarrow> Inl NodeNotReady
              | Some host_devices \<Rightarrow>
                  (case provisioned_volumes args s (unwrap_or volumes_default (prof_volumes profile)) of
                     None \<Rightarrow> Inl NodeNotReady
                   | Some volumes \<Rightarrow> Inr \<lparr>
                       owned_auth = to_openark_auth_spec api,
                       owned_drivers = unwrap_or [] (prof_drivers profile),
                       owned_external_services = unwrap_or [] (prof_external_services profile),
                       owned_extra_services = unwrap_or [] (prof_extra_services profile),
                       owned_feature_set = \<lparr>owned_features = features, owned_gateway = feature_gateway api,
                         owned_ingress_enabled = feature_ingress api, owned_vm_enabled = feature_vm api\<rparr>,
                       owned_greeter = unwrap_or \<lparr>greeter_image = None\<rparr> (prof_greeter profile),
                       owned_ingress = to_openark_ingress_spec api,
                       owned_mode = unwrap_or mode_default (prof_mode profile),
                       owned_node = to_node_spec api node,
                       owned_openark = \<lparr>openark_labels = to_openark_labels api\<rparr>,
                       owned_persistence = unwrap_or persistence_default (prof_persistence profile),
                       owned_region = \<lparr>timezone =
                         (case Option.bind (prof_region profile) timezone of
                            Some z \<Rightarrow> Some z | None \<Rightarrow> args_timezone api)\<rparr>,
                       owned_services = unwrap_or services_default (prof_services profile),
                       owned_session = session_spec,
                       owned_user_spec = \<lparr>owned_binding = binding_user binding,
                         owned_user = unwrap_or \<lparr>user_shell = None\<rparr> (prof_user profile)\<rparr>,
                       owned_vm = \<lparr>owned_vm_data = vm, owned_host_devices = host_devices\<rparr>,
                       owned_volumes = volumes\<rparr>)))"

section \<open>Calls\<close>

datatype vine_call =
  ListNodes
| LabelNode string labels
| GetAppMetadata string
| GetApp string
| CreateApp Application
| DeleteApp string
| ListPods string
| ListBindings
| GetProfile string
| PatchNode string NodePatch
| Publish Event

record 'w vine_api =
  ans_unit :: "vine_call list \<Rightarrow> vine_call \<Rightarrow> error + unit"
  ans_exists :: "vine_call list \<Rightarrow> vine_call \<Rightarrow> error + bool"
  ans_nodes :: "vine_call list \<Rightarrow> vine_call \<Rightarrow> error + ObjectMeta list"
  ans_app :: "vine_call list \<Rightarrow> vine_call \<Rightarrow> error + Application option"
  ans_pods :: "vine_call list \<Rightarrow> vine_call \<Rightarrow> error + Pod list"
  ans_bindings :: "vine_call list \<Rightarrow> vine_call \<Rightarrow> error + SessionBindingCrd list"
  ans_profile :: "vine_call list \<Rightarrow> vine_call \<Rightarrow> error + SessionProfileCrd option"
  vine_clock :: "vine_call list \<Rightarrow> timestamp"
  to_values :: "OwnedSessionProfileSpec \<Rightarrow> error + string"

type_synonym 'a vine_eff = "(vine_call, error, 'a) eff"

text \<open>Nodes without the label get it.\<close>

definition init_nodes :: "'w vine_api \<Rightarrow> Args \<Rightarrow> unit vine_eff" where
  "init_nodes A args =
     tryE (call (ans_nodes A) ListNodes) (\<lambda>nodes.
     fold (\<lambda>m k. tryE k (\<lambda>_. call (ans_unit A)
         (LabelNode (name_any m) [(label_bind (args_api args), ''false'')])))
       (filter (\<lambda>m. label_of m (label_bind (args_api args)) = None) nodes) (ret ()))"

section \<open>The application of a node\<close>

definition build_owner_reference :: "string \<Rightarrow> ObjectMeta \<Rightarrow> OwnerReference" where
  "build_owner_reference kind m = \<lparr>owner_kind = kind, owner_name = name_any m,
     owner_uid = unwrap_or [] (meta_uid m), owner_block_deletion = Some True, owner_controller = Some False\<rparr>"

definition build_app_name :: "Node \<Rightarrow> string" where
  "build_app_name node = ''session-'' @ name_any (node_meta node)"

definition build_app ::
  "('q, 'w) vine_lib \<Rightarrow> 'w vine_api \<Rightarrow> Args \<Rightarrow> Node \<Rightarrow> NodeSession \<Rightarrow> SessionBindingCrd \<Rightarrow> SessionProfileCrd \<Rightarrow>
     error + (AppState + Application)" where
  "build_app L A args node s binding profile =
     (case build_owned_session_profile L args node s (binding_spec binding) (profile_spec profile) of
        Inl st \<Rightarrow> Inr (Inl st)
      | Inr owned \<Rightarrow>
          (case to_values A owned of
             Inl e \<Rightarrow> Inl e
           | Inr vals \<Rightarrow> Inr (Inr \<lparr>
               app_meta = meta_default\<lparr>
                 meta_annotations := Some (unwrap_or [] (meta_annotations (profile_meta profile))),
                 meta_labels := Some (append_labels L (args_api args) s
                   (unwrap_or [] (meta_labels (profile_meta profile)))),
                 meta_name := Some (build_app_name node),
                 meta_namespace := args_namespace (args_operator args),
                 meta_finalizers := Some [''resources-finalizer.argocd.argoproj.io''],
                 meta_owners := Some [build_owner_reference ''Node'' (node_meta node),
                   build_owner_reference ''SessionProfile'' (profile_meta profile),
                   build_owner_reference ''SessionBinding'' (binding_meta binding)]\<rparr>,
               app_spec = \<lparr>
                 dest_name = destination_name args, dest_namespace = session_namespace args,
                 ignored_group = ''kubevirt.io'', ignored_kind = ''VirtualMachine'',
                 ignored_pointers = [''/spec/template/spec/domain/resources/limits/memory''],
                 app_project = project_name args,
                 app_source = \<lparr>release_name = ''session'', chart_values = vals,
                   chart_path = source_path (args_api args), repo_url = source_repo_url (args_api args),
                   target_revision = source_repo_revision (args_api args)\<rparr>,
                 sync_enabled = True, sync_prune = True, sync_self_heal = True,
                 namespace_labels = [(''pod-security.kubernetes.io/enforce'', ''privileged'')],
                 sync_options = [''CreateNamespace=true'', ''RespectIgnoreDifferences=true'',
                   ''ServerSideApply=true'']\<rparr>,
               app_sync_status = None\<rparr>)))"

definition create_app ::
  "('q, 'w) vine_lib \<Rightarrow> 'w vine_api \<Rightarrow> Args \<Rightarrow> Node \<Rightarrow> NodeSession \<Rightarrow> SessionBindingCrd \<Rightarrow> SessionProfileCrd \<Rightarrow>
     AppState vine_eff" where
  "create_app L A args node s binding profile =
     tryE (lift_result (build_app L A args node s binding profile)) (\<lambda>built.
     case built of
       Inl st \<Rightarrow> ret st
     | Inr app \<Rightarrow>
         tryE (call (ans_exists A) (GetAppMetadata (name_any (app_meta app)))) (\<lambda>found.
         if found then ret AppCreated
         else tryE (call (ans_unit A) (CreateApp app)) (\<lambda>_. ret AppCreated)))"

definition delete_app :: "'w vine_api \<Rightarrow> Node \<Rightarrow> AppState vine_eff" where
  "delete_app A node =
     tryE (call (ans_exists A) (GetAppMetadata (build_app_name node))) (\<lambda>found.
     if found then tryE (call (ans_unit A) (DeleteApp (build_app_name node))) (\<lambda>_. ret AppDeleting)
     else ret AppDeleted)"

definition sync_app :: "'w vine_api \<Rightarrow> Node \<Rightarrow> bool vine_eff" where
  "sync_app A node =
     tryE (call (ans_app A) (GetApp (build_app_name node))) (\<lambda>found.
     ret (case found of
            None \<Rightarrow> True
          | Some app \<Rightarrow>
              meta_creation (app_meta app) \<noteq> None \<and> meta_deletion (app_meta app) = None
              \<and> app_sync_status app = Some ''Synced''))"

section \<open>Reconciling a node\<close>

definition eligible :: "Node \<Rightarrow> SessionBindingCrd \<Rightarrow> bool" where
  "eligible node b \<longleftrightarrow> meta_deletion (binding_meta b) = None
     \<and> unwrap_or True (binding_enabled (binding_spec b))
     \<and> is_selected (meta_labels (node_meta node)) (node_selector (binding_spec b))"

type_synonym binding_key = "i32 \<times> timestamp option \<times> string option"

definition binding_key_of :: "SessionBindingCrd \<Rightarrow> binding_key" where
  "binding_key_of b = (binding_priority (binding_spec b), meta_creation (binding_meta b), meta_uid (binding_meta b))"

text \<open>\<^verbatim>\<open>Iterator::min_by_key\<close>: the first of the least.\<close>

definition min_by_key :: "('x \<Rightarrow> 'k::linorder) \<Rightarrow> 'x list \<Rightarrow> 'x option" where
  "min_by_key f xs = (case xs of [] \<Rightarrow> None | x # xs \<Rightarrow> Some (fold (\<lambda>y m. if f y < f m then y else m) xs x))"

definition choose_binding :: "Node \<Rightarrow> SessionBindingCrd list \<Rightarrow> SessionBindingCrd option" where
  "choose_binding node bs = min_by_key binding_key_of (filter (eligible node) bs)"

definition find_profile ::
  "'w vine_api \<Rightarrow> Node \<Rightarrow> (SessionBindingCrd \<times> SessionProfileCrd) option vine_eff" where
  "find_profile A node =
     tryE (call (ans_bindings A) ListBindings) (\<lambda>bs.
     case choose_binding node bs of
       None \<Rightarrow> ret None
     | Some b \<Rightarrow>
         tryE (call (ans_profile A) (GetProfile (binding_profile (binding_spec b)))) (\<lambda>p.
         ret (map_option (\<lambda>p. (b, p)) p)))"

definition update_app ::
  "('q, 'w) vine_lib \<Rightarrow> 'w vine_api \<Rightarrow> Args \<Rightarrow> Node \<Rightarrow> NodeSession \<Rightarrow> bool \<Rightarrow> ProfileState \<Rightarrow> AppState vine_eff" where
  "update_app L A args node s grant st =
     (case st of
        Changed _ \<Rightarrow> delete_app A node
      | Created binding profile \<Rightarrow>
          if grant then create_app L A args node s binding profile else delete_app A node
      | Deleted (Some _) \<Rightarrow> delete_app A node
      | Deleted None \<Rightarrow> ret AppDeleted
      | Unchanged binding profile \<Rightarrow>
          if grant then create_app L A args node s binding profile else delete_app A node)"

definition update_message :: "bool \<Rightarrow> bool \<Rightarrow> NodeSession \<Rightarrow> string" where
  "update_message deleting must_sign_out s =
     (if deleting then ''Signing out''
      else if must_sign_out then ''Signed out''
      else case get_user s of Some user \<Rightarrow> ''Signed in with '' @ user | None \<Rightarrow> ''Signed in'')"

definition session_event :: "string \<Rightarrow> Event" where
  "session_event message = \<lparr>event_type = Normal, event_reason = reason_str SessionUpdated,
     event_note = Some message, event_action = ''Scheduling''\<rparr>"

text \<open>Writing the next session when it differs, and waiting.\<close>

definition store_session ::
  "('q, 'w) vine_lib \<Rightarrow> 'w vine_api \<Rightarrow> Args \<Rightarrow> string \<Rightarrow> NodeSession \<Rightarrow> NodeSession \<Rightarrow> bool \<Rightarrow> bool \<Rightarrow>
     duration option \<Rightarrow> Action vine_eff" where
  "store_session L A args name current nxt deleting must_sign_out remaining =
     tryE (if current \<noteq> nxt then
             tryE (call (ans_unit A) (PatchNode name (to_patch L (args_api args) nxt))) (\<lambda>_.
             call (ans_unit A) (Publish (session_event (update_message deleting must_sign_out nxt))))
           else ret ()) (\<lambda>_.
     ret (Requeue (case remaining of
            Some r \<Rightarrow> abs r
          | None \<Rightarrow> abs (duration_sign_out (args_api args)))))"

definition next_round ::
  "('q, 'w) vine_lib \<Rightarrow> 'w vine_api \<Rightarrow> Args \<Rightarrow> Node \<Rightarrow> timestamp \<Rightarrow> NodeSession \<Rightarrow> NodeSession \<Rightarrow> ProfileState \<Rightarrow>
     Action vine_eff" where
  "next_round L A args node now current bound st =
     (if \<not> drain_unreachable_nodes args \<and> sess_unreachable bound then ret AwaitChange
      else
        let must_sign_out = (has_changed st \<or> sess_unreachable bound);
            (nxt, remaining) = set_sign_out (args_api args) now must_sign_out bound;
            grant = (\<not> must_sign_out \<and> \<not> not_ready nxt)
        in tryE (update_app L A args node nxt grant st) (\<lambda>app_state.
           if app_state = AppDeleting
           then store_session L A args (name_any (node_meta node)) current
             (remove_session_revision current) True must_sign_out None
           else store_session L A args (name_any (node_meta node)) current nxt False must_sign_out remaining))"

definition reconcile ::
  "('q, 'w::floor_ceiling) vine_lib \<Rightarrow> 'w vine_api \<Rightarrow> Args \<Rightarrow> Node \<Rightarrow> Action vine_eff" where
  "reconcile L A args node =
     (let api = args_api args; current = load_session L api node in
      tryE (observe (vine_clock A)) (\<lambda>now.
      case signing_out api current now of
        Some remaining \<Rightarrow> ret (Requeue (abs remaining))
      | None \<Rightarrow>
          tryE (sync_app A node) (\<lambda>synced.
          if \<not> synced then ret (Requeue (abs (duration_sign_out api)))
          else
            tryE (call (ans_pods A) (ListPods (''spec.nodeName='' @ name_any (node_meta node)))) (\<lambda>pods.
            tryE (find_profile A node) (\<lambda>choice.
            let (bound, st) = apply_profile api choice now (apply_node L api pods current)
            in next_round L A args node now current bound st)))))"

definition error_policy :: "Node \<Rightarrow> error \<Rightarrow> Action" where
  "error_policy node e = Requeue (seconds 30)"

definition install_all_crds ::
  "('d crd_call list \<Rightarrow> 'd crd_call \<Rightarrow> error + ObjectMeta option) \<Rightarrow>
   ('d crd_call list \<Rightarrow> 'd crd_call \<Rightarrow> error + unit) \<Rightarrow>
   OperatorArgs \<Rightarrow> (string \<times> 'd) \<Rightarrow> (string \<times> 'd) \<Rightarrow> (string \<times> 'd) \<Rightarrow> ('d crd_call, error, unit) eff" where
  "install_all_crds ans_meta ans args binding command profile =
     tryE (install_crd ans_meta ans args (fst binding) (snd binding)) (\<lambda>_.
     tryE (install_crd ans_meta ans args (fst command) (snd command)) (\<lambda>_.
     tryE (install_crd ans_meta ans args (fst profile) (snd profile)) ret))"

end
