(* ===== verification/Vine_System.thy ===== *)
theory Vine_System
  imports Vine_Operator
begin

text \<open>
  What the session operator does over several rounds: when it creates and deletes the application
  of a node, how long it waits for a sign-out, and when its rounds settle.  A round reads the node
  as the API server returned it after the patch of an earlier round (\<open>merges\<close>).
\<close>

section \<open>Following the calls of a round\<close>

lemma tryE_assoc: "tryE (tryE m k) h = tryE m (\<lambda>a. tryE (k a) h)"
  by (simp add: tryE_def fun_eq_iff split: prod.splits sum.splits)

lemma tryE_ret: "tryE (ret a) k = k a"
  by (simp add: tryE_def ret_def)

lemma tryE_case_option:
  "tryE (case x of None \<Rightarrow> m | Some a \<Rightarrow> n a) k = (case x of None \<Rightarrow> tryE m k | Some a \<Rightarrow> tryE (n a) k)"
  by (simp split: option.split)

lemma emits_try_call:
  assumes "P c" and "\<And>l a. orc l c = Inr a \<Longrightarrow> emits P (k a)"
  shows "emits P (tryE (call orc c) k)"
  unfolding emits_def
proof
  fix l
  show "\<exists>cs. snd (tryE (call orc c) k l) = l @ cs \<and> list_all P cs"
  proof (cases "orc l c")
    case (Inl e)
    with assms(1) show ?thesis
      by (simp add: tryE_def call_def)
  next
    case (Inr a)
    obtain cs where "snd (k a (l @ [c])) = (l @ [c]) @ cs" "list_all P cs"
      using assms(2) [OF Inr] unfolding emits_def by blast
    with Inr assms(1) show ?thesis
      by (intro exI [of _ "c # cs"]) (simp add: tryE_def call_def)
  qed
qed

lemma emits_try_observe:
  assumes "\<And>l. emits P (k (f l))"
  shows "emits P (tryE (observe f) k)"
  using assms by (simp add: emits_def tryE_def observe_def)

lemma emits_try_result:
  assumes "\<And>a. r = Inr a \<Longrightarrow> emits P (k a)"
  shows "emits P (tryE (lift_result r) k)"
  using assms by (cases r) (simp_all add: emits_def tryE_def lift_result_def)

lemma calls_of_observe: "calls_of (tryE (observe f) k) = calls_of (k (f []))"
  by (simp add: calls_of_def tryE_def observe_def)

section \<open>Example\<close>

text \<open>A node with eight cores, one binding for it, and an API server that answers accordingly.\<close>

definition example_lib :: "(int, rat) vine_lib" where
  "example_lib = \<lparr>from_millisecond = (\<lambda>ms. Some (ms * 1000000)), as_millisecond = (\<lambda>t. t div 1000000),
     quantity_parse = nat_parse (2 ^ 63), quantity_add = (+), quantity_sub = (-), quantity_default = 0,
     to_bytes_f64 = (\<lambda>q. Some (of_int q)), to_bytes_i128 = Some, to_pascal = (\<lambda>s. s)\<rparr>"

definition example_api_args :: VineSessionArgs where
  "example_api_args = \<lparr>auth_domain_name = ''auth'', duration_sign_out_seconds = 10, feature_gateway = False,
     feature_ingress = False, feature_vm = False, force_gpu = Some Intel, ingress_domain_name = ''ingress'',
     label_alias = ''alias'', label_bind = ''bind'', label_bind_cpu = ''bind.cpu'',
     label_bind_memory = ''bind.memory'', label_bind_mode = ''bind.mode'',
     label_bind_namespace = ''bind.namespace'', label_bind_node = ''bind.node'',
     label_bind_persistent = ''bind.persistent'', label_bind_privileged = ''bind.privileged'',
     label_bind_profile = ''bind.profile'', label_bind_revision = ''bind.revision'',
     label_bind_storage = ''bind.storage'', label_bind_timestamp = ''bind.timestamp'',
     label_bind_user = ''bind.user'', label_compute_mode = ''compute'', label_gpu = ''gpu'',
     label_is_private = ''private'', label_signed_out = ''signed-out'', source_path = ''session'',
     source_repo_revision = ''main'', source_repo_url = ''repo'', args_timezone = None\<rparr>"

definition example_args :: Args where
  "example_args = \<lparr>args_api = example_api_args, destination_name = ''in-cluster'',
     drain_unreachable_nodes = True, label_selector = [],
     args_operator = \<lparr>controller_name = ''vine'', controller_pod_name = None, install_crds = False,
       args_namespace = Some ''vine'', upgrade_crds = False\<rparr>,
     project_name = ''ark'', session_namespace = ''vine'', volume_name_public = None, volume_name_static = None\<rparr>"

definition example_node :: "labels \<Rightarrow> Node" where
  "example_node ls = \<lparr>node_meta = meta_default\<lparr>meta_name := Some ''n1'', meta_labels := Some ls\<rparr>,
     node_spec = None,
     node_status = Some \<lparr>capacity = None, allocatable = Some [(''cpu'', ''8''), (''memory'', ''9000000000'')]\<rparr>\<rparr>"

definition example_profile :: SessionProfileCrd where
  "example_profile = \<lparr>profile_meta = meta_default\<lparr>meta_name := Some ''desktop'', meta_resource_version := Some ''7''\<rparr>,
     profile_spec = profile_default\<rparr>"

definition example_binding :: "bool option \<Rightarrow> SessionBindingCrd" where
  "example_binding privileged = \<lparr>binding_meta = meta_default\<lparr>meta_name := Some ''b''\<rparr>,
     binding_spec = \<lparr>binding_enabled = None, node_selector = None, binding_priority = 0,
       binding_profile = ''desktop'', binding_user = \<lparr>user_kind = User, user_name = Some ''kim'',
         user_privileged = privileged\<rparr>\<rparr>\<rparr>"

definition example_app :: Application where
  "example_app = \<lparr>app_meta = meta_default\<lparr>meta_creation := Some 1\<rparr>,
     app_spec = \<lparr>dest_name = [], dest_namespace = [], ignored_group = [], ignored_kind = [], ignored_pointers = [],
       app_project = [], app_source = \<lparr>release_name = [], chart_values = [], chart_path = [], repo_url = [],
         target_revision = []\<rparr>, sync_enabled = True, sync_prune = True, sync_self_heal = True,
       namespace_labels = [], sync_options = []\<rparr>, app_sync_status = Some ''Synced''\<rparr>"

definition example_vine :: "bool \<Rightarrow> SessionBindingCrd list \<Rightarrow> timestamp \<Rightarrow> rat vine_api" where
  "example_vine found bs now = \<lparr>ans_unit = (\<lambda>_ _. Inr ()), ans_exists = (\<lambda>_ _. Inr found),
     ans_nodes = (\<lambda>_ _. Inr []), ans_app = (\<lambda>_ _. Inr (if found then Some example_app else None)),
     ans_pods = (\<lambda>_ _. Inr []), ans_bindings = (\<lambda>_ _. Inr bs), ans_profile = (\<lambda>_ _. Inr (Some example_profile)),
     vine_clock = (\<lambda>_. now), to_values = (\<lambda>_. Inr [])\<rparr>"

definition patched_node :: "Node \<Rightarrow> NodePatch \<Rightarrow> Node" where
  "patched_node node p = node\<lparr>
     node_meta := (node_meta node)\<lparr>meta_labels :=
       Some (bt_append (unwrap_or [] (meta_labels (node_meta node))) (patch_labels p))\<rparr>,
     node_spec := Some \<lparr>spec_taints = Some (map stored_taint (patch_taints p)), spec_unschedulable = Some (patch_unschedulable p)\<rparr>\<rparr>"

lemma patched_merges:
  assumes "is_none_or bt_sorted (meta_labels (node_meta node))"
  shows "merges node (to_patch L args s) (patched_node node (to_patch L args s))"
proof -
  have "distinct (map fst (build_labels L args md))" for md
    using bt_sorted_collect [of "label_entries L args md"]
    by (simp add: build_labels_def bt_sorted_def strict_sorted_iff)
  then show ?thesis
    using assms
    by (cases "meta_labels (node_meta node)")
       (simp_all add: merges_def patched_node_def to_patch_def label_of_def bt_get_append bt_sorted_Nil
          map_of_rev_distinct bt_get_def [of "build_labels _ _ _"] split: option.splits,
        simp add: bt_get_def)
qed


definition stored_node :: Node where
  "stored_node = example_node [(''bind.storage'', ''10Gi'')]"

definition example_session :: NodeSession where
  "example_session = load_session example_lib example_api_args stored_node"

lemma example_keys: "distinct_keys example_api_args"
  by code_simp

lemma example_sorted: "is_none_or bt_sorted (meta_labels (node_meta stored_node))"
  by (simp add: stored_node_def example_node_def bt_sorted_def)

lemma example_merges:
  "merges stored_node (to_patch L args s) (patched_node stored_node (to_patch L args s))"
  by (rule patched_merges [OF example_sorted])

lemma calls_ex:
  "list_ex (\<lambda>c. case c of CreateApp _ \<Rightarrow> True | _ \<Rightarrow> False) l \<Longrightarrow> \<exists>app. CreateApp app \<in> set l"
  "list_ex (\<lambda>c. case c of DeleteApp _ \<Rightarrow> True | _ \<Rightarrow> False) l \<Longrightarrow> \<exists>m. DeleteApp m \<in> set l"
  "list_ex (\<lambda>c. case c of PatchNode m _ \<Rightarrow> m = n | _ \<Rightarrow> False) l \<Longrightarrow> \<exists>q. PatchNode n q \<in> set l"
  by (induction l) (auto split: vine_call.splits)

lemma example_api [simp]: "args_api example_args = example_api_args"
  by (simp add: example_args_def)

section \<open>Signing out\<close>

lemma set_taint_in_find:
  "List.find (\<lambda>t. filter_taint t key) (fst (set_taint_in key v now ts)) =
     Some (case List.find (\<lambda>t. filter_taint t key) ts of
             None \<Rightarrow> \<lparr>taint_key = key, taint_value = Some v, taint_effect = ''NoExecute'', time_added = Some now\<rparr>
           | Some t \<Rightarrow> t\<lparr>taint_value := Some v\<rparr>)"
  by (induction key v now ts rule: set_taint_in.induct)
     (auto simp: filter_taint_def split: option.splits prod.splits)

lemma set_taint_in_added:
  "snd (set_taint_in key v now ts) =
     (case List.find (\<lambda>t. filter_taint t key) ts of None \<Rightarrow> now | Some t \<Rightarrow> unwrap_or now (time_added t))"
  by (induction key v now ts rule: set_taint_in.induct) (auto split: option.splits prod.splits)

lemma sign_out_taint:
  "sess_taints (fst (set_sign_out args now True s)) = fst (set_taint_in (label_signed_out args) ''true'' now (sess_taints s))"
  by (simp add: set_sign_out_def set_taint_def split: prod.splits)

lemma sign_out_remaining:
  "snd (set_sign_out args now True s) =
     remaining_until (snd (set_taint_in (label_signed_out args) ''true'' now (sess_taints s)) + duration_sign_out args) now"
  by (simp add: set_sign_out_def set_taint_def split: prod.splits)

definition timed :: "VineSessionArgs \<Rightarrow> NodeSession \<Rightarrow> bool" where
  "timed args s \<longleftrightarrow> is_none_or (\<lambda>t. time_added t \<noteq> None)
     (List.find (\<lambda>t. filter_taint t (label_signed_out args)) (sess_taints s))"

text \<open>The time the sign-out of a session began.\<close>

definition signed_out_since :: "VineSessionArgs \<Rightarrow> NodeSession \<Rightarrow> timestamp \<Rightarrow> timestamp" where
  "signed_out_since args s now =
     (case List.find (\<lambda>t. filter_taint t (label_signed_out args)) (sess_taints s) of
        None \<Rightarrow> now | Some t \<Rightarrow> unwrap_or now (time_added t))"

lemma signing_out_after:
  assumes "timed args s"
  shows "signing_out args (fst (set_sign_out args now True s)) t =
    remaining_until (signed_out_since args s now + duration_sign_out args) t"
  using assms
  by (auto simp: signing_out_def sign_out_taint set_taint_in_find timed_def signed_out_since_def split: option.splits)

lemma timed_after: "timed args s \<Longrightarrow> timed args (fst (set_sign_out args now True s))"
  by (auto simp: timed_def sign_out_taint set_taint_in_find split: option.splits)

lemma signed_out_since_after:
  "timed args s \<Longrightarrow> signed_out_since args (fst (set_sign_out args now True s)) later = signed_out_since args s now"
  by (auto simp: timed_def signed_out_since_def sign_out_taint set_taint_in_find split: option.splits)

text \<open>The deadline of a sign-out is fixed when it begins: signing out again and again neither moves
  it nor shortens it, and the waiting time reported is the time left until then.\<close>

theorem sign_out_deadline:
  assumes "timed args s"
  shows "signing_out args (fst (set_sign_out args later True (fst (set_sign_out args now True s)))) t =
      remaining_until (signed_out_since args s now + duration_sign_out args) t
    \<and> snd (set_sign_out args now True s) = signing_out args (fst (set_sign_out args now True s)) now"
proof
  show "signing_out args (fst (set_sign_out args later True (fst (set_sign_out args now True s)))) t =
      remaining_until (signed_out_since args s now + duration_sign_out args) t"
    by (simp only: signing_out_after [OF timed_after [OF assms]] signed_out_since_after [OF assms])
  show "snd (set_sign_out args now True s) = signing_out args (fst (set_sign_out args now True s)) now"
    by (simp add: signing_out_after [OF assms] sign_out_remaining set_taint_in_added signed_out_since_def)
qed

theorem sign_out_deadline_witness:
  "signing_out example_api_args (fst (set_sign_out example_api_args 7000000000 True
     (fst (set_sign_out example_api_args 5000000000 True example_session)))) 9000000000 = Some 6000000000"
proof -
  have "timed example_api_args example_session"
    by code_simp
  moreover have "remaining_until (signed_out_since example_api_args example_session 5000000000
      + duration_sign_out example_api_args) 9000000000 = Some 6000000000"
    by code_simp
  ultimately show ?thesis
    using sign_out_deadline [of example_api_args example_session 7000000000 5000000000 9000000000] by simp
qed

lemma load_session_taints:
  "merges node (to_patch L args s) node' \<Longrightarrow> sess_taints (load_session L args node') = map stored_taint (sess_taints s)"
  by (auto simp: merges_def load_session_def to_patch_def Let_def)

text \<open>What is read back counts from the second in which the sign-out began.\<close>

lemma signing_out_read_back:
  assumes "merges node (to_patch L args (fst (set_sign_out args now True s))) node'" and "timed args s"
  shows "signing_out args (load_session L args node') t =
    remaining_until (whole_second (signed_out_since args s now) + duration_sign_out args) t"
  using assms(2)
  by (auto simp: signing_out_def load_session_taints [OF assms(1)] find_stored_taint sign_out_taint set_taint_in_find
      timed_def signed_out_since_def split: option.splits)

lemma reconcile_idle:
  assumes "signing_out (args_api args) (load_session L (args_api args) node) (vine_clock A []) = Some r"
  shows "reconcile L A args node [] = (Inr (Requeue (abs r)), [])"
  using assms by (simp add: reconcile_def Let_def tryE_def observe_def ret_def)

text \<open>C12.
  Once a sign-out is written to the node, every round before its deadline makes no call at all
  and asks to be called again exactly at the deadline.  The deadline is the duration of a sign-out
  after the second in which the sign-out began, because the API server keeps the time of a taint to
  the second; a sign-out that the node already had has to carry its time.\<close>

theorem sign_out_waits:
  assumes "timed (args_api args) s"
    and "merges node (to_patch L (args_api args) (fst (set_sign_out (args_api args) begun True s))) node'"
    and "vine_clock A [] < whole_second (signed_out_since (args_api args) s begun) + duration_sign_out (args_api args)"
  shows "calls_of (reconcile L A args node') = []
    \<and> result_of (reconcile L A args node') =
        Inr (Requeue (whole_second (signed_out_since (args_api args) s begun) + duration_sign_out (args_api args)
          - vine_clock A []))"
proof -
  have "signing_out (args_api args) (load_session L (args_api args) node') (vine_clock A []) =
      Some (whole_second (signed_out_since (args_api args) s begun) + duration_sign_out (args_api args) - vine_clock A [])"
    using signing_out_read_back [OF assms(2,1)] assms(3) by (simp add: remaining_until_def)
  from reconcile_idle [OF this] assms(3) show ?thesis
    by (simp add: calls_of_def result_of_def)
qed

theorem sign_out_waits_witness:
  "calls_of (reconcile example_lib (example_vine False [] 9000000000) example_args
     (patched_node stored_node (to_patch example_lib example_api_args
       (fst (set_sign_out example_api_args 5200000000 True example_session))))) = []"
proof (rule conjunct1 [OF sign_out_waits [where begun = 5200000000 and s = example_session]])
  show "timed (args_api example_args) example_session"
    and "vine_clock (example_vine False [] 9000000000) [] <
      whole_second (signed_out_since (args_api example_args) example_session 5200000000) + duration_sign_out (args_api example_args)"
    by code_simp+
  show "merges stored_node (to_patch example_lib (args_api example_args)
      (fst (set_sign_out (args_api example_args) 5200000000 True example_session)))
    (patched_node stored_node (to_patch example_lib example_api_args
      (fst (set_sign_out example_api_args 5200000000 True example_session))))"
    unfolding example_api by (rule example_merges)
qed

section \<open>Applying a profile again\<close>

lemma find_set_other:
  "key \<noteq> key' \<Longrightarrow> List.find (\<lambda>t. filter_taint t key) (fst (set_taint_in key' v now ts)) =
     List.find (\<lambda>t. filter_taint t key) ts"
  by (induction key' v now ts rule: set_taint_in.induct) (auto simp: filter_taint_def split: prod.splits)

lemma set_taint_in_same:
  "List.find (\<lambda>t. filter_taint t key) ts = Some t \<Longrightarrow> taint_value t = Some v \<Longrightarrow>
     fst (set_taint_in key v now ts) = ts"
  by (induction key v now ts rule: set_taint_in.induct) (auto split: if_splits prod.splits)

definition bind_taints :: "VineSessionArgs \<Rightarrow> string \<Rightarrow> timestamp \<Rightarrow> Taint list \<Rightarrow> Taint list" where
  "bind_taints args p now ts =
     fst (set_taint_in (label_bind_profile args) p now (fst (set_taint_in (label_bind args) ''true'' now ts)))"

lemma bind_taints_again:
  assumes "label_bind args \<noteq> label_bind_profile args"
  shows "bind_taints args p later (map stored_taint (bind_taints args p now ts)) = map stored_taint (bind_taints args p now ts)"
proof -
  let ?us = "bind_taints args p now ts"
  let ?ts = "map stored_taint ?us"
  obtain t where t: "List.find (\<lambda>t. filter_taint t (label_bind args)) ?ts = Some t" "taint_value t = Some ''true''"
    using assms
    by (simp add: find_stored_taint bind_taints_def find_set_other set_taint_in_find split: option.splits)
  obtain t' where t': "List.find (\<lambda>t. filter_taint t (label_bind_profile args)) ?ts = Some t'" "taint_value t' = Some p"
    by (simp add: find_stored_taint bind_taints_def set_taint_in_find split: option.splits)
  show ?thesis
    unfolding bind_taints_def [of args p later ?ts] set_taint_in_same [OF t] by (rule set_taint_in_same [OF t'])
qed

lemma set_taint_fst:
  "fst (set_taint key v now s) = s\<lparr>sess_taints := fst (set_taint_in key v now (sess_taints s))\<rparr>"
  by (simp add: set_taint_def split: prod.splits)

lemma apply_profile_bound:
  "apply_profile args (Some (b, p)) now s =
     (s\<lparr>sess_metadata := bound_metadata (sess_metadata s) b p now,
        sess_taints := bind_taints args (binding_profile (binding_spec b)) now (sess_taints s)\<rparr>,
      profile_state (sess_metadata s) (Some (b, p)))"
  by (simp add: apply_profile_def set_taint_fst bind_taints_def Let_def)

section \<open>Rounds that settle\<close>

text \<open>The session a round that grants the application writes.\<close>

definition bind_round ::
  "('q, 'w::floor_ceiling) vine_lib \<Rightarrow> VineSessionArgs \<Rightarrow> Pod list \<Rightarrow> SessionBindingCrd \<Rightarrow> SessionProfileCrd \<Rightarrow>
     timestamp \<Rightarrow> Node \<Rightarrow> NodeSession" where
  "bind_round L args pods b p now node =
     fst (set_sign_out args now False (fst (apply_profile args (Some (b, p)) now
       (apply_node L args pods (load_session L args node)))))"

lemma bind_round_eq:
  "bind_round L args pods b p now node =
     (let s = apply_node L args pods (load_session L args node)
      in s\<lparr>sess_metadata := (bound_metadata (sess_metadata s) b p now)\<lparr>md_signed_out := Some False\<rparr>,
           sess_taints := bind_taints args (binding_profile (binding_spec b)) now (sess_taints s),
           sess_unreachable := False\<rparr>)"
  by (simp add: bind_round_def apply_profile_bound set_sign_out_def Let_def)

lemma sess_node_apply_node [simp]: "sess_node (apply_node L args pods s) = sess_node s"
  by (simp add: apply_node_def Let_def)

lemma sess_taints_apply_node [simp]: "sess_taints (apply_node L args pods s) = sess_taints s"
  by (simp add: apply_node_def Let_def)

lemma sess_unreachable_apply_node [simp]: "sess_unreachable (apply_node L args pods s) = sess_unreachable s"
  by (simp add: apply_node_def Let_def)

lemma sess_node_load [simp]: "sess_node (load_session L args node) = node"
  by (simp add: load_session_def Let_def)

lemma sess_metadata_load [simp]: "sess_metadata (load_session L args node) = load_metadata L args (node_meta node)"
  by (simp add: load_session_def Let_def)

text \<open>What \<open>apply_node\<close> finds out about a node.\<close>

definition node_free :: "('q, 'w::floor_ceiling) vine_lib \<Rightarrow> VineSessionArgs \<Rightarrow> Pod list \<Rightarrow> Node \<Rightarrow> (string \<times> string) option" where
  "node_free L args pods node =
     (let pods = filter (\<lambda>pod. label_of (pod_meta pod) (label_bind_node args) = None) pods
      in map_option (\<lambda>alloc. (word_str (free_cpu L alloc (collect_resource_limits L pods ''cpu'')),
           int_str (free_memory L alloc (collect_resource_limits L pods ''memory''))))
         (Option.bind (node_status node) allocatable))"

lemma apply_node_metadata:
  "sess_metadata (apply_node L args pods s) =
     (case node_free L args pods (sess_node s) of
        None \<Rightarrow> (sess_metadata s)\<lparr>md_bind_node := md_name (sess_metadata s)\<rparr>
      | Some (cpu, memory) \<Rightarrow> (sess_metadata s)\<lparr>md_bind_cpu := Some cpu, md_bind_memory := Some memory,
          md_bind_node := md_name (sess_metadata s)\<rparr>)"
  by (simp add: apply_node_def node_free_def Let_def split: option.splits)

lemma digits_of_ne: "0 \<le> n \<Longrightarrow> digits_of 10 n \<noteq> []"
  using digits_of_hd [of n] by auto

lemma word_str_ne: "word_str w \<noteq> []"
  by (simp add: word_str_def digits_of_ne)

lemma int_str_ne: "int_str n \<noteq> []"
  by (simp add: int_str_def digits_of_ne)

lemma node_free_full:
  assumes "node_free L args pods node = Some (cpu, memory)"
  shows "full (Some cpu) = Some cpu" and "full (Some memory) = Some memory"
  using assms by (auto simp: node_free_def Let_def full_def option_filter_def word_str_ne int_str_ne)

lemma node_free_status: "node_status node' = node_status node \<Longrightarrow> node_free L args pods node' = node_free L args pods node"
  by (simp add: node_free_def)

text \<open>The names the API server gives out are not empty.\<close>

definition named :: "Node \<Rightarrow> SessionBindingCrd \<Rightarrow> SessionProfileCrd \<Rightarrow> bool" where
  "named node b p \<longleftrightarrow> meta_name (node_meta node) \<noteq> Some [] \<and> binding_profile (binding_spec b) \<noteq> []
     \<and> meta_resource_version (profile_meta p) \<noteq> Some [] \<and> user_name (binding_user (binding_spec b)) \<noteq> Some []"

lemma full_ne: "x \<noteq> Some [] \<Longrightarrow> full x = x"
  by (cases x) (simp_all add: full_def option_filter_def)

lemma full_text_label [simp]: "full (text_label m k) = text_label m k"
  by (simp add: text_label_def full_def option_filter_def split: option.splits)

lemma load_metadata_fields:
  "full (md_alias (load_metadata L args m)) = md_alias (load_metadata L args m)"
  "full (md_bind_storage (load_metadata L args m)) = md_bind_storage (load_metadata L args m)"
  "md_gpu (load_metadata L args m) = Option.bind (label_of m (label_gpu args)) gpu_parse"
  "md_name (load_metadata L args m) = meta_name m"
  by (simp_all add: load_metadata_def)

lemma full_None [simp]: "full None = None"
  by (simp add: full_def option_filter_def)

text \<open>The session a granting round writes, read back.\<close>

definition reads_back ::
  "('q, 'w::floor_ceiling) vine_lib \<Rightarrow> VineSessionArgs \<Rightarrow> NodeSession \<Rightarrow> Node \<Rightarrow> Node \<Rightarrow> bool" where
  "reads_back L args s node node' \<longleftrightarrow> distinct_keys args \<and> merges node (to_patch L args s) node'
     \<and> in_i64 L (sess_metadata s)
     \<and> is_none_or (\<lambda>t. from_millisecond L (as_millisecond L t) \<noteq> None) (md_bind_timestamp (sess_metadata s))"

lemma load_bind_round:
  assumes "reads_back L args (bind_round L args pods b p now node) node node'"
  shows "load_metadata L args (node_meta node') =
    stored_metadata L args (node_meta node) (sess_metadata (bind_round L args pods b p now node))"
  using assms by (intro load_merged) (simp_all add: reads_back_def)

lemma bind_round_metadata:
  "sess_metadata (bind_round L args pods b p now node) =
     (bound_metadata (sess_metadata (apply_node L args pods (load_session L args node))) b p now)
       \<lparr>md_signed_out := Some False\<rparr>"
  by (simp add: bind_round_eq Let_def)

lemma bound_metadata_fields:
  "md_alias (bound_metadata md b p now) = md_alias md"
  "md_bind (bound_metadata md b p now) = Some True"
  "md_bind_cpu (bound_metadata md b p now) = md_bind_cpu md"
  "md_bind_memory (bound_metadata md b p now) = md_bind_memory md"
  "md_bind_namespace (bound_metadata md b p now) = None"
  "md_bind_node (bound_metadata md b p now) = md_bind_node md"
  "md_bind_persistent (bound_metadata md b p now) =
     Some (unwrap_or False (Option.bind (prof_persistence (profile_spec p)) persist_enabled))"
  "md_bind_privileged (bound_metadata md b p now) = user_privileged (binding_user (binding_spec b))"
  "md_bind_profile (bound_metadata md b p now) = Some (binding_profile (binding_spec b))"
  "md_bind_revision (bound_metadata md b p now) = meta_resource_version (profile_meta p)"
  "md_bind_storage (bound_metadata md b p now) = md_bind_storage md"
  "md_bind_user (bound_metadata md b p now) =
     (case user_kind (binding_user (binding_spec b)) of Guest \<Rightarrow> None | User \<Rightarrow> user_name (binding_user (binding_spec b)))"
  "md_compute_mode (bound_metadata md b p now) = Some (infer_compute_mode p)"
  "md_gpu (bound_metadata md b p now) = md_gpu md"
  "md_name (bound_metadata md b p now) = md_name md"
  "\<exists>t. md_bind_timestamp (bound_metadata md b p now) = Some t"
  by (simp_all add: bound_metadata_def Let_def)

lemma bound_timestamp_unchanged:
  "profile_state md (Some (b, p)) = Unchanged b p \<Longrightarrow> md_bind_timestamp md = Some t \<Longrightarrow>
     md_bind_timestamp (bound_metadata md b p now) = Some t"
  by (simp add: bound_metadata_def Let_def)

lemma unchanged_iff:
  "profile_state md (Some (b, p)) = Unchanged b p \<longleftrightarrow>
     md_bind_profile md = Some (binding_profile (binding_spec b))
     \<and> md_bind_revision md = meta_resource_version (profile_meta p)"
  by (auto simp: profile_state_def split: option.splits)

lemma apply_node_fields:
  "md_bind_profile (sess_metadata (apply_node L args pods s)) = md_bind_profile (sess_metadata s)"
  "md_bind_revision (sess_metadata (apply_node L args pods s)) = md_bind_revision (sess_metadata s)"
  "md_bind_timestamp (sess_metadata (apply_node L args pods s)) = md_bind_timestamp (sess_metadata s)"
  "md_alias (sess_metadata (apply_node L args pods s)) = md_alias (sess_metadata s)"
  "md_bind_storage (sess_metadata (apply_node L args pods s)) = md_bind_storage (sess_metadata s)"
  "md_gpu (sess_metadata (apply_node L args pods s)) = md_gpu (sess_metadata s)"
  "md_name (sess_metadata (apply_node L args pods s)) = md_name (sess_metadata s)"
  "md_bind_node (sess_metadata (apply_node L args pods s)) = md_name (sess_metadata s)"
  "md_bind_cpu (sess_metadata (apply_node L args pods s)) =
     (case node_free L args pods (sess_node s) of None \<Rightarrow> md_bind_cpu (sess_metadata s) | Some (c, m) \<Rightarrow> Some c)"
  "md_bind_memory (sess_metadata (apply_node L args pods s)) =
     (case node_free L args pods (sess_node s) of None \<Rightarrow> md_bind_memory (sess_metadata s) | Some (c, m) \<Rightarrow> Some m)"
  by (simp_all add: apply_node_metadata split: option.splits prod.splits)

lemma stays_unchanged:
  assumes "reads_back L args (bind_round L args pods b p now node) node node'" and "named node b p"
  shows "profile_state (sess_metadata (apply_node L args pods' (load_session L args node'))) (Some (b, p)) = Unchanged b p"
  using assms(2)
  by (simp add: unchanged_iff apply_node_fields load_bind_round [OF assms(1)] stored_metadata_def
      bind_round_metadata bound_metadata_fields full_ne named_def)

lemma settled_metadata:
  assumes rb: "reads_back L args (bind_round L args pods b p now node) node node'" and named: "named node b p"
  shows "sess_metadata (bind_round L args pods b p later node') =
    (load_metadata L args (node_meta node'))\<lparr>md_bind_privileged := user_privileged (binding_user (binding_spec b))\<rparr>"
    (is "?new = ?old\<lparr>md_bind_privileged := _\<rparr>")
proof -
  let ?md = "sess_metadata (bind_round L args pods b p now node)"
  have merged: "meta_name (node_meta node') = meta_name (node_meta node)" "node_status node' = node_status node"
    using rb by (auto simp: reads_back_def merges_def)
  have free: "node_free L args pods node' = node_free L args pods node"
    by (rule node_free_status) (rule merged)
  have old: "?old = stored_metadata L args (node_meta node) ?md"
    by (rule load_bind_round [OF rb])
  obtain t t' where t: "md_bind_timestamp ?md = Some t" "from_millisecond L (as_millisecond L t) = Some t'"
    using rb bound_metadata_fields(16) [of "sess_metadata (apply_node L args pods (load_session L args node))" b p now]
    by (auto simp: reads_back_def bind_round_metadata)
  have stamp_old: "md_bind_timestamp ?old = Some t'"
    by (simp add: old stored_metadata_def t)
  have stamp: "md_bind_timestamp ?new = Some t'"
    using bound_timestamp_unchanged [OF stays_unchanged [OF rb named, of pods], of t' later] stamp_old
    by (simp add: bind_round_metadata apply_node_fields)
  have cpu: "md_bind_cpu ?new = md_bind_cpu ?old" "md_bind_memory ?new = md_bind_memory ?old"
    using node_free_full [of L args pods node]
    by (auto simp: old stored_metadata_def bind_round_metadata bound_metadata_fields apply_node_fields free
        split: option.splits prod.splits)
  show ?thesis
  proof (rule Metadata.equality)
    show "md_bind_cpu ?new = md_bind_cpu (?old\<lparr>md_bind_privileged := user_privileged (binding_user (binding_spec b))\<rparr>)"
      and "md_bind_memory ?new = md_bind_memory (?old\<lparr>md_bind_privileged := user_privileged (binding_user (binding_spec b))\<rparr>)"
      and "md_bind_timestamp ?new = md_bind_timestamp (?old\<lparr>md_bind_privileged := user_privileged (binding_user (binding_spec b))\<rparr>)"
      using cpu stamp stamp_old by simp_all
  qed (use named in \<open>simp_all add: old bind_round_metadata bound_metadata_fields apply_node_fields stored_metadata_def
      named_def full_ne merged load_metadata_fields split: SessionBindingUserKind.splits\<close>)
qed

lemma settled_iff:
  assumes rb: "reads_back L args (bind_round L args pods b p now node) node node'" and named: "named node b p"
    and reachable: "\<not> sess_unreachable (load_session L args node')"
  shows "bind_round L args pods b p later node' = load_session L args node' \<longleftrightarrow>
    user_privileged (binding_user (binding_spec b)) =
      Option.bind (label_of (node_meta node) (label_bind_privileged args)) bool_parse" (is "?l \<longleftrightarrow> ?r")
proof -
  let ?s = "bind_round L args pods b p later node'"
  have keys: "label_bind args \<noteq> label_bind_profile args" and m: "merges node (to_patch L args (bind_round L args pods b p now node)) node'"
    using rb by (auto simp: reads_back_def distinct_keys_def written_keys_def)
  have "sess_taints ?s = sess_taints (load_session L args node')"
    using bind_taints_again [OF keys] by (simp add: load_session_taints [OF m] bind_round_eq Let_def)
  moreover have "sess_node ?s = node'" "sess_unreachable ?s = sess_unreachable (load_session L args node')"
    using reachable by (simp_all add: bind_round_eq Let_def)
  ultimately have "?l \<longleftrightarrow> sess_metadata ?s = load_metadata L args (node_meta node')"
    by (auto intro: NodeSession.equality)
  also have "\<dots> \<longleftrightarrow> user_privileged (binding_user (binding_spec b)) = md_bind_privileged (load_metadata L args (node_meta node'))"
    unfolding settled_metadata [OF rb named] by (cases "load_metadata L args (node_meta node')") auto
  also have "md_bind_privileged (load_metadata L args (node_meta node')) =
      Option.bind (label_of (node_meta node) (label_bind_privileged args)) bool_parse"
    by (simp add: load_bind_round [OF rb] stored_metadata_def)
  finally show ?thesis .
qed

text \<open>An API server that answers every call, with an application that is there and synced.\<close>

definition synced :: "Application \<Rightarrow> bool" where
  "synced app \<longleftrightarrow> meta_creation (app_meta app) \<noteq> None \<and> meta_deletion (app_meta app) = None
     \<and> app_sync_status app = Some ''Synced''"

definition steady :: "'w vine_api \<Rightarrow> Pod list \<Rightarrow> SessionBindingCrd list \<Rightarrow> SessionProfileCrd \<Rightarrow> bool" where
  "steady A pods bs p \<longleftrightarrow> (\<forall>l c. ans_unit A l c = Inr ()) \<and> (\<forall>l c. ans_exists A l c = Inr True)
     \<and> (\<exists>app. synced app \<and> (\<forall>l c. ans_app A l c = Inr (Some app)))
     \<and> (\<forall>l c. ans_pods A l c = Inr pods) \<and> (\<forall>l c. ans_bindings A l c = Inr bs)
     \<and> (\<forall>l c. ans_profile A l c = Inr (Some p)) \<and> (\<forall>v. \<exists>t. to_values A v = Inr t)"

fun writes :: "vine_call \<Rightarrow> bool" where
  "writes (LabelNode _ _) = True"
| "writes (CreateApp _) = True"
| "writes (DeleteApp _) = True"
| "writes (PatchNode _ _) = True"
| "writes (Publish _) = True"
| "writes _ = False"

lemma owned_not_ready:
  "build_owned_session_profile L args node s b p = Inl st \<Longrightarrow> st = NodeNotReady"
  by (auto simp: build_owned_session_profile_def Let_def split: option.splits)

lemma wp_create_app_steady:
  assumes "steady A pods bs p'" and "\<And>st l'. st \<noteq> AppDeleting \<Longrightarrow> filter writes l' = filter writes l \<Longrightarrow> Q (Inr st) l'"
  shows "wp (create_app L A args node s b p) Q l"
proof (cases "build_app L A args node s b p")
  case (Inl e)
  then show ?thesis
    using assms(1) by (auto simp: build_app_def steady_def split: sum.splits) (metis Inr_Inl_False)
next
  case (Inr built)
  then show ?thesis
    using assms
    by (cases built) (auto simp: create_app_def eff_simps steady_def build_app_def dest!: owned_not_ready split: sum.splits)
qed

definition session_writes ::
  "('q, 'w) vine_lib \<Rightarrow> Args \<Rightarrow> Node \<Rightarrow> NodeSession \<Rightarrow> NodeSession \<Rightarrow> vine_call list" where
  "session_writes L args node current nxt =
     (if current = nxt then []
      else [PatchNode (name_any (node_meta node)) (to_patch L (args_api args) nxt),
            Publish (session_event (update_message False False nxt))])"

lemma wp_store_session_steady:
  assumes "steady A pods bs p"
    and "\<And>r l'. filter writes l' = filter writes l @ session_writes L args node current nxt \<Longrightarrow> Q (Inr r) l'"
  shows "wp (store_session L A args (name_any (node_meta node)) current nxt False False remaining) Q l"
  using assms by (auto simp: store_session_def eff_simps steady_def session_writes_def)

lemma steady_bound:
  assumes "profile_state (sess_metadata s) (Some (b, p)) = Unchanged b p" and "\<not> sess_unreachable s"
    and "steady A pods bs p" and "fst (apply_profile (args_api args) (Some (b, p)) now s) = s'"
    and "\<And>r l'. filter writes l' = filter writes l @
       session_writes L args node current (fst (set_sign_out (args_api args) now False s')) \<Longrightarrow> Q (Inr r) l'"
  shows "wp (next_round L A args node now current s' (Unchanged b p)) Q l"
proof -
  have s': "\<not> sess_unreachable s'" "md_bind (sess_metadata s') = Some True"
    using assms(2,4) by (auto simp: apply_profile_bound bound_metadata_fields)
  obtain nxt where out: "set_sign_out (args_api args) now False s' = (nxt, None)"
    by (simp add: set_sign_out_def)
  then have nxt: "\<not> not_ready nxt"
    using s' by (auto simp: set_sign_out_def not_ready_def)
  have keep: "\<not> Vine_Session.has_changed (Unchanged b p)"
    by (simp add: Vine_Session.has_changed_def)
  have "wp (create_app L A args node nxt b p) (\<lambda>r l'. case r of Inl e \<Rightarrow> Q (Inl e) l' | Inr st \<Rightarrow>
      wp (if st = AppDeleting
          then store_session L A args (name_any (node_meta node)) current (remove_session_revision current) True False None
          else store_session L A args (name_any (node_meta node)) current nxt False False None) Q l') l"
    by (rule wp_create_app_steady [OF assms(3)])
       (auto intro!: wp_store_session_steady [OF assms(3)] assms(5) simp: out)
  then show ?thesis
    unfolding next_round_def Let_def wp_tryE using s' nxt keep by (simp add: update_app_def wp_tryE out wp_if if_bool_eq_conj cong: sum.case_cong)
qed

text \<open>C10.
  A round that grants the application is written back, and the next round finds nothing to write
  exactly when the privilege of the binding is what the label of the node says.  No round writes
  that label: a binding that sets the privilege makes every round patch the node and report a
  sign-in again.\<close>

theorem settled_rounds:
  assumes "reads_back L (args_api args) (bind_round L (args_api args) pods b p earlier node) node node'"
    and "named node b p" and "\<not> sess_unreachable (load_session L (args_api args) node')"
    and "signing_out (args_api args) (load_session L (args_api args) node') (vine_clock A []) = None"
    and "steady A pods bs p" and "choose_binding node' bs = Some b"
  shows "filter writes (calls_of (reconcile L A args node')) =
    (if user_privileged (binding_user (binding_spec b)) =
          Option.bind (label_of (node_meta node) (label_bind_privileged (args_api args))) bool_parse
     then []
     else let nxt = bind_round L (args_api args) pods b p (vine_clock A []) node' in
       [PatchNode (name_any (node_meta node')) (to_patch L (args_api args) nxt),
        Publish (session_event (update_message False False nxt))])"
proof -
  let ?api = "args_api args"
  let ?current = "load_session L ?api node'"
  let ?s = "apply_node L ?api pods ?current"
  let ?now = "vine_clock A []"
  obtain app where app: "synced app" "ans_app A l c = Inr (Some app)" for l c
    using assms(5) by (auto simp: steady_def)
  have ans: "ans_pods A l c = Inr pods" "ans_bindings A l c = Inr bs" "ans_profile A l c = Inr (Some p)" for l c
    using assms(5) by (simp_all add: steady_def)
  have st: "profile_state (sess_metadata ?s) (Some (b, p)) = Unchanged b p"
    by (rule stays_unchanged [OF assms(1,2)])
  have "wp (next_round L A args node' ?now ?current (fst (apply_profile ?api (Some (b, p)) ?now ?s)) (Unchanged b p))
      (\<lambda>r l'. filter writes l' = session_writes L args node' ?current (bind_round L ?api pods b p ?now node')) l"
    if "filter writes l = []" for l
    by (rule steady_bound [OF st _ assms(5) refl]) (use assms(3) that in \<open>simp_all add: bind_round_def\<close>)
  then have "wp (reconcile L A args node')
      (\<lambda>r l'. filter writes l' = session_writes L args node' ?current (bind_round L ?api pods b p ?now node')) []"
    using app
    by (simp add: reconcile_def Let_def eff_simps assms(4) sync_app_def find_profile_def ans assms(6) synced_def
        apply_profile_bound st)
  then have "filter writes (calls_of (reconcile L A args node')) =
      session_writes L args node' ?current (bind_round L ?api pods b p ?now node')"
    by (simp add: wp_result)
  then show ?thesis
    using settled_iff [OF assms(1-3), of "vine_clock A []"] by (simp add: session_writes_def Let_def eq_commute)
qed

lemma example_unbound: "md_bind_timestamp (load_metadata example_lib example_api_args (node_meta stored_node)) = None"
  by code_simp

lemma example_reads_back:
  "reads_back example_lib example_api_args
     (bind_round example_lib example_api_args [] (example_binding privileged) example_profile 5000000 stored_node)
     stored_node (patched_node stored_node (to_patch example_lib example_api_args
       (bind_round example_lib example_api_args [] (example_binding privileged) example_profile 5000000 stored_node)))"
  unfolding reads_back_def
proof (intro conjI)
  have "md_bind_timestamp (sess_metadata (bind_round example_lib example_api_args [] (example_binding privileged)
      example_profile 5000000 stored_node)) = Some 5000000"
    using example_unbound
    by (simp add: bind_round_metadata bound_metadata_def Let_def apply_node_fields split: ProfileState.split)
  then show "in_i64 example_lib (sess_metadata (bind_round example_lib example_api_args []
      (example_binding privileged) example_profile 5000000 stored_node))"
    and "is_none_or (\<lambda>t. from_millisecond example_lib (as_millisecond example_lib t) \<noteq> None)
      (md_bind_timestamp (sess_metadata (bind_round example_lib example_api_args [] (example_binding privileged)
        example_profile 5000000 stored_node)))"
    by (simp_all add: in_i64_def example_lib_def)
qed (rule example_keys, rule example_merges)

definition rebound :: "bool option \<Rightarrow> Node" where
  "rebound privileged = patched_node stored_node (to_patch example_lib example_api_args
     (bind_round example_lib example_api_args [] (example_binding privileged) example_profile 5000000 stored_node))"

lemma example_steady: "steady (example_vine True bs now) [] bs example_profile"
  by (simp add: steady_def example_vine_def synced_def example_app_def meta_default_def)

lemma example_chosen: "choose_binding (rebound privileged) [example_binding privileged] = Some (example_binding privileged)"
  by (simp add: choose_binding_def eligible_def min_by_key_def is_selected_def example_binding_def meta_default_def)

lemma example_named: "named stored_node (example_binding privileged) example_profile"
  by (simp add: named_def stored_node_def example_node_def example_binding_def example_profile_def meta_default_def)

lemma example_taints:
  "\<not> sess_unreachable (load_session example_lib example_api_args (rebound privileged))
   \<and> signing_out example_api_args (load_session example_lib example_api_args (rebound privileged)) now = None"
  by (simp add: rebound_def patched_node_def load_session_def Let_def to_patch_def bind_round_eq signing_out_def
      stored_node_def example_node_def bind_taints_def filter_taint_def example_api_args_def example_binding_def)

theorem settled_rounds_witness:
  "filter writes (calls_of (reconcile example_lib (example_vine True [example_binding None] 6000000) example_args
     (rebound None))) = []
   \<and> length (filter writes (calls_of (reconcile example_lib (example_vine True [example_binding (Some True)] 6000000)
     example_args (rebound (Some True))))) = 2"
proof -
  note settled = settled_rounds [where args = example_args, simplified example_api, OF example_reads_back example_named,
    folded rebound_def, OF example_taints [THEN conjunct1] example_taints [THEN conjunct2] example_steady example_chosen]
  have absent: "label_of (node_meta stored_node) (label_bind_privileged example_api_args) = None"
    by code_simp
  have privileged: "user_privileged (binding_user (binding_spec (example_binding x))) = x" for x
    by (simp add: example_binding_def)
  show ?thesis
    by (simp add: settled absent privileged Let_def)
qed

section \<open>When an application is created\<close>

text \<open>The first of the least elements.\<close>

lemma fold_least:
  fixes f :: "'x \<Rightarrow> 'k::linorder"
  defines "m \<equiv> fold (\<lambda>y m. if f y < f m then y else m)"
  shows "m xs x \<in> insert x (set xs) \<and> (\<forall>y\<in>insert x (set xs). f (m xs x) \<le> f y)"
proof (induction xs arbitrary: x)
  case Nil
  then show ?case by (simp add: m_def)
next
  case (Cons y ys)
  show ?case
    using Cons.IH [of "if f y < f x then y else x"] unfolding m_def
    by (auto split: if_splits intro: order_trans)
qed

lemma min_by_key_least:
  assumes "min_by_key f xs = Some x"
  shows "x \<in> set xs \<and> (\<forall>y\<in>set xs. f x \<le> f y)"
  using assms fold_least [of f "tl xs" "hd xs"] by (cases xs) (auto simp: min_by_key_def)

lemma min_by_key_None: "min_by_key f xs = None \<longleftrightarrow> xs = []"
  by (simp add: min_by_key_def split: list.splits)

text \<open>The binding is chosen among those that match the node: none has a smaller key.\<close>

definition chosen :: "Node \<Rightarrow> SessionBindingCrd list \<Rightarrow> SessionBindingCrd \<Rightarrow> bool" where
  "chosen node bs b \<longleftrightarrow> b \<in> set bs \<and> eligible node b
     \<and> (\<forall>c\<in>set bs. eligible node c \<longrightarrow> binding_key_of b \<le> binding_key_of c)"

lemma choose_binding_chosen: "choose_binding node bs = Some b \<Longrightarrow> chosen node bs b"
  unfolding choose_binding_def by (drule min_by_key_least) (simp add: chosen_def)

lemma choose_binding_None: "choose_binding node bs = None \<longleftrightarrow> (\<forall>b\<in>set bs. \<not> eligible node b)"
  by (simp add: choose_binding_def min_by_key_None filter_empty_conv)

text \<open>What has to hold before an application is created: the node can be reached and is not signing
  out, the binding is the chosen one and its profile exists, the node was not bound to another
  profile or revision, and there is no application of that name.\<close>

definition may_create ::
  "('q, 'w::floor_ceiling) vine_lib \<Rightarrow> 'w vine_api \<Rightarrow> Args \<Rightarrow> Node \<Rightarrow> Application \<Rightarrow> bool" where
  "may_create L A args node app \<longleftrightarrow>
     (\<exists>l pods bs b p. let api = args_api args; current = load_session L api node; now = vine_clock A [] in
        signing_out api current now = None \<and> \<not> sess_unreachable current
        \<and> (\<exists>l. ans_pods A l (ListPods (''spec.nodeName='' @ name_any (node_meta node))) = Inr pods)
        \<and> ans_bindings A l ListBindings = Inr bs \<and> chosen node bs b
        \<and> (\<exists>l. ans_profile A l (GetProfile (binding_profile (binding_spec b))) = Inr (Some p))
        \<and> \<not> Vine_Session.has_changed (profile_state (sess_metadata current) (Some (b, p)))
        \<and> build_app L A args node (bind_round L api pods b p now node) b p = Inr (Inr app)
        \<and> (\<exists>l. ans_exists A l (GetAppMetadata (build_app_name node)) = Inr False))"

definition safe_call :: "('q, 'w::floor_ceiling) vine_lib \<Rightarrow> 'w vine_api \<Rightarrow> Args \<Rightarrow> Node \<Rightarrow> vine_call \<Rightarrow> bool" where
  "safe_call L A args node c \<longleftrightarrow> (\<forall>app. c = CreateApp app \<longrightarrow> may_create L A args node app)"

lemma build_app_named: "build_app L A args node s b p = Inr (Inr app) \<Longrightarrow> name_any (app_meta app) = build_app_name node"
  by (auto simp: build_app_def name_any_def split: sum.splits)

lemma emits_create_app:
  assumes "\<And>app l. build_app L A args node s b p = Inr (Inr app) \<Longrightarrow>
      ans_exists A l (GetAppMetadata (build_app_name node)) = Inr False \<Longrightarrow> P (CreateApp app)"
    and "\<And>n. P (GetAppMetadata n)"
  shows "emits P (create_app L A args node s b p)"
  unfolding create_app_def
proof (rule emits_try_result)
  fix built assume built: "build_app L A args node s b p = Inr built"
  show "emits P (case built of Inl st \<Rightarrow> ret st | Inr app \<Rightarrow>
      tryE (call (ans_exists A) (GetAppMetadata (name_any (app_meta app)))) (\<lambda>found.
      if found then ret AppCreated else tryE (call (ans_unit A) (CreateApp app)) (\<lambda>_. ret AppCreated)))"
  proof (cases built)
    case (Inr app)
    have "emits P (if found then ret AppCreated else tryE (call (ans_unit A) (CreateApp app)) (\<lambda>_. ret AppCreated))"
      if "ans_exists A l (GetAppMetadata (name_any (app_meta app))) = Inr found" for l found
      using assms(1) [of app l] built that build_app_named [of L A args node s b p app] Inr
      by (cases found) (simp_all add: emits_ret emits_try_call)
    with assms(2) Inr show ?thesis
      by (simp add: emits_try_call)
  qed (simp add: emits_intros)
qed

lemma emits_delete_app: "(\<And>n. P (GetAppMetadata n)) \<Longrightarrow> (\<And>n. P (DeleteApp n)) \<Longrightarrow> emits P (delete_app A node)"
  by (simp add: delete_app_def emits_intros)

lemma emits_store_session:
  "(\<And>p. P (PatchNode name p)) \<Longrightarrow> (\<And>e. P (Publish e)) \<Longrightarrow>
     emits P (store_session L A args name current nxt deleting out remaining)"
  by (simp add: store_session_def emits_intros)

lemma safe_calls:
  "safe_call L A args node (GetAppMetadata n)" "safe_call L A args node (DeleteApp n)"
  "safe_call L A args node (PatchNode n q)" "safe_call L A args node (Publish e)"
  "safe_call L A args node (GetApp n)" "safe_call L A args node (ListPods n)"
  "safe_call L A args node ListBindings" "safe_call L A args node (GetProfile n)"
  by (simp_all add: safe_call_def)

lemma granted_bound:
  assumes "\<not> Vine_Session.has_changed (profile_state (sess_metadata (apply_node L api pods (load_session L api node))) (Some (b, p)))"
  shows "\<not> Vine_Session.has_changed (profile_state (load_metadata L api (node_meta node)) (Some (b, p)))"
  using assms
  by (cases "md_bind_profile (load_metadata L api (node_meta node))") (simp_all add: profile_state_def apply_node_fields)

lemma safe_update_app:
  assumes "profile_state md choice = st"
    and "\<And>b p app l. grant \<Longrightarrow> choice = Some (b, p) \<Longrightarrow> build_app L A args node s b p = Inr (Inr app) \<Longrightarrow>
      ans_exists A l (GetAppMetadata (build_app_name node)) = Inr False \<Longrightarrow> may_create L A args node app"
  shows "emits (safe_call L A args node) (update_app L A args node s grant st)"
proof -
  have create: "emits (safe_call L A args node) (create_app L A args node s b p)" if "grant" "choice = Some (b, p)" for b p
    by (rule emits_create_app) (auto simp: safe_calls safe_call_def intro: assms(2) [OF that])
  show ?thesis
    using assms(1)
    by (auto simp: update_app_def profile_state_def safe_calls intro!: emits_delete_app create emits_intros
        split: option.splits if_splits)
qed

lemma safe_next_round:
  assumes pods: "\<exists>l. ans_pods A l (ListPods (''spec.nodeName='' @ name_any (node_meta node))) = Inr pods"
    and bs: "ans_bindings A l ListBindings = Inr bs"
    and choice: "\<And>b p. choice = Some (b, p) \<Longrightarrow> chosen node bs b
      \<and> (\<exists>l. ans_profile A l (GetProfile (binding_profile (binding_spec b))) = Inr (Some p))"
    and idle: "signing_out (args_api args) (load_session L (args_api args) node) (vine_clock A []) = None"
    and bound: "apply_profile (args_api args) choice (vine_clock A [])
      (apply_node L (args_api args) pods (load_session L (args_api args) node)) = (s, st)"
  shows "emits (safe_call L A args node)
    (next_round L A args node (vine_clock A []) (load_session L (args_api args) node) s st)"
proof -
  let ?now = "vine_clock A []"
  let ?api = "args_api args"
  let ?current = "load_session L ?api node"
  let ?node = "apply_node L ?api pods ?current"
  have unreachable: "sess_unreachable s = sess_unreachable ?current"
    using bound by (auto simp: apply_profile_def set_taint_fst remove_taint_def Let_def split: option.splits)
  have st: "profile_state (sess_metadata ?node) choice = st"
    using bound by (auto simp: apply_profile_def Let_def)
  have allowed: "may_create L A args node app"
    if "\<not> Vine_Session.has_changed st" "\<not> sess_unreachable s" and b: "choice = Some (b, p)"
      and "build_app L A args node (fst (set_sign_out ?api ?now False s)) b p = Inr (Inr app)"
      and "ans_exists A l' (GetAppMetadata (build_app_name node)) = Inr False" for b p app l'
  proof -
    have "bind_round L ?api pods b p ?now node = fst (set_sign_out ?api ?now False s)"
      using bound b by (simp add: bind_round_def)
    moreover have "\<not> Vine_Session.has_changed (profile_state (load_metadata L ?api (node_meta node)) (Some (b, p)))"
      using granted_bound that(1) st b by blast
    ultimately show ?thesis
      unfolding may_create_def Let_def using pods bs choice [OF b] idle that unreachable by (metis sess_metadata_load)
  qed
  obtain nxt remaining where out:
    "set_sign_out ?api ?now (Vine_Session.has_changed st \<or> sess_unreachable s) s = (nxt, remaining)"
    by (cases "set_sign_out ?api ?now (Vine_Session.has_changed st \<or> sess_unreachable s) s")
  then have "nxt = fst (set_sign_out ?api ?now False s)" if "\<not> (Vine_Session.has_changed st \<or> sess_unreachable s)"
    using that by simp
  then have "emits (safe_call L A args node)
      (update_app L A args node nxt (\<not> (Vine_Session.has_changed st \<or> sess_unreachable s) \<and> \<not> not_ready nxt) st)"
    by (intro safe_update_app [OF st]) (use allowed in blast)
  then show ?thesis
    unfolding next_round_def Let_def out prod.case
    by (intro emits_if emits_tryE emits_ret emits_store_session) (simp_all add: safe_calls)
qed

lemma emits_find_profile:
  assumes "P ListBindings" and "\<And>n. P (GetProfile n)"
    and k: "\<And>l bs choice. ans_bindings A l ListBindings = Inr bs \<Longrightarrow> (\<And>b p. choice = Some (b, p) \<Longrightarrow>
        chosen node bs b \<and> (\<exists>l. ans_profile A l (GetProfile (binding_profile (binding_spec b))) = Inr (Some p))) \<Longrightarrow>
      emits P (k choice)"
  shows "emits P (tryE (find_profile A node) k)"
  unfolding find_profile_def tryE_assoc tryE_case_option tryE_ret
proof (intro emits_try_call emits_case_option)
  fix l bs b l' p
  assume "ans_bindings A l ListBindings = Inr bs" "choose_binding node bs = Some b"
    "ans_profile A l' (GetProfile (binding_profile (binding_spec b))) = Inr p"
  then show "emits P (k (map_option (\<lambda>p. (b, p)) p))"
    by (intro k) (auto dest: choose_binding_chosen)
next
  fix l bs
  assume "ans_bindings A l ListBindings = Inr bs"
  then show "emits P (k None)"
    by (rule k) simp
qed (use assms in simp_all)

text \<open>C9.
  The operator creates an application for a node only when all of this holds: no sign-out is
  running, the node is reachable, the binding has the least key (priority, age, uid) among those
  that are enabled, not being deleted and match the labels of the node, its profile exists, the node
  was unbound or bound to exactly this profile and revision, the application is the one built from
  them with the resources that the listed pods leave of the node, and there is no application of that
  name.\<close>

theorem created_only_when_allowed:
  assumes "CreateApp app \<in> set (calls_of (reconcile L A args node))"
  shows "may_create L A args node app"
proof -
  let ?api = "args_api args"
  let ?current = "load_session L ?api node"
  let ?now = "vine_clock A []"
  let ?k = "\<lambda>now. case signing_out ?api ?current now of
        Some remaining \<Rightarrow> ret (Requeue (abs remaining))
      | None \<Rightarrow>
          tryE (sync_app A node) (\<lambda>synced.
          if \<not> synced then ret (Requeue (abs (duration_sign_out ?api)))
          else
            tryE (call (ans_pods A) (ListPods (''spec.nodeName='' @ name_any (node_meta node)))) (\<lambda>pods.
            tryE (find_profile A node) (\<lambda>choice.
            let (bound, st) = apply_profile ?api choice now (apply_node L ?api pods ?current)
            in next_round L A args node now ?current bound st)))"
  have bound: "emits (safe_call L A args node)
      (let (bound, st) = apply_profile ?api choice ?now (apply_node L ?api pods ?current)
       in next_round L A args node ?now ?current bound st)"
    if "signing_out ?api ?current ?now = None"
      and "ans_pods A l' (ListPods (''spec.nodeName='' @ name_any (node_meta node))) = Inr pods"
      and "ans_bindings A l ListBindings = Inr bs"
      and "\<And>b p. choice = Some (b, p) \<Longrightarrow> chosen node bs b
        \<and> (\<exists>l. ans_profile A l (GetProfile (binding_profile (binding_spec b))) = Inr (Some p))" for pods choice l l' bs
  proof -
    have "\<exists>l. ans_pods A l (ListPods (''spec.nodeName='' @ name_any (node_meta node))) = Inr pods"
      using that(2) by blast
    from safe_next_round [OF this that(3,4,1)] show ?thesis
      by (cases "apply_profile ?api choice ?now (apply_node L ?api pods ?current)") simp
  qed
  have "emits (safe_call L A args node) (?k ?now)"
    by (intro emits_case_option emits_ret emits_if emits_find_profile emits_tryE [where m = "sync_app A node"]
        emits_try_call bound)
       (assumption | simp add: safe_calls sync_app_def emits_intros)+
  moreover have "calls_of (reconcile L A args node) = calls_of (?k ?now)"
    by (simp add: reconcile_def Let_def calls_of_observe)
  ultimately show ?thesis
    using assms by (auto simp: safe_call_def dest: emits_calls_of)
qed

theorem created_only_when_allowed_witness:
  "\<exists>app. may_create example_lib (example_vine False [example_binding None] 5000000) example_args stored_node app"
proof -
  have "list_ex (\<lambda>c. case c of CreateApp _ \<Rightarrow> True | _ \<Rightarrow> False)
      (calls_of (reconcile example_lib (example_vine False [example_binding None] 5000000) example_args stored_node))"
    by code_simp
  then obtain app where "CreateApp app \<in> set (calls_of
      (reconcile example_lib (example_vine False [example_binding None] 5000000) example_args stored_node))"
    by (auto dest: calls_ex)
  then show ?thesis
    by (intro exI created_only_when_allowed)
qed

section \<open>When an application is deleted\<close>

definition untouched :: "vine_call list \<Rightarrow> bool" where
  "untouched l \<longleftrightarrow> (\<forall>m. DeleteApp m \<notin> set l) \<and> (\<forall>n q. PatchNode n q \<notin> set l)"

definition deletes_first :: "('q, 'w) vine_lib \<Rightarrow> VineSessionArgs \<Rightarrow> NodeSession \<Rightarrow> vine_call list \<Rightarrow> bool" where
  "deletes_first L api current l \<longleftrightarrow> (\<forall>m n q. DeleteApp m \<in> set l \<longrightarrow> PatchNode n q \<in> set l \<longrightarrow>
     q = to_patch L api (remove_session_revision current))"

lemma untouched_append: "untouched l \<Longrightarrow> untouched (l @ [c]) \<longleftrightarrow> (\<forall>m. c \<noteq> DeleteApp m) \<and> (\<forall>n q. c \<noteq> PatchNode n q)"
  by (auto simp: untouched_def)

lemma untouched_deletes_first: "untouched l \<Longrightarrow> deletes_first L api current l"
  by (auto simp: untouched_def deletes_first_def)

lemma wp_update_app:
  assumes "untouched l"
  shows "wp (update_app L A args node s grant st)
    (\<lambda>r l'. (\<forall>n q. PatchNode n q \<notin> set l') \<and> (\<forall>a. r = Inr a \<longrightarrow> a \<noteq> AppDeleting \<longrightarrow> untouched l')) l"
proof -
  have create: "wp (create_app L A args node s b p)
      (\<lambda>r l'. (\<forall>n q. PatchNode n q \<notin> set l') \<and> (\<forall>a. r = Inr a \<longrightarrow> a \<noteq> AppDeleting \<longrightarrow> untouched l')) l" for b p
    using assms by (auto simp: create_app_def eff_simps untouched_def split: sum.splits)
  have delete: "wp (delete_app A node)
      (\<lambda>r l'. (\<forall>n q. PatchNode n q \<notin> set l') \<and> (\<forall>a. r = Inr a \<longrightarrow> a \<noteq> AppDeleting \<longrightarrow> untouched l')) l"
    using assms by (auto simp: delete_app_def eff_simps untouched_def split: sum.splits)
  show ?thesis
    using create delete assms
    by (auto simp: update_app_def eff_simps untouched_def split: ProfileState.splits option.splits)
qed

lemma wp_store_session:
  assumes "\<forall>n q. PatchNode n q \<notin> set l"
    and "\<And>r l'. (\<forall>m. DeleteApp m \<in> set l' \<longrightarrow> DeleteApp m \<in> set l) \<Longrightarrow>
      (\<forall>n q. PatchNode n q \<in> set l' \<longrightarrow> q = to_patch L (args_api args) nxt) \<Longrightarrow> Q r l'"
  shows "wp (store_session L A args name current nxt deleting out remaining) Q l"
  using assms(1) by (auto simp: store_session_def eff_simps intro!: assms(2) split: sum.split)

lemma wp_next_round:
  assumes "untouched l"
  shows "wp (next_round L A args node now current s st) (\<lambda>r l'. deletes_first L (args_api args) current l') l"
proof -
  obtain nxt remaining where out:
    "set_sign_out (args_api args) now (Vine_Session.has_changed st \<or> sess_unreachable s) s = (nxt, remaining)"
    by (cases "set_sign_out (args_api args) now (Vine_Session.has_changed st \<or> sess_unreachable s) s")
  have seq: "wp (tryE (update_app L A args node nxt grant st) k) (\<lambda>r l'. deletes_first L (args_api args) current l') l"
    if k: "\<And>l' st. (\<forall>n q. PatchNode n q \<notin> set l') \<Longrightarrow> (st \<noteq> AppDeleting \<longrightarrow> untouched l') \<Longrightarrow>
      wp (k st) (\<lambda>r l'. deletes_first L (args_api args) current l') l'" for grant k
  proof (rule wp_tryE_seq [OF wp_update_app [OF assms]])
    show "wp (k a) (\<lambda>r l'. deletes_first L (args_api args) current l') l'"
      if "(\<forall>n q. PatchNode n q \<notin> set l') \<and> (\<forall>b. Inr a = Inr b \<longrightarrow> b \<noteq> AppDeleting \<longrightarrow> untouched l')" for a l'
      using that by (intro k) auto
  qed (auto simp: deletes_first_def)
  show ?thesis
    unfolding next_round_def Let_def out prod.case wp_if
    using untouched_deletes_first [OF assms]
    by (auto simp: wp_ret intro!: seq wp_store_session)
       (auto simp: deletes_first_def untouched_def)
qed

text \<open>C11.
  Deleting the application comes before signing the node out: in a round that deletes it the labels
  and taints of the session stay as they are, and only the revision is dropped from the node (so
  that the next round finds the session changed again).\<close>

theorem deletes_before_sign_out:
  assumes "DeleteApp m \<in> set (calls_of (reconcile L A args node))"
    and "PatchNode n q \<in> set (calls_of (reconcile L A args node))"
  shows "q = to_patch L (args_api args) (remove_session_revision (load_session L (args_api args) node))"
proof -
  let ?Q = "\<lambda>r l. deletes_first L (args_api args) (load_session L (args_api args) node) l"
  have following: "wp (case apply_profile api choice now s of (bound, st) \<Rightarrow>
      next_round L A args node now (load_session L (args_api args) node) bound st) ?Q l"
    if "untouched l" for api choice now s l
    by (cases "apply_profile api choice now s") (simp add: wp_next_round [OF that])
  have "wp (reconcile L A args node) ?Q []"
    unfolding reconcile_def Let_def
    by (auto simp: eff_simps sync_app_def find_profile_def untouched_deletes_first untouched_def
        intro!: following split: option.splits sum.splits)
  then show ?thesis
    using assms by (auto simp: wp_result deletes_first_def)
qed

definition outdated_node :: Node where
  "outdated_node = example_node [(''bind'', ''true''), (''bind.profile'', ''desktop''), (''bind.revision'', ''6'')]"

theorem deletes_before_sign_out_witness:
  "\<exists>q. PatchNode ''n1'' q \<in> set (calls_of (reconcile example_lib (example_vine True [example_binding None] 5000000)
       example_args outdated_node))
     \<and> q = to_patch example_lib example_api_args
         (remove_session_revision (load_session example_lib example_api_args outdated_node))"
proof -
  let ?calls = "calls_of (reconcile example_lib (example_vine True [example_binding None] 5000000) example_args outdated_node)"
  have "list_ex (\<lambda>c. case c of DeleteApp _ \<Rightarrow> True | _ \<Rightarrow> False) ?calls"
    by code_simp
  then obtain m where m: "DeleteApp m \<in> set ?calls"
    by (auto dest: calls_ex)
  have "list_ex (\<lambda>c. case c of PatchNode n _ \<Rightarrow> n = ''n1'' | _ \<Rightarrow> False) ?calls"
    by code_simp
  then obtain q where q: "PatchNode ''n1'' q \<in> set ?calls"
    by (auto dest: calls_ex)
  from deletes_before_sign_out [OF m q] q show ?thesis
    by auto
qed

section \<open>Reading a session back\<close>

text \<open>C31.
  A session that is written to a node is read back from it: every label with its value (an empty text
  counts as none, a missing switch gets its default), all taints in order with their times to the
  second, and whether the node is unreachable from the taints.  Only the privilege and the kind of GPU come from labels that the
  operator does not write.\<close>

theorem session_reads_back:
  assumes "distinct_keys args" and "merges node (to_patch L args s) node'" and "in_i64 L (sess_metadata s)"
  shows "load_session L args node' = \<lparr>
    sess_metadata = stored_metadata L args (node_meta node) (sess_metadata s),
    sess_node = node', sess_taints = map stored_taint (sess_taints s),
    sess_unreachable = list_ex (\<lambda>t. filter_taint t ''node.kubernetes.io/unreachable'') (sess_taints s)\<rparr>"
proof (rule NodeSession.equality)
  have "Option.bind (node_spec node') spec_taints = Some (map stored_taint (sess_taints s))"
    using assms(2) by (simp add: merges_def to_patch_def)
  then show "sess_unreachable (load_session L args node') = sess_unreachable \<lparr>
    sess_metadata = stored_metadata L args (node_meta node) (sess_metadata s),
    sess_node = node', sess_taints = map stored_taint (sess_taints s),
    sess_unreachable = list_ex (\<lambda>t. filter_taint t ''node.kubernetes.io/unreachable'') (sess_taints s)\<rparr>"
    by (simp add: load_session_def Let_def list_ex_iff)
qed (simp_all add: load_merged [OF assms] load_session_taints [OF assms(2)])

theorem session_reads_back_witness:
  "sess_taints (load_session example_lib example_api_args (patched_node stored_node
     (to_patch example_lib example_api_args (fst (set_sign_out example_api_args 5 True example_session))))) =
   map stored_taint (sess_taints (fst (set_sign_out example_api_args 5 True example_session)))"
proof -
  have "in_i64 example_lib (sess_metadata (fst (set_sign_out example_api_args 5 True example_session)))"
    by code_simp
  from session_reads_back [OF example_keys example_merges this] show ?thesis
    by simp
qed

section \<open>Resources of a session\<close>

lemma bt_get_or_insert_all:
  "bt_get (or_insert_all m es) k = (case bt_get m k of None \<Rightarrow> bt_get es k | Some v \<Rightarrow> Some v)"
  unfolding or_insert_all_def bt_get_def [of es]
  by (induction es arbitrary: m) (auto simp: bt_get_or_insert split: option.splits)

text \<open>The resource limits of a session are those of its profile, completed by what the node has: a limit
  the profile sets is never replaced, the others are the free processors and memory, less the reserve,
  and the GPU.\<close>

theorem session_limits:
  assumes "to_resources_compute args s = Inr rs"
  shows "\<exists>spec'. provisioned_session args s spec = Some spec'
    \<and> (\<forall>k. bt_get (unwrap_or [] (Option.bind (session_resources spec') res_limits)) k =
         (case bt_get (unwrap_or [] (Option.bind (session_resources spec) res_limits)) k of
            Some q \<Rightarrow> Some q | None \<Rightarrow> bt_get rs k))"
  using assms
  by (cases "session_resources spec") (auto simp: provisioned_session_def bt_get_or_insert_all split: option.split)

theorem session_limits_witness:
  "\<exists>spec'. provisioned_session example_api_args
      (apply_node example_lib example_api_args [] example_session)
      (session_default\<lparr>session_resources := Some \<lparr>res_limits = Some [(''cpu'', ''2'')], res_requests = None\<rparr>\<rparr>) = Some spec'
    \<and> bt_get (unwrap_or [] (Option.bind (session_resources spec') res_limits)) ''cpu'' = Some ''2''
    \<and> bt_get (unwrap_or [] (Option.bind (session_resources spec') res_limits)) ''memory'' = Some ''6852516352''"
proof -
  have rs: "to_resources_compute example_api_args (apply_node example_lib example_api_args [] example_session) =
      Inr [(''cpu'', ''7''), (''memory'', ''6852516352'')]"
    by code_simp
  from session_limits [OF rs,
    of "session_default\<lparr>session_resources := Some \<lparr>res_limits = Some [(''cpu'', ''2'')], res_requests = None\<rparr>\<rparr>"]
  show ?thesis
    by (auto simp: bt_get_def)
qed

end
