(* ===== verification/Vine_Oauth.thy ===== *)
theory Vine_Oauth
  imports Ark_Std
begin

text \<open>
  Users of VINE (\<^verbatim>\<open>crates/openark-vine-oauth/src\<close>): reading the token of a request, the
  guards of the handlers, the Kubernetes client that they hand out, the error of an unauthorised request
  with its parser, and the callback of the identity provider.  It also holds the HTTP client of
  \<^verbatim>\<open>crates/openark-core/src/client.rs\<close>.  The library that decodes tokens, the encoding of the
  state, and the answers of other servers are parameters.
\<close>

section \<open>The HTTP client\<close>

datatype 'b Payload = Empty | Form 'b | Json 'b

datatype http_method = GET | POST | PUT

text \<open>An exchange: the status and the text of the body, if it can be read.\<close>

record http_request =
  req_method :: http_method
  req_url :: string
  req_body :: "(string \<times> string) list Payload"

record http_response =
  res_status :: nat
  res_text :: "string option"

record http_api =
  ans_http :: "http_request list \<Rightarrow> http_request \<Rightarrow> string + http_response"
  status_str :: "nat \<Rightarrow> string"

type_synonym 'a http = "(http_request, string, 'a) eff"

definition is_success :: "nat \<Rightarrow> bool" where
  "is_success n \<longleftrightarrow> 200 \<le> n \<and> n < 300"

definition response_result :: "(nat \<Rightarrow> string) \<Rightarrow> (string \<Rightarrow> string + 'a) \<Rightarrow> http_response \<Rightarrow> string + 'a" where
  "response_result str json r =
     (if is_success (res_status r) then
        (case res_text r of None \<Rightarrow> Inl ''error reading a body'' | Some s \<Rightarrow> json s)
      else
        (case res_text r of
           Some s \<Rightarrow> Inl (if s \<noteq> [] then s else str (res_status r))
         | None \<Rightarrow> Inl (str (res_status r))))"

definition request_with_payload ::
  "http_api \<Rightarrow> (string \<Rightarrow> string + 'a) \<Rightarrow> http_method \<Rightarrow> string \<Rightarrow> (string \<times> string) list Payload \<Rightarrow> 'a http" where
  "request_with_payload H json m url p =
     tryE (call (ans_http H) \<lparr>req_method = m, req_url = url, req_body = p\<rparr>) (\<lambda>r.
     lift_result (response_result (status_str H) json r))"

section \<open>Errors\<close>

datatype ErrorInvalidRequest = AccessTokenMissing

datatype ErrorInvalidToken = AccessTokenExpired | MalformedJwtToken

datatype ErrorKind = InvalidRequest ErrorInvalidRequest | InvalidToken ErrorInvalidToken

record Error =
  realm :: string
  error_kind :: ErrorKind

definition invalid_request_str :: "ErrorInvalidRequest \<Rightarrow> string" where
  "invalid_request_str e = (case e of AccessTokenMissing \<Rightarrow> ''AccessTokenMissing'')"

definition invalid_token_str :: "ErrorInvalidToken \<Rightarrow> string" where
  "invalid_token_str e = (case e of AccessTokenExpired \<Rightarrow> ''AccessTokenExpired'' | MalformedJwtToken \<Rightarrow> ''MalformedJwtToken'')"

definition invalid_request_parse :: "string \<Rightarrow> ErrorInvalidRequest option" where
  "invalid_request_parse s = (if s = ''AccessTokenMissing'' then Some AccessTokenMissing else None)"

definition invalid_token_parse :: "string \<Rightarrow> ErrorInvalidToken option" where
  "invalid_token_parse s =
     (if s = ''AccessTokenExpired'' then Some AccessTokenExpired
      else if s = ''MalformedJwtToken'' then Some MalformedJwtToken else None)"

definition kind_str :: "ErrorKind \<Rightarrow> string" where
  "kind_str k =
     (case k of
        InvalidRequest e \<Rightarrow> ''error=\"invalid_request\", error_description=\"'' @ invalid_request_str e @ ''\"''
      | InvalidToken e \<Rightarrow> ''error=\"invalid_token\", error_description=\"'' @ invalid_token_str e @ ''\"'')"

text \<open>\<^verbatim>\<open>{:?}\<close> of an ASCII string.\<close>

definition debug_char :: "char \<Rightarrow> string" where
  "debug_char c =
     (let n = (of_char c :: nat) in
      if c = CHR ''\"'' then [CHR 0x5C, CHR ''\"'']
      else if c = CHR 0x5C then [CHR 0x5C, CHR 0x5C]
      else if n = 0 then [CHR 0x5C, CHR ''0'']
      else if n = 9 then [CHR 0x5C, CHR ''t'']
      else if n = 10 then [CHR 0x5C, CHR ''n'']
      else if n = 13 then [CHR 0x5C, CHR ''r'']
      else if n < 32 \<or> n = 127 then CHR 0x5C # ''u{'' @ digits_of 16 (int n) @ ''}''
      else [c])"

definition debug_str :: "string \<Rightarrow> string" where
  "debug_str s = CHR ''\"'' # concat (map debug_char s) @ ''\"''"

definition error_str :: "Error \<Rightarrow> string" where
  "error_str e = ''WWW-Authenticate: Bearer realm='' @ debug_str (realm e) @ '', '' @ kind_str (error_kind e)"

text \<open>The parser is a regular expression of literals, white space and quoted parts that are not empty
  and hold no quote.\<close>

fun literal :: "string \<Rightarrow> string \<Rightarrow> string option" where
  "literal [] s = Some s"
| "literal (c # cs) [] = None"
| "literal (c # cs) (x # s) = (if x = c then literal cs s else None)"

definition spaces :: "string \<Rightarrow> string option" where
  "spaces s = Some (dropWhile is_space s)"

definition spaces1 :: "string \<Rightarrow> string option" where
  "spaces1 s = (case s of [] \<Rightarrow> None | c # cs \<Rightarrow> if is_space c then Some (dropWhile is_space cs) else None)"

definition quoted :: "string \<Rightarrow> (string \<times> string) option" where
  "quoted s =
     (let part = takeWhile (\<lambda>c. c \<noteq> CHR ''\"'') s; rest = dropWhile (\<lambda>c. c \<noteq> CHR ''\"'') s in
      if part = [] \<or> rest = [] then None else Some (part, tl rest))"

definition captures :: "string \<Rightarrow> (string \<times> string \<times> string) option" where
  "captures s =
     Option.bind (literal ''WWW-Authenticate:'' s) (\<lambda>s.
     Option.bind (spaces s) (\<lambda>s.
     Option.bind (literal ''Bearer'' s) (\<lambda>s.
     Option.bind (spaces1 s) (\<lambda>s.
     Option.bind (literal ''realm=\"'' s) (\<lambda>s.
     Option.bind (quoted s) (\<lambda>(a, s).
     Option.bind (literal '','' s) (\<lambda>s.
     Option.bind (spaces s) (\<lambda>s.
     Option.bind (literal ''error=\"'' s) (\<lambda>s.
     Option.bind (quoted s) (\<lambda>(b, s).
     Option.bind (literal '','' s) (\<lambda>s.
     Option.bind (spaces s) (\<lambda>s.
     Option.bind (literal ''error_description=\"'' s) (\<lambda>s.
     Option.bind (quoted s) (\<lambda>(c, s).
     if s = [] then Some (a, b, c) else None))))))))))))))"

definition error_parse :: "string \<Rightarrow> string + Error" where
  "error_parse s =
     (case captures s of
        None \<Rightarrow> Inl s
      | Some (r, error, description) \<Rightarrow>
          (case (if error = ''invalid_request'' then map_option InvalidRequest (invalid_request_parse description)
                 else if error = ''invalid_token'' then map_option InvalidToken (invalid_token_parse description)
                 else None) of
             None \<Rightarrow> Inl s
           | Some k \<Rightarrow> Inr \<lparr>realm = r, error_kind = k\<rparr>))"

section \<open>Tokens\<close>

record JsonWebTokenClaims =
  claim_exp :: int
  claim_iat :: int
  claim_name :: string
  claim_groups :: "string list"
  preferred_username :: string
  claim_email :: string

type_synonym User = JsonWebTokenClaims

definition username :: "User \<Rightarrow> string" where
  "username u = preferred_username u"

datatype Algorithm = HS256 | HS512 | RS256 | RS512

text \<open>What the library is asked to check; the defaults are those of the library.\<close>

record Validation =
  algorithms :: "Algorithm list"
  validate_signature :: bool
  validate_exp :: bool
  leeway :: int
  validate_aud :: bool

definition validation_default :: Validation where
  "validation_default = \<lparr>algorithms = [HS256], validate_signature = True, validate_exp = True, leeway = 60, validate_aud = True\<rparr>"

definition token_validation :: Validation where
  "token_validation = validation_default\<lparr>algorithms := algorithms validation_default @ [HS512, RS256, RS512],
     validate_signature := False, validate_aud := False\<rparr>"

datatype jwt_error = ExpiredSignature | OtherJwtError

text \<open>The library decodes at a time, in seconds.\<close>

type_synonym jwt_lib = "Validation \<Rightarrow> int \<Rightarrow> string \<Rightarrow> jwt_error + JsonWebTokenClaims"

definition claims_decode :: "jwt_lib \<Rightarrow> int \<Rightarrow> string \<Rightarrow> ErrorKind + JsonWebTokenClaims" where
  "claims_decode J now token =
     (case J token_validation now token of
        Inr c \<Rightarrow> Inr c
      | Inl ExpiredSignature \<Rightarrow> Inl (InvalidToken AccessTokenExpired)
      | Inl OtherJwtError \<Rightarrow> Inl (InvalidToken MalformedJwtToken))"

text \<open>Seconds that a time stamp can hold; the clock counts nanoseconds.\<close>

definition expired_at :: "JsonWebTokenClaims \<Rightarrow> int option" where
  "expired_at c = (if - 377705023201 \<le> claim_exp c \<and> claim_exp c \<le> 253402207200 then Some (claim_exp c) else None)"

definition nanos :: int where
  "nanos = 1000000000"

definition is_expired :: "int \<Rightarrow> JsonWebTokenClaims \<Rightarrow> bool" where
  "is_expired now c \<longleftrightarrow> (case expired_at c of None \<Rightarrow> True | Some e \<Rightarrow> e * nanos \<ge> now)"

record UserClaims =
  claims_user :: "ErrorKind + User"
  claims_refresh :: "string option"

definition infer_with :: "jwt_lib \<Rightarrow> int \<Rightarrow> string \<Rightarrow> string option \<Rightarrow> UserClaims" where
  "infer_with J now token refresh =
     \<lparr>claims_user =
        (case claims_decode J (now div nanos) token of
           Inl e \<Rightarrow> Inl e
         | Inr c \<Rightarrow> if is_expired now c then Inl (InvalidToken AccessTokenExpired) else Inr c),
      claims_refresh = refresh\<rparr>"

definition ACCESS_TOKEN :: string where
  "ACCESS_TOKEN = ''_openark_vine_oauth_access_token''"

definition REFRESH_TOKEN :: string where
  "REFRESH_TOKEN = ''_openark_vine_oauth_refresh_token''"

text \<open>In the browser, from the cookies of the page.\<close>

definition infer :: "jwt_lib \<Rightarrow> int \<Rightarrow> (string \<times> string) list \<Rightarrow> UserClaims" where
  "infer J now jar =
     (let refresh = map_of jar REFRESH_TOKEN in
      case map_of jar ACCESS_TOKEN of
        None \<Rightarrow> \<lparr>claims_user = Inl (InvalidRequest AccessTokenMissing), claims_refresh = refresh\<rparr>
      | Some t \<Rightarrow> infer_with J now t refresh)"

section \<open>Requests\<close>

record OpenIDClientArgs =
  oauth_config_url :: string
  oauth_client_id :: string
  oauth_client_origin :: "string option"
  oauth_client_secret :: string
  oauth_redirect_url :: string
  oauth_scopes :: string

text \<open>The connection of a server to its cluster, as far as it concerns who asks: of the fields of
  \<^verbatim>\<open>kube\<close>'s type, those that the code reads or writes.\<close>

record AuthInfo =
  auth_token :: "string option"
  auth_username :: "string option"
  auth_certificate :: "string option"

definition auth_default :: AuthInfo where
  "auth_default = \<lparr>auth_token = None, auth_username = None, auth_certificate = None\<rparr>"

record Config =
  cluster_url :: string
  auth_info :: AuthInfo

record HttpRequest =
  http_cookies :: "(string \<times> string) list"
  http_authorization :: "string option"
  app_args :: "OpenIDClientArgs option"
  app_config :: "Config option"

datatype WebError = Unauthorized string | InternalServerError

definition header_to_str :: "string \<Rightarrow> string option" where
  "header_to_str h =
     (if list_all (\<lambda>c. let n = (of_char c :: nat) in n = 9 \<or> 32 \<le> n \<and> n < 127) h then Some h else None)"

definition bearer :: string where
  "bearer = ''Bearer ''"

definition get_token :: "HttpRequest \<Rightarrow> string option" where
  "get_token r =
     (case map_of (http_cookies r) ACCESS_TOKEN of
        Some t \<Rightarrow> Some t
      | None \<Rightarrow>
          (case Option.bind (http_authorization r) header_to_str of
             None \<Rightarrow> None
           | Some h \<Rightarrow> if take (length bearer) h = bearer then Some (drop (length bearer) h) else None))"

definition get_args :: "HttpRequest \<Rightarrow> WebError + OpenIDClientArgs" where
  "get_args r = (case app_args r of None \<Rightarrow> Inl InternalServerError | Some a \<Rightarrow> Inr a)"

definition convert_error :: "OpenIDClientArgs \<Rightarrow> ErrorKind \<Rightarrow> WebError" where
  "convert_error a k = Unauthorized (error_str \<lparr>realm = oauth_client_id a, error_kind = k\<rparr>)"

record UserGuard =
  guard_user :: User
  guard_token :: string

definition guard_opt_with_args :: "jwt_lib \<Rightarrow> int \<Rightarrow> HttpRequest \<Rightarrow> ErrorKind + UserGuard option" where
  "guard_opt_with_args J now r =
     (case get_token r of
        None \<Rightarrow> Inr None
      | Some t \<Rightarrow>
          (case claims_decode J (now div nanos) t of
             Inl e \<Rightarrow> Inl e
           | Inr c \<Rightarrow> Inr (Some \<lparr>guard_user = c, guard_token = t\<rparr>)))"

definition guard_with_args :: "jwt_lib \<Rightarrow> int \<Rightarrow> HttpRequest \<Rightarrow> ErrorKind + UserGuard" where
  "guard_with_args J now r =
     (case guard_opt_with_args J now r of
        Inl e \<Rightarrow> Inl e
      | Inr (Some g) \<Rightarrow> Inr g
      | Inr None \<Rightarrow> Inl (InvalidRequest AccessTokenMissing))"

definition user_guard :: "jwt_lib \<Rightarrow> int \<Rightarrow> HttpRequest \<Rightarrow> WebError + UserGuard" where
  "user_guard J now r =
     (case get_args r of
        Inl e \<Rightarrow> Inl e
      | Inr a \<Rightarrow> (case guard_with_args J now r of Inl k \<Rightarrow> Inl (convert_error a k) | Inr g \<Rightarrow> Inr g))"

definition user_guard_opt :: "jwt_lib \<Rightarrow> int \<Rightarrow> HttpRequest \<Rightarrow> WebError + UserGuard option" where
  "user_guard_opt J now r =
     (case get_args r of
        Inl e \<Rightarrow> Inl e
      | Inr a \<Rightarrow> (case guard_opt_with_args J now r of Inl k \<Rightarrow> Inl (convert_error a k) | Inr g \<Rightarrow> Inr g))"

definition user_of_request :: "jwt_lib \<Rightarrow> int \<Rightarrow> HttpRequest \<Rightarrow> WebError + User" where
  "user_of_request J now r = (case user_guard J now r of Inl e \<Rightarrow> Inl e | Inr g \<Rightarrow> Inr (guard_user g))"

section \<open>Kubernetes clients\<close>

record 'u KubernetesClient =
  kube_client :: Config
  kube_data :: 'u

text \<open>Whether a client can be made of a connection is up to the library.\<close>

definition client_of :: "(Config \<Rightarrow> bool) \<Rightarrow> Config \<Rightarrow> WebError + Config" where
  "client_of valid c = (if valid c then Inr c else Inl InternalServerError)"

definition build_client :: "(Config \<Rightarrow> bool) \<Rightarrow> Config \<Rightarrow> string \<Rightarrow> WebError + Config" where
  "build_client valid c token = client_of valid (c\<lparr>auth_info := auth_default\<lparr>auth_token := Some token\<rparr>\<rparr>)"

definition kube_of_request :: "jwt_lib \<Rightarrow> (Config \<Rightarrow> bool) \<Rightarrow> int \<Rightarrow> HttpRequest \<Rightarrow> WebError + User KubernetesClient" where
  "kube_of_request J valid now r =
     (case user_guard J now r of
        Inl e \<Rightarrow> Inl e
      | Inr g \<Rightarrow>
          (case app_config r of
             None \<Rightarrow> Inl InternalServerError
           | Some c \<Rightarrow>
               (case build_client valid c (guard_token g) of
                  Inl e \<Rightarrow> Inl e
                | Inr k \<Rightarrow> Inr \<lparr>kube_client = k, kube_data = guard_user g\<rparr>)))"

definition kube_of_request_opt ::
  "jwt_lib \<Rightarrow> (Config \<Rightarrow> bool) \<Rightarrow> int \<Rightarrow> HttpRequest \<Rightarrow> WebError + User option KubernetesClient" where
  "kube_of_request_opt J valid now r =
     (case user_guard_opt J now r of
        Inl e \<Rightarrow> Inl e
      | Inr og \<Rightarrow>
          (case app_config r of
             None \<Rightarrow> Inl InternalServerError
           | Some c \<Rightarrow>
               (case og of
                  Some g \<Rightarrow>
                    (case build_client valid c (guard_token g) of
                       Inl e \<Rightarrow> Inl e
                     | Inr k \<Rightarrow> Inr \<lparr>kube_client = k, kube_data = Some (guard_user g)\<rparr>)
                | None \<Rightarrow>
                    (case client_of valid c of
                       Inl e \<Rightarrow> Inl e
                     | Inr k \<Rightarrow> Inr \<lparr>kube_client = k, kube_data = None\<rparr>))))"

section \<open>The identity provider\<close>

record OpenIDConfiguration =
  authorization_endpoint :: string
  token_endpoint :: string

record OpenIDClientToken =
  access_token :: string
  token_type :: string
  expires_in :: u32
  id_token :: "string option"
  refresh_token :: "string option"

text \<open>The texts that the provider answers are read by a library.\<close>

record provider_texts =
  read_args :: "string \<Rightarrow> string + OpenIDClientArgs"
  read_configs :: "string \<Rightarrow> string + OpenIDConfiguration"
  read_token :: "string \<Rightarrow> string + OpenIDClientToken"

definition get_auth_args :: "http_api \<Rightarrow> provider_texts \<Rightarrow> (string \<Rightarrow> string + string) \<Rightarrow> OpenIDClientArgs http" where
  "get_auth_args H T join_base =
     tryE (lift_result (join_base ''/oauth/oidc'')) (\<lambda>url. request_with_payload H (read_args T) GET url Empty)"

definition get_auth_configs :: "http_api \<Rightarrow> provider_texts \<Rightarrow> OpenIDClientArgs \<Rightarrow> OpenIDConfiguration http" where
  "get_auth_configs H T a = request_with_payload H (read_configs T) GET (oauth_config_url a) Empty"

definition get_auth_token ::
  "http_api \<Rightarrow> provider_texts \<Rightarrow> OpenIDClientArgs \<Rightarrow> OpenIDConfiguration \<Rightarrow> string \<Rightarrow> OpenIDClientToken http" where
  "get_auth_token H T a c code = request_with_payload H (read_token T) POST (token_endpoint c)
     (Form [(''client_id'', oauth_client_id a), (''client_secret'', oauth_client_secret a),
       (''grant_type'', ''authorization_code''), (''redirect_uri'', oauth_redirect_url a), (''code'', code)])"

definition exchange_token :: "http_api \<Rightarrow> provider_texts \<Rightarrow> OpenIDClientArgs \<Rightarrow> string \<Rightarrow> OpenIDClientToken option http" where
  "exchange_token H T a code =
     matchE (get_auth_configs H T a) (\<lambda>_. ret None) (\<lambda>c.
     matchE (get_auth_token H T a c code) (\<lambda>_. ret None) (\<lambda>t. ret (Some t)))"

text \<open>What goes to the provider and comes back.\<close>

record State =
  state_nonce :: "u8 list"
  state_redirect_url :: string

record state_codec =
  b64_encode :: "string \<Rightarrow> string"
  b64_decode :: "string \<Rightarrow> string + string"
  state_to_json :: "State \<Rightarrow> string + string"
  state_of_json :: "string \<Rightarrow> string + State"

definition state_parse :: "state_codec \<Rightarrow> string \<Rightarrow> string + State" where
  "state_parse C s = (case b64_decode C s of Inl e \<Rightarrow> Inl e | Inr v \<Rightarrow> state_of_json C v)"

definition state_str :: "state_codec \<Rightarrow> State \<Rightarrow> string + string" where
  "state_str C x = (case state_to_json C x of Inl e \<Rightarrow> Inl e | Inr v \<Rightarrow> Inr (b64_encode C v))"

record Cookie =
  cookie_name :: string
  cookie_value :: string
  http_only :: bool
  max_age :: int
  cookie_path :: string
  secure :: bool
  cookie_domain :: "string option"

record HttpResponse =
  status :: nat
  location :: "string option"
  set_cookies :: "Cookie list"

definition token_cookie :: "string \<Rightarrow> string \<Rightarrow> u32 \<Rightarrow> string option \<Rightarrow> Cookie" where
  "token_cookie name v n host = \<lparr>cookie_name = name, cookie_value = v, http_only = False, max_age = uint n,
     cookie_path = ''/'', secure = True, cookie_domain = host\<rparr>"

text \<open>The origin and the secret are left out when the arguments are written.\<close>

definition get_oidc :: "OpenIDClientArgs \<Rightarrow> nat \<times> OpenIDClientArgs" where
  "get_oidc a = (200, a\<lparr>oauth_client_origin := None, oauth_client_secret := []\<rparr>)"

definition callback ::
  "http_api \<Rightarrow> provider_texts \<Rightarrow> (string \<Rightarrow> string option) \<Rightarrow> OpenIDClientArgs \<Rightarrow> string \<Rightarrow> State \<Rightarrow> HttpResponse http" where
  "callback H T host a code st =
     tryE (exchange_token H T a code) (\<lambda>ot.
     case ot of
       None \<Rightarrow> ret \<lparr>status = 500, location = None, set_cookies = []\<rparr>
     | Some t \<Rightarrow>
         let url = state_redirect_url st; domain = host url in
         ret \<lparr>status = 302, location = Some url,
           set_cookies = token_cookie ACCESS_TOKEN (access_token t) (expires_in t) domain
             # (case refresh_token t of None \<Rightarrow> [] | Some r \<Rightarrow> [token_cookie REFRESH_TOKEN r (expires_in t) domain])\<rparr>)"

section \<open>Who is let in\<close>

text \<open>What the library documents of a decoded token: a disabled check of the signature leaves the last part
  of the token out of the answer; an expired token is refused, up to the leeway.\<close>

definition unsigned_tokens :: "jwt_lib \<Rightarrow> bool" where
  "unsigned_tokens J \<longleftrightarrow> (\<forall>V now h sig sig'. \<not> validate_signature V \<longrightarrow> CHR ''.'' \<notin> set sig \<longrightarrow> CHR ''.'' \<notin> set sig' \<longrightarrow>
     J V now (h @ ''.'' @ sig) = J V now (h @ ''.'' @ sig'))"

definition expiry_checked :: "jwt_lib \<Rightarrow> bool" where
  "expiry_checked J \<longleftrightarrow> (\<forall>V now t c. validate_exp V \<longrightarrow> J V now t = Inr c \<longrightarrow> now - leeway V \<le> claim_exp c)"

lemma token_validation_sel [simp]:
  "\<not> validate_signature token_validation" "validate_exp token_validation" "leeway token_validation = 60"
  by (simp_all add: token_validation_def validation_default_def)

text \<open>A server lets in whoever writes a token: the signature is not looked at, so that a request whose
  bearer token keeps its header and claims and ends in any other signature gets the same user, and a
  Kubernetes client that differs in the token alone.\<close>

theorem forged_token_is_accepted:
  assumes "unsigned_tokens J" and "http_cookies r = []" and "app_args r = Some a"
    and "http_authorization r = Some (''Bearer '' @ h @ ''.'' @ sig)" and "CHR ''.'' \<notin> set sig"
    and "user_guard J now r = Inr g"
    and "CHR ''.'' \<notin> set sig'" and "header_to_str sig' = Some sig'"
  shows "user_guard J now (r\<lparr>http_authorization := Some (''Bearer '' @ h @ ''.'' @ sig')\<rparr>)
    = Inr (g\<lparr>guard_token := h @ ''.'' @ sig'\<rparr>)"
proof -
  have ascii: "header_to_str (''Bearer '' @ h @ ''.'' @ sig) \<noteq> None"
  proof
    assume "header_to_str (''Bearer '' @ h @ ''.'' @ sig) = None"
    then have "get_token r = None"
      using assms(2,4) by (simp add: get_token_def)
    then show False
      using assms(3,6) by (simp add: user_guard_def get_args_def guard_with_args_def guard_opt_with_args_def)
  qed
  then have token: "get_token r = Some (h @ ''.'' @ sig)"
    using assms(2,4) by (auto simp: get_token_def header_to_str_def bearer_def split: if_splits)
  have "header_to_str (''Bearer '' @ h @ ''.'' @ sig') \<noteq> None"
    using ascii assms(8) by (auto simp: header_to_str_def split: if_splits)
  then have token': "get_token (r\<lparr>http_authorization := Some (''Bearer '' @ h @ ''.'' @ sig')\<rparr>) = Some (h @ ''.'' @ sig')"
    using assms(2) by (auto simp: get_token_def header_to_str_def bearer_def split: if_splits)
  have "J token_validation t (h @ ''.'' @ sig') = J token_validation t (h @ ''.'' @ sig)" for t
    using assms(1,5,7) token_validation_sel(1) unfolding unsigned_tokens_def by blast
  then have "claims_decode J t (h @ ''.'' @ sig') = claims_decode J t (h @ ''.'' @ sig)" for t
    by (simp add: claims_decode_def)
  then show ?thesis
    using assms(3,6) token token'
    by (auto simp: user_guard_def get_args_def guard_with_args_def guard_opt_with_args_def split: sum.splits)
qed

text \<open>C25.
  The browser only trusts tokens that have expired: the check of the expiry is the wrong way round, so
  that a user is inferred from a token only within the minute after its expiry that the library grants, and
  from no token that is still valid.\<close>

theorem only_expired_tokens_are_trusted:
  assumes "expiry_checked J" and "claims_user (infer_with J now token refresh) = Inr u"
  shows "claim_exp u * nanos < now \<and> now div nanos - 60 \<le> claim_exp u"
proof -
  have c: "J token_validation (now div nanos) token = Inr u" "\<not> is_expired now u"
    using assms(2) by (auto simp: infer_with_def claims_decode_def split: sum.splits if_splits jwt_error.splits)
  have "validate_exp token_validation"
    by simp
  with assms(1) c(1) have "now div nanos - leeway token_validation \<le> claim_exp u"
    unfolding expiry_checked_def by blast
  with c(2) show ?thesis
    by (simp add: is_expired_def expired_at_def split: if_splits)
qed

text \<open>C24.
  Whose rights a request uses: a request with a user talks to the cluster with the token of the user and with no
  other credential of the server, while one without a token, where that is allowed, talks
  with all the rights of the server.\<close>

theorem rights_of_a_request:
  assumes "kube_of_request_opt J valid now r = Inr k" and "app_config r = Some c"
  shows "(case kube_data k of
      Some u \<Rightarrow> get_token r = auth_token (auth_info (kube_client k)) \<and> get_token r \<noteq> None
        \<and> auth_username (auth_info (kube_client k)) = None \<and> auth_certificate (auth_info (kube_client k)) = None
        \<and> cluster_url (kube_client k) = cluster_url c
    | None \<Rightarrow> get_token r = None \<and> kube_client k = c)"
  using assms
  by (auto simp: kube_of_request_opt_def user_guard_opt_def guard_opt_with_args_def build_client_def client_of_def
      auth_default_def split: sum.splits option.splits if_splits)

section \<open>The error is read back\<close>

definition plain_char :: "char \<Rightarrow> bool" where
  "plain_char c \<longleftrightarrow> c \<noteq> CHR ''\"'' \<and> c \<noteq> CHR 0x5C \<and> 32 \<le> (of_char c :: nat) \<and> (of_char c :: nat) \<noteq> 127"

lemma debug_plain: "list_all plain_char s \<Longrightarrow> concat (map debug_char s) = s"
  by (induction s) (auto simp: debug_char_def plain_char_def Let_def)

lemma literal_append [simp]: "literal a (a @ s) = Some s"
  by (induction a) auto

lemma quoted_append:
  assumes "a \<noteq> []" and "CHR ''\"'' \<notin> set a"
  shows "quoted (a @ CHR ''\"'' # s) = Some (a, s)"
proof -
  have "takeWhile (\<lambda>c. c \<noteq> CHR ''\"'') (a @ CHR ''\"'' # s) = a"
    "dropWhile (\<lambda>c. c \<noteq> CHR ''\"'') (a @ CHR ''\"'' # s) = CHR ''\"'' # s"
    using assms(2) by (auto simp: takeWhile_append dropWhile_append)
  with assms(1) show ?thesis
    by (simp add: quoted_def Let_def)
qed

lemma spaces_before:
  "spaces ('' '' @ ''Bearer'' @ s) = Some (''Bearer'' @ s)"
  "spaces1 ('' '' @ ''realm=\"'' @ s) = Some (''realm=\"'' @ s)"
  "spaces ('' '' @ ''error=\"'' @ s) = Some (''error=\"'' @ s)"
  "spaces ('' '' @ ''error_description=\"'' @ s) = Some (''error_description=\"'' @ s)"
  by (simp_all add: spaces_def spaces1_def is_space_def)

lemma captures_error:
  assumes a: "a \<noteq> []" "CHR ''\"'' \<notin> set a" and b: "b \<noteq> []" "CHR ''\"'' \<notin> set b" and c: "c \<noteq> []" "CHR ''\"'' \<notin> set c"
  shows "captures (''WWW-Authenticate:'' @ '' '' @ ''Bearer'' @ '' '' @ ''realm=\"'' @ a @ CHR ''\"'' # '','' @ '' ''
    @ ''error=\"'' @ b @ CHR ''\"'' # '','' @ '' '' @ ''error_description=\"'' @ c @ CHR ''\"'' # []) = Some (a, b, c)"
  unfolding captures_def
  by (simp only: literal_append bind.simps spaces_before quoted_append [OF a] quoted_append [OF b] quoted_append [OF c]
      prod.case if_True simp_thms)

text \<open>A client reads back the error that the server wrote: for a realm that is not empty and has no
  character that the debug format escapes, the parser returns the realm and the kind of the error.\<close>

theorem error_round_trip:
  assumes "list_all plain_char (realm e)" and "realm e \<noteq> []"
  shows "error_parse (error_str e) = Inr e"
proof -
  have realm: "CHR ''\"'' \<notin> set (realm e)"
    using assms(1) by (auto simp: list_all_iff plain_char_def)
  have "captures (error_str e) = Some (realm e,
      case error_kind e of
        InvalidRequest k \<Rightarrow> (''invalid_request'', invalid_request_str k)
      | InvalidToken k \<Rightarrow> (''invalid_token'', invalid_token_str k))"
  proof (cases "error_kind e")
    case (InvalidRequest k)
    then show ?thesis
      using captures_error [OF assms(2) realm, of "''invalid_request''" "invalid_request_str k"]
      by (cases k) (simp add: error_str_def debug_str_def debug_plain [OF assms(1)] kind_str_def invalid_request_str_def)
  next
    case (InvalidToken k)
    then show ?thesis
      using captures_error [OF assms(2) realm, of "''invalid_token''" "invalid_token_str k"]
      by (cases k) (simp_all add: error_str_def debug_str_def debug_plain [OF assms(1)] kind_str_def invalid_token_str_def)
  qed
  then show ?thesis
    by (cases e; cases "error_kind e"; cases "case error_kind e of InvalidRequest x \<Rightarrow> MalformedJwtToken | InvalidToken y \<Rightarrow> y")
      (auto simp: error_parse_def invalid_request_parse_def invalid_request_str_def invalid_token_parse_def
        invalid_token_str_def split: ErrorKind.splits ErrorInvalidRequest.splits ErrorInvalidToken.splits)
qed

section \<open>The callback\<close>

lemma wp_exchange:
  "wp (exchange_token H T a code) (\<lambda>r l. \<exists>t cs. r = Inr t \<and> l = l0 @ cs \<and> length cs \<le> 2
     \<and> list_all (\<lambda>q. req_url q = oauth_config_url a \<or> req_method q = POST) cs) l0"
  by (auto simp: exchange_token_def get_auth_configs_def get_auth_token_def request_with_payload_def eff_simps
      split: sum.split)

text \<open>The callback sends the browser wherever the state says: when the provider gives tokens, the
  answer redirects to the address in the state, whatever it is, with the tokens in cookies for the
  host of that address; the nonce of the state plays no part; when the provider does not, the answer is an error
  without a cookie.\<close>

theorem callback_redirects_anywhere:
  assumes "result_of (callback H T host a code st) = Inr r"
  shows "(status r = 500 \<and> set_cookies r = [] \<and> location r = None
      \<or> status r = 302 \<and> location r = Some (state_redirect_url st)
        \<and> list_all (\<lambda>c. cookie_domain c = host (state_redirect_url st) \<and> secure c \<and> \<not> http_only c) (set_cookies r))
    \<and> callback H T host a code (st\<lparr>state_nonce := nonce\<rparr>) = callback H T host a code st"
proof -
  have "wp (callback H T host a code st) (\<lambda>x l. \<forall>r. x = Inr r \<longrightarrow>
      status r = 500 \<and> set_cookies r = [] \<and> location r = None
      \<or> status r = 302 \<and> location r = Some (state_redirect_url st)
        \<and> list_all (\<lambda>c. cookie_domain c = host (state_redirect_url st) \<and> secure c \<and> \<not> http_only c) (set_cookies r)) []"
    unfolding callback_def
    by (rule wp_tryE_seq [OF wp_exchange])
      (auto simp: eff_simps Let_def token_cookie_def split: option.split)
  moreover have "callback H T host a code (st\<lparr>state_nonce := nonce\<rparr>) = callback H T host a code st"
    by (simp add: callback_def cong: option.case_cong)
  ultimately show ?thesis
    using assms unfolding wp_result by simp
qed

section \<open>An example\<close>

definition example_claims :: JsonWebTokenClaims where
  "example_claims = \<lparr>claim_exp = 1000, claim_iat = 400, claim_name = ''Alice'', claim_groups = [],
     preferred_username = ''alice'', claim_email = ''alice@example.com''\<rparr>"

definition example_jwt :: jwt_lib where
  "example_jwt V now t = (if validate_exp V \<and> claim_exp example_claims < now - leeway V then Inl ExpiredSignature else Inr example_claims)"

definition example_args :: OpenIDClientArgs where
  "example_args = \<lparr>oauth_config_url = ''https://id.example/config'', oauth_client_id = ''vine'', oauth_client_origin = None,
     oauth_client_secret = ''s'', oauth_redirect_url = ''https://vine.example/oauth/oidc/callback'', oauth_scopes = ''openid''\<rparr>"

definition example_config :: Config where
  "example_config = \<lparr>cluster_url = ''https://cluster'', auth_info = auth_default\<lparr>auth_token := Some ''server''\<rparr>\<rparr>"

definition example_request :: HttpRequest where
  "example_request = \<lparr>http_cookies = [], http_authorization = Some ''Bearer h.c.sig'', app_args = Some example_args,
     app_config = Some example_config\<rparr>"

lemma example_jwt_documented: "unsigned_tokens example_jwt" "expiry_checked example_jwt"
  by (auto simp: unsigned_tokens_def expiry_checked_def example_jwt_def split: if_splits)

theorem forged_token_is_accepted_witness:
  "user_guard example_jwt 500000000000 (example_request\<lparr>http_authorization := Some (''Bearer '' @ ''h.c'' @ ''.'' @ ''forged'')\<rparr>)
    = Inr \<lparr>guard_user = example_claims, guard_token = ''h.c.forged''\<rparr>"
proof -
  have guard: "user_guard example_jwt 500000000000 example_request = Inr \<lparr>guard_user = example_claims, guard_token = ''h.c.sig''\<rparr>"
    by code_simp
  have fields: "http_cookies example_request = []" "app_args example_request = Some example_args"
    "http_authorization example_request = Some (''Bearer '' @ ''h.c'' @ ''.'' @ ''sig'')" "header_to_str ''forged'' = Some ''forged''"
    by (simp_all add: example_request_def header_to_str_def)
  show ?thesis
    using forged_token_is_accepted [OF example_jwt_documented(1) fields(1,2,3) _ guard _ fields(4)] by simp
qed

theorem only_expired_tokens_are_trusted_witness:
  "claims_user (infer_with example_jwt 1030000000000 ''h.c.sig'' None) = Inr example_claims
   \<and> claim_exp example_claims * nanos < 1030000000000 \<and> isl (claims_user (infer_with example_jwt 900000000000 ''h.c.sig'' None))"
proof -
  have trusted: "claims_user (infer_with example_jwt 1030000000000 ''h.c.sig'' None) = Inr example_claims"
    "isl (claims_user (infer_with example_jwt 900000000000 ''h.c.sig'' None))"
    by code_simp+
  with only_expired_tokens_are_trusted [OF example_jwt_documented(2) trusted(1)] show ?thesis
    by simp
qed

theorem rights_of_a_request_witness:
  "\<exists>k. kube_of_request_opt example_jwt (\<lambda>_. True) 500000000000 (example_request\<lparr>http_authorization := None\<rparr>) = Inr k
     \<and> auth_token (auth_info (kube_client k)) = Some ''server''"
proof -
  let ?r = "example_request\<lparr>http_authorization := None\<rparr>"
  have "kube_of_request_opt example_jwt (\<lambda>_. True) 500000000000 ?r = Inr \<lparr>kube_client = example_config, kube_data = None\<rparr>"
    by code_simp
  moreover have "app_config ?r = Some example_config"
    by (simp add: example_request_def)
  ultimately show ?thesis
    using rights_of_a_request [of example_jwt "\<lambda>_. True" 500000000000 ?r] by (auto simp: example_config_def)
qed

theorem error_round_trip_witness:
  "error_parse (error_str \<lparr>realm = ''vine'', error_kind = InvalidToken MalformedJwtToken\<rparr>)
     = Inr \<lparr>realm = ''vine'', error_kind = InvalidToken MalformedJwtToken\<rparr>"
  by (rule error_round_trip) (simp_all add: plain_char_def)

definition example_provider :: http_api where
  "example_provider = \<lparr>ans_http = (\<lambda>l q. Inr \<lparr>res_status = 200, res_text = Some (req_url q)\<rparr>), status_str = (\<lambda>_. [])\<rparr>"

definition example_texts :: provider_texts where
  "example_texts = \<lparr>read_args = (\<lambda>_. Inr example_args),
     read_configs = (\<lambda>_. Inr \<lparr>authorization_endpoint = ''https://id.example/auth'', token_endpoint = ''https://id.example/token''\<rparr>),
     read_token = (\<lambda>_. Inr \<lparr>access_token = ''h.c.sig'', token_type = ''Bearer'', expires_in = 300, id_token = None, refresh_token = None\<rparr>)\<rparr>"

theorem callback_redirects_anywhere_witness:
  "\<exists>r. result_of (callback example_provider example_texts (\<lambda>_. Some ''evil.example'') example_args ''code''
       \<lparr>state_nonce = [], state_redirect_url = ''https://evil.example/''\<rparr>) = Inr r
     \<and> location r = Some ''https://evil.example/''"
proof -
  let ?c = "callback example_provider example_texts (\<lambda>_. Some ''evil.example'') example_args ''code''
       \<lparr>state_nonce = [], state_redirect_url = ''https://evil.example/''\<rparr>"
  have "(case result_of ?c of Inl _ \<Rightarrow> False | Inr r \<Rightarrow> status r = 302)"
    by code_simp
  then obtain r where r: "result_of ?c = Inr r" "status r = 302"
    by (auto split: sum.splits)
  with callback_redirects_anywhere [OF r(1), of "[]"] show ?thesis
    by auto
qed

end
