(* ===== verification/Vine_Backend.thy ===== *)
theory Vine_Backend
  imports Vine_Profile Vine_Oauth
begin

text \<open>
  The backend of VINE sessions (\<^verbatim>\<open>crates/openark-vine-session-backend/src\<close> and
  \<^verbatim>\<open>crates/openark-vine-session-exec/src/lib.rs\<close>, with the data of
  \<^verbatim>\<open>session.rs\<close>, \<^verbatim>\<open>command.rs\<close> and \<^verbatim>\<open>exec.rs\<close> of
  \<^verbatim>\<open>crates/openark-vine-session-api/src\<close>): the list views of sessions and commands, and the
  execution of a command in the sessions of a user.  The reading of chart values, of addresses and of
  quantities is a parameter, and so are the answers of the cluster.
\<close>

section \<open>Views of sessions\<close>

record SessionRegion =
  region_name :: string
  region_title :: "string option"

record SessionUser =
  session_user_name :: string

definition session_user_default :: SessionUser where
  "session_user_default = \<lparr>session_user_name = ''Guest''\<rparr>"

record SessionResourceAnnotations =
  annotation_gpu :: "string option"

record SessionResourceLabels =
  label_cpu :: "Quantity option"
  label_gpu :: "Quantity option"
  label_ram :: "Quantity option"
  label_storage :: "Quantity option"

record SessionLinks =
  link_notebook :: "string option"
  link_rdp :: "string option"
  link_vnc :: "string option"

datatype SessionStatusLevel = Trace | Debug | Info | Warn | Error

datatype SessionState = Unknown | Pending | Running

record SessionStatus =
  status_level :: "SessionStatusLevel option"
  status_state :: "SessionState option"

record Session =
  s_name :: string
  s_region :: SessionRegion
  s_node :: OwnedNodeSpec
  s_user :: SessionUser
  s_groups :: "string list"
  s_snapshot :: "string option"
  s_created_at :: "timestamp option"
  s_started_at :: "timestamp option"
  s_completed_at :: "timestamp option"
  s_annotations :: SessionResourceAnnotations
  s_labels :: SessionResourceLabels
  s_links :: SessionLinks
  s_status :: SessionStatus
  s_events :: "unit list"

section \<open>Commands\<close>

record SessionCommandFeaturesSpec =
  feature_linux :: bool
  feature_windows :: bool

record SessionCommandSpec =
  command_enabled :: "bool option"
  command_line :: "string list"
  command_features :: SessionCommandFeaturesSpec
  command_node_selector :: "labels option"

record SessionCommandCrd =
  command_meta :: ObjectMeta
  command_spec :: SessionCommandSpec

record SessionCommandView =
  view_alias :: "string option"
  view_name :: string
  view_spec :: SessionCommandSpec

record ExecArgs =
  exec_command :: "string list"
  exec_label_selector :: "string option"
  exec_namespace :: "string option"
  exec_terminal :: bool
  exec_wait :: bool

section \<open>Calls of the cluster\<close>

record HelmSource =
  values_object :: "string option"

record AppSource =
  source_helm :: "HelmSource option"

record AppStatus =
  operation_finished_at :: "string option option"
  health_status :: "string option option"

record Application =
  app_meta :: ObjectMeta
  app_sources :: "AppSource list option"
  destination_name :: "string option"
  app_status :: "AppStatus option"

record ContainerStatus =
  container_name :: string
  container_ready :: bool

record Pod =
  pod_meta :: ObjectMeta
  container_statuses :: "ContainerStatus list option option"

record AttachParams =
  attach_container :: "string option"
  attach_stdin :: bool
  attach_stdout :: bool
  attach_stderr :: bool
  attach_tty :: bool

datatype backend_call =
  ListApplications string
| ListCommands string
| ListPods "string option" "string option"
| ExecPod string "string list" AttachParams
| JoinProcess string
| SleepSecond

record backend_api =
  ans_applications :: "backend_call list \<Rightarrow> backend_call \<Rightarrow> string + Application list"
  ans_commands :: "backend_call list \<Rightarrow> backend_call \<Rightarrow> string + SessionCommandCrd list"
  ans_pods :: "backend_call list \<Rightarrow> backend_call \<Rightarrow> string + Pod list"
  ans_exec :: "backend_call list \<Rightarrow> backend_call \<Rightarrow> string + unit"

type_synonym 'a backend = "(backend_call, string, 'a) eff"

section \<open>The selector\<close>

record LabelArgs =
  label_bind :: string
  label_bind_user :: string

definition build_label_selector :: "LabelArgs \<Rightarrow> string option \<Rightarrow> User \<Rightarrow> string" where
  "build_label_selector L sel u =
     label_bind L @ ''==true, '' @ label_bind_user L @ '' in (, '' @ username u @ '')''
     @ (case sel of Some s \<Rightarrow> s | None \<Rightarrow> [])"

section \<open>Quantities\<close>

text \<open>Quantities as the library reads, adds and writes them.\<close>

record 'q quantity_lib =
  quantity_parse :: "Quantity \<Rightarrow> 'q option"
  quantity_str :: "'q \<Rightarrow> Quantity"
  quantity_zero :: 'q
  quantity_add :: "'q \<Rightarrow> 'q \<Rightarrow> 'q"

definition convert_quantity :: "'q quantity_lib \<Rightarrow> Quantity \<Rightarrow> Quantity option" where
  "convert_quantity Q q = map_option (quantity_str Q) (quantity_parse Q q)"

definition sum_quantity :: "'q quantity_lib \<Rightarrow> Quantity list \<Rightarrow> Quantity option" where
  "sum_quantity Q qs =
     (case List.map_filter (quantity_parse Q) qs of
        [] \<Rightarrow> None
      | ps \<Rightarrow> Some (quantity_str Q (foldl (quantity_add Q) (quantity_zero Q) ps)))"

section \<open>The list of sessions\<close>

record view_texts =
  read_profile :: "string \<Rightarrow> OwnedSessionProfileSpec option"
  read_time :: "string \<Rightarrow> timestamp option"
  read_url :: "string \<Rightarrow> string option"

definition GPU_PREFIX :: string where
  "GPU_PREFIX = ''nvidia.com/''"

definition app_values :: "Application \<Rightarrow> string option" where
  "app_values app =
     (case app_sources app of
        Some (s # _) \<Rightarrow> Option.bind (source_helm s) values_object
      | _ \<Rightarrow> None)"

definition gpu_title :: "string \<Rightarrow> string" where
  "gpu_title res = (if res = ''gpu'' then ''Generic NVIDIA GPU'' else res)"

definition gpu_keys :: "(string \<times> Quantity) list option \<Rightarrow> string list" where
  "gpu_keys limits = (case limits of None \<Rightarrow> []
     | Some ls \<Rightarrow> filter (\<lambda>k. take (length GPU_PREFIX) k = GPU_PREFIX) (map fst ls))"

definition enabled_service :: "ServiceSwitch option \<Rightarrow> bool" where
  "enabled_service s = (case Option.bind s service_enabled of Some b \<Rightarrow> b | None \<Rightarrow> False)"

definition session_host :: "string \<Rightarrow> OwnedSessionProfileSpec \<Rightarrow> string" where
  "session_host service p = service @ ''.'' @ node_name (owned_node p) @ ''.node.sessions.'' @ ingress_domain (owned_ingress p)"

definition session_links :: "view_texts \<Rightarrow> string option \<Rightarrow> OwnedSessionProfileSpec \<Rightarrow> SessionLinks" where
  "session_links T base p =
     \<lparr>link_notebook = (if owned_mode p = Notebook then read_url T (''https://'' @ session_host ''notebook'' p) else None),
      link_rdp = (if enabled_service (rdp (owned_services p)) then read_url T (''https://'' @ session_host ''rdp'' p) else None),
      link_vnc = (if enabled_service (novnc (owned_services p)) then
          (case base of
             Some b \<Rightarrow> Some (b @ ''/bindings/vnc/vnc.html?autoconnect=true&host='' @ session_host ''vnc'' p
               @ ''&port=443&reconnect=true&resize=scale&shared=true'')
           | None \<Rightarrow> read_url T (''https://'' @ session_host ''vnc'' p
               @ ''/vnc.html?autoconnect=true&reconnect=true&resize=scale&shared=true''))
        else None)\<rparr>"

definition session_status :: "Application \<Rightarrow> SessionStatus" where
  "session_status app =
     (case Option.bind (Option.bind (app_status app) health_status) id of
        Some s \<Rightarrow> if s = ''Healthy'' then \<lparr>status_level = Some Info, status_state = Some Running\<rparr>
          else \<lparr>status_level = Some Error, status_state = Some Unknown\<rparr>
      | None \<Rightarrow> \<lparr>status_level = Some Info, status_state = Some Pending\<rparr>)"

definition windows_logo :: string where
  "windows_logo = ''https://upload.wikimedia.org/wikipedia/commons/8/87/Windows_logo_-_2021.svg''"

definition ubuntu_logo :: string where
  "ubuntu_logo = ''https://upload.wikimedia.org/wikipedia/commons/9/9e/UbuntuCoF.svg''"

definition resource_labels :: "'q quantity_lib \<Rightarrow> OwnedSessionProfileSpec \<Rightarrow> SessionResourceLabels" where
  "resource_labels Q p =
     (let limits = Option.bind (session_resources (owned_session p)) res_limits in
      \<lparr>label_cpu = Option.bind (Option.bind limits (\<lambda>l. bt_get l ''cpu'')) (convert_quantity Q),
       label_gpu = Option.bind limits (\<lambda>l. sum_quantity Q (List.map_filter (bt_get l) (gpu_keys limits))),
       label_ram = Option.bind (Option.bind limits (\<lambda>l. bt_get l ''memory'')) (convert_quantity Q),
       label_storage = Option.bind (Option.bind (Option.bind (vol_local (owned_volumes p)) claim_capacity)
         (\<lambda>l. bt_get l ''storage'')) (convert_quantity Q)\<rparr>)"

text \<open>An application is a session if its first source has values of a session, and its cluster and
  its time of creation are known.\<close>

definition convert_session :: "'q quantity_lib \<Rightarrow> view_texts \<Rightarrow> string option \<Rightarrow> Application \<Rightarrow> Session option" where
  "convert_session Q T base app =
     (case Option.bind (app_values app) (read_profile T) of
        None \<Rightarrow> None
      | Some p \<Rightarrow>
          let gpus = gpu_keys (Option.bind (session_resources (owned_session p)) res_limits) in
          (case (destination_name app, meta_creation (app_meta app)) of
             (Some cluster, Some created) \<Rightarrow>
               Some \<lparr>s_name = name_any (app_meta app),
                 s_region = \<lparr>region_name = cluster, region_title = Some cluster\<rparr>,
                 s_node = owned_node p,
                 s_user = (case user_name (owned_binding (owned_user_spec p)) of
                     Some n \<Rightarrow> \<lparr>session_user_name = n\<rparr> | None \<Rightarrow> session_user_default),
                 s_groups = [],
                 s_snapshot = (if owned_vm_enabled (owned_feature_set p)
                     \<and> (case vm_enabled (owned_vm_data (owned_vm p)) of Some b \<Rightarrow> b | None \<Rightarrow> False)
                   then read_url T windows_logo else read_url T ubuntu_logo),
                 s_created_at = Some created,
                 s_started_at = Option.bind (Option.bind (Option.bind (app_status app) operation_finished_at) id) (read_time T),
                 s_completed_at = None,
                 s_annotations = \<lparr>annotation_gpu = (if gpus = [] then None
                   else Some (join '', '' (map (\<lambda>k. gpu_title (drop (length GPU_PREFIX) k)) gpus)))\<rparr>,
                 s_labels = resource_labels Q p,
                 s_links = session_links T base p,
                 s_status = session_status app,
                 s_events = []\<rparr>
           | _ \<Rightarrow> None))"

definition session_order :: "Session \<Rightarrow> string \<times> string option \<times> string" where
  "session_order s = (session_user_name (s_user s), node_alias (s_node s), node_name (s_node s))"

definition list_sessions ::
  "backend_api \<Rightarrow> 'q quantity_lib \<Rightarrow> view_texts \<Rightarrow> LabelArgs \<Rightarrow> string option \<Rightarrow> User \<Rightarrow> (nat \<times> Session list option) backend" where
  "list_sessions B Q T L base u =
     matchE (call (ans_applications B) (ListApplications (build_label_selector L None u)))
       (\<lambda>_. ret (500, None))
       (\<lambda>apps. ret (200, Some (sort_key session_order (List.map_filter (convert_session Q T base) apps))))"

definition convert_command :: "SessionCommandCrd \<Rightarrow> SessionCommandView" where
  "convert_command c = \<lparr>view_alias = None, view_name = name_any (command_meta c), view_spec = command_spec c\<rparr>"

definition list_commands :: "backend_api \<Rightarrow> LabelArgs \<Rightarrow> User \<Rightarrow> (nat \<times> SessionCommandView list option) backend" where
  "list_commands B L u =
     matchE (call (ans_commands B) (ListCommands (build_label_selector L None u)))
       (\<lambda>_. ret (500, None))
       (\<lambda>cs. ret (200, Some (sort_key (\<lambda>v. (view_alias v, view_name v)) (map convert_command cs))))"

section \<open>Execution\<close>

definition exec_container :: string where
  "exec_container = ''desktop''"

definition wrap_command :: "ExecArgs \<Rightarrow> string list" where
  "wrap_command a = (if exec_terminal a then [''xfce4-terminal'', ''--execute''] @ exec_command a else exec_command a)"

definition attach_params :: "bool \<Rightarrow> AttachParams" where
  "attach_params w = \<lparr>attach_container = Some exec_container, attach_stdin = False, attach_stdout = True,
     attach_stderr = (\<not> w), attach_tty = w\<rparr>"

definition is_ready :: "Pod \<Rightarrow> bool" where
  "is_ready p =
     (case Option.bind (Option.bind (container_statuses p) id) (find (\<lambda>c. container_name c = exec_container)) of
        Some c \<Rightarrow> container_ready c | None \<Rightarrow> False)"

text \<open>Processes that could be started, in the order of the pods; a failure leaves its pod out.\<close>

fun exec_pods :: "backend_api \<Rightarrow> string list \<Rightarrow> AttachParams \<Rightarrow> Pod list \<Rightarrow> string list backend" where
  "exec_pods B cmd ap [] = ret []"
| "exec_pods B cmd ap (p # ps) =
     (let name = name_any (pod_meta p) in
      matchE (call (ans_exec B) (ExecPod name cmd ap))
        (\<lambda>_. exec_pods B cmd ap ps)
        (\<lambda>_. tryE (exec_pods B cmd ap ps) (\<lambda>names. ret (name # names))))"

record ExecSession =
  session_processes :: "string list"
  session_wait :: bool

definition exec_session :: "backend_api \<Rightarrow> ExecArgs \<Rightarrow> ExecSession backend" where
  "exec_session B a =
     tryE (call (ans_pods B) (ListPods (exec_namespace a) (exec_label_selector a))) (\<lambda>pods.
     tryE (exec_pods B (wrap_command a) (attach_params (exec_wait a)) (filter is_ready pods)) (\<lambda>names.
     ret \<lparr>session_processes = names, session_wait = exec_wait a\<rparr>))"

text \<open>Processes are joined in the background; the caller waits for them, or for a second.\<close>

fun join_processes :: "string list \<Rightarrow> unit backend" where
  "join_processes [] = ret ()"
| "join_processes (n # ns) = tryE (call (\<lambda>_ _. Inr ()) (JoinProcess n)) (\<lambda>_. join_processes ns)"

definition session_join :: "ExecSession \<Rightarrow> unit backend" where
  "session_join s =
     tryE (join_processes (session_processes s)) (\<lambda>_.
     if session_wait s then ret () else call (\<lambda>_ _. Inr ()) SleepSecond)"

definition exec_route :: "backend_api \<Rightarrow> LabelArgs \<Rightarrow> User \<Rightarrow> ExecArgs \<Rightarrow> nat backend" where
  "exec_route B L u a =
     (let a = a\<lparr>exec_label_selector := Some (build_label_selector L (exec_label_selector a) u)\<rparr> in
      matchE (exec_session B a) (\<lambda>_. ret 500) (\<lambda>s. tryE (session_join s) (\<lambda>_. ret 200)))"

section \<open>The server\<close>

text \<open>The base address without its slashes at the end.\<close>

function trim_slashes :: "string \<Rightarrow> string" where
  "trim_slashes s = (if s \<noteq> [] \<and> last s = CHR ''/'' then trim_slashes (butlast s) else s)"
  by auto
termination
  by (relation "measure length") auto

declare trim_slashes.simps [simp del]

definition apiserver_base_url :: "bool \<Rightarrow> string \<Rightarrow> string option" where
  "apiserver_base_url enabled base = (if enabled then Some (trim_slashes base) else None)"

section \<open>Whose sessions a user reaches\<close>

definition set_selector :: "string \<Rightarrow> string \<Rightarrow> string list \<Rightarrow> string" where
  "set_selector k1 k2 vs = k1 @ ''==true, '' @ k2 @ '' in ('' @ join '', '' vs @ '')''"

definition label_char :: "char \<Rightarrow> bool" where
  "label_char c \<longleftrightarrow> (let n = (of_char c :: nat) in
     48 \<le> n \<and> n \<le> 57 \<or> 65 \<le> n \<and> n \<le> 90 \<or> 97 \<le> n \<and> n \<le> 122 \<or> n = 45 \<or> n = 46 \<or> n = 95)"

definition label_value :: "string \<Rightarrow> bool" where
  "label_value v \<longleftrightarrow> list_all label_char v"

definition label_key :: "string \<Rightarrow> bool" where
  "label_key k \<longleftrightarrow> list_all (\<lambda>c. label_char c \<or> c = CHR ''/'') k"

text \<open>What the cluster documents of selectors: an equality and a set, both of which hold; and a text in
  which anything but a comma or a blank follows a closing parenthesis is refused.\<close>

definition selects_sets :: "(string \<Rightarrow> (string \<Rightarrow> string option) \<Rightarrow> bool) \<Rightarrow> bool" where
  "selects_sets M \<longleftrightarrow> (\<forall>k1 k2 vs ls. label_key k1 \<longrightarrow> label_key k2 \<longrightarrow> vs \<noteq> [] \<longrightarrow> list_all label_value vs \<longrightarrow>
     M (set_selector k1 k2 vs) ls = (ls k1 = Some ''true'' \<and> (\<exists>v\<in>set vs. ls k2 = Some v)))"

definition refuses_malformed :: "backend_api \<Rightarrow> bool" where
  "refuses_malformed B \<longleftrightarrow> (\<forall>l ns a c b. c \<noteq> CHR '','' \<longrightarrow> \<not> is_space c \<longrightarrow>
     isl (ans_pods B l (ListPods ns (Some (a @ '')'' @ c # b)))))"

lemma selector_of_names:
  assumes "names \<noteq> []"
  shows "build_label_selector L None (c\<lparr>preferred_username := join '', '' names\<rparr>)
    = set_selector (label_bind L) (label_bind_user L) ([] # names)"
  using assms by (cases names) (simp_all add: build_label_selector_def set_selector_def username_def)

text \<open>A user sees the sessions of guests and those bound to the name in the token; but the name goes into the
  selector as it is, so that a name with a comma stands for several users and reaches the
  sessions of all of them.\<close>

theorem sessions_of_a_user:
  assumes "selects_sets M" and "names \<noteq> []" and "list_all label_value names"
    and "preferred_username u = join '', '' names" and "label_key (label_bind L)" and "label_key (label_bind_user L)"
  shows "M (build_label_selector L None u) ls \<longleftrightarrow>
    ls (label_bind L) = Some ''true'' \<and> (ls (label_bind_user L) = Some [] \<or> (\<exists>v\<in>set names. ls (label_bind_user L) = Some v))"
proof -
  have "u = u\<lparr>preferred_username := join '', '' names\<rparr>"
    using assms(4) by (cases u) simp
  then have "build_label_selector L None u = set_selector (label_bind L) (label_bind_user L) ([] # names)"
    using selector_of_names [OF assms(2)] by metis
  moreover have "list_all label_value ([] # names)"
    using assms(3) by (simp add: label_value_def)
  ultimately show ?thesis
    using assms(1,5,6) unfolding selects_sets_def by auto
qed

text \<open>Whether the cluster accepts the command for the pod at a place, after the calls for the pods before it.\<close>

definition accepts :: "backend_api \<Rightarrow> backend_call list \<Rightarrow> (Pod \<Rightarrow> backend_call) \<Rightarrow> Pod list \<Rightarrow> nat \<Rightarrow> bool" where
  "accepts B l ask ps i \<longleftrightarrow> \<not> isl (ans_exec B (l @ map ask (take i ps)) (ask (ps ! i)))"

lemma accepts_Cons [simp]:
  "accepts B l ask (p # ps) 0 = (\<not> isl (ans_exec B l (ask p)))"
  "accepts B l ask (p # ps) (Suc i) = accepts B (l @ [ask p]) ask ps i"
  by (simp_all add: accepts_def)

lemma wp_exec_pods:
  "wp (exec_pods B cmd ap ps) (\<lambda>r l.
       r = Inr (map (\<lambda>i. name_any (pod_meta (ps ! i)))
             (filter (accepts B l0 (\<lambda>p. ExecPod (name_any (pod_meta p)) cmd ap) ps) [0..<length ps]))
     \<and> l = l0 @ map (\<lambda>p. ExecPod (name_any (pod_meta p)) cmd ap) ps) l0"
proof (induction ps arbitrary: l0)
  case Nil
  then show ?case by (simp add: wp_ret)
next
  case (Cons p ps)
  let ?ask = "\<lambda>p. ExecPod (name_any (pod_meta p)) cmd ap"
  let ?names = "map (\<lambda>i. name_any (pod_meta (ps ! i))) (filter (accepts B (l0 @ [?ask p]) ?ask ps) [0..<length ps])"
  have tail: "wp (exec_pods B cmd ap ps) Q (l0 @ [?ask p])" if "Q (Inr ?names) (l0 @ map ?ask (p # ps))" for Q
    by (rule wp_mono [OF Cons]) (use that in auto)
  have "[0..<length (p # ps)] = 0 # map Suc [0..<length ps]"
    by (simp add: map_Suc_upt upt_conv_Cons del: upt_Suc)
  then have names: "map (\<lambda>i. name_any (pod_meta ((p # ps) ! i))) (filter (accepts B l0 ?ask (p # ps)) [0..<length (p # ps)])
      = (if isl (ans_exec B l0 (?ask p)) then [] else [name_any (pod_meta p)]) @ ?names"
    by (simp add: filter_map comp_def)
  show ?case
    unfolding names
    by (auto simp: Let_def wp_matchE wp_call wp_tryE wp_ret split: sum.split intro!: tail)
qed

text \<open>C26.
  A command runs in the sessions that are ready and nowhere else: of the pods that the selector lists, those
  whose desktop container is ready are asked in order, each exactly once, with the command as given or inside a
  terminal; the processes are those of the pods that accept, in order, and a pod that refuses is left out.\<close>

theorem exec_runs_in_ready_sessions:
  assumes "ans_pods B [] (ListPods (exec_namespace a) (exec_label_selector a)) = Inr pods"
    and "ask = (\<lambda>p. ExecPod (name_any (pod_meta p)) (wrap_command a) (attach_params (exec_wait a)))"
  shows "calls_of (exec_session B a) = ListPods (exec_namespace a) (exec_label_selector a) # map ask (filter is_ready pods)
    \<and> result_of (exec_session B a) = Inr \<lparr>
        session_processes = map (\<lambda>i. name_any (pod_meta (filter is_ready pods ! i)))
          (filter (accepts B [ListPods (exec_namespace a) (exec_label_selector a)] ask (filter is_ready pods))
            [0..<length (filter is_ready pods)]),
        session_wait = exec_wait a\<rparr>"
proof -
  have "wp (exec_session B a) (\<lambda>r l. l = ListPods (exec_namespace a) (exec_label_selector a) # map ask (filter is_ready pods)
    \<and> r = Inr \<lparr>
        session_processes = map (\<lambda>i. name_any (pod_meta (filter is_ready pods ! i)))
          (filter (accepts B [ListPods (exec_namespace a) (exec_label_selector a)] ask (filter is_ready pods))
            [0..<length (filter is_ready pods)]),
        session_wait = exec_wait a\<rparr>) []"
    unfolding exec_session_def wp_tryE wp_call append_Nil assms sum.case
    by (rule wp_mono [OF wp_exec_pods]) (auto simp: wp_ret)
  then show ?thesis
    unfolding wp_result .
qed

text \<open>A selector given with a command makes the command fail: it is put right behind the closing parenthesis of
  the selector of the user, so that, unless it begins with a comma or a blank, the cluster refuses the
  text, the answer is an error, and nothing runs.\<close>

theorem given_selector_is_refused:
  assumes "refuses_malformed B" and "exec_label_selector a = Some (c # s)" and "c \<noteq> CHR '',''" and "\<not> is_space c"
  shows "result_of (exec_route B L u a) = Inr 500 \<and> length (calls_of (exec_route B L u a)) = 1"
proof -
  let ?sel = "build_label_selector L (Some (c # s)) u"
  have "?sel = (label_bind L @ ''==true, '' @ label_bind_user L @ '' in (, '' @ username u) @ '')'' @ c # s"
    by (simp add: build_label_selector_def)
  then have "isl (ans_pods B [] (ListPods (exec_namespace a) (Some ?sel)))"
    using assms(1,3,4) unfolding refuses_malformed_def by metis
  then obtain e where "ans_pods B [] (ListPods (exec_namespace a) (Some ?sel)) = Inl e"
    by (auto simp: isl_def)
  then have "wp (exec_route B L u a) (\<lambda>r l. r = Inr 500 \<and> length l = 1) []"
    by (simp add: exec_route_def exec_session_def assms(2) eff_simps)
  then show ?thesis
    unfolding wp_result .
qed

section \<open>An example\<close>

definition example_labels :: LabelArgs where
  "example_labels = \<lparr>label_bind = ''bind'', label_bind_user = ''user''\<rparr>"

definition example_pod :: "string \<Rightarrow> bool \<Rightarrow> Pod" where
  "example_pod n ready = \<lparr>pod_meta = meta_default\<lparr>meta_name := Some n\<rparr>,
     container_statuses = Some (Some [\<lparr>container_name = ''desktop'', container_ready = ready\<rparr>])\<rparr>"

text \<open>A cluster that refuses a text in which a closing parenthesis is followed by anything.\<close>

definition example_cluster :: backend_api where
  "example_cluster = \<lparr>ans_applications = (\<lambda>_ _. Inr []), ans_commands = (\<lambda>_ _. Inr []),
     ans_pods = (\<lambda>_ c. case c of ListPods _ (Some sel) \<Rightarrow>
        if tl (dropWhile (\<lambda>c. c \<noteq> CHR '')'') sel) = [] then Inr [example_pod ''a'' True, example_pod ''b'' False] else Inl ''invalid''
      | _ \<Rightarrow> Inr [example_pod ''a'' True, example_pod ''b'' False]),
     ans_exec = (\<lambda>_ _. Inr ())\<rparr>"

definition example_exec :: ExecArgs where
  "example_exec = \<lparr>exec_command = [''date''], exec_label_selector = None, exec_namespace = None, exec_terminal = True, exec_wait = False\<rparr>"

text \<open>A matcher that reads the two keys and the values.\<close>

definition selector_values :: "string \<Rightarrow> string list" where
  "selector_values body = (case split_on (CHR '','') body of [] \<Rightarrow> [] | v # vs \<Rightarrow> v # map (drop 1) vs)"

definition example_matcher :: "string \<Rightarrow> (string \<Rightarrow> string option) \<Rightarrow> bool" where
  "example_matcher s ls \<longleftrightarrow>
     (let k1 = takeWhile (\<lambda>c. c \<noteq> CHR ''='') s; r = drop (length k1 + 8) s;
          k2 = takeWhile (\<lambda>c. c \<noteq> CHR '' '') r; body = takeWhile (\<lambda>c. c \<noteq> CHR '')'') (drop (length k2 + 5) r) in
      ls k1 = Some ''true'' \<and> list_ex (\<lambda>v. ls k2 = Some v) (selector_values body))"

lemma label_char_not: "label_char c \<Longrightarrow> c \<notin> {CHR ''='', CHR '' '', CHR '','', CHR '')''}"
  by (auto simp: label_char_def)

lemma split_on_append: "c \<notin> set x \<Longrightarrow> split_on c (x @ c # s) = x # split_on c s"
  by (induction x) auto

lemma split_on_none: "c \<notin> set x \<Longrightarrow> split_on c x = [x]"
  by (induction x) auto

lemma split_join:
  assumes "list_all label_value vs" and "vs \<noteq> []"
  shows "split_on (CHR '','') (join '', '' vs) = hd vs # map (\<lambda>v. '' '' @ v) (tl vs)"
  using assms
proof (induction vs)
  case Nil
  then show ?case by simp
next
  case IH: (Cons x zs)
  have x: "CHR '','' \<notin> set x"
    using IH.prems label_char_not by (auto simp: label_value_def list_all_iff)
  show ?case
  proof (cases zs)
    case Nil
    with x show ?thesis by (simp add: split_on_none)
  next
    case (Cons y ys)
    have "split_on (CHR '','') (join '', '' zs) = hd zs # map (\<lambda>v. '' '' @ v) (tl zs)"
      using IH.IH IH.prems Cons by simp
    then have "split_on (CHR '','') (CHR '' '' # join '', '' zs) = ('' '' @ hd zs) # map (\<lambda>v. '' '' @ v) (tl zs)"
      by simp
    moreover have "join '', '' (x # zs) = x @ CHR '','' # CHR '' '' # join '', '' zs"
      using Cons by simp
    ultimately show ?thesis
      using split_on_append [OF x] Cons by simp
  qed
qed

lemma join_values:
  assumes "list_all label_value vs"
  shows "CHR '')'' \<notin> set (join '', '' vs)"
  using assms
proof (induction vs)
  case Nil
  then show ?case by simp
next
  case (Cons x zs)
  then show ?case
    using label_char_not by (cases zs) (auto simp: label_value_def list_all_iff)
qed

lemma example_matcher_documented: "selects_sets example_matcher"
  unfolding selects_sets_def
proof (intro allI impI)
  fix k1 k2 :: string and vs :: "string list" and ls :: "string \<Rightarrow> string option"
  assume k: "label_key k1" "label_key k2" and vs: "vs \<noteq> []" "list_all label_value vs"
  have k1: "takeWhile (\<lambda>c. c \<noteq> CHR ''='') (k1 @ CHR ''='' # r) = k1" for r
    using k(1) label_char_not by (intro trans [OF takeWhile_append2]) (auto simp: label_key_def list_all_iff)
  have k2: "takeWhile (\<lambda>c. c \<noteq> CHR '' '') (k2 @ CHR '' '' # r) = k2" for r
    using k(2) label_char_not by (intro trans [OF takeWhile_append2]) (auto simp: label_key_def list_all_iff)
  have body: "takeWhile (\<lambda>c. c \<noteq> CHR '')'') (join '', '' vs @ '')'') = join '', '' vs"
    using join_values [OF vs(2)] by (intro trans [OF takeWhile_append2]) auto
  have vals: "selector_values (join '', '' vs) = vs"
    using split_join [OF vs(2,1)] vs(1) by (cases vs) (simp_all add: selector_values_def comp_def)
  show "example_matcher (set_selector k1 k2 vs) ls = (ls k1 = Some ''true'' \<and> (\<exists>v\<in>set vs. ls k2 = Some v))"
    using k1 k2 body vals by (simp add: example_matcher_def set_selector_def Let_def list_ex_iff del: drop_drop)
qed

text \<open>A user who is called after two others.\<close>

theorem sessions_of_a_user_witness:
  "example_matcher (build_label_selector example_labels None (example_claims\<lparr>preferred_username := ''alice, bob''\<rparr>))
     [''bind'' \<mapsto> ''true'', ''user'' \<mapsto> ''bob'']"
proof -
  have keys: "label_key (label_bind example_labels)" "label_key (label_bind_user example_labels)"
    by (simp_all add: example_labels_def label_key_def label_char_def)
  have names: "list_all label_value [''alice'', ''bob'']"
    by (simp add: label_value_def label_char_def)
  have "preferred_username (example_claims\<lparr>preferred_username := ''alice, bob''\<rparr>) = join '', '' [''alice'', ''bob'']"
    by simp
  from sessions_of_a_user [OF example_matcher_documented _ names this keys] show ?thesis
    by (simp add: example_labels_def)
qed

theorem exec_runs_in_ready_sessions_witness:
  "calls_of (exec_session example_cluster example_exec) =
     [ListPods None None, ExecPod ''a'' [''xfce4-terminal'', ''--execute'', ''date''] (attach_params False)]"
proof -
  have pods: "ans_pods example_cluster [] (ListPods (exec_namespace example_exec) (exec_label_selector example_exec))
      = Inr [example_pod ''a'' True, example_pod ''b'' False]"
    by (simp add: example_cluster_def example_exec_def)
  show ?thesis
    using exec_runs_in_ready_sessions [OF pods refl]
    by (simp add: example_exec_def example_pod_def is_ready_def exec_container_def name_any_def wrap_command_def)
qed

lemma example_cluster_refuses: "refuses_malformed example_cluster"
proof -
  have "tl (dropWhile (\<lambda>c. c \<noteq> CHR '')'') (a @ '')'' @ c # b)) \<noteq> []" for a b c
    by (induction a) auto
  then show ?thesis
    by (auto simp: refuses_malformed_def example_cluster_def)
qed

theorem given_selector_is_refused_witness:
  "result_of (exec_route example_cluster example_labels example_claims (example_exec\<lparr>exec_label_selector := Some ''app=x''\<rparr>)) = Inr 500"
  using given_selector_is_refused [OF example_cluster_refuses, of "example_exec\<lparr>exec_label_selector := Some ''app=x''\<rparr>"]
  by (simp add: is_space_def)

end
