(* ===== verification/Vine_Handler.thy ===== *)
theory Vine_Handler
  imports Vine_Session
begin

text \<open>
  The daemon of a node (\<^verbatim>\<open>crates/openark-vine-session-handler/src/main.rs\<close>): it reports the
  storage and the GPU of its node once, then follows the sign-out label of the node by starting and stopping
  a service of the machine, and frees the node of its taint when it stops.  The answers of the cluster and of
  the programs it runs are parameters.
\<close>

section \<open>Calls\<close>

record HandlerArgs =
  controller_name :: string
  dry_run :: bool
  arg_bind_storage :: string
  arg_gpu :: string
  arg_signed_out :: string
  local_volume_home :: string
  arg_node_name :: string
  service_name :: string

text \<open>The fields of the node that the daemon writes.\<close>

record TaintPatch =
  taint_patch_taints :: "Taint list"
  taint_patch_unschedulable :: bool

datatype handler_call =
  Systemctl string string
| Bash string
| GetNode string
| PatchNode string bool TaintPatch
| PatchMetadata string bool "(string \<times> string option) list"

record handler_api =
  ans_systemctl :: "handler_call list \<Rightarrow> handler_call \<Rightarrow> string + int option"
  ans_bash :: "handler_call list \<Rightarrow> handler_call \<Rightarrow> string + string"
  ans_node :: "handler_call list \<Rightarrow> handler_call \<Rightarrow> string + Node"
  ans_patch :: "handler_call list \<Rightarrow> handler_call \<Rightarrow> string + unit"

text \<open>The daemon can fail, or leave with the exit code of a program.\<close>

datatype handler_error = Failure string | Exit int

type_synonym 'a handling = "(handler_call, handler_error, 'a) eff"

definition ask :: "(handler_call list \<Rightarrow> handler_call \<Rightarrow> string + 'a) \<Rightarrow> handler_call \<Rightarrow> 'a handling" where
  "ask f c = matchE (call f c) (\<lambda>e. fail (Failure e)) ret"

definition systemctl_exec :: "handler_api \<Rightarrow> string \<Rightarrow> string \<Rightarrow> unit handling" where
  "systemctl_exec A command name =
     tryE (ask (ans_systemctl A) (Systemctl command name)) (\<lambda>code.
     case code of None \<Rightarrow> ret () | Some n \<Rightarrow> if n = 0 then ret () else fail (Exit n))"

section \<open>The service\<close>

text \<open>The state of the daemon is what it knows of the service.\<close>

type_synonym running = "bool option"

definition start :: "handler_api \<Rightarrow> HandlerArgs \<Rightarrow> running \<Rightarrow> running handling" where
  "start A a r =
     (if r = Some True then ret r
      else tryE (if \<not> dry_run a then systemctl_exec A ''start'' (service_name a) else ret ()) (\<lambda>_. ret (Some True)))"

definition untaint :: "handler_api \<Rightarrow> HandlerArgs \<Rightarrow> unit handling" where
  "untaint A a =
     tryE (ask (ans_node A) (GetNode (arg_node_name a))) (\<lambda>n.
     let last_taints = Option.bind (node_spec n) spec_taints;
         next_taints = (case last_taints of None \<Rightarrow> [] | Some ts \<Rightarrow> filter (\<lambda>t. \<not> filter_taint t (arg_signed_out a)) ts) in
     ask (ans_patch A) (PatchNode (arg_node_name a) (dry_run a)
       \<lparr>taint_patch_taints = next_taints, taint_patch_unschedulable = False\<rparr>))"

definition stop :: "handler_api \<Rightarrow> HandlerArgs \<Rightarrow> running \<Rightarrow> running handling" where
  "stop A a r =
     (if r = Some False then ret r
      else
        tryE (if \<not> dry_run a then systemctl_exec A ''stop'' (service_name a) else ret ()) (\<lambda>_.
        tryE (untaint A a) (\<lambda>_. ret (Some False))))"

text \<open>A node without a label that can be read counts as signed out.\<close>

definition signed_out :: "HandlerArgs \<Rightarrow> ObjectMeta \<Rightarrow> bool" where
  "signed_out a m =
     (case Option.bind (Option.bind (meta_labels m) (\<lambda>ls. bt_get ls (arg_signed_out a))) bool_parse of
        Some b \<Rightarrow> b | None \<Rightarrow> True)"

definition apply_node :: "handler_api \<Rightarrow> HandlerArgs \<Rightarrow> ObjectMeta \<Rightarrow> running \<Rightarrow> running handling" where
  "apply_node A a m r = (if signed_out a m then start A a r else stop A a r)"

datatype Event = Apply ObjectMeta | InitApply ObjectMeta | Delete ObjectMeta | Init | InitDone

definition handle_event :: "handler_api \<Rightarrow> HandlerArgs \<Rightarrow> Event \<Rightarrow> running \<Rightarrow> running handling" where
  "handle_event A a e r =
     (case e of
        Apply m \<Rightarrow> apply_node A a m r
      | InitApply m \<Rightarrow> apply_node A a m r
      | Delete _ \<Rightarrow> stop A a r
      | Init \<Rightarrow> ret r
      | InitDone \<Rightarrow> ret r)"

fun handle_events :: "handler_api \<Rightarrow> HandlerArgs \<Rightarrow> Event list \<Rightarrow> running \<Rightarrow> running handling" where
  "handle_events A a [] r = ret r"
| "handle_events A a (e # es) r = tryE (handle_event A a e r) (handle_events A a es)"

section \<open>What the node has\<close>

definition squote :: "string \<Rightarrow> string" where
  "squote s = CHR 0x27 # s @ [CHR 0x27]"

definition gpu_script :: string where
  "gpu_script = join [CHR 0x0A]
     [''#!/bin/bash'', ''set -e -x -o pipefail'', [], ''# Detect a GPU by boot VGA'',
      ''primary_dev='' @ squote [], ''for dev in $('', ''    find -L /sys/bus/pci/devices '' @ [CHR 0x5C],
      ''        -maxdepth 2 -mindepth 2 -name '' @ squote ''boot_vga'', ''); do'',
      ''    if [ \"x$(cat \"${dev}\")\" == '' @ squote ''x1'' @ '' ]; then'',
      ''        primary_dev=\"$(dirname \"${dev}\")\"'', ''        break'', ''    fi'', ''done'',
      ''exec cat \"${primary_dev}/vendor\"'', []]"

definition storage_script :: "string \<Rightarrow> string" where
  "storage_script path = ''set -e -x -o pipefail && df --block-size=1 '' @ path @ '' | tail -n 1 | awk '' @ squote ''{print $2}''"

definition gpu_str :: "VineSessionGPU \<Rightarrow> string" where
  "gpu_str g = (case g of Intel \<Rightarrow> ''intel'' | Nvidia \<Rightarrow> ''nvidia'')"

definition get_primary_gpu :: "handler_api \<Rightarrow> VineSessionGPU option handling" where
  "get_primary_gpu A = tryE (ask (ans_bash A) (Bash gpu_script)) (\<lambda>out. ret (try_from_vendor (trim out)))"

text \<open>Numbers of an \<^verbatim>\<open>f64\<close> that are whole: 53 bits, rounded to the nearest and to
  even.\<close>

function bits :: "nat \<Rightarrow> nat" where
  "bits n = (if n = 0 then 0 else Suc (bits (n div 2)))"
  by auto
termination
  by (relation "measure id") auto

declare bits.simps [simp del]

definition round53 :: "nat \<Rightarrow> nat" where
  "round53 n =
     (let k = bits n - 53; unit = 2 ^ k; q = n div unit; r = n mod unit in
      if 2 * r > unit \<or> 2 * r = unit \<and> odd q then (q + 1) * unit else q * unit)"

text \<open>The number nearest to 0.8 is \<open>3602879701896397 / 2 ^ 52\<close>; half of it loses nothing.\<close>

definition storage_share :: "nat \<Rightarrow> nat" where
  "storage_share n = round53 (round53 n * 3602879701896397) div 2 ^ 53"

definition get_available_storage_size :: "handler_api \<Rightarrow> HandlerArgs \<Rightarrow> nat handling" where
  "get_available_storage_size A a =
     tryE (ask (ans_bash A) (Bash (storage_script (local_volume_home a)))) (\<lambda>out.
     case nat_parse (2 ^ 128) (trim out) of
       None \<Rightarrow> fail (Failure ''invalid digit found in string'')
     | Some n \<Rightarrow> ret (storage_share (nat n)))"

definition update_node_info :: "handler_api \<Rightarrow> HandlerArgs \<Rightarrow> unit handling" where
  "update_node_info A a =
     tryE (get_available_storage_size A a) (\<lambda>storage.
     tryE (get_primary_gpu A) (\<lambda>gpu.
     ask (ans_patch A) (PatchMetadata (arg_node_name a) (dry_run a)
       [(arg_bind_storage a, Some (nat_str storage)), (arg_gpu a, map_option gpu_str gpu)])))"

text \<open>The daemon reports, then follows the events until the stream ends, which is a failure.\<close>

definition try_main :: "handler_api \<Rightarrow> HandlerArgs \<Rightarrow> Event list \<Rightarrow> unit handling" where
  "try_main A a es =
     tryE (update_node_info A a) (\<lambda>_.
     tryE (handle_events A a es None) (\<lambda>_. fail (Failure ''unexpected termination'')))"

section \<open>The service follows the label\<close>

text \<open>What an event asks for.\<close>

definition wanted :: "HandlerArgs \<Rightarrow> Event \<Rightarrow> bool option" where
  "wanted a e = (case e of Apply m \<Rightarrow> Some (signed_out a m) | InitApply m \<Rightarrow> Some (signed_out a m)
     | Delete _ \<Rightarrow> Some False | Init \<Rightarrow> None | InitDone \<Rightarrow> None)"

definition wishes :: "HandlerArgs \<Rightarrow> Event list \<Rightarrow> bool list" where
  "wishes a es = List.map_filter (wanted a) es"

definition command_of :: "HandlerArgs \<Rightarrow> bool \<Rightarrow> handler_call" where
  "command_of a b = Systemctl (if b then ''start'' else ''stop'') (service_name a)"

definition is_systemctl :: "handler_call \<Rightarrow> bool" where
  "is_systemctl c \<longleftrightarrow> (case c of Systemctl _ _ \<Rightarrow> True | _ \<Rightarrow> False)"

definition commands :: "handler_call list \<Rightarrow> handler_call list" where
  "commands cs = filter is_systemctl cs"

text \<open>The changes of the state: a wish that repeats the one before it changes nothing.\<close>

definition changes :: "running \<Rightarrow> bool list \<Rightarrow> bool list" where
  "changes r ws = (case r of None \<Rightarrow> remdups_adj ws | Some b \<Rightarrow> tl (remdups_adj (b # ws)))"

lemma changes_Nil [simp]: "changes r [] = []"
  by (simp add: changes_def split: option.split)

lemma changes_Cons: "changes r (w # ws) = (if r = Some w then changes r ws else w # changes (Some w) ws)"
proof (cases r)
  case None
  have "remdups_adj (w # ws) = w # tl (remdups_adj (w # ws))"
    by (metis list.collapse hd_remdups_adj remdups_adj_Nil_iff list.sel(1) list.distinct(1))
  with None show ?thesis by (simp add: changes_def)
next
  case (Some b)
  have "remdups_adj (w # ws) = w # tl (remdups_adj (w # ws))"
    by (metis list.collapse hd_remdups_adj remdups_adj_Nil_iff list.sel(1) list.distinct(1))
  with Some show ?thesis by (simp add: changes_def)
qed

lemma wp_handler_ask: "wp (ask f c) Q l = (case f l c of Inl e \<Rightarrow> Q (Inl (Failure e)) (l @ [c]) | Inr x \<Rightarrow> Q (Inr x) (l @ [c]))"
  by (simp add: ask_def wp_matchE wp_call wp_fail wp_ret split: sum.split)

text \<open>What a handled wish does: nothing, or the command and, for a stop, the patch of the node.\<close>

definition wish :: "handler_api \<Rightarrow> HandlerArgs \<Rightarrow> bool \<Rightarrow> running \<Rightarrow> running handling" where
  "wish A a b r = (if b then start A a r else stop A a r)"

lemma handle_event_wish:
  "handle_event A a e r = (case wanted a e of None \<Rightarrow> ret r | Some b \<Rightarrow> wish A a b r)"
  by (simp add: handle_event_def wanted_def apply_node_def wish_def split: Event.split)

lemma wp_wish:
  assumes "\<not> dry_run a"
  shows "wp (wish A a b r) (\<lambda>x l. \<forall>r'. x = Inr r' \<longrightarrow>
     r' = Some b \<and> (\<exists>cs. l = l0 @ cs \<and> commands cs = (if r = Some b then [] else [command_of a b]))) l0"
  using assms
  by (auto simp: wish_def start_def stop_def systemctl_exec_def untaint_def Let_def wp_handler_ask commands_def is_systemctl_def
      command_of_def eff_simps split: sum.split option.split)

lemma wp_handle_events:
  assumes "\<not> dry_run a"
  shows "wp (handle_events A a es r) (\<lambda>x l. \<forall>r'. x = Inr r' \<longrightarrow>
     r' = (if wishes a es = [] then r else Some (last (wishes a es)))
     \<and> (\<exists>cs. l = l0 @ cs \<and> commands cs = map (command_of a) (changes r (wishes a es)))) l0"
proof (induction es arbitrary: r l0)
  case Nil
  then show ?case by (simp add: wp_ret wishes_def commands_def)
next
  case (Cons e es)
  show ?case
  proof (cases "wanted a e")
    case None
    then have e: "handle_events A a (e # es) r = tryE (ret r) (handle_events A a es)"
      and w: "wishes a (e # es) = wishes a es"
      by (simp_all add: handle_event_wish wishes_def)
    show ?thesis
      unfolding e w wp_tryE wp_ret sum.case by (rule Cons)
  next
    case (Some b)
    then have e: "handle_events A a (e # es) r = tryE (wish A a b r) (handle_events A a es)"
      and w: "wishes a (e # es) = b # wishes a es"
      by (simp_all add: handle_event_wish wishes_def)
    show ?thesis
      unfolding e w
    proof (rule wp_tryE_seq [OF wp_wish [OF assms, where r = r]])
      fix r' l'
      assume "\<forall>ra. Inr r' = Inr ra \<longrightarrow> ra = Some b \<and> (\<exists>cs. l' = l0 @ cs \<and> commands cs = (if r = Some b then [] else [command_of a b]))"
      then obtain cs where r': "r' = Some b" and l': "l' = l0 @ cs"
        and cs: "commands cs = (if r = Some b then [] else [command_of a b])"
        by auto
      show "wp (handle_events A a es r') (\<lambda>x l. \<forall>r'. x = Inr r' \<longrightarrow>
          r' = (if b # wishes a es = [] then r else Some (last (b # wishes a es)))
          \<and> (\<exists>cs. l = l0 @ cs \<and> commands cs = map (command_of a) (changes r (b # wishes a es)))) l'"
        unfolding r'
      proof (rule wp_mono [OF Cons [of "Some b" l']], intro allI impI)
        fix x l ra
        assume IH: "\<forall>r'. x = Inr r' \<longrightarrow> r' = (if wishes a es = [] then Some b else Some (last (wishes a es)))
            \<and> (\<exists>cs. l = l' @ cs \<and> commands cs = map (command_of a) (changes (Some b) (wishes a es)))"
          and x: "x = Inr ra"
        then obtain ds where ra: "ra = (if wishes a es = [] then Some b else Some (last (wishes a es)))" and l: "l = l' @ ds"
          and ds: "commands ds = map (command_of a) (changes (Some b) (wishes a es))"
          by blast
        have "commands (cs @ ds) = map (command_of a) (changes r (b # wishes a es))"
          using cs ds by (simp add: changes_Cons commands_def split: if_splits)
        moreover have "l = l0 @ cs @ ds"
          by (simp add: l l')
        ultimately show "ra = (if b # wishes a es = [] then r else Some (last (b # wishes a es)))
            \<and> (\<exists>cs. l = l0 @ cs \<and> commands cs = map (command_of a) (changes r (b # wishes a es)))"
          using ra by auto
      qed
    qed simp
  qed
qed

text \<open>C27.
  The service follows the sign-out label, unless the daemon is run dry: over any stream of events that is handled without a failure, the
  commands given to the service are the wanted states with repetitions left out, starting from
  an unknown state, and what the daemon believes in the end is what the last event asked for.\<close>

theorem service_follows_sign_out:
  assumes "\<not> dry_run a" and "result_of (handle_events A a es None) = Inr r"
  shows "commands (calls_of (handle_events A a es None)) = map (command_of a) (remdups_adj (wishes a es))
    \<and> (wishes a es \<noteq> [] \<longrightarrow> r = Some (last (wishes a es)))"
proof -
  have "\<forall>r'. result_of (handle_events A a es None) = Inr r' \<longrightarrow>
      r' = (if wishes a es = [] then None else Some (last (wishes a es)))
      \<and> (\<exists>cs. calls_of (handle_events A a es None) = [] @ cs \<and> commands cs = map (command_of a) (changes None (wishes a es)))"
    using wp_handle_events [OF assms(1), of A es None "[]"] unfolding wp_result .
  with assms(2) show ?thesis
    by (auto simp: changes_def)
qed

text \<open>A stop frees the node after the service has stopped, and only then: the service is stopped first, the taint of
  the sign-out key is taken off what the node then has, and the node accepts work again; a service
  that fails to stop ends the daemon with its exit code and leaves the node as it is.\<close>

theorem stop_frees_the_node:
  assumes "\<not> dry_run a" and "r \<noteq> Some False"
    and "ans_systemctl A [] (Systemctl ''stop'' (service_name a)) = Inr code"
    and "ans_node A [Systemctl ''stop'' (service_name a)] (GetNode (arg_node_name a)) = Inr n"
    and "node_spec n = Some s" and "spec_taints s = Some ts"
  shows "calls_of (stop A a r) =
      (if code = None \<or> code = Some 0 then
         [Systemctl ''stop'' (service_name a), GetNode (arg_node_name a),
          PatchNode (arg_node_name a) False \<lparr>taint_patch_taints = filter (\<lambda>t. \<not> filter_taint t (arg_signed_out a)) ts,
            taint_patch_unschedulable = False\<rparr>]
       else [Systemctl ''stop'' (service_name a)])
    \<and> (\<forall>k. code = Some k \<longrightarrow> k \<noteq> 0 \<longrightarrow> result_of (stop A a r) = Inl (Exit k))"
proof -
  have "wp (stop A a r) (\<lambda>x l. l =
      (if code = None \<or> code = Some 0 then
         [Systemctl ''stop'' (service_name a), GetNode (arg_node_name a),
          PatchNode (arg_node_name a) False \<lparr>taint_patch_taints = filter (\<lambda>t. \<not> filter_taint t (arg_signed_out a)) ts,
            taint_patch_unschedulable = False\<rparr>]
       else [Systemctl ''stop'' (service_name a)])
    \<and> (\<forall>k. code = Some k \<longrightarrow> k \<noteq> 0 \<longrightarrow> x = Inl (Exit k))) []"
    using assms
    by (auto simp: stop_def systemctl_exec_def untaint_def Let_def wp_handler_ask eff_simps split: sum.split option.split)
  then show ?thesis
    unfolding wp_result .
qed

section \<open>The share of the storage\<close>

lemma bits_bounds: "n > 0 \<Longrightarrow> 2 ^ (bits n - 1) \<le> n \<and> n < 2 ^ bits n \<and> bits n > 0"
proof (induction n rule: bits.induct)
  case (1 n)
  show ?case
  proof (cases "n div 2 = 0")
    case True
    with 1(2) have "n = 1" by linarith
    then show ?thesis by (simp add: bits.simps)
  next
    case False
    then have IH: "2 ^ (bits (n div 2) - 1) \<le> n div 2" "n div 2 < 2 ^ bits (n div 2)" "bits (n div 2) > 0"
      using 1 by auto
    have b: "bits n = Suc (bits (n div 2))"
      using 1(2) by (simp add: bits.simps [of n])
    have "(2::nat) ^ bits (n div 2) = 2 * 2 ^ (bits (n div 2) - 1)"
      using IH(3) by (metis power_eq_if not_gr_zero)
    then show ?thesis
      using IH(1,2) b by simp linarith
  qed
qed

lemma round53_small: "n < 2 ^ 53 \<Longrightarrow> round53 n = n"
proof (cases "n = 0")
  case False
  assume "n < 2 ^ 53"
  have "bits n \<le> 53"
  proof (rule ccontr)
    assume "\<not> bits n \<le> 53"
    then have "(2::nat) ^ 53 \<le> 2 ^ (bits n - 1)"
      by (intro power_increasing) auto
    with bits_bounds [of n] False \<open>n < 2 ^ 53\<close> show False by simp
  qed
  then show ?thesis by (simp add: round53_def Let_def)
qed (simp add: round53_def Let_def bits.simps)

lemma round53_upper: "2 ^ 53 * round53 n \<le> (2 ^ 53 + 1) * n"
proof (cases "n < 2 ^ 53")
  case True
  then show ?thesis by (simp add: round53_small)
next
  case False
  define k where "k = bits n - 53"
  define u where "u = (2::nat) ^ k"
  have "n < 2 ^ bits n" "2 ^ (bits n - 1) \<le> n"
    using bits_bounds [of n] False by auto
  with False have "bits n > 53"
    by (metis le_less_trans linorder_not_le not_less power_increasing_iff one_less_numeral_iff semiring_norm(76) less_le_trans)
  then have "bits n - 1 = 52 + k"
    by (simp add: k_def)
  then have "(2::nat) ^ (bits n - 1) = 2 ^ 52 * u"
    by (simp only: power_add u_def)
  then have big: "2 ^ 52 * u \<le> n"
    using \<open>2 ^ (bits n - 1) \<le> n\<close> by simp
  have n: "n = n div u * u + n mod u"
    by simp
  have "2 * round53 n \<le> 2 * n + u"
  proof (cases "2 * (n mod u) > u \<or> 2 * (n mod u) = u \<and> odd (n div u)")
    case True
    then have "round53 n = (n div u + 1) * u"
      by (simp add: round53_def Let_def u_def k_def)
    moreover have "2 * (n mod u) \<ge> u"
      using True by auto
    moreover have "2 * ((n div u + 1) * u) = 2 * (n div u * u) + 2 * u"
      by simp
    ultimately show ?thesis
      using n by linarith
  next
    case False
    then have "round53 n = n div u * u"
      by (simp add: round53_def Let_def u_def k_def)
    then show ?thesis
      using n by linarith
  qed
  then show ?thesis
    using big by simp
qed

text \<open>The storage that the node reports can be used twice: it is at most two fifths of the disk and the rounding
  of the floating-point product, so that a container and a virtual machine of this size fit the disk
  together, for every size that the program can read.\<close>

theorem storage_share_fits_twice:
  "2 * storage_share n \<le> n"
proof -
  have up: "2 ^ 53 * round53 (round53 n * 3602879701896397) \<le> (2 ^ 53 + 1) * (round53 n * 3602879701896397)"
    "2 ^ 53 * round53 n \<le> (2 ^ 53 + 1) * n"
    by (rule round53_upper)+
  have "2 ^ 53 * storage_share n \<le> round53 (round53 n * 3602879701896397)"
    by (simp add: storage_share_def)
  with up show ?thesis
    by simp
qed

section \<open>An example\<close>

definition example_handler :: HandlerArgs where
  "example_handler = \<lparr>controller_name = ''handler'', dry_run = False, arg_bind_storage = ''storage'', arg_gpu = ''gpu'',
     arg_signed_out = ''signed-out'', local_volume_home = ''/home'', arg_node_name = ''node'', service_name = ''desktop''\<rparr>"

definition example_node :: Node where
  "example_node = \<lparr>node_meta = meta_default, node_spec = Some \<lparr>spec_taints =
       Some [\<lparr>taint_key = ''signed-out'', taint_value = None, taint_effect = ''NoExecute'', time_added = None\<rparr>,
         \<lparr>taint_key = ''other'', taint_value = None, taint_effect = ''NoExecute'', time_added = None\<rparr>],
     spec_unschedulable = Some True\<rparr>, node_status = None\<rparr>"

definition example_machine :: handler_api where
  "example_machine = \<lparr>ans_systemctl = (\<lambda>_ _. Inr (Some 0)), ans_bash = (\<lambda>_ _. Inr ''1000''), ans_node = (\<lambda>_ _. Inr example_node),
     ans_patch = (\<lambda>_ _. Inr ())\<rparr>"

definition labelled :: "string \<Rightarrow> Event" where
  "labelled v = Apply (meta_default\<lparr>meta_labels := Some [(''signed-out'', v)]\<rparr>)"

theorem service_follows_sign_out_witness:
  "commands (calls_of (handle_events example_machine example_handler
       [Init, labelled ''true'', labelled ''true'', labelled ''false'', Delete meta_default, labelled ''?''] None))
     = [Systemctl ''start'' ''desktop'', Systemctl ''stop'' ''desktop'', Systemctl ''start'' ''desktop'']"
proof -
  let ?es = "[Init, labelled ''true'', labelled ''true'', labelled ''false'', Delete meta_default, labelled ''?'']"
  have "\<not> isl (result_of (handle_events example_machine example_handler ?es None))"
    by code_simp
  then obtain r where r: "result_of (handle_events example_machine example_handler ?es None) = Inr r"
    by (cases "result_of (handle_events example_machine example_handler ?es None)") auto
  have "\<not> dry_run example_handler"
    by (simp add: example_handler_def)
  from service_follows_sign_out [OF this r] have
    "commands (calls_of (handle_events example_machine example_handler ?es None))
      = map (command_of example_handler) (remdups_adj (wishes example_handler ?es))" ..
  also have "wishes example_handler ?es = [True, True, False, False, True]"
    by code_simp
  finally show ?thesis
    by (simp add: command_of_def example_handler_def)
qed

theorem stop_frees_the_node_witness:
  "result_of (stop (example_machine\<lparr>ans_systemctl := (\<lambda>_ _. Inr (Some 5))\<rparr>) example_handler None) = Inl (Exit 5)"
proof -
  let ?A = "example_machine\<lparr>ans_systemctl := (\<lambda>_ _. Inr (Some 5))\<rparr>"
  have facts: "\<not> dry_run example_handler" "None \<noteq> Some False"
    "ans_systemctl ?A [] (Systemctl ''stop'' (service_name example_handler)) = Inr (Some 5)"
    "ans_node ?A [Systemctl ''stop'' (service_name example_handler)] (GetNode (arg_node_name example_handler)) = Inr example_node"
    by (simp_all add: example_handler_def example_machine_def)
  have spec: "node_spec example_node = Some (the (node_spec example_node))"
    "spec_taints (the (node_spec example_node)) = Some (the (spec_taints (the (node_spec example_node))))"
    by (simp_all add: example_node_def)
  from stop_frees_the_node [OF facts spec] show ?thesis
    by simp
qed

end
