(* ===== verification/Vine_Browser.thy ===== *)
theory Vine_Browser
  imports Vine_Oauth
begin

text \<open>
  The file browser of VINE (\<^verbatim>\<open>crates/openark-vine-browser-api/src\<close> and
  \<^verbatim>\<open>crates/openark-vine-browser-backend/src\<close>): types of files, the references of files with
  their metadata, and the routes that list a directory and send a file.  The file system, the percent
  decoding of a path and the reading of the query are parameters.
\<close>

section \<open>Types of files\<close>

datatype AppType = AppOctetStream | AppOther

datatype AudioType = AudioMp3 | AudioOgg | AudioOther

datatype DocumentType = DocumentPdf | DocumentOther

datatype ImageType = ImageGif | ImageJpeg | ImagePng | ImageOther

datatype VideoType = VideoMp4 | VideoOther

datatype FileType = Audio AudioType | Document DocumentType | Image ImageType | Video VideoType | App AppType

definition app_mime :: "AppType \<Rightarrow> string" where
  "app_mime t = (case t of AppOctetStream \<Rightarrow> ''application/octet-stream'' | AppOther \<Rightarrow> ''application'')"

definition audio_mime :: "AudioType \<Rightarrow> string" where
  "audio_mime t = (case t of AudioMp3 \<Rightarrow> ''audio/mpeg'' | AudioOgg \<Rightarrow> ''audio/ogg'' | AudioOther \<Rightarrow> ''audio'')"

definition document_mime :: "DocumentType \<Rightarrow> string" where
  "document_mime t = (case t of DocumentPdf \<Rightarrow> ''application/pdf'' | DocumentOther \<Rightarrow> ''text'')"

definition image_mime :: "ImageType \<Rightarrow> string" where
  "image_mime t = (case t of ImageGif \<Rightarrow> ''image/gif'' | ImageJpeg \<Rightarrow> ''image/jpeg'' | ImagePng \<Rightarrow> ''image/png''
     | ImageOther \<Rightarrow> ''image'')"

definition video_mime :: "VideoType \<Rightarrow> string" where
  "video_mime t = (case t of VideoMp4 \<Rightarrow> ''video/mp4'' | VideoOther \<Rightarrow> ''video'')"

definition mime_type :: "FileType \<Rightarrow> string" where
  "mime_type t = (case t of Audio x \<Rightarrow> audio_mime x | Document x \<Rightarrow> document_mime x | Image x \<Rightarrow> image_mime x
     | Video x \<Rightarrow> video_mime x | App x \<Rightarrow> app_mime x)"

definition text_extensions :: "string list" where
  "text_extensions = [''bash'', ''css'', ''html'', ''js'', ''json'', ''log'', ''md'', ''py'', ''rs'', ''sh'', ''ts'',
     ''txt'', ''toml'', ''yaml'', ''zsh'']"

definition from_known_extensions :: "string \<Rightarrow> FileType option" where
  "from_known_extensions ext =
     (if ext = ''bin'' then Some (App AppOctetStream)
      else if ext = ''gif'' then Some (Image ImageGif)
      else if ext = ''jpeg'' \<or> ext = ''jpg'' then Some (Image ImageJpeg)
      else if ext = ''mp3'' then Some (Audio AudioMp3)
      else if ext = ''mp4'' then Some (Video VideoMp4)
      else if ext = ''ogg'' then Some (Audio AudioOgg)
      else if ext = ''pdf'' then Some (Document DocumentPdf)
      else if ext = ''png'' then Some (Image ImagePng)
      else if List.member text_extensions ext then Some (Document DocumentOther)
      else None)"

section \<open>Files\<close>

record UserMetadata =
  user_initial :: "string option"
  thumbnail_url :: "string option"

record UserRef =
  user_id :: string
  user_ref_name :: string
  user_metadata :: UserMetadata

record FileTimestamp =
  stamp_by :: "UserRef option"
  stamp_at :: timestamp

record FileMetadata =
  file_accessed :: "FileTimestamp option"
  file_created :: "FileTimestamp option"
  file_modified :: "FileTimestamp option"
  file_size :: "u64 option"
  file_owner :: "UserRef option"

record FileRef =
  ref_name :: string
  ref_path :: string
  ref_metadata :: FileMetadata

definition file_ty :: "FileRef \<Rightarrow> FileType option" where
  "file_ty f =
     (case drop 1 (split_on (CHR ''.'') (ref_name f)) of
        [] \<Rightarrow> None
      | exts \<Rightarrow> from_known_extensions (last exts))"

definition is_dir_ref :: "FileRef \<Rightarrow> bool" where
  "is_dir_ref f \<longleftrightarrow> ref_path f \<noteq> [] \<and> last (ref_path f) = CHR ''/''"

datatype FileShortcutKind = Favorites | Home | TimeTravel | Trash

record FileShortcut =
  shortcut_ref :: FileRef
  shortcut_kind :: "FileShortcutKind option"

record FileEntry =
  entry_ref :: FileRef
  entry_files :: "FileRef list"

record UserSubscription =
  is_active :: "bool option"
  tier_name :: string
  total_capacity :: u64
  total_used :: u64

record UserConfiguration =
  conf_metadata :: UserMetadata
  shortcuts :: "FileShortcut list"
  subscription :: UserSubscription
  conf_token :: User

record GlobalConfigurationSpec =
  conf_title :: string
  conf_logo_url :: "string option"
  conf_redirect_url :: "string option"

record GlobalConfiguration =
  global_spec :: GlobalConfigurationSpec
  global_user :: "UserConfiguration option"

section \<open>The file system\<close>

text \<open>What a system call tells of a file; times are seconds and nanoseconds.\<close>

record Metadata =
  md_is_dir :: bool
  md_atime :: "int \<times> int"
  md_mtime :: "int \<times> int"
  md_ctime :: "int \<times> int"
  md_size :: u64

datatype fs_call =
  OpenFile string
| StatFile string
| SymlinkMetadata string
| ReadDir string
| EntryMetadata string

text \<open>A directory is read entry by entry, each of which can fail.\<close>

record fs_api =
  ans_open_file :: "fs_call list \<Rightarrow> fs_call \<Rightarrow> string + unit"
  ans_stat :: "fs_call list \<Rightarrow> fs_call \<Rightarrow> string + Metadata"
  ans_dir :: "fs_call list \<Rightarrow> fs_call \<Rightarrow> string + (string + string) list"

type_synonym 'a fs = "(fs_call, string, 'a) eff"

section \<open>Paths of requests\<close>

datatype request_method = Get | OtherMethod

record BrowserRequest =
  request_path :: string
  request_method :: request_method

text \<open>Requests arrive under the base address and the prefix of their route.  Decoding can find a text that is
  not UTF-8.\<close>

definition parse_path :: "(string \<Rightarrow> string option) \<Rightarrow> BrowserRequest \<Rightarrow> string \<Rightarrow> string \<Rightarrow> string option" where
  "parse_path decode r base prefix = decode (drop (length prefix) (drop (length base) (request_path r)))"

text \<open>The directory of the data plays no part: paths are relative to the working directory.\<close>

definition local_path :: "string \<Rightarrow> string" where
  "local_path path = ''.'' @ trim_end_char (CHR ''/'') path"

section \<open>Sending a file\<close>

record 'b Response =
  response_status :: nat
  response_body :: "'b option"

definition not_found :: "'b Response" where
  "not_found = \<lparr>response_status = 404, response_body = None\<rparr>"

record Content =
  content_type :: string
  content_length :: u64
  content_of :: string

definition content_type_of :: "bool \<Rightarrow> string \<Rightarrow> string" where
  "content_type_of download path =
     (if download then ''application/octet-stream''
      else case Option.bind (extension path) from_known_extensions of Some t \<Rightarrow> mime_type t | None \<Rightarrow> ''text/plain'')"

definition get_data :: "fs_api \<Rightarrow> string \<Rightarrow> string \<Rightarrow> bool \<Rightarrow> Content Response fs" where
  "get_data F data_dir path download =
     (let path = local_path path in
      matchE (call (ans_open_file F) (OpenFile path)) (\<lambda>_. ret not_found) (\<lambda>_.
      matchE (call (ans_stat F) (StatFile path)) (\<lambda>_. ret not_found) (\<lambda>m.
      ret \<lparr>response_status = 200, response_body = Some \<lparr>content_type = content_type_of download path,
        content_length = md_size m, content_of = path\<rparr>\<rparr>)))"

definition handle_data ::
  "fs_api \<Rightarrow> (string \<Rightarrow> string option) \<Rightarrow> BrowserRequest \<Rightarrow> string \<Rightarrow> string \<Rightarrow> bool \<Rightarrow> Content Response fs" where
  "handle_data F decode r base data_dir download =
     (case parse_path decode r base ''/data'' of
        None \<Rightarrow> ret not_found
      | Some path \<Rightarrow> (case request_method r of Get \<Rightarrow> get_data F data_dir path download | OtherMethod \<Rightarrow> ret not_found))"

section \<open>Listing a directory\<close>

definition time_stamp :: "int \<times> int \<Rightarrow> FileTimestamp option" where
  "time_stamp t =
     (if - 377705023201 \<le> fst t \<and> fst t \<le> 253402207200 \<and> - 999999999 \<le> snd t \<and> snd t \<le> 999999999
      then Some \<lparr>stamp_by = None, stamp_at = fst t * 1000000000 + snd t\<rparr> else None)"

text \<open>The time of creation is the time of the last change of the inode.\<close>

definition parse_file_ref :: "string \<Rightarrow> Metadata \<Rightarrow> FileRef" where
  "parse_file_ref path m =
     \<lparr>ref_name = (case file_name path of Some n \<Rightarrow> n | None \<Rightarrow> []),
      ref_path = trim_start_char (CHR ''.'') path @ (if md_is_dir m then ''/'' else []),
      ref_metadata = \<lparr>file_accessed = time_stamp (md_atime m), file_created = time_stamp (md_ctime m),
        file_modified = time_stamp (md_mtime m), file_size = Some (md_size m), file_owner = None\<rparr>\<rparr>"

text \<open>A file whose name begins with a dot; names are texts (the code shows a name that is not UTF-8).\<close>

definition hidden :: "string \<Rightarrow> bool" where
  "hidden path \<longleftrightarrow> (case file_name path of Some (c # _) \<Rightarrow> c = CHR ''.'' | _ \<Rightarrow> False)"

text \<open>\<^verbatim>\<open>entry.path()\<close>.\<close>

definition join_path :: "string \<Rightarrow> string \<Rightarrow> string" where
  "join_path dir name = dir @ ''/'' @ name"

text \<open>Entries are skipped up to the offset, hidden ones too; the limit counts what is shown.\<close>

fun list_entries :: "fs_api \<Rightarrow> string \<Rightarrow> (string + string) list \<Rightarrow> nat \<Rightarrow> nat \<Rightarrow> FileRef list fs" where
  "list_entries F dir [] offset limit = ret []"
| "list_entries F dir (Inl _ # es) offset limit = list_entries F dir es offset limit"
| "list_entries F dir (Inr name # es) offset limit =
     (if offset > 0 then list_entries F dir es (offset - 1) limit
      else
        let path = join_path dir name in
        if hidden path then list_entries F dir es offset limit
        else
          matchE (call (ans_stat F) (EntryMetadata path))
            (\<lambda>_. list_entries F dir es offset limit)
            (\<lambda>m. if limit > 0
               then tryE (list_entries F dir es offset (limit - 1)) (\<lambda>fs. ret (parse_file_ref path m # fs))
               else ret []))"

definition max_limit :: nat where
  "max_limit = 2 ^ 64 - 1"

definition get_metadata :: "fs_api \<Rightarrow> string \<Rightarrow> string \<Rightarrow> nat \<Rightarrow> nat \<Rightarrow> FileEntry Response fs" where
  "get_metadata F data_dir path offset limit =
     (let limit = min limit max_limit; path = local_path path in
      matchE (call (ans_stat F) (SymlinkMetadata path)) (\<lambda>_. ret not_found) (\<lambda>m.
      tryE (if md_is_dir m
          then matchE (call (ans_dir F) (ReadDir path)) (\<lambda>_. ret []) (\<lambda>es. list_entries F path es offset limit)
          else ret []) (\<lambda>files.
      ret \<lparr>response_status = 200, response_body = Some \<lparr>entry_ref = parse_file_ref path m, entry_files = files\<rparr>\<rparr>)))"

definition handle_metadata ::
  "fs_api \<Rightarrow> (string \<Rightarrow> string option) \<Rightarrow> BrowserRequest \<Rightarrow> string \<Rightarrow> string \<Rightarrow> nat \<Rightarrow> nat \<Rightarrow> FileEntry Response fs" where
  "handle_metadata F decode r base data_dir offset limit =
     (case parse_path decode r base ''/metadata'' of
        None \<Rightarrow> ret not_found
      | Some path \<Rightarrow> (case request_method r of Get \<Rightarrow> get_metadata F data_dir path offset limit | OtherMethod \<Rightarrow> ret not_found))"

definition get_global :: "GlobalConfigurationSpec \<Rightarrow> GlobalConfiguration Response" where
  "get_global conf = \<lparr>response_status = 200, response_body = Some \<lparr>global_spec = conf, global_user = None\<rparr>\<rparr>"

section \<open>Nothing guards the files\<close>

definition plain_path :: "string \<Rightarrow> bool" where
  "plain_path p \<longleftrightarrow> list_all (\<lambda>c. c \<noteq> CHR ''%'' \<and> (of_char c :: nat) < 128) p"

text \<open>What the library documents: a text without an escape is decoded to itself.\<close>

definition decodes_plain :: "(string \<Rightarrow> string option) \<Rightarrow> bool" where
  "decodes_plain decode \<longleftrightarrow> (\<forall>p. plain_path p \<longrightarrow> decode p = Some p)"

text \<open>C29.
  A request reaches every file that the server can open: whatever path follows the route, with steps
  upwards as well, the file of that path relative to the working directory is opened and sent, no user is
  asked for, and the configured directory of the data changes nothing.\<close>

theorem requests_reach_any_file:
  assumes "decodes_plain decode" and "plain_path p" and "r = \<lparr>request_path = base @ ''/data'' @ p, request_method = Get\<rparr>"
    and "ans_open_file F [] (OpenFile (local_path p)) = Inr ()"
    and "ans_stat F [OpenFile (local_path p)] (StatFile (local_path p)) = Inr m"
  shows "result_of (handle_data F decode r base data_dir download) =
      Inr \<lparr>response_status = 200, response_body = Some \<lparr>content_type = content_type_of download (local_path p),
        content_length = md_size m, content_of = local_path p\<rparr>\<rparr>"
proof -
  have "parse_path decode r base ''/data'' = Some p"
    using assms(1-3) by (simp add: parse_path_def decodes_plain_def)
  then have "wp (handle_data F decode r base data_dir download) (\<lambda>x l. x =
      Inr \<lparr>response_status = 200, response_body = Some \<lparr>content_type = content_type_of download (local_path p),
        content_length = md_size m, content_of = local_path p\<rparr>\<rparr>) []"
    using assms(3-5) by (simp add: handle_data_def get_data_def Let_def eff_simps)
  then show ?thesis
    unfolding wp_result .
qed

section \<open>A page of a listing\<close>

text \<open>The reference: drop the offset, keep what is visible, take the limit.\<close>

definition names_of :: "(string + string) list \<Rightarrow> string list" where
  "names_of es = List.map_filter (\<lambda>e. case e of Inl _ \<Rightarrow> None | Inr n \<Rightarrow> Some n) es"

definition page :: "(string \<Rightarrow> Metadata option) \<Rightarrow> string \<Rightarrow> string list \<Rightarrow> nat \<Rightarrow> nat \<Rightarrow> FileRef list" where
  "page st dir names offset limit =
     take limit (List.map_filter (\<lambda>path. if hidden path then None else map_option (parse_file_ref path) (st path))
       (map (join_path dir) (drop offset names)))"

text \<open>A file system that answers the same for a path at any time.\<close>

definition steady_stat :: "fs_api \<Rightarrow> (string \<Rightarrow> Metadata option) \<Rightarrow> bool" where
  "steady_stat F st \<longleftrightarrow> (\<forall>l path. ans_stat F l (EntryMetadata path) = (case st path of None \<Rightarrow> Inl ''gone'' | Some m \<Rightarrow> Inr m))"

lemma names_of_simps [simp]:
  "names_of [] = []" "names_of (Inl x # es) = names_of es" "names_of (Inr n # es) = n # names_of es"
  by (simp_all add: names_of_def)

lemma page_Cons:
  "page st dir (n # ns) 0 limit =
     (case (if hidden (join_path dir n) then None else st (join_path dir n)) of
        None \<Rightarrow> page st dir ns 0 limit
      | Some m \<Rightarrow> if limit > 0 then parse_file_ref (join_path dir n) m # page st dir ns 0 (limit - 1) else [])"
  by (cases limit) (auto simp: page_def split: option.split)

lemma page_skip: "offset > 0 \<Longrightarrow> page st dir (n # ns) offset limit = page st dir ns (offset - 1) limit"
  by (cases offset) (simp_all add: page_def)

lemma wp_list_entries:
  assumes "steady_stat F st"
  shows "wp (list_entries F dir es offset limit) (\<lambda>r l. r = Inr (page st dir (names_of es) offset limit)) l0"
proof (induction es arbitrary: offset limit l0)
  case Nil
  then show ?case by (simp add: wp_ret page_def)
next
  case (Cons e es)
  show ?case
  proof (cases e)
    case (Inl x)
    then show ?thesis using Cons by simp
  next
    case (Inr n)
    let ?path = "join_path dir n"
    show ?thesis
    proof (cases "offset > 0 \<or> hidden ?path")
      case True
      then show ?thesis
        using Inr Cons by (cases "offset > 0") (auto simp: page_skip page_Cons)
    next
      case False
      then have start: "offset = 0" "\<not> hidden ?path" by simp_all
      have answer: "ans_stat F l (EntryMetadata ?path) = (case st ?path of None \<Rightarrow> Inl ''gone'' | Some m \<Rightarrow> Inr m)" for l
        using assms by (simp add: steady_stat_def)
      show ?thesis
      proof (cases "st ?path")
        case None
        then show ?thesis
          using Inr Cons start answer by (simp add: page_Cons Let_def wp_matchE wp_call)
      next
        case (Some m)
        have rest: "wp (tryE (list_entries F dir es 0 (limit - 1)) (\<lambda>fs. ret (parse_file_ref ?path m # fs)))
            (\<lambda>r l. r = Inr (parse_file_ref ?path m # page st dir (names_of es) 0 (limit - 1))) l" for l
          by (rule wp_tryE_seq [OF Cons]) (simp_all add: wp_ret)
        show ?thesis
          using Inr start answer Some rest by (simp add: page_Cons Let_def wp_matchE wp_call wp_ret)
      qed
    qed
  qed
qed

text \<open>C28.
  A page of a directory: the listing is what the plain description says, the entries after the offset,
  without hidden ones and without those that have gone, up to the limit; the offset counts hidden entries while the
  limit does not, so that two pages that follow each other by the limit can show a file twice.\<close>

theorem listing_is_a_page:
  assumes "steady_stat F st" and "ans_stat F [] (SymlinkMetadata (local_path path)) = Inr m" and "md_is_dir m"
    and "ans_dir F [SymlinkMetadata (local_path path)] (ReadDir (local_path path)) = Inr es"
  shows "result_of (get_metadata F data_dir path offset limit) = Inr \<lparr>response_status = 200, response_body = Some
    \<lparr>entry_ref = parse_file_ref (local_path path) m,
     entry_files = page st (local_path path) (names_of es) offset (min limit max_limit)\<rparr>\<rparr>"
proof -
  have "wp (get_metadata F data_dir path offset limit) (\<lambda>x l. x = Inr \<lparr>response_status = 200, response_body = Some
    \<lparr>entry_ref = parse_file_ref (local_path path) m,
     entry_files = page st (local_path path) (names_of es) offset (min limit max_limit)\<rparr>\<rparr>) []"
    using assms(2-4)
    by (auto simp: get_metadata_def Let_def eff_simps intro!: wp_mono [OF wp_list_entries [OF assms(1)]])
  then show ?thesis
    unfolding wp_result .
qed

section \<open>The type of a file\<close>

lemma split_on_nonempty [simp]: "split_on c s \<noteq> []"
  by (induction s) (auto split: list.split)

lemma split_on_hd_empty: "split_on c s = [] # xs \<Longrightarrow> s = [] \<and> xs = [] \<or> (\<exists>t. s = c # t)"
  by (cases s) (auto split: list.splits if_splits)

text \<open>The type that is shown for a file in a listing is the type that it is sent with: for every name that does
  not begin with a dot, the last part of the name and the extension of the path agree.\<close>

theorem shown_type_is_sent_type:
  assumes "ref_name f = n" and "n = c # cs" and "c \<noteq> CHR ''.''" and "file_name path = Some n"
  shows "content_type_of False path = (case file_ty f of Some t \<Rightarrow> mime_type t | None \<Rightarrow> ''text/plain'')"
proof -
  obtain x xs where split: "split_on (CHR ''.'') n = x # xs"
    by (cases "split_on (CHR ''.'') n") auto
  have "x \<noteq> []"
    using split_on_hd_empty [of "CHR ''.''" n xs] split assms(2,3) by auto
  then have "name_extension n = (if xs = [] then None else Some (last xs))"
    using split by (cases xs rule: rev_cases) (auto simp: name_extension_def)
  moreover have "file_ty f = (if xs = [] then None else from_known_extensions (last xs))"
    using split assms(1) by (cases xs) (simp_all add: file_ty_def)
  ultimately show ?thesis
    using assms(4) by (simp add: content_type_of_def extension_def)
qed

section \<open>An example\<close>

definition example_metadata :: Metadata where
  "example_metadata = \<lparr>md_is_dir = True, md_atime = (0, 0), md_mtime = (0, 0), md_ctime = (0, 0), md_size = 7\<rparr>"

text \<open>A directory with a hidden entry first.\<close>

definition example_fs :: fs_api where
  "example_fs = \<lparr>ans_open_file = (\<lambda>_ _. Inr ()), ans_stat = (\<lambda>_ _. Inr example_metadata),
     ans_dir = (\<lambda>_ _. Inr [Inr ''.h'', Inr ''a'', Inr ''b'', Inr ''c''])\<rparr>"

theorem requests_reach_any_file_witness:
  "\<exists>c. result_of (handle_data example_fs Some \<lparr>request_path = ''/data/../../etc/passwd'', request_method = Get\<rparr> [] ''/srv'' False)
     = Inr \<lparr>response_status = 200, response_body = Some c\<rparr> \<and> content_of c = ''./../../etc/passwd''"
proof -
  let ?r = "\<lparr>request_path = ''/data/../../etc/passwd'', request_method = Get\<rparr>"
  have facts: "decodes_plain Some" "plain_path ''/../../etc/passwd''"
    "?r = \<lparr>request_path = [] @ ''/data'' @ ''/../../etc/passwd'', request_method = Get\<rparr>"
    "ans_open_file example_fs [] (OpenFile (local_path ''/../../etc/passwd'')) = Inr ()"
    "ans_stat example_fs [OpenFile (local_path ''/../../etc/passwd'')] (StatFile (local_path ''/../../etc/passwd'')) = Inr example_metadata"
    by (simp_all add: decodes_plain_def plain_path_def example_fs_def)
  have "local_path ''/../../etc/passwd'' = ''./../../etc/passwd''"
    by (simp add: local_path_def trim_end_char_def)
  with requests_reach_any_file [OF facts] show ?thesis
    by auto
qed

theorem listing_is_a_page_witness:
  "map ref_name (case result_of (get_metadata example_fs [] [] 0 2) of
       Inr r \<Rightarrow> (case response_body r of Some e \<Rightarrow> entry_files e | None \<Rightarrow> []) | Inl _ \<Rightarrow> []) = [''a'', ''b'']
   \<and> map ref_name (case result_of (get_metadata example_fs [] [] 2 2) of
       Inr r \<Rightarrow> (case response_body r of Some e \<Rightarrow> entry_files e | None \<Rightarrow> []) | Inl _ \<Rightarrow> []) = [''b'', ''c'']"
proof -
  have facts: "steady_stat example_fs (\<lambda>_. Some example_metadata)"
    "ans_stat example_fs [] (SymlinkMetadata (local_path [])) = Inr example_metadata" "md_is_dir example_metadata"
    "ans_dir example_fs [SymlinkMetadata (local_path [])] (ReadDir (local_path [])) = Inr [Inr ''.h'', Inr ''a'', Inr ''b'', Inr ''c'']"
    by (simp_all add: steady_stat_def example_fs_def example_metadata_def)
  have lim: "min 2 max_limit = 2"
    by (simp add: max_limit_def)
  have pages: "map ref_name (page (\<lambda>_. Some example_metadata) (local_path []) (names_of [Inr ''.h'', Inr ''a'', Inr ''b'', Inr ''c'']) 0 2) = [''a'', ''b'']"
    "map ref_name (page (\<lambda>_. Some example_metadata) (local_path []) (names_of [Inr ''.h'', Inr ''a'', Inr ''b'', Inr ''c'']) 2 2) = [''b'', ''c'']"
    by code_simp+
  show ?thesis
    unfolding listing_is_a_page [OF facts, of "[]" 0 2] listing_is_a_page [OF facts, of "[]" 2 2]
    by (simp only: sum.case option.case Response.simps FileEntry.simps lim pages simp_thms)
qed

theorem shown_type_is_sent_type_witness:
  "content_type_of False ''./x/report.pdf'' = ''application/pdf''"
proof -
  have "content_type_of False ''./x/report.pdf'' =
      (case file_ty (parse_file_ref ''./x/report.pdf'' example_metadata) of Some t \<Rightarrow> mime_type t | None \<Rightarrow> ''text/plain'')"
    by (rule shown_type_is_sent_type [OF refl, of _ "CHR ''r''" "''eport.pdf''"])
      (simp_all add: parse_file_ref_def file_name_def)
  also have "file_ty (parse_file_ref ''./x/report.pdf'' example_metadata) = Some (Document DocumentPdf)"
    by code_simp
  finally show ?thesis
    by (simp add: mime_type_def document_mime_def)
qed

end
