(* ===== verification/Vine_Dashboard.thy ===== *)
theory Vine_Dashboard
  imports Vine_Oauth Ark_Operator
begin

text \<open>
  The dashboard of VINE (\<^verbatim>\<open>crates/openark-vine-dashboard-api/src\<close>,
  \<^verbatim>\<open>-backend/src\<close>, \<^verbatim>\<open>-operator/src\<close> and \<^verbatim>\<open>-jq/src\<close>):
  the data of applications, catalogs, pages, items and tables, the routes that serve them, and the
  evaluation of queries.  The answers of the cluster, the compiled query and the forms of floating-point numbers
  are parameters.
\<close>

section \<open>Values\<close>

text \<open>JSON values; numbers are kept as they are written, and objects keep the order of their keys.\<close>

datatype Value =
  VNull
| VBool bool
| VNumber string
| VString string
| VArray "Value list"
| VObject "(string \<times> Value) list"

text \<open>Values of the query language.\<close>

datatype 'f Val =
  JNull
| JBool bool
| JInt i64
| JFloat 'f
| JNum string
| JStr string
| JArr "'f Val list"
| JObj "(string \<times> 'f Val) list"

datatype 'j jq_error = Hifijson string | InvalidNumber | Jaq 'j | JsonError string | Report string

text \<open>Numbers that the library accepts: a float that is finite, and a text that is a number.\<close>

record 'f number_lib =
  number_of_float :: "'f \<Rightarrow> string option"
  number_of_text :: "string \<Rightarrow> string + string"

fun collect :: "('e + 'a) list \<Rightarrow> 'e + 'a list" where
  "collect [] = Inr []"
| "collect (Inl e # xs) = Inl e"
| "collect (Inr a # xs) = (case collect xs of Inl e \<Rightarrow> Inl e | Inr as \<Rightarrow> Inr (a # as))"

fun convert_value :: "'f number_lib \<Rightarrow> 'f Val \<Rightarrow> 'j jq_error + Value" where
  "convert_value N JNull = Inr VNull"
| "convert_value N (JBool b) = Inr (VBool b)"
| "convert_value N (JInt n) = Inr (VNumber (int_str n))"
| "convert_value N (JFloat f) = (case number_of_float N f of None \<Rightarrow> Inl InvalidNumber | Some s \<Rightarrow> Inr (VNumber s))"
| "convert_value N (JNum s) = (case number_of_text N s of Inl e \<Rightarrow> Inl (JsonError e) | Inr n \<Rightarrow> Inr (VNumber n))"
| "convert_value N (JStr s) = Inr (VString s)"
| "convert_value N (JArr vs) =
     (case collect (map (convert_value N) vs) of Inl e \<Rightarrow> Inl e | Inr xs \<Rightarrow> Inr (VArray xs))"
| "convert_value N (JObj es) =
     (case collect (map (\<lambda>(k, v). case convert_value N v of Inl e \<Rightarrow> Inl e | Inr x \<Rightarrow> Inr (k, x)) es) of
        Inl e \<Rightarrow> Inl e | Inr xs \<Rightarrow> Inr (VObject xs))"

section \<open>Queries\<close>

record Settings =
  null_input :: bool
  raw_input :: bool
  slurp :: bool

text \<open>\<^verbatim>\<open>str::lines\<close>.\<close>

definition chomp :: "string \<Rightarrow> string" where
  "chomp l = (if l \<noteq> [] \<and> last l = CHR 0x0D then butlast l else l)"

definition text_lines :: "string \<Rightarrow> string list" where
  "text_lines s =
     (let ls = split_on (CHR 0x0A) s; last_line = last ls in
      map chomp (butlast ls) @ (if last_line = [] then [] else [last_line]))"

definition collect_if :: "bool \<Rightarrow> (string + 'f Val) list \<Rightarrow> (string + 'f Val) list" where
  "collect_if s vals = (if s then [case collect vals of Inl e \<Rightarrow> Inl e | Inr vs \<Rightarrow> Inr (JArr vs)] else vals)"

definition read_str :: "(string \<Rightarrow> (string + 'f Val) list) \<Rightarrow> Settings \<Rightarrow> string \<Rightarrow> (string + 'f Val) list" where
  "read_str json_slice S input =
     (if raw_input S then map (\<lambda>l. Inr (JStr l)) (if slurp S then [input] else text_lines input)
      else collect_if (slurp S) (json_slice input))"

text \<open>A compiled query gets a value and the inputs that are left; it gives values or errors in order, and says how
  many of the inputs it has used.\<close>

type_synonym ('f, 'j) filter = "(string + 'f Val) list \<Rightarrow> 'f Val \<Rightarrow> ('j + 'f Val) list \<times> nat"

fun outputs :: "('j + 'f Val) list \<Rightarrow> 'j jq_error + 'f Val list" where
  "outputs [] = Inr []"
| "outputs (Inl e # ys) = Inl (Jaq e)"
| "outputs (Inr v # ys) = (case outputs ys of Inl e \<Rightarrow> Inl e | Inr vs \<Rightarrow> Inr (v # vs))"

function process_inputs :: "('f, 'j) filter \<Rightarrow> (string + 'f Val) list \<Rightarrow> 'j jq_error + 'f Val list" where
  "process_inputs flt [] = Inr []"
| "process_inputs flt (Inl e # xs) = Inl (Hifijson e)"
| "process_inputs flt (Inr x # xs) =
     (case flt xs x of (ys, used) \<Rightarrow>
        (case outputs ys of
           Inl e \<Rightarrow> Inl e
         | Inr vs \<Rightarrow> (case process_inputs flt (drop used xs) of Inl e \<Rightarrow> Inl e | Inr ws \<Rightarrow> Inr (vs @ ws))))"
  by pat_completeness auto
termination
  by (relation "measure (\<lambda>(_, xs). length xs)") auto

definition process_query ::
  "(string + ('f, 'j) filter) \<Rightarrow> (string \<Rightarrow> (string + 'f Val) list) \<Rightarrow> string \<Rightarrow> Settings \<Rightarrow> 'j jq_error + 'f Val list" where
  "process_query compiled json_slice input S =
     (case compiled of
        Inl e \<Rightarrow> Inl (Report e)
      | Inr flt \<Rightarrow>
          let inputs = read_str json_slice S input in
          if null_input S then (case outputs (fst (flt inputs JNull)) of Inl e \<Rightarrow> Inl e | Inr vs \<Rightarrow> Inr vs)
          else process_inputs flt inputs)"

definition run_query ::
  "'f number_lib \<Rightarrow> (string \<Rightarrow> string + ('f, 'j) filter) \<Rightarrow> (string \<Rightarrow> (string + 'f Val) list) \<Rightarrow> string \<Rightarrow> string \<Rightarrow>
     Settings \<Rightarrow> 'j jq_error + Value" where
  "run_query N compile json_slice code input S =
     (case process_query (compile code) json_slice input S of
        Inl e \<Rightarrow> Inl e
      | Inr [] \<Rightarrow> Inr VNull
      | Inr [v] \<Rightarrow> convert_value N v
      | Inr vs \<Rightarrow> (case collect (map (convert_value N) vs) of Inl e \<Rightarrow> Inl e | Inr xs \<Rightarrow> Inr (VArray xs)))"

section \<open>Catalogs\<close>

datatype CatalogItemType = Link

record CatalogItemSpec =
  item_type :: CatalogItemType
  item_thumbnail_url :: "string option"
  item_url :: "string option"

record CatalogItem =
  item_name :: string
  item_title :: "string option"
  item_description :: "string option"
  item_created_at :: "timestamp option"
  item_updated_at :: "timestamp option"
  item_spec :: CatalogItemSpec

record CatalogCategory =
  category_name :: string
  category_title :: "string option"
  category_description :: "string option"
  category_children :: "CatalogItem list"

record CatalogItemCrd =
  catalog_meta :: ObjectMeta
  catalog_spec :: CatalogItemSpec

section \<open>Items and tables\<close>

datatype ItemFieldKind = IntegerField | StringField

record ItemField =
  field_name :: string
  field_kind :: ItemFieldKind
  field_optional :: bool
  field_title :: "string option"
  field_description :: "string option"
  field_default :: Value
  field_placeholder :: "string option"
  field_max_length :: "nat option"
  field_min_length :: nat
  field_max_value :: Value
  field_min_value :: Value

record ItemMetadataTemplate =
  template_fields :: "ItemField list"

record ItemMetadata =
  item_base_url :: string
  item_template :: ItemMetadataTemplate

record Item =
  item_metadata :: ItemMetadata
  item_values :: "(string \<times> Value) list option"

record TableService =
  service_on :: bool

record TableServices =
  svc_create :: TableService
  svc_delete :: TableService
  svc_get :: TableService
  svc_get_collection :: TableService
  svc_update :: TableService

datatype TableExtraServiceKind = Navigate | VNC

record TableExtraService =
  extra_name :: string
  extra_kind :: TableExtraServiceKind
  extra_alias :: "string option"
  extra_json_path :: "string option"
  extra_title :: "string option"
  extra_description :: "string option"
  extra_visible :: bool
  extra_single :: bool
  extra_multiple :: bool
  extra_side_effect :: bool

datatype TablePrinterColumnKind = ElapsedTime | ImageUrl | Level | StringColumn

record TablePrinterColumnPrefix =
  prefix_name :: "string option"
  prefix_kind :: TablePrinterColumnKind
  prefix_json_path :: string

record TablePrinterColumnSecondary =
  secondary_json_path :: string

record TablePrinterColumnTags =
  tags_json_path :: string

record TablePrinterColumn =
  column_name :: string
  column_kind :: TablePrinterColumnKind
  column_json_path :: string
  column_description :: "string option"
  column_prefixes :: "TablePrinterColumnPrefix list option"
  column_secondary :: "TablePrinterColumnSecondary option"
  column_tags :: "TablePrinterColumnTags option"

record TableSpec =
  table_base_url :: string
  table_services :: TableServices
  table_extra_services :: "TableExtraService list option"
  table_printer_columns :: "TablePrinterColumn list option"
  table_schema :: ItemMetadataTemplate

record TableCrd =
  table_meta :: ObjectMeta
  table_spec :: TableSpec

record TableSession =
  total_rows :: "nat option"
  session_table :: TableSpec

section \<open>Pages and applications\<close>

datatype PageKind = Table

record PageRef =
  page_kind :: PageKind
  page_namespace :: string
  page_name :: string

definition page_kind_str :: "PageKind \<Rightarrow> string" where
  "page_kind_str k = (case k of Table \<Rightarrow> ''tables'')"

definition page_kind_parse :: "string \<Rightarrow> PageKind option" where
  "page_kind_parse s = (if s = ''tables'' then Some Table else None)"

definition page_ref_str :: "PageRef \<Rightarrow> string" where
  "page_ref_str r = page_kind_str (page_kind r) @ ''/'' @ page_namespace r @ ''/'' @ page_name r"

text \<open>\<^verbatim>\<open>None\<close> is the error of an invalid page address.\<close>

definition page_ref_parse :: "string \<Rightarrow> PageRef option" where
  "page_ref_parse s =
     (case split_on (CHR ''/'') s of
        kind # parts \<Rightarrow>
          (case page_kind_parse kind of
             None \<Rightarrow> None
           | Some k \<Rightarrow>
               (case parts of
                  [ns, name] \<Rightarrow> Some \<lparr>page_kind = k, page_namespace = ns, page_name = name\<rparr>
                | _ \<Rightarrow> None))
      | [] \<Rightarrow> None)"

record PageMetadata =
  page_object :: PageRef
  page_title :: "string option"
  page_description :: "string option"

datatype PageSpec = TablePage TableSession

record AppMetadata =
  app_name :: string
  app_title :: "string option"
  app_description :: "string option"

record AppSpec =
  app_catalog :: "CatalogCategory list"
  app_pages :: "PageMetadata list"

record App =
  app_metadata :: AppMetadata
  app_spec :: AppSpec

section \<open>Routes\<close>

record DashboardLabels =
  label_category :: string
  label_description :: string
  label_title :: string

definition annotation_of :: "ObjectMeta \<Rightarrow> string \<Rightarrow> string option" where
  "annotation_of m k = Option.bind (meta_annotations m) (\<lambda>ls. bt_get ls k)"

definition category_of :: "DashboardLabels \<Rightarrow> CatalogItemCrd \<Rightarrow> string" where
  "category_of L c = unwrap_or ''default'' (label_of (catalog_meta c) (label_category L))"

definition new_category :: "string \<Rightarrow> CatalogCategory" where
  "new_category n = \<lparr>category_name = n, category_title = None, category_description = None, category_children = []\<rparr>"

definition convert_item :: "DashboardLabels \<Rightarrow> CatalogItemCrd \<Rightarrow> CatalogItem" where
  "convert_item L c =
     \<lparr>item_name = name_any (catalog_meta c), item_title = annotation_of (catalog_meta c) (label_title L),
      item_description = annotation_of (catalog_meta c) (label_description L),
      item_created_at = meta_creation (catalog_meta c), item_updated_at = None, item_spec = catalog_spec c\<rparr>"

definition add_item ::
  "DashboardLabels \<Rightarrow> CatalogItemCrd \<Rightarrow> (string \<times> CatalogCategory) list \<Rightarrow> (string \<times> CatalogCategory) list" where
  "add_item L c m =
     (let k = category_of L c; category = unwrap_or (new_category k) (bt_get m k) in
      bt_insert k (category\<lparr>category_children := category_children category @ [convert_item L c]\<rparr>) m)"

definition convert_catalog :: "DashboardLabels \<Rightarrow> CatalogItemCrd list \<Rightarrow> CatalogCategory list" where
  "convert_catalog L items = map snd (fold (add_item L) items [])"

definition convert_table_metadata :: "DashboardLabels \<Rightarrow> ObjectMeta \<Rightarrow> PageMetadata option" where
  "convert_table_metadata L m =
     (case meta_namespace m of
        None \<Rightarrow> None
      | Some ns \<Rightarrow> Some \<lparr>page_object = \<lparr>page_kind = Table, page_namespace = ns, page_name = name_any m\<rparr>,
          page_title = annotation_of m (label_title L), page_description = annotation_of m (label_description L)\<rparr>)"

text \<open>The calls carry the connection of the request.\<close>

datatype dashboard_call = ListCatalogItems Config | ListTables Config | GetTable Config string string

record dashboard_api =
  ans_catalog :: "dashboard_call list \<Rightarrow> dashboard_call \<Rightarrow> string + CatalogItemCrd list"
  ans_tables :: "dashboard_call list \<Rightarrow> dashboard_call \<Rightarrow> string + ObjectMeta list"
  ans_table :: "dashboard_call list \<Rightarrow> dashboard_call \<Rightarrow> string + TableCrd option"

type_synonym 'a dashboard = "(dashboard_call, string, 'a) eff"

definition get_app ::
  "dashboard_api \<Rightarrow> AppMetadata \<Rightarrow> DashboardLabels \<Rightarrow> User option KubernetesClient \<Rightarrow> (nat \<times> App option) dashboard" where
  "get_app D app L k =
     matchE (call (ans_catalog D) (ListCatalogItems (kube_client k))) (\<lambda>_. ret (500, None)) (\<lambda>items.
     matchE (call (ans_tables D) (ListTables (kube_client k))) (\<lambda>_. ret (500, None)) (\<lambda>tables.
     ret (200, Some \<lparr>app_metadata = app, app_spec = \<lparr>app_catalog = convert_catalog L items,
       app_pages = List.map_filter (convert_table_metadata L) tables\<rparr>\<rparr>)))"

definition get_table ::
  "dashboard_api \<Rightarrow> string \<Rightarrow> string \<Rightarrow> User option KubernetesClient \<Rightarrow> (nat \<times> PageSpec option) dashboard" where
  "get_table D ns name k =
     matchE (call (ans_table D) (GetTable (kube_client k) ns name)) (\<lambda>_. ret (500, None)) (\<lambda>ot.
     case ot of
       Some t \<Rightarrow> ret (200, Some (TablePage \<lparr>total_rows = None, session_table = table_spec t\<rparr>))
     | None \<Rightarrow> ret (404, None))"

definition get_me :: "UserGuard option \<Rightarrow> nat \<times> User option" where
  "get_me g = (200, map_option guard_user g)"

text \<open>The operator installs the definitions of catalog items and of tables.\<close>

definition install_dashboard_crds ::
  "('d crd_call list \<Rightarrow> 'd crd_call \<Rightarrow> error + ObjectMeta option) \<Rightarrow> ('d crd_call list \<Rightarrow> 'd crd_call \<Rightarrow> error + unit) \<Rightarrow>
     OperatorArgs \<Rightarrow> (string \<times> 'd) \<Rightarrow> (string \<times> 'd) \<Rightarrow> ('d crd_call, error, unit) eff" where
  "install_dashboard_crds ans_meta ans args catalog table =
     tryE (install_crd ans_meta ans args (fst catalog) (snd catalog)) (\<lambda>_.
     install_crd ans_meta ans args (fst table) (snd table))"

section \<open>Addresses of pages\<close>

lemma split_on_plain [simp]: "c \<notin> set x \<Longrightarrow> split_on c x = [x]"
  by (induction x) auto

lemma split_on_more [simp]: "c \<notin> set x \<Longrightarrow> split_on c (x @ c # s) = x # split_on c s"
  by (induction x) auto

lemma split_on_intercalate: "s = join [c] (split_on c s)"
proof (induction s)
  case Nil
  then show ?case by simp
next
  case (Cons x xs)
  obtain y ys where "split_on c xs = y # ys"
    by (cases "split_on c xs") (cases xs; auto split: list.splits if_splits)+
  then show ?case
    using Cons by (cases ys) auto
qed

text \<open>The address of a page is read back: an address that is printed from a reference without slashes in its
  names parses to that reference, and every text that parses is the address of what it parses to, so that
  a page has one address only.\<close>

theorem page_ref_round_trip:
  "(CHR ''/'' \<notin> set (page_namespace r) \<longrightarrow> CHR ''/'' \<notin> set (page_name r) \<longrightarrow> page_ref_parse (page_ref_str r) = Some r)
   \<and> (page_ref_parse s = Some r \<longrightarrow> page_ref_str r = s)"
proof (intro conjI impI)
  assume names: "CHR ''/'' \<notin> set (page_namespace r)" "CHR ''/'' \<notin> set (page_name r)"
  have "split_on (CHR ''/'') (page_ref_str r) = [''tables'', page_namespace r, page_name r]"
    using names split_on_more [of "CHR ''/''" "''tables''"]
    by (cases "page_kind r") (simp add: page_ref_str_def page_kind_str_def)
  then show "page_ref_parse (page_ref_str r) = Some r"
    by (cases r; cases "page_kind r") (simp add: page_ref_parse_def page_kind_parse_def)
next
  assume "page_ref_parse s = Some r"
  then have "split_on (CHR ''/'') s = [''tables'', page_namespace r, page_name r]"
    by (auto simp: page_ref_parse_def page_kind_parse_def split: list.splits option.splits if_splits)
  then show "page_ref_str r = s"
    using split_on_intercalate [of s "CHR ''/''"] by (cases "page_kind r") (simp add: page_ref_str_def page_kind_str_def)
qed

section \<open>The catalog is a grouping\<close>

definition group :: "DashboardLabels \<Rightarrow> CatalogItemCrd list \<Rightarrow> string \<Rightarrow> CatalogCategory" where
  "group L items k = (new_category k)\<lparr>category_children := map (convert_item L) (filter (\<lambda>c. category_of L c = k) items)\<rparr>"

lemma add_item_get:
  "bt_get (add_item L c m) k = (if k = category_of L c
     then Some (let category = unwrap_or (new_category k) (bt_get m k)
       in category\<lparr>category_children := category_children category @ [convert_item L c]\<rparr>)
     else bt_get m k)"
  by (simp add: add_item_def Let_def bt_get_insert)

lemma add_item_sorted: "bt_sorted m \<Longrightarrow> bt_sorted (add_item L c m)"
  by (simp add: add_item_def Let_def bt_sorted_insert)

lemma sorted_dict_values:
  assumes "bt_sorted m" and "\<And>k. bt_get m k = (if k \<in> K then Some (f k) else None)"
  shows "map snd m = map f (sorted_list_of_set K)"
proof -
  have law: "bt_get m k = Some v \<longleftrightarrow> (k, v) \<in> set m" for k v
    using assms(1) unfolding bt_get_def bt_sorted_def by (simp add: map_of_eq_Some_iff strict_sorted_iff)
  have "set (map fst m) = K"
  proof (intro set_eqI iffI)
    fix k assume "k \<in> set (map fst m)"
    then obtain v where "(k, v) \<in> set m" by auto
    then show "k \<in> K" using law [of k v] assms(2) [of k] by (auto split: if_splits)
  next
    fix k assume "k \<in> K"
    then have "(k, f k) \<in> set m" using law [of k "f k"] assms(2) [of k] by simp
    then show "k \<in> set (map fst m)" by force
  qed
  moreover have "sorted_wrt (<) (map fst m)"
    using assms(1) by (simp add: bt_sorted_def)
  ultimately have keys: "map fst m = sorted_list_of_set K"
    by (metis sorted_list_of_set_unique strict_sorted_iff List.finite_set distinct_card length_map)
  have "map snd m = map (\<lambda>e. f (fst e)) m"
  proof (rule map_cong [OF refl])
    fix e assume "e \<in> set m"
    then have "bt_get m (fst e) = Some (snd e)" using law by simp
    then show "snd e = f (fst e)" using assms(2) [of "fst e"] by (simp split: if_splits)
  qed
  then show ?thesis
    by (simp add: comp_def flip: keys)
qed

lemma group_items:
  "bt_sorted (fold (add_item L) items [])
   \<and> (\<forall>k. bt_get (fold (add_item L) items []) k =
        (if k \<in> category_of L ` set items then Some (group L items k) else None))"
proof (induction items rule: rev_induct)
  case Nil
  then show ?case by (simp add: bt_get_def bt_sorted_def)
next
  case (snoc c items)
  let ?m = "fold (add_item L) items []"
  have "bt_sorted (add_item L c ?m)"
    using snoc add_item_sorted by blast
  moreover have "bt_get (add_item L c ?m) k =
      (if k \<in> category_of L ` set (items @ [c]) then Some (group L (items @ [c]) k) else None)" for k
  proof (cases "k = category_of L c")
    case True
    have "filter (\<lambda>c'. category_of L c' = category_of L c) items = []" if "category_of L c \<notin> category_of L ` set items"
      using that by (auto simp: filter_empty_conv) (metis imageI)
    then show ?thesis
      using snoc True by (auto simp: add_item_get Let_def group_def unwrap_or_def new_category_def)
  next
    case False
    then show ?thesis
      using snoc by (auto simp: add_item_get group_def)
  qed
  ultimately show ?case by simp
qed

text \<open>C30.
  The catalog groups its items: the categories come in the order of their names, each once, and a category is
  exactly the items with its label, in the order of the list; items without a label are in the
  default category.\<close>

theorem catalog_groups_items:
  "convert_catalog L items = map (group L items) (sorted_list_of_set (category_of L ` set items))"
  unfolding convert_catalog_def by (rule sorted_dict_values) (use group_items in blast)+

section \<open>Queries fail on numbers that are none\<close>

fun representable :: "'f number_lib \<Rightarrow> 'f Val \<Rightarrow> bool" where
  "representable N (JFloat f) = (number_of_float N f \<noteq> None)"
| "representable N (JNum s) = (\<not> isl (number_of_text N s))"
| "representable N (JArr vs) = list_all (representable N) vs"
| "representable N (JObj es) = list_all (\<lambda>(k, v). representable N v) es"
| "representable N _ = True"

lemma collect_ok: "isl (collect xs) = list_ex isl xs"
  by (induction xs rule: collect.induct) (auto split: sum.splits simp: isl_def)

lemma convert_value_ok: "isl (convert_value N v :: 'j jq_error + Value) = (\<not> representable N v)"
proof (induction N v rule: convert_value.induct)
  case (7 N vs)
  have "isl (convert_value N (JArr vs) :: 'j jq_error + Value) = isl (collect (map (convert_value N :: _ \<Rightarrow> 'j jq_error + Value) vs))"
    by (simp split: sum.split)
  then show ?case
    using 7 by (auto simp: collect_ok list_ex_iff list_all_iff)
next
  case (8 N es)
  let ?f = "\<lambda>(k, v). case (convert_value N v :: 'j jq_error + Value) of Inl e \<Rightarrow> Inl e | Inr x \<Rightarrow> Inr (k, x)"
  have "isl (convert_value N (JObj es) :: 'j jq_error + Value) = isl (collect (map ?f es))"
    by (simp split: sum.split)
  moreover have "isl (?f e) = isl (convert_value N (snd e) :: 'j jq_error + Value)" for e
    by (cases e) (simp split: sum.split)
  ultimately show ?case
    using 8 by (force simp: collect_ok list_ex_iff list_all_iff)
qed (auto split: option.split sum.split)

text \<open>A query whose values have all come answers exactly if its numbers can be written: no value
  gives null, one gives itself, more give an array, and the answer is an error if and only if a number, however
  deep, is not finite or not a number.\<close>

theorem query_answers_numbers:
  assumes "process_query (compile code) json_slice input S = (Inr vs :: 'j jq_error + 'f Val list)"
  shows "isl (run_query N compile json_slice code input S :: 'j jq_error + Value) \<longleftrightarrow> \<not> list_all (representable N) vs"
proof (cases vs)
  case Nil
  then show ?thesis using assms by (simp add: run_query_def)
next
  case (Cons v ws)
  show ?thesis
  proof (cases ws)
    case Nil
    then show ?thesis
      using assms Cons convert_value_ok [of N v] by (simp add: run_query_def)
  next
    case more: (Cons w us)
    have "isl (run_query N compile json_slice code input S :: 'j jq_error + Value)
        = isl (collect (map (convert_value N :: _ \<Rightarrow> 'j jq_error + Value) vs))"
      using assms Cons more by (simp add: run_query_def split: sum.split)
    then show ?thesis
      by (auto simp: collect_ok list_ex_iff list_all_iff convert_value_ok)
  qed
qed

text \<open>A query that gives each input back, on a number and one that is not.\<close>

definition example_numbers :: "nat number_lib" where
  "example_numbers = \<lparr>number_of_float = (\<lambda>f. if f = 0 then None else Some ''1.0''), number_of_text = Inr\<rparr>"

definition example_compile :: "string \<Rightarrow> string + (nat, unit) filter" where
  "example_compile code = Inr (\<lambda>_ x. ([Inr x], 0))"

definition example_settings :: Settings where
  "example_settings = \<lparr>null_input = False, raw_input = False, slurp = False\<rparr>"

theorem query_answers_numbers_witness:
  "isl (run_query example_numbers example_compile (\<lambda>_. [Inr (JInt 1), Inr (JArr [JFloat 0])]) ''.'' [] example_settings)"
proof -
  have "process_query (example_compile ''.'') (\<lambda>_. [Inr (JInt 1), Inr (JArr [JFloat 0])]) [] example_settings
      = (Inr [JInt 1, JArr [JFloat 0]] :: unit jq_error + nat Val list)"
    by (simp add: process_query_def example_compile_def example_settings_def read_str_def collect_if_def)
  note step = query_answers_numbers [where compile = example_compile and json_slice = "\<lambda>_. [Inr (JInt 1), Inr (JArr [JFloat 0])]"
      and code = "''.''" and input = "[]" and S = example_settings and vs = "[JInt 1, JArr [JFloat 0]]" and N = example_numbers]
  show ?thesis
    using step [OF \<open>process_query _ _ _ _ = _\<close>] by (simp add: example_numbers_def)
qed

theorem page_ref_round_trip_witness:
  "page_ref_parse (page_ref_str \<lparr>page_kind = Table, page_namespace = ''vine'', page_name = ''boxes''\<rparr>)
     = Some \<lparr>page_kind = Table, page_namespace = ''vine'', page_name = ''boxes''\<rparr>"
  using page_ref_round_trip [of "\<lparr>page_kind = Table, page_namespace = ''vine'', page_name = ''boxes''\<rparr>"] by simp

end
