(* ===== verification/Vine_Front_Io.thy ===== *)
theory Vine_Front_Io
  imports Vine_Browser Ark_Kube
begin

text \<open>
  Uploads and downloads of the file browser in the web page
  (\<^verbatim>\<open>crates/openark-vine-browser-frontend/src/pages/directory/io.rs\<close> and \<^verbatim>\<open>upload.rs\<close>):
  the queue of tasks with its scheduler, the hooks of a request that sends a file, and the dragging
  of files.  The page is a function of the events of the web browser; drawing it is left out.
\<close>

section \<open>Tasks\<close>

datatype IOKind = Download | Upload

record IOTaskRef =
  task_timestamp :: timestamp
  task_kind :: IOKind
  task_path :: string

text \<open>A counted reference: the reducer compares addresses.\<close>

record IOTaskRc =
  rc_addr :: nat
  rc_value :: IOTaskRef

datatype 'c IOTaskResult = Pending 'c 'c | Running 'c | Completed | Failed string

definition result_from :: "string + unit \<Rightarrow> 'c IOTaskResult" where
  "result_from r = (case r of Inr _ \<Rightarrow> Completed | Inl e \<Rightarrow> Failed e)"

record 'c IOTask =
  task_r :: IOTaskRc
  task_current :: u64
  task_total :: u64
  task_result :: "'c IOTaskResult"

text \<open>The callbacks that a step emits, in order.\<close>

definition cancel_task :: "'c IOTask \<Rightarrow> 'c list" where
  "cancel_task t = (case task_result t of Pending s c \<Rightarrow> [c] | Running c \<Rightarrow> [c] | _ \<Rightarrow> [])"

datatype 'c IOAction =
  Enqueue IOTaskRc 'c 'c "u64 option"
| EnqueueAsCompleted IOTaskRc "u64 option" "string + unit"
| Cancel nat
| CancelAll
| Progress IOTaskRc u64 u64
| Complete IOTaskRc "string + unit"

record 'c IOState =
  max_concurrent_task :: nat
  io_queue :: "'c IOTask list"

definition MAX_CONCURRENT_TASKS :: nat where
  "MAX_CONCURRENT_TASKS = 8"

definition io_default :: "'c IOState" where
  "io_default = \<lparr>max_concurrent_task = MAX_CONCURRENT_TASKS, io_queue = []\<rparr>"

text \<open>\<^verbatim>\<open>IOState::get\<close> with a change: the first task with the address.\<close>

fun io_update :: "IOTaskRc \<Rightarrow> ('c IOTask \<Rightarrow> 'c IOTask) \<Rightarrow> 'c IOTask list \<Rightarrow> 'c IOTask list" where
  "io_update r f [] = []"
| "io_update r f (t # ts) = (if rc_addr (task_r t) = rc_addr r then f t # ts else t # io_update r f ts)"

definition is_running :: "'c IOTask \<Rightarrow> bool" where
  "is_running t \<longleftrightarrow> (case task_result t of Running _ \<Rightarrow> True | _ \<Rightarrow> False)"

fun start_pending :: "nat \<Rightarrow> 'c IOTask list \<Rightarrow> 'c IOTask list \<times> 'c list" where
  "start_pending n [] = ([], [])"
| "start_pending n (t # ts) =
     (case task_result t of
        Pending s c \<Rightarrow>
          (let t' = t\<lparr>task_result := Running c\<rparr> in
           if n - 1 = 0 then (t' # ts, [s])
           else (case start_pending (n - 1) ts of (us, cs) \<Rightarrow> (t' # us, s # cs)))
      | _ \<Rightarrow> (case start_pending n ts of (us, cs) \<Rightarrow> (t # us, cs)))"

definition schedule_tasks :: "'c IOState \<Rightarrow> 'c IOState \<times> 'c list" where
  "schedule_tasks S =
     (let num_running = length (filter is_running (io_queue S)) in
      if num_running < max_concurrent_task S
      then (case start_pending (max_concurrent_task S - num_running) (io_queue S) of
          (q, cs) \<Rightarrow> (S\<lparr>io_queue := q\<rparr>, cs))
      else (S, []))"

definition io_reduce :: "'c IOAction \<Rightarrow> 'c IOState \<Rightarrow> 'c IOState \<times> 'c list" where
  "io_reduce a S =
     (case a of
        Enqueue r onstart oncancel bytes \<Rightarrow>
          schedule_tasks (S\<lparr>io_queue := io_queue S @ [\<lparr>task_r = r, task_current = 0, task_total = unwrap_or 0 bytes,
            task_result = Pending onstart oncancel\<rparr>]\<rparr>)
      | EnqueueAsCompleted r bytes res \<Rightarrow>
          (S\<lparr>io_queue := io_queue S @ [\<lparr>task_r = r, task_current = unwrap_or 0 bytes, task_total = unwrap_or 0 bytes,
            task_result = result_from res\<rparr>]\<rparr>, [])
      | Cancel i \<Rightarrow>
          (if i < length (io_queue S)
           then (case schedule_tasks (S\<lparr>io_queue := take i (io_queue S) @ drop (i + 1) (io_queue S)\<rparr>) of
               (S', cs) \<Rightarrow> (S', cancel_task (io_queue S ! i) @ cs))
           else schedule_tasks S)
      | CancelAll \<Rightarrow> (S\<lparr>io_queue := []\<rparr>, concat (map cancel_task (io_queue S)))
      | Progress r current bytes \<Rightarrow>
          (S\<lparr>io_queue := io_update r (\<lambda>t. t\<lparr>task_current := current, task_total := bytes\<rparr>) (io_queue S)\<rparr>, [])
      | Complete r res \<Rightarrow>
          schedule_tasks (S\<lparr>io_queue := io_update r (\<lambda>t. t\<lparr>task_result := result_from res\<rparr>) (io_queue S)\<rparr>))"

section \<open>The queue in every state\<close>

definition is_pending :: "'c IOTask \<Rightarrow> bool" where
  "is_pending t \<longleftrightarrow> (case task_result t of Pending _ _ \<Rightarrow> True | _ \<Rightarrow> False)"

text \<open>No task waits before one that runs.\<close>

fun in_order :: "'c IOTask list \<Rightarrow> bool" where
  "in_order [] \<longleftrightarrow> True"
| "in_order (t # ts) \<longleftrightarrow> (is_pending t \<longrightarrow> \<not> list_ex is_running ts) \<and> in_order ts"

definition scheduled :: "'c IOState \<Rightarrow> bool" where
  "scheduled S \<longleftrightarrow> length (filter is_running (io_queue S)) \<le> max_concurrent_task S
     \<and> (list_ex is_pending (io_queue S) \<longrightarrow> length (filter is_running (io_queue S)) = max_concurrent_task S)
     \<and> in_order (io_queue S)"

lemma task_result_simps [simp]:
  "task_result t = Pending s c \<Longrightarrow> is_pending t" "task_result t = Pending s c \<Longrightarrow> \<not> is_running t"
  "task_result t = Running c \<Longrightarrow> is_running t" "task_result t = Running c \<Longrightarrow> \<not> is_pending t"
  "is_running (t\<lparr>task_result := Running c\<rparr>)" "\<not> is_pending (t\<lparr>task_result := Running c\<rparr>)"
  "\<not> is_running (t\<lparr>task_result := result_from r\<rparr>)" "\<not> is_pending (t\<lparr>task_result := result_from r\<rparr>)"
  by (simp_all add: is_pending_def is_running_def result_from_def split: sum.split)

lemma task_cases:
  obtains (pending) s c where "task_result t = Pending s c" "is_pending t" "\<not> is_running t"
  | (running) c where "task_result t = Running c" "is_running t" "\<not> is_pending t"
  | (finished) "\<not> is_pending t" "\<not> is_running t"
  by (cases "task_result t") (auto simp: is_pending_def is_running_def)

lemma start_pending_skip:
  "\<not> is_pending t \<Longrightarrow> start_pending n (t # ts) = (case start_pending n ts of (us, cs) \<Rightarrow> (t # us, cs))"
  by (cases "task_result t") (simp_all add: is_pending_def)

lemma start_pending_start:
  "task_result t = Pending s c \<Longrightarrow> start_pending n (t # ts) =
     (if n - 1 = 0 then (t\<lparr>task_result := Running c\<rparr> # ts, [s])
      else (case start_pending (n - 1) ts of (us, cs) \<Rightarrow> (t\<lparr>task_result := Running c\<rparr> # us, s # cs)))"
  by (simp add: Let_def)

declare start_pending.simps(2) [simp del]

lemma start_pending_counts:
  "0 < n \<Longrightarrow> start_pending n q = (q', cs) \<Longrightarrow>
     length (filter is_running q') = length (filter is_running q) + min n (length (filter is_pending q))
     \<and> length (filter is_pending q') = length (filter is_pending q) - n"
proof (induction q arbitrary: n q' cs)
  case (Cons t ts)
  show ?case
  proof (cases t rule: task_cases)
    case (pending s c)
    show ?thesis
    proof (cases "n - 1 = 0")
      case False
      obtain us ds where us: "start_pending (n - 1) ts = (us, ds)"
        by fastforce
      with False Cons.IH [of "n - 1" us ds] Cons.prems pending show ?thesis
        by (auto simp: start_pending_start)
    qed (use Cons.prems pending in \<open>auto simp: start_pending_start\<close>)
  qed (use Cons in \<open>auto simp: start_pending_skip split: prod.splits\<close>)
qed simp

lemma start_pending_order: "in_order q \<Longrightarrow> in_order (fst (start_pending n q))"
proof (induction q arbitrary: n)
  case (Cons t ts)
  then show ?case
  proof (cases t rule: task_cases)
    case (pending s c)
    then show ?thesis
      using Cons by (auto simp: start_pending_start split: prod.splits)
        (metis Cons.IH fst_conv)
  next
    case (running c)
    then show ?thesis using Cons by (auto simp: start_pending_skip split: prod.splits) (metis Cons.IH fst_conv)
  next
    case finished
    then show ?thesis using Cons by (auto simp: start_pending_skip split: prod.splits) (metis Cons.IH fst_conv)
  qed
qed simp

lemma has_pending: "list_ex P q \<longleftrightarrow> 0 < length (filter P q)"
  by (induction q) auto

lemma schedule_scheduled:
  assumes "length (filter is_running (io_queue S)) \<le> max_concurrent_task S" and "in_order (io_queue S)"
  shows "scheduled (fst (schedule_tasks S)) \<and> max_concurrent_task (fst (schedule_tasks S)) = max_concurrent_task S"
proof -
  let ?r = "length (filter is_running (io_queue S))"
  let ?n = "max_concurrent_task S - ?r"
  show ?thesis
  proof (cases "?r < max_concurrent_task S")
    case True
    then have n: "0 < ?n" by simp
    obtain q cs where q: "start_pending ?n (io_queue S) = (q, cs)"
      by fastforce
    show ?thesis
      using True start_pending_counts [OF n q] start_pending_order [OF assms(2), of ?n] q
      by (auto simp: schedule_tasks_def scheduled_def has_pending)
  qed (use assms in \<open>auto simp: schedule_tasks_def scheduled_def\<close>)
qed

lemma in_order_append: "\<not> is_running t \<Longrightarrow> in_order q \<Longrightarrow> in_order (q @ [t])"
  by (induction q) auto

lemma in_order_remove: "in_order q \<Longrightarrow> in_order (take i q @ drop (Suc i) q)"
proof (induction q arbitrary: i)
  case (Cons t ts)
  then show ?case
    by (cases i) (auto simp: list_ex_iff dest: in_set_takeD in_set_dropD)
qed simp

lemma removed_le: "length (filter P (take i q @ drop (Suc i) q)) \<le> length (filter P q)"
proof (induction q arbitrary: i)
  case (Cons t ts)
  then show ?case
    by (cases i) (auto simp: le_SucI)
qed simp

lemma io_update_counts:
  assumes "\<And>t. P (f t) \<Longrightarrow> P t"
  shows "length (filter P (io_update r f q)) \<le> length (filter P q)"
  by (induction q) (auto simp: le_SucI dest: assms)

lemma io_update_same:
  assumes "\<And>t. P (f t) = P t"
  shows "length (filter P (io_update r f q)) = length (filter P q)" and "list_ex P (io_update r f q) = list_ex P q"
  using assms by (induction q) auto

lemma io_update_order:
  assumes "\<And>t. is_running (f t) \<Longrightarrow> is_running t" and "\<And>t. is_pending (f t) \<Longrightarrow> is_pending t"
  shows "in_order q \<Longrightarrow> in_order (io_update r f q)"
proof (induction q)
  case (Cons t ts)
  have "list_ex is_running (io_update r f us) \<Longrightarrow> list_ex is_running us" for us
    using assms(1) by (induction us) (auto split: if_splits)
  with Cons assms show ?case
    by auto
qed simp

lemma finished_task:
  "\<not> is_running (t\<lparr>task_result := result_from res\<rparr>)" "\<not> is_pending (t\<lparr>task_result := result_from res\<rparr>)"
  "is_running (t\<lparr>task_current := a, task_total := b\<rparr>) = is_running t"
  "is_pending (t\<lparr>task_current := a, task_total := b\<rparr>) = is_pending t"
  by (simp_all add: is_pending_def is_running_def result_from_def split: sum.split)

lemma io_reduce_scheduled:
  assumes "scheduled S"
  shows "scheduled (fst (io_reduce a S)) \<and> max_concurrent_task (fst (io_reduce a S)) = max_concurrent_task S"
proof -
  have ok: "length (filter is_running (io_queue S)) \<le> max_concurrent_task S" "in_order (io_queue S)"
    using assms by (simp_all add: scheduled_def)
  have again: "scheduled (fst (schedule_tasks (S\<lparr>io_queue := q\<rparr>)))
      \<and> max_concurrent_task (fst (schedule_tasks (S\<lparr>io_queue := q\<rparr>))) = max_concurrent_task S"
    if "length (filter is_running q) \<le> length (filter is_running (io_queue S))" "in_order q" for q
    using schedule_scheduled [of "S\<lparr>io_queue := q\<rparr>"] that ok by simp
  show ?thesis
  proof (cases a)
    case (Enqueue r s c b)
    then show ?thesis
      using again ok by (simp add: io_reduce_def in_order_append is_running_def)
  next
    case (EnqueueAsCompleted r b res)
    then show ?thesis
      using assms in_order_append [OF _ ok(2)]
      by (auto simp: io_reduce_def scheduled_def is_running_def is_pending_def result_from_def split: sum.split)
  next
    case (Cancel i)
    then show ?thesis
      using again [OF removed_le in_order_remove [OF ok(2)], of i] again [OF order_refl ok(2)]
      by (auto simp: io_reduce_def split: prod.splits)
  next
    case CancelAll
    then show ?thesis
      by (simp add: io_reduce_def scheduled_def)
  next
    case (Progress r x y)
    then show ?thesis
      using assms io_update_order [OF _ _ ok(2), of "\<lambda>t. t\<lparr>task_current := x, task_total := y\<rparr>"]
      by (auto simp: io_reduce_def scheduled_def io_update_same finished_task)
  next
    case (Complete r res)
    then show ?thesis
      using again [OF io_update_counts io_update_order [OF _ _ ok(2)], of "\<lambda>t. t\<lparr>task_result := result_from res\<rparr>" r]
      by (simp add: io_reduce_def finished_task)
  qed
qed

definition run_actions :: "'c IOAction list \<Rightarrow> 'c IOState \<Rightarrow> 'c IOState" where
  "run_actions as S = fold (\<lambda>a S. fst (io_reduce a S)) as S"

lemma run_actions_scheduled:
  "scheduled S \<Longrightarrow> scheduled (run_actions as S) \<and> max_concurrent_task (run_actions as S) = max_concurrent_task S"
  unfolding run_actions_def
  by (induction as arbitrary: S) (use io_reduce_scheduled in force)+

text \<open>C33.
  The queue of uploads is scheduled: whatever tasks are added, finish, report progress or are cancelled, at most
  eight of them run, none waits while fewer run, and none waits before one that runs, so that
  uploads start in the order in which they were added.\<close>

theorem uploads_are_scheduled:
  "let S = run_actions as io_default; running = length (filter is_running (io_queue S)) in
     running \<le> 8 \<and> (list_ex is_pending (io_queue S) \<longrightarrow> running = 8) \<and> in_order (io_queue S)"
proof -
  have "scheduled (io_default :: 'a IOState)"
    by (simp add: scheduled_def io_default_def)
  from run_actions_scheduled [OF this, of as] show ?thesis
    by (auto simp: scheduled_def Let_def io_default_def MAX_CONCURRENT_TASKS_def)
qed

section \<open>Requests that send files\<close>

datatype upload_callback = SendForm nat string | Abort nat

datatype xhr = Opened | Sent | Loaded | Broken | Aborted

text \<open>The page: the queue, the requests it has opened, and the next address.\<close>

record Page =
  page_io :: "upload_callback IOState"
  xhrs :: "nat \<Rightarrow> xhr"
  next_addr :: nat

definition page_default :: Page where
  "page_default = \<lparr>page_io = io_default, xhrs = \<lambda>_. Opened, next_addr = 0\<rparr>"

text \<open>Aborting a request that has not been sent does nothing.\<close>

definition emit :: "upload_callback \<Rightarrow> (nat \<Rightarrow> xhr) \<Rightarrow> nat \<Rightarrow> xhr" where
  "emit c xs = (case c of SendForm i _ \<Rightarrow> xs(i := Sent) | Abort i \<Rightarrow> if xs i = Sent then xs(i := Aborted) else xs)"

definition dispatch :: "upload_callback IOAction \<Rightarrow> Page \<Rightarrow> Page" where
  "dispatch a P =
     (case io_reduce a (page_io P) of (io, cs) \<Rightarrow> P\<lparr>page_io := io, xhrs := fold emit cs (xhrs P)\<rparr>)"

text \<open>\<^verbatim>\<open>join\<close> is the resolution of an address behind the base address of the server.\<close>

definition get_file_content_url :: "(string \<Rightarrow> string + string) \<Rightarrow> string \<Rightarrow> string + string" where
  "get_file_content_url join_url path = join_url (''data/'' @ trim_start_char (CHR ''/'') path)"

definition new_rc :: "timestamp \<Rightarrow> IOKind \<Rightarrow> string \<Rightarrow> Page \<Rightarrow> IOTaskRc" where
  "new_rc now k path P = \<lparr>rc_addr = next_addr P, rc_value = \<lparr>task_timestamp = now, task_kind = k, task_path = path\<rparr>\<rparr>"

text \<open>The link that is clicked: its address and the name under which the file is kept.\<close>

definition download_link :: "(string \<Rightarrow> string + string) \<Rightarrow> FileRef \<Rightarrow> (string \<times> string) option" where
  "download_link join_url src =
     (case get_file_content_url join_url (ref_path src) of
        Inl _ \<Rightarrow> None
      | Inr url \<Rightarrow> Some (url @ ''?download=true'', last (split_on (CHR ''/'') (ref_path src))))"

definition download_file :: "(string \<Rightarrow> string + string) \<Rightarrow> timestamp \<Rightarrow> FileRef \<Rightarrow> Page \<Rightarrow> Page" where
  "download_file join_url now src P =
     (let r = new_rc now Download (ref_path src) P; P = P\<lparr>next_addr := next_addr P + 1\<rparr> in
      dispatch (EnqueueAsCompleted r (file_size (ref_metadata src))
        (case get_file_content_url join_url (ref_path src) of Inl e \<Rightarrow> Inl e | Inr _ \<Rightarrow> Inr ())) P)"

definition upload_file :: "(string \<Rightarrow> string + string) \<Rightarrow> timestamp \<Rightarrow> string \<Rightarrow> FileRef \<Rightarrow> Page \<Rightarrow> Page" where
  "upload_file join_url now src dst P =
     (let r = new_rc now Upload (ref_path dst) P; i = next_addr P; P = P\<lparr>next_addr := next_addr P + 1\<rparr>;
          bytes = file_size (ref_metadata dst) in
      case get_file_content_url join_url (ref_path dst) of
        Inl e \<Rightarrow> dispatch (EnqueueAsCompleted r bytes (Inl e)) P
      | Inr _ \<Rightarrow> dispatch (Enqueue r (SendForm i src) (Abort i) bytes) (P\<lparr>xhrs := (xhrs P)(i := Opened)\<rparr>))"

text \<open>The hook of a finished request: \<^verbatim>\<open>None\<close> is a status that cannot be read, and the text of the
  status can be missing.  The first part says whether the page is loaded again.\<close>

definition onload :: "nat option \<Rightarrow> string option \<Rightarrow> bool \<times> (string + unit)" where
  "onload code text_of_status =
     (case code of
        Some n \<Rightarrow> if 200 \<le> n \<and> n < 300 then (True, Inr ())
          else (False, Inl (unwrap_or ''Failed to fetch'' text_of_status))
      | None \<Rightarrow> (False, Inl (unwrap_or ''Failed to fetch'' text_of_status)))"

text \<open>What happens to the page.  There is a hook for the progress of a request and one for its answer; a request that
  breaks off, because the network fails, has none.\<close>

datatype event =
  DropFile timestamp string FileRef
| DownloadFile timestamp FileRef
| ProgressEvent IOTaskRc u64 u64
| LoadEvent IOTaskRc "nat option" "string option"
| ErrorEvent nat
| ClickCancel nat
| ClickCancelAll

definition page_event :: "(string \<Rightarrow> string + string) \<Rightarrow> event \<Rightarrow> Page \<Rightarrow> Page" where
  "page_event join_url e P =
     (case e of
        DropFile now src dst \<Rightarrow> upload_file join_url now src dst P
      | DownloadFile now src \<Rightarrow> download_file join_url now src P
      | ProgressEvent r x y \<Rightarrow> if xhrs P (rc_addr r) = Sent then dispatch (Progress r x y) P else P
      | LoadEvent r code t \<Rightarrow>
          if xhrs P (rc_addr r) = Sent
          then dispatch (Complete r (snd (onload code t))) (P\<lparr>xhrs := (xhrs P)(rc_addr r := Loaded)\<rparr>)
          else P
      | ErrorEvent i \<Rightarrow> if xhrs P i = Sent then P\<lparr>xhrs := (xhrs P)(i := Broken)\<rparr> else P
      | ClickCancel i \<Rightarrow> dispatch (Cancel i) P
      | ClickCancelAll \<Rightarrow> dispatch CancelAll P)"

definition page_run :: "(string \<Rightarrow> string + string) \<Rightarrow> event list \<Rightarrow> Page \<Rightarrow> Page" where
  "page_run join_url es P = fold (page_event join_url) es P"

section \<open>Requests and tasks agree\<close>

abbreviation address :: "'c IOTask \<Rightarrow> nat" where
  "address t \<equiv> rc_addr (task_r t)"

definition task_ok :: "(nat \<Rightarrow> xhr) \<Rightarrow> upload_callback IOTask \<Rightarrow> bool" where
  "task_ok xs t \<longleftrightarrow>
     (case task_result t of
        Pending s c \<Rightarrow> (\<exists>n. s = SendForm (address t) n) \<and> c = Abort (address t) \<and> xs (address t) = Opened
      | Running c \<Rightarrow> c = Abort (address t) \<and> (xs (address t) = Sent \<or> xs (address t) = Broken)
      | _ \<Rightarrow> True)"

definition runs :: "upload_callback IOTask list \<Rightarrow> nat \<Rightarrow> bool" where
  "runs q i \<longleftrightarrow> (\<exists>t\<in>set q. address t = i \<and> is_running t)"

definition sound :: "(nat \<Rightarrow> xhr) \<Rightarrow> upload_callback IOTask list \<Rightarrow> bool" where
  "sound xs q \<longleftrightarrow> distinct (map address q) \<and> list_all (task_ok xs) q \<and> (\<forall>i. xs i = Sent \<longrightarrow> runs q i)"

lemma task_ok_cong: "xs (address t) = ys (address t) \<Longrightarrow> task_ok xs t = task_ok ys t"
  by (simp add: task_ok_def split: IOTaskResult.split)

lemma tasks_ok_cong: "\<forall>t\<in>set q. xs (address t) = ys (address t) \<Longrightarrow> list_all (task_ok xs) q = list_all (task_ok ys) q"
  unfolding list_all_iff by (metis task_ok_cong)

lemma tasks_ok_upd: "i \<notin> address ` set q \<Longrightarrow> list_all (task_ok (xs(i := a))) q = list_all (task_ok xs) q"
  by (rule tasks_ok_cong) auto

lemma runs_Cons [simp]: "runs (t # q) i \<longleftrightarrow> (address t = i \<and> is_running t) \<or> runs q i"
  by (auto simp: runs_def)

lemma runs_append [simp]: "runs (q @ q') i \<longleftrightarrow> runs q i \<or> runs q' i"
  by (auto simp: runs_def)

lemma start_pending_sound:
  "distinct (map address q) \<Longrightarrow> list_all (task_ok xs) q \<Longrightarrow> start_pending n q = (q', cs) \<Longrightarrow>
     map address q' = map address q \<and> list_all (task_ok (fold emit cs xs)) q'
     \<and> (\<forall>i. i \<notin> address ` set q \<longrightarrow> fold emit cs xs i = xs i)
     \<and> (\<forall>i. fold emit cs xs i = Sent \<longrightarrow> xs i = Sent \<or> runs q' i) \<and> (\<forall>i. runs q i \<longrightarrow> runs q' i)"
proof (induction q arbitrary: n xs q' cs)
  case Nil
  then show ?case by simp
next
  case (Cons t q)
  show ?case
  proof (cases t rule: task_cases)
    case (pending s c)
    then obtain name where t: "s = SendForm (address t) name" "c = Abort (address t)"
      using Cons.prems(2) by (auto simp: task_ok_def)
    let ?t = "t\<lparr>task_result := Running c\<rparr>" and ?xs = "xs(address t := Sent)"
    have rest: "list_all (task_ok ?xs) q"
      using Cons.prems by (simp add: tasks_ok_upd)
    have run: "task_ok ys ?t" if "ys (address t) = Sent" for ys
      using that t by (simp add: task_ok_def)
    show ?thesis
    proof (cases "n - 1 = 0")
      case True
      then show ?thesis
        using Cons.prems pending rest run t by (auto simp: start_pending_start emit_def)
    next
      case False
      obtain us ds where us: "start_pending (n - 1) q = (us, ds)"
        by fastforce
      then have q': "q' = ?t # us" "cs = s # ds"
        using Cons.prems(3) pending False by (auto simp: start_pending_start)
      have IH: "map address us = map address q \<and> list_all (task_ok (fold emit ds ?xs)) us
        \<and> (\<forall>i. i \<notin> address ` set q \<longrightarrow> fold emit ds ?xs i = ?xs i)
        \<and> (\<forall>i. fold emit ds ?xs i = Sent \<longrightarrow> ?xs i = Sent \<or> runs us i) \<and> (\<forall>i. runs q i \<longrightarrow> runs us i)"
        by (rule Cons.IH [OF _ rest us]) (use Cons.prems in simp)
      have kept: "fold emit ds ?xs (address t) = Sent"
        using IH Cons.prems(1) by auto
      have "fold emit cs xs = fold emit ds ?xs"
        by (simp add: q' t emit_def)
      moreover have "task_ok (fold emit ds ?xs) ?t"
        by (rule run) (rule kept)
      ultimately show ?thesis
        using IH kept q' pending by (auto split: if_splits)
    qed
  next
    case (running c)
    obtain us where us: "start_pending n q = (us, cs)" "q' = t # us"
      using Cons.prems(3) running by (auto simp: start_pending_skip split: prod.splits)
    have "task_ok (fold emit cs xs) t" if "\<forall>i. i \<notin> address ` set q \<longrightarrow> fold emit cs xs i = xs i"
      using that Cons.prems task_ok_cong [of "fold emit cs xs" t xs] by simp
    then show ?thesis
      using Cons.IH [OF _ _ us(1)] Cons.prems us by auto
  next
    case finished
    obtain us where us: "start_pending n q = (us, cs)" "q' = t # us"
      using Cons.prems(3) finished by (auto simp: start_pending_skip split: prod.splits)
    have "task_ok (fold emit cs xs) t" if "\<forall>i. i \<notin> address ` set q \<longrightarrow> fold emit cs xs i = xs i"
      using that Cons.prems task_ok_cong [of "fold emit cs xs" t xs] by simp
    then show ?thesis
      using Cons.IH [OF _ _ us(1)] Cons.prems us by auto
  qed
qed

lemma schedule_sound:
  assumes "sound xs (io_queue S)" and "schedule_tasks S = (S', cs)"
  shows "sound (fold emit cs xs) (io_queue S')" and "map address (io_queue S') = map address (io_queue S)"
proof -
  have "sound (fold emit cs xs) (io_queue S') \<and> map address (io_queue S') = map address (io_queue S)"
  proof (cases "length (filter is_running (io_queue S)) < max_concurrent_task S")
    case True
    then obtain q where "start_pending (max_concurrent_task S - length (filter is_running (io_queue S))) (io_queue S) = (q, cs)"
      and "S' = S\<lparr>io_queue := q\<rparr>"
      using assms(2) by (auto simp: schedule_tasks_def Let_def split: prod.splits)
    with start_pending_sound [OF _ _ this(1), of xs] assms(1) show ?thesis
      by (auto simp: sound_def)
  qed (use assms in \<open>auto simp: schedule_tasks_def\<close>)
  then show "sound (fold emit cs xs) (io_queue S')" "map address (io_queue S') = map address (io_queue S)"
    by auto
qed

lemma sound_new:
  assumes "sound xs q" and "\<forall>t\<in>set q. address t < address u" and "task_ok xs' u"
    and "\<And>j. j \<noteq> address u \<Longrightarrow> xs' j = xs j" and "xs' (address u) \<noteq> Sent"
  shows "sound xs' (q @ [u])"
proof -
  have new: "address u \<notin> address ` set q"
    using assms(2) by auto
  then have "list_all (task_ok xs') q"
    using tasks_ok_cong [of q xs' xs] assms(1,4) unfolding sound_def by (metis image_eqI)
  moreover have "runs q j" if "xs' j = Sent" for j
    using that assms(1,4,5) by (cases "j = address u") (auto simp: sound_def)
  ultimately show ?thesis
    using assms(1,3) new by (auto simp: sound_def)
qed

lemma cancel_sound:
  assumes "sound xs q" and "i < length q"
  shows "sound (fold emit (cancel_task (q ! i)) xs) (take i q @ drop (Suc i) q)"
proof -
  let ?t = "q ! i" and ?q = "take i q @ drop (Suc i) q" and ?xs = "fold emit (cancel_task (q ! i)) xs"
  have q: "q = take i q @ ?t # drop (Suc i) q"
    using assms(2) by (rule id_take_nth_drop)
  have "distinct (map address (take i q @ ?t # drop (Suc i) q))" "list_all (task_ok xs) (take i q @ ?t # drop (Suc i) q)"
    and sent: "\<And>j. xs j = Sent \<Longrightarrow> runs (take i q @ ?t # drop (Suc i) q) j"
    using assms(1) q unfolding sound_def by auto
  then have d: "distinct (map address ?q)" "address ?t \<notin> address ` set ?q" and ok: "list_all (task_ok xs) ?q" "task_ok xs ?t"
    by auto
  have xs: "?xs = (if xs (address ?t) = Sent \<and> is_running ?t then xs(address ?t := Aborted) else xs)"
    by (cases ?t rule: task_cases) (use ok(2) in \<open>auto simp: task_ok_def cancel_task_def emit_def is_pending_def is_running_def
      split: IOTaskResult.splits\<close>)
  have "list_all (task_ok ?xs) ?q"
    using tasks_ok_upd [OF d(2), of xs Aborted] ok(1) xs by presburger
  moreover have "runs ?q j" if "?xs j = Sent" for j
    using that sent [of j] xs by (auto split: if_splits)
  ultimately show ?thesis
    using d(1) by (simp add: sound_def)
qed

lemma cancel_all_sent:
  "distinct (map address q) \<Longrightarrow> list_all (task_ok xs) q \<Longrightarrow> \<forall>j. xs j = Sent \<longrightarrow> runs q j \<Longrightarrow>
     fold emit (concat (map cancel_task q)) xs i \<noteq> Sent"
proof (induction q arbitrary: xs)
  case (Cons t q)
  let ?xs = "fold emit (cancel_task t) xs"
  have xs: "?xs = (if xs (address t) = Sent \<and> is_running t then xs(address t := Aborted) else xs)"
    by (cases t rule: task_cases) (use Cons.prems(2) in \<open>auto simp: task_ok_def cancel_task_def emit_def is_pending_def
      is_running_def split: IOTaskResult.splits\<close>)
  have "list_all (task_ok ?xs) q"
    using Cons.prems xs by (simp add: tasks_ok_upd)
  moreover have "\<forall>j. ?xs j = Sent \<longrightarrow> runs q j"
    using Cons.prems(3) xs by (auto split: if_splits)
  ultimately show ?case
    using Cons.IH [of ?xs] Cons.prems(1) by simp
qed (simp add: runs_def)

lemma io_update_map:
  "distinct (map address q) \<Longrightarrow> io_update r f q = map (\<lambda>t. if address t = rc_addr r then f t else t) q"
proof (induction q)
  case (Cons t q)
  have "map (\<lambda>t. if address t = rc_addr r then f t else t) q = q" if "address t = rc_addr r"
    using Cons.prems that by (intro map_idI) (auto simp: image_iff)
  with Cons show ?case
    by auto
qed simp

lemma update_sound:
  assumes "sound xs q" and "\<And>t. address (f t) = address t"
    and "\<And>t. address t = rc_addr r \<Longrightarrow> task_ok xs t \<Longrightarrow> task_ok xs' (f t)"
    and "\<And>j. j \<noteq> rc_addr r \<Longrightarrow> xs' j = xs j"
    and "\<And>t. address t = rc_addr r \<Longrightarrow> xs' (rc_addr r) = Sent \<Longrightarrow> xs (rc_addr r) = Sent \<and> is_running (f t) = is_running t"
    and "xs' (rc_addr r) = Sent \<Longrightarrow> xs (rc_addr r) = Sent"
  shows "sound xs' (io_update r f q)"
proof -
  let ?g = "\<lambda>t. if address t = rc_addr r then f t else t"
  have q: "io_update r f q = map ?g q"
    using assms(1) io_update_map by (auto simp: sound_def)
  have adr: "address (?g t) = address t" for t
    using assms(2) by simp
  have "map address (map ?g q) = map address q"
    by (simp add: adr)
  moreover have "task_ok xs' (?g t)" if "t \<in> set q" for t
    using assms(1,3,4) that task_ok_cong [of xs' t xs] by (auto simp: sound_def list_all_iff)
  moreover have "runs (map ?g q) j" if "xs' j = Sent" for j
  proof -
    have "xs j = Sent"
      using that assms(4,6) by (cases "j = rc_addr r") auto
    then obtain t where "t \<in> set q" "address t = j" "is_running t"
      using assms(1) by (auto simp: sound_def runs_def)
    then have "is_running (?g t)" "address (?g t) = j"
      using that assms(5) [of t] assms(2) by auto
    with \<open>t \<in> set q\<close> show ?thesis
      unfolding runs_def set_map by (intro bexI [of _ "?g t"] conjI imageI)
  qed
  ultimately show ?thesis
    using assms(1) unfolding sound_def q list_all_iff by (metis (no_types, lifting) image_iff list.set_map)
qed

section \<open>The page in every state\<close>

definition page_ok :: "Page \<Rightarrow> bool" where
  "page_ok P \<longleftrightarrow> scheduled (page_io P) \<and> max_concurrent_task (page_io P) = MAX_CONCURRENT_TASKS
     \<and> sound (xhrs P) (io_queue (page_io P)) \<and> (\<forall>t\<in>set (io_queue (page_io P)). address t < next_addr P)"

lemma dispatch_simps [simp]:
  "page_io (dispatch a P) = fst (io_reduce a (page_io P))"
  "xhrs (dispatch a P) = fold emit (snd (io_reduce a (page_io P))) (xhrs P)"
  "next_addr (dispatch a P) = next_addr P"
  by (simp_all add: dispatch_def split: prod.split)

lemma set_addresses:
  assumes "map address q' = map address q" and "\<forall>t\<in>set q. address t < n"
  shows "\<forall>t\<in>set q'. address t < n"
proof
  fix t assume "t \<in> set q'"
  then have "address t \<in> set (map address q)"
    using assms(1) by (simp flip: assms(1))
  with assms(2) show "address t < n"
    by auto
qed

lemma schedule_page:
  assumes "sound xs (io_queue S)" and "\<forall>t\<in>set (io_queue S). address t < n"
  shows "sound (fold emit (snd (schedule_tasks S)) xs) (io_queue (fst (schedule_tasks S)))
    \<and> (\<forall>t\<in>set (io_queue (fst (schedule_tasks S))). address t < n)"
proof -
  obtain S' cs where S': "schedule_tasks S = (S', cs)"
    by fastforce
  have "\<forall>t\<in>set (io_queue S'). address t < n"
    by (rule set_addresses [OF schedule_sound(2) [OF assms(1) S'] assms(2)])
  then show ?thesis
    using schedule_sound(1) [OF assms(1) S'] S' by simp
qed

lemma page_ok_dispatch:
  assumes "page_ok P" and "n = next_addr P'" and "page_io P' = page_io P"
    and "sound (fold emit (snd (io_reduce a (page_io P))) (xhrs P')) (io_queue (fst (io_reduce a (page_io P))))
      \<and> (\<forall>t\<in>set (io_queue (fst (io_reduce a (page_io P)))). address t < n)"
  shows "page_ok (dispatch a P')"
  using assms io_reduce_scheduled [of "page_io P" a] by (simp add: page_ok_def)

lemma finished_sound:
  assumes "page_ok P" and "address t = next_addr P" and "task_result t = result_from r"
  shows "sound (xhrs P) (io_queue (page_io P) @ [t])"
proof (rule sound_new)
  show "xhrs P (address t) \<noteq> Sent"
    using assms(1,2) by (force simp: page_ok_def sound_def runs_def)
  show "task_ok (xhrs P) t"
    using assms(3) by (simp add: task_ok_def result_from_def split: sum.split)
qed (use assms in \<open>auto simp: page_ok_def\<close>)

lemma page_ok_finished:
  assumes "page_ok P" and "rc_addr r = next_addr P"
  shows "page_ok (dispatch (EnqueueAsCompleted r b res) (P\<lparr>next_addr := next_addr P + 1\<rparr>))"
proof (rule page_ok_dispatch [OF assms(1) refl])
  let ?t = "\<lparr>task_r = r, task_current = unwrap_or 0 b, task_total = unwrap_or 0 b, task_result = result_from res\<rparr>"
  have "sound (xhrs P) (io_queue (page_io P) @ [?t])"
    by (rule finished_sound [OF assms(1)]) (simp_all add: assms(2))
  moreover have "\<forall>t\<in>set (io_queue (page_io P)). address t < next_addr P + 1"
    using assms(1) by (auto simp: page_ok_def)
  ultimately show "sound (fold emit (snd (io_reduce (EnqueueAsCompleted r b res) (page_io P))) (xhrs (P\<lparr>next_addr := next_addr P + 1\<rparr>)))
        (io_queue (fst (io_reduce (EnqueueAsCompleted r b res) (page_io P))))
      \<and> (\<forall>t\<in>set (io_queue (fst (io_reduce (EnqueueAsCompleted r b res) (page_io P)))).
          address t < next_addr (P\<lparr>next_addr := next_addr P + 1\<rparr>))"
    by (simp add: io_reduce_def assms(2))
qed simp

lemma page_ok_upload:
  assumes "page_ok P"
  shows "page_ok (upload_file J now src dst P)"
proof (cases "get_file_content_url J (ref_path dst)")
  case (Inl e)
  then show ?thesis
    using page_ok_finished [OF assms] by (simp add: upload_file_def new_rc_def Let_def)
next
  case (Inr u)
  let ?t = "\<lparr>task_r = new_rc now Upload (ref_path dst) P, task_current = 0, task_total = unwrap_or 0 (file_size (ref_metadata dst)),
    task_result = Pending (SendForm (next_addr P) src) (Abort (next_addr P))\<rparr>"
  let ?S = "(page_io P)\<lparr>io_queue := io_queue (page_io P) @ [?t]\<rparr>"
  have "sound ((xhrs P)(next_addr P := Opened)) (io_queue (page_io P) @ [?t])"
    by (rule sound_new) (use assms in \<open>auto simp: page_ok_def new_rc_def task_ok_def\<close>)
  moreover have "\<forall>t\<in>set (io_queue ?S). address t < next_addr P + 1"
    using assms by (auto simp: page_ok_def new_rc_def)
  ultimately have "sound (fold emit (snd (schedule_tasks ?S)) ((xhrs P)(next_addr P := Opened))) (io_queue (fst (schedule_tasks ?S)))
    \<and> (\<forall>t\<in>set (io_queue (fst (schedule_tasks ?S))). address t < next_addr P + 1)"
    by (intro schedule_page) simp_all
  then show ?thesis
    using Inr by (simp add: upload_file_def Let_def) (rule page_ok_dispatch [OF assms refl]; simp add: io_reduce_def)
qed

lemma page_ok_download: "page_ok P \<Longrightarrow> page_ok (download_file J now src P)"
  using page_ok_finished [of P] by (simp add: download_file_def new_rc_def Let_def)

lemma updated_addresses: "(\<And>t. address (f t) = address t) \<Longrightarrow> map address (io_update r f q) = map address q"
  by (induction q) auto

lemma page_ok_event:
  assumes "page_ok P"
  shows "page_ok (page_event J e P)"
proof (cases e)
  case (DropFile now src dst)
  then show ?thesis using page_ok_upload [OF assms] by (simp add: page_event_def)
next
  case (DownloadFile now src)
  then show ?thesis using page_ok_download [OF assms] by (simp add: page_event_def)
next
  case (ProgressEvent r x y)
  let ?f = "\<lambda>t :: upload_callback IOTask. t\<lparr>task_current := x, task_total := y\<rparr>"
  have "sound (xhrs P) (io_update r ?f (io_queue (page_io P)))"
    by (rule update_sound [of "xhrs P"]) (use assms in \<open>auto simp: page_ok_def task_ok_def is_running_def split: IOTaskResult.splits\<close>)
  moreover have "\<forall>t\<in>set (io_update r ?f (io_queue (page_io P))). address t < next_addr P"
    by (rule set_addresses [OF updated_addresses]) (use assms in \<open>simp_all add: page_ok_def\<close>)
  ultimately show ?thesis
    using ProgressEvent assms
    by (simp add: page_event_def) (intro impI, rule page_ok_dispatch [OF assms refl], simp_all add: io_reduce_def)
next
  case (LoadEvent r code t)
  let ?f = "\<lambda>t' :: upload_callback IOTask. t'\<lparr>task_result := result_from (snd (onload code t))\<rparr>"
  let ?S = "(page_io P)\<lparr>io_queue := io_update r ?f (io_queue (page_io P))\<rparr>"
  have "sound ((xhrs P)(rc_addr r := Loaded)) (io_update r ?f (io_queue (page_io P)))"
    by (rule update_sound [of "xhrs P"]) (use assms in \<open>auto simp: page_ok_def task_ok_def result_from_def split: sum.split\<close>)
  moreover have "\<forall>t\<in>set (io_update r ?f (io_queue (page_io P))). address t < next_addr P"
    by (rule set_addresses [OF updated_addresses]) (use assms in \<open>simp_all add: page_ok_def\<close>)
  ultimately have "sound (fold emit (snd (schedule_tasks ?S)) ((xhrs P)(rc_addr r := Loaded))) (io_queue (fst (schedule_tasks ?S)))
      \<and> (\<forall>t\<in>set (io_queue (fst (schedule_tasks ?S))). address t < next_addr P)"
    by (intro schedule_page) simp_all
  then show ?thesis
    using LoadEvent assms
    by (simp add: page_event_def) (intro impI, rule page_ok_dispatch [OF assms refl], simp_all add: io_reduce_def)
next
  case (ErrorEvent i)
  have "sound ((xhrs P)(i := Broken)) (io_queue (page_io P))" if "xhrs P i = Sent"
    using assms that by (fastforce simp: page_ok_def sound_def list_all_iff task_ok_def split: IOTaskResult.splits)
  then show ?thesis
    using ErrorEvent assms by (auto simp: page_event_def page_ok_def)
next
  case (ClickCancel i)
  let ?q = "io_queue (page_io P)"
  let ?S = "(page_io P)\<lparr>io_queue := take i ?q @ drop (Suc i) ?q\<rparr>"
  have ok: "sound (xhrs P) ?q" "\<forall>t\<in>set ?q. address t < next_addr P"
    using assms by (simp_all add: page_ok_def)
  show ?thesis
  proof (cases "i < length ?q")
    case True
    have "sound (fold emit (snd (schedule_tasks ?S)) (fold emit (cancel_task (?q ! i)) (xhrs P))) (io_queue (fst (schedule_tasks ?S)))
      \<and> (\<forall>t\<in>set (io_queue (fst (schedule_tasks ?S))). address t < next_addr P)"
      by (rule schedule_page) (use cancel_sound [OF ok(1) True] ok(2) in \<open>auto dest: in_set_takeD in_set_dropD\<close>)
    then show ?thesis
      using True ClickCancel
      by (simp add: page_event_def) (rule page_ok_dispatch [OF assms refl], simp_all add: io_reduce_def case_prod_beta)
  next
    case False
    then show ?thesis
      using ClickCancel schedule_page [OF ok]
      by (simp add: page_event_def) (rule page_ok_dispatch [OF assms refl], simp_all add: io_reduce_def)
  qed
next
  case ClickCancelAll
  have "sound (fold emit (concat (map cancel_task (io_queue (page_io P)))) (xhrs P)) []"
    using cancel_all_sent [of "io_queue (page_io P)" "xhrs P"] assms by (auto simp: sound_def page_ok_def)
  then show ?thesis
    using ClickCancelAll by (simp add: page_event_def) (rule page_ok_dispatch [OF assms refl], simp_all add: io_reduce_def)
qed

lemma page_ok_run: "page_ok P \<Longrightarrow> page_ok (page_run J es P)"
  unfolding page_run_def by (induction es arbitrary: P) (auto intro: page_ok_event)

lemma page_ok_default: "page_ok page_default"
  by (simp add: page_ok_def page_default_def io_default_def scheduled_def sound_def)

section \<open>Requests that break off\<close>

definition blocked :: "Page \<Rightarrow> bool" where
  "blocked P \<longleftrightarrow> length (filter is_running (io_queue (page_io P))) = 8
     \<and> list_all (\<lambda>t. is_running t \<longrightarrow> xhrs P (address t) = Broken) (io_queue (page_io P))"

definition clicked :: "event \<Rightarrow> bool" where
  "clicked e \<longleftrightarrow> (case e of ClickCancel _ \<Rightarrow> True | ClickCancelAll \<Rightarrow> True | _ \<Rightarrow> False)"

lemma blocked_not_sent:
  assumes "page_ok P" and "blocked P"
  shows "xhrs P i \<noteq> Sent"
proof
  assume "xhrs P i = Sent"
  with assms(1) obtain t where "t \<in> set (io_queue (page_io P))" "address t = i" "is_running t"
    by (auto simp: page_ok_def sound_def runs_def)
  with assms(2) \<open>xhrs P i = Sent\<close> show False
    by (auto simp: blocked_def list_all_iff)
qed

lemma full_schedule: "length (filter is_running (io_queue S)) = max_concurrent_task S \<Longrightarrow> schedule_tasks S = (S, [])"
  by (simp add: schedule_tasks_def)

lemma blocked_append:
  assumes "page_ok P" and "blocked P" and "\<not> is_running t" and "io_queue (page_io P') = io_queue (page_io P) @ [t]"
    and "\<And>i. i < next_addr P \<Longrightarrow> xhrs P' i = xhrs P i"
  shows "blocked P'"
  using assms by (auto simp: blocked_def page_ok_def list_all_iff)

lemma finished_not_running: "task_result t = result_from r \<Longrightarrow> \<not> is_running t"
  by (simp add: is_running_def result_from_def split: sum.split)

lemma blocked_event:
  assumes ok: "page_ok P" and blocked: "blocked P" and "\<not> clicked e"
  shows "blocked (page_event J e P)
    \<and> (\<exists>new. io_queue (page_io (page_event J e P)) = io_queue (page_io P) @ new \<and> \<not> list_ex is_running new)"
proof -
  have full: "length (filter is_running (io_queue (page_io P))) = max_concurrent_task (page_io P)"
    using ok blocked by (simp add: page_ok_def blocked_def MAX_CONCURRENT_TASKS_def)
  have appended: ?thesis if "page_event J e P = P'" "io_queue (page_io P') = io_queue (page_io P) @ [t]" "\<not> is_running t"
      "\<And>i. i < next_addr P \<Longrightarrow> xhrs P' i = xhrs P i" for P' t
    using blocked_append [OF ok blocked that(3,2,4)] that(1-3) by auto
  show ?thesis
  proof (cases e)
    case (DropFile now src dst)
    show ?thesis
    proof (cases "get_file_content_url J (ref_path dst)")
      case (Inl x)
      then show ?thesis
        using DropFile by (intro appended [OF refl, of "\<lparr>task_r = new_rc now Upload (ref_path dst) P,
            task_current = unwrap_or 0 (file_size (ref_metadata dst)), task_total = unwrap_or 0 (file_size (ref_metadata dst)),
            task_result = result_from (Inl x)\<rparr>"])
          (simp_all add: page_event_def upload_file_def Let_def io_reduce_def finished_not_running)
    next
      case (Inr u)
      let ?t = "\<lparr>task_r = new_rc now Upload (ref_path dst) P, task_current = 0, task_total = unwrap_or 0 (file_size (ref_metadata dst)),
        task_result = Pending (SendForm (next_addr P) src) (Abort (next_addr P))\<rparr>"
      have "schedule_tasks ((page_io P)\<lparr>io_queue := io_queue (page_io P) @ [?t]\<rparr>)
          = ((page_io P)\<lparr>io_queue := io_queue (page_io P) @ [?t]\<rparr>, [])"
        by (rule full_schedule) (simp add: full is_running_def)
      then show ?thesis
        using DropFile Inr by (intro appended [OF refl, of ?t]) (simp_all add: page_event_def upload_file_def Let_def io_reduce_def
          is_running_def)
    qed
  next
    case (DownloadFile now src)
    then show ?thesis
      by (intro appended [OF refl, of "\<lparr>task_r = new_rc now Download (ref_path src) P,
            task_current = unwrap_or 0 (file_size (ref_metadata src)), task_total = unwrap_or 0 (file_size (ref_metadata src)),
            task_result = result_from (case get_file_content_url J (ref_path src) of Inl e \<Rightarrow> Inl e | Inr _ \<Rightarrow> Inr ())\<rparr>"])
        (simp_all add: page_event_def download_file_def Let_def io_reduce_def finished_not_running)
  qed (use assms blocked_not_sent [OF ok blocked] in \<open>simp_all add: page_event_def clicked_def\<close>)
qed

text \<open>C34.
  Uploads that break off block the page: a request that fails on the network calls no hook, so that its task runs
  for ever; when eight have failed, whatever files are dropped and whatever the network does, no
  upload is started any more, until a task is cancelled by hand.\<close>

theorem broken_uploads_block_the_page:
  assumes "P = page_run J es page_default" and "blocked P" and "\<not> list_ex clicked es'"
  shows "\<exists>new. io_queue (page_io (page_run J es' P)) = io_queue (page_io P) @ new \<and> \<not> list_ex is_running new"
proof -
  have "\<exists>new. io_queue (page_io (page_run J es' P)) = io_queue (page_io P) @ new \<and> \<not> list_ex is_running new"
    if "page_ok P" "blocked P" "\<not> list_ex clicked es'" for P
    using that
  proof (induction es' arbitrary: P)
    case Nil
    then show ?case by (simp add: page_run_def)
  next
    case (Cons e es')
    let ?P = "page_event J e P"
    have step: "page_ok ?P" "blocked ?P"
      "\<exists>new. io_queue (page_io ?P) = io_queue (page_io P) @ new \<and> \<not> list_ex is_running new"
      using Cons.prems page_ok_event [of P J e] blocked_event [of P e J] by simp_all
    have "\<exists>new. io_queue (page_io (page_run J es' ?P)) = io_queue (page_io ?P) @ new \<and> \<not> list_ex is_running new"
      using Cons.IH [OF step(1,2)] Cons.prems by simp
    with step(3) show ?case
      by (auto simp: page_run_def)
  qed
  then show ?thesis
    using assms page_ok_run [OF page_ok_default] by simp
qed

section \<open>Uploads and the server\<close>

definition is_upload :: "'c IOTask \<Rightarrow> bool" where
  "is_upload t \<longleftrightarrow> task_kind (rc_value (task_r t)) = Upload"

text \<open>An answer that the server of the file browser gives to a request that is not for reading.\<close>

definition served :: "event \<Rightarrow> bool" where
  "served e \<longleftrightarrow>
     (\<forall>r code t. e = LoadEvent r code t \<longrightarrow>
        (\<exists>F decode q base data_dir download resp. request_method q = OtherMethod
          \<and> result_of (handle_data F decode q base data_dir download) = Inr resp \<and> code = Some (response_status resp)))"

lemma upload_is_refused: "served (LoadEvent r code t) \<Longrightarrow> onload code t = (False, Inl (unwrap_or ''Failed to fetch'' t))"
  by (auto simp: served_def handle_data_def result_of_def ret_def not_found_def onload_def split: option.splits)

definition unfinished :: "'c IOTask list \<Rightarrow> bool" where
  "unfinished q \<longleftrightarrow> list_all (\<lambda>t. is_upload t \<longrightarrow> task_result t \<noteq> Completed) q"

lemma started_tasks:
  "t' \<in> set (fst (start_pending n q)) \<Longrightarrow> t' \<in> set q \<or> (\<exists>t\<in>set q. \<exists>c. t' = t\<lparr>task_result := Running c\<rparr>)"
proof (induction q arbitrary: n)
  case (Cons t q)
  show ?case
  proof (cases t rule: task_cases)
    case (pending s c)
    then show ?thesis
      using Cons.prems Cons.IH [of "n - 1"] by (auto simp: start_pending_start case_prod_beta split: if_splits)
  qed (use Cons.prems Cons.IH [of n] in \<open>auto simp: start_pending_skip case_prod_beta\<close>)
qed simp

lemma unfinished_schedule:
  assumes "unfinished (io_queue S)"
  shows "unfinished (io_queue (fst (schedule_tasks S)))"
proof -
  have "unfinished (fst (start_pending n (io_queue S)))" for n
    using assms started_tasks [of _ n "io_queue S"] by (fastforce simp: unfinished_def list_all_iff is_upload_def)
  then show ?thesis
    using assms by (simp add: schedule_tasks_def Let_def case_prod_beta)
qed

lemma unfinished_update:
  assumes "unfinished q" and "\<And>t. is_upload (f t) = is_upload t"
    and "\<And>t. task_result (f t) = Completed \<Longrightarrow> task_result t = Completed"
  shows "unfinished (io_update r f q)"
  using assms(1) by (induction q) (auto simp: unfinished_def assms(2) dest: assms(3))

lemma unfinished_event:
  assumes "unfinished (io_queue (page_io P))" and "served e"
  shows "unfinished (io_queue (page_io (page_event J e P)))"
proof (cases e)
  case (DropFile now src dst)
  with assms(1) show ?thesis
    by (auto simp: page_event_def upload_file_def Let_def io_reduce_def unfinished_def result_from_def
      split: sum.split intro!: unfinished_schedule [unfolded unfinished_def])
next
  case (DownloadFile now src)
  with assms(1) show ?thesis
    by (simp add: page_event_def download_file_def Let_def io_reduce_def unfinished_def is_upload_def new_rc_def)
next
  case (ProgressEvent r x y)
  with assms(1) show ?thesis
    by (auto simp: page_event_def io_reduce_def is_upload_def intro!: unfinished_update)
next
  case (LoadEvent r code t)
  have "unfinished (io_update r (\<lambda>t'. t'\<lparr>task_result := result_from (snd (onload code t))\<rparr>) (io_queue (page_io P)))"
    using upload_is_refused [of r code t] assms LoadEvent
    by (intro unfinished_update) (auto simp: is_upload_def result_from_def)
  with assms(1) LoadEvent show ?thesis
    by (auto simp: page_event_def io_reduce_def intro!: unfinished_schedule)
next
  case (ErrorEvent i)
  with assms(1) show ?thesis by (simp add: page_event_def)
next
  case (ClickCancel i)
  have "unfinished (take i (io_queue (page_io P)) @ drop (Suc i) (io_queue (page_io P)))"
    using assms(1) by (auto simp: unfinished_def list_all_iff dest: in_set_takeD in_set_dropD)
  with assms(1) ClickCancel show ?thesis
    by (auto simp: page_event_def io_reduce_def case_prod_beta intro!: unfinished_schedule)
next
  case ClickCancelAll
  then show ?thesis by (simp add: page_event_def io_reduce_def unfinished_def)
qed

text \<open>No upload succeeds: a file is sent with a request that is not for reading, which the server of the file
  browser answers with not found, so that in every run of the page in which the server answers itself, each
  upload that has ended has failed, and the page is never asked to load its list again.\<close>

theorem no_upload_succeeds:
  assumes "list_all served es"
  shows "list_all (\<lambda>t. is_upload t \<longrightarrow> task_result t \<noteq> Completed) (io_queue (page_io (page_run J es page_default)))
    \<and> (\<forall>r code t. LoadEvent r code t \<in> set es \<longrightarrow> \<not> fst (onload code t))"
proof -
  have "unfinished (io_queue (page_io (page_run J es P)))" if "unfinished (io_queue (page_io P))" for P
    using that assms unfolding page_run_def by (induction es arbitrary: P) (auto intro: unfinished_event)
  moreover have "unfinished (io_queue (page_io page_default))"
    by (simp add: unfinished_def page_default_def io_default_def)
  ultimately show ?thesis
    using assms upload_is_refused by (fastforce simp: unfinished_def list_all_iff)
qed

section \<open>Examples\<close>

definition example_dir :: FileRef where
  "example_dir = \<lparr>ref_name = ''data'', ref_path = ''/data/'', ref_metadata = \<lparr>file_accessed = None, file_created = None,
     file_modified = None, file_size = None, file_owner = None\<rparr>\<rparr>"

definition example_drop :: "string \<Rightarrow> event" where
  "example_drop name = DropFile 0 name example_dir"

text \<open>Nine files are dropped, and eight requests break off.\<close>

definition example_events :: "event list" where
  "example_events = replicate 9 (example_drop ''a.txt'') @ map ErrorEvent [0..<8]"

definition example_actions :: "nat IOAction list" where
  "example_actions = map (\<lambda>i. Enqueue \<lparr>rc_addr = i, rc_value = \<lparr>task_timestamp = 0, task_kind = Upload, task_path = []\<rparr>\<rparr> i i None) [0..<9]"

theorem uploads_are_scheduled_witness:
  "list_ex is_pending (io_queue (run_actions example_actions io_default))
   \<and> length (filter is_running (io_queue (run_actions example_actions io_default))) = 8"
proof -
  have "list_ex is_pending (io_queue (run_actions example_actions io_default))"
    by code_simp
  then show ?thesis
    using uploads_are_scheduled [of example_actions] unfolding Let_def by blast
qed

lemma example_blocked: "blocked (page_run Inr example_events page_default)"
  by code_simp

theorem broken_uploads_block_the_page_witness:
  "\<exists>new. io_queue (page_io (page_run Inr [example_drop ''b.txt'', ErrorEvent 3] (page_run Inr example_events page_default)))
     = io_queue (page_io (page_run Inr example_events page_default)) @ new \<and> \<not> list_ex is_running new"
  by (rule broken_uploads_block_the_page [OF refl example_blocked]) (simp add: clicked_def example_drop_def)

theorem no_upload_succeeds_witness:
  "list_all (\<lambda>t. is_upload t \<longrightarrow> task_result t \<noteq> Completed) (io_queue (page_io (page_run Inr
     [example_drop ''a.txt'', LoadEvent \<lparr>rc_addr = 0, rc_value = \<lparr>task_timestamp = 0, task_kind = Upload, task_path = ''/data/''\<rparr>\<rparr>
        (Some 404) None] page_default)))"
proof -
  let ?r = "\<lparr>rc_addr = 0, rc_value = \<lparr>task_timestamp = 0, task_kind = Upload, task_path = ''/data/''\<rparr>\<rparr>"
  let ?F = "\<lparr>ans_open_file = \<lambda>_ _. Inl [], ans_stat = \<lambda>_ _. Inl [], ans_dir = \<lambda>_ _. Inl []\<rparr>"
  have "request_method \<lparr>request_path = ''/data/data/'', request_method = OtherMethod\<rparr> = OtherMethod
      \<and> result_of (handle_data ?F Some \<lparr>request_path = ''/data/data/'', request_method = OtherMethod\<rparr> [] [] False) = Inr not_found
      \<and> Some 404 = Some (response_status (not_found :: Content Response))"
    by (simp add: handle_data_def parse_path_def result_of_def ret_def not_found_def)
  then have "served (LoadEvent ?r (Some 404) None)"
    unfolding served_def by blast
  then have "list_all served [example_drop ''a.txt'', LoadEvent ?r (Some 404) None]"
    by (simp add: served_def example_drop_def)
  from no_upload_succeeds [OF this, of Inr] show ?thesis
    by blast
qed

end
