(* ===== verification/Vine_Front_Net.thy ===== *)
theory Vine_Front_Net
  imports Vine_Browser
begin

text \<open>
  How the web pages of VINE talk to their servers
  (\<^verbatim>\<open>crates/openark-vine-browser-frontend/src/net\<close>; the client of
  \<^verbatim>\<open>crates/openark-vine-dashboard-frontend/src/stores/client.rs\<close> is the same): the requests with
  their sign-in, and the cache of what has been fetched.  The network, the clock, the cookies and the
  random nonce are parameters; the texts of a page are left out.
\<close>

section \<open>Requests of a page\<close>

text \<open>A page ends when its window goes to another address; a request that is sent over and over again has no
  answer.\<close>

datatype front_error = Message string | Realm Error | Panicked string | Redirected string | Spinning

record front_response =
  front_status :: nat
  front_text :: "string option"
  front_status_text :: string

record front_api =
  ans_send :: "http_request list \<Rightarrow> http_request \<Rightarrow> string + front_response"
  ans_cookies :: "http_request list \<Rightarrow> (string \<times> string) list"
  ans_now :: "http_request list \<Rightarrow> int"
  ans_nonce :: "http_request list \<Rightarrow> u8 list"
  base_join :: "string \<Rightarrow> string + string"
  page_href :: string
  set_query :: "string \<Rightarrow> string \<Rightarrow> string"

type_synonym 'a front = "(http_request, front_error, 'a) eff"

type_synonym requester = "http_method \<Rightarrow> string \<Rightarrow> (string \<times> string) list Payload \<Rightarrow> string front"

definition read_with :: "(string \<Rightarrow> string + 'a) \<Rightarrow> string front \<Rightarrow> 'a front" where
  "read_with json m = tryE m (\<lambda>s. case json s of Inl e \<Rightarrow> fail (Message e) | Inr a \<Rightarrow> ret a)"

definition front_auth_args :: "front_api \<Rightarrow> provider_texts \<Rightarrow> requester \<Rightarrow> OpenIDClientArgs front" where
  "front_auth_args A T req =
     (case base_join A ''/oauth/oidc'' of
        Inl e \<Rightarrow> fail (Message e)
      | Inr url \<Rightarrow> read_with (read_args T) (req GET url Empty))"

definition front_auth_configs :: "provider_texts \<Rightarrow> requester \<Rightarrow> OpenIDClientArgs \<Rightarrow> OpenIDConfiguration front" where
  "front_auth_configs T req a = read_with (read_configs T) (req GET (oauth_config_url a) Empty)"

definition sign_in_query :: "OpenIDClientArgs \<Rightarrow> string \<Rightarrow> string" where
  "sign_in_query a state =
     ''client_id='' @ oauth_client_id a @ ''&redirect_uri='' @ oauth_redirect_url a @ ''&response_type=code&scope=''
       @ map (\<lambda>c. if c = CHR '','' then CHR '' '' else c) (oauth_scopes a) @ ''&state='' @ state"

text \<open>Signing in ends with the window going to the provider; it never returns.\<close>

definition sign_in :: "front_api \<Rightarrow> provider_texts \<Rightarrow> state_codec \<Rightarrow> requester \<Rightarrow> unit front" where
  "sign_in A T C req =
     tryE (front_auth_args A T req) (\<lambda>a.
     tryE (front_auth_configs T req a) (\<lambda>c.
     tryE (observe (ans_nonce A)) (\<lambda>nonce.
     case state_str C \<lparr>state_nonce = nonce, state_redirect_url = page_href A\<rparr> of
       Inl e \<Rightarrow> fail (Panicked e)
     | Inr state \<Rightarrow> fail (Redirected (set_query A (authorization_endpoint c) (sign_in_query a state))))))"

definition assert_sign_in :: "jwt_lib \<Rightarrow> front_api \<Rightarrow> provider_texts \<Rightarrow> state_codec \<Rightarrow> requester \<Rightarrow> unit front" where
  "assert_sign_in J A T C req =
     tryE (observe (\<lambda>l. infer J (ans_now A l) (ans_cookies A l))) (\<lambda>claims.
     case claims_user claims of
       Inr _ \<Rightarrow> ret ()
     | Inl (InvalidRequest AccessTokenMissing) \<Rightarrow> sign_in A T C req
     | Inl (InvalidToken MalformedJwtToken) \<Rightarrow> sign_in A T C req
     | Inl (InvalidToken AccessTokenExpired) \<Rightarrow>
         (case claims_refresh claims of
            Some _ \<Rightarrow> sign_in A T C req
          | None \<Rightarrow> sign_in A T C req))"

text \<open>One request, with what remains of the fuel for the requests behind it.\<close>

definition attempt ::
  "jwt_lib \<Rightarrow> front_api \<Rightarrow> provider_texts \<Rightarrow> state_codec \<Rightarrow> requester \<Rightarrow> requester" where
  "attempt J A T C again m url p =
     tryE (matchE (call (ans_send A) \<lparr>req_method = m, req_url = url, req_body = p\<rparr>) (\<lambda>e. fail (Message e)) ret) (\<lambda>r.
     let n = front_status r in
     if n = 302 then tryE (assert_sign_in J A T C again) (\<lambda>_. again m url p)
     else if 200 \<le> n \<and> n < 400 then (case front_text r of None \<Rightarrow> fail (Message ''body'') | Some s \<Rightarrow> ret s)
     else if n = 401 then
       (case front_text r of
          None \<Rightarrow> fail (Message ''body'')
        | Some s \<Rightarrow>
            (case error_parse s of
               Inl e \<Rightarrow> fail (Message e)
             | Inr e \<Rightarrow>
                 (case error_kind e of
                    InvalidRequest AccessTokenMissing \<Rightarrow> tryE (assert_sign_in J A T C again) (\<lambda>_. again m url p)
                  | InvalidToken AccessTokenExpired \<Rightarrow> tryE (assert_sign_in J A T C again) (\<lambda>_. again m url p)
                  | InvalidToken MalformedJwtToken \<Rightarrow> fail (Realm e))))
     else if n = 403 \<or> n = 404 then ret ''null''
     else
       (case front_text r of
          Some s \<Rightarrow> if s \<noteq> [] then fail (Message s) else fail (Message (front_status_text r))
        | None \<Rightarrow> fail (Message (front_status_text r))))"

fun front_request ::
  "jwt_lib \<Rightarrow> front_api \<Rightarrow> provider_texts \<Rightarrow> state_codec \<Rightarrow> nat \<Rightarrow> requester" where
  "front_request J A T C 0 = (\<lambda>m url p. fail Spinning)"
| "front_request J A T C (Suc n) = attempt J A T C (front_request J A T C n)"

section \<open>When requests end\<close>

text \<open>The answers that ask the page to sign in.\<close>

definition asks_sign_in :: "front_response \<Rightarrow> bool" where
  "asks_sign_in r \<longleftrightarrow> front_status r = 302
     \<or> front_status r = 401 \<and> (\<exists>s e. front_text r = Some s \<and> error_parse s = Inr e
         \<and> error_kind e \<noteq> InvalidToken MalformedJwtToken)"

definition trusts :: "jwt_lib \<Rightarrow> front_api \<Rightarrow> http_request list \<Rightarrow> bool" where
  "trusts J A l \<longleftrightarrow> \<not> isl (claims_user (infer J (ans_now A l) (ans_cookies A l)))"

lemma attempt_cases:
  "attempt J A T C again m url p l =
     (case ans_send A l \<lparr>req_method = m, req_url = url, req_body = p\<rparr> of
        Inl e \<Rightarrow> (Inl (Message e), l @ [\<lparr>req_method = m, req_url = url, req_body = p\<rparr>])
      | Inr r \<Rightarrow>
          if asks_sign_in r
          then tryE (assert_sign_in J A T C again) (\<lambda>_. again m url p) (l @ [\<lparr>req_method = m, req_url = url, req_body = p\<rparr>])
          else (fst (attempt J A T C again m url p l), l @ [\<lparr>req_method = m, req_url = url, req_body = p\<rparr>]))"
  by (auto simp: attempt_def tryE_def matchE_def call_def fail_def ret_def asks_sign_in_def Let_def
    split: sum.splits option.splits ErrorKind.splits ErrorInvalidRequest.splits ErrorInvalidToken.splits)

lemma attempt_final:
  assumes "ans_send A l \<lparr>req_method = m, req_url = url, req_body = p\<rparr> = Inr r" and "\<not> asks_sign_in r"
  shows "fst (attempt J A T C again m url p l) \<noteq> Inl Spinning"
    and "fst (attempt J A T C again m url p l) = fst (attempt J A T C again' m url p l)"
  using assms
  by (auto simp: attempt_def tryE_def matchE_def call_def fail_def ret_def asks_sign_in_def Let_def
    split: sum.splits option.splits ErrorKind.splits ErrorInvalidRequest.splits ErrorInvalidToken.splits)

lemma assert_sign_in_cases:
  "assert_sign_in J A T C req l = (if trusts J A l then (Inr (), l) else sign_in A T C req l)"
  by (auto simp: assert_sign_in_def tryE_def observe_def ret_def trusts_def split: sum.splits option.splits ErrorKind.splits
    ErrorInvalidRequest.splits ErrorInvalidToken.splits)

text \<open>A request goes on for ever when page and server disagree about a token: as long as the page trusts the token in its
  cookies while the server keeps asking for a sign-in, the request is sent again at once, without end, and no
  sign-in is ever started.\<close>

theorem disputed_token_spins:
  assumes "\<And>l. trusts J A l"
    and "\<And>l. \<exists>r. ans_send A l \<lparr>req_method = m, req_url = url, req_body = p\<rparr> = Inr r \<and> asks_sign_in r"
  shows "front_request J A T C n m url p l
    = (Inl Spinning, l @ replicate n \<lparr>req_method = m, req_url = url, req_body = p\<rparr>)"
proof (induction n arbitrary: l)
  case 0
  then show ?case by (simp add: fail_def)
next
  case (Suc n)
  let ?c = "\<lparr>req_method = m, req_url = url, req_body = p\<rparr>"
  obtain r where "ans_send A l ?c = Inr r" "asks_sign_in r"
    using assms(2) by blast
  then have "front_request J A T C (Suc n) m url p l = front_request J A T C n m url p (l @ [?c])"
    using assms(1) by (simp add: attempt_cases [of J A T C _ m url p l] assert_sign_in_cases tryE_def)
  with Suc show ?case
    by simp
qed

definition ends :: "'a front \<Rightarrow> bool" where
  "ends m \<longleftrightarrow> (\<forall>l. fst (m l) \<noteq> Inl Spinning)"

lemma attempt_ends:
  assumes "\<And>l r. ans_send A l \<lparr>req_method = m, req_url = url, req_body = p\<rparr> = Inr r \<Longrightarrow> \<not> asks_sign_in r"
  shows "ends (attempt J A T C again m url p)"
  unfolding ends_def
proof
  fix l
  show "fst (attempt J A T C again m url p l) \<noteq> Inl Spinning"
  proof (cases "ans_send A l \<lparr>req_method = m, req_url = url, req_body = p\<rparr>")
    case (Inl e)
    then show ?thesis by (subst attempt_cases) simp
  next
    case (Inr r)
    then show ?thesis using attempt_final(1) assms by blast
  qed
qed

lemma ends_read: "ends m \<Longrightarrow> ends (read_with json m)"
  by (auto simp: ends_def read_with_def tryE_def fail_def ret_def split: prod.splits sum.splits; metis fst_conv)

lemma sign_in_ends:
  assumes "\<And>u. base_join A ''/oauth/oidc'' = Inr u \<Longrightarrow> ends (req GET u Empty)"
    and "\<And>s a. read_args T s = Inr a \<Longrightarrow> ends (req GET (oauth_config_url a) Empty)"
  shows "fst (sign_in A T C req l) \<noteq> Inl Spinning \<and> fst (sign_in A T C req l) \<noteq> Inr ()"
proof (cases "fst (front_auth_args A T req l)")
  case (Inl e)
  have "e \<noteq> Spinning"
    using Inl assms(1) ends_read [of _ "read_args T"]
    by (auto simp: front_auth_args_def ends_def fail_def split: sum.splits)
  with Inl show ?thesis
    by (auto simp: sign_in_def tryE_def split: prod.splits)
next
  case (Inr a)
  then obtain s where "read_args T s = Inr a"
    by (auto simp: front_auth_args_def read_with_def tryE_def fail_def ret_def split: sum.splits prod.splits)
  then have "ends (front_auth_configs T req a)"
    unfolding front_auth_configs_def by (intro ends_read assms(2))
  with Inr show ?thesis
    by (auto simp: sign_in_def tryE_def observe_def fail_def ends_def split: prod.splits sum.splits) (metis fst_conv)+
qed

text \<open>C35.
  A request ends when the page does not trust its token: it is answered, or the page goes to the provider, after at most
  the two requests of a sign-in behind it, whatever the server answers to it, provided that the two requests of a
  sign-in are not themselves asked to sign in.\<close>

theorem untrusted_requests_end:
  assumes "\<And>l. \<not> trusts J A l"
    and "\<And>l c r. ans_send A l c = Inr r \<Longrightarrow> asks_sign_in r \<Longrightarrow> req_url c \<in> protected"
    and "\<And>u. base_join A ''/oauth/oidc'' = Inr u \<Longrightarrow> u \<notin> protected"
    and "\<And>s a. read_args T s = Inr a \<Longrightarrow> oauth_config_url a \<notin> protected"
  shows "fst (front_request J A T C (Suc (Suc n)) m url p l) \<noteq> Inl Spinning"
proof -
  let ?req = "front_request J A T C (Suc n)"
  have free: "ends (?req GET u Empty)" if "u \<notin> protected" for u
    unfolding front_request.simps by (rule attempt_ends) (use assms(2) that in force)
  have stop: "fst (sign_in A T C ?req l') \<noteq> Inl Spinning \<and> fst (sign_in A T C ?req l') \<noteq> Inr ()" for l'
    by (rule sign_in_ends) (use free assms(3,4) in blast)+
  let ?c = "\<lparr>req_method = m, req_url = url, req_body = p\<rparr>"
  have "fst (attempt J A T C ?req m url p l) \<noteq> Inl Spinning"
  proof (cases "ans_send A l ?c")
    case (Inl e)
    then show ?thesis by (subst attempt_cases) simp
  next
    case (Inr r)
    show ?thesis
    proof (cases "asks_sign_in r")
      case True
      then have "attempt J A T C ?req m url p l = tryE (assert_sign_in J A T C ?req) (\<lambda>_. ?req m url p) (l @ [?c])"
        by (subst attempt_cases) (simp add: Inr)
      then have "attempt J A T C ?req m url p l = tryE (sign_in A T C ?req) (\<lambda>_. ?req m url p) (l @ [?c])"
        using assms(1) by (simp add: tryE_def assert_sign_in_cases)
      moreover obtain e l' where "sign_in A T C ?req (l @ [?c]) = (Inl e, l')" "e \<noteq> Spinning"
        using stop [of "l @ [?c]"] by (cases "sign_in A T C ?req (l @ [?c])"; cases "fst (sign_in A T C ?req (l @ [?c]))") auto
      ultimately show ?thesis
        by (simp add: tryE_def)
    next
      case False
      then show ?thesis using attempt_final(1) Inr by blast
    qed
  qed
  then show ?thesis
    by simp
qed

section \<open>What has been fetched\<close>

record 'v Cached =
  expires_at :: timestamp
  cached :: 'v

text \<open>Five minutes.\<close>

definition cache_ttl :: int where
  "cache_ttl = 5 * 60 * nanos"

definition cached_new :: "timestamp \<Rightarrow> 'v \<Rightarrow> 'v Cached" where
  "cached_new now v = \<lparr>expires_at = now + cache_ttl, cached = v\<rparr>"

definition is_valid :: "timestamp \<Rightarrow> 'v Cached \<Rightarrow> bool" where
  "is_valid now c \<longleftrightarrow> now < expires_at c"

datatype 'v HttpPoll = NotAsked | Fetching | Ready "'v Cached" | FetchFailed "string Cached"

datatype 'v HttpState = StatePending | StateReady 'v | StateNotFound | StateFailed

record ('k, 'v) HttpContext =
  http_key :: "'k option"
  http_poll :: "'v HttpPoll"

definition context_default :: "('k, 'v) HttpContext" where
  "context_default = \<lparr>http_key = None, http_poll = NotAsked\<rparr>"

text \<open>What a drawing does to the state: a fetch is started or not, and what is shown.\<close>

definition force_fetch :: "'k \<Rightarrow> ('k, 'v) HttpContext \<times> bool \<times> 'w HttpState" where
  "force_fetch k = (\<lparr>http_key = Some k, http_poll = Fetching\<rparr>, True, StatePending)"

definition fetch_and_render ::
  "timestamp \<Rightarrow> ('v \<Rightarrow> 'w option) \<Rightarrow> 'k \<Rightarrow> ('k, 'v) HttpContext \<Rightarrow> ('k, 'v) HttpContext \<times> bool \<times> 'w HttpState" where
  "fetch_and_render now validate k X =
     (if http_key X \<noteq> Some k then force_fetch k
      else
        (case http_poll X of
           NotAsked \<Rightarrow> force_fetch k
         | Fetching \<Rightarrow> (X, False, StatePending)
         | Ready c \<Rightarrow>
             if now < expires_at c
             then (case validate (cached c) of
                 Some v \<Rightarrow> (X, False, StateReady v)
               | None \<Rightarrow> (X, False, StateNotFound))
             else force_fetch k
         | FetchFailed c \<Rightarrow>
             if now < expires_at c then (X, False, StateFailed) else force_fetch k))"

text \<open>The answer of a fetch that was started for a key.\<close>

definition answered :: "timestamp \<Rightarrow> 'k \<Rightarrow> string + 'v \<Rightarrow> ('k, 'v) HttpContext" where
  "answered now k r = \<lparr>http_key = Some k, http_poll = (case r of
     Inr v \<Rightarrow> Ready (cached_new now v) | Inl e \<Rightarrow> FetchFailed (cached_new now e))\<rparr>"

definition try_fetch_and_render ::
  "timestamp \<Rightarrow> 'k \<Rightarrow> ('k, 'v option) HttpContext \<Rightarrow> ('k, 'v option) HttpContext \<times> bool \<times> 'v HttpState" where
  "try_fetch_and_render now k X = fetch_and_render now (\<lambda>v. v) k X"

definition http_ok :: "('k, 'v option) HttpContext \<Rightarrow> 'v option" where
  "http_ok X = (case http_poll X of Ready c \<Rightarrow> cached c | _ \<Rightarrow> None)"

definition try_get_state :: "('k, 'v option) HttpContext \<Rightarrow> 'v HttpState" where
  "try_get_state X =
     (case http_poll X of
        NotAsked \<Rightarrow> StatePending
      | Fetching \<Rightarrow> StatePending
      | Ready c \<Rightarrow> (case cached c of Some v \<Rightarrow> StateReady v | None \<Rightarrow> StateNotFound)
      | FetchFailed _ \<Rightarrow> StateFailed)"

section \<open>The life of a fetched value\<close>

text \<open>A component draws itself with a key, fetches are answered in any order, and the user asks for a reload.\<close>

record ('k, 'v) Widget =
  widget_ctx :: "('k, 'v option) HttpContext"
  flights :: "'k list"

definition widget_default :: "('k, 'v) Widget" where
  "widget_default = \<lparr>widget_ctx = context_default, flights = []\<rparr>"

datatype ('k, 'v) net_event =
  Draw timestamp 'k "'v HttpState"
| Answer timestamp 'k "string + 'v option"
| Invalidate

inductive net_step :: "('k, 'v) net_event \<Rightarrow> ('k, 'v) Widget \<Rightarrow> ('k, 'v) Widget \<Rightarrow> bool" where
  draw: "try_fetch_and_render now k (widget_ctx W) = (X, spawned, shown)
    \<Longrightarrow> net_step (Draw now k shown) W (W\<lparr>widget_ctx := X, flights := flights W @ (if spawned then [k] else [])\<rparr>)"
| answer: "k \<in> set (flights W)
    \<Longrightarrow> net_step (Answer now k r) W (W\<lparr>widget_ctx := answered now k r, flights := remove1 k (flights W)\<rparr>)"
| invalidate: "net_step Invalidate W (W\<lparr>widget_ctx := context_default\<rparr>)"

inductive_cases draw_cases: "net_step (Draw now k shown) W W'"

text \<open>A run with what has happened, the last event first.\<close>

inductive net_run :: "('k, 'v) net_event list \<Rightarrow> ('k, 'v) Widget \<Rightarrow> bool" where
  start: "net_run [] widget_default"
| step: "net_run es W \<Longrightarrow> net_step e W W' \<Longrightarrow> net_run (e # es) W'"

lemma ready_origin:
  "net_run es W \<Longrightarrow> http_poll (widget_ctx W) = Ready c \<Longrightarrow> http_key (widget_ctx W) = Some k \<Longrightarrow>
     \<exists>t. Answer t k (Inr (cached c)) \<in> set es \<and> expires_at c = t + cache_ttl"
proof (induction arbitrary: c k rule: net_run.induct)
  case start
  then show ?case by (simp add: widget_default_def context_default_def)
next
  case (step es W e W')
  from step.hyps(2) show ?case
  proof cases
    case (draw now k' X spawned shown)
    with step.prems have "http_poll (widget_ctx W) = Ready c \<and> http_key (widget_ctx W) = Some k"
      by (auto simp: try_fetch_and_render_def fetch_and_render_def force_fetch_def split: if_splits HttpPoll.splits option.splits)
    with step.IH show ?thesis by force
  next
    case (answer k' now r)
    with step.prems show ?thesis
      by (auto simp: answered_def cached_new_def split: sum.splits)
  next
    case invalidate
    with step.prems show ?thesis by (simp add: context_default_def)
  qed
qed

text \<open>C36.
  What is shown belongs to the path that is drawn: whatever fetches are under way for other paths and in whatever
  order they are answered, a value is only shown if a fetch for the very path has given it, and for
  no longer than five minutes after that.\<close>

theorem shown_values_are_fetched:
  assumes "net_run es W" and "net_step (Draw now k (StateReady v)) W W'"
  shows "\<exists>t. Answer t k (Inr (Some v)) \<in> set es \<and> now < t + cache_ttl"
proof -
  from assms(2) obtain X spawned where "try_fetch_and_render now k (widget_ctx W) = (X, spawned, StateReady v)"
    by (rule draw_cases) auto
  then obtain c where "http_poll (widget_ctx W) = Ready c" "http_key (widget_ctx W) = Some k" "cached c = Some v" "now < expires_at c"
    by (auto simp: try_fetch_and_render_def fetch_and_render_def force_fetch_def split: if_splits HttpPoll.splits option.splits)
  with ready_origin [OF assms(1)] show ?thesis
    by fastforce
qed

text \<open>An answer that comes late takes the place of what is shown: the path that is drawn is fetched again, however fresh
  its own answer is.\<close>

lemma late_answer_refetches:
  assumes "net_step (Answer t k' r) W W1" and "k' \<noteq> k" and "net_step (Draw now k shown) W1 W2"
  shows "shown = StatePending \<and> flights W2 = flights W1 @ [k]"
proof -
  from assms(1) have "http_key (widget_ctx W1) = Some k'"
    by cases (simp add: answered_def)
  with assms(2,3) show ?thesis
    by (auto elim!: draw_cases simp: try_fetch_and_render_def fetch_and_render_def force_fetch_def)
qed

section \<open>Examples\<close>

text \<open>A server that asks for a sign-in behind the address \<^verbatim>\<open>/api\<close>.\<close>

definition example_send :: "http_request list \<Rightarrow> http_request \<Rightarrow> string + front_response" where
  "example_send l c = Inr (if req_url c = ''/api''
     then \<lparr>front_status = 302, front_text = None, front_status_text = ''Found''\<rparr>
     else \<lparr>front_status = 200, front_text = Some ''{}'', front_status_text = ''OK''\<rparr>)"

definition example_front :: "(string \<times> string) list \<Rightarrow> front_api" where
  "example_front jar = \<lparr>ans_send = example_send, ans_cookies = (\<lambda>_. jar), ans_now = (\<lambda>_. 1030 * nanos), ans_nonce = (\<lambda>_. []),
     base_join = Inr, page_href = ''https://vine.example/'', set_query = (\<lambda>u q. u @ ''?'' @ q)\<rparr>"

definition example_codec :: state_codec where
  "example_codec = \<lparr>b64_encode = (\<lambda>s. s), b64_decode = Inr, state_to_json = (\<lambda>s. Inr (state_redirect_url s)),
     state_of_json = (\<lambda>s. Inr \<lparr>state_nonce = [], state_redirect_url = s\<rparr>)\<rparr>"

lemma example_trusts: "trusts example_jwt (example_front [(ACCESS_TOKEN, ''h.c.sig'')]) l"
  by (simp add: trusts_def example_front_def infer_def infer_with_def claims_decode_def example_jwt_def is_expired_def
    expired_at_def example_claims_def nanos_def token_validation_def validation_default_def)

lemma example_untrusted: "\<not> trusts example_jwt (example_front []) l"
  by (simp add: trusts_def example_front_def infer_def)

theorem disputed_token_spins_witness:
  "front_request example_jwt (example_front [(ACCESS_TOKEN, ''h.c.sig'')]) example_texts example_codec 2 GET ''/api'' Empty []
    = (Inl Spinning, [\<lparr>req_method = GET, req_url = ''/api'', req_body = Empty\<rparr>, \<lparr>req_method = GET, req_url = ''/api'', req_body = Empty\<rparr>])"
proof -
  have "\<exists>r. ans_send (example_front jar) l \<lparr>req_method = GET, req_url = ''/api'', req_body = Empty\<rparr> = Inr r \<and> asks_sign_in r" for jar l
    by (simp add: example_front_def example_send_def asks_sign_in_def)
  from disputed_token_spins [OF example_trusts this, of example_texts example_codec 2 "[]"] show ?thesis
    by (simp add: numeral_2_eq_2)
qed

theorem untrusted_requests_end_witness:
  "fst (front_request example_jwt (example_front []) example_texts example_codec (Suc (Suc 0)) GET ''/api'' Empty []) \<noteq> Inl Spinning"
proof (rule untrusted_requests_end [of _ _ "{''/api''}"])
  fix l c r
  assume "ans_send (example_front []) l c = Inr r" "asks_sign_in r"
  then show "req_url c \<in> {''/api''}"
    by (auto simp: example_front_def example_send_def asks_sign_in_def split: if_splits)
qed (simp_all add: example_untrusted, simp_all add: example_front_def example_texts_def example_args_def)

theorem shown_values_are_fetched_witness:
  "\<exists>t. Answer t ''/a'' (Inr (Some (7::nat))) \<in> set [Answer 5 ''/a'' (Inr (Some (7::nat))), Draw 3 ''/a'' StatePending] \<and> 9 < t + cache_ttl"
proof -
  let ?W = "\<lparr>widget_ctx = answered 5 ''/a'' (Inr (Some (7::nat))), flights = []\<rparr>"
  have "net_step (Draw 3 ''/a'' StatePending) widget_default
      \<lparr>widget_ctx = \<lparr>http_key = Some ''/a'', http_poll = Fetching\<rparr> :: (string, nat option) HttpContext, flights = [''/a'']\<rparr>"
    using draw [of 3 "''/a''" "widget_default :: (string, nat) Widget"]
    by (simp add: try_fetch_and_render_def fetch_and_render_def force_fetch_def widget_default_def context_default_def)
  moreover have "net_step (Answer 5 ''/a'' (Inr (Some (7::nat))))
      \<lparr>widget_ctx = \<lparr>http_key = Some ''/a'', http_poll = Fetching\<rparr> :: (string, nat option) HttpContext, flights = [''/a'']\<rparr> ?W"
    using answer [of "''/a''" "\<lparr>widget_ctx = \<lparr>http_key = Some ''/a'', http_poll = Fetching\<rparr> :: (string, nat option) HttpContext, flights = [''/a'']\<rparr>"
        5 "Inr (Some 7)"] by simp
  ultimately have run: "net_run [Answer 5 ''/a'' (Inr (Some (7::nat))), Draw 3 ''/a'' StatePending] ?W"
    by - (rule net_run.step, rule net_run.step, rule net_run.start, assumption+)
  have "net_step (Draw 9 ''/a'' (StateReady (7::nat))) ?W ?W"
    using draw [where now = 9 and k = "''/a''" and W = ?W and spawned = False]
    by (simp add: try_fetch_and_render_def fetch_and_render_def answered_def cached_new_def cache_ttl_def nanos_def)
  from shown_values_are_fetched [OF run this] show ?thesis .
qed

end
