(* ===== verification/Vine_Front_View.thy ===== *)
theory Vine_Front_View
  imports Vine_Front_Io Vine_Front_Net Vine_Handler
begin

text \<open>
  The views of the file browser in the web page
  (\<^verbatim>\<open>crates/openark-vine-browser-frontend/src\<close>: \<^verbatim>\<open>i18n\<close>,
  \<^verbatim>\<open>pages/directory\<close>, \<^verbatim>\<open>router.rs\<close> and \<^verbatim>\<open>app.rs\<close>): texts for
  sizes, names and dates, the links above a directory, check boxes, the dragging of files, and what the
  directory page shows while the user moves around.  Texts are bytes of UTF-8.  A piece of markup is a value that
  holds what it shows.
\<close>

section \<open>Texts\<close>

datatype Language = English | Korean

definition detect_language :: "string option \<Rightarrow> Language" where
  "detect_language l = (if l = Some ''ko-KR'' then Korean else English)"

definition korean_file :: string where
  "korean_file = map char_of [0xED, 0x8C, 0x8C, 0xEC, 0x9D, 0xBC :: nat]"

definition unit_file :: "Language \<Rightarrow> u64 \<Rightarrow> string" where
  "unit_file L n = (case L of English \<Rightarrow> if n = 1 then ''file'' else ''files'' | Korean \<Rightarrow> korean_file)"

text \<open>The position of the highest bit that is set.\<close>

definition highest_one :: "u64 \<Rightarrow> nat option" where
  "highest_one n = (if n = 0 then None else Some (bits (unat n) - 1))"

definition size_base :: "u64 \<Rightarrow> nat" where
  "size_base n = min 10 (unwrap_or 0 (highest_one n) div 10)"

definition size_unit :: "nat \<Rightarrow> string" where
  "size_unit b = [[], ''Ki'', ''Mi'', ''Gi'', ''Ti'', ''Pi'', ''Ei'', ''Zi'', ''Yi'', ''Ri'', ''Qi''] ! b"

text \<open>Dividing by a power of two is exact, and two digits are rounded to the nearest and to even.\<close>

definition round_half_even :: "nat \<Rightarrow> nat \<Rightarrow> nat" where
  "round_half_even n d =
     (let q = n div d; r = n mod d in if 2 * r > d \<or> 2 * r = d \<and> odd q then q + 1 else q)"

definition size_hundredths :: "u64 \<Rightarrow> nat" where
  "size_hundredths n = round_half_even (100 * round53 (unat n)) (2 ^ (10 * size_base n))"

definition hundredths_str :: "nat \<Rightarrow> string" where
  "hundredths_str h = nat_str (h div 100) @ ''.'' @ nat_str (h mod 100 div 10) @ nat_str (h mod 10)"

definition format_size :: "Language \<Rightarrow> bool \<Rightarrow> u64 option \<Rightarrow> string" where
  "format_size L is_dir bytes =
     (case bytes of
        None \<Rightarrow> ''-''
      | Some n \<Rightarrow>
          trim_end_char (CHR ''.'') (trim_end_char (CHR ''0'') (hundredths_str (size_hundredths n))) @ '' '' @ size_unit (size_base n)
            @ (if is_dir then '' '' @ unit_file L n else ''B''))"

text \<open>The Korean words between the two sizes and behind them.\<close>

definition korean_of_shared :: string where
  "korean_of_shared = '' '' @ map char_of [0xEA, 0xB3, 0xB5, 0xEC, 0x9C, 0xA0 :: nat] @ '' ''
     @ map char_of [0xEA, 0xB3, 0xB5, 0xEA, 0xB0, 0x84 :: nat] @ '' '' @ map char_of [0xEC, 0xA4, 0x91 :: nat] @ '' ''"

definition korean_used :: string where
  "korean_used = '' '' @ map char_of [0xEC, 0x82, 0xAC, 0xEC, 0x9A, 0xA9, 0xEC, 0xA4, 0x91 :: nat]"

definition format_capacity_usage :: "Language \<Rightarrow> u64 \<Rightarrow> u64 \<Rightarrow> string" where
  "format_capacity_usage L used cap =
     (let u = format_size L False (Some used); c = format_size L False (Some cap) in
      case L of
        English \<Rightarrow> u @ '' of shared '' @ c @ '' used''
      | Korean \<Rightarrow> c @ korean_of_shared @ u @ korean_used)"

text \<open>The text of a duration is that of a library; the duration loses its sign.\<close>

definition format_date :: "(int \<Rightarrow> string) \<Rightarrow> timestamp option \<Rightarrow> timestamp \<Rightarrow> string" where
  "format_date timeago from_at to_at = (case from_at of None \<Rightarrow> ''-'' | Some t \<Rightarrow> timeago \<bar>to_at - t\<bar>)"

text \<open>A text can be cut only where a character begins; \<^verbatim>\<open>None\<close> is the panic otherwise.\<close>

definition is_continuation :: "char \<Rightarrow> bool" where
  "is_continuation c \<longleftrightarrow> of_char c div 64 = (2 :: nat)"

definition cut_text :: "nat \<Rightarrow> string \<Rightarrow> string option" where
  "cut_text n s = (if n < length s \<and> is_continuation (s ! n) then None else Some (take n s))"

definition format_initial :: "UserRef \<Rightarrow> string option" where
  "format_initial u =
     (case user_initial (user_metadata u) of
        Some s \<Rightarrow> Some s
      | None \<Rightarrow> cut_text (min (length (user_ref_name u)) 2) (user_ref_name u))"

section \<open>Routes and links\<close>

datatype FileRoute = RouteHome | RouteFileEntry string | RouteNotFound

datatype FileScreen = DirectoryScreen string | RedirectTo FileRoute

definition switch_file_route :: "FileRoute \<Rightarrow> FileScreen" where
  "switch_file_route r =
     (case r of
        RouteNotFound \<Rightarrow> RedirectTo (RouteFileEntry [])
      | RouteHome \<Rightarrow> DirectoryScreen []
      | RouteFileEntry path \<Rightarrow> DirectoryScreen path)"

definition trim_slashes :: "string \<Rightarrow> string" where
  "trim_slashes s = trim_end_char (CHR ''/'') (trim_start_char (CHR ''/'') s)"

text \<open>A link: its text, and where it leads when it is active.\<close>

definition render_breadcrumb :: "string \<Rightarrow> string \<Rightarrow> bool \<Rightarrow> string \<times> FileRoute option" where
  "render_breadcrumb name path active = (name, if active then Some (RouteFileEntry (trim_slashes path)) else None)"

text \<open>The loop over the slashes; \<open>done\<close> is what is behind, without the slash.\<close>

fun slash_crumbs :: "string \<Rightarrow> string list \<Rightarrow> (string \<times> FileRoute option) list" where
  "slash_crumbs before [] = []"
| "slash_crumbs before [name] = (if name = [] then [] else [render_breadcrumb name (before @ name) False])"
| "slash_crumbs before (name # names) =
     render_breadcrumb name (before @ name) True # slash_crumbs (before @ name @ ''/'') names"

definition render_breadcrumbs :: "string \<Rightarrow> (string \<times> FileRoute option) list" where
  "render_breadcrumbs path =
     (let p = trim_slashes path in
      render_breadcrumb ''/'' [] (p \<noteq> []) # (if p = [] then [] else slash_crumbs [] (split_on (CHR ''/'') p)))"

section \<open>Check boxes\<close>

datatype CheckBoxAction = ToggleItem nat | ToggleMany nat nat

definition box_item :: "bool list \<Rightarrow> nat \<Rightarrow> bool" where
  "box_item vs i = (if i < length vs then vs ! i else False)"

definition box_many :: "bool list \<Rightarrow> nat \<Rightarrow> nat \<Rightarrow> bool" where
  "box_many vs i n \<longleftrightarrow> i + n \<le> length vs \<and> list_all id (take n (drop i vs))"

definition box_reserve :: "nat \<Rightarrow> bool list \<Rightarrow> bool list" where
  "box_reserve n vs = (if length vs < n then vs @ replicate (n - length vs) False else vs)"

definition box_reduce :: "CheckBoxAction \<Rightarrow> bool list \<Rightarrow> bool list" where
  "box_reduce a vs =
     (case a of
        ToggleItem i \<Rightarrow> (let vs = box_reserve (i + 1) vs in vs[i := \<not> vs ! i])
      | ToggleMany i n \<Rightarrow>
          (let old = box_many vs i n; vs = box_reserve (i + n) vs in take i vs @ replicate n (\<not> old) @ drop (i + n) vs))"

section \<open>Dragging\<close>

record DataItem =
  di_kind :: string
  di_type :: string
  di_text :: string
  di_file :: "string option"

definition DATA_TRANSFER_TYPE_CONTAINER :: string where
  "DATA_TRANSFER_TYPE_CONTAINER = ''openark_vine_browser_frontend/file-entry''"

datatype UploadDragSource = FromContainer | FromOutside

datatype UploadDragDestination = OntoContainer | OntoItem nat

definition from_global_index :: "nat option \<Rightarrow> UploadDragDestination" where
  "from_global_index i = (case i of None \<Rightarrow> OntoContainer | Some n \<Rightarrow> OntoItem n)"

record UploadDragState =
  drag_src :: UploadDragSource
  drag_dst :: UploadDragDestination

definition is_container_item :: "DataItem \<Rightarrow> bool" where
  "is_container_item x \<longleftrightarrow> di_kind x = ''string'' \<and> di_type x = DATA_TRANSFER_TYPE_CONTAINER"

fun drag_source :: "UploadDragSource option \<Rightarrow> DataItem list \<Rightarrow> UploadDragSource option" where
  "drag_source src [] = src"
| "drag_source src (x # xs) =
     (if is_container_item x then Some FromContainer
      else drag_source (if di_kind x = ''file'' then Some FromOutside else src) xs)"

text \<open>The items of an event, if it carries any.\<close>

definition drag_parse :: "DataItem list option \<Rightarrow> nat option \<Rightarrow> (UploadDragState \<times> DataItem list) option" where
  "drag_parse ev i =
     (case ev of
        None \<Rightarrow> None
      | Some items \<Rightarrow>
          map_option (\<lambda>src. (\<lparr>drag_src = src, drag_dst = from_global_index i\<rparr>, items)) (drag_source None items))"

text \<open>A handler: whether it consumes the event, and the state afterwards.\<close>

definition handle_ondragenter ::
  "nat option \<Rightarrow> bool \<Rightarrow> bool \<Rightarrow> DataItem list option \<Rightarrow> UploadDragState option \<Rightarrow> bool \<times> UploadDragState option" where
  "handle_ondragenter i is_dir ready ev st =
     (if \<not> is_dir \<or> \<not> ready then (False, st)
      else (case drag_parse ev i of Some (new, _) \<Rightarrow> (False, Some new) | None \<Rightarrow> (False, st)))"

definition handle_ondragover ::
  "nat option \<Rightarrow> bool \<Rightarrow> bool \<Rightarrow> DataItem list option \<Rightarrow> UploadDragState option \<Rightarrow> bool \<times> UploadDragState option" where
  "handle_ondragover i is_dir ready ev st =
     (if \<not> is_dir \<or> \<not> ready then (False, st)
      else (case drag_parse ev i of
          Some (new, _) \<Rightarrow> (True, Some new)
        | None \<Rightarrow> if st \<noteq> None then (True, st) else (False, st)))"

definition handle_ondragleave ::
  "nat option \<Rightarrow> bool \<Rightarrow> bool \<Rightarrow> UploadDragState option \<Rightarrow> bool \<times> UploadDragState option" where
  "handle_ondragleave i is_dir ready st =
     (if \<not> is_dir \<or> \<not> ready then (False, st)
      else if from_global_index i = OntoContainer \<and> st \<noteq> None then (True, None)
      else (False, st))"

text \<open>What a drop does with its items, in order: files are uploaded, and an item of the page would be moved.\<close>

datatype drop_action = UploadInto string FileRef | MoveInto FileRef FileRef

definition drop_item :: "(string \<Rightarrow> FileRef option) \<Rightarrow> FileRef \<Rightarrow> DataItem \<Rightarrow> drop_action option" where
  "drop_item json dst x =
     (if is_container_item x then map_option (\<lambda>src. MoveInto src dst) (json (di_text x))
      else if di_kind x = ''file'' then map_option (\<lambda>src. UploadInto src dst) (di_file x)
      else None)"

definition handle_ondrop ::
  "(string \<Rightarrow> FileRef option) \<Rightarrow> FileRef \<Rightarrow> nat option \<Rightarrow> bool \<Rightarrow> bool \<Rightarrow> DataItem list option \<Rightarrow> UploadDragState option
    \<Rightarrow> bool \<times> UploadDragState option \<times> drop_action list" where
  "handle_ondrop json dst i is_dir ready ev st =
     (if \<not> is_dir \<or> \<not> ready then (False, st, [])
      else (case drag_parse ev i of
          Some (_, items) \<Rightarrow> (True, None, List.map_filter (drop_item json dst) items)
        | None \<Rightarrow> (False, st, [])))"

text \<open>Moving a file is only traced.\<close>

definition drop_event :: "timestamp \<Rightarrow> drop_action \<Rightarrow> event option" where
  "drop_event now a = (case a of UploadInto src dst \<Rightarrow> Some (DropFile now src dst) | MoveInto _ _ \<Rightarrow> None)"

definition handle_ondragstart :: "(FileRef \<Rightarrow> string option) \<Rightarrow> FileRef \<Rightarrow> DataItem list" where
  "handle_ondragstart json file =
     (case json file of
        Some s \<Rightarrow> [\<lparr>di_kind = ''string'', di_type = DATA_TRANSFER_TYPE_CONTAINER, di_text = s, di_file = None\<rparr>]
      | None \<Rightarrow> [])"

section \<open>The directory page\<close>

datatype FileEntryState = DirectoryState | EmptyState | NotFoundState | FailedState

definition dummy_ref :: FileRef where
  "dummy_ref = \<lparr>ref_name = ''All files'', ref_path = ''/'', ref_metadata =
     \<lparr>file_accessed = None, file_created = None, file_modified = None, file_size = None, file_owner = None\<rparr>\<rparr>"

definition sample_ref :: "string \<Rightarrow> string \<Rightarrow> u64 \<Rightarrow> FileRef" where
  "sample_ref name path n = \<lparr>ref_name = name, ref_path = path, ref_metadata = (ref_metadata dummy_ref)\<lparr>file_size := Some n\<rparr>\<rparr>"

definition sample_entry :: FileEntry where
  "sample_entry = \<lparr>entry_ref = dummy_ref, entry_files =
     [sample_ref ''My Project'' ''/My Project/'' 12, sample_ref ''My Image.jpg'' ''/My Image.jpg'' 165378,
      sample_ref ''My Document.pdf'' ''/My Document.pdf'' 18810]\<rparr>"

definition empty_entry :: FileEntry where
  "empty_entry = \<lparr>entry_ref = dummy_ref, entry_files = []\<rparr>"

definition parse_file_entry :: "FileEntry HttpState \<Rightarrow> FileEntry" where
  "parse_file_entry s =
     (case s of StatePending \<Rightarrow> sample_entry | StateNotFound \<Rightarrow> empty_entry | StateFailed \<Rightarrow> empty_entry | StateReady e \<Rightarrow> e)"

definition entry_state :: "FileEntry HttpState \<Rightarrow> FileEntryState" where
  "entry_state s =
     (case s of
        StatePending \<Rightarrow> DirectoryState
      | StateReady e \<Rightarrow> if entry_files e = [] then EmptyState else DirectoryState
      | StateNotFound \<Rightarrow> NotFoundState
      | StateFailed \<Rightarrow> FailedState)"

definition is_ready_state :: "FileEntryState \<Rightarrow> bool" where
  "is_ready_state s \<longleftrightarrow> s = DirectoryState \<or> s = EmptyState"

datatype FileIndicesAction = ClearIndices | SortedIndices "nat list"

definition indices_reduce :: "FileIndicesAction \<Rightarrow> nat list \<Rightarrow> nat list" where
  "indices_reduce a is = (case a of ClearIndices \<Rightarrow> [] | SortedIndices js \<Rightarrow> js)"

datatype ViewMode = GridMode | ListMode

text \<open>The files of a list with their indices; \<^verbatim>\<open>None\<close> is the panic of an index out of range.\<close>

definition list_files :: "nat list \<Rightarrow> FileEntry \<Rightarrow> (nat \<times> FileRef) list option" where
  "list_files is e =
     (let n = length (entry_files e); js = (if length is = n then is else [0..<n]) in
      if list_all (\<lambda>j. j < n) js then Some (map (\<lambda>j. (j, entry_files e ! j)) js) else None)"

definition grid_files :: "FileEntry \<Rightarrow> (nat \<times> FileRef) list" where
  "grid_files e = enumerate 0 (entry_files e)"

datatype PreviewView = PreviewError string | AudioView string string | ObjectView string string | ImageView string | NoPreview

definition render_preview :: "(string \<Rightarrow> string + string) \<Rightarrow> FileRef \<Rightarrow> PreviewView" where
  "render_preview join_url file =
     (case get_file_content_url join_url (ref_path file) of
        Inl e \<Rightarrow> PreviewError e
      | Inr url \<Rightarrow>
          (case file_ty file of
             Some (Audio t) \<Rightarrow> AudioView url (audio_mime t)
           | Some (Document t) \<Rightarrow> ObjectView url (document_mime t)
           | Some (Image _) \<Rightarrow> ImageView url
           | Some (Video t) \<Rightarrow> ObjectView url (video_mime t)
           | Some (App _) \<Rightarrow> NoPreview
           | None \<Rightarrow> NoPreview))"

definition entry_color :: "FileType option \<Rightarrow> bool \<Rightarrow> string" where
  "entry_color ty is_dir =
     (if is_dir then ''text-yellow-400''
      else (case ty of
          Some (App _) \<Rightarrow> ''text-orange-400''
        | Some (Audio _) \<Rightarrow> ''text-orange-400''
        | Some (Document _) \<Rightarrow> ''text-red-400''
        | Some (Image _) \<Rightarrow> ''text-blue-400''
        | Some (Video _) \<Rightarrow> ''text-yellow-300''
        | None \<Rightarrow> ''text-purple-400''))"

text \<open>The shortcuts at the left: whether it is the current one, its name, and where it leads.\<close>

definition render_shortcut :: "string \<Rightarrow> FileShortcut \<Rightarrow> bool \<times> string \<times> FileRoute" where
  "render_shortcut path s =
     (trim_slashes (ref_path (shortcut_ref s)) = trim_slashes path, ref_name (shortcut_ref s),
      RouteFileEntry (trim_slashes (ref_path (shortcut_ref s))))"

definition offline_conf :: GlobalConfiguration where
  "offline_conf = \<lparr>global_spec = \<lparr>conf_title = [], conf_logo_url = None, conf_redirect_url = None\<rparr>, global_user = None\<rparr>"

definition parse_conf :: "GlobalConfiguration HttpState \<Rightarrow> GlobalConfiguration" where
  "parse_conf s = (case s of StateReady c \<Rightarrow> c | _ \<Rightarrow> offline_conf)"

text \<open>The buttons above the files: the modes of a directory, or the download of a file.\<close>

datatype NavButton = ModeButton ViewMode bool | DownloadButton FileRef | StatusButton

definition render_buttons :: "ViewMode \<Rightarrow> FileEntry option \<Rightarrow> NavButton list" where
  "render_buttons mode e =
     (case e of
        None \<Rightarrow> [ModeButton GridMode (mode = GridMode), ModeButton ListMode (mode = ListMode)]
      | Some e \<Rightarrow>
          if is_dir_ref (entry_ref e) then [ModeButton GridMode (mode = GridMode), ModeButton ListMode (mode = ListMode)]
          else [DownloadButton (entry_ref e)]) @ [StatusButton]"

text \<open>The state of the page: one component, that stays when the path changes.\<close>

record DirPage =
  dir_path :: string
  dir_widget :: "(string, FileEntry) Widget"
  dir_selected :: "nat option"
  dir_boxes :: "bool list"
  dir_mode :: ViewMode

definition selected_file :: "DirPage \<Rightarrow> FileRef option" where
  "selected_file D =
     Option.bind (dir_selected D) (\<lambda>i. Option.bind (http_ok (widget_ctx (dir_widget D))) (\<lambda>e.
       if i < length (entry_files e) then Some (entry_files e ! i) else None))"

datatype dir_event =
  ClickFile nat
| OpenFile FileRef
| FollowLink string
| CloseSidebar
| ClickBox CheckBoxAction
| ChangeMode ViewMode
| DrawDir timestamp
| AnswerDir timestamp string "string + FileEntry option"
| ReloadDir

definition dir_step :: "dir_event \<Rightarrow> DirPage \<Rightarrow> DirPage" where
  "dir_step e D =
     (case e of
        ClickFile i \<Rightarrow> D\<lparr>dir_selected := Some i\<rparr>
      | OpenFile f \<Rightarrow> D\<lparr>dir_path := trim_slashes (ref_path f), dir_selected := None\<rparr>
      | FollowLink path \<Rightarrow> D\<lparr>dir_path := path\<rparr>
      | CloseSidebar \<Rightarrow> D\<lparr>dir_selected := None\<rparr>
      | ClickBox a \<Rightarrow> D\<lparr>dir_boxes := box_reduce a (dir_boxes D)\<rparr>
      | ChangeMode m \<Rightarrow> D\<lparr>dir_mode := m\<rparr>
      | DrawDir now \<Rightarrow>
          (case try_fetch_and_render now (dir_path D) (widget_ctx (dir_widget D)) of
             (X, spawned, _) \<Rightarrow> D\<lparr>dir_widget := \<lparr>widget_ctx = X,
               flights = flights (dir_widget D) @ (if spawned then [dir_path D] else [])\<rparr>\<rparr>)
      | AnswerDir now k r \<Rightarrow>
          if k \<in> set (flights (dir_widget D))
          then D\<lparr>dir_widget := \<lparr>widget_ctx = answered now k r, flights = remove1 k (flights (dir_widget D))\<rparr>\<rparr>
          else D
      | ReloadDir \<Rightarrow> D\<lparr>dir_widget := (dir_widget D)\<lparr>widget_ctx := context_default\<rparr>\<rparr>)"

definition dir_run :: "dir_event list \<Rightarrow> DirPage \<Rightarrow> DirPage" where
  "dir_run es D = fold dir_step es D"

section \<open>Sizes that are shown\<close>

lemma round_half_even_close:
  assumes "0 < d"
  shows "2 * \<bar>int (round_half_even n d) * int d - int n\<bar> \<le> int d"
proof -
  define q r where "q = n div d" and "r = n mod d"
  have n: "int n = int q * int d + int r"
    unfolding q_def r_def by (metis div_mult_mod_eq of_nat_add of_nat_mult)
  have "r < d"
    using assms by (simp add: r_def)
  have "round_half_even n d = q \<and> 2 * r \<le> d \<or> round_half_even n d = q + 1 \<and> d \<le> 2 * r"
    by (auto simp: round_half_even_def Let_def q_def r_def)
  then show ?thesis
  proof
    assume "round_half_even n d = q \<and> 2 * r \<le> d"
    then show ?thesis by (simp add: n)
  next
    assume up: "round_half_even n d = q + 1 \<and> d \<le> 2 * r"
    then have "int (round_half_even n d) * int d - int n = int d - int r"
      by (simp add: n algebra_simps)
    with up \<open>r < d\<close> show ?thesis by simp
  qed
qed

lemma round_half_even_lower: "0 < d \<Longrightarrow> k * d \<le> n \<Longrightarrow> k \<le> round_half_even n d"
proof -
  assume "0 < d" "k * d \<le> n"
  then have "k \<le> n div d"
    by (simp add: less_eq_div_iff_mult_less_eq)
  then show ?thesis
    by (auto simp: round_half_even_def Let_def)
qed

lemma round_half_even_upper:
  assumes "0 < d" and "n < k * d"
  shows "round_half_even n d \<le> k"
proof -
  have "n div d < k"
    using assms by (simp add: div_less_iff_less_mult)
  then show ?thesis
    by (auto simp: round_half_even_def Let_def)
qed

lemma size_base_bounds:
  assumes "n \<noteq> 0" and "unat n < 2 ^ 53"
  shows "2 ^ (10 * size_base n) \<le> unat n \<and> unat n < 2 ^ (10 * size_base n + 10)"
proof -
  let ?m = "unat n" and ?h = "bits (unat n) - 1"
  have "0 < ?m"
    using assms(1) by (simp add: unat_gt_0)
  then have bits: "2 ^ ?h \<le> ?m" "?m < 2 ^ bits ?m" "0 < bits ?m"
    using bits_bounds [of ?m] by auto
  have "?h < 53"
  proof (rule ccontr)
    assume "\<not> ?h < 53"
    then have "(2::nat) ^ 53 \<le> 2 ^ ?h"
      by (intro power_increasing) auto
    with bits(1) assms(2) show False by simp
  qed
  then have base: "size_base n = ?h div 10"
    using assms(1) by (simp add: size_base_def highest_one_def unwrap_or_def)
  have "(2::nat) ^ (10 * (?h div 10)) \<le> 2 ^ ?h"
    by (intro power_increasing) auto
  moreover have "(2::nat) ^ bits ?m \<le> 2 ^ (10 * (?h div 10) + 10)"
    using bits(3) by (intro power_increasing) auto
  ultimately show ?thesis
    unfolding base using bits(1,2) by linarith
qed

text \<open>The size of a file is shown in the unit that fits it, as a number from 1 to 1024 that differs from the size by at most
  half of the last of its two digits behind the point, for all sizes that a floating-point number holds exactly.\<close>

theorem shown_size_is_close:
  assumes "n \<noteq> 0" and "unat n < 2 ^ 53"
  shows "100 \<le> size_hundredths n \<and> size_hundredths n \<le> 100 * 1024
    \<and> 2 * \<bar>int (size_hundredths n) * 2 ^ (10 * size_base n) - 100 * int (unat n)\<bar> \<le> 2 ^ (10 * size_base n)"
proof -
  let ?d = "(2::nat) ^ (10 * size_base n)"
  have h: "size_hundredths n = round_half_even (100 * unat n) ?d"
    using assms(2) by (simp add: size_hundredths_def round53_small)
  have base: "?d \<le> unat n" "unat n < 1024 * ?d"
    using size_base_bounds [OF assms] by (simp_all add: power_add)
  have "100 \<le> size_hundredths n" "size_hundredths n \<le> 100 * 1024"
    unfolding h using base by (auto intro: round_half_even_lower round_half_even_upper)
  moreover have "2 * \<bar>int (size_hundredths n) * int ?d - int (100 * unat n)\<bar> \<le> int ?d"
    unfolding h by (rule round_half_even_close) simp
  ultimately show ?thesis
    by simp
qed

section \<open>Links that lead to a directory\<close>

lemma slash_crumbs_prefixes:
  assumes "names \<noteq> []" and "last names \<noteq> []"
  shows "slash_crumbs before names
    = map (\<lambda>k. render_breadcrumb (names ! k) (before @ join ''/'' (take (Suc k) names)) (Suc k < length names)) [0..<length names]"
  using assms
proof (induction before names rule: slash_crumbs.induct)
  case (3 before name m names)
  let ?F = "\<lambda>k. render_breadcrumb ((name # m # names) ! k)
    (before @ join ''/'' (take (Suc k) (name # m # names))) (Suc k < length (name # m # names))"
  have "?F (Suc k) = render_breadcrumb ((m # names) ! k) ((before @ name @ ''/'') @ join ''/'' (take (Suc k) (m # names)))
      (Suc k < length (m # names))" for k
    by simp
  with 3 have "map (\<lambda>k. ?F (Suc k)) [0..<length (m # names)] = slash_crumbs (before @ name @ ''/'') (m # names)"
    by (simp only: list.discI not_False_eq_True last.simps if_False append_assoc)
  moreover have "map ?F [0..<length (name # m # names)] = ?F 0 # map (\<lambda>k. ?F (Suc k)) [0..<length (m # names)]"
    by (simp only: list.size(4) map_upt_Suc One_nat_def add_Suc_right add_0_right)
  ultimately show ?case
    by simp
qed simp_all

text \<open>The links above a directory lead to the directories on the way to it: the root first, then one link for each
  part of the path, which is named after the part and leads to the path up to it, and the last part, which is
  where the page is, is not a link.\<close>

theorem breadcrumbs_are_prefixes:
  assumes "trim_slashes path \<noteq> []"
  defines "names \<equiv> split_on (CHR ''/'') (trim_slashes path)"
  shows "render_breadcrumbs path = (''/'', Some (RouteFileEntry []))
    # map (\<lambda>k. (names ! k, if Suc k < length names then Some (RouteFileEntry (trim_slashes (join ''/'' (take (Suc k) names)))) else None))
        [0..<length names]"
proof -
  have last_split: "s \<noteq> [] \<Longrightarrow> last s \<noteq> c \<Longrightarrow> last (split_on c s) \<noteq> []" for c s
  proof (induction c s rule: split_on.induct)
    case (2 c x xs)
    then show ?case
      by (cases "x = c"; cases "xs = []") (auto split: list.splits)
  qed simp
  have "last (trim_slashes path) \<noteq> CHR ''/''"
    using assms(1) hd_dropWhile [of "\<lambda>x. x = CHR ''/''" "rev (trim_start_char (CHR ''/'') path)"]
    by (simp add: trim_slashes_def trim_end_char_def last_rev)
  then have "last names \<noteq> []"
    using last_split assms(1) by (simp add: names_def)
  then have "slash_crumbs [] names = map (\<lambda>k. render_breadcrumb (names ! k) (join ''/'' (take (Suc k) names)) (Suc k < length names)) [0..<length names]"
    using slash_crumbs_prefixes [of names "[]"] by (simp add: names_def)
  then show ?thesis
    using assms(1) by (simp add: render_breadcrumbs_def Let_def names_def [symmetric] render_breadcrumb_def)
      (simp add: trim_slashes_def trim_start_char_def trim_end_char_def)
qed

section \<open>Boxes, names and dates\<close>

lemma box_item_reserve [simp]: "box_item (box_reserve n vs) j = box_item vs j"
  by (auto simp: box_item_def box_reserve_def nth_append)

lemma box_reserve_length: "n \<le> length (box_reserve n vs)"
  by (auto simp: box_reserve_def)

lemma toggle_item_is_right: "box_item (box_reduce (ToggleItem i) vs) = (box_item vs)(i := \<not> box_item vs i)"
proof
  fix j
  have i: "i < length (box_reserve (i + 1) vs)"
    using box_reserve_length [of "i + 1" vs] by simp
  then have "box_item (box_reserve (i + 1) vs) i = box_reserve (i + 1) vs ! i"
    by (simp add: box_item_def)
  then have "box_reserve (i + 1) vs ! i = box_item vs i"
    by simp
  with i show "box_item (box_reduce (ToggleItem i) vs) j = ((box_item vs)(i := \<not> box_item vs i)) j"
    using box_item_reserve [of "i + 1" vs j]
    by (auto simp: box_reduce_def Let_def box_item_def nth_list_update split: if_splits)
qed

lemma toggle_many_is_right:
  "box_item (box_reduce (ToggleMany i n) vs) j = (if i \<le> j \<and> j < i + n then \<not> box_many vs i n else box_item vs j)"
  using box_item_reserve [of "i + n" vs j] box_reserve_length [of "i + n" vs]
  by (auto simp: box_reduce_def Let_def box_item_def nth_append split: if_splits)

text \<open>The head shows whether all boxes are ticked, and a click on it ticks all or none.\<close>

lemma box_many_iff: "0 < n \<Longrightarrow> box_many vs i n \<longleftrightarrow> (\<forall>j. i \<le> j \<and> j < i + n \<longrightarrow> box_item vs j)"
proof -
  assume n: "0 < n"
  show ?thesis
  proof
    assume many: "box_many vs i n"
    then have len: "i + n \<le> length vs" and all: "list_all id (take n (drop i vs))"
      by (simp_all add: box_many_def)
    have "vs ! j" if "i \<le> j" "j < i + n" for j
    proof -
      have "j - i < n"
        using that by simp
      with all len have "vs ! (i + (j - i))"
        by (auto simp: list_all_length)
      with that show ?thesis
        by simp
    qed
    with len show "\<forall>j. i \<le> j \<and> j < i + n \<longrightarrow> box_item vs j"
      by (simp add: box_item_def)
  next
    assume all: "\<forall>j. i \<le> j \<and> j < i + n \<longrightarrow> box_item vs j"
    have "box_item vs (i + n - 1)"
      using all n by simp
    then have "i + n \<le> length vs"
      using n by (auto simp: box_item_def split: if_splits)
    moreover have "take n (drop i vs) ! k" if "k < n" for k
    proof -
      have "box_item vs (i + k)" using all that by simp
      then show ?thesis
        using that \<open>i + n \<le> length vs\<close> by (simp add: box_item_def)
    qed
    ultimately show "box_many vs i n"
      by (simp add: box_many_def list_all_length)
  qed
qed

text \<open>The initial of a user without one is cut from the name after two bytes, which ends the page when the name begins with
  a character of three bytes, as Korean names do.\<close>

lemma three_byte_names_panic:
  assumes "user_initial (user_metadata u) = None" and "user_ref_name u = a # b # c # cs" and "is_continuation c"
  shows "format_initial u = None"
  using assms by (simp add: format_initial_def cut_text_def)

text \<open>A date in the future is shown like one in the past.\<close>

lemma future_looks_past: "format_date f (Some (now + d)) now = format_date f (Some (now - d)) now"
  by (simp add: format_date_def)

section \<open>Moving around\<close>

text \<open>What was selected in one directory is selected in the next one: following a link keeps the index of the file and
  the ticked boxes, so that, once the other directory has arrived, the details of whichever file stands at the same place
  are shown, although nobody has chosen it.\<close>

theorem selection_survives_navigation:
  assumes "http_key (widget_ctx (dir_widget D)) \<noteq> Some path" and "i < length (entry_files e)"
  shows "let D' = dir_run [ClickFile i, FollowLink path, DrawDir t, AnswerDir t' path (Inr (Some e))] D in
    dir_path D' = path \<and> selected_file D' = Some (entry_files e ! i) \<and> dir_boxes D' = dir_boxes D"
proof -
  have "try_fetch_and_render t path (widget_ctx (dir_widget D)) = force_fetch path"
    using assms(1) by (simp add: try_fetch_and_render_def fetch_and_render_def)
  with assms(2) show ?thesis
    by (simp add: dir_run_def dir_step_def Let_def force_fetch_def selected_file_def answered_def http_ok_def cached_new_def)
qed

section \<open>Dropping files\<close>

lemma start_pending_refs: "map task_r (fst (start_pending n q)) = map task_r q"
proof (induction q arbitrary: n)
  case (Cons t ts)
  show ?case
  proof (cases t rule: task_cases)
    case (pending s c)
    then show ?thesis
      using Cons.IH [of "n - 1"] by (auto simp: start_pending_start split: prod.splits)
  next
    case (running c)
    then show ?thesis
      using Cons.IH [of n] by (auto simp: start_pending_skip split: prod.splits)
  next
    case finished
    then show ?thesis
      using Cons.IH [of n] by (auto simp: start_pending_skip split: prod.splits)
  qed
qed simp

lemma schedule_refs: "map task_r (io_queue (fst (schedule_tasks S))) = map task_r (io_queue S)"
  using start_pending_refs [of _ "io_queue S"]
  by (auto simp: schedule_tasks_def Let_def split: prod.split) (metis fst_conv)

definition task_names :: "Page \<Rightarrow> (IOKind \<times> string) list" where
  "task_names P = map (\<lambda>t. (task_kind (rc_value (task_r t)), task_path (rc_value (task_r t)))) (io_queue (page_io P))"

lemma upload_adds_one: "task_names (upload_file join_url now src dst P) = task_names P @ [(Upload, ref_path dst)]"
proof -
  have names: "task_names P = map (\<lambda>r. (task_kind (rc_value r), task_path (rc_value r))) (map task_r (io_queue (page_io P)))" for P
    by (simp add: task_names_def comp_def)
  show ?thesis
    unfolding names upload_file_def
    by (auto simp: Let_def dispatch_def io_reduce_def new_rc_def schedule_refs case_prod_beta simp del: map_map list.map_comp split: sum.split)
qed

definition is_file_item :: "DataItem \<Rightarrow> bool" where
  "is_file_item x \<longleftrightarrow> \<not> is_container_item x \<and> di_kind x = ''file'' \<and> di_file x \<noteq> None"

definition drop_events :: "(string \<Rightarrow> FileRef option) \<Rightarrow> timestamp \<Rightarrow> FileRef \<Rightarrow> DataItem list \<Rightarrow> event list" where
  "drop_events json now dst xs = List.map_filter (drop_event now) (List.map_filter (drop_item json dst) xs)"

lemma drop_events_Cons:
  "drop_events json now dst (x # xs) =
     (if is_file_item x then [DropFile now (the (di_file x)) dst] else []) @ drop_events json now dst xs"
proof (cases "is_container_item x")
  case True
  then show ?thesis
    by (cases "json (di_text x)")
      (simp_all add: drop_events_def drop_item_def drop_event_def is_file_item_def List.map_filter_simps)
next
  case False
  then show ?thesis
    by (cases "di_file x")
      (simp_all add: drop_events_def drop_item_def drop_event_def is_file_item_def List.map_filter_simps)
qed

lemma drop_events_queued:
  "task_names (page_run join_url (drop_events json now dst xs) P) =
     task_names P @ replicate (length (filter is_file_item xs)) (Upload, ref_path dst)"
proof (induction xs arbitrary: P)
  case Nil
  then show ?case
    by (simp add: drop_events_def List.map_filter_simps page_run_def)
next
  case (Cons x xs)
  have "page_run join_url (DropFile now src dst # es) P = page_run join_url es (upload_file join_url now src dst P)" for src es P
    by (simp add: page_run_def page_event_def)
  then show ?case
    by (simp add: drop_events_Cons Cons.IH upload_adds_one)
qed

lemma drag_source_kept: "drag_source (Some s) xs \<noteq> None"
  by (induction xs arbitrary: s) auto

lemma no_source_no_files: "drag_source src xs = None \<Longrightarrow> filter is_file_item xs = []"
  by (induction xs arbitrary: src) (auto simp: is_file_item_def drag_source_kept split: if_splits)

text \<open>A drop on a directory that is ready adds one upload for each of its files to the queue, in their order and
  behind what is there, and nothing else; a drop anywhere else, or one without files, adds nothing, and an item
  that is dragged from the page itself is not moved.\<close>

theorem dropped_files_are_queued:
  "task_names (page_run join_url (List.map_filter (drop_event now) (snd (snd (handle_ondrop json dst i is_dir ready ev st)))) P)
   = task_names P @ (if is_dir \<and> ready
       then replicate (length (filter is_file_item (unwrap_or [] ev))) (Upload, ref_path dst) else [])"
proof (cases "is_dir \<and> ready")
  case True
  have same: "List.map_filter (drop_event now) (snd (snd (handle_ondrop json dst i is_dir ready (Some xs) st)))
      = (if drag_source None xs = None then [] else drop_events json now dst xs)" for xs
    using True by (auto simp: handle_ondrop_def drag_parse_def drop_events_def List.map_filter_simps)
  show ?thesis
  proof (cases ev)
    case None
    then show ?thesis
      by (simp add: handle_ondrop_def drag_parse_def List.map_filter_simps page_run_def unwrap_or_def)
  next
    case (Some xs)
    show ?thesis
      unfolding Some same using True no_source_no_files [of None xs] drop_events_queued [of join_url json now dst xs P]
      by (cases "drag_source None xs") (simp_all add: unwrap_or_def page_run_def)
  qed
next
  case False
  then have "snd (snd (handle_ondrop json dst i is_dir ready ev st)) = []"
    by (auto simp: handle_ondrop_def)
  with False show ?thesis
    by (auto simp: List.map_filter_simps page_run_def)
qed

section \<open>Examples\<close>

theorem shown_size_is_close_witness:
  "100 \<le> size_hundredths 165378 \<and> size_hundredths 165378 \<le> 100 * 1024
   \<and> 2 * \<bar>int (size_hundredths 165378) * 2 ^ (10 * size_base 165378) - 100 * int (unat (165378 :: u64))\<bar> \<le> 2 ^ (10 * size_base 165378)"
  by (rule shown_size_is_close) simp_all

theorem breadcrumbs_are_prefixes_witness:
  "render_breadcrumbs ''/a/b.txt'' = (''/'', Some (RouteFileEntry []))
    # map (\<lambda>k. ([''a'', ''b.txt''] ! k, if Suc k < 2 then Some (RouteFileEntry (trim_slashes (join ''/'' (take (Suc k) [''a'', ''b.txt''])))) else None))
        [0..<2]"
proof -
  have trim: "trim_slashes ''/a/b.txt'' = ''a/b.txt''"
    by code_simp
  then have "split_on (CHR ''/'') (trim_slashes ''/a/b.txt'') = [''a'', ''b.txt'']"
    by simp
  moreover from trim have "trim_slashes ''/a/b.txt'' \<noteq> []"
    by simp
  ultimately show ?thesis
    using breadcrumbs_are_prefixes [of "''/a/b.txt''"] by (simp add: numeral_2_eq_2)
qed

definition example_dir_page :: DirPage where
  "example_dir_page = \<lparr>dir_path = [], dir_widget = widget_default, dir_selected = None, dir_boxes = [True], dir_mode = ListMode\<rparr>"

theorem selection_survives_navigation_witness:
  "let D' = dir_run [ClickFile 1, FollowLink ''a'', DrawDir 0, AnswerDir 1 ''a'' (Inr (Some sample_entry))] example_dir_page in
    dir_path D' = ''a'' \<and> selected_file D' = Some (entry_files sample_entry ! 1) \<and> dir_boxes D' = dir_boxes example_dir_page"
  by (rule selection_survives_navigation)
    (simp_all add: example_dir_page_def widget_default_def context_default_def sample_entry_def)

end
