(* ===== verification/Vine_Front_Form.thy ===== *)
theory Vine_Front_Form
  imports Vine_Dashboard Vine_Backend "HOL-Library.AList"
begin

text \<open>
  Forms and tables of the dashboard in the web page
  (\<^verbatim>\<open>crates/openark-vine-dashboard-frontend/src\<close>: \<^verbatim>\<open>models/json_value.rs\<close>,
  \<^verbatim>\<open>pages/item_form.rs\<close>, \<^verbatim>\<open>widgets/table.rs\<close> and
  \<^verbatim>\<open>pages/home.rs\<close>): the values of a form and their checks, the selected rows, what a row
  shows, and the command line of a tab.  A piece of markup is a value that holds the texts it shows and the
  callbacks behind it.
\<close>

section \<open>Values of a form\<close>

text \<open>Libraries of the page: the text of a value, JSON pointers, the conversion of cases, and addresses (the host and
  the port of a text that is an address).\<close>

record page_lib =
  json_text :: "Value \<Rightarrow> string"
  json_pointer :: "Value \<Rightarrow> string \<Rightarrow> Value option"
  pascal_case :: "string \<Rightarrow> string"
  title_case :: "string \<Rightarrow> string"
  url_host_port :: "string \<Rightarrow> (string option \<times> nat option) option"

type_synonym json_values = "(string \<times> Value) list"

datatype JsonValueAction = UpdateValue string Value

definition json_reduce :: "JsonValueAction \<Rightarrow> json_values \<Rightarrow> json_values" where
  "json_reduce a vs = (case a of UpdateValue n v \<Rightarrow> AList.update n v vs)"

definition to_form_i64 :: "Value \<Rightarrow> int option" where
  "to_form_i64 v =
     (case v of
        VNull \<Rightarrow> None
      | VBool b \<Rightarrow> Some (if b then 1 else 0)
      | VNumber s \<Rightarrow> i64_parse s
      | VString s \<Rightarrow> i64_parse s
      | _ \<Rightarrow> None)"

definition to_form_string :: "page_lib \<Rightarrow> Value \<Rightarrow> string option" where
  "to_form_string P v = (case v of VNull \<Rightarrow> None | VString s \<Rightarrow> Some s | _ \<Rightarrow> Some (json_text P v))"

definition is_empty_value :: "Value \<Rightarrow> bool" where
  "is_empty_value v =
     (case v of
        VNull \<Rightarrow> True
      | VBool _ \<Rightarrow> False
      | VNumber _ \<Rightarrow> False
      | VString s \<Rightarrow> s = []
      | VArray vs \<Rightarrow> vs = []
      | VObject es \<Rightarrow> es = [])"

definition field_value :: "ItemField \<Rightarrow> json_values \<Rightarrow> Value" where
  "field_value f vs = (case map_of vs (field_name f) of Some v \<Rightarrow> v | None \<Rightarrow> field_default f)"

definition validate_field :: "page_lib \<Rightarrow> ItemField \<Rightarrow> json_values \<Rightarrow> string + unit" where
  "validate_field P f vs =
     (let name = field_name f; v = field_value f vs in
      if \<not> field_optional f \<and> is_empty_value v then Inl (''Required field: '' @ name)
      else
        (case field_kind f of
           IntegerField \<Rightarrow>
             (case to_form_i64 v of
                None \<Rightarrow> Inl (''Invalid number: '' @ name)
              | Some n \<Rightarrow>
                  (case to_form_i64 (field_max_value f) of
                     Some hi \<Rightarrow>
                       if hi < n then Inl (''Value should be less than '' @ int_str hi @ '': '' @ name)
                       else (case to_form_i64 (field_min_value f) of
                           Some lo \<Rightarrow> if n < lo then Inl (''Value should be more than '' @ int_str lo @ '': '' @ name) else Inr ()
                         | None \<Rightarrow> Inr ())
                   | None \<Rightarrow>
                       (case to_form_i64 (field_min_value f) of
                           Some lo \<Rightarrow> if n < lo then Inl (''Value should be more than '' @ int_str lo @ '': '' @ name) else Inr ()
                         | None \<Rightarrow> Inr ())))
         | StringField \<Rightarrow>
             (case to_form_string P v of
                None \<Rightarrow> Inl (''Invalid text: '' @ name)
              | Some s \<Rightarrow>
                  if (case field_max_length f of Some m \<Rightarrow> m < length s | None \<Rightarrow> False)
                  then Inl (''Value should be less than '' @ nat_str (the (field_max_length f)) @ '' characters: '' @ name)
                  else if length s < field_min_length f
                  then Inl (''Value should be more than '' @ nat_str (field_min_length f) @ '' characters: '' @ name)
                  else Inr ())))"

text \<open>The alert of a form that is not valid: \<^verbatim>\<open>None\<close> for a valid one.\<close>

definition form_errors :: "page_lib \<Rightarrow> ItemMetadata \<Rightarrow> json_values \<Rightarrow> string list" where
  "form_errors P m vs =
     List.map_filter (\<lambda>f. case validate_field P f vs of Inl e \<Rightarrow> Some e | Inr _ \<Rightarrow> None) (template_fields (item_template m))"

definition form_is_valid :: "page_lib \<Rightarrow> ItemMetadata \<Rightarrow> json_values \<Rightarrow> string option" where
  "form_is_valid P m vs =
     (let message = join ''\<newline>'' (form_errors P m vs) in if message = [] then None else Some message)"

section \<open>Fields of a form\<close>

record FieldView =
  view_type :: string
  view_title :: string
  view_required :: bool
  view_disabled :: bool
  view_placeholder :: "string option"
  view_value :: "string option"
  view_max :: "string option"
  view_min :: "string option"
  view_maxlength :: "string option"
  view_minlength :: "string option"
  view_hints :: "string list"

text \<open>Drawing a field puts its default, as a text, among the values.\<close>

definition fill_default :: "page_lib \<Rightarrow> ItemField \<Rightarrow> json_values \<Rightarrow> json_values" where
  "fill_default P f vs =
     (case to_form_string P (field_default f) of
        Some s \<Rightarrow> if map_of vs (field_name f) = None then json_reduce (UpdateValue (field_name f) (VString s)) vs else vs
      | None \<Rightarrow> vs)"

definition build_field :: "page_lib \<Rightarrow> bool \<Rightarrow> ItemField \<Rightarrow> json_values \<Rightarrow> FieldView" where
  "build_field P on f vs =
     (let default_value = to_form_string P (field_default f);
          value = (case Option.bind (map_of vs (field_name f)) (to_form_string P) of Some s \<Rightarrow> Some s | None \<Rightarrow> default_value);
          hi = (case field_kind f of IntegerField \<Rightarrow> map_option int_str (to_form_i64 (field_max_value f)) | StringField \<Rightarrow> None);
          lo = (case field_kind f of IntegerField \<Rightarrow> map_option int_str (to_form_i64 (field_min_value f)) | StringField \<Rightarrow> None);
          maxlen = (case field_kind f of IntegerField \<Rightarrow> None | StringField \<Rightarrow> map_option nat_str (field_max_length f));
          minlen = (case field_kind f of IntegerField \<Rightarrow> None
            | StringField \<Rightarrow> Some (nat_str (if field_optional f \<and> field_min_length f = 0 then 1 else field_min_length f)))
      in \<lparr>view_type = (case field_kind f of IntegerField \<Rightarrow> ''number'' | StringField \<Rightarrow> ''text''),
          view_title = (case field_title f of Some t \<Rightarrow> t | None \<Rightarrow> title_case P (field_name f)),
          view_required = \<not> field_optional f, view_disabled = \<not> on,
          view_placeholder = (case field_placeholder f of Some p \<Rightarrow> Some p | None \<Rightarrow> default_value),
          view_value = value, view_max = hi, view_min = lo, view_maxlength = maxlen, view_minlength = minlen,
          view_hints =
            (case lo of Some s \<Rightarrow> [''Must be more than '' @ s] | None \<Rightarrow> [])
            @ (case hi of Some s \<Rightarrow> [''Must be less than '' @ s] | None \<Rightarrow> [])
            @ (case minlen of Some s \<Rightarrow> [''Must be more than '' @ s @ '' characters''] | None \<Rightarrow> [])
            @ (case maxlen of Some s \<Rightarrow> [''Must be less than '' @ s @ '' characters''] | None \<Rightarrow> [])\<rparr>)"

definition change_field :: "ItemField \<Rightarrow> string \<Rightarrow> json_values \<Rightarrow> json_values" where
  "change_field f input vs = json_reduce (UpdateValue (field_name f) (VString input)) vs"

fun draw_fields :: "page_lib \<Rightarrow> bool \<Rightarrow> ItemField list \<Rightarrow> json_values \<Rightarrow> FieldView list \<times> json_values" where
  "draw_fields P on [] vs = ([], vs)"
| "draw_fields P on (f # fs) vs =
     (case draw_fields P on fs (fill_default P f vs) of (views, vs') \<Rightarrow> (build_field P on f vs # views, vs'))"

section \<open>Selected rows\<close>

record Selections =
  sel_all :: "bool option"
  sel_items :: "bool list"
  sel_timestamp :: "timestamp option"

datatype SelectionsAction = Reset timestamp | Toggle nat bool | ToggleAll bool

definition sel_default :: "Selections \<Rightarrow> bool" where
  "sel_default S = unwrap_or False (sel_all S)"

definition sel_get :: "Selections \<Rightarrow> nat \<Rightarrow> bool" where
  "sel_get S i = (if i < length (sel_items S) then sel_items S ! i else sel_default S)"

text \<open>\<^verbatim>\<open>Vec::resize\<close>.\<close>

definition resize :: "nat \<Rightarrow> 'a \<Rightarrow> 'a list \<Rightarrow> 'a list" where
  "resize n d xs = take n xs @ replicate (n - length xs) d"

text \<open>\<^verbatim>\<open>None\<close> is the panic of an index out of range, which ends the page.\<close>

definition sel_reduce :: "SelectionsAction \<Rightarrow> Selections \<Rightarrow> Selections option" where
  "sel_reduce a S =
     (case a of
        Reset now \<Rightarrow> Some \<lparr>sel_all = None, sel_items = [], sel_timestamp = Some now\<rparr>
      | Toggle i checked \<Rightarrow>
          (let items = (if i \<le> length (sel_items S) then resize (i + 1) (sel_default S) (sel_items S) else sel_items S) in
           if i < length items then Some (S\<lparr>sel_items := items[i := checked]\<rparr>) else None)
      | ToggleAll checked \<Rightarrow> Some (S\<lparr>sel_all := Some checked, sel_items := []\<rparr>))"

text \<open>The boxes of the table: one in the head and one in each row.\<close>

definition header_change :: "Selections \<Rightarrow> SelectionsAction" where
  "header_change S = ToggleAll (\<not> unwrap_or False (sel_all S))"

definition row_change :: "Selections \<Rightarrow> nat \<Rightarrow> SelectionsAction" where
  "row_change S i = Toggle i (\<not> sel_get S i)"

text \<open>Rows that have been fetched again release the selection.\<close>

definition release_selections :: "timestamp \<Rightarrow> Selections \<Rightarrow> Selections" where
  "release_selections created S =
     (if sel_timestamp S \<noteq> Some created then the (sel_reduce (Reset created) S) else S)"

section \<open>Rows\<close>

fun to_display_string :: "page_lib \<Rightarrow> Value \<Rightarrow> string" where
  "to_display_string P (VString s) = s"
| "to_display_string P (VArray vs) = join '' | '' (map (to_display_string P) vs)"
| "to_display_string P (VObject es) = join '' | '' (map (\<lambda>(k, v). k @ '': '' @ to_display_string P v) es)"
| "to_display_string P v = json_text P v"

definition value_str :: "Value \<Rightarrow> string option" where
  "value_str v = (case v of VString s \<Rightarrow> Some s | _ \<Rightarrow> None)"

definition value_field :: "Value \<Rightarrow> string \<Rightarrow> Value option" where
  "value_field v k = (case v of VObject es \<Rightarrow> map_of es k | _ \<Rightarrow> None)"

text \<open>What a cell shows.\<close>

datatype Shown = Blank | Text string | Picture string string | Lamp string

definition level_class :: "string \<Rightarrow> string option" where
  "level_class l =
     (if l = ''Trace'' then Some ''status-primary''
      else if l = ''Debug'' \<or> l = ''Unknown'' then Some ''status-neutral''
      else if l = ''Completed'' \<or> l = ''Ready'' then Some ''status-success''
      else if l = ''Creating'' \<or> l = ''Info'' then Some ''status-info''
      else if l = ''Pending'' \<or> l = ''Warn'' \<or> l = ''Warning'' then Some ''status-warning''
      else if l = ''Error'' then Some ''status-error''
      else None)"

definition build_row_column_value ::
  "page_lib \<Rightarrow> string option \<Rightarrow> TablePrinterColumnKind \<Rightarrow> string \<Rightarrow> Value \<Rightarrow> Shown option" where
  "build_row_column_value P name kind path v =
     (case json_pointer P v path of
        None \<Rightarrow> None
      | Some x \<Rightarrow>
          (case kind of
             ElapsedTime \<Rightarrow> Some (Text (case value_str x of Some s \<Rightarrow> s | None \<Rightarrow> json_text P x))
           | ImageUrl \<Rightarrow> Some (case value_str x of Some src \<Rightarrow> Picture src (unwrap_or [] name) | None \<Rightarrow> Blank)
           | Level \<Rightarrow> Option.bind (value_str x) (\<lambda>s. map_option Lamp (level_class (pascal_case P s)))
           | StringColumn \<Rightarrow> Some (Text (to_display_string P x))))"

definition build_row_column_prefixes :: "page_lib \<Rightarrow> TablePrinterColumnPrefix list \<Rightarrow> Value \<Rightarrow> Shown list" where
  "build_row_column_prefixes P ps v =
     List.map_filter (\<lambda>p. build_row_column_value P (prefix_name p) (prefix_kind p) (prefix_json_path p) v) ps"

definition build_row_column_tag_value :: "page_lib \<Rightarrow> Value \<Rightarrow> string option" where
  "build_row_column_tag_value P t =
     (case t of VNull \<Rightarrow> None | VString s \<Rightarrow> Some s | _ \<Rightarrow> Some (to_display_string P t))"

definition build_row_column_tag_key_value :: "page_lib \<Rightarrow> string \<Rightarrow> Value \<Rightarrow> string option" where
  "build_row_column_tag_key_value P k t =
     (case t of VNull \<Rightarrow> None | VString s \<Rightarrow> Some (k @ '': '' @ s) | _ \<Rightarrow> Some (k @ '': '' @ json_text P t))"

definition build_row_column_tags :: "page_lib \<Rightarrow> TablePrinterColumnTags \<Rightarrow> Value \<Rightarrow> string list" where
  "build_row_column_tags P c v =
     (case json_pointer P v (tags_json_path c) of
        Some (VArray ts) \<Rightarrow> List.map_filter (build_row_column_tag_value P) ts
      | Some (VObject es) \<Rightarrow> List.map_filter (\<lambda>(k, t). build_row_column_tag_key_value P k t) es
      | Some (VString t) \<Rightarrow> [t]
      | Some t \<Rightarrow> [json_text P t]
      | None \<Rightarrow> [])"

record Cell =
  cell_body :: Shown
  cell_secondary :: "string option"
  cell_tags :: "string list option"
  cell_prefixes :: "Shown list option"

definition build_row_column :: "page_lib \<Rightarrow> TablePrinterColumn \<Rightarrow> Value \<Rightarrow> Cell" where
  "build_row_column P c v =
     \<lparr>cell_body = unwrap_or Blank (build_row_column_value P (Some (column_name c)) (column_kind c) (column_json_path c) v),
      cell_secondary = map_option (\<lambda>x. unwrap_or [] (Option.bind (json_pointer P v (secondary_json_path x)) value_str))
        (column_secondary c),
      cell_tags = map_option (\<lambda>x. build_row_column_tags P x v) (column_tags c),
      cell_prefixes = map_option (\<lambda>x. build_row_column_prefixes P x v) (column_prefixes c)\<rparr>"

text \<open>What a row offers: a page to go to with an item, a question whether to delete, or a link.\<close>

datatype RowService = UpdateButton PageRef string Item | DeleteButton string | LinkButton string string bool

definition has_update :: "TableSpec \<Rightarrow> bool" where
  "has_update t \<longleftrightarrow> service_on (svc_update (table_services t)) \<and> template_fields (table_schema t) \<noteq> []"

definition build_row_column_extra_service :: "page_lib \<Rightarrow> TableExtraService \<Rightarrow> Value \<Rightarrow> RowService option" where
  "build_row_column_extra_service P s v =
     (if \<not> extra_visible s \<or> \<not> extra_single s then None
      else Option.bind (extra_json_path s) (\<lambda>path. Option.bind (json_pointer P v path) (\<lambda>x.
        map_option (\<lambda>href. LinkButton (extra_name s) href (extra_side_effect s)) (value_str x))))"

definition build_row_column_services :: "page_lib \<Rightarrow> PageRef \<Rightarrow> TableSpec \<Rightarrow> Value \<Rightarrow> RowService list" where
  "build_row_column_services P r t v =
     (if has_update t
      then (case Option.bind (value_field v ''uid'') value_str of
          Some uid \<Rightarrow>
            (case v of
               VObject es \<Rightarrow> [UpdateButton r uid
                 \<lparr>item_metadata = \<lparr>item_base_url = table_base_url t, item_template = table_schema t\<rparr>, item_values = Some es\<rparr>]
             | _ \<Rightarrow> [])
        | None \<Rightarrow> [])
      else [])
     @ (if service_on (svc_delete (table_services t))
        then (case Option.bind (value_field v ''name'') value_str of Some n \<Rightarrow> [DeleteButton n] | None \<Rightarrow> [])
        else [])
     @ List.map_filter (\<lambda>s. build_row_column_extra_service P s v) (unwrap_or [] (table_extra_services t))"

text \<open>The cells of the head, and of a row: the box in front, the columns, and the services.\<close>

definition build_header_printer_columns :: "TableSpec \<Rightarrow> string list" where
  "build_header_printer_columns t =
     (case table_printer_columns t of
        None \<Rightarrow> []
      | Some cs \<Rightarrow> map column_name cs
          @ (if has_update t \<or> service_on (svc_delete (table_services t)) \<or> unwrap_or [] (table_extra_services t) \<noteq> []
             then [''Services''] else []))"

definition build_header :: "TableSpec \<Rightarrow> string list" where
  "build_header t = [[]] @ build_header_printer_columns t @ [[]]"

record Row =
  row_checked :: bool
  row_cells :: "Cell list"
  row_services :: "RowService list"

definition build_row :: "page_lib \<Rightarrow> PageRef \<Rightarrow> TableSpec \<Rightarrow> Selections \<Rightarrow> nat \<Rightarrow> Value \<Rightarrow> Row" where
  "build_row P r t S i v =
     \<lparr>row_checked = sel_get S i, row_cells = map (\<lambda>c. build_row_column P c v) (unwrap_or [] (table_printer_columns t)),
      row_services = build_row_column_services P r t v\<rparr>"

definition row_width :: "Row \<Rightarrow> nat" where
  "row_width x = 1 + length (row_cells x) + 1"

definition build_body :: "page_lib \<Rightarrow> PageRef \<Rightarrow> TableSpec \<Rightarrow> Selections \<Rightarrow> Value \<Rightarrow> Row list" where
  "build_body P r t S rows =
     (case rows of VArray vs \<Rightarrow> map (\<lambda>(i, v). build_row P r t S i v) (enumerate 0 vs) | _ \<Rightarrow> [])"

section \<open>Tabs\<close>

definition build_extra_service_tab :: "nat option \<Rightarrow> TableExtraService \<Rightarrow> nat \<Rightarrow> (string \<times> nat \<times> bool) option" where
  "build_extra_service_tab tab s i =
     (if \<not> extra_visible s \<or> \<not> extra_multiple s then None
      else (case extra_kind s of VNC \<Rightarrow> Some (extra_name s, i, tab = Some i) | Navigate \<Rightarrow> None))"

definition build_extra_service_tabs :: "nat option \<Rightarrow> TableSpec \<Rightarrow> (string \<times> nat \<times> bool) list" where
  "build_extra_service_tabs tab t =
     List.map_filter (\<lambda>(i, s). build_extra_service_tab tab s i) (enumerate 0 (unwrap_or [] (table_extra_services t)))"

text \<open>A desktop: the address of its frame and what it is called.\<close>

definition vnc_src :: "page_lib \<Rightarrow> string \<Rightarrow> string \<Rightarrow> string option" where
  "vnc_src P base url =
     (case url_host_port P url of
        Some (Some host, port) \<Rightarrow>
          Some (base @ ''/vnc/vnc.html?autoconnect=true&host='' @ host @ ''&port='' @ nat_str (unwrap_or 443 port)
            @ ''&reconnect=true&resize=scale&shared=true&quality=5&view_only=true'')
      | Some (None, _) \<Rightarrow> None
      | None \<Rightarrow> Some (url @ ''&quality=5&view_only=true''))"

definition vnc_item :: "page_lib \<Rightarrow> string \<Rightarrow> TableExtraService \<Rightarrow> Value \<Rightarrow> (string \<times> string) option" where
  "vnc_item P base s v =
     Option.bind (extra_json_path s) (\<lambda>path. Option.bind (json_pointer P v path) (\<lambda>x. Option.bind (value_str x) (\<lambda>url.
       map_option (\<lambda>src. (unwrap_or src (Option.bind (Option.bind (extra_alias s) (json_pointer P v)) value_str), src))
         (vnc_src P base url))))"

definition get_str :: "page_lib \<Rightarrow> Value \<Rightarrow> string \<Rightarrow> string option" where
  "get_str P v path = Option.bind (json_pointer P v path) value_str"

text \<open>\<^verbatim>\<open>label\<close> is the label of an alias, with its slash escaped.\<close>

definition vnc_key :: "page_lib \<Rightarrow> string \<Rightarrow> Value \<Rightarrow> string option \<times> string option" where
  "vnc_key P label v = (get_str P v (''/metadata/labels/'' @ label), get_str P v ''/metadata/name'')"

definition vnc_items :: "page_lib \<Rightarrow> string \<Rightarrow> string \<Rightarrow> TableExtraService \<Rightarrow> Value \<Rightarrow> (string \<times> string) list option" where
  "vnc_items P label base s rows =
     (case (extra_json_path s, rows) of
        (Some path, VArray vs) \<Rightarrow>
          Some (List.map_filter (vnc_item P base s)
            (sort_key (vnc_key P label) (filter (\<lambda>v. json_pointer P v path \<noteq> None) vs)))
      | _ \<Rightarrow> None)"

definition escape_slash :: "string \<Rightarrow> string" where
  "escape_slash s = concat (map (\<lambda>c. if c = CHR ''/'' then ''~1'' else [c]) s)"

definition build_extra_service_tab_content ::
  "page_lib \<Rightarrow> string \<Rightarrow> nat option \<Rightarrow> TableSpec \<Rightarrow> Value \<Rightarrow> (string \<times> string) list option" where
  "build_extra_service_tab_content P alias tab t rows =
     (case (table_extra_services t, tab) of
        (Some ss, Some i) \<Rightarrow>
          if i < length ss
          then (case extra_kind (ss ! i) of
              VNC \<Rightarrow> vnc_items P (escape_slash alias) (table_base_url t) (ss ! i) rows
            | Navigate \<Rightarrow> None)
          else None
      | _ \<Rightarrow> None)"

text \<open>The widget: the list of rows or the tab; a tab without content is left.\<close>

datatype Content = RowList "string list" "Row list" | Desktops "(string \<times> string) list" | NoContent

record TableView =
  view_content :: Content
  view_tabs :: "(string \<times> nat \<times> bool) list"
  view_create :: "Item option"

definition build_create_button :: "TableSpec \<Rightarrow> Item" where
  "build_create_button t =
     \<lparr>item_metadata = \<lparr>item_base_url = table_base_url t, item_template = table_schema t\<rparr>, item_values = None\<rparr>"

definition build_table ::
  "page_lib \<Rightarrow> string \<Rightarrow> PageRef \<Rightarrow> TableSpec \<Rightarrow> Selections \<Rightarrow> nat option \<Rightarrow> Value \<Rightarrow> TableView \<times> nat option" where
  "build_table P alias r t S tab rows =
     (let button = (if tab = None \<and> service_on (svc_create (table_services t)) \<and> template_fields (table_schema t) \<noteq> []
          then Some (build_create_button t) else None);
          tabs = build_extra_service_tabs tab t in
      if tab = None
      then (\<lparr>view_content = RowList (build_header t) (build_body P r t S rows), view_tabs = tabs, view_create = button\<rparr>, tab)
      else
        (case build_extra_service_tab_content P alias tab t rows of
           Some items \<Rightarrow> (\<lparr>view_content = Desktops items, view_tabs = tabs, view_create = button\<rparr>, tab)
         | None \<Rightarrow> (\<lparr>view_content = NoContent, view_tabs = tabs, view_create = button\<rparr>, None)))"

section \<open>The command line\<close>

text \<open>The matches of the pattern: a text in single quotes, one in double quotes, or a run without blanks.  Characters are
  those of ASCII; the blanks of the pattern also include the white space of Unicode.\<close>

function command_tokens :: "string \<Rightarrow> string list" where
  "command_tokens [] = []"
| "command_tokens (c # cs) =
     (if (c = CHR 39 \<or> c = CHR 34) \<and> c \<in> set cs
      then (c # takeWhile (\<lambda>x. x \<noteq> c) cs @ [c]) # command_tokens (tl (dropWhile (\<lambda>x. x \<noteq> c) cs))
      else if is_space c then command_tokens cs
      else (c # takeWhile (\<lambda>x. \<not> is_space x) cs) # command_tokens (dropWhile (\<lambda>x. \<not> is_space x) cs))"
  by pat_completeness auto
termination
proof (relation "measure length")
  have tl_le: "length (tl (dropWhile Q cs)) < Suc (length cs)" for Q and cs :: string
    using length_dropWhile_le [of Q cs] by simp
  show "(tl (dropWhile (\<lambda>x. x \<noteq> c) cs), c # cs) \<in> measure length" for c and cs :: string
    using tl_le by simp
  show "(dropWhile (\<lambda>x. \<not> is_space x) cs, c # cs) \<in> measure length" for c and cs :: string
    using length_dropWhile_le [of _ cs] by (simp add: le_imp_less_Suc)
qed simp_all

definition split_command :: "string \<Rightarrow> string list" where
  "split_command line = filter (\<lambda>s. s \<noteq> []) (map trim (command_tokens line))"

text \<open>\<^verbatim>\<open>None\<close>: nothing is executed.\<close>

definition submit_command :: "string \<Rightarrow> ExecArgs option" where
  "submit_command line =
     (if trim line = [] then None
      else (case split_command (trim line) of
          [] \<Rightarrow> None
        | ws \<Rightarrow> Some \<lparr>exec_command = ws, exec_label_selector = None, exec_namespace = None, exec_terminal = True, exec_wait = True\<rparr>))"

section \<open>Cards of the catalog\<close>

definition outdated :: int where
  "outdated = hours (24 * 30)"

definition item_badge :: "timestamp \<Rightarrow> CatalogItem \<Rightarrow> string option" where
  "item_badge now x =
     (if (case item_created_at x of None \<Rightarrow> True | Some t \<Rightarrow> now < t + outdated) then Some ''NEW''
      else if (case item_updated_at x of None \<Rightarrow> True | Some t \<Rightarrow> now < t + outdated) then Some ''Updated''
      else None)"

record Card =
  card_title :: string
  card_badge :: "string option"
  card_text :: "string option"
  card_link :: "string option"
  card_figure :: "(string \<times> string) option"

definition build_catalog_item :: "page_lib \<Rightarrow> timestamp \<Rightarrow> CatalogItem \<Rightarrow> Card" where
  "build_catalog_item P now x =
     \<lparr>card_title = unwrap_or (title_case P (item_name x)) (item_title x), card_badge = item_badge now x,
      card_text = item_description x,
      card_link = (case item_type (item_spec x) of Link \<Rightarrow> item_url (item_spec x)),
      card_figure = map_option (\<lambda>u. (u, item_name x)) (item_thumbnail_url (item_spec x))\<rparr>"

definition build_catalog_category :: "page_lib \<Rightarrow> timestamp \<Rightarrow> CatalogCategory \<Rightarrow> string \<times> string option \<times> Card list" where
  "build_catalog_category P now c =
     (unwrap_or (title_case P (category_name c)) (category_title c), category_description c,
      map (build_catalog_item P now) (category_children c))"

definition build_catalog :: "page_lib \<Rightarrow> timestamp \<Rightarrow> CatalogCategory list \<Rightarrow> (string \<times> string option \<times> Card list) list" where
  "build_catalog P now cs = map (build_catalog_category P now) cs"

section \<open>Forms that may be sent\<close>

definition field_ok :: "page_lib \<Rightarrow> ItemField \<Rightarrow> Value \<Rightarrow> bool" where
  "field_ok P f v \<longleftrightarrow> (field_optional f \<or> \<not> is_empty_value v) \<and>
     (case field_kind f of
        IntegerField \<Rightarrow>
          (\<exists>n. to_form_i64 v = Some n \<and> (\<forall>hi. to_form_i64 (field_max_value f) = Some hi \<longrightarrow> n \<le> hi)
            \<and> (\<forall>lo. to_form_i64 (field_min_value f) = Some lo \<longrightarrow> lo \<le> n))
      | StringField \<Rightarrow>
          (\<exists>s. to_form_string P v = Some s \<and> (\<forall>m. field_max_length f = Some m \<longrightarrow> length s \<le> m)
            \<and> field_min_length f \<le> length s))"

lemma validate_field_ok: "validate_field P f vs = Inr () \<longleftrightarrow> field_ok P f (field_value f vs)"
  by (cases "field_kind f")
    (auto simp: validate_field_def field_ok_def Let_def split: if_splits option.splits)

lemma validate_error_nonempty: "validate_field P f vs = Inl e \<Longrightarrow> e \<noteq> []"
  by (cases "field_kind f") (auto simp: validate_field_def Let_def split: if_splits option.splits)

lemma join_empty: "\<forall>x\<in>set xs. x \<noteq> [] \<Longrightarrow> join sep xs = [] \<longleftrightarrow> xs = []"
  by (cases "(sep, xs)" rule: join.cases) auto

lemma form_is_valid_iff:
  "form_is_valid P m vs = None \<longleftrightarrow> (\<forall>f\<in>set (template_fields (item_template m)). field_ok P f (field_value f vs))"
proof -
  have "\<forall>x\<in>set (form_errors P m vs). x \<noteq> []"
    using validate_error_nonempty
    by (auto simp: form_errors_def List.map_filter_def split: sum.splits)
  then have "form_is_valid P m vs = None \<longleftrightarrow> form_errors P m vs = []"
    by (simp add: form_is_valid_def Let_def join_empty)
  also have "\<dots> \<longleftrightarrow> (\<forall>f\<in>set (template_fields (item_template m)). validate_field P f vs = Inr ())"
  proof -
    have "(case r of Inl e \<Rightarrow> Some e | Inr _ \<Rightarrow> None) = None \<longleftrightarrow> r = Inr ()" for r :: "string + unit"
      by (cases r) simp_all
    then show ?thesis
      by (simp add: form_errors_def List.map_filter_def filter_empty_conv)
  qed
  finally show ?thesis
    by (simp add: validate_field_ok)
qed

lemma field_value_update:
  "field_value f (json_reduce (UpdateValue n v) vs) = (if n = field_name f then v else field_value f vs)"
  by (simp add: field_value_def json_reduce_def update_conv)

text \<open>A field that is optional must be filled in all the same: without a value and without a default, neither a number
  nor a text is accepted, so that the form is refused, and it stays refused until the field gets a value.\<close>

theorem optional_fields_are_required:
  assumes "f \<in> set (template_fields (item_template m))" and "map_of vs (field_name f) = None"
    and "field_default f = VNull"
  shows "form_is_valid P m vs \<noteq> None
    \<and> form_is_valid P m (fold (\<lambda>(g, s). change_field g s) [e \<leftarrow> es. field_name (fst e) \<noteq> field_name f] vs) \<noteq> None"
proof -
  have refused: "form_is_valid P m us \<noteq> None" if "map_of us (field_name f) = None" for us
    using assms(1,3) that
    by (auto simp: form_is_valid_iff field_value_def field_ok_def to_form_i64_def to_form_string_def
      split: ItemFieldKind.splits intro!: bexI [of _ f])
  have "map_of (fold (\<lambda>(g, s). change_field g s) [e \<leftarrow> es. field_name (fst e) \<noteq> field_name f] vs) (field_name f) = None"
    using assms(2)
    by (induction es arbitrary: vs) (auto simp: change_field_def json_reduce_def update_conv)
  then show ?thesis
    using refused assms(2) by blast
qed

text \<open>Defaults whose text means the same as their value.\<close>

definition plain_default :: "page_lib \<Rightarrow> ItemField \<Rightarrow> bool" where
  "plain_default P f \<longleftrightarrow>
     (case field_default f of
        VNull \<Rightarrow> True
      | VString _ \<Rightarrow> True
      | VNumber s \<Rightarrow> s \<noteq> [] \<and> json_text P (VNumber s) = s
      | VBool b \<Rightarrow> field_kind f = StringField \<and> json_text P (VBool b) \<noteq> []
      | _ \<Rightarrow> False)"

lemma plain_default_text:
  "plain_default P f \<Longrightarrow> to_form_string P (field_default f) = Some s \<Longrightarrow>
     field_ok P f (VString s) \<longleftrightarrow> field_ok P f (field_default f)"
  by (cases "field_kind f"; cases "field_default f")
    (auto simp: plain_default_def field_ok_def is_empty_value_def to_form_string_def to_form_i64_def)

lemma fill_default_other: "field_name g \<noteq> field_name f \<Longrightarrow> field_value f (fill_default P g vs) = field_value f vs"
  by (auto simp: fill_default_def field_value_update split: option.split)

lemma fill_default_ok:
  "plain_default P f \<Longrightarrow> field_ok P f (field_value f (fill_default P f vs)) \<longleftrightarrow> field_ok P f (field_value f vs)"
proof (cases "to_form_string P (field_default f)")
  case (Some s)
  assume "plain_default P f"
  with Some show ?thesis
    using plain_default_text [of P f s]
    by (auto simp: fill_default_def field_value_update) (auto simp: field_value_def)
qed (simp add: fill_default_def)

lemma fill_default_agrees:
  assumes "field_name f = field_name g \<longrightarrow> f = g" and "plain_default P f"
  shows "field_ok P f (field_value f (fill_default P g vs)) \<longleftrightarrow> field_ok P f (field_value f vs)"
  using assms fill_default_ok fill_default_other by metis

lemma draw_fields_ok:
  assumes "\<forall>g\<in>set fs. field_name f = field_name g \<longrightarrow> f = g" and "plain_default P f"
  shows "field_ok P f (field_value f (snd (draw_fields P on fs vs))) \<longleftrightarrow> field_ok P f (field_value f vs)"
  using assms(1)
proof (induction fs arbitrary: vs)
  case (Cons g gs)
  then have "field_ok P f (field_value f (snd (draw_fields P on gs (fill_default P g vs))))
      \<longleftrightarrow> field_ok P f (field_value f (fill_default P g vs))"
    by simp
  also have "\<dots> \<longleftrightarrow> field_ok P f (field_value f vs)"
    using fill_default_agrees Cons.prems assms(2) by simp
  finally show ?case
    by (simp add: case_prod_beta)
qed simp

text \<open>Drawing a form does not change whether it may be sent: it writes the defaults, as texts, among the values, and every
  field is accepted afterwards exactly if it was accepted before, provided that the names of the fields differ and
  that no default is a list, an object, or a truth value for a number.\<close>

theorem drawing_keeps_validity:
  assumes "distinct (map field_name (template_fields (item_template m)))"
    and "\<forall>f\<in>set (template_fields (item_template m)). plain_default P f"
  shows "form_is_valid P m (snd (draw_fields P on (template_fields (item_template m)) vs)) = None
    \<longleftrightarrow> form_is_valid P m vs = None"
proof -
  let ?fs = "template_fields (item_template m)"
  have "field_name f = field_name g \<longrightarrow> f = g" if "f \<in> set ?fs" "g \<in> set ?fs" for f g
    using assms(1) that by (auto simp: distinct_map inj_on_def)
  then show ?thesis
    using assms(2) draw_fields_ok [of ?fs _ P on vs] by (simp add: form_is_valid_iff)
qed

text \<open>A number that is typed reads back; it is kept, and sent, as a text.\<close>

lemma typed_numbers_read_back:
  assumes "- (2 ^ 63) \<le> n" and "n < 2 ^ 63"
  shows "to_form_i64 (field_value f (change_field f (int_str n) vs)) = Some n"
    and "field_value f (change_field f (int_str n) vs) = VString (int_str n)"
  using i64_parse_int_str [OF assms] by (simp_all add: change_field_def field_value_update to_form_i64_def)

section \<open>Selecting rows\<close>

lemma resize_nth: "j < n \<Longrightarrow> resize n d xs ! j = (if j < length xs then xs ! j else d)"
  by (simp add: resize_def nth_append)

lemma length_resize [simp]: "length (resize n d xs) = n"
  by (simp add: resize_def)

lemma toggle_panics: "sel_reduce (Toggle i b) S = None \<longleftrightarrow> length (sel_items S) < i"
  by (auto simp: sel_reduce_def Let_def)

lemma toggle_selects:
  assumes "i \<le> length (sel_items S)"
  shows "\<exists>S'. sel_reduce (Toggle i b) S = Some S'
    \<and> sel_get S' = (\<lambda>j. if j = i then b else if j < i then sel_get S j else sel_default S)"
  using assms
  by (auto simp: sel_reduce_def sel_get_def sel_default_def fun_eq_iff resize_nth nth_list_update)

text \<open>C38.
  Selecting a row does what it should, change that row and nothing else, exactly if every row after it has the
  default and the list of selections already reaches the row: a row further down ends the page with an index
  out of range, and a row in the middle of the list drops the selections of the rows after it.\<close>

theorem toggle_is_right_iff:
  "(\<exists>S'. sel_reduce (Toggle i b) S = Some S' \<and> sel_get S' = (sel_get S)(i := b))
   \<longleftrightarrow> i \<le> length (sel_items S) \<and> (\<forall>j>i. sel_get S j = sel_default S)"
proof (cases "i \<le> length (sel_items S)")
  case True
  from toggle_selects [OF this] obtain S' where S': "sel_reduce (Toggle i b) S = Some S'"
    and get: "sel_get S' = (\<lambda>j. if j = i then b else if j < i then sel_get S j else sel_default S)"
    by blast
  have "sel_get S' = (sel_get S)(i := b) \<longleftrightarrow> (\<forall>j>i. sel_get S j = sel_default S)"
  proof
    assume right: "sel_get S' = (sel_get S)(i := b)"
    have "sel_get S j = sel_default S" if "i < j" for j
      using that fun_cong [OF right, of j] by (simp add: get)
    then show "\<forall>j>i. sel_get S j = sel_default S"
      by simp
  next
    assume "\<forall>j>i. sel_get S j = sel_default S"
    then have "(if j < i then sel_get S j else sel_default S) = sel_get S j" if "j \<noteq> i" for j
      using that by simp
    then show "sel_get S' = (sel_get S)(i := b)"
      by (auto simp: get)
  qed
  with S' True show ?thesis
    by simp
next
  case False
  with toggle_panics [of i b S] show ?thesis
    by simp
qed

text \<open>The first row that is selected must be the top one.\<close>

lemma first_selection_panics:
  assumes "0 < i"
  shows "sel_reduce (row_change (release_selections t S) i) (the (sel_reduce (Reset t) S)) = None"
  using assms by (simp add: row_change_def toggle_panics) (simp add: sel_reduce_def)

lemma all_rows_follow_the_head:
  "\<exists>S'. sel_reduce (header_change S) S = Some S' \<and> sel_get S' = (\<lambda>_. \<not> sel_default S)"
  by (simp add: sel_reduce_def header_change_def sel_get_def sel_default_def fun_eq_iff unwrap_or_def)

section \<open>Splitting a command line\<close>

text \<open>Words without blanks that do not begin with a quote.\<close>

definition plain_word :: "string \<Rightarrow> bool" where
  "plain_word w \<longleftrightarrow> w \<noteq> [] \<and> hd w \<noteq> CHR 39 \<and> hd w \<noteq> CHR 34 \<and> list_all (\<lambda>c. \<not> is_space c) w"

lemma space_is_space [simp]: "is_space (CHR '' '')"
  by (simp add: is_space_def)

lemma takeWhile_blank: "list_all (\<lambda>c. \<not> is_space c) w \<Longrightarrow> takeWhile (\<lambda>x. \<not> is_space x) (w @ CHR '' '' # r) = w"
  by (induction w) auto

lemma dropWhile_blank:
  "list_all (\<lambda>c. \<not> is_space c) w \<Longrightarrow> dropWhile (\<lambda>x. \<not> is_space x) (w @ CHR '' '' # r) = CHR '' '' # r"
  by (induction w) auto

lemma command_tokens_blank: "command_tokens (CHR '' '' # r) = command_tokens r"
  by simp

lemma command_tokens_word:
  assumes "plain_word w"
  shows "command_tokens (w @ CHR '' '' # r) = w # command_tokens r" and "command_tokens w = [w]"
proof -
  obtain c cs where w: "w = c # cs" and c: "c \<noteq> CHR 39" "c \<noteq> CHR 34" "\<not> is_space c" and cs: "list_all (\<lambda>c. \<not> is_space c) cs"
    using assms by (cases w) (auto simp: plain_word_def)
  show "command_tokens (w @ CHR '' '' # r) = w # command_tokens r"
    using c cs command_tokens_blank [of r] by (simp add: w takeWhile_blank dropWhile_blank del: command_tokens.simps(2))
      (simp add: takeWhile_blank dropWhile_blank)
  have "takeWhile (\<lambda>x. \<not> is_space x) cs = cs" and rest: "dropWhile (\<lambda>x. \<not> is_space x) cs = []"
    using cs by (simp_all add: takeWhile_eq_all_conv list_all_iff)
  with c show "command_tokens w = [w]"
    by (simp add: w rest)
qed

lemma trim_plain: "plain_word w \<Longrightarrow> trim w = w"
proof -
  assume "plain_word w"
  then have all: "\<forall>c\<in>set w. \<not> is_space c" "\<forall>c\<in>set (rev w). \<not> is_space c"
    by (simp_all add: plain_word_def list_all_iff)
  have kept: "dropWhile is_space xs = xs" if "\<forall>c\<in>set xs. \<not> is_space c" for xs
    using that by (cases xs) simp_all
  show ?thesis
    by (simp add: trim_def kept [OF all(1)] kept [OF all(2)])
qed

lemma trim_join:
  assumes "\<forall>w\<in>set ws. plain_word w"
  shows "trim (join '' '' ws) = join '' '' ws"
proof (cases ws rule: rev_cases)
  case (snoc us w)
  have ends: "\<exists>c r. join '' '' ws = c # r \<and> \<not> is_space c" if ne: "ws \<noteq> []" and plain: "\<forall>w\<in>set ws. plain_word w" for ws
  proof -
    obtain v vs where ws: "ws = v # vs" using ne by (cases ws) auto
    then obtain c r where "v = c # r" "\<not> is_space c"
      using plain by (cases v) (auto simp: plain_word_def)
    then show ?thesis
      by (cases vs) (auto simp: ws)
  qed
  have last_word: "\<exists>p. join '' '' (us @ [w]) = p @ w" for us w
  proof (induction us)
    case (Cons v vs)
    then obtain p where "join '' '' (vs @ [w]) = p @ w" by blast
    then have "join '' '' ((v # vs) @ [w]) = (v @ '' '' @ p) @ w"
      by (cases "vs @ [w]") simp_all
    then show ?case by blast
  qed simp
  obtain p where p: "join '' '' ws = p @ w"
    using last_word snoc by blast
  have "w \<noteq> []" "\<not> is_space (last w)"
    using assms snoc by (auto simp: plain_word_def list_all_iff)
  then obtain c r where c: "rev (join '' '' ws) = c # r" "\<not> is_space c"
    using p by (cases "rev w") (auto simp: last_rev [symmetric] hd_rev)
  obtain d q where d: "join '' '' ws = d # q" "\<not> is_space d"
    using ends [of ws] assms snoc by auto
  have "dropWhile is_space (join '' '' ws) = join '' '' ws"
    using d by simp
  moreover have "dropWhile is_space (rev (join '' '' ws)) = rev (join '' '' ws)"
    using c by simp
  ultimately show ?thesis
    by (simp add: trim_def)
qed (simp add: trim_def)

lemma command_tokens_join: "\<forall>w\<in>set ws. plain_word w \<Longrightarrow> command_tokens (join '' '' ws) = ws"
  by (induction "'' ''" ws rule: join.induct) (simp_all add: command_tokens_word del: command_tokens.simps(2))

text \<open>C37.
  A command line reads back: plain words (not empty, without ASCII white space, and not beginning with a quote) that
  are joined with blanks are executed as these words, in a terminal, and the page waits for them.\<close>

theorem command_reads_back:
  assumes "ws \<noteq> []" and "\<forall>w\<in>set ws. plain_word w"
  shows "submit_command (join '' '' ws) = Some \<lparr>exec_command = ws, exec_label_selector = None, exec_namespace = None,
    exec_terminal = True, exec_wait = True\<rparr>"
proof -
  have "map trim ws = ws" "filter (\<lambda>s. s \<noteq> []) ws = ws"
    using assms(2) by (auto simp: trim_plain plain_word_def intro: map_idI)
  then have "split_command (join '' '' ws) = ws"
    using assms(2) by (simp add: split_command_def command_tokens_join)
  moreover have "join '' '' ws \<noteq> []"
    using assms by (subst join_empty) (auto simp: plain_word_def)
  ultimately show ?thesis
    using assms by (auto simp: submit_command_def trim_join split: list.split)
qed

text \<open>Quotes keep a text together, but they stay a part of the argument, and no shell takes them away.\<close>

lemma quotes_stay:
  "submit_command (''echo '' @ [CHR 34] @ ''a b'' @ [CHR 34])
    = Some \<lparr>exec_command = [''echo'', [CHR 34] @ ''a b'' @ [CHR 34]], exec_label_selector = None, exec_namespace = None,
        exec_terminal = True, exec_wait = True\<rparr>"
  by code_simp

section \<open>The head of a table, and cards\<close>

lemma header_columns:
  "length (build_header t) = row_width (build_row P r t S i v)
   \<longleftrightarrow> \<not> (table_printer_columns t \<noteq> None
      \<and> (has_update t \<or> service_on (svc_delete (table_services t)) \<or> unwrap_or [] (table_extra_services t) \<noteq> []))"
  by (auto simp: build_header_def build_header_printer_columns_def row_width_def build_row_def unwrap_or_def split: option.splits)

text \<open>The server never says when an item was changed, so that each item is new or updated.\<close>

lemma every_item_has_a_badge: "item_badge now (convert_item L c) \<noteq> None"
  by (simp add: item_badge_def convert_item_def)

section \<open>Examples\<close>

definition example_page_lib :: page_lib where
  "example_page_lib = \<lparr>json_text = (\<lambda>v. case v of VNumber s \<Rightarrow> s | VBool b \<Rightarrow> bool_str b | _ \<Rightarrow> ''...''),
     json_pointer = (\<lambda>v p. if p = [] then Some v else value_field v (tl p)),
     pascal_case = (\<lambda>s. s), title_case = (\<lambda>s. s), url_host_port = (\<lambda>_. None)\<rparr>"

definition example_field :: "string \<Rightarrow> ItemFieldKind \<Rightarrow> Value \<Rightarrow> ItemField" where
  "example_field n k d = \<lparr>field_name = n, field_kind = k, field_optional = True, field_title = None, field_description = None,
     field_default = d, field_placeholder = None, field_max_length = Some 8, field_min_length = 0,
     field_max_value = VNumber ''9'', field_min_value = VNull\<rparr>"

definition example_form :: "Value \<Rightarrow> ItemMetadata" where
  "example_form d = \<lparr>item_base_url = ''https://vine.example/items'',
     item_template = \<lparr>template_fields = [example_field ''note'' StringField d, example_field ''count'' IntegerField (VNumber ''3'')]\<rparr>\<rparr>"

theorem optional_fields_are_required_witness:
  "form_is_valid example_page_lib (example_form VNull) [(''count'', VNumber ''4'')] \<noteq> None
   \<and> form_is_valid example_page_lib (example_form VNull) (fold (\<lambda>(g, s). change_field g s)
      [e \<leftarrow> [(example_field ''count'' IntegerField VNull, ''5'')]. field_name (fst e) \<noteq> ''note''] [(''count'', VNumber ''4'')]) \<noteq> None"
  using optional_fields_are_required [of "example_field ''note'' StringField VNull" "example_form VNull" "[(''count'', VNumber ''4'')]"
      example_page_lib "[(example_field ''count'' IntegerField VNull, ''5'')]"]
  by (simp add: example_form_def example_field_def)

theorem drawing_keeps_validity_witness:
  "form_is_valid example_page_lib (example_form (VString ''x'')) (snd (draw_fields example_page_lib True
      (template_fields (item_template (example_form (VString ''x'')))) [])) = None
   \<longleftrightarrow> form_is_valid example_page_lib (example_form (VString ''x'')) [] = None"
  by (rule drawing_keeps_validity)
    (simp_all add: example_form_def example_field_def plain_default_def example_page_lib_def)

lemma example_form_is_valid: "form_is_valid example_page_lib (example_form (VString ''x'')) [] = None"
  by code_simp

theorem toggle_is_right_iff_witness:
  "\<exists>S'. sel_reduce (Toggle 1 True) \<lparr>sel_all = None, sel_items = [True], sel_timestamp = None\<rparr> = Some S'
    \<and> sel_get S' = (sel_get \<lparr>sel_all = None, sel_items = [True], sel_timestamp = None\<rparr>)(1 := True)"
  by (rule toggle_is_right_iff [THEN iffD2]) (simp add: sel_get_def sel_default_def)

theorem command_reads_back_witness:
  "submit_command (join '' '' [''ls'', ''-l'']) = Some \<lparr>exec_command = [''ls'', ''-l''], exec_label_selector = None,
     exec_namespace = None, exec_terminal = True, exec_wait = True\<rparr>"
  by (rule command_reads_back) (simp_all add: plain_word_def is_space_def)

end
