(* ===== verification/Vine_Front_Store.thy ===== *)
theory Vine_Front_Store
  imports Vine_Front_Form
begin

text \<open>
  The stores of the dashboard in the web page
  (\<^verbatim>\<open>crates/openark-vine-dashboard-frontend/src\<close>: \<^verbatim>\<open>stores/client.rs\<close>,
  \<^verbatim>\<open>stores/app.rs\<close>, \<^verbatim>\<open>widgets/dialog.rs\<close>, \<^verbatim>\<open>router.rs\<close>,
  \<^verbatim>\<open>layouts/scaffold.rs\<close>, the pages, and the requests of
  \<^verbatim>\<open>crates/openark-vine-dashboard-api/src/client.rs\<close> and
  \<^verbatim>\<open>crates/openark-vine-session-api/src/client.rs\<close>): what is fetched, when, and what is shown
  meanwhile.  The page is a state that is changed by drawings, answers and clicks.  The hooks of a drawing see the
  store as it is at the time; the callbacks of its buttons hold the store of that drawing until the next one.  The
  browser's own part is left out: the cross of the dialog stands in a form of method
  \<^verbatim>\<open>dialog\<close>, whose button lets the browser close the element even when its callback is off (its class then
  only turns the pointer off); what is modelled is the state of the dialog and its callbacks.
\<close>

section \<open>Requests\<close>

datatype page_method = MethodGet | MethodPost | MethodPut | MethodPatch | MethodDelete

datatype page_payload = NoPayload | JsonValues json_values | JsonExec ExecArgs

record page_request =
  page_req_method :: page_method
  page_req_url :: string
  page_req_payload :: page_payload

text \<open>What a component asks for; the time is that of the drawing.\<close>

datatype api_request =
  GetApp timestamp
| GetPage timestamp PageRef
| GetRows timestamp PageRef string
| UpdateItem string "string option" json_values
| DeleteRow string string
| SessionExec string ExecArgs
| SessionCommands string

text \<open>\<^verbatim>\<open>base\<close> is the address of the server, and \<^verbatim>\<open>url_join\<close> resolves an address behind another.\<close>

definition get_user_request :: "(string \<Rightarrow> string \<Rightarrow> string + string) \<Rightarrow> string \<Rightarrow> string + page_request" where
  "get_user_request url_join base =
     (case url_join base ''users/me'' of Inl e \<Rightarrow> Inl e
      | Inr url \<Rightarrow> Inr \<lparr>page_req_method = MethodGet, page_req_url = url, page_req_payload = NoPayload\<rparr>)"

definition update_item_request ::
  "(string \<Rightarrow> string \<Rightarrow> string + string) \<Rightarrow> string \<Rightarrow> string option \<Rightarrow> json_values \<Rightarrow> string + page_request" where
  "update_item_request url_join url item v =
     (case item of
        Some name \<Rightarrow>
          (case url_join url name of Inl e \<Rightarrow> Inl e
           | Inr u \<Rightarrow> Inr \<lparr>page_req_method = MethodPatch, page_req_url = u, page_req_payload = JsonValues v\<rparr>)
      | None \<Rightarrow> Inr \<lparr>page_req_method = MethodPut, page_req_url = url, page_req_payload = JsonValues v\<rparr>)"

definition delete_row_request :: "(string \<Rightarrow> string \<Rightarrow> string + string) \<Rightarrow> string \<Rightarrow> string \<Rightarrow> string + page_request" where
  "delete_row_request url_join url item =
     (case url_join url item of Inl e \<Rightarrow> Inl e
      | Inr u \<Rightarrow> Inr \<lparr>page_req_method = MethodDelete, page_req_url = u, page_req_payload = NoPayload\<rparr>)"

definition session_exec_request :: "(string \<Rightarrow> string \<Rightarrow> string + string) \<Rightarrow> string \<Rightarrow> ExecArgs \<Rightarrow> string + page_request" where
  "session_exec_request url_join url a =
     (case url_join url ''exec'' of Inl e \<Rightarrow> Inl e
      | Inr u \<Rightarrow> Inr \<lparr>page_req_method = MethodPost, page_req_url = u, page_req_payload = JsonExec a\<rparr>)"

definition session_commands_request :: "(string \<Rightarrow> string \<Rightarrow> string + string) \<Rightarrow> string \<Rightarrow> string + page_request" where
  "session_commands_request url_join url =
     (case url_join url ''commands'' of Inl e \<Rightarrow> Inl e
      | Inr u \<Rightarrow> Inr \<lparr>page_req_method = MethodGet, page_req_url = u, page_req_payload = NoPayload\<rparr>)"

definition get_page_request :: "(string \<Rightarrow> string \<Rightarrow> string + string) \<Rightarrow> string \<Rightarrow> PageRef \<Rightarrow> string + page_request" where
  "get_page_request url_join base p =
     (case url_join base (page_ref_str p) of Inl e \<Rightarrow> Inl e
      | Inr u \<Rightarrow> Inr \<lparr>page_req_method = MethodGet, page_req_url = u, page_req_payload = NoPayload\<rparr>)"

definition request_of :: "(string \<Rightarrow> string \<Rightarrow> string + string) \<Rightarrow> string \<Rightarrow> api_request \<Rightarrow> string + page_request" where
  "request_of url_join base q =
     (case q of
        GetApp _ \<Rightarrow> Inr \<lparr>page_req_method = MethodGet, page_req_url = base, page_req_payload = NoPayload\<rparr>
      | GetPage _ p \<Rightarrow> get_page_request url_join base p
      | GetRows _ _ url \<Rightarrow> Inr \<lparr>page_req_method = MethodGet, page_req_url = url, page_req_payload = NoPayload\<rparr>
      | UpdateItem url item v \<Rightarrow> update_item_request url_join url item v
      | DeleteRow url item \<Rightarrow> delete_row_request url_join url item
      | SessionExec url a \<Rightarrow> session_exec_request url_join url a
      | SessionCommands url \<Rightarrow> session_commands_request url_join url)"

section \<open>The store of the client\<close>

datatype alert_level = LevelTrace | LevelDebug | LevelInfo | LevelWarn | LevelError

record Alert =
  alert_back :: bool
  alert_level_of :: alert_level
  alert_message :: string

text \<open>Alerts are counted references: they are compared by address.\<close>

record ClientStore =
  alerts :: "(nat \<times> Alert) list"
  is_fetching :: bool
  next_alert :: nat

definition client_default :: ClientStore where
  "client_default = \<lparr>alerts = [], is_fetching = False, next_alert = 0\<rparr>"

definition dismiss_alert :: "nat \<Rightarrow> nat \<times> Alert \<Rightarrow> ClientStore \<Rightarrow> ClientStore" where
  "dismiss_alert i a C =
     (if i < length (alerts C) \<and> fst (alerts C ! i) = fst a
      then C\<lparr>alerts := take i (alerts C) @ drop (i + 1) (alerts C)\<rparr>
      else C)"

definition register_alert :: "Alert \<Rightarrow> ClientStore \<Rightarrow> ClientStore" where
  "register_alert a C = C\<lparr>alerts := alerts C @ [(next_alert C, a)], next_alert := next_alert C + 1\<rparr>"

text \<open>The method of the same name of the handle of the page: whether the page goes back; nothing is shown.\<close>

definition raise_alert :: "Alert \<Rightarrow> bool" where
  "raise_alert a = alert_back a"

datatype 'a AppResponse = RespFetching | RespOk 'a | RespNotFound

text \<open>What a component goes on with; otherwise it draws nothing.\<close>

definition unwrap_response :: "'a AppResponse \<Rightarrow> 'a option" where
  "unwrap_response r = (case r of RespOk a \<Rightarrow> Some a | _ \<Rightarrow> None)"

section \<open>The store of the application\<close>

record 'a AppCached =
  created_at :: timestamp
  app_data :: "'a option"

text \<open>The end of time, in nanoseconds: 9999-12-30T22:00:00.999999999Z.\<close>

definition timestamp_max :: timestamp where
  "timestamp_max = 253402207200 * nanos + 999999999"

definition app_ttl :: duration where
  "app_ttl = seconds (5 * 60)"

definition try_hit :: "timestamp \<Rightarrow> 'a AppCached \<Rightarrow> 'a option" where
  "try_hit now c =
     (case app_data c of
        None \<Rightarrow> None
      | Some a \<Rightarrow>
          if now \<le> (if created_at c + app_ttl \<le> timestamp_max then created_at c + app_ttl else timestamp_max)
          then Some a else None)"

record TableRows =
  rows_page :: PageRef
  rows_data :: Value

record AppStore =
  store_app :: "App AppCached option"
  store_pages :: "PageRef \<Rightarrow> PageSpec AppCached option"
  store_rows :: "TableRows AppCached option"

definition store_default :: AppStore where
  "store_default = \<lparr>store_app = None, store_pages = (\<lambda>_. None), store_rows = None\<rparr>"

definition store_clear :: "AppStore \<Rightarrow> AppStore" where
  "store_clear S = S\<lparr>store_rows := None\<rparr>"

datatype api_answer = AppAnswer App | PageAnswer PageSpec | RowsAnswer Value | Done

text \<open>The hooks: the answer, whether something has to be fetched, and what.\<close>

definition use_app :: "timestamp \<Rightarrow> AppStore \<Rightarrow> App AppResponse \<times> bool \<times> api_request" where
  "use_app now S =
     (case Option.bind (store_app S) (try_hit now) of
        Some a \<Rightarrow> (RespOk a, False, GetApp now)
      | None \<Rightarrow> (RespFetching, True, GetApp now))"

definition use_page :: "timestamp \<Rightarrow> AppStore \<Rightarrow> PageRef \<Rightarrow> PageSpec AppResponse \<times> bool \<times> api_request" where
  "use_page now S p =
     (case Option.bind (store_pages S p) (try_hit now) of
        Some a \<Rightarrow> (RespOk a, False, GetPage now p)
      | None \<Rightarrow> (RespFetching, True, GetPage now p))"

definition use_table_rows ::
  "timestamp \<Rightarrow> AppStore \<Rightarrow> PageRef \<Rightarrow> string \<Rightarrow> TableRows AppCached AppResponse \<times> bool \<times> api_request" where
  "use_table_rows now S p url =
     (case store_rows S of
        None \<Rightarrow> (RespFetching, True, GetRows now p url)
      | Some c \<Rightarrow>
          (case try_hit now c of
             Some rows \<Rightarrow>
               if rows_page rows = p then (RespOk c, False, GetRows now p url) else (RespFetching, True, GetRows now p url)
           | None \<Rightarrow> (RespFetching, True, GetRows now p url)))"

text \<open>What an answer does to the store; an answer of another form is a failure.\<close>

definition update_store :: "api_request \<Rightarrow> api_answer option \<Rightarrow> AppStore \<Rightarrow> AppStore" where
  "update_store q r S =
     (case q of
        GetApp now \<Rightarrow> S\<lparr>store_app := Some \<lparr>created_at = now, app_data = (case r of Some (AppAnswer a) \<Rightarrow> Some a | _ \<Rightarrow> None)\<rparr>\<rparr>
      | GetPage now p \<Rightarrow>
          S\<lparr>store_pages := (store_pages S)(p \<mapsto> \<lparr>created_at = now, app_data = (case r of Some (PageAnswer a) \<Rightarrow> Some a | _ \<Rightarrow> None)\<rparr>),
            store_rows := None\<rparr>
      | GetRows now p _ \<Rightarrow>
          S\<lparr>store_rows := Some \<lparr>created_at = now,
            app_data = (case r of Some (RowsAnswer v) \<Rightarrow> Some \<lparr>rows_page = p, rows_data = v\<rparr> | _ \<Rightarrow> None)\<rparr>\<rparr>
      | UpdateItem _ _ _ \<Rightarrow> S
      | DeleteRow _ _ \<Rightarrow> S
      | SessionExec _ _ \<Rightarrow> S
      | SessionCommands _ \<Rightarrow> S)"

section \<open>The dialog\<close>

text \<open>The question whether to delete a row, with what the callback of its button holds: the address of the rows and
  the store of the client at the time of the drawing.\<close>

record DeleteSingle =
  delete_name :: string
  delete_url :: string
  delete_locked :: bool

record Dialog =
  dialog_enabled :: bool
  dialog_state :: "DeleteSingle option"

definition dialog_default :: Dialog where
  "dialog_default = \<lparr>dialog_enabled = False, dialog_state = None\<rparr>"

datatype DialogAction = CloseDialog | DisableDialog | RequestDialog DeleteSingle

definition dialog_reduce :: "DialogAction \<Rightarrow> Dialog \<Rightarrow> Dialog" where
  "dialog_reduce a D =
     (case a of
        CloseDialog \<Rightarrow> dialog_default
      | DisableDialog \<Rightarrow> D\<lparr>dialog_enabled := False\<rparr>
      | RequestDialog s \<Rightarrow> \<lparr>dialog_enabled = True, dialog_state = Some s\<rparr>)"

text \<open>The text of the dialog, and whether its buttons do anything.\<close>

definition build_dialog :: "Dialog \<Rightarrow> (string \<times> bool) option" where
  "build_dialog D =
     map_option (\<lambda>s. (''Do you want to delete '' @ delete_name s @ ''?'', dialog_enabled D)) (dialog_state D)"

section \<open>The page\<close>

text \<open>\<^verbatim>\<open>drawn_locked\<close> is the lock in the store of the client that the last drawing was made with; the
  callbacks of the buttons hold that store.\<close>

record Dash =
  dash_client :: ClientStore
  dash_store :: AppStore
  pending_calls :: "api_request list"
  hooks :: "nat \<Rightarrow> bool option"
  dash_dialog :: Dialog
  form_metadata :: ItemMetadata
  form_item :: "string option"
  form_values :: json_values
  form_enabled :: bool
  went_back :: nat
  drawn_locked :: bool

definition lock :: "bool \<Rightarrow> Dash \<Rightarrow> Dash" where
  "lock b D = D\<lparr>dash_client := (dash_client D)\<lparr>is_fetching := b\<rparr>\<rparr>"

text \<open>\<^verbatim>\<open>locked\<close> is the lock in the store that the caller holds.\<close>

definition api_call :: "bool \<Rightarrow> bool \<Rightarrow> api_request \<Rightarrow> Dash \<Rightarrow> Dash" where
  "api_call locked ready q D =
     (if \<not> ready \<or> locked then D else (lock True D)\<lparr>pending_calls := pending_calls D @ [q]\<rparr>)"

text \<open>The effect of a hook runs after a drawing, when what it depends on differs from the drawing before.\<close>

definition hook_effect :: "bool \<Rightarrow> nat \<Rightarrow> bool \<times> api_request \<Rightarrow> Dash \<Rightarrow> Dash" where
  "hook_effect locked i e D =
     (case e of (ready, q) \<Rightarrow>
        if hooks D i = Some ready then D
        else api_call locked ready q (D\<lparr>hooks := (hooks D)(i \<mapsto> ready)\<rparr>))"

datatype hook = HookApp | HookPage PageRef | HookRows PageRef string

definition hook_use :: "timestamp \<Rightarrow> AppStore \<Rightarrow> hook \<Rightarrow> bool \<times> api_request" where
  "hook_use now S h =
     (case h of HookApp \<Rightarrow> snd (use_app now S) | HookPage p \<Rightarrow> snd (use_page now S p) | HookRows p url \<Rightarrow> snd (use_table_rows now S p url))"

text \<open>A drawing of components, each with the address of its hook.\<close>

definition draw_hooks :: "timestamp \<Rightarrow> (nat \<times> hook) list \<Rightarrow> Dash \<Rightarrow> Dash" where
  "draw_hooks now hs D =
     fold (\<lambda>(i, h). hook_effect (is_fetching (dash_client D)) i (hook_use now (dash_store D) h)) hs
       (D\<lparr>drawn_locked := is_fetching (dash_client D)\<rparr>)"

text \<open>An answer: the store is changed, the callbacks run, a failure is registered, and the lock is released.\<close>

definition call_callback :: "api_request \<Rightarrow> bool \<Rightarrow> Dash \<Rightarrow> Dash" where
  "call_callback q succeeded D =
     (case q of
        UpdateItem _ _ _ \<Rightarrow> (if succeeded then D\<lparr>went_back := went_back D + 1\<rparr> else D\<lparr>form_enabled := True\<rparr>)
      | DeleteRow _ _ \<Rightarrow> D\<lparr>dash_dialog := dialog_reduce CloseDialog (dash_dialog D)\<rparr>
      | _ \<Rightarrow> D)"

text \<open>An update clears the rows from within a change of the store; \<^verbatim>\<open>nested\<close> says whether such a change
  outlives the change around it.\<close>

definition answer_call :: "bool \<Rightarrow> api_request \<Rightarrow> string + api_answer \<Rightarrow> Dash \<Rightarrow> Dash" where
  "answer_call nested q r D =
     (let S = update_store q (case r of Inr a \<Rightarrow> Some a | Inl _ \<Rightarrow> None) (dash_store D);
          S = (case (q, r) of (UpdateItem _ _ _, Inr _) \<Rightarrow> if nested then store_clear S else S | _ \<Rightarrow> S);
          D = call_callback q (\<not> isl r) (D\<lparr>dash_store := S, pending_calls := remove1 q (pending_calls D)\<rparr>);
          D = (case r of
             Inl e \<Rightarrow> D\<lparr>dash_client := register_alert
               \<lparr>alert_back = True, alert_level_of = LevelError, alert_message = ''Failed to request: '' @ e\<rparr> (dash_client D)\<rparr>
           | Inr _ \<Rightarrow> D)
      in lock False D)"

text \<open>The button of a row, and the buttons of the dialog.\<close>

definition ask_delete :: "string \<Rightarrow> string \<Rightarrow> Dash \<Rightarrow> Dash" where
  "ask_delete url name D =
     D\<lparr>dash_dialog := dialog_reduce
       (RequestDialog \<lparr>delete_name = name, delete_url = url, delete_locked = drawn_locked D\<rparr>) (dash_dialog D)\<rparr>"

definition delete_table_row :: "bool \<Rightarrow> string \<Rightarrow> string \<Rightarrow> Dash \<Rightarrow> Dash" where
  "delete_table_row locked url name D =
     api_call locked True (DeleteRow url name) (D\<lparr>dash_dialog := dialog_reduce DisableDialog (dash_dialog D)\<rparr>)"

definition click_delete :: "Dash \<Rightarrow> Dash" where
  "click_delete D =
     (case dialog_state (dash_dialog D) of
        Some s \<Rightarrow>
          if dialog_enabled (dash_dialog D) then delete_table_row (delete_locked s) (delete_url s) (delete_name s) D else D
      | None \<Rightarrow> D)"

definition click_cancel :: "Dash \<Rightarrow> Dash" where
  "click_cancel D =
     (if dialog_state (dash_dialog D) \<noteq> None \<and> dialog_enabled (dash_dialog D)
      then D\<lparr>dash_dialog := dialog_reduce CloseDialog (dash_dialog D)\<rparr> else D)"

text \<open>The form of an item.\<close>

definition update_item :: "bool \<Rightarrow> Dash \<Rightarrow> Dash" where
  "update_item locked D =
     api_call locked True (UpdateItem (item_base_url (form_metadata D)) (form_item D) (form_values D)) D"

definition submit_form :: "page_lib \<Rightarrow> Dash \<Rightarrow> Dash" where
  "submit_form P D =
     (if form_enabled D
      then (case form_is_valid P (form_metadata D) (form_values D) of
          Some message \<Rightarrow>
            D\<lparr>dash_client := register_alert
              \<lparr>alert_back = True, alert_level_of = LevelError, alert_message = message\<rparr> (dash_client D)\<rparr>
        | None \<Rightarrow> update_item (drawn_locked D) (D\<lparr>form_enabled := False\<rparr>))
      else D)"

definition edit_form :: "ItemField \<Rightarrow> string \<Rightarrow> Dash \<Rightarrow> Dash" where
  "edit_form f input D = (if form_enabled D then D\<lparr>form_values := change_field f input (form_values D)\<rparr> else D)"

text \<open>The command line of a tab.\<close>

definition vine_session_exec :: "string \<Rightarrow> string \<Rightarrow> Dash \<Rightarrow> Dash" where
  "vine_session_exec url line D =
     (case submit_command line of None \<Rightarrow> D | Some a \<Rightarrow> api_call (drawn_locked D) True (SessionExec url a) D)"

definition vine_session_command_list :: "string \<Rightarrow> Dash \<Rightarrow> Dash" where
  "vine_session_command_list url D = api_call (drawn_locked D) True (SessionCommands url) D"

section \<open>Routes and screens\<close>

datatype Route =
  RouteHome
| RoutePage PageKind string string
| RouteItemCreate PageKind string string
| RouteItemUpdate PageKind string string string

definition route_page :: "PageRef \<Rightarrow> Route" where
  "route_page p = RoutePage (page_kind p) (page_namespace p) (page_name p)"

definition route_item_update :: "PageRef \<Rightarrow> string option \<Rightarrow> Route" where
  "route_item_update p item =
     (case item of
        Some n \<Rightarrow> RouteItemUpdate (page_kind p) (page_namespace p) (page_name p) n
      | None \<Rightarrow> RouteItemCreate (page_kind p) (page_namespace p) (page_name p))"

datatype Screen = ScreenHome | ScreenPage PageRef | ScreenForm PageRef "string option"

definition switch_route :: "Route \<Rightarrow> Screen" where
  "switch_route r =
     (case r of
        RouteHome \<Rightarrow> ScreenHome
      | RoutePage k ns n \<Rightarrow> ScreenPage \<lparr>page_kind = k, page_namespace = ns, page_name = n\<rparr>
      | RouteItemCreate k ns n \<Rightarrow> ScreenForm \<lparr>page_kind = k, page_namespace = ns, page_name = n\<rparr> None
      | RouteItemUpdate k ns n i \<Rightarrow> ScreenForm \<lparr>page_kind = k, page_namespace = ns, page_name = n\<rparr> (Some i))"

record NavItem =
  nav_route :: Route
  nav_active :: bool
  nav_text :: string
  nav_tip :: "string option"

definition build_item :: "page_lib \<Rightarrow> PageRef option \<Rightarrow> PageMetadata \<Rightarrow> NavItem" where
  "build_item P current m =
     \<lparr>nav_route = route_page (page_object m), nav_active = (current = Some (page_object m)),
      nav_text = unwrap_or (title_case P (page_name (page_object m))) (page_title m), nav_tip = page_description m\<rparr>"

definition alert_class :: "alert_level \<Rightarrow> string" where
  "alert_class l =
     (case l of
        LevelTrace \<Rightarrow> []
      | LevelDebug \<Rightarrow> []
      | LevelInfo \<Rightarrow> ''alert-info''
      | LevelWarn \<Rightarrow> ''alert-warning''
      | LevelError \<Rightarrow> ''alert-error'')"

text \<open>An alert: its class, its text, and what a click on it dismisses.\<close>

definition build_alert :: "nat \<Rightarrow> nat \<times> Alert \<Rightarrow> string \<times> string \<times> nat \<times> (nat \<times> Alert)" where
  "build_alert i a = (alert_class (alert_level_of (snd a)), alert_message (snd a), i, a)"

definition build_alerts :: "ClientStore \<Rightarrow> (string \<times> string \<times> nat \<times> (nat \<times> Alert)) list" where
  "build_alerts C = map (\<lambda>(i, a). build_alert i a) (enumerate 0 (alerts C))"

record ScaffoldView =
  scaffold_title :: string
  scaffold_home :: bool
  scaffold_items :: "NavItem list"
  scaffold_alerts :: "(string \<times> string \<times> nat \<times> (nat \<times> Alert)) list"
  scaffold_dialog :: "(string \<times> bool) option"

definition build_scaffold :: "page_lib \<Rightarrow> ClientStore \<Rightarrow> App \<Rightarrow> Dialog option \<Rightarrow> PageRef option \<Rightarrow> ScaffoldView" where
  "build_scaffold P C a d p =
     \<lparr>scaffold_title = unwrap_or (title_case P (app_name (app_metadata a))) (app_title (app_metadata a)),
      scaffold_home = (p = None), scaffold_items = map (build_item P p) (app_pages (app_spec a)),
      scaffold_alerts = build_alerts C, scaffold_dialog = Option.bind d build_dialog\<rparr>"

text \<open>The screens; \<^verbatim>\<open>None\<close> is a screen that is blank.\<close>

definition draw_page :: "page_lib \<Rightarrow> timestamp \<Rightarrow> Dash \<Rightarrow> PageRef \<Rightarrow> (ScaffoldView \<times> TableSession) option" where
  "draw_page P now D p =
     (case (unwrap_response (fst (use_app now (dash_store D))), unwrap_response (fst (use_page now (dash_store D) p))) of
        (Some a, Some (TablePage t)) \<Rightarrow> Some (build_scaffold P (dash_client D) a (Some (dash_dialog D)) (Some p), t)
      | _ \<Rightarrow> None)"

definition draw_home :: "page_lib \<Rightarrow> timestamp \<Rightarrow> Dash \<Rightarrow> (ScaffoldView \<times> (string \<times> string option \<times> Card list) list) option" where
  "draw_home P now D =
     (case unwrap_response (fst (use_app now (dash_store D))) of
        Some a \<Rightarrow> Some (build_scaffold P (dash_client D) a None None, build_catalog P now (app_catalog (app_spec a)))
      | None \<Rightarrow> None)"

text \<open>The form of an item that was handed over by the page before; without one the page goes back.\<close>

definition draw_form ::
  "page_lib \<Rightarrow> timestamp \<Rightarrow> Item option \<Rightarrow> PageRef \<Rightarrow> Dash \<Rightarrow> (ScaffoldView \<times> FieldView list) option \<times> Dash" where
  "draw_form P now item p D =
     (case unwrap_response (fst (use_app now (dash_store D))) of
        None \<Rightarrow> (None, D)
      | Some a \<Rightarrow>
          (case item of
             None \<Rightarrow> (None, D\<lparr>went_back := went_back D + 1\<rparr>)
           | Some x \<Rightarrow>
               (case draw_fields P (form_enabled D) (template_fields (item_template (item_metadata x))) (form_values D) of
                  (views, vs) \<Rightarrow>
                    (Some (build_scaffold P (dash_client D) a (Some (dash_dialog D)) (Some p), views), D\<lparr>form_values := vs\<rparr>))))"

section \<open>Events\<close>

datatype dash_event =
  Drawing timestamp "(nat \<times> hook) list"
| Answering api_request "string + api_answer"
| AskingDelete string string
| ClickingDelete
| ClickingCancel
| Submitting
| Editing ItemField string
| Commanding string string
| ListingCommands string
| Dismissing nat "nat \<times> Alert"

definition dash_step :: "page_lib \<Rightarrow> bool \<Rightarrow> dash_event \<Rightarrow> Dash \<Rightarrow> Dash" where
  "dash_step P nested e D =
     (case e of
        Drawing now hs \<Rightarrow> draw_hooks now hs D
      | Answering q r \<Rightarrow> if q \<in> set (pending_calls D) then answer_call nested q r D else D
      | AskingDelete url name \<Rightarrow> ask_delete url name D
      | ClickingDelete \<Rightarrow> click_delete D
      | ClickingCancel \<Rightarrow> click_cancel D
      | Submitting \<Rightarrow> submit_form P D
      | Editing f input \<Rightarrow> edit_form f input D
      | Commanding url line \<Rightarrow> vine_session_exec url line D
      | ListingCommands url \<Rightarrow> vine_session_command_list url D
      | Dismissing i a \<Rightarrow> D\<lparr>dash_client := dismiss_alert i a (dash_client D)\<rparr>)"

definition dash_run :: "page_lib \<Rightarrow> bool \<Rightarrow> dash_event list \<Rightarrow> Dash \<Rightarrow> Dash" where
  "dash_run P nested es D = fold (dash_step P nested) es D"

lemma dash_run_simps [simp]:
  "dash_run P n [] D = D"
  "dash_run P n (e # es) D = dash_run P n es (dash_step P n e D)"
  "dash_run P n (es @ fs) D = dash_run P n fs (dash_run P n es D)"
  by (simp_all add: dash_run_def)

text \<open>A property that every step keeps holds after a run.\<close>

lemma dash_run_keeps:
  assumes "\<And>e D. e \<in> set es \<Longrightarrow> K D \<Longrightarrow> K (dash_step P n e D)" and "K D"
  shows "K (dash_run P n es D)"
  using assms by (induction es arbitrary: D) auto

lemma api_call_parts [simp]:
  "dash_store (api_call l r q D) = dash_store D" "hooks (api_call l r q D) = hooks D"
  "dash_dialog (api_call l r q D) = dash_dialog D" "form_enabled (api_call l r q D) = form_enabled D"
  "set (pending_calls (api_call l r q D)) \<subseteq> insert q (set (pending_calls D))"
  by (auto simp: api_call_def lock_def)

lemma hook_effect_parts:
  "dash_store (hook_effect l i e D) = dash_store D" "dash_dialog (hook_effect l i e D) = dash_dialog D"
  "set (pending_calls (hook_effect l i e D)) \<subseteq> insert (snd e) (set (pending_calls D))"
  "j \<noteq> i \<Longrightarrow> hooks (hook_effect l i e D) j = hooks D j"
  using api_call_parts(5) [of l "fst e" "snd e" "D\<lparr>hooks := (hooks D)(i \<mapsto> fst e)\<rparr>"]
  by (auto simp: hook_effect_def case_prod_beta)

text \<open>What answers leave alone.\<close>

lemma call_callback_parts [simp]:
  "dash_store (call_callback q b D) = dash_store D" "pending_calls (call_callback q b D) = pending_calls D"
  "hooks (call_callback q b D) = hooks D"
  by (simp_all add: call_callback_def split: api_request.split)

lemma answer_call_parts:
  "hooks (answer_call n q r D) = hooks D"
  "pending_calls (answer_call n q r D) = remove1 q (pending_calls D)"
  "dash_store (answer_call n q r D) =
     (let S = update_store q (case r of Inr a \<Rightarrow> Some a | Inl _ \<Rightarrow> None) (dash_store D) in
      case (q, r) of (UpdateItem _ _ _, Inr _) \<Rightarrow> if n then store_clear S else S | _ \<Rightarrow> S)"
  by (auto simp: answer_call_def Let_def lock_def split: sum.split)

section \<open>What is fetched\<close>

definition fetches :: "api_request \<Rightarrow> bool" where
  "fetches q \<longleftrightarrow> (case q of GetApp _ \<Rightarrow> True | GetPage _ _ \<Rightarrow> True | GetRows _ _ _ \<Rightarrow> True | _ \<Rightarrow> False)"

definition draws :: "dash_event \<Rightarrow> bool" where
  "draws e \<longleftrightarrow> (case e of Drawing _ _ \<Rightarrow> True | Answering _ _ \<Rightarrow> True | _ \<Rightarrow> False)"

lemma quiet_call:
  "\<not> fetches q \<Longrightarrow> x \<in> set (pending_calls (api_call l r q D)) \<Longrightarrow> x \<in> set (pending_calls D) \<or> \<not> fetches x"
  using api_call_parts(5) [of l r q D] by blast

lemma quiet_requests [simp]:
  "\<not> fetches (UpdateItem u i v)" "\<not> fetches (DeleteRow u m)" "\<not> fetches (SessionExec u a)" "\<not> fetches (SessionCommands u)"
  by (simp_all add: fetches_def)

lemmas dash_clicks = ask_delete_def click_delete_def click_cancel_def submit_form_def edit_form_def vine_session_exec_def
  vine_session_command_list_def delete_table_row_def update_item_def

lemma quiet_step:
  assumes "\<not> draws e"
  shows "dash_store (dash_step P n e D) = dash_store D" and "hooks (dash_step P n e D) = hooks D"
    and "q \<in> set (pending_calls (dash_step P n e D)) \<Longrightarrow> q \<in> set (pending_calls D) \<or> \<not> fetches q"
proof -
  show "dash_store (dash_step P n e D) = dash_store D" and "hooks (dash_step P n e D) = hooks D"
    using assms by (cases e; simp add: dash_step_def draws_def dash_clicks split: option.split)+
  show "q \<in> set (pending_calls (dash_step P n e D)) \<Longrightarrow> q \<in> set (pending_calls D) \<or> \<not> fetches q"
    using assms
    by (cases e; simp add: dash_step_def draws_def dash_clicks split: option.splits if_splits) (auto dest: quiet_call [rotated])
qed

definition asks :: "hook \<Rightarrow> api_request \<Rightarrow> bool" where
  "asks h q \<longleftrightarrow>
     (case (h, q) of
        (HookApp, GetApp _) \<Rightarrow> True
      | (HookPage p, GetPage _ p') \<Rightarrow> p = p'
      | (HookRows p _, GetRows _ p' _) \<Rightarrow> p = p'
      | _ \<Rightarrow> False)"

definition same_target :: "hook \<Rightarrow> hook \<Rightarrow> bool" where
  "same_target h h' \<longleftrightarrow>
     (case (h, h') of
        (HookApp, HookApp) \<Rightarrow> True
      | (HookPage p, HookPage p') \<Rightarrow> p = p'
      | (HookRows p _, HookRows p' _) \<Rightarrow> p = p'
      | _ \<Rightarrow> False)"

lemma asks_use: "asks h (snd (hook_use now S h')) = same_target h h'"
  by (cases h; cases h')
    (auto simp: asks_def same_target_def hook_use_def use_app_def use_page_def use_table_rows_def split: option.split)

text \<open>The store has nothing for a hook, at any time.\<close>

definition lacks :: "hook \<Rightarrow> AppStore \<Rightarrow> bool" where
  "lacks h S =
     (case h of
        HookApp \<Rightarrow> Option.bind (store_app S) app_data = None
      | HookPage p \<Rightarrow> Option.bind (store_pages S p) app_data = None
      | HookRows p _ \<Rightarrow> (case Option.bind (store_rows S) app_data of None \<Rightarrow> True | Some r \<Rightarrow> rows_page r \<noteq> p))"

lemma lacks_use: "lacks h S \<Longrightarrow> fst (hook_use now S h)"
  by (cases h)
    (auto simp: lacks_def hook_use_def use_app_def use_page_def use_table_rows_def try_hit_def split: option.splits bind_splits if_splits)

lemma lacks_update: "lacks h S \<Longrightarrow> \<not> asks h q \<Longrightarrow> lacks h (update_store q r S)"
  by (cases h; cases q) (auto simp: lacks_def asks_def update_store_def split: option.split api_answer.split)

lemma lacks_clear: "lacks h S \<Longrightarrow> lacks h (store_clear S)"
  by (cases h) (simp_all add: lacks_def store_clear_def)

lemma lacks_answer:
  assumes "lacks h (dash_store D)" and "\<not> asks h q"
  shows "lacks h (dash_store (answer_call n q r D))"
  using lacks_update [OF assms, of "case r of Inr a \<Rightarrow> Some a | Inl _ \<Rightarrow> None"] lacks_clear
  by (auto simp: answer_call_parts Let_def split: api_request.split sum.split)

text \<open>A component is forsaken when it has asked, nothing answers it, and the store lacks what it shows.\<close>

definition forsaken :: "nat \<Rightarrow> hook \<Rightarrow> Dash \<Rightarrow> bool" where
  "forsaken i h D \<longleftrightarrow> hooks D i = Some True \<and> lacks h (dash_store D) \<and> list_all (\<lambda>q. \<not> asks h q) (pending_calls D)"

text \<open>Drawings in which the component shows the same thing and no other component fetches it.\<close>

definition alone :: "nat \<Rightarrow> hook \<Rightarrow> dash_event \<Rightarrow> bool" where
  "alone i h e \<longleftrightarrow> (case e of Drawing _ hs \<Rightarrow> list_all (\<lambda>(j, h'). if j = i then h' = h else \<not> same_target h h') hs | _ \<Rightarrow> True)"

lemma forsaken_effect:
  assumes "forsaken i h D" and "if j = i then h' = h else \<not> same_target h h'" and "lacks h S"
  shows "forsaken i h (hook_effect l j (hook_use now S h') D)"
proof (cases "j = i")
  case True
  then have "hook_effect l j (hook_use now S h') D = D"
    using assms lacks_use [OF assms(3), of now] by (auto simp: hook_effect_def forsaken_def case_prod_beta)
  with assms(1) show ?thesis by simp
next
  case False
  then have "\<not> asks h (snd (hook_use now S h'))"
    using assms(2) by (simp add: asks_use)
  with False assms(1) show ?thesis
    using hook_effect_parts(3) [of l j "hook_use now S h'" D] hook_effect_parts(4) [of i j l "hook_use now S h'" D]
    by (auto simp: forsaken_def hook_effect_parts(1) list_all_iff)
qed

lemma forsaken_drawing:
  assumes "forsaken i h D" and "lacks h S" and "list_all (\<lambda>(j, h'). if j = i then h' = h else \<not> same_target h h') hs"
  shows "forsaken i h (fold (\<lambda>(j, h'). hook_effect l j (hook_use now S h')) hs D)"
  using assms(1,3)
proof (induction hs arbitrary: D)
  case (Cons x hs)
  obtain j h' where "x = (j, h')" by fastforce
  with Cons forsaken_effect [OF Cons.prems(1) _ assms(2)] show ?case
    by simp
qed simp

lemma asks_fetches: "asks h q \<Longrightarrow> fetches q"
  by (cases h; cases q) (simp_all add: asks_def fetches_def)

lemma forsaken_step:
  assumes "forsaken i h D" and "alone i h e"
  shows "forsaken i h (dash_step P n e D)"
proof (cases "draws e")
  case False
  have "\<not> asks h q" if "q \<in> set (pending_calls (dash_step P n e D))" for q
    using quiet_step(3) [OF False that] assms(1) asks_fetches [of h q] unfolding forsaken_def list_all_iff by blast
  with assms(1) show ?thesis
    unfolding forsaken_def list_all_iff quiet_step(1,2) [OF False] by blast
next
  case True
  then show ?thesis
  proof (cases e)
    case (Drawing now hs)
    have "lacks h (dash_store D)" "forsaken i h (D\<lparr>drawn_locked := is_fetching (dash_client D)\<rparr>)"
      using assms(1) by (simp_all add: forsaken_def)
    from forsaken_drawing [OF this(2,1)] show ?thesis
      using Drawing assms(2) by (simp add: dash_step_def draw_hooks_def alone_def)
  next
    case (Answering q r)
    have "\<not> asks h q \<and> list_all (\<lambda>q. \<not> asks h q) (remove1 q (pending_calls D))" if "q \<in> set (pending_calls D)"
      using assms(1) that set_remove1_subset [of q "pending_calls D"] by (auto simp: forsaken_def list_all_iff)
    with Answering assms(1) show ?thesis
      by (auto simp: dash_step_def forsaken_def answer_call_parts(1,2) lacks_answer)
  qed (simp_all add: draws_def)
qed

lemma forsaken_run: "forsaken i h D \<Longrightarrow> list_all (alone i h) es \<Longrightarrow> forsaken i h (dash_run P n es D)"
  by (rule dash_run_keeps) (auto simp: forsaken_step list_all_iff)

text \<open>C39.
  A page that is chosen while another one is loading does not load as long as it stays chosen.  The component of the
  page, drawn for the first time and with the store unlocked, asks for the first page; neither page is in the
  store, and nobody has asked for the second.  Then, as long as the component shows the second page in every later
  drawing and no other component asks for that page, no request for it is sent and its screen stays blank,
  whatever is answered or clicked: the effect of the component runs again only when the need to fetch changes, and
  that need is there before and after.  (Going back to the first page once it has loaded, and to the
  second again, does send the request: \<^verbatim>\<open>returning_loads\<close>.)\<close>

theorem page_left_while_loading_never_loads:
  assumes "hooks D i = None" and "\<not> is_fetching (dash_client D)" and "p \<noteq> p'"
    and "lacks (HookPage p) (dash_store D)" and "lacks (HookPage p') (dash_store D)"
    and "list_all (\<lambda>q. \<not> asks (HookPage p') q) (pending_calls D)" and "list_all (alone i (HookPage p')) es"
  shows "let D' = dash_run P n (Drawing t [(i, HookPage p)] # es) D in
    list_all (\<lambda>q. \<not> asks (HookPage p') q) (pending_calls D') \<and> draw_page P now D' p' = None"
proof -
  let ?D = "dash_step P n (Drawing t [(i, HookPage p)]) D"
  have ready: "fst (hook_use t (dash_store D) (HookPage p))"
    using lacks_use assms(4) .
  moreover have "\<not> asks (HookPage p') (snd (hook_use t (dash_store D) (HookPage p)))"
    using assms(3) by (simp add: asks_use same_target_def)
  ultimately have "forsaken i (HookPage p') ?D"
    using assms
    by (auto simp: forsaken_def dash_step_def draw_hooks_def hook_effect_def api_call_def lock_def case_prod_beta)
  then have kept: "forsaken i (HookPage p') (dash_run P n es ?D)"
    using assms(7) by (rule forsaken_run)
  then have "fst (hook_use now (dash_store (dash_run P n es ?D)) (HookPage p'))"
    by (auto simp: forsaken_def lacks_use)
  then have "unwrap_response (fst (use_page now (dash_store (dash_run P n es ?D)) p')) = None"
    by (auto simp: hook_use_def use_page_def unwrap_response_def split: option.splits)
  with kept show ?thesis
    by (simp add: Let_def forsaken_def draw_page_def split: option.split)
qed

text \<open>The way out: once the first page has loaded, showing it again resets what the effect depends on.\<close>

lemma returning_loads:
  assumes "Option.bind (store_pages (dash_store D) p) (try_hit t) = Some spec" and "lacks (HookPage p') (dash_store D)"
    and "\<not> is_fetching (dash_client D)"
  shows "GetPage t' p' \<in> set (pending_calls (dash_run P n [Drawing t [(i, HookPage p)], Drawing t' [(i, HookPage p')]] D))"
proof -
  have "hook_use t (dash_store D) (HookPage p) = (False, GetPage t p)"
    using assms(1) by (simp add: hook_use_def use_page_def)
  moreover have "hook_use t' (dash_store D) (HookPage p') = (True, GetPage t' p')"
    using lacks_use [OF assms(2), of t'] by (auto simp: hook_use_def use_page_def split: option.splits)
  ultimately show ?thesis
    using assms(3) by (simp add: dash_step_def draw_hooks_def hook_effect_def api_call_def lock_def)
qed

text \<open>A failure to fetch the application is final: the answer is kept as missing, the component that asked does not ask
  again, and neither its alert nor anything else is drawn, whatever happens later to the page.\<close>

theorem failed_fetch_is_final:
  assumes "hooks D i = Some True" and "lacks HookApp (dash_store D)"
    and "GetApp t \<in> set (pending_calls D)" and "list_all (\<lambda>q. \<not> asks HookApp q) (remove1 (GetApp t) (pending_calls D))"
    and "list_all (alone i HookApp) es"
  shows "let D' = dash_run P n (Answering (GetApp t) (Inl e) # es) D in
    list_all (\<lambda>q. \<not> asks HookApp q) (pending_calls D') \<and> draw_home P now D' = None \<and> draw_page P now D' p = None"
proof -
  let ?D = "dash_step P n (Answering (GetApp t) (Inl e)) D"
  have "forsaken i HookApp ?D"
    using assms
    by (auto simp: forsaken_def dash_step_def answer_call_parts lacks_def update_store_def Let_def)
  then have kept: "forsaken i HookApp (dash_run P n es ?D)"
    using assms(5) by (rule forsaken_run)
  then have "fst (hook_use now (dash_store (dash_run P n es ?D)) HookApp)"
    by (auto simp: forsaken_def lacks_use)
  then have "unwrap_response (fst (use_app now (dash_store (dash_run P n es ?D)))) = None"
    by (auto simp: hook_use_def use_app_def unwrap_response_def split: option.splits)
  with kept show ?thesis
    by (simp add: Let_def forsaken_def draw_home_def draw_page_def split: option.split)
qed

section \<open>What is shown\<close>

definition rows_origin :: "dash_event list \<Rightarrow> AppStore \<Rightarrow> bool" where
  "rows_origin es S \<longleftrightarrow>
     (\<forall>c rows. store_rows S = Some c \<longrightarrow> app_data c = Some rows \<longrightarrow>
        (\<exists>url. Answering (GetRows (created_at c) (rows_page rows) url) (Inr (RowsAnswer (rows_data rows))) \<in> set es))"

lemma drawing_keeps_store: "dash_store (draw_hooks now hs D) = dash_store D"
proof -
  have "dash_store (fold (\<lambda>(i, h). hook_effect l i (hook_use now S h)) hs D) = dash_store D" for l S D
    by (induction hs arbitrary: D) (auto simp: hook_effect_parts)
  then show ?thesis
    by (simp add: draw_hooks_def)
qed

lemma rows_origin_more: "rows_origin es S \<Longrightarrow> set es \<subseteq> set fs \<Longrightarrow> rows_origin fs S"
  unfolding rows_origin_def by blast

lemma rows_origin_update:
  assumes "rows_origin es S"
  shows "rows_origin (es @ [Answering q r]) (update_store q (case r of Inr a \<Rightarrow> Some a | Inl _ \<Rightarrow> None) S)"
proof (cases q)
  case (GetRows t p url)
  then show ?thesis
    by (cases r) (auto simp: update_store_def rows_origin_def split: api_answer.split)
qed (use assms in \<open>auto simp: update_store_def rows_origin_def\<close>)

lemma rows_origin_clear: "rows_origin es (store_clear S)"
  by (simp add: rows_origin_def store_clear_def)

lemma rows_origin_step: "rows_origin es (dash_store D) \<Longrightarrow> rows_origin (es @ [e]) (dash_store (dash_step P n e D))"
proof (cases "draws e")
  case False
  assume "rows_origin es (dash_store D)"
  then show ?thesis
    by (auto simp: quiet_step(1) [OF False] intro: rows_origin_more)
next
  case True
  assume ok: "rows_origin es (dash_store D)"
  then have more: "rows_origin (es @ [e]) (dash_store D)"
    by (auto intro: rows_origin_more)
  from True show ?thesis
  proof (cases e)
    case (Drawing now hs)
    with more show ?thesis
      by (simp add: dash_step_def drawing_keeps_store)
  next
    case (Answering q r)
    with more rows_origin_update [OF ok, of q r] show ?thesis
      by (auto simp: dash_step_def answer_call_parts Let_def rows_origin_clear split: api_request.split sum.split)
  qed (simp_all add: draws_def)
qed

lemma rows_origin_run: "rows_origin fs (dash_store D) \<Longrightarrow> rows_origin (fs @ es) (dash_store (dash_run P n es D))"
proof (induction es arbitrary: fs D)
  case (Cons e es)
  from Cons.IH [OF rows_origin_step [OF Cons.prems]] show ?case
    by simp
qed simp

text \<open>The rows that a table shows were fetched for its page, by a request of a drawing of that page, at most five minutes
  before they are shown, whatever other pages, updates, failures and deletions came in between.\<close>

theorem shown_rows_are_of_the_page:
  assumes "store_rows (dash_store D) = None"
    and "unwrap_response (fst (use_table_rows now (dash_store (dash_run P n es D)) p url)) = Some c"
  shows "\<exists>t url' rows. app_data c = Some rows \<and> rows_page rows = p \<and> now \<le> t + app_ttl
    \<and> Answering (GetRows t p url') (Inr (RowsAnswer (rows_data rows))) \<in> set es"
proof -
  let ?S = "dash_store (dash_run P n es D)"
  have "rows_origin es ?S"
    using rows_origin_run [of "[]" D es P n] assms(1) by (simp add: rows_origin_def)
  moreover obtain rows where "store_rows ?S = Some c" "try_hit now c = Some rows" "rows_page rows = p"
    using assms(2) by (auto simp: use_table_rows_def unwrap_response_def split: option.splits if_splits)
  moreover from this have "app_data c = Some rows" "now \<le> created_at c + app_ttl"
    by (auto simp: try_hit_def split: option.splits if_splits)
  ultimately show ?thesis
    unfolding rows_origin_def by metis
qed

text \<open>A row that has been deleted is shown until the rows expire: unlike an update, a deletion leaves the rows alone.\<close>

lemma deletion_keeps_rows: "store_rows (dash_store (answer_call n (DeleteRow url name) r D)) = store_rows (dash_store D)"
  by (auto simp: answer_call_parts Let_def update_store_def split: sum.split)

text \<open>The lock does not keep requests apart: the hooks of one drawing see the same store, and whichever is answered first
  releases the lock of the others.\<close>

lemma lock_is_shared:
  fixes t :: timestamp
  assumes "\<not> is_fetching (dash_client D)" and "hooks D 0 = None" and "hooks D 1 = None"
    and "lacks HookApp (dash_store D)" and "lacks (HookPage p) (dash_store D)" and "pending_calls D = []"
  defines "D1 \<equiv> draw_hooks t [(0, HookApp), (1, HookPage p)] D"
  shows "pending_calls D1 = [GetApp t, GetPage t p]"
    and "pending_calls (answer_call n (GetApp t) r D1) = [GetPage t p] \<and> \<not> is_fetching (dash_client (answer_call n (GetApp t) r D1))"
proof -
  have app: "hook_use t (dash_store D) HookApp = (True, GetApp t)"
    using lacks_use [OF assms(4), of t] by (auto simp: hook_use_def use_app_def split: option.splits)
  have page: "hook_use t (dash_store D) (HookPage p) = (True, GetPage t p)"
    using lacks_use [OF assms(5), of t] by (auto simp: hook_use_def use_page_def split: option.splits)
  show two: "pending_calls D1 = [GetApp t, GetPage t p]"
    using assms(1-3,6) by (simp add: D1_def draw_hooks_def app page hook_effect_def api_call_def lock_def)
  show "pending_calls (answer_call n (GetApp t) r D1) = [GetPage t p] \<and> \<not> is_fetching (dash_client (answer_call n (GetApp t) r D1))"
    by (simp add: answer_call_parts two) (simp add: answer_call_def Let_def lock_def)
qed

section \<open>The dialog in every state\<close>

definition is_delete :: "api_request \<Rightarrow> bool" where
  "is_delete q \<longleftrightarrow> (case q of DeleteRow _ _ \<Rightarrow> True | _ \<Rightarrow> False)"

text \<open>Events that do not touch the dialog, and a dialog that nothing closes.\<close>

definition leaves_dialog :: "dash_event \<Rightarrow> bool" where
  "leaves_dialog e \<longleftrightarrow> (case e of AskingDelete _ _ \<Rightarrow> False | ClickingDelete \<Rightarrow> False | ClickingCancel \<Rightarrow> False | _ \<Rightarrow> True)"

definition no_delete :: "Dash \<Rightarrow> bool" where
  "no_delete D \<longleftrightarrow> list_all (\<lambda>q. \<not> is_delete q) (pending_calls D)"

lemma drawing_keeps_dialog:
  "dash_dialog (draw_hooks now hs D) = dash_dialog D" "no_delete D \<Longrightarrow> no_delete (draw_hooks now hs D)"
proof -
  have "dash_dialog (fold (\<lambda>(i, h). hook_effect l i (hook_use now S h)) hs D) = dash_dialog D" for l S D
    by (induction hs arbitrary: D) (auto simp: hook_effect_parts)
  then show "dash_dialog (draw_hooks now hs D) = dash_dialog D"
    by (simp add: draw_hooks_def)
  have use: "\<not> is_delete (snd (hook_use now S h))" for S h
    by (cases h) (auto simp: hook_use_def use_app_def use_page_def use_table_rows_def is_delete_def split: option.split)
  have one: "no_delete (hook_effect l i (hook_use now S h) D)" if "no_delete D" for l i S h D
    using that use [of S h] hook_effect_parts(3) [of l i "hook_use now S h" D] by (auto simp: no_delete_def list_all_iff)
  have "no_delete D \<Longrightarrow> no_delete (fold (\<lambda>(i, h). hook_effect l i (hook_use now S h)) hs D)" for l S D
    by (induction hs arbitrary: D) (auto simp: one)
  moreover have "no_delete (D\<lparr>drawn_locked := b\<rparr>) = no_delete D" for b
    by (simp add: no_delete_def)
  ultimately show "no_delete D \<Longrightarrow> no_delete (draw_hooks now hs D)"
    unfolding draw_hooks_def by metis
qed

lemma answer_keeps_dialog:
  assumes "no_delete D" and "q \<in> set (pending_calls D)"
  shows "dash_dialog (answer_call n q r D) = dash_dialog D" and "no_delete (answer_call n q r D)"
proof -
  have "\<not> is_delete q"
    using assms by (auto simp: no_delete_def list_all_iff)
  then have "dash_dialog (call_callback q ok E) = dash_dialog E" for ok E
    by (cases q) (simp_all add: call_callback_def is_delete_def)
  then show "dash_dialog (answer_call n q r D) = dash_dialog D"
    by (cases r) (simp_all add: answer_call_def Let_def lock_def)
  show "no_delete (answer_call n q r D)"
    using assms(1) set_remove1_subset [of q "pending_calls D"] by (auto simp: no_delete_def list_all_iff answer_call_parts)
qed

lemma dialog_left:
  assumes "no_delete D" and "leaves_dialog e"
  shows "dash_dialog (dash_step P n e D) = dash_dialog D \<and> no_delete (dash_step P n e D)"
proof (cases e)
  case (Drawing now hs)
  with assms show ?thesis by (simp add: dash_step_def drawing_keeps_dialog)
next
  case (Answering q r)
  with assms show ?thesis by (auto simp: dash_step_def answer_keeps_dialog)
qed (use assms in \<open>auto simp: dash_step_def leaves_dialog_def submit_form_def edit_form_def vine_session_exec_def
  vine_session_command_list_def update_item_def api_call_def lock_def no_delete_def is_delete_def split: option.split\<close>)

definition dialog_stuck :: "DeleteSingle \<Rightarrow> Dash \<Rightarrow> bool" where
  "dialog_stuck s D \<longleftrightarrow> dash_dialog D = \<lparr>dialog_enabled = False, dialog_state = Some s\<rparr> \<and> no_delete D"

definition asks_again :: "dash_event \<Rightarrow> bool" where
  "asks_again e \<longleftrightarrow> (case e of AskingDelete _ _ \<Rightarrow> True | _ \<Rightarrow> False)"

lemma stuck_step: "dialog_stuck s D \<Longrightarrow> \<not> asks_again e \<Longrightarrow> dialog_stuck s (dash_step P n e D)"
proof (cases "leaves_dialog e")
  case True
  assume "dialog_stuck s D"
  with True dialog_left [of D e P n] show ?thesis
    by (simp add: dialog_stuck_def)
next
  case False
  assume "dialog_stuck s D" "\<not> asks_again e"
  with False show ?thesis
    by (cases e) (auto simp: leaves_dialog_def asks_again_def dialog_stuck_def dash_step_def click_delete_def click_cancel_def)
qed


text \<open>One that is asked for in between is sent, and its answer closes the dialog, a failure as well.\<close>

lemma free_delete_closes:
  assumes "\<not> drawn_locked D"
  shows "DeleteRow url name \<in> set (pending_calls (dash_run P n [AskingDelete url name, ClickingDelete] D))"
    and "dash_dialog (dash_run P n [AskingDelete url name, ClickingDelete, Answering (DeleteRow url name) r] D) = dialog_default"
  using assms
  by (auto simp: dash_step_def ask_delete_def click_delete_def delete_table_row_def api_call_def lock_def dialog_reduce_def
    answer_call_def call_callback_def Let_def split: sum.split)

text \<open>The same happens to a form that is sent while the store is locked: it stays disabled and nothing is sent.\<close>

lemma early_form_is_dropped:
  assumes "form_is_valid P (form_metadata D) (form_values D) = None" and "drawn_locked D"
    and "form_enabled D"
  shows "pending_calls (submit_form P D) = pending_calls D \<and> \<not> form_enabled (submit_form P D)"
  using assms by (simp add: submit_form_def update_item_def api_call_def)

lemma routes_lead_back:
  "switch_route (route_page p) = ScreenPage p" "switch_route (route_item_update p item) = ScreenForm p item"
  by (simp_all add: switch_route_def route_page_def route_item_update_def split: option.split)

section \<open>Examples\<close>

definition example_page :: "string \<Rightarrow> PageRef" where
  "example_page n = \<lparr>page_kind = Table, page_namespace = ''default'', page_name = n\<rparr>"

definition example_dash :: "bool \<Rightarrow> api_request list \<Rightarrow> bool option \<Rightarrow> Dash" where
  "example_dash locked qs asked = \<lparr>dash_client = client_default\<lparr>is_fetching := locked\<rparr>, dash_store = store_default, pending_calls = qs,
     hooks = (\<lambda>_. asked), dash_dialog = dialog_default, form_metadata = example_form VNull, form_item = None, form_values = [],
     form_enabled = True, went_back = 0, drawn_locked = locked\<rparr>"

lemma lacks_default: "lacks h store_default"
  by (cases h) (simp_all add: lacks_def store_default_def)

theorem page_left_while_loading_never_loads_witness:
  "let D' = dash_run example_page_lib True (Drawing 0 [(1, HookPage (example_page ''a''))]
      # [Drawing 1 [(1, HookPage (example_page ''b''))], Answering (GetPage 0 (example_page ''a'')) (Inl ''gone'')]) (example_dash False [] None) in
    list_all (\<lambda>q. \<not> asks (HookPage (example_page ''b'')) q) (pending_calls D')
    \<and> draw_page example_page_lib 9 D' (example_page ''b'') = None"
  by (rule page_left_while_loading_never_loads [where i = 1])
    (simp_all add: example_dash_def client_default_def example_page_def lacks_default alone_def)

theorem failed_fetch_is_final_witness:
  "let D' = dash_run example_page_lib True (Answering (GetApp 0) (Inl ''down'') # [Drawing 1 [(0, HookApp)]]) (example_dash True [GetApp 0] (Some True)) in
    list_all (\<lambda>q. \<not> asks HookApp q) (pending_calls D') \<and> draw_home example_page_lib 9 D' = None
    \<and> draw_page example_page_lib 9 D' (example_page ''a'') = None"
  by (rule failed_fetch_is_final [where i = 0]) (simp_all add: example_dash_def lacks_default alone_def)


theorem shown_rows_are_of_the_page_witness:
  "\<exists>t url' rows. app_data \<lparr>created_at = 0, app_data = Some \<lparr>rows_page = example_page ''a'', rows_data = VArray []\<rparr>\<rparr> = Some rows
    \<and> rows_page rows = example_page ''a'' \<and> 9 \<le> t + app_ttl
    \<and> Answering (GetRows t (example_page ''a'') url') (Inr (RowsAnswer (rows_data rows)))
      \<in> set [Drawing 0 [(2, HookRows (example_page ''a'') ''u'')], Answering (GetRows 0 (example_page ''a'') ''u'') (Inr (RowsAnswer (VArray [])))]"
  by (rule shown_rows_are_of_the_page [where D = "example_dash False [] None" and P = example_page_lib and n = True and url = "''u''"])
    (simp add: example_dash_def store_default_def, code_simp)

end
