(* ===== verification/Spectrum_Backend.thy ===== *)
theory Spectrum_Backend
  imports Spectrum_Targets Vine_Oauth
begin

text \<open>
  The server that weighs the endpoints of a service
  (\<^verbatim>\<open>crates/openark-spectrum-backend/src\<close>: \<^verbatim>\<open>records.rs\<close>,
  \<^verbatim>\<open>routes/service.rs\<close> and the paths of \<^verbatim>\<open>main.rs\<close>), and what the
  operator gets from it.  The query language and its server are a parameter: the answer to the text of
  a query, with the samples of a vector as their labels and values.  The part of an endpoint that names
  its target is read by a parameter from the rest of the endpoint.
\<close>

section \<open>Data\<close>

record RecordArgs =
  default_record_service :: string
  label_custom_histogram_record :: string

record 'w Sample =
  sample_metric :: labels
  sample_value :: 'w

record TargetRef =
  target_kind :: "string option"
  target_name :: "string option"

text \<open>\<open>query_data\<close> is \<open>None\<close> inside when the result is not a vector.\<close>

record 'w backend_api =
  query_data :: "string \<Rightarrow> string + 'w Sample list option"
  endpoint_target :: "Endpoint \<Rightarrow> TargetRef option"

datatype 'w HttpAnswer = Ok200 "'w WeightResponse" | Forbidden403 string

section \<open>The query\<close>

definition record_of :: "RecordArgs \<Rightarrow> ObjectMeta \<Rightarrow> string" where
  "record_of R m = unwrap_or (default_record_service R) (label_of m (label_custom_histogram_record R))"

definition newline :: string where
  "newline = [CHR 0x0A]"

definition format_query :: "string \<Rightarrow> string \<Rightarrow> string \<Rightarrow> string" where
  "format_query rec ns name =
     rec @ ''{'' @ newline
     @ ''            namespace = '' @ debug_str ns @ '','' @ newline
     @ ''            service_name = '' @ debug_str name @ '','' @ newline
     @ ''        }''"

definition keeps_char :: "char \<Rightarrow> bool" where
  "keeps_char c \<longleftrightarrow> c \<noteq> CHR '' '' \<and> c \<noteq> CHR 0x0A"

definition service_query :: "string \<Rightarrow> string \<Rightarrow> string \<Rightarrow> string" where
  "service_query rec ns name = filter keeps_char (format_query rec ns name)"

section \<open>Samples\<close>

text \<open>The samples by pod: what comes later replaces what was there.\<close>

fun pod_samples :: "'w Sample list \<Rightarrow> (string \<times> 'w) list" where
  "pod_samples [] = []"
| "pod_samples (v # vs) =
     (case map_of (sample_metric v) ''pod'' of
        None \<Rightarrow> pod_samples vs
      | Some pod \<Rightarrow> (pod, sample_value v) # pod_samples vs)"

definition sample_map :: "'w Sample list \<Rightarrow> string \<Rightarrow> 'w option" where
  "sample_map vs = foldl (\<lambda>m (k, v). m(k \<mapsto> v)) (\<lambda>_. None) (pod_samples vs)"

definition pod_of :: "'w backend_api \<Rightarrow> Endpoint \<Rightarrow> string option" where
  "pod_of B item =
     Option.bind (endpoint_target B item)
       (\<lambda>target. if target_kind target = Some ''Pod'' then target_name target else None)"

definition weight_of :: "'w backend_api \<Rightarrow> (string \<Rightarrow> 'w option) \<Rightarrow> Endpoint \<Rightarrow> 'w option" where
  "weight_of B m item = Option.bind (pod_of B item) m"

section \<open>The handler\<close>

definition try_handle :: "'w backend_api \<Rightarrow> RecordArgs \<Rightarrow> Endpoint WeightRequest \<Rightarrow> string + 'w WeightResponse" where
  "try_handle B R args =
     (case meta_name (weight_metadata args) of
        None \<Rightarrow> Inl ''Empty service name''
      | Some name \<Rightarrow>
     (case meta_namespace (weight_metadata args) of
        None \<Rightarrow> Inl ''Empty service namespace''
      | Some namespace \<Rightarrow>
     (case query_data B (service_query (record_of R (weight_metadata args)) namespace name) of
        Inl e \<Rightarrow> Inl e
      | Inr None \<Rightarrow> Inl ''Invalid PromQL query data''
      | Inr (Some data) \<Rightarrow>
          Inr \<lparr>response_weights = map (weight_of B (sample_map data)) (weight_list args)\<rparr>)))"

definition post_weights :: "'w backend_api \<Rightarrow> RecordArgs \<Rightarrow> Endpoint WeightRequest \<Rightarrow> 'w HttpAnswer" where
  "post_weights B R args =
     (case try_handle B R args of Inr response \<Rightarrow> Ok200 response | Inl _ \<Rightarrow> Forbidden403 ''Err'')"

section \<open>Paths\<close>

text \<open>The loop over the slashes at the end of the base URL.\<close>

definition trim_base :: "string \<Rightarrow> string" where
  "trim_base base = rev (dropWhile (\<lambda>c. c = CHR ''/'') (rev base))"

definition weights_path :: "string \<Rightarrow> string" where
  "weights_path base = trim_base base @ ''/v1/Service''"

section \<open>The query tells services apart\<close>

definition bare_char :: "char \<Rightarrow> bool" where
  "bare_char c \<longleftrightarrow> plain_char c \<and> c \<noteq> CHR '' ''"

lemma bare_is_kept: "bare_char c \<Longrightarrow> keeps_char c"
  by (auto simp: bare_char_def keeps_char_def plain_char_def)

lemma filter_bare: "list_all bare_char s \<Longrightarrow> filter keeps_char s = s"
  by (induction s) (auto dest: bare_is_kept)

lemma bare_debug: "list_all bare_char s \<Longrightarrow> debug_str s = CHR ''\"'' # s @ ''\"''"
  using debug_plain [of s] by (simp add: debug_str_def bare_char_def list_all_iff)

lemma bare_no_quote: "list_all bare_char s \<Longrightarrow> CHR ''\"'' \<notin> set s"
  by (auto simp: list_all_iff bare_char_def plain_char_def)

lemma filter_debug: "list_all bare_char s \<Longrightarrow> filter keeps_char (debug_str s) = CHR ''\"'' # s @ ''\"''"
  by (simp add: bare_debug filter_bare) (simp add: keeps_char_def)

lemma filter_layout:
  "filter keeps_char newline = []" "filter keeps_char '','' = '',''" "filter keeps_char ''{'' = ''{''"
  "filter keeps_char ''            namespace = '' = ''namespace=''"
  "filter keeps_char ''            service_name = '' = ''service_name=''"
  "filter keeps_char ''        }'' = ''}''"
  by (simp_all add: keeps_char_def newline_def)

lemma service_query_bare:
  assumes "list_all bare_char rec" and "list_all bare_char ns" and "list_all bare_char name"
  shows "service_query rec ns name =
    rec @ ''{namespace=\"'' @ ns @ ''\",service_name=\"'' @ name @ ''\",}''"
  unfolding service_query_def format_query_def filter_append filter_layout
    filter_bare [OF assms(1)] filter_debug [OF assms(2)] filter_debug [OF assms(3)]
  by simp

lemma split_at_quote:
  "CHR ''\"'' \<notin> set a \<Longrightarrow> CHR ''\"'' \<notin> set b \<Longrightarrow>
     a @ CHR ''\"'' # u = b @ CHR ''\"'' # v \<Longrightarrow> a = b \<and> u = v"
proof (induction a arbitrary: b)
  case Nil then show ?case by (cases b) auto
next
  case (Cons x a) then show ?case by (cases b) auto
qed

lemma queries_tell_services_apart:
  assumes "list_all bare_char rec" and "list_all bare_char ns" and "list_all bare_char name"
    and "list_all bare_char ns'" and "list_all bare_char name'"
    and same: "service_query rec ns name = service_query rec ns' name'"
  shows "ns = ns' \<and> name = name'"
proof -
  from same have eq: "ns @ CHR ''\"'' # '',service_name=\"'' @ name @ ''\",}''
      = ns' @ CHR ''\"'' # '',service_name=\"'' @ name' @ ''\",}''"
    by (simp add: service_query_bare assms(1-5))
  have "ns = ns' \<and> '',service_name=\"'' @ name @ ''\",}'' = '',service_name=\"'' @ name' @ ''\",}''"
    by (rule split_at_quote [OF _ _ eq]) (rule bare_no_quote assms)+
  then show ?thesis by simp
qed

section \<open>Weights follow the samples\<close>

lemma sample_map_snoc:
  "foldl (\<lambda>m (k, v). m(k \<mapsto> v)) m0 xs = m0 ++ map_of (rev xs)"
  by (induction xs arbitrary: m0) (auto simp: map_add_def fun_eq_iff split: option.splits)

lemma sample_map_of: "sample_map vs = map_of (rev (pod_samples vs))"
  by (simp add: sample_map_def sample_map_snoc map_add_def)

lemma sample_map_unique:
  assumes "distinct (map fst (pod_samples vs))"
  shows "sample_map vs pod = Some w \<longleftrightarrow> (pod, w) \<in> set (pod_samples vs)"
  using assms by (simp add: sample_map_of rev_map [symmetric] map_of_eq_Some_iff)

lemma set_pod_samples:
  "(pod, w) \<in> set (pod_samples vs) \<longleftrightarrow>
     (\<exists>v \<in> set vs. map_of (sample_metric v) ''pod'' = Some pod \<and> sample_value v = w)"
  by (induction vs) (auto split: option.splits)

lemma try_handle_keeps_length:
  "try_handle B R args = Inr r \<Longrightarrow> length (response_weights r) = length (weight_list args)"
  by (auto simp: try_handle_def split: option.splits sum.splits)

lemma post_weights_error_hides:
  "post_weights B R args = Forbidden403 e \<Longrightarrow> e = ''Err''"
  by (auto simp: post_weights_def split: sum.splits)

lemma trim_base_idem: "trim_base (trim_base base) = trim_base base"
  by (simp add: trim_base_def dropWhile_idem)

lemma trim_base_end: "trim_base base = [] \<or> List.last (trim_base base) \<noteq> CHR ''/''"
  using hd_dropWhile [of "\<lambda>c. c = CHR ''/''" "rev base"]
  by (cases "dropWhile (\<lambda>c. c = CHR ''/'') (rev base)") (auto simp: trim_base_def)

section \<open>What the operator gets\<close>

text \<open>A source of weights answers one weight for each endpoint it was asked for.  The operator never
  has to complain about the answer of such a source.\<close>

definition serves :: "(Endpoint WeightRequest \<Rightarrow> 'w WeightResponse option) \<Rightarrow> 'w spec_api \<Rightarrow> bool" where
  "serves answer A \<longleftrightarrow> (\<forall>l url m its r. ans_weights A l (GetWeights url m its) = Inr r \<longrightarrow>
     answer \<lparr>weight_metadata = m, weight_list = its\<rparr> = Some r)"

definition backend_answer :: "'w backend_api \<Rightarrow> RecordArgs \<Rightarrow> Endpoint WeightRequest \<Rightarrow> 'w WeightResponse option" where
  "backend_answer B R args = (case post_weights B R args of Ok200 r \<Rightarrow> Some r | Forbidden403 _ \<Rightarrow> None)"

lemma class_url_error_text:
  "build_url_by_class A cls = Inl e \<Longrightarrow> e \<noteq> ''Invalid weights''"
  by (auto simp: build_url_by_class_def build_url_by_raw_def Let_def split: option.splits sum.splits)

locale weight_source =
  fixes answer :: "Endpoint WeightRequest \<Rightarrow> 'w WeightResponse option"
  assumes answer_length: "answer args = Some r \<Longrightarrow> length (response_weights r) = length (weight_list args)"
begin

lemma weighted_endpoints_match:
  assumes "serves answer A"
  shows "wp (get_weighted_endpoints A kind child cls target)
    (\<lambda>r _. r \<noteq> Inr (Inl (invalid InvalidMetricsClass ''Invalid weights'' True)) \<and>
       (\<forall>w. r = Inr (Inr w) \<longrightarrow> (\<exists>m. answer \<lparr>weight_metadata = m, weight_list = weighted_items w\<rparr> =
            Some \<lparr>response_weights = weighted_weights w\<rparr>
          \<and> meta_name m = meta_name target \<and> meta_namespace m = meta_namespace target
          \<and> meta_labels m = meta_labels child \<and> meta_name m \<noteq> None \<and> meta_namespace m \<noteq> None))) l"
proof -
  have len: "length its = length (response_weights r)"
    if "ans_weights A l' (GetWeights url m its) = Inr r" for l' url m its r
    using assms that answer_length [of "\<lparr>weight_metadata = m, weight_list = its\<rparr>" r]
    by (auto simp: serves_def)
  have same: "answer \<lparr>weight_metadata = m, weight_list = its\<rparr> = Some \<lparr>response_weights = response_weights r\<rparr>"
    if "ans_weights A l' (GetWeights url m its) = Inr r" for l' url m its r
    using assms that by (auto simp: serves_def)
  show ?thesis
    by (auto simp: get_weighted_endpoints_def get_endpoints_def eff_simps invalid_def class_url_error_text
        len same split: option.splits sum.splits intro!: exI same)
qed

end

lemma backend_answer_length:
  "backend_answer B R args = Some r \<Longrightarrow> length (response_weights r) = length (weight_list args)"
  by (auto simp: backend_answer_def post_weights_def split: sum.splits dest: try_handle_keeps_length)

interpretation backend: weight_source "backend_answer B R" for B :: "'w backend_api" and R
  by unfold_locales (rule backend_answer_length)

text \<open>What the weights should be, over the samples: \<open>labelled data p v\<close> when a sample of the pod
  \<open>p\<close> has the value \<open>v\<close>.\<close>

definition labelled :: "'w Sample list \<Rightarrow> string \<Rightarrow> 'w \<Rightarrow> bool" where
  "labelled data p v \<longleftrightarrow> (\<exists>s \<in> set data. map_of (sample_metric s) ''pod'' = Some p \<and> sample_value s = v)"

definition unambiguous :: "'w Sample list \<Rightarrow> bool" where
  "unambiguous data \<longleftrightarrow> (\<forall>p v v'. labelled data p v \<longrightarrow> labelled data p v' \<longrightarrow> v = v')"

lemma sample_map_labelled:
  assumes "unambiguous data"
  shows "sample_map data p = Some v \<longleftrightarrow> labelled data p v"
proof
  assume "sample_map data p = Some v"
  then have "(p, v) \<in> set (pod_samples data)"
    by (metis map_of_SomeD sample_map_of set_rev)
  then show "labelled data p v" by (simp add: set_pod_samples labelled_def)
next
  assume v: "labelled data p v"
  then have "(p, v) \<in> set (rev (pod_samples data))" by (simp add: set_pod_samples labelled_def)
  then obtain u where u: "sample_map data p = Some u"
    unfolding sample_map_of by (metis weak_map_of_SomeI)
  then have "(p, u) \<in> set (pod_samples data)" by (metis map_of_SomeD sample_map_of set_rev)
  then have "labelled data p u" by (simp add: set_pod_samples labelled_def)
  with v assms u show "sample_map data p = Some v" by (auto simp: unambiguous_def)
qed

definition follows_samples :: "'w backend_api \<Rightarrow> 'w Sample list \<Rightarrow> Endpoint \<Rightarrow> 'w option \<Rightarrow> bool" where
  "follows_samples B data item w \<longleftrightarrow> (\<forall>v. w = Some v \<longleftrightarrow>
     (\<exists>t p. endpoint_target B item = Some t \<and> target_kind t = Some ''Pod''
       \<and> target_name t = Some p \<and> labelled data p v))"

lemma weight_of_follows:
  "unambiguous data \<Longrightarrow> follows_samples B data item (weight_of B (sample_map data) item)"
  by (auto simp: follows_samples_def weight_of_def pod_of_def bind_eq_Some_conv sample_map_labelled
      split: if_splits)

lemma backend_answer_Some:
  assumes "backend_answer B R \<lparr>weight_metadata = m, weight_list = its\<rparr> = Some \<lparr>response_weights = ws\<rparr>"
    and "meta_name m = Some name" and "meta_namespace m = Some ns"
  shows "\<exists>data. query_data B (service_query (record_of R m) ns name) = Inr (Some data)
      \<and> ws = map (weight_of B (sample_map data)) its"
  using assms by (auto simp: backend_answer_def post_weights_def try_handle_def split: option.splits sum.splits)

text \<open>C7.
  A class whose backend is this server never gives the operator an answer of the wrong
  length.  The weights come from one query, for the name and the namespace of the target and the record
  that the labels of the child choose, and the weight of each endpoint is the sample of the pod behind
  it: none when the endpoint is not a pod or the pod has no sample.\<close>

theorem weights_are_the_samples_of_pods:
  assumes "serves (backend_answer B R) A"
    and "get_weighted_endpoints A kind child cls target l = (Inr r, l')"
    and "meta_name target = Some name" and "meta_namespace target = Some ns"
    and "list_all bare_char name" and "list_all bare_char ns" and "list_all bare_char (record_of R child)"
  shows "r \<noteq> Inl (invalid InvalidMetricsClass ''Invalid weights'' True) \<and>
    (\<forall>w. r = Inr w \<longrightarrow> (\<exists>data.
        query_data B (record_of R child @ ''{namespace=\"'' @ ns @ ''\",service_name=\"'' @ name @ ''\",}'')
          = Inr (Some data)
      \<and> length (weighted_weights w) = length (weighted_items w)
      \<and> (unambiguous data \<longrightarrow> list_all2 (follows_samples B data) (weighted_items w) (weighted_weights w))))"
proof -
  note match = backend.weighted_endpoints_match [OF assms(1), of kind child cls target l]
  have len: "r \<noteq> Inl (invalid InvalidMetricsClass ''Invalid weights'' True)"
    using match assms(2) by (simp add: wp_def)
  have "\<exists>data. query_data B (record_of R child @ ''{namespace=\"'' @ ns @ ''\",service_name=\"'' @ name @ ''\",}'')
          = Inr (Some data)
      \<and> length (weighted_weights w) = length (weighted_items w)
      \<and> (unambiguous data \<longrightarrow> list_all2 (follows_samples B data) (weighted_items w) (weighted_weights w))"
    if win: "r = Inr w" for w
  proof -
    obtain m where m: "backend_answer B R \<lparr>weight_metadata = m, weight_list = weighted_items w\<rparr> =
            Some \<lparr>response_weights = weighted_weights w\<rparr>"
        "meta_name m = Some name" "meta_namespace m = Some ns" "meta_labels m = meta_labels child"
      using match assms(2-4) win by (auto simp: wp_def)
    have rec: "record_of R m = record_of R child" using m(4) by (simp add: record_of_def label_of_def)
    obtain data where "query_data B (service_query (record_of R child) ns name) = Inr (Some data)"
        and w: "weighted_weights w = map (weight_of B (sample_map data)) (weighted_items w)"
      using backend_answer_Some [OF m(1-3)] rec by auto
    then show ?thesis
      by (intro exI [of _ data])
        (auto simp: service_query_bare [OF assms(7) assms(6) assms(5)] w list_all2_conv_all_nth weight_of_follows)
  qed
  with len show ?thesis by blast
qed

definition example_endpoint :: Endpoint where
  "example_endpoint = \<lparr>addresses = [''10.0.0.1''], endpoint_other = ''web-0''\<rparr>"

definition example_prom :: "int backend_api" where
  "example_prom = \<lparr>
     query_data = (\<lambda>q. if q = ''load{namespace=\"apps\",service_name=\"web\",}''
       then Inr (Some [\<lparr>sample_metric = [(''pod'', ''web-0'')], sample_value = 7\<rparr>]) else Inl ''no data''),
     endpoint_target = (\<lambda>e. Some \<lparr>target_kind = Some ''Pod'', target_name = Some (endpoint_other e)\<rparr>)\<rparr>"

definition example_records :: RecordArgs where
  "example_records = \<lparr>default_record_service = ''load'', label_custom_histogram_record = ''record''\<rparr>"

definition example_source :: "int spec_api" where
  "example_source = \<lparr>
     ans_unit = (\<lambda>_ _. Inr ()), ans_exists = (\<lambda>_ _. Inr False), ans_class = (\<lambda>_ _. Inr None),
     ans_pool = (\<lambda>_ _. Inr None), ans_service = (\<lambda>_ _. Inr None),
     ans_slices = (\<lambda>_ _. Inr [\<lparr>address_type = ''IPv4'', slice_endpoints = [example_endpoint],
        slice_meta = meta_default, slice_ports = None\<rparr>]),
     ans_services = (\<lambda>_ _. Inr []), ans_claims = (\<lambda>_ _. Inr []),
     ans_weights = (\<lambda>_ c. case c of
        GetWeights url m its \<Rightarrow>
          (case backend_answer example_prom example_records \<lparr>weight_metadata = m, weight_list = its\<rparr> of
             Some r \<Rightarrow> Inr r | None \<Rightarrow> Inl ''Forbidden'')
      | _ \<Rightarrow> Inl ''unknown''),
     ans_states = (\<lambda>_ _. Inl ''unknown''), ans_http = (\<lambda>_ _. Inr ()), spec_clock = (\<lambda>_. 0),
     url_parse = Inr\<rparr>"

definition example_weight_class :: MetricsClassCrd where
  "example_weight_class = \<lparr>class_meta = meta_default,
     class_spec = \<lparr>class_controller_name = ''spectrum'', class_description = [],
       class_backend_ref = \<lparr>service_object = \<lparr>ref_group = [], ref_kind = ''Service'', ref_name = ''backend'',
          ref_namespace = Some ''ark''\<rparr>, service_port = 80\<rparr>\<rparr>,
     class_status = None\<rparr>"

definition example_web :: ObjectMeta where
  "example_web = meta_default\<lparr>meta_name := Some ''web'', meta_namespace := Some ''apps''\<rparr>"

lemma example_source_serves: "serves (backend_answer example_prom example_records) example_source"
  by (auto simp: serves_def example_source_def split: option.splits)

lemma example_query: "service_query ''load'' ''apps'' ''web'' = ''load{namespace=\"apps\",service_name=\"web\",}''"
  by (simp add: service_query_bare bare_char_def plain_char_def)

lemma example_weights:
  "\<exists>l'. get_weighted_endpoints example_source ''IPv4'' meta_default example_weight_class example_web [] =
     (Inr (Inr \<lparr>weighted_items = [example_endpoint], weighted_weights = [Some 7]\<rparr>), l')"
  by (simp add: get_weighted_endpoints_def get_endpoints_def example_web_def tryE_def call_def ask_def ret_def
      example_source_def build_url_by_class_def build_url_by_raw_def example_weight_class_def Let_def
      backend_answer_def post_weights_def try_handle_def record_of_def label_of_def meta_default_def
      example_records_def example_query example_prom_def weight_of_def pod_of_def sample_map_def example_endpoint_def)

theorem weights_are_the_samples_of_pods_witness:
  "\<exists>data. query_data example_prom ''load{namespace=\"apps\",service_name=\"web\",}'' = Inr (Some data)
      \<and> (unambiguous data \<longrightarrow> list_all2 (follows_samples example_prom data) [example_endpoint] [Some 7])"
proof -
  obtain l' where run: "get_weighted_endpoints example_source ''IPv4'' meta_default example_weight_class example_web [] =
     (Inr (Inr \<lparr>weighted_items = [example_endpoint], weighted_weights = [Some 7]\<rparr>), l')"
    using example_weights by blast
  have load: "record_of example_records meta_default = ''load''"
    by (simp add: record_of_def label_of_def example_records_def meta_default_def)
  have "list_all bare_char ''web''" and "list_all bare_char ''apps''" and "list_all bare_char ''load''"
    by (simp_all add: bare_char_def plain_char_def)
  from weights_are_the_samples_of_pods [OF example_source_serves run, of "''web''" "''apps''"] this load
  show ?thesis by (simp add: example_web_def)
qed

end
