(* ===== verification/Ollama_Filter.thy ===== *)
theory Ollama_Filter
  imports Vine_Oauth
begin

text \<open>
  The filter of the gateway in front of language models
  (\<^verbatim>\<open>crates/openark-gateway-filter-ollama/src/lib.rs\<close>): it reads the name of the
  model from the body of a request and sends the client to the server of that model.  The proxy is the
  caller: it shows headers and parts of the body.  \<^verbatim>\<open>serde_json\<close> is a parameter that gives the
  name in a body, or nothing when the bytes are not such a text.
\<close>

section \<open>Data\<close>

record Config =
  models :: "(string \<times> string) list"
  passthrough :: bool

datatype Action = Continue | Pause

record Sent =
  sent_code :: nat
  sent_headers :: "(string \<times> string) list"
  sent_body :: "string option"

record Body =
  body_config :: Config
  body_path :: "string option"

definition config_default :: Config where
  "config_default = \<lparr>models = [], passthrough = False\<rparr>"

text \<open>A configuration that cannot be read counts as an empty one.\<close>

definition on_configure :: "(string \<Rightarrow> Config option) \<Rightarrow> string option \<Rightarrow> Config" where
  "on_configure parse_config data = (case Option.bind data parse_config of Some c \<Rightarrow> c | None \<Rightarrow> config_default)"

definition create_http_context :: "Config \<Rightarrow> Body" where
  "create_http_context c = \<lparr>body_config = c, body_path = None\<rparr>"

section \<open>Answers\<close>

definition redirect :: "string \<Rightarrow> Sent" where
  "redirect loc = \<lparr>sent_code = 308, sent_headers = [(''location'', loc)], sent_body = None\<rparr>"

definition error_text :: "string \<Rightarrow> string" where
  "error_text body = ''{\"error\": '' @ debug_str body @ ''}''"

definition send_error :: "nat \<Rightarrow> string \<Rightarrow> Sent" where
  "send_error code body =
     \<lparr>sent_code = code, sent_headers = [(''content-type'', ''application/json; charset=utf-8'')],
      sent_body = Some (error_text body)\<rparr>"

section \<open>Headers and body\<close>

definition on_request_headers :: "(string \<Rightarrow> string option) \<Rightarrow> Body \<Rightarrow> Action \<times> Body" where
  "on_request_headers header b =
     (Continue, if passthrough (body_config b) then b\<lparr>body_path := header '':path''\<rparr> else b)"

definition on_request_body :: "(string \<Rightarrow> string option) \<Rightarrow> string option \<Rightarrow> Body \<Rightarrow> Action \<times> Sent option \<times> Body" where
  "on_request_body parse bytes b =
     (case bytes of
        None \<Rightarrow> (Continue, None, b)
      | Some bs \<Rightarrow>
     (case parse bs of
        None \<Rightarrow> (Pause, Some (send_error 403 ''invalid body''), b)
      | Some model \<Rightarrow>
     (case bt_get (models (body_config b)) model of
        Some loc \<Rightarrow> (Pause, Some (redirect loc), b)
      | None \<Rightarrow>
          if passthrough (body_config b) then
            (case body_path b of
               Some path \<Rightarrow> (Pause, Some (redirect (path @ ''/'' @ model)), b\<lparr>body_path := None\<rparr>)
             | None \<Rightarrow> (Pause, Some (send_error 404 (''model '' @ [CHR 0x27] @ model @ [CHR 0x27] @ '' not found'')), b))
          else (Pause, Some (send_error 404 (''model '' @ [CHR 0x27] @ model @ [CHR 0x27] @ '' not found'')), b))))"

text \<open>A request: its headers, then what the proxy shows of the body, part by part, until the filter
  answers.  \<open>None\<close> means that the request went on to the server behind the proxy.\<close>

fun run_body :: "(string \<Rightarrow> string option) \<Rightarrow> string option list \<Rightarrow> Body \<Rightarrow> Sent option" where
  "run_body parse [] b = None"
| "run_body parse (p # ps) b =
     (case on_request_body parse p b of
        (Continue, _, b') \<Rightarrow> run_body parse ps b'
      | (Pause, s, _) \<Rightarrow> s)"

definition run_request :: "(string \<Rightarrow> string option) \<Rightarrow> Config \<Rightarrow> (string \<Rightarrow> string option) \<Rightarrow> string option list \<Rightarrow> Sent option" where
  "run_request parse c header parts =
     run_body parse parts (snd (on_request_headers header (create_http_context c)))"

section \<open>What a request gets\<close>

lemma empty_parts_pass: "run_body parse (None # ps) b = run_body parse ps b"
  by (simp add: on_request_body_def)

text \<open>The first part with bytes settles the request: the rest of the body is never looked at.\<close>

definition verdict :: "(string \<Rightarrow> string option) \<Rightarrow> Config \<Rightarrow> string option \<Rightarrow> string \<Rightarrow> Sent" where
  "verdict parse c path bs =
     (case parse bs of
        None \<Rightarrow> send_error 403 ''invalid body''
      | Some model \<Rightarrow>
     (case (bt_get (models c) model, passthrough c, path) of
        (Some loc, _) \<Rightarrow> redirect loc
      | (None, True, Some p) \<Rightarrow> redirect (p @ ''/'' @ model)
      | _ \<Rightarrow> send_error 404 (''model '' @ [CHR 0x27] @ model @ [CHR 0x27] @ '' not found'')))"

lemma first_part_settles:
  "run_body parse (Some bs # ps) b = Some (verdict parse (body_config b) (body_path b) bs)"
  by (simp add: on_request_body_def verdict_def split: option.splits)

lemma run_body_skips:
  "list_all (\<lambda>p. p = None) ps \<Longrightarrow> run_body parse (ps @ qs) b = run_body parse qs b"
  by (induction ps) (auto simp: on_request_body_def)

lemma request_is_settled_by_its_first_bytes:
  assumes "list_all (\<lambda>p. p = None) ps"
  shows "run_request parse c header (ps @ Some bs # qs) =
    Some (verdict parse c (if passthrough c then header '':path'' else None) bs)"
  using assms
  by (auto simp: run_request_def run_body_skips first_part_settles on_request_headers_def create_http_context_def
      simp del: run_body.simps(2))

lemma only_empty_requests_pass:
  "run_request parse c header parts = None \<longleftrightarrow> list_all (\<lambda>p. p = None) parts"
proof -
  have "run_body parse parts b = None \<longleftrightarrow> list_all (\<lambda>p. p = None) parts" for b
  proof (induction parts arbitrary: b)
    case (Cons p ps)
    then show ?case
      by (cases p) (simp_all add: empty_parts_pass first_part_settles del: run_body.simps(2))
  qed simp
  then show ?thesis by (simp add: run_request_def)
qed

text \<open>A body that arrives in parts is refused when its first part is not a complete text.\<close>

lemma split_bodies_are_refused:
  assumes "parse first = None"
  shows "run_request parse c header (Some first # rest) = Some (send_error 403 ''invalid body'')"
  using request_is_settled_by_its_first_bytes [of "[]" parse c header first rest] assms
  by (simp add: verdict_def)

lemma known_models_are_found:
  assumes "list_all (\<lambda>p. p = None) ps" and "parse bs = Some model" and "bt_get (models c) model = Some loc"
  shows "run_request parse c header (ps @ Some bs # qs) = Some (redirect loc)"
  using request_is_settled_by_its_first_bytes [OF assms(1), of parse c header bs qs] assms(2,3)
  by (simp add: verdict_def)

section \<open>Texts of errors\<close>

text \<open>The inside of a JSON string (RFC 8259): no control characters, and only the known escapes.\<close>

definition is_hex :: "char \<Rightarrow> bool" where
  "is_hex c \<longleftrightarrow> c \<in> set ''0123456789abcdefABCDEF''"

fun json_chars :: "string \<Rightarrow> bool" where
  "json_chars [] = True"
| "json_chars (c # cs) =
     (if c = CHR 0x5C then
        (case cs of
           [] \<Rightarrow> False
         | e # es \<Rightarrow>
             if e \<in> {CHR ''\"'', CHR 0x5C, CHR ''/'', CHR ''b'', CHR ''f'', CHR ''n'', CHR ''r'', CHR ''t''}
             then json_chars es
             else e = CHR ''u'' \<and> (case es of h1 # h2 # h3 # h4 # hs \<Rightarrow>
                    is_hex h1 \<and> is_hex h2 \<and> is_hex h3 \<and> is_hex h4 \<and> json_chars hs | _ \<Rightarrow> False))
      else c \<noteq> CHR ''\"'' \<and> 32 \<le> (of_char c :: nat) \<and> json_chars cs)"

definition json_safe :: "char \<Rightarrow> bool" where
  "json_safe c \<longleftrightarrow> (of_char c :: nat) \<in> {9, 10, 13} \<or> 32 \<le> (of_char c :: nat) \<and> (of_char c :: nat) \<noteq> 127"

lemma json_chars_debug:
  "json_chars (debug_char c @ s) \<longleftrightarrow> json_safe c \<and> json_chars s"
proof -
  consider "c = CHR ''\"''" | "c = CHR 0x5C" | "(of_char c :: nat) = 0" | "(of_char c :: nat) \<in> {9, 10, 13}"
    | "(of_char c :: nat) < 32 \<and> (of_char c :: nat) \<notin> {0, 9, 10, 13} \<or> (of_char c :: nat) = 127"
    | "32 \<le> (of_char c :: nat)" and "(of_char c :: nat) \<noteq> 127" and "c \<noteq> CHR ''\"''" and "c \<noteq> CHR 0x5C"
    by (metis insert_iff linorder_not_less)
  then show ?thesis
  proof cases
    case 5
    then have no: "c \<noteq> CHR ''\"''" "c \<noteq> CHR 0x5C" by auto
    have "is_hex CHR ''{'' = False" by code_simp
    then show ?thesis
      using 5 no by (auto simp: debug_char_def Let_def json_safe_def split: list.splits)
  qed (auto simp: debug_char_def json_safe_def Let_def)
qed

lemma error_texts_are_json_iff:
  "json_chars (concat (map debug_char s)) \<longleftrightarrow> list_all json_safe s"
  by (induction s) (simp_all add: json_chars_debug)

end
