(* ===== verification/Ark_Admission.thy ===== *)
theory Ark_Admission
  imports Ark_Prelude
begin

text \<open>
  The admission controller (\<^verbatim>\<open>crates/openark-admission-controller-base/src/lib.rs\<close>,
  \<^verbatim>\<open>openark-admission-controller/src/main.rs\<close>,
  \<^verbatim>\<open>openark-admission-openapi/src/lib.rs\<close>): a web hook that gives each review to a script and
  answers what the script prints.  The answers of the kube library, the text form of requests and results,
  and the process of the script are parameters.
\<close>

section \<open>Data\<close>

datatype 'p AdmissionResult = Deny (deny_message: string) | Pass | Patch (operations: 'p)

text \<open>How the kube library builds answers, and the text forms.\<close>

record ('q, 'p, 'r) review_lib =
  answer_for :: "'q \<Rightarrow> 'r"
  denied :: "'r \<Rightarrow> string \<Rightarrow> 'r"
  with_patch :: "'r \<Rightarrow> 'p \<Rightarrow> string + 'r"
  invalid_answer :: "string \<Rightarrow> 'r"
  print_request :: "'q \<Rightarrow> string + string"
  parse_result :: "string \<Rightarrow> string + 'p AdmissionResult"

text \<open>One run of the script on an input: whether it starts, what becomes of writing the input, what can
  be read until its output ends, and which of the two comes first.\<close>

record script_run =
  started :: "string + unit"
  written :: "string + unit"
  printed :: "string + string"
  writes_first :: bool

section \<open>The controller that runs a script\<close>

definition task_rx :: "('q, 'p, 'r) review_lib \<Rightarrow> script_run \<Rightarrow> string + 'p AdmissionResult" where
  "task_rx L run = (case printed run of Inl e \<Rightarrow> Inl e | Inr buf \<Rightarrow> parse_result L buf)"

text \<open>\<^verbatim>\<open>try_join!\<close> ends with the first error of the two.\<close>

definition try_join :: "bool \<Rightarrow> string + unit \<Rightarrow> string + 'a \<Rightarrow> string + 'a" where
  "try_join first_left a b =
     (case (a, b) of
        (Inr _, Inr v) \<Rightarrow> Inr v
      | (Inl e, Inr _) \<Rightarrow> Inl e
      | (Inr _, Inl e) \<Rightarrow> Inl e
      | (Inl e, Inl f) \<Rightarrow> Inl (if first_left then e else f))"

definition handle :: "('q, 'p, 'r) review_lib \<Rightarrow> (string \<Rightarrow> script_run) \<Rightarrow> 'q \<Rightarrow> string + 'r" where
  "handle L script request =
     (case print_request L request of
        Inl e \<Rightarrow> Inl e
      | Inr request_data \<Rightarrow>
     (let run = script request_data in
      case started run of
        Inl e \<Rightarrow> Inl e
      | Inr _ \<Rightarrow>
     (let response = answer_for L request in
      case try_join (writes_first run) (written run) (task_rx L run) of
        Inl e \<Rightarrow> Inl e
      | Inr result \<Rightarrow>
     (case result of
        Deny message \<Rightarrow> Inr (denied L response message)
      | Pass \<Rightarrow> Inr response
      | Patch patch \<Rightarrow> with_patch L response patch))))"

section \<open>The web hook\<close>

datatype 'r HookAnswer = BadRequest 'r | InternalServerError 'r | Ok 'r

definition index :: "('q, 'p, 'r) review_lib \<Rightarrow> ('q \<Rightarrow> string + 'r) \<Rightarrow> 'q option \<Rightarrow> 'r HookAnswer" where
  "index L controller request =
     (case request of
        None \<Rightarrow> BadRequest (invalid_answer L ''Empty request'')
      | Some request \<Rightarrow>
     (case controller request of
        Inr response \<Rightarrow> Ok response
      | Inl e \<Rightarrow> InternalServerError (invalid_answer L (''An error encountered while reviewing: '' @ e))))"

section \<open>Answers come from the script\<close>

lemma try_join_Inr: "try_join f a b = Inr v \<longleftrightarrow> (\<exists>u. a = Inr u) \<and> b = Inr v"
  by (cases a; cases b) (auto simp: try_join_def)

lemma try_join_both [simp]: "try_join f (Inr u) (Inr v) = Inr v"
  by (simp add: try_join_def)

lemma index_Ok: "index L c request = Ok response \<longleftrightarrow> (\<exists>q. request = Some q \<and> c q = Inr response)"
  by (auto simp: index_def split: option.splits sum.splits)

definition answers_result :: "('q, 'p, 'r) review_lib \<Rightarrow> 'q \<Rightarrow> 'p AdmissionResult \<Rightarrow> 'r \<Rightarrow> bool" where
  "answers_result L request result response \<longleftrightarrow>
     (case result of
        Deny message \<Rightarrow> response = denied L (answer_for L request) message
      | Pass \<Rightarrow> response = answer_for L request
      | Patch patch \<Rightarrow> with_patch L (answer_for L request) patch = Inr response)"

lemma handle_Inr_iff:
  "handle L script request = Inr response \<longleftrightarrow>
     (\<exists>text result buf. print_request L request = Inr text
      \<and> started (script text) = Inr () \<and> written (script text) = Inr ()
      \<and> printed (script text) = Inr buf \<and> parse_result L buf = Inr result
      \<and> answers_result L request result response)"
  by (auto simp: handle_def task_rx_def answers_result_def Let_def try_join_Inr
      split: sum.splits AdmissionResult.splits)

lemma ok_answers_are_the_scripts:
  "index L (handle L script) request = Ok response \<longleftrightarrow>
     (\<exists>q text result buf. request = Some q \<and> print_request L q = Inr text
      \<and> started (script text) = Inr () \<and> written (script text) = Inr ()
      \<and> printed (script text) = Inr buf \<and> parse_result L buf = Inr result
      \<and> answers_result L q result response)"
  by (auto simp: index_Ok handle_Inr_iff)

text \<open>A script that ends before it has read its input makes the review an error, whatever it prints.\<close>

lemma unread_input_is_an_error:
  assumes "print_request L q = Inr text" and "written (script text) = Inl e"
  shows "\<exists>m. index L (handle L script) (Some q) = InternalServerError (invalid_answer L m)"
proof -
  have "\<nexists>r. handle L script q = Inr r" using assms by (auto simp: handle_Inr_iff)
  then show ?thesis by (cases "handle L script q") (auto simp: index_def)
qed

text \<open>Every review is answered: an answer that is not \<open>Ok\<close> holds an invalid one.\<close>

lemma other_answers_are_invalid:
  "(\<exists>r. index L c q = Ok r) \<or> (\<exists>m. index L c q = BadRequest (invalid_answer L m))
     \<or> (\<exists>m. index L c q = InternalServerError (invalid_answer L m))"
  by (auto simp: index_def split: option.splits sum.splits)

end
