(* ===== verification/Pond_Api.thy ===== *)
theory Pond_Api
  imports Ark_Kube
begin

text \<open>
  The data of the storage driver data-pond (\<^verbatim>\<open>contrib/data-pond-csi/proto/pond.proto\<close>,
  \<^verbatim>\<open>contrib/data-pond-csi/src/lib.rs\<close>, \<^verbatim>\<open>contrib/data-pond-api/src/lib.rs\<close>,
  and the conversions of \<^verbatim>\<open>contrib/data-pond/src/volume.rs\<close>).  Sizes are
  \<^verbatim>\<open>i64\<close> and wrap as they do in a release build (\<open>wrap64\<close>).  A
  \<^verbatim>\<open>HashMap\<close> of texts is the list of its entries in key order.  Programs that turn
  values into texts and back are in the record \<open>pond_lib\<close>.
\<close>

section \<open>Status\<close>

datatype status_code =
  InvalidArgument | Unimplemented | Unavailable | Internal | Aborted | ResourceExhausted | NotFound

type_synonym Status = "status_code \<times> string"

section \<open>Devices\<close>

datatype DeviceLayer = LayerUnknown | Lvm

datatype DeviceSource = SourceUnknown | Nvme

text \<open>The child margin and the parent padding of a layer.\<close>

fun margin :: "DeviceLayer \<Rightarrow> i64" where
  "margin LayerUnknown = 0"
| "margin Lvm = 0"

fun padding :: "DeviceLayer \<Rightarrow> i64" where
  "padding LayerUnknown = 0"
| "padding Lvm = 4 * 2 ^ 20"

fun layer_str :: "DeviceLayer \<Rightarrow> string" where
  "layer_str LayerUnknown = ''unknown''"
| "layer_str Lvm = ''lvm''"

definition layer_parse :: "string \<Rightarrow> DeviceLayer option" where
  "layer_parse s = (if s = ''unknown'' then Some LayerUnknown else if s = ''lvm'' then Some Lvm else None)"

record Device =
  dev_id :: string
  dev_pond_id :: string
  dev_uid :: "string option"
  dev_layer :: i32
  dev_source :: i32
  dev_capacity :: i64

text \<open>The getters of the two enumerations: a number that is none of theirs is unknown.\<close>

definition device_layer :: "Device \<Rightarrow> DeviceLayer" where
  "device_layer d = (if dev_layer d = 1 then Lvm else LayerUnknown)"

definition device_source :: "Device \<Rightarrow> DeviceSource" where
  "device_source d = (if dev_source d = 1 then Nvme else SourceUnknown)"

definition layer_number :: "DeviceLayer \<Rightarrow> i32" where
  "layer_number l = (case l of LayerUnknown \<Rightarrow> 0 | Lvm \<Rightarrow> 1)"

definition source_number :: "DeviceSource \<Rightarrow> i32" where
  "source_number s = (case s of SourceUnknown \<Rightarrow> 0 | Nvme \<Rightarrow> 1)"

record DeviceTopology =
  topology_required :: labels
  topology_provides :: labels

record VolumeBindingMetadata =
  vb_volume_id :: string
  vb_device_id :: string
  vb_index :: i32
  vb_total :: i32
  vb_offset :: i64
  vb_reserved :: i64

record VolumeOptions =
  fs_type :: "string option"
  mount_flags :: "string list"
  mount_group :: string
  mount_shared :: bool

definition options_default :: VolumeOptions where
  "options_default = \<lparr>fs_type = None, mount_flags = [], mount_group = [], mount_shared = False\<rparr>"

record AllocateVolumeRequest =
  alloc_device_id :: string
  alloc_binding :: "VolumeBindingMetadata option"
  alloc_options :: "VolumeOptions option"
  alloc_secrets :: labels

record ListDevicesResponse =
  list_id :: string
  list_devices :: "Device list"
  list_topology :: "DeviceTopology option"
  list_bindings :: "VolumeBindingMetadata list"

section \<open>Attributes, secrets and contexts\<close>

record VolumeAttributes =
  attr_layer :: DeviceLayer
  pv_name :: "string option"
  pvc_name :: "string option"
  pvc_namespace :: "string option"
  attr_num_replicas :: "string option"

datatype VolumeSecrets = VolumeSecrets

record VolumeBindingContext =
  ctx_addr :: string
  ctx_device :: Device
  ctx_layer :: DeviceLayer
  ctx_metadata :: VolumeBindingMetadata
  ctx_source :: DeviceSource

record VolumeAllocateContext =
  allocate_binding :: VolumeBindingContext
  allocate_options :: VolumeOptions
  allocate_secrets :: VolumeSecrets

record VolumePublishControllerContext =
  publish_bindings :: "VolumeBindingContext list"
  publish_layer :: DeviceLayer

definition LABEL_BINDINGS :: string where
  "LABEL_BINDINGS = ''data-pond.csi.ulagbulag.io/bindings''"

definition LABEL_LAYER :: string where
  "LABEL_LAYER = ''data-pond.csi.ulagbulag.io/layer''"

record VolumePublishContext =
  pub_controller :: VolumePublishControllerContext
  pub_options :: VolumeOptions
  pub_read_only :: bool
  pub_secrets :: VolumeSecrets
  pub_staging_target_path :: string
  pub_target_path :: "string option"
  pub_volume_id :: string

record VolumeUnpublishContext =
  unpub_target_path :: string
  unpub_volume_id :: string

record pond_lib =
  write_bindings :: "VolumeBindingContext list \<Rightarrow> string"
  read_bindings :: "string \<Rightarrow> string + VolumeBindingContext list"
  write_layer :: "DeviceLayer \<Rightarrow> string"
  read_layer :: "string \<Rightarrow> string + DeviceLayer"
  attributes_error :: "labels \<Rightarrow> string"
  debug_nodes :: "string set \<Rightarrow> string"
  debug_text :: "string \<Rightarrow> string"

text \<open>What the code relies on: JSON texts are read back.\<close>

definition json_reads_back :: "pond_lib \<Rightarrow> bool" where
  "json_reads_back L \<longleftrightarrow> (\<forall>bs. read_bindings L (write_bindings L bs) = Inr bs)
     \<and> (\<forall>l. read_layer L (write_layer L l) = Inr l)"

section \<open>Reading and writing parameters\<close>

definition KEY_PV_NAME :: string where
  "KEY_PV_NAME = ''csi.storage.k8s.io/pv/name''"

definition KEY_PVC_NAME :: string where
  "KEY_PVC_NAME = ''csi.storage.k8s.io/pvc/name''"

definition KEY_PVC_NAMESPACE :: string where
  "KEY_PVC_NAMESPACE = ''csi.storage.k8s.io/pvc/namespace''"

definition KEY_NUM_REPLICAS :: string where
  "KEY_NUM_REPLICAS = ''org.ulagbulag.io/num-replicas''"

definition default_device_layer :: DeviceLayer where
  "default_device_layer = Lvm"

text \<open>Deserializing the attributes: the layer has to be known, the other fields are texts.\<close>

definition attributes_of :: "labels \<Rightarrow> VolumeAttributes option" where
  "attributes_of m =
     (case (case bt_get m LABEL_LAYER of None \<Rightarrow> Some default_device_layer | Some s \<Rightarrow> layer_parse s) of
        None \<Rightarrow> None
      | Some l \<Rightarrow> Some \<lparr>attr_layer = l, pv_name = bt_get m KEY_PV_NAME, pvc_name = bt_get m KEY_PVC_NAME,
          pvc_namespace = bt_get m KEY_PVC_NAMESPACE, attr_num_replicas = bt_get m KEY_NUM_REPLICAS\<rparr>)"

definition parse_attributes :: "labels \<Rightarrow> Status + VolumeAttributes" where
  "parse_attributes m =
     (case attributes_of m of
        None \<Rightarrow> Inl (InvalidArgument, ''Invalid volume attributes'')
      | Some a \<Rightarrow> Inr a)"

text \<open>From several maps: the later ones win.\<close>

definition parse_attributes_all :: "pond_lib \<Rightarrow> labels list \<Rightarrow> Status + VolumeAttributes" where
  "parse_attributes_all L ms =
     (let m = fold (\<lambda>p m. bt_append m p) ms [] in
      case attributes_of m of
        None \<Rightarrow> Inl (InvalidArgument, ''Invalid attributes: '' @ attributes_error L m)
      | Some a \<Rightarrow> Inr a)"

definition attributes_dict :: "VolumeAttributes \<Rightarrow> labels" where
  "attributes_dict a =
     bt_collect (List.map_filter id
       [Some (LABEL_LAYER, layer_str (attr_layer a)),
        map_option (\<lambda>v. (KEY_PV_NAME, v)) (pv_name a),
        map_option (\<lambda>v. (KEY_PVC_NAME, v)) (pvc_name a),
        map_option (\<lambda>v. (KEY_PVC_NAMESPACE, v)) (pvc_namespace a),
        map_option (\<lambda>v. (KEY_NUM_REPLICAS, v)) (attr_num_replicas a)])"

text \<open>The secrets have no fields, and fields that are not known are ignored.\<close>

definition parse_secrets :: "labels \<Rightarrow> Status + VolumeSecrets" where
  "parse_secrets m = Inr VolumeSecrets"

definition secrets_dict :: "VolumeSecrets \<Rightarrow> labels" where
  "secrets_dict s = []"

definition parse_controller :: "pond_lib \<Rightarrow> labels \<Rightarrow> Status + VolumePublishControllerContext" where
  "parse_controller L m =
     (case bt_get m LABEL_BINDINGS of
        None \<Rightarrow> Inl (NotFound, ''Empty bindings'')
      | Some s \<Rightarrow>
          (case read_bindings L s of
             Inl e \<Rightarrow> Inl (InvalidArgument, ''Invalid bindings: '' @ e)
           | Inr bindings \<Rightarrow>
               (case bt_get m LABEL_LAYER of
                  None \<Rightarrow> Inl (NotFound, ''Empty layer'')
                | Some s \<Rightarrow>
                    (case read_layer L s of
                       Inl e \<Rightarrow> Inl (InvalidArgument, ''Invalid layer: '' @ e)
                     | Inr layer \<Rightarrow> Inr \<lparr>publish_bindings = bindings, publish_layer = layer\<rparr>))))"

definition controller_dict :: "pond_lib \<Rightarrow> VolumePublishControllerContext \<Rightarrow> Status + labels" where
  "controller_dict L c =
     Inr (bt_insert LABEL_LAYER (write_layer L (publish_layer c))
       (bt_insert LABEL_BINDINGS (write_bindings L (publish_bindings c)) []))"

section \<open>Capabilities of a volume\<close>

datatype AccessMode =
  ModeUnknown | SingleNodeWriter | SingleNodeReaderOnly | MultiNodeReaderOnly | MultiNodeSingleWriter
| MultiNodeMultiWriter | SingleNodeSingleWriter | SingleNodeMultiWriter

datatype AccessType =
  Block
| Mount (mount_fs_type: string) (mount_type_flags: "string list") (volume_mount_group: string)

record VolumeCapability =
  access_mode :: "AccessMode option"
  access_type :: "AccessType option"

definition capability_default :: VolumeCapability where
  "capability_default = \<lparr>access_mode = None, access_type = None\<rparr>"

definition is_multi_node :: "AccessMode \<Rightarrow> bool" where
  "is_multi_node m = (case m of MultiNodeMultiWriter \<Rightarrow> True | MultiNodeReaderOnly \<Rightarrow> True
     | MultiNodeSingleWriter \<Rightarrow> True | _ \<Rightarrow> False)"

definition apply_volume_capability :: "VolumeCapability \<Rightarrow> VolumeOptions \<Rightarrow> Status + VolumeOptions" where
  "apply_volume_capability c opts =
     (let opts = (if is_some_and is_multi_node (access_mode c) then opts\<lparr>mount_shared := True\<rparr> else opts)
      in case access_type c of
           Some Block \<Rightarrow>
             if mount_shared opts
             then Inl (InvalidArgument, ''Multi node PVC is not supported as a block device access mode'')
             else Inr (opts\<lparr>fs_type := None, mount_flags := [], mount_group := []\<rparr>)
         | Some (Mount fs flags mgroup) \<Rightarrow>
             Inr ((if fs \<noteq> [] then opts\<lparr>fs_type := Some fs\<rparr> else opts)
               \<lparr>mount_flags := flags, mount_group := mgroup\<rparr>)
         | None \<Rightarrow> Inr opts)"

fun apply_volume_capabilities :: "VolumeCapability list \<Rightarrow> VolumeOptions \<Rightarrow> Status + VolumeOptions" where
  "apply_volume_capabilities [] opts = Inr opts"
| "apply_volume_capabilities (c # cs) opts =
     (case apply_volume_capability c opts of
        Inl e \<Rightarrow> Inl e
      | Inr opts \<Rightarrow> apply_volume_capabilities cs opts)"

text \<open>\<^verbatim>\<open>DefaultSettings::volume_options\<close>.\<close>

definition volume_options :: "string \<Rightarrow> VolumeOptions" where
  "volume_options default_fs_type =
     \<lparr>fs_type = Some default_fs_type, mount_flags = [], mount_group = [], mount_shared = False\<rparr>"

section \<open>Facts\<close>

lemma layer_parse_str [simp]: "layer_parse (layer_str l) = Some l"
  by (cases l) (simp_all add: layer_parse_def)

lemma controller_round_trip:
  assumes "json_reads_back L"
  shows "\<exists>m. controller_dict L c = Inr m \<and> parse_controller L m = Inr c"
  using assms
  by (simp add: controller_dict_def parse_controller_def bt_get_def LABEL_BINDINGS_def LABEL_LAYER_def
      json_reads_back_def)

lemma bt_get_attributes_dict:
  "bt_get (attributes_dict a) LABEL_LAYER = Some (layer_str (attr_layer a))"
  "bt_get (attributes_dict a) KEY_PV_NAME = pv_name a"
  "bt_get (attributes_dict a) KEY_PVC_NAME = pvc_name a"
  "bt_get (attributes_dict a) KEY_PVC_NAMESPACE = pvc_namespace a"
  "bt_get (attributes_dict a) KEY_NUM_REPLICAS = attr_num_replicas a"
  by (cases "pv_name a"; cases "pvc_name a"; cases "pvc_namespace a"; cases "attr_num_replicas a";
      simp add: attributes_dict_def bt_get_collect List.map_filter_def LABEL_LAYER_def KEY_PV_NAME_def
        KEY_PVC_NAME_def KEY_PVC_NAMESPACE_def KEY_NUM_REPLICAS_def)+

lemma attributes_round_trip: "attributes_of (attributes_dict a) = Some a"
  by (simp add: attributes_of_def bt_get_attributes_dict)

end
