(* ===== verification/Pond_Controller.thy ===== *)
theory Pond_Controller
  imports Pond_Api
begin

text \<open>
  The controller of data-pond (\<^verbatim>\<open>contrib/data-pond/src/controller.rs\<close> and the bindings of
  \<^verbatim>\<open>volume.rs\<close>): it keeps what it has reserved on the devices of the ponds, creates
  volumes as ordered lists of bindings, and records the nodes a volume is published to.  A handler
  holds the lock of the state, so that it is a function of the state; its result, a value or a status,
  comes with the state that it leaves behind.
\<close>

section \<open>State\<close>

record Pond =
  pond_addr :: string
  pond_bindings :: "VolumeBindingMetadata list"
  pond_devices :: "Device list"
  pond_id :: string
  pond_topology :: DeviceTopology

record VolumeBindingClaim =
  claim_device :: Device
  claim_metadata :: VolumeBindingMetadata
  claim_pond :: Pond

type_synonym DeviceKey = "string \<times> string"

record VolumeClaim =
  claim_bindings :: "VolumeBindingClaim list"
  claim_options :: VolumeOptions

record Volume =
  vol_claim :: VolumeClaim
  published_node_ids :: "string set"
  vol_readonly :: bool

record Ponds =
  ponds_created_at :: timestamp
  ponds_data :: "(string \<times> Pond) list"

record State =
  allocated :: "DeviceKey \<Rightarrow> i64 option"
  ponds :: Ponds
  volumes :: "(string \<times> Volume) list"

definition state_default :: State where
  "state_default = \<lparr>allocated = (\<lambda>_. None), ponds = \<lparr>ponds_created_at = 0, ponds_data = []\<rparr>, volumes = []\<rparr>"

definition claim_key :: "VolumeBindingClaim \<Rightarrow> DeviceKey" where
  "claim_key c = (pond_id (claim_pond c), dev_id (claim_device c))"

text \<open>\<^verbatim>\<open>BTreeMap::remove\<close>.\<close>

definition bt_remove :: "'k \<Rightarrow> ('k \<times> 'v) list \<Rightarrow> ('k \<times> 'v) list" where
  "bt_remove k m = filter (\<lambda>e. fst e \<noteq> k) m"

section \<open>Bindings\<close>

definition claim_padding :: "VolumeBindingClaim \<Rightarrow> i64" where
  "claim_padding c = padding (device_layer (claim_device c))"

definition available :: "VolumeBindingClaim \<Rightarrow> i64" where
  "available c = wrap64 (wrap64 (dev_capacity (claim_device c) - vb_offset (claim_metadata c)) - claim_padding c)"

definition reserve :: "i64 \<Rightarrow> VolumeBindingClaim \<Rightarrow> i64 \<times> VolumeBindingClaim" where
  "reserve remaining c =
     (let reserved = min (available c) remaining
      in (reserved, c\<lparr>claim_metadata := (claim_metadata c)\<lparr>vb_reserved := wrap64 (reserved + claim_padding c)\<rparr>\<rparr>))"

definition build_request :: "VolumeSecrets \<Rightarrow> VolumeOptions \<Rightarrow> VolumeBindingClaim \<Rightarrow> AllocateVolumeRequest" where
  "build_request secrets opts c = \<lparr>alloc_device_id = dev_id (claim_device c),
     alloc_binding = Some (claim_metadata c), alloc_options = Some opts, alloc_secrets = secrets_dict secrets\<rparr>"

section \<open>Calls\<close>

datatype pond_call =
  LookupHost string
| ListDevices string
| AllocateVolume string AllocateVolumeRequest
| DeallocateVolume string AllocateVolumeRequest

text \<open>A look-up that finds no records answers \<open>Inl None\<close>.\<close>

record pond_api =
  ans_lookup :: "pond_call list \<Rightarrow> pond_call \<Rightarrow> string option + string list"
  ans_devices :: "pond_call list \<Rightarrow> pond_call \<Rightarrow> Status + ListDevicesResponse"
  ans_allocate :: "pond_call list \<Rightarrow> pond_call \<Rightarrow> Status + unit"
  pond_clock :: "pond_call list \<Rightarrow> timestamp"

text \<open>Errors carry the state the handler leaves.\<close>

type_synonym 'a ctl = "(pond_call, Status \<times> State, 'a) eff"

definition with_state :: "State \<Rightarrow> Status + 'a \<Rightarrow> 'a ctl" where
  "with_state S r = (case r of Inl e \<Rightarrow> fail (e, S) | Inr a \<Rightarrow> ret a)"

definition asking :: "State \<Rightarrow> (pond_call list \<Rightarrow> pond_call \<Rightarrow> Status + 'a) \<Rightarrow> pond_call \<Rightarrow> 'a ctl" where
  "asking S ans c = matchE (call ans c) (\<lambda>e. fail (e, S)) ret"

record Server =
  default_fs_type :: string
  pond_host :: string
  pond_port :: u16
  pond_protocol :: string
  pond_ttl :: duration

definition new_server :: "string \<Rightarrow> Server" where
  "new_server default_fs = \<lparr>default_fs_type = default_fs, pond_host = ''plugin.hoya.svc.ops.openark'',
     pond_port = 9090, pond_protocol = ''http'', pond_ttl = seconds 30\<rparr>"

definition discover_ponds :: "pond_api \<Rightarrow> Server \<Rightarrow> State \<Rightarrow> string list ctl" where
  "discover_ponds A srv S =
     matchE (call (ans_lookup A) (LookupHost (pond_host srv)))
       (\<lambda>e. case e of None \<Rightarrow> ret [] | Some m \<Rightarrow> fail ((Internal, m), S))
       (\<lambda>records. ret records)"

definition pond_uri :: "Server \<Rightarrow> string \<Rightarrow> string" where
  "pond_uri srv record_addr =
     pond_protocol srv @ ''://'' @ record_addr @ '':'' @ word_str (pond_port srv)"

definition topology_default :: DeviceTopology where
  "topology_default = \<lparr>topology_required = [], topology_provides = []\<rparr>"

definition pond_of :: "string \<Rightarrow> ListDevicesResponse \<Rightarrow> string \<times> Pond" where
  "pond_of addr r = (list_id r, \<lparr>pond_addr = addr, pond_bindings = list_bindings r,
     pond_devices = list_devices r, pond_id = list_id r,
     pond_topology = unwrap_or topology_default (list_topology r)\<rparr>)"

primrec load_ponds :: "pond_api \<Rightarrow> Server \<Rightarrow> State \<Rightarrow> string list \<Rightarrow> (string \<times> Pond) list ctl" where
  "load_ponds A srv S [] = ret []"
| "load_ponds A srv S (r # rs) =
     tryE (asking S (ans_devices A) (ListDevices (pond_uri srv r))) (\<lambda>response.
     tryE (load_ponds A srv S rs) (\<lambda>ps. ret (pond_of r response # ps)))"

text \<open>The ponds are asked again when the answers are older than 30 seconds.\<close>

definition fetch_ponds :: "pond_api \<Rightarrow> Server \<Rightarrow> State \<Rightarrow> State ctl" where
  "fetch_ponds A srv S =
     tryE (observe (pond_clock A)) (\<lambda>now.
     if now < ponds_created_at (ponds S) + pond_ttl srv then ret S
     else
       tryE (discover_ponds A srv S) (\<lambda>records.
       tryE (load_ponds A srv S records) (\<lambda>ps.
       ret (S\<lparr>ponds := \<lparr>ponds_created_at = now, ponds_data = bt_collect ps\<rparr>\<rparr>))))"

text \<open>The server asks the ponds once before it serves.\<close>

definition start_server :: "pond_api \<Rightarrow> Server \<Rightarrow> State ctl" where
  "start_server A srv = fetch_ponds A srv state_default"

section \<open>Choosing devices\<close>

record TopologyRequirement =
  requisite :: "labels list"
  preferred :: "labels list"

record CreateVolumeRequest =
  create_name :: string
  required_capacity :: "i64 option"
  create_capabilities :: "VolumeCapability list"
  create_parameters :: labels
  create_secrets :: labels
  create_content_source :: bool
  accessibility :: "TopologyRequirement option"
  mutable_parameters :: labels

definition has_topology :: "labels \<Rightarrow> labels \<Rightarrow> bool" where
  "has_topology topology segments \<longleftrightarrow> list_all (\<lambda>(key, v). bt_get topology key = Some v) segments"

text \<open>Whether a pond may be used, and how many of the preferred topologies it has.\<close>

definition filter_topology :: "TopologyRequirement option \<Rightarrow> Pond \<Rightarrow> bool \<times> nat" where
  "filter_topology req pond =
     (let topology = topology_provides (pond_topology pond) in
      case req of
        None \<Rightarrow> (True, 0)
      | Some r \<Rightarrow> (list_ex (has_topology topology) (requisite r),
                   length (filter (has_topology topology) (preferred r))))"

definition fresh_claim :: "State \<Rightarrow> string \<Rightarrow> string \<Rightarrow> Pond \<Rightarrow> Device \<Rightarrow> VolumeBindingClaim" where
  "fresh_claim S volume_id pid pond d = \<lparr>claim_device = d,
     claim_metadata = \<lparr>vb_volume_id = volume_id, vb_device_id = dev_id d, vb_index = 0, vb_total = 0,
       vb_offset = unwrap_or 0 (allocated S (pid, dev_id d)), vb_reserved = 0\<rparr>,
     claim_pond = pond\<rparr>"

definition candidates :: "State \<Rightarrow> string \<Rightarrow> VolumeBindingClaim list" where
  "candidates S volume_id =
     concat (map (\<lambda>(pid, pond). map (fresh_claim S volume_id pid pond) (pond_devices pond))
       (ponds_data (ponds S)))"

type_synonym priority = "int \<times> int \<times> string \<times> string"

text \<open>First the ponds with more preferred topologies (\<^verbatim>\<open>!preferred\<close> of a
  \<^verbatim>\<open>usize\<close>), then the devices with more space.\<close>

definition priority_of :: "nat \<Rightarrow> VolumeBindingClaim \<Rightarrow> priority" where
  "priority_of preferred_count c =
     (2 ^ 64 - 1 - int preferred_count, wrap64 (- available c), pond_id (claim_pond c), dev_id (claim_device c))"

definition available_bindings ::
  "State \<Rightarrow> string \<Rightarrow> TopologyRequirement option \<Rightarrow> VolumeBindingClaim list" where
  "available_bindings S volume_id req =
     map snd (bt_collect (List.map_filter (\<lambda>c.
       case filter_topology req (claim_pond c) of
         (requisite_met, n) \<Rightarrow> if requisite_met then Some (priority_of n c, c) else None)
       (candidates S volume_id)))"

definition num_replicas :: "VolumeAttributes \<Rightarrow> i64" where
  "num_replicas a = max 1 (unwrap_or 1 (Option.bind (attr_num_replicas a) i64_parse))"

text \<open>Filling one replica from the devices that are left: the bindings, what they give, and the
  devices that remain for the next replica.\<close>

fun fill_replica ::
  "i64 \<Rightarrow> i64 \<Rightarrow> i64 \<Rightarrow> VolumeBindingClaim list \<Rightarrow> VolumeBindingClaim list \<times> i64 \<times> VolumeBindingClaim list" where
  "fill_replica required filled tot [] = ([], tot, [])"
| "fill_replica required filled tot (c # cs) =
     (let (reserved, c) = reserve (wrap64 (required - filled)) c;
          filled = wrap64 (filled + reserved); tot = wrap64 (tot + reserved)
      in if filled \<ge> required then ([c], tot, cs)
         else (let (out, tot, rest) = fill_replica required filled tot cs in (c # out, tot, rest)))"

primrec fill_replicas ::
  "nat \<Rightarrow> i64 \<Rightarrow> i64 \<Rightarrow> VolumeBindingClaim list \<Rightarrow> VolumeBindingClaim list \<times> i64" where
  "fill_replicas 0 required tot cs = ([], tot)"
| "fill_replicas (Suc n) required tot cs =
     (let (out, tot, rest) = fill_replica required 0 tot cs;
          (outs, tot) = fill_replicas n required tot rest
      in (out @ outs, tot))"

definition pick_bindings ::
  "i64 \<Rightarrow> VolumeAttributes \<Rightarrow> VolumeBindingClaim list \<Rightarrow> Status + VolumeBindingClaim list" where
  "pick_bindings required_bytes a cs =
     (let required = wrap64 (required_bytes + margin (attr_layer a));
          total_required = wrap64 (required * num_replicas a);
          (bindings, total_filled) = fill_replicas (nat (num_replicas a)) required 0 cs
      in if total_filled < total_required
         then Inl (ResourceExhausted, ''Out Of Capacity: expected '' @ int_str total_required
                @ '' bytes but given '' @ int_str total_filled @ '' bytes'')
         else Inr bindings)"

text \<open>The order of the bindings is stored in them.\<close>

definition number_bindings :: "VolumeBindingClaim list \<Rightarrow> VolumeBindingClaim list" where
  "number_bindings cs =
     map (\<lambda>(i, c). c\<lparr>claim_metadata := (claim_metadata c)
       \<lparr>vb_index := wrap32 (int i), vb_total := wrap32 (int (length cs))\<rparr>\<rparr>) (enumerate 0 cs)"

section \<open>Creating a volume\<close>

record CsiVolume =
  created_capacity :: i64
  created_id :: string
  created_context :: labels
  created_topology :: "labels list"

definition volume_name :: "string \<Rightarrow> string" where
  "volume_name n = ''pond_'' @ n"

definition topology_segments :: "VolumeBindingClaim list \<Rightarrow> labels" where
  "topology_segments cs = fold (\<lambda>c m. bt_append m (topology_provides (pond_topology (claim_pond c)))) cs []"

text \<open>All requests are under way at once; the first error in the order of the bindings decides.\<close>

primrec ask_all ::
  "pond_api \<Rightarrow> (VolumeBindingClaim \<Rightarrow> pond_call) \<Rightarrow> VolumeBindingClaim list \<Rightarrow> (Status + unit) ctl" where
  "ask_all A request [] = ret (Inr ())"
| "ask_all A request (c # cs) =
     matchE (call (ans_allocate A) (request c))
       (\<lambda>e. tryE (ask_all A request cs) (\<lambda>_. ret (Inl e)))
       (\<lambda>_. ask_all A request cs)"

definition allocate_claim :: "pond_api \<Rightarrow> VolumeSecrets \<Rightarrow> VolumeClaim \<Rightarrow> (Status + Volume) ctl" where
  "allocate_claim A secrets cl =
     tryE (ask_all A (\<lambda>c. AllocateVolume (pond_addr (claim_pond c)) (build_request secrets (claim_options cl) c))
       (claim_bindings cl)) (\<lambda>r.
     ret (case r of Inl e \<Rightarrow> Inl e
       | Inr _ \<Rightarrow> Inr \<lparr>vol_claim = cl, published_node_ids = {}, vol_readonly = False\<rparr>))"

definition deallocate_claim :: "pond_api \<Rightarrow> VolumeSecrets \<Rightarrow> VolumeClaim \<Rightarrow> (Status + unit) ctl" where
  "deallocate_claim A secrets cl =
     ask_all A (\<lambda>c. DeallocateVolume (pond_addr (claim_pond c)) (build_request secrets (claim_options cl) c))
       (claim_bindings cl)"

definition add_allocated ::
  "VolumeBindingClaim \<Rightarrow> (DeviceKey \<Rightarrow> i64 option) \<Rightarrow> (DeviceKey \<Rightarrow> i64 option)" where
  "add_allocated c m = m(claim_key c \<mapsto> wrap64 (unwrap_or 0 (m (claim_key c)) + vb_reserved (claim_metadata c)))"

definition sub_allocated ::
  "VolumeBindingClaim \<Rightarrow> (DeviceKey \<Rightarrow> i64 option) \<Rightarrow> (DeviceKey \<Rightarrow> i64 option)" where
  "sub_allocated c m =
     (case m (claim_key c) of
        None \<Rightarrow> m
      | Some n \<Rightarrow> m(claim_key c \<mapsto> wrap64 (n - vb_reserved (claim_metadata c))))"

definition store_volume :: "string \<Rightarrow> Volume \<Rightarrow> State \<Rightarrow> State" where
  "store_volume volume_id v S = S\<lparr>allocated := fold add_allocated (claim_bindings (vol_claim v)) (allocated S),
     volumes := bt_insert volume_id v (volumes S)\<rparr>"

definition drop_volume :: "string \<Rightarrow> Volume \<Rightarrow> State \<Rightarrow> State" where
  "drop_volume volume_id v S = S\<lparr>allocated := fold sub_allocated (claim_bindings (vol_claim v)) (allocated S),
     volumes := bt_remove volume_id (volumes S)\<rparr>"

definition create_volume ::
  "pond_lib \<Rightarrow> pond_api \<Rightarrow> Server \<Rightarrow> State \<Rightarrow> CreateVolumeRequest \<Rightarrow> (CsiVolume \<times> State) ctl" where
  "create_volume L A srv S r =
     (let volume_id = volume_name (create_name r) in
      case required_capacity r of
        None \<Rightarrow> fail ((InvalidArgument, ''missing capacity''), S)
      | Some required_bytes \<Rightarrow>
          tryE (with_state S (apply_volume_capabilities (create_capabilities r)
            (volume_options (default_fs_type srv)))) (\<lambda>opts.
          tryE (with_state S (parse_attributes_all L [create_parameters r, mutable_parameters r])) (\<lambda>attributes.
          tryE (with_state S (parse_secrets (create_secrets r))) (\<lambda>secrets.
          if create_content_source r
          then fail ((Unimplemented, ''create_volume::volume_content_source is not supported yet''), S)
          else
            tryE (fetch_ponds A srv S) (\<lambda>S.
            tryE (with_state S (pick_bindings required_bytes attributes
              (available_bindings S volume_id (accessibility r)))) (\<lambda>picked.
            let bindings = number_bindings picked; segments = topology_segments bindings in
            tryE (allocate_claim A secrets \<lparr>claim_bindings = bindings, claim_options = opts\<rparr>) (\<lambda>allocated_volume.
            case allocated_volume of
              Inl e \<Rightarrow> fail (e, S)
            | Inr v \<Rightarrow> ret (\<lparr>created_capacity = required_bytes, created_id = volume_id,
                created_context = attributes_dict attributes,
                created_topology = (if segments = [] then [] else [segments])\<rparr>,
                store_volume volume_id v S))))))))"

section \<open>Finding a volume\<close>

text \<open>The bindings the ponds report for a volume.\<close>

definition find_device :: "Pond \<Rightarrow> string \<Rightarrow> Device option" where
  "find_device pond did = List.find (\<lambda>d. dev_id d = did) (pond_devices pond)"

primrec pond_claims :: "string \<Rightarrow> Pond \<Rightarrow> VolumeBindingMetadata list \<Rightarrow> Status + VolumeBindingClaim list" where
  "pond_claims pid pond [] = Inr []"
| "pond_claims pid pond (m # ms) =
     (case find_device pond (vb_device_id m) of
        None \<Rightarrow> Inl (Internal, ''No such device: '' @ pid @ '' -> '' @ vb_device_id m)
      | Some d \<Rightarrow>
          (case pond_claims pid pond ms of
             Inl e \<Rightarrow> Inl e
           | Inr cs \<Rightarrow> Inr (\<lparr>claim_device = d, claim_metadata = m, claim_pond = pond\<rparr> # cs)))"

primrec reported_claims :: "string \<Rightarrow> (string \<times> Pond) list \<Rightarrow> Status + VolumeBindingClaim list" where
  "reported_claims volume_id [] = Inr []"
| "reported_claims volume_id (p # ps) =
     (case pond_claims (fst p) (snd p) (filter (\<lambda>m. vb_volume_id m = volume_id) (pond_bindings (snd p))) of
        Inl e \<Rightarrow> Inl e
      | Inr cs \<Rightarrow>
          (case reported_claims volume_id ps of
             Inl e \<Rightarrow> Inl e
           | Inr rest \<Rightarrow> Inr (cs @ rest)))"

definition validate_claims :: "VolumeBindingClaim list \<Rightarrow> Status + VolumeBindingClaim list" where
  "validate_claims cs =
     (if cs = [] then Inl (Unavailable, ''Volume bindings not found'')
      else
        let found = int (length cs); expected = as_usize (vb_total (claim_metadata (hd cs))) in
        if found \<noteq> expected
        then Inl (Unavailable, ''Insufficient volume bindings: expected '' @ int_str expected
               @ '', but found '' @ int_str found)
        else
          let sorted_claims = sort_key (\<lambda>c. vb_index (claim_metadata c)) cs in
          if list_ex (\<lambda>(i, c). int i \<noteq> as_usize (vb_index (claim_metadata c))) (enumerate 0 sorted_claims)
          then Inl (Internal, ''Invalid volume partition order'')
          else Inr sorted_claims)"

definition provision :: "string \<Rightarrow> VolumeOptions \<Rightarrow> State \<Rightarrow> Status + Volume" where
  "provision volume_id opts S =
     (case reported_claims volume_id (ponds_data (ponds S)) of
        Inl e \<Rightarrow> Inl e
      | Inr cs \<Rightarrow>
          (case validate_claims cs of
             Inl e \<Rightarrow> Inl e
           | Inr bindings \<Rightarrow> Inr \<lparr>vol_claim = \<lparr>claim_bindings = bindings, claim_options = opts\<rparr>,
               published_node_ids = {}, vol_readonly = False\<rparr>))"

definition get_volume :: "State \<Rightarrow> string \<Rightarrow> Volume option" where
  "get_volume S volume_id = bt_get (volumes S) volume_id"

definition set_volume :: "string \<Rightarrow> Volume \<Rightarrow> State \<Rightarrow> State" where
  "set_volume volume_id v S = S\<lparr>volumes := bt_insert volume_id v (volumes S)\<rparr>"

definition get_volume_or_provision :: "string \<Rightarrow> VolumeOptions \<Rightarrow> State \<Rightarrow> Status + Volume \<times> State" where
  "get_volume_or_provision volume_id opts S =
     (case get_volume S volume_id of
        Some v \<Rightarrow> Inr (v, S)
      | None \<Rightarrow>
          (case provision volume_id opts S of
             Inl e \<Rightarrow> Inl e
           | Inr v \<Rightarrow> Inr (v, set_volume volume_id v S)))"

section \<open>Deleting and publishing a volume\<close>

record DeleteVolumeRequest =
  delete_volume_id :: string
  delete_secrets :: labels

definition delete_volume ::
  "pond_lib \<Rightarrow> pond_api \<Rightarrow> Server \<Rightarrow> State \<Rightarrow> DeleteVolumeRequest \<Rightarrow> State ctl" where
  "delete_volume L A srv S r =
     (let volume_id = delete_volume_id r in
      tryE (with_state S (parse_secrets (delete_secrets r))) (\<lambda>secrets.
      tryE (fetch_ponds A srv S) (\<lambda>S.
      tryE (with_state S (get_volume_or_provision volume_id options_default S)) (\<lambda>(v, S).
      if published_node_ids v \<noteq> {}
      then fail ((Aborted, ''Published volume: '' @ volume_id @ '' -> '' @ debug_nodes L (published_node_ids v)), S)
      else
        tryE (deallocate_claim A secrets (vol_claim v)) (\<lambda>done.
        case done of
          Inl e \<Rightarrow> fail (e, S)
        | Inr _ \<Rightarrow> ret (drop_volume volume_id v S))))))"

record PublishVolumeRequest =
  publish_volume_id :: string
  publish_node_id :: string
  publish_capability :: "VolumeCapability option"
  publish_readonly :: bool
  publish_secrets :: labels
  publish_volume_context :: labels

text \<open>A volume that is not shared is published either for reading or for writing.\<close>

definition publish_conflict :: "string \<Rightarrow> bool \<Rightarrow> Volume \<Rightarrow> Status option" where
  "publish_conflict volume_id ro v =
     (if mount_shared (claim_options (vol_claim v)) then None
      else if \<not> ro \<and> vol_readonly v \<and> published_node_ids v \<noteq> {}
      then Some (Aborted, ''Already published volume AS ro: '' @ volume_id)
      else if ro \<and> \<not> vol_readonly v \<and> published_node_ids v \<noteq> {}
      then Some (Aborted, ''Already published volume AS rw: '' @ volume_id)
      else None)"

definition binding_context :: "VolumeBindingClaim \<Rightarrow> VolumeBindingContext" where
  "binding_context c = \<lparr>ctx_addr = pond_addr (claim_pond c), ctx_device = claim_device c,
     ctx_layer = device_layer (claim_device c), ctx_metadata = claim_metadata c,
     ctx_source = device_source (claim_device c)\<rparr>"

definition publish_node :: "string \<Rightarrow> bool \<Rightarrow> Volume \<Rightarrow> Volume" where
  "publish_node node_id ro v = v\<lparr>published_node_ids := insert node_id (published_node_ids v),
     vol_readonly := vol_readonly v \<or> ro\<rparr>"

definition controller_publish_volume ::
  "pond_lib \<Rightarrow> pond_api \<Rightarrow> Server \<Rightarrow> State \<Rightarrow> PublishVolumeRequest \<Rightarrow> (labels \<times> State) ctl" where
  "controller_publish_volume L A srv S r =
     (let volume_id = publish_volume_id r in
      tryE (with_state S (apply_volume_capability (unwrap_or capability_default (publish_capability r))
        (volume_options (default_fs_type srv)))) (\<lambda>opts.
      tryE (with_state S (parse_attributes (publish_volume_context r))) (\<lambda>attributes.
      tryE (with_state S (parse_secrets (publish_secrets r))) (\<lambda>_.
      tryE (fetch_ponds A srv S) (\<lambda>S.
      tryE (with_state S (get_volume_or_provision volume_id opts S)) (\<lambda>(v, S).
      case publish_conflict volume_id (publish_readonly r) v of
        Some e \<Rightarrow> fail (e, S)
      | None \<Rightarrow>
          tryE (with_state S (controller_dict L \<lparr>
            publish_bindings = map binding_context (claim_bindings (vol_claim v)),
            publish_layer = attr_layer attributes\<rparr>)) (\<lambda>context.
          ret (context, set_volume volume_id (publish_node (publish_node_id r) (publish_readonly r) v) S))))))))"

record UnpublishVolumeRequest =
  unpublish_volume_id :: string
  unpublish_node_id :: string
  unpublish_secrets :: labels

definition unpublish_node :: "string \<Rightarrow> Volume \<Rightarrow> Volume" where
  "unpublish_node node_id v =
     (let nodes = published_node_ids v - {node_id}
      in v\<lparr>published_node_ids := nodes, vol_readonly := vol_readonly v \<and> nodes \<noteq> {}\<rparr>)"

definition controller_unpublish_volume ::
  "pond_api \<Rightarrow> Server \<Rightarrow> State \<Rightarrow> UnpublishVolumeRequest \<Rightarrow> State ctl" where
  "controller_unpublish_volume A srv S r =
     tryE (with_state S (parse_secrets (unpublish_secrets r))) (\<lambda>_.
     tryE (fetch_ponds A srv S) (\<lambda>S.
     case get_volume S (unpublish_volume_id r) of
       None \<Rightarrow> ret S
     | Some v \<Rightarrow> ret (set_volume (unpublish_volume_id r) (unpublish_node (unpublish_node_id r) v) S)))"

text \<open>The endpoints that answer that they are not implemented, and the capabilities.\<close>

definition not_implemented :: "string \<Rightarrow> Status + 'a" where
  "not_implemented name = Inl (Unimplemented, name @ '' is not implemented yet'')"

datatype ControllerCapability =
  CreateDeleteVolume | PublishUnpublishVolume | ExpandVolume | ListVolumesPublishedNodes
| SingleNodeMultiWriterRpc

definition controller_get_capabilities :: "ControllerCapability list" where
  "controller_get_capabilities = [CreateDeleteVolume, PublishUnpublishVolume, ExpandVolume,
     ListVolumesPublishedNodes, SingleNodeMultiWriterRpc]"

end
