(* ===== verification/Pond_Node.thy ===== *)
theory Pond_Node
  imports Pond_Api
begin

text \<open>
  The daemon of data-pond on a node (\<^verbatim>\<open>contrib/data-pond/src\<close>: \<^verbatim>\<open>main.rs\<close>,
  \<^verbatim>\<open>discovery.rs\<close>, \<^verbatim>\<open>pond.rs\<close>, \<^verbatim>\<open>node.rs\<close>,
  \<^verbatim>\<open>identity.rs\<close> and the programs started by \<^verbatim>\<open>volume.rs\<close>): it finds devices and
  volumes at its start, allocates and deallocates volumes for the controller, and stages and
  publishes volumes for the kubelet.  Starting a program is a call; it answers an error or the exit
  code and what was printed.
\<close>

section \<open>Server\<close>

record DiscoveredDevice =
  found_id :: string
  found_uid :: "string option"
  found_layer :: DeviceLayer
  found_source :: DeviceSource
  found_capacity :: i64

record NodeState =
  node_bindings :: "(string \<times> VolumeBindingMetadata) list"
  node_devices :: "(string \<times> Device) list"

record NodeServer =
  srv_default_fs :: string
  driver_name :: string
  srv_layers :: "string list"
  srv_node_id :: string
  pod_ip :: IpAddr
  srv_pond_port :: u16
  srv_sources :: "string list"

definition node_topology :: "NodeServer \<Rightarrow> labels" where
  "node_topology srv = bt_insert ''kubernetes.io/hostname'' (srv_node_id srv) []"

section \<open>Programs\<close>

datatype node_call =
  Discover string
| RunAllocate string VolumeAllocateContext
| RunPublish string VolumePublishContext
| RunUnpublish string VolumeUnpublishContext

type_synonym exit_code = "int option"

record node_api =
  ans_discover :: "node_call list \<Rightarrow> node_call \<Rightarrow> error + exit_code \<times> string"
  ans_run :: "node_call list \<Rightarrow> node_call \<Rightarrow> Status + exit_code"
  parse_device :: "string \<Rightarrow> DiscoveredDevice option"
  parse_binding :: "string \<Rightarrow> VolumeBindingMetadata option"

definition exit_ok :: "exit_code \<Rightarrow> bool" where
  "exit_ok e \<longleftrightarrow> e = Some 0"

definition exit_number :: "exit_code \<Rightarrow> int" where
  "exit_number e = unwrap_or (- 1) e"

definition program :: "string \<Rightarrow> string \<Rightarrow> string" where
  "program layer kind = ''./'' @ layer @ ''-'' @ kind @ ''.sh''"

definition execute :: "node_api \<Rightarrow> string \<Rightarrow> VolumeAllocateContext \<Rightarrow> (node_call, Status, unit) eff" where
  "execute A kind c =
     (let b = allocate_binding c; layer = device_layer (ctx_device b) in
      tryE (call (ans_run A) (RunAllocate (program (layer_str layer) kind) c)) (\<lambda>e.
      if exit_ok e then ret ()
      else fail (Internal, ''Failed to '' @ kind @ '' '' @ vb_volume_id (ctx_metadata b) @ '' into ''
        @ vb_device_id (ctx_metadata b) @ '': '' @ int_str (exit_number e))))"

section \<open>Discovery\<close>

text \<open>Lines that are blank or do not parse are left out.\<close>

definition parse_lines :: "(string \<Rightarrow> 'x option) \<Rightarrow> string \<Rightarrow> 'x list" where
  "parse_lines parse text =
     List.map_filter parse (filter (\<lambda>l. l \<noteq> []) (map trim (split_on CHR 0x0A text)))"

definition sorted_names :: "string list \<Rightarrow> string list" where
  "sorted_names ns = sort (remdups ns)"

primrec discover_all ::
  "node_api \<Rightarrow> (string \<Rightarrow> string) \<Rightarrow> (string \<Rightarrow> 'x option) \<Rightarrow> string \<Rightarrow> string list \<Rightarrow>
     (node_call, error, 'x list) eff" where
  "discover_all A prog parse kind [] = ret []"
| "discover_all A prog parse kind (n # ns) =
     tryE (call (ans_discover A) (Discover (prog n))) (\<lambda>(e, text).
     if \<not> exit_ok e
     then fail (Anyhow (''Failed to discover '' @ n @ '' '' @ kind @ '': '' @ int_str (exit_number e)))
     else tryE (discover_all A prog parse kind ns) (\<lambda>rest. ret (parse_lines parse text @ rest)))"

definition found_device :: "NodeServer \<Rightarrow> DiscoveredDevice \<Rightarrow> string \<times> Device" where
  "found_device srv d = (found_id d, \<lparr>dev_id = found_id d, dev_pond_id = srv_node_id srv, dev_uid = found_uid d,
     dev_layer = layer_number (found_layer d), dev_source = source_number (found_source d),
     dev_capacity = found_capacity d\<rparr>)"

definition discover_devices :: "node_api \<Rightarrow> NodeServer \<Rightarrow> (node_call, error, (string \<times> Device) list) eff" where
  "discover_devices A srv =
     tryE (discover_all A (\<lambda>s. ''./'' @ s @ ''-source-kernel-discover.sh'') (parse_device A) ''sources''
       (sorted_names (srv_sources srv))) (\<lambda>ds.
     ret (bt_collect (map (found_device srv) ds)))"

definition discover_volumes ::
  "node_api \<Rightarrow> NodeServer \<Rightarrow> (node_call, error, (string \<times> VolumeBindingMetadata) list) eff" where
  "discover_volumes A srv =
     tryE (discover_all A (\<lambda>l. ''./'' @ l @ ''-discover.sh'') (parse_binding A) ''layers''
       (sorted_names (srv_layers srv))) (\<lambda>ms.
     ret (bt_collect (map (\<lambda>m. (vb_volume_id m, m)) ms)))"

definition discover :: "node_api \<Rightarrow> NodeServer \<Rightarrow> (node_call, error, NodeState) eff" where
  "discover A srv =
     tryE (discover_devices A srv) (\<lambda>ds.
     tryE (discover_volumes A srv) (\<lambda>bs.
     ret \<lparr>node_bindings = bs, node_devices = ds\<rparr>))"

section \<open>Requests of the controller\<close>

definition handle_pond_allocate ::
  "node_api \<Rightarrow> NodeServer \<Rightarrow> string \<Rightarrow> AllocateVolumeRequest \<Rightarrow> NodeState \<Rightarrow> (node_call, Status, NodeState) eff" where
  "handle_pond_allocate A srv kind r S =
     (case alloc_options r of
        None \<Rightarrow> fail (InvalidArgument, ''Empty options'')
      | Some opts \<Rightarrow>
          (case alloc_binding r of
             None \<Rightarrow> fail (InvalidArgument, ''Empty binding'')
           | Some binding \<Rightarrow>
               tryE (lift_result (parse_secrets (alloc_secrets r))) (\<lambda>secrets.
               case bt_get (node_devices S) (alloc_device_id r) of
                 None \<Rightarrow> fail (NotFound, ''No such device: '' @ alloc_device_id r)
               | Some d \<Rightarrow>
                   tryE (execute A kind \<lparr>allocate_binding = \<lparr>ctx_addr = ip_str (pod_ip srv), ctx_device = d,
                       ctx_layer = device_layer d, ctx_metadata = binding, ctx_source = device_source d\<rparr>,
                     allocate_options = opts, allocate_secrets = secrets\<rparr>) (\<lambda>_.
                   ret (S\<lparr>node_bindings := bt_insert (vb_volume_id binding) binding (node_bindings S)\<rparr>)))))"

definition allocate_volume ::
  "node_api \<Rightarrow> NodeServer \<Rightarrow> AllocateVolumeRequest \<Rightarrow> NodeState \<Rightarrow> (node_call, Status, NodeState) eff" where
  "allocate_volume A srv r S = handle_pond_allocate A srv ''allocate'' r S"

definition deallocate_volume ::
  "node_api \<Rightarrow> NodeServer \<Rightarrow> AllocateVolumeRequest \<Rightarrow> NodeState \<Rightarrow> (node_call, Status, NodeState) eff" where
  "deallocate_volume A srv r S = handle_pond_allocate A srv ''deallocate'' r S"

definition list_node_devices :: "NodeServer \<Rightarrow> NodeState \<Rightarrow> ListDevicesResponse" where
  "list_node_devices srv S = \<lparr>list_id = srv_node_id srv, list_devices = map snd (node_devices S),
     list_topology = Some \<lparr>topology_required = [], topology_provides = node_topology srv\<rparr>,
     list_bindings = map snd (node_bindings S)\<rparr>"

section \<open>Requests of the kubelet\<close>

record NodePublishVolumeRequest =
  np_publish_context :: labels
  np_read_only :: bool
  np_secrets :: labels
  np_staging_target_path :: string
  np_target_path :: "string option"
  np_volume_capability :: "VolumeCapability option"
  np_volume_id :: string

record CsiNodeStageVolumeRequest =
  stage_volume_id :: string
  stage_publish_context :: labels
  stage_staging_target_path :: string
  stage_volume_capability :: "VolumeCapability option"
  stage_secrets :: labels

record CsiNodePublishVolumeRequest =
  cnp_volume_id :: string
  cnp_publish_context :: labels
  cnp_staging_target_path :: string
  cnp_target_path :: string
  cnp_volume_capability :: "VolumeCapability option"
  cnp_readonly :: bool
  cnp_secrets :: labels

record NodeUnpublishVolumeRequest =
  nu_target_path :: string
  nu_volume_id :: string

definition of_stage :: "CsiNodeStageVolumeRequest \<Rightarrow> NodePublishVolumeRequest" where
  "of_stage r = \<lparr>np_publish_context = stage_publish_context r, np_read_only = False, np_secrets = stage_secrets r,
     np_staging_target_path = stage_staging_target_path r, np_target_path = None,
     np_volume_capability = stage_volume_capability r, np_volume_id = stage_volume_id r\<rparr>"

definition of_publish :: "CsiNodePublishVolumeRequest \<Rightarrow> NodePublishVolumeRequest" where
  "of_publish r = \<lparr>np_publish_context = cnp_publish_context r, np_read_only = cnp_readonly r,
     np_secrets = cnp_secrets r, np_staging_target_path = cnp_staging_target_path r,
     np_target_path = Some (cnp_target_path r), np_volume_capability = cnp_volume_capability r,
     np_volume_id = cnp_volume_id r\<rparr>"

definition of_unstage :: "string \<Rightarrow> string \<Rightarrow> NodeUnpublishVolumeRequest" where
  "of_unstage volume_id staging_target_path = \<lparr>nu_target_path = staging_target_path, nu_volume_id = volume_id\<rparr>"

definition of_unpublish :: "string \<Rightarrow> string \<Rightarrow> NodeUnpublishVolumeRequest" where
  "of_unpublish volume_id target_path = \<lparr>nu_target_path = target_path, nu_volume_id = volume_id\<rparr>"

text \<open>Each binding has to name its own device and the volume; it is allocated again, which publishes
  it.\<close>

primrec allocate_bindings ::
  "pond_lib \<Rightarrow> node_api \<Rightarrow> string \<Rightarrow> VolumeOptions \<Rightarrow> VolumeSecrets \<Rightarrow> VolumeBindingContext list \<Rightarrow>
     (node_call, Status, unit) eff" where
  "allocate_bindings L A volume_id opts secrets [] = ret ()"
| "allocate_bindings L A volume_id opts secrets (b # bs) =
     (if vb_device_id (ctx_metadata b) \<noteq> dev_id (ctx_device b)
      then fail (Internal, ''Invalid device ID: expected '' @ debug_text L (dev_id (ctx_device b))
        @ '', but given '' @ debug_text L (vb_device_id (ctx_metadata b)))
      else if vb_volume_id (ctx_metadata b) \<noteq> volume_id
      then fail (Internal, ''Invalid device volume ID ('' @ vb_device_id (ctx_metadata b) @ ''): expected ''
        @ debug_text L volume_id @ '', but given '' @ debug_text L (vb_volume_id (ctx_metadata b)))
      else
        tryE (execute A ''allocate'' \<lparr>allocate_binding = b, allocate_options = opts, allocate_secrets = secrets\<rparr>) (\<lambda>_.
        allocate_bindings L A volume_id opts secrets bs))"

definition handle_node_publish ::
  "pond_lib \<Rightarrow> node_api \<Rightarrow> NodeServer \<Rightarrow> string \<Rightarrow> NodePublishVolumeRequest \<Rightarrow> (node_call, Status, unit) eff" where
  "handle_node_publish L A srv kind r =
     tryE (lift_result (apply_volume_capability (unwrap_or capability_default (np_volume_capability r))
       (volume_options (srv_default_fs srv)))) (\<lambda>opts.
     tryE (lift_result (parse_controller L (np_publish_context r))) (\<lambda>controller.
     tryE (lift_result (parse_secrets (np_secrets r))) (\<lambda>secrets.
     tryE (allocate_bindings L A (np_volume_id r) opts secrets (publish_bindings controller)) (\<lambda>_.
     tryE (call (ans_run A) (RunPublish (program (layer_str (publish_layer controller)) kind)
       \<lparr>pub_controller = controller, pub_options = opts, pub_read_only = np_read_only r, pub_secrets = secrets,
        pub_staging_target_path = np_staging_target_path r, pub_target_path = np_target_path r,
        pub_volume_id = np_volume_id r\<rparr>)) (\<lambda>e.
     if exit_ok e then ret ()
     else fail (Internal, ''Failed to '' @ kind @ '' '' @ np_volume_id r @ '': '' @ int_str (exit_number e)))))))"

definition handle_node_unpublish ::
  "node_api \<Rightarrow> string \<Rightarrow> NodeUnpublishVolumeRequest \<Rightarrow> (node_call, Status, unit) eff" where
  "handle_node_unpublish A kind r =
     tryE (call (ans_run A) (RunUnpublish (program ''generic'' kind)
       \<lparr>unpub_target_path = nu_target_path r, unpub_volume_id = nu_volume_id r\<rparr>)) (\<lambda>e.
     if exit_ok e then ret ()
     else fail (Internal, ''Failed to '' @ kind @ '' '' @ nu_volume_id r @ '': '' @ int_str (exit_number e)))"

definition node_stage_volume ::
  "pond_lib \<Rightarrow> node_api \<Rightarrow> NodeServer \<Rightarrow> CsiNodeStageVolumeRequest \<Rightarrow> (node_call, Status, unit) eff" where
  "node_stage_volume L A srv r = handle_node_publish L A srv ''stage'' (of_stage r)"

definition node_publish_volume ::
  "pond_lib \<Rightarrow> node_api \<Rightarrow> NodeServer \<Rightarrow> CsiNodePublishVolumeRequest \<Rightarrow> (node_call, Status, unit) eff" where
  "node_publish_volume L A srv r = handle_node_publish L A srv ''publish'' (of_publish r)"

definition node_unstage_volume :: "node_api \<Rightarrow> string \<Rightarrow> string \<Rightarrow> (node_call, Status, unit) eff" where
  "node_unstage_volume A volume_id path = handle_node_unpublish A ''unstage'' (of_unstage volume_id path)"

definition node_unpublish_volume :: "node_api \<Rightarrow> string \<Rightarrow> string \<Rightarrow> (node_call, Status, unit) eff" where
  "node_unpublish_volume A volume_id path = handle_node_unpublish A ''unpublish'' (of_unpublish volume_id path)"

section \<open>What the servers tell about themselves\<close>

datatype NodeCapability =
  StageUnstageVolume | GetVolumeStats | NodeExpandVolume | VolumeCondition | NodeSingleNodeMultiWriter

definition node_get_capabilities :: "NodeCapability list" where
  "node_get_capabilities = [StageUnstageVolume, GetVolumeStats, NodeExpandVolume, VolumeCondition,
     NodeSingleNodeMultiWriter]"

record NodeInfo =
  info_node_id :: string
  max_volumes_per_node :: int
  info_topology :: labels

definition node_get_info :: "NodeServer \<Rightarrow> NodeInfo" where
  "node_get_info srv = \<lparr>info_node_id = srv_node_id srv, max_volumes_per_node = 0, info_topology = node_topology srv\<rparr>"

text \<open>The name, the version of the package, and an empty manifest.\<close>

definition get_plugin_info :: "string \<Rightarrow> NodeServer \<Rightarrow> string \<times> string \<times> labels" where
  "get_plugin_info version srv = (driver_name srv, version, [])"

definition probe :: "bool option" where
  "probe = Some True"

datatype PluginCapability = ControllerService | VolumeAccessibilityConstraints | VolumeExpansionOnline

definition get_plugin_capabilities :: "PluginCapability list" where
  "get_plugin_capabilities = [ControllerService, VolumeAccessibilityConstraints, VolumeExpansionOnline]"

end
