(* ===== verification/Pond_Example.thy ===== *)
theory Pond_Example
  imports Pond_Controller Pond_Node
begin

text \<open>
  A small cluster for data-pond: two ponds with one device each, a controller and a node, and a
  concrete text form of bindings that reads back, which shows that the hypothesis on JSON texts can
  hold.
\<close>

section \<open>Texts that read back\<close>

definition put_field :: "string \<Rightarrow> string" where
  "put_field s = replicate (length s) CHR ''1'' @ CHR ''0'' # s"

definition get_field :: "string \<Rightarrow> string \<times> string" where
  "get_field t = (let n = length (takeWhile (\<lambda>x. x = CHR ''1'') t); rest = drop (Suc n) t in (take n rest, drop n rest))"

primrec get_fields :: "nat \<Rightarrow> string \<Rightarrow> string list" where
  "get_fields 0 t = []"
| "get_fields (Suc n) t = (if t = [] then [] else let (s, rest) = get_field t in s # get_fields n rest)"

lemma takeWhile_ones: "takeWhile (\<lambda>x. x = CHR ''1'') (replicate n CHR ''1'' @ CHR ''0'' # t) = replicate n CHR ''1''"
  by (induction n) simp_all

lemma get_put_field: "get_field (put_field s @ t) = (s, t)"
proof -
  have "length (takeWhile (\<lambda>x. x = CHR ''1'') (put_field s @ t)) = length s"
    by (simp add: put_field_def takeWhile_ones)
  then show ?thesis
    by (simp add: get_field_def Let_def) (simp add: put_field_def)
qed

lemma put_field_not_empty: "put_field s @ t \<noteq> []" "length (put_field s) = Suc (length s + length s)"
  by (simp_all add: put_field_def)

lemma get_fields_put: "length ss \<le> n \<Longrightarrow> get_fields n (concat (map put_field ss)) = ss"
proof (induction ss arbitrary: n)
  case Nil
  then show ?case by (cases n) simp_all
next
  case (Cons s ss)
  then obtain m where m: "n = Suc m" "length ss \<le> m"
    by (cases n) auto
  have "put_field s @ concat (map put_field ss) \<noteq> []"
    by (rule put_field_not_empty)
  with m Cons.IH [OF m(2)] show ?case
    by (simp add: get_put_field)
qed

lemma length_put_fields: "length ss \<le> length (concat (map put_field ss))"
  by (induction ss) (simp_all add: put_field_not_empty(2))

definition int_field :: "int \<Rightarrow> string" where
  "int_field n = (if n < 0 then CHR ''-'' else CHR ''+'') # replicate (nat \<bar>n\<bar>) CHR ''1''"

definition field_int :: "string \<Rightarrow> int" where
  "field_int s = (case s of [] \<Rightarrow> 0 | x # xs \<Rightarrow> if x = CHR ''-'' then - int (length xs) else int (length xs))"

lemma field_int_field [simp]: "field_int (int_field n) = n"
  by (simp add: field_int_def int_field_def)

definition opt_field :: "string option \<Rightarrow> string" where
  "opt_field v = (case v of None \<Rightarrow> [] | Some s \<Rightarrow> CHR ''1'' # s)"

definition field_opt :: "string \<Rightarrow> string option" where
  "field_opt s = (case s of [] \<Rightarrow> None | x # xs \<Rightarrow> Some xs)"

lemma field_opt_field [simp]: "field_opt (opt_field v) = v"
  by (simp add: field_opt_def opt_field_def split: option.split)

definition layer_of_field :: "string \<Rightarrow> DeviceLayer" where
  "layer_of_field s = (if s = ''lvm'' then Lvm else LayerUnknown)"

lemma layer_of_field_str [simp]: "layer_of_field (layer_str l) = l"
  by (cases l) (simp_all add: layer_of_field_def)

definition source_of_field :: "string \<Rightarrow> DeviceSource" where
  "source_of_field s = (if s = ''+1'' then Nvme else SourceUnknown)"

lemma source_of_field_number [simp]: "source_of_field (int_field (source_number s)) = s"
  by (cases s) (simp_all add: source_of_field_def int_field_def source_number_def)

definition binding_fields :: "VolumeBindingContext \<Rightarrow> string list" where
  "binding_fields b = (let d = ctx_device b; m = ctx_metadata b in
     [ctx_addr b, dev_id d, dev_pond_id d, opt_field (dev_uid d), int_field (dev_layer d), int_field (dev_source d),
      int_field (dev_capacity d), layer_str (ctx_layer b), vb_volume_id m, vb_device_id m, int_field (vb_index m),
      int_field (vb_total m), int_field (vb_offset m), int_field (vb_reserved m), int_field (source_number (ctx_source b))])"

definition binding_of_fields :: "string list \<Rightarrow> VolumeBindingContext" where
  "binding_of_fields fs =
     \<lparr>ctx_addr = fs ! 0,
      ctx_device = \<lparr>dev_id = fs ! 1, dev_pond_id = fs ! 2, dev_uid = field_opt (fs ! 3), dev_layer = field_int (fs ! 4),
        dev_source = field_int (fs ! 5), dev_capacity = field_int (fs ! 6)\<rparr>,
      ctx_layer = layer_of_field (fs ! 7),
      ctx_metadata = \<lparr>vb_volume_id = fs ! 8, vb_device_id = fs ! 9, vb_index = field_int (fs ! 10),
        vb_total = field_int (fs ! 11), vb_offset = field_int (fs ! 12), vb_reserved = field_int (fs ! 13)\<rparr>,
      ctx_source = source_of_field (fs ! 14)\<rparr>"

primrec bindings_of_fields :: "nat \<Rightarrow> string list \<Rightarrow> VolumeBindingContext list" where
  "bindings_of_fields 0 fs = []"
| "bindings_of_fields (Suc n) fs =
     (if fs = [] then [] else binding_of_fields (take 15 fs) # bindings_of_fields n (drop 15 fs))"

lemma length_binding_fields: "length (binding_fields b) = 15"
  by (simp add: binding_fields_def Let_def)

lemma binding_of_binding_fields: "binding_of_fields (binding_fields b) = b"
  by (simp add: binding_of_fields_def binding_fields_def Let_def)

lemma bindings_of_binding_fields:
  "length bs \<le> n \<Longrightarrow> bindings_of_fields n (concat (map binding_fields bs)) = bs"
proof (induction bs arbitrary: n)
  case Nil
  then show ?case by (cases n) simp_all
next
  case (Cons b bs)
  then obtain m where m: "n = Suc m" "length bs \<le> m"
    by (cases n) auto
  have "binding_fields b \<noteq> []"
    using length_binding_fields [of b] by auto
  with m Cons.IH [OF m(2)] show ?case
    by (simp add: length_binding_fields binding_of_binding_fields)
qed

definition example_lib :: pond_lib where
  "example_lib = \<lparr>
     write_bindings = (\<lambda>bs. concat (map put_field (concat (map binding_fields bs)))),
     read_bindings = (\<lambda>t. let fs = get_fields (length t) t in Inr (bindings_of_fields (length fs) fs)),
     write_layer = layer_str,
     read_layer = (\<lambda>s. case layer_parse s of None \<Rightarrow> Inl ''unknown variant'' | Some l \<Rightarrow> Inr l),
     attributes_error = (\<lambda>_. ''unknown variant''),
     debug_nodes = (\<lambda>_. ''{..}''),
     debug_text = (\<lambda>s. s)\<rparr>"

lemma example_json_reads_back: "json_reads_back example_lib"
proof -
  have "bindings_of_fields (length (concat (map binding_fields bs))) (concat (map binding_fields bs)) = bs" for bs
    by (rule bindings_of_binding_fields) (induction bs, simp_all add: length_binding_fields)
  then show ?thesis
    by (simp add: json_reads_back_def example_lib_def Let_def get_fields_put [OF length_put_fields])
qed

section \<open>A small cluster\<close>

definition example_device :: "string \<Rightarrow> string \<Rightarrow> Device" where
  "example_device pid did = \<lparr>dev_id = did, dev_pond_id = pid, dev_uid = None, dev_layer = 0, dev_source = 1,
     dev_capacity = 10\<rparr>"

definition example_answer :: "string \<Rightarrow> ListDevicesResponse" where
  "example_answer uri =
     (if uri = ''http://10.0.0.1:9090''
      then \<lparr>list_id = ''n1'', list_devices = [example_device ''n1'' ''a''], list_topology = None, list_bindings = []\<rparr>
      else \<lparr>list_id = ''n2'', list_devices = [example_device ''n2'' ''b''], list_topology = None, list_bindings = []\<rparr>)"

text \<open>The ponds answer, all allocations succeed, and the clock stands still.\<close>

definition example_api :: "timestamp \<Rightarrow> pond_api" where
  "example_api now = \<lparr>ans_lookup = (\<lambda>_ _. Inr [''10.0.0.1'', ''10.0.0.2'']),
     ans_devices = (\<lambda>_ c. case c of ListDevices uri \<Rightarrow> Inr (example_answer uri) | _ \<Rightarrow> Inl (Internal, '''')),
     ans_allocate = (\<lambda>_ _. Inr ()),
     pond_clock = (\<lambda>_. now)\<rparr>"

definition example_server :: Server where
  "example_server = new_server ''ext4''"

text \<open>15 bytes, which need both devices.\<close>

definition example_create :: CreateVolumeRequest where
  "example_create = \<lparr>create_name = ''v'', required_capacity = Some 15, create_capabilities = [],
     create_parameters = [], create_secrets = [], create_content_source = False, accessibility = None,
     mutable_parameters = []\<rparr>"

definition example_publish :: "string \<Rightarrow> bool \<Rightarrow> PublishVolumeRequest" where
  "example_publish node ro = \<lparr>publish_volume_id = ''pond_v'', publish_node_id = node, publish_capability = None,
     publish_readonly = ro, publish_secrets = [], publish_volume_context = []\<rparr>"

definition example_attributes :: VolumeAttributes where
  "example_attributes = \<lparr>attr_layer = Lvm, pv_name = None, pvc_name = None, pvc_namespace = None, attr_num_replicas = None\<rparr>"

definition example_time :: timestamp where
  "example_time = seconds 100"

definition example_ponds :: Ponds where
  "example_ponds = \<lparr>ponds_created_at = example_time,
     ponds_data = [pond_of ''10.0.0.1'' (example_answer ''http://10.0.0.1:9090''),
       pond_of ''10.0.0.2'' (example_answer ''http://10.0.0.2:9090'')]\<rparr>"

definition example_volume :: Volume where
  "example_volume =
     (let claim = (\<lambda>i p bytes. case pond_of p (example_answer (''http://'' @ p @ '':9090'')) of (pid, pond) \<Rightarrow>
        \<lparr>claim_device = hd (pond_devices pond),
         claim_metadata = \<lparr>vb_volume_id = ''pond_v'', vb_device_id = dev_id (hd (pond_devices pond)),
           vb_index = i, vb_total = 2, vb_offset = 0, vb_reserved = bytes\<rparr>,
         claim_pond = pond\<rparr>)
      in \<lparr>vol_claim = \<lparr>claim_bindings = [claim 0 ''10.0.0.1'' 10, claim 1 ''10.0.0.2'' 5],
          claim_options = volume_options ''ext4''\<rparr>,
        published_node_ids = {}, vol_readonly = False\<rparr>)"

definition example_created :: CsiVolume where
  "example_created = \<lparr>created_capacity = 15, created_id = ''pond_v'',
     created_context = [(LABEL_LAYER, ''lvm'')], created_topology = []\<rparr>"

definition example_start :: State where
  "example_start = state_default\<lparr>ponds := example_ponds\<rparr>"

text \<open>The state after the volume has been created.\<close>

definition example_state :: State where
  "example_state = snd (projr (result_of
     (create_volume example_lib (example_api example_time) example_server example_start example_create)))"

lemma example_creates:
  "result_of (create_volume example_lib (example_api example_time) example_server example_start example_create) =
   Inr (example_created, example_state)"
proof -
  let ?r = "result_of (create_volume example_lib (example_api example_time) example_server example_start example_create)"
  have "\<not> isl ?r" "fst (projr ?r) = example_created"
    by code_simp+
  then show ?thesis
    unfolding example_state_def by (cases ?r) auto
qed

lemma example_state_simps:
  "volumes example_state = [(''pond_v'', example_volume)]"
  "ponds example_state = example_ponds"
  "allocated example_state (''n1'', ''a'') = Some 10"
  "allocated example_state (''n2'', ''b'') = Some 5"
  by code_simp+

text \<open>The volume once it is published for writing on the first node.\<close>

definition example_published :: State where
  "example_published = set_volume ''pond_v'' (publish_node ''n1'' False example_volume) example_state"

definition example_dict :: labels where
  "example_dict = fst (projr (result_of
     (controller_publish_volume example_lib (example_api example_time) example_server example_state
        (example_publish ''n1'' False))))"

lemma example_publishes:
  "\<exists>S'. result_of (controller_publish_volume example_lib (example_api example_time) example_server example_state
     (example_publish ''n1'' False)) = Inr (example_dict, S')"
proof -
  let ?r = "result_of (controller_publish_volume example_lib (example_api example_time) example_server example_state
     (example_publish ''n1'' False))"
  have "\<not> isl ?r"
    by code_simp
  then show ?thesis
    unfolding example_dict_def by (cases ?r) auto
qed

text \<open>The same ponds when each of them reports its binding, and the controller has restarted.\<close>

definition example_reporting :: "Pond \<Rightarrow> Pond" where
  "example_reporting p = p\<lparr>pond_bindings := map claim_metadata
     (filter (\<lambda>c. pond_id (claim_pond c) = pond_id p) (claim_bindings (vol_claim example_volume)))\<rparr>"

definition example_restarted :: State where
  "example_restarted = state_default\<lparr>ponds := \<lparr>ponds_created_at = example_time,
     ponds_data = map (\<lambda>(pid, p). (pid, example_reporting p)) (ponds_data example_ponds)\<rparr>\<rparr>"

text \<open>A node with one device whose programs succeed.\<close>

definition example_binding :: "string \<Rightarrow> int \<Rightarrow> VolumeBindingMetadata" where
  "example_binding did i = \<lparr>vb_volume_id = ''pond_v'', vb_device_id = did, vb_index = i, vb_total = 2, vb_offset = 0,
     vb_reserved = 5\<rparr>"

definition example_node :: node_api where
  "example_node = \<lparr>ans_discover = (\<lambda>_ _. Inr (Some 0, ''found'')),
     ans_run = (\<lambda>_ _. Inr (Some 0)),
     parse_device = (\<lambda>_. Some \<lparr>found_id = ''b'', found_uid = None, found_layer = LayerUnknown, found_source = Nvme,
       found_capacity = 10\<rparr>),
     parse_binding = (\<lambda>_. Some (example_binding ''a'' 0))\<rparr>"

definition example_node_server :: NodeServer where
  "example_node_server = \<lparr>srv_default_fs = ''ext4'', driver_name = ''data-pond.csi.ulagbulag.io'', srv_layers = [''lvm''],
     srv_node_id = ''n1'', pod_ip = V4 0, srv_pond_port = 9090, srv_sources = [''nvme'']\<rparr>"

definition example_node_state :: NodeState where
  "example_node_state = \<lparr>node_bindings = [(''pond_v'', example_binding ''a'' 0)],
     node_devices = [(''b'', \<lparr>dev_id = ''b'', dev_pond_id = ''n1'', dev_uid = None, dev_layer = 0, dev_source = 1,
       dev_capacity = 10\<rparr>)]\<rparr>"

lemma example_discovers: "result_of (discover example_node example_node_server) = Inr example_node_state"
  by code_simp

definition example_allocate :: AllocateVolumeRequest where
  "example_allocate = \<lparr>alloc_device_id = ''b'', alloc_binding = Some (example_binding ''b'' 1),
     alloc_options = Some options_default, alloc_secrets = []\<rparr>"

definition example_node_publish :: CsiNodePublishVolumeRequest where
  "example_node_publish = \<lparr>cnp_volume_id = ''pond_v'', cnp_publish_context = example_dict,
     cnp_staging_target_path = ''/staging'', cnp_target_path = ''/target'', cnp_volume_capability = None,
     cnp_readonly = False, cnp_secrets = []\<rparr>"

end
