(* ===== verification/Pond_System.thy ===== *)
theory Pond_System
  imports Pond_Example "HOL-Library.Multiset"
begin

text \<open>
  What data-pond promises: the space a volume gets, the accounting of the devices, who may publish a
  volume, what a node accepts, and what is left after a restart.
\<close>

section \<open>Filling replicas\<close>

definition contribution :: "VolumeBindingClaim \<Rightarrow> int" where
  "contribution c = vb_reserved (claim_metadata c) - claim_padding c"

definition given :: "VolumeBindingClaim list \<Rightarrow> int" where
  "given cs = sum_list (map contribution cs)"

definition space :: "VolumeBindingClaim list \<Rightarrow> int" where
  "space cs = sum_list (map (\<lambda>c. \<bar>available c\<bar>) cs)"

lemma space_simps [simp]: "space [] = 0" "space (c # cs) = \<bar>available c\<bar> + space cs"
  by (simp_all add: space_def)

lemma given_simps [simp]: "given [] = 0" "given (c # cs) = contribution c + given cs"
  by (simp_all add: given_def)

lemma given_append [simp]: "given (cs @ ds) = given cs + given ds"
  by (simp add: given_def)

lemma space_nonneg: "0 \<le> space cs"
  by (induction cs) simp_all

lemma padding_range: "0 \<le> padding l \<and> padding l \<le> 4194304"
  by (cases l) simp_all

lemma claim_padding_range: "0 \<le> claim_padding c" "claim_padding c \<le> 4194304"
  using padding_range by (simp_all add: claim_padding_def)

text \<open>Four EiB, half of the range of \<^verbatim>\<open>i64\<close>.\<close>

abbreviation lim :: int where
  "lim \<equiv> 4611686018427387904"

lemma wrap64_lim: "- (2 * lim) \<le> n \<Longrightarrow> n < 2 * lim \<Longrightarrow> wrap64 n = n"
  by (simp add: wrap64_def)

lemma reserve_exact:
  assumes "reserve remaining c = (reserved, c')" and "\<bar>available c\<bar> < lim" and "0 \<le> remaining"
  shows "reserved = min (available c) remaining \<and> contribution c' = reserved
    \<and> c' = c\<lparr>claim_metadata := (claim_metadata c)\<lparr>vb_reserved := reserved + claim_padding c\<rparr>\<rparr>"
proof -
  have res: "reserved = min (available c) remaining"
    and c': "c' = c\<lparr>claim_metadata := (claim_metadata c)\<lparr>vb_reserved := wrap64 (reserved + claim_padding c)\<rparr>\<rparr>"
    using assms(1) by (auto simp: reserve_def Let_def)
  have "wrap64 (reserved + claim_padding c) = reserved + claim_padding c"
    using res assms(2,3) claim_padding_range [of c] by (intro wrap64_lim) linarith+
  with res c' show ?thesis
    by (simp add: contribution_def claim_padding_def)
qed

text \<open>A binding that has been reserved.\<close>

definition takes :: "VolumeBindingClaim \<Rightarrow> VolumeBindingClaim \<Rightarrow> bool" where
  "takes c c' \<longleftrightarrow> (\<exists>r. c' = c\<lparr>claim_metadata := (claim_metadata c)\<lparr>vb_reserved := r + claim_padding c\<rparr>\<rparr>
     \<and> - lim < r \<and> r \<le> available c)"

text \<open>The partial sums stay in range while the space of the devices is below four EiB.\<close>

lemma fill_replica_exact:
  assumes "fill_replica required filled tot cs = (out, tot', rest)"
    and "0 \<le> required" "required < lim" "filled \<le> required" "- lim < filled - space cs" "\<bar>tot\<bar> + space cs < lim"
  shows "tot' = tot + given out \<and> filled + given out \<le> required \<and> \<bar>tot'\<bar> + space rest < lim \<and> space rest \<le> space cs
    \<and> (\<exists>done. cs = done @ rest \<and> list_all2 takes done out)"
  using assms
proof (induction cs arbitrary: filled tot out tot' rest)
  case Nil
  then show ?case by simp
next
  case (Cons c cs)
  have a: "\<bar>available c\<bar> < lim" and remaining: "wrap64 (required - filled) = required - filled"
    using Cons.prems space_nonneg [of cs] by (auto intro!: wrap64_lim)
  obtain reserved c' where res: "reserve (required - filled) c = (reserved, c')"
    by fastforce
  have "0 \<le> required - filled"
    using Cons.prems(4) by simp
  then have r: "reserved = min (available c) (required - filled)" "contribution c' = reserved"
    using reserve_exact [OF res a] by blast+
  have takes: "takes c c'"
    using reserve_exact [OF res a \<open>0 \<le> required - filled\<close>] a \<open>0 \<le> required - filled\<close>
    unfolding takes_def by (intro exI [of _ reserved]) auto
  have filled: "wrap64 (filled + reserved) = filled + reserved" and tot: "wrap64 (tot + reserved) = tot + reserved"
    using Cons.prems r(1) a space_nonneg [of cs] by (auto intro!: wrap64_lim)
  show ?case
  proof (cases "filled + reserved \<ge> required")
    case True
    then have "out = [c']" "tot' = tot + reserved" "rest = cs"
      using Cons.prems(1) by (simp_all add: remaining res filled tot Let_def)
    moreover have "\<exists>done. c # cs = done @ cs \<and> list_all2 takes done [c']"
      using takes by (intro exI [of _ "[c]"]) simp
    ultimately show ?thesis
      using r Cons.prems by auto
  next
    case False
    obtain out1 where out1: "fill_replica required (filled + reserved) (tot + reserved) cs = (out1, tot', rest)"
      "out = c' # out1"
      using False Cons.prems(1) by (auto simp: remaining res filled tot Let_def split: prod.splits)
    have IH: "tot' = tot + reserved + given out1 \<and> filled + reserved + given out1 \<le> required
        \<and> \<bar>tot'\<bar> + space rest < lim \<and> space rest \<le> space cs \<and> (\<exists>done. cs = done @ rest \<and> list_all2 takes done out1)"
      using Cons.prems r(1) False by (intro Cons.IH [OF out1(1)]) auto
    then obtain taken where "cs = taken @ rest" "list_all2 takes taken out1"
      by blast
    then have "c # cs = (c # taken) @ rest \<and> list_all2 takes (c # taken) out"
      using takes out1(2) by simp
    then show ?thesis
      using IH out1(2) r(2) by (intro conjI exI [of _ "c # taken"]) auto
  qed
qed

lemma fill_replicas_exact:
  assumes "fill_replicas n required tot cs = (out, tot')"
    and "0 \<le> required" "required < lim" "\<bar>tot\<bar> + space cs < lim" "space cs < lim"
  shows "\<exists>parts. out = concat parts \<and> length parts = n \<and> (\<forall>p\<in>set parts. given p \<le> required)
    \<and> tot' = tot + sum_list (map given parts) \<and> (\<exists>done rest. cs = done @ rest \<and> list_all2 takes done out)"
  using assms
proof (induction n arbitrary: tot cs out)
  case 0
  then show ?case by (intro exI [of _ "[]"]) simp
next
  case (Suc n)
  obtain out1 tot1 rest where one: "fill_replica required 0 tot cs = (out1, tot1, rest)"
    by (cases "fill_replica required 0 tot cs") auto
  then obtain outs where rest: "fill_replicas n required tot1 rest = (outs, tot')" "out = out1 @ outs"
    using Suc.prems(1) by (auto split: prod.splits)
  have first: "tot1 = tot + given out1" "given out1 \<le> required" "\<bar>tot1\<bar> + space rest < lim" "space rest < lim"
    using fill_replica_exact [OF one] Suc.prems by auto
  obtain taken where taken: "cs = taken @ rest" "list_all2 takes taken out1"
    using fill_replica_exact [OF one] Suc.prems by auto
  obtain parts taken' rest' where "outs = concat parts" "length parts = n" "\<forall>p\<in>set parts. given p \<le> required"
    "tot' = tot1 + sum_list (map given parts)" and taken': "rest = taken' @ rest'" "list_all2 takes taken' outs"
    using Suc.IH [OF rest(1) Suc.prems(2,3) first(3,4)] by blast
  moreover have "cs = (taken @ taken') @ rest' \<and> list_all2 takes (taken @ taken') out"
    using taken taken' rest(2) by (simp add: list_all2_appendI)
  ultimately show ?case
    using first rest(2) by (intro exI [of _ "out1 # parts"] conjI exI [of _ "taken @ taken'"] exI [of _ rest']) auto
qed

lemma sum_list_upper:
  fixes xs :: "int list"
  assumes "\<forall>x\<in>set xs. x \<le> r"
  shows "sum_list xs \<le> int (length xs) * r \<and> (sum_list xs = int (length xs) * r \<longrightarrow> (\<forall>x\<in>set xs. x = r))"
  using assms
proof (induction xs)
  case Nil
  then show ?case by simp
next
  case (Cons x xs)
  then show ?case by (auto simp: algebra_simps)
qed

lemma margin_zero [simp]: "margin l = 0"
  by (cases l) simp_all

lemma num_replicas_pos: "0 < num_replicas a"
  by (simp add: num_replicas_def)

lemma pick_bindings_fills:
  assumes "pick_bindings bytes a cs = Inr out"
    and "0 \<le> bytes" "bytes < lim" "bytes * num_replicas a < 2 * lim" "space cs < lim"
  shows "\<exists>parts. out = concat parts \<and> int (length parts) = num_replicas a \<and> (\<forall>p\<in>set parts. given p = bytes)
    \<and> (\<exists>done rest. cs = done @ rest \<and> list_all2 takes done out)"
proof -
  let ?n = "nat (num_replicas a)"
  obtain tot where tot: "fill_replicas ?n bytes 0 cs = (out, tot)" "bytes * num_replicas a \<le> tot"
  proof -
    have "0 \<le> bytes * num_replicas a"
      using assms(2) num_replicas_pos [of a] by simp
    with assms have wrap: "wrap64 bytes = bytes" "wrap64 (bytes * num_replicas a) = bytes * num_replicas a"
      by (auto intro!: wrap64_lim)
    show thesis
      using assms(1) that wrap by (auto simp: pick_bindings_def Let_def split: prod.splits if_splits)
  qed
  then obtain parts where parts: "out = concat parts" "length parts = ?n" "\<forall>p\<in>set parts. given p \<le> bytes"
    "tot = sum_list (map given parts)" and taken: "\<exists>done rest. cs = done @ rest \<and> list_all2 takes done out"
    using fill_replicas_exact [OF tot(1) assms(2,3)] assms(5) space_nonneg [of cs] by auto
  have "sum_list (map given parts) = int (length (map given parts)) * bytes"
    using tot(2) parts num_replicas_pos [of a] sum_list_upper [of "map given parts" bytes]
    by (auto simp: algebra_simps)
  then have "\<forall>p\<in>set parts. given p = bytes"
    using sum_list_upper [of "map given parts" bytes] parts(3) by auto
  with parts taken num_replicas_pos [of a] show ?thesis
    by auto
qed

text \<open>What a volume holds that has been created.\<close>

lemma wp_fail_state: "wp (with_state S r) Q l = (case r of Inl e \<Rightarrow> Q (Inl (e, S)) l | Inr a \<Rightarrow> Q (Inr a) l)"
  by (simp add: with_state_def eff_simps split: sum.splits)

definition left_with :: "('s \<Rightarrow> bool) \<Rightarrow> (Status \<times> 's) + 'a \<Rightarrow> bool" where
  "left_with P r \<longleftrightarrow> (case r of Inl x \<Rightarrow> P (snd x) | Inr _ \<Rightarrow> True)"

lemma left_with_simps [simp]: "left_with P (Inl (e, S)) = P S" "left_with P (Inr a) = True"
  by (simp_all add: left_with_def)

lemma wp_asking: "wp (asking S ans c) Q l = (case ans l c of Inl e \<Rightarrow> Q (Inl (e, S)) (l @ [c]) | Inr a \<Rightarrow> Q (Inr a) (l @ [c]))"
  by (simp add: asking_def eff_simps split: sum.split)

lemma wp_load_ponds: "wp (load_ponds A srv S rs) (\<lambda>r l'. left_with (\<lambda>S'. S' = S) r) l"
proof (induction rs arbitrary: l)
  case Nil
  then show ?case by (simp add: eff_simps)
next
  case (Cons r rs)
  have "wp (tryE (load_ponds A srv S rs) (\<lambda>ps. ret (pond_of r response # ps))) (\<lambda>r l'. left_with (\<lambda>S'. S' = S) r) l" for response l
    by (rule wp_tryE_seq [OF Cons.IH]) (auto simp: eff_simps left_with_def)
  then show ?case
    by (simp add: wp_tryE [of "asking _ _ _"] wp_asking split: sum.split)
qed

definition refetched :: "State \<Rightarrow> State \<Rightarrow> bool" where
  "refetched S S' \<longleftrightarrow> (\<exists>ps. S' = S\<lparr>ponds := ps\<rparr>)"

lemma refetched_refl [simp]: "refetched S S"
  unfolding refetched_def by (rule exI [of _ "ponds S"]) simp

lemma refetchedI [simp]: "refetched S (S\<lparr>ponds := ps\<rparr>)"
  unfolding refetched_def by blast

lemma wp_fetch_ponds:
  "wp (fetch_ponds A srv S) (\<lambda>r l'. left_with (\<lambda>S'. S' = S) r \<and> (\<forall>S'. r = Inr S' \<longrightarrow> refetched S S')) l"
proof -
  have "wp (tryE (load_ponds A srv S rs) (\<lambda>ps. ret (S\<lparr>ponds := \<lparr>ponds_created_at = now, ponds_data = bt_collect ps\<rparr>\<rparr>)))
      (\<lambda>r l'. left_with (\<lambda>S'. S' = S) r \<and> (\<forall>S'. r = Inr S' \<longrightarrow> refetched S S')) l" for rs now l
    by (rule wp_tryE_seq [OF wp_load_ponds]) (auto simp: eff_simps left_with_def)
  then show ?thesis
    by (simp add: fetch_ponds_def discover_ponds_def eff_simps split: sum.split option.split)
qed

text \<open>A volume that has been created: its bindings were picked from the devices at hand.\<close>

definition new_volume :: "VolumeOptions \<Rightarrow> VolumeBindingClaim list \<Rightarrow> Volume" where
  "new_volume opts picked = \<lparr>vol_claim = \<lparr>claim_bindings = number_bindings picked, claim_options = opts\<rparr>,
     published_node_ids = {}, vol_readonly = False\<rparr>"

definition created :: "pond_lib \<Rightarrow> State \<Rightarrow> CreateVolumeRequest \<Rightarrow> CsiVolume \<Rightarrow> State \<Rightarrow> bool" where
  "created L S r data S' \<longleftrightarrow>
     (\<exists>S1 bytes a opts picked. refetched S S1 \<and> required_capacity r = Some bytes
        \<and> parse_attributes_all L [create_parameters r, mutable_parameters r] = Inr a
        \<and> pick_bindings bytes a (available_bindings S1 (volume_name (create_name r)) (accessibility r)) = Inr picked
        \<and> created_id data = volume_name (create_name r) \<and> created_capacity data = bytes
        \<and> S' = store_volume (volume_name (create_name r)) (new_volume opts picked) S1)"

lemma wp_ask_all: "wp (ask_all A request cs) (\<lambda>r l'. \<exists>x. r = Inr x) l"
proof (induction cs arbitrary: l)
  case Nil
  then show ?case by (simp add: eff_simps)
next
  case (Cons c cs)
  have "wp (tryE (ask_all A request cs) (\<lambda>_. ret (Inl e))) (\<lambda>r l'. \<exists>x. r = Inr x) l" for l and e :: Status
    by (rule wp_tryE_seq [OF Cons.IH]) (auto simp: eff_simps)
  with Cons.IH show ?case
    by (cases "ans_allocate A l (request c)") (simp_all add: wp_matchE wp_call)
qed

lemma wp_allocate_claim:
  assumes "\<And>e l. Q (Inr (Inl e)) l"
    and "\<And>l. Q (Inr (Inr \<lparr>vol_claim = cl, published_node_ids = {}, vol_readonly = False\<rparr>)) l"
  shows "wp (allocate_claim A secrets cl) Q l"
  unfolding allocate_claim_def
proof (rule wp_tryE_seq [OF wp_ask_all])
  show "wp (ret (case r of Inl e \<Rightarrow> Inl e
      | Inr _ \<Rightarrow> Inr \<lparr>vol_claim = cl, published_node_ids = {}, vol_readonly = False\<rparr>)) Q l'" for r :: "Status + unit" and l'
    using assms by (cases r) (simp_all add: wp_ret)
qed auto

lemma wp_create_volume:
  "wp (create_volume L A srv S r)
     (\<lambda>res l'. left_with (refetched S) res \<and> (\<forall>data S'. res = Inr (data, S') \<longrightarrow> created L S r data S')) l"
proof (cases "required_capacity r")
  case None
  then show ?thesis
    by (simp add: create_volume_def eff_simps)
next
  case (Some bytes)
  let ?Q = "\<lambda>res l'. left_with (refetched S) res \<and> (\<forall>data S'. res = Inr (data, S') \<longrightarrow> created L S r data S')"
  let ?id = "volume_name (create_name r)"
  have filled: "?Q (Inr (data, store_volume ?id (new_volume opts picked) S1)) l"
    if "refetched S S1" "parse_attributes_all L [create_parameters r, mutable_parameters r] = Inr a"
      "pick_bindings bytes a (available_bindings S1 ?id (accessibility r)) = Inr picked"
      "created_id data = ?id" "created_capacity data = bytes" for S1 a picked data opts l
    using that Some unfolding created_def by auto
  have picked: "wp (tryE (with_state S1 (pick_bindings bytes a (available_bindings S1 ?id (accessibility r)))) (\<lambda>picked.
      tryE (allocate_claim A secrets \<lparr>claim_bindings = number_bindings picked, claim_options = opts\<rparr>) (\<lambda>allocated_volume.
      case allocated_volume of
        Inl e \<Rightarrow> fail (e, S1)
      | Inr v \<Rightarrow> ret (\<lparr>created_capacity = bytes, created_id = ?id, created_context = attributes_dict a,
          created_topology = (if topology_segments (number_bindings picked) = [] then []
            else [topology_segments (number_bindings picked)])\<rparr>, store_volume ?id v S1)))) ?Q l"
    if "refetched S S1" "parse_attributes_all L [create_parameters r, mutable_parameters r] = Inr a" for S1 a secrets opts l
    unfolding wp_tryE wp_fail_state
    using that filled [OF that]
    by (auto simp: wp_fail wp_ret new_volume_def intro!: wp_allocate_claim split: sum.split)
  have fetched: "wp (tryE (fetch_ponds A srv S) k) ?Q l" if "\<And>S1 l. refetched S S1 \<Longrightarrow> wp (k S1) ?Q l" for k l
    by (rule wp_tryE_seq [OF wp_fetch_ponds]) (use that in \<open>auto simp: left_with_def\<close>)
  show ?thesis
    unfolding create_volume_def Let_def Some option.case wp_tryE [of "with_state _ _"] wp_fail_state wp_if wp_fail
    by (auto simp: parse_secrets_def intro!: fetched picked split: sum.split)
qed

lemma map_number_bindings:
  assumes "\<And>c i n. f (c\<lparr>claim_metadata := (claim_metadata c)\<lparr>vb_index := i, vb_total := n\<rparr>\<rparr>) = f c"
  shows "map f (number_bindings cs) = map f cs"
  by (rule nth_equalityI) (simp_all add: number_bindings_def nth_enumerate_eq assms split_def)

lemma number_bindings_contribution: "map contribution (number_bindings cs) = map contribution cs"
  by (rule map_number_bindings) (simp add: contribution_def claim_padding_def)

lemma number_bindings_key: "map claim_key (number_bindings cs) = map claim_key cs"
  by (rule map_number_bindings) (simp add: claim_key_def)

lemma get_store_volume: "bt_sorted (volumes S) \<Longrightarrow> get_volume (store_volume i v S) i = Some v"
  by (simp add: get_volume_def store_volume_def bt_get_insert)

lemma get_volume_created:
  "get_volume (store_volume i v S) j = (if j = i then Some v else get_volume S j)"
  by (simp add: get_volume_def store_volume_def bt_get_insert)

lemma map_given: "map given parts = map sum_list (map (map contribution) parts)"
  by (simp add: given_def)

lemma available_bindings_refetched:
  "refetched S S1 \<Longrightarrow> ponds S' = ponds S1 \<Longrightarrow> available_bindings (S\<lparr>ponds := ponds S'\<rparr>) i req = available_bindings S1 i req"
  by (auto simp: refetched_def)

lemma created_from:
  assumes "created L S r data S'"
  obtains S1 bytes a opts picked where "refetched S S1" and "S1 = S\<lparr>ponds := ponds S'\<rparr>" and "required_capacity r = Some bytes"
    and "parse_attributes_all L [create_parameters r, mutable_parameters r] = Inr a"
    and "pick_bindings bytes a (available_bindings S1 (volume_name (create_name r)) (accessibility r)) = Inr picked"
    and "created_id data = volume_name (create_name r)"
    and "S' = store_volume (volume_name (create_name r)) (new_volume opts picked) S1"
  using assms unfolding created_def refetched_def by (force simp: store_volume_def)

text \<open>C13.
  A volume that is created consists of as many replicas as were asked for, each given by a stretch of
  consecutive bindings whose space, beyond the padding of the layer, is exactly the requested
  capacity.  The request has to be small enough that its total fits the 64-bit integers of the code, and the
  free space of the bindings it may take has to be below 2 to the 62 bytes.\<close>

theorem created_volume_is_filled:
  assumes "result_of (create_volume L A srv S r) = Inr (data, S')"
    and "required_capacity r = Some bytes" and "0 \<le> bytes" and "bytes < 2 ^ 62"
    and "parse_attributes_all L [create_parameters r, mutable_parameters r] = Inr a"
    and "bytes * num_replicas a < 2 ^ 63"
    and "space (available_bindings (S\<lparr>ponds := ponds S'\<rparr>) (created_id data) (accessibility r)) < 2 ^ 62"
  shows "\<exists>v parts. get_volume S' (created_id data) = Some v
    \<and> map contribution (claim_bindings (vol_claim v)) = concat parts
    \<and> int (length parts) = num_replicas a \<and> (\<forall>p\<in>set parts. sum_list p = bytes)"
proof -
  have "created L S r data S'"
    using wp_create_volume [of L A srv S r "[]"] assms(1) by (simp add: wp_result)
  then obtain S1 bytes' a' opts picked where S1: "S1 = S\<lparr>ponds := ponds S'\<rparr>"
    and req: "required_capacity r = Some bytes'"
      "parse_attributes_all L [create_parameters r, mutable_parameters r] = Inr a'"
    and picked: "pick_bindings bytes' a' (available_bindings S1 (volume_name (create_name r)) (accessibility r)) = Inr picked"
    and i: "created_id data = volume_name (create_name r)"
    and S': "S' = store_volume (volume_name (create_name r)) (new_volume opts picked) S1"
    by (rule created_from)
  have req: "bytes' = bytes" "a' = a"
    using req assms(2,5) by simp_all
  obtain parts where parts: "picked = concat parts" "int (length parts) = num_replicas a" "\<forall>p\<in>set parts. given p = bytes"
    using pick_bindings_fills [OF picked [unfolded req] assms(3)] assms(4,6) assms(7) [unfolded i, folded S1]
    by auto
  have "map contribution (claim_bindings (vol_claim (new_volume opts picked))) = concat (map (map contribution) parts)"
    by (simp add: new_volume_def number_bindings_contribution parts(1) map_concat)
  moreover have "get_volume S' (created_id data) = Some (new_volume opts picked)"
    unfolding S' i by (simp add: get_volume_created)
  ultimately show ?thesis
    using parts(2,3) by (intro exI [of _ "new_volume opts picked"] exI [of _ "map (map contribution) parts"])
      (auto simp: given_def)
qed

theorem created_volume_is_filled_witness:
  "\<exists>v parts. get_volume example_state ''pond_v'' = Some v
    \<and> map contribution (claim_bindings (vol_claim v)) = concat parts
    \<and> int (length parts) = 1 \<and> list_all (\<lambda>p. sum_list p = 15) parts"
proof -
  have "space (available_bindings (example_start\<lparr>ponds := ponds example_state\<rparr>) (created_id example_created)
      (accessibility example_create)) < 2 ^ 62"
    by (simp only: example_state_simps) code_simp
  moreover have "parse_attributes_all example_lib [create_parameters example_create, mutable_parameters example_create] =
      Inr example_attributes"
    by code_simp
  ultimately show ?thesis
    using created_volume_is_filled [OF example_creates, of 15 example_attributes]
    by (simp add: example_create_def example_attributes_def num_replicas_def example_created_def list_all_iff)
qed

section \<open>Accounting\<close>

text \<open>What the ponds guarantee: each is listed once, under its own name, and so are its devices.\<close>

definition ponds_ok :: "(string \<times> Pond) list \<Rightarrow> bool" where
  "ponds_ok ps \<longleftrightarrow> distinct (map fst ps)
     \<and> (\<forall>(pid, p)\<in>set ps. pond_id p = pid \<and> distinct (map dev_id (pond_devices p)))"

definition device_keys :: "(string \<times> Pond) list \<Rightarrow> DeviceKey list" where
  "device_keys ps = concat (map (\<lambda>(pid, p). map (\<lambda>d. (pid, dev_id d)) (pond_devices p)) ps)"

lemma set_device_keys: "k \<in> set (device_keys ps) \<Longrightarrow> fst k \<in> fst ` set ps"
  by (force simp: device_keys_def)

lemma distinct_device_keys: "ponds_ok ps \<Longrightarrow> distinct (device_keys ps)"
proof (induction ps)
  case Nil
  then show ?case by (simp add: device_keys_def)
next
  case (Cons e ps)
  obtain pid p where e: "e = (pid, p)"
    by fastforce
  have ok: "ponds_ok ps" "pid \<notin> fst ` set ps" "distinct (map dev_id (pond_devices p))"
    using Cons.prems by (auto simp: ponds_ok_def e)
  have "distinct (map (\<lambda>d. (pid, dev_id d)) (pond_devices p))"
    using ok(3) by (simp add: distinct_map inj_on_def)
  moreover have "set (map (\<lambda>d. (pid, dev_id d)) (pond_devices p)) \<inter> set (device_keys ps) = {}"
    using ok(2) set_device_keys [of _ ps] by auto
  ultimately show ?case
    using Cons.IH [OF ok(1)] by (simp add: device_keys_def e)
qed

lemma candidates_keys:
  assumes "ponds_ok (ponds_data (ponds S))"
  shows "map claim_key (candidates S i) = device_keys (ponds_data (ponds S))"
proof -
  have "map claim_key (concat (map (\<lambda>(pid, p). map (fresh_claim S i pid p) (pond_devices p)) ps)) = device_keys ps"
    if "ponds_ok ps" for ps
    using that
    by (induction ps) (auto simp: device_keys_def ponds_ok_def claim_key_def fresh_claim_def)
  then show ?thesis
    using assms by (simp add: candidates_def)
qed

definition claim_priority :: "TopologyRequirement option \<Rightarrow> VolumeBindingClaim \<Rightarrow> priority" where
  "claim_priority req c = priority_of (snd (filter_topology req (claim_pond c))) c"

lemma available_entries:
  "List.map_filter (\<lambda>c. case filter_topology req (claim_pond c) of
      (requisite_met, n) \<Rightarrow> if requisite_met then Some (priority_of n c, c) else None) cs =
   map (\<lambda>c. (claim_priority req c, c)) (filter (\<lambda>c. fst (filter_topology req (claim_pond c))) cs)"
  by (induction cs) (simp_all add: List.map_filter_simps claim_priority_def split_def)

lemma set_bt_collect: "set (bt_collect es) \<subseteq> set es"
  using bt.entries_collect_subset [of es] by (simp add: bt_collect_eq)

lemma available_bindings_in: "set (available_bindings S i req) \<subseteq> set (candidates S i)"
  unfolding available_bindings_def available_entries using set_bt_collect by fastforce

lemma distinct_available:
  assumes "ponds_ok (ponds_data (ponds S))"
  shows "distinct (map claim_key (available_bindings S i req))"
proof -
  define es where "es = map (\<lambda>c. (claim_priority req c, c))
    (filter (\<lambda>c. fst (filter_topology req (claim_pond c))) (candidates S i))"
  have entry: "e \<in> set (bt_collect es) \<Longrightarrow> snd e \<in> set (candidates S i) \<and> fst e = claim_priority req (snd e)" for e
    using set_bt_collect [of es] by (auto simp: es_def)
  have "distinct (map claim_key (candidates S i))"
    using distinct_device_keys [OF assms] by (simp add: candidates_keys [OF assms])
  then have "inj_on claim_key (set (candidates S i))"
    by (simp add: distinct_map)
  then have inj: "inj_on claim_key (set (candidates S i))"
    by (simp add: distinct_map)
  have "inj_on (claim_key \<circ> snd) (set (bt_collect es))"
  proof (rule inj_onI)
    fix d e assume "d \<in> set (bt_collect es)" "e \<in> set (bt_collect es)" "(claim_key \<circ> snd) d = (claim_key \<circ> snd) e"
    with entry [of d] entry [of e] inj have "snd d = snd e" "fst d = fst e"
      by (auto dest: inj_onD)
    then show "d = e" by (rule prod_eqI [rotated])
  qed
  moreover have "distinct (bt_collect es)"
    using bt.distinct_entries [OF bt.inv_collect, of es] unfolding bt_collect_eq by (simp add: distinct_map)
  ultimately have "distinct (map (claim_key \<circ> snd) (bt_collect es))"
    by (simp add: distinct_map)
  then show ?thesis
    by (simp add: available_bindings_def available_entries es_def)
qed

lemma takes_keys: "list_all2 takes cs ds \<Longrightarrow> map claim_key ds = map claim_key cs"
  by (induction rule: list_all2_induct) (auto simp: takes_def claim_key_def)

lemma fold_add_other: "k \<notin> claim_key ` set cs \<Longrightarrow> fold add_allocated cs m k = m k"
  by (induction cs arbitrary: m) (auto simp: add_allocated_def)

lemma fold_add_allocated:
  assumes "distinct (map claim_key cs)" and "c \<in> set cs"
  shows "fold add_allocated cs m (claim_key c) =
    Some (wrap64 (unwrap_or 0 (m (claim_key c)) + vb_reserved (claim_metadata c)))"
  using assms
proof (induction cs arbitrary: m)
  case Nil
  then show ?case by simp
next
  case (Cons d ds)
  show ?case
  proof (cases "c \<in> set ds")
    case True
    with Cons.prems have "claim_key d \<noteq> claim_key c"
      by auto
    with True Cons show ?thesis
      by (simp add: add_allocated_def)
  next
    case False
    with Cons.prems have "c = d" "claim_key c \<notin> claim_key ` set ds"
      by auto
    then show ?thesis
      by (simp add: fold_add_other) (simp add: add_allocated_def)
  qed
qed

text \<open>Sizes that do not wrap.\<close>

definition sizes_ok :: "State \<Rightarrow> bool" where
  "sizes_ok S \<longleftrightarrow> (\<forall>(pid, p)\<in>set (ponds_data (ponds S)). \<forall>d\<in>set (pond_devices p).
     0 \<le> dev_capacity d \<and> dev_capacity d < 2 ^ 61 \<and> \<bar>unwrap_or 0 (allocated S (pid, dev_id d))\<bar> < 2 ^ 61)"

lemma candidate_facts:
  assumes "ponds_ok (ponds_data (ponds S))" and "sizes_ok S" and "c \<in> set (candidates S i)"
  shows "vb_offset (claim_metadata c) = unwrap_or 0 (allocated S (claim_key c))"
    and "available c = dev_capacity (claim_device c) - vb_offset (claim_metadata c) - claim_padding c"
    and "\<bar>vb_offset (claim_metadata c)\<bar> < 2 ^ 61" and "dev_capacity (claim_device c) < 2 ^ 61"
    and "vb_device_id (claim_metadata c) = dev_id (claim_device c)" and "vb_volume_id (claim_metadata c) = i"
proof -
  obtain pid p d where c: "(pid, p) \<in> set (ponds_data (ponds S))" "d \<in> set (pond_devices p)" "c = fresh_claim S i pid p d"
    using assms(3) by (auto simp: candidates_def)
  have pid: "pond_id p = pid" and cap: "0 \<le> dev_capacity d" "dev_capacity d < 2 ^ 61"
    and off: "\<bar>unwrap_or 0 (allocated S (pid, dev_id d))\<bar> < 2 ^ 61"
    using assms(1,2) c(1,2) by (auto simp: ponds_ok_def sizes_ok_def)
  have "wrap64 (dev_capacity d - unwrap_or 0 (allocated S (pid, dev_id d))) =
      dev_capacity d - unwrap_or 0 (allocated S (pid, dev_id d))"
    using cap off by (intro wrap64_id) auto
  moreover have "wrap64 (dev_capacity d - unwrap_or 0 (allocated S (pid, dev_id d)) - claim_padding c) =
      dev_capacity d - unwrap_or 0 (allocated S (pid, dev_id d)) - claim_padding c"
    using cap off claim_padding_range [of c] by (intro wrap64_id) auto
  ultimately show "available c = dev_capacity (claim_device c) - vb_offset (claim_metadata c) - claim_padding c"
    by (simp add: available_def c(3) fresh_claim_def)
  show "vb_offset (claim_metadata c) = unwrap_or 0 (allocated S (claim_key c))"
    and "\<bar>vb_offset (claim_metadata c)\<bar> < 2 ^ 61" and "dev_capacity (claim_device c) < 2 ^ 61"
    and "vb_device_id (claim_metadata c) = dev_id (claim_device c)" and "vb_volume_id (claim_metadata c) = i"
    using pid cap off by (simp_all add: c(3) fresh_claim_def claim_key_def)
qed

lemma number_bindings_in:
  assumes "c \<in> set (number_bindings cs)"
  shows "\<exists>c1\<in>set cs. claim_key c = claim_key c1 \<and> claim_device c = claim_device c1
    \<and> vb_reserved (claim_metadata c) = vb_reserved (claim_metadata c1)
    \<and> vb_device_id (claim_metadata c) = vb_device_id (claim_metadata c1)
    \<and> vb_volume_id (claim_metadata c) = vb_volume_id (claim_metadata c1)"
  using assms by (auto simp: number_bindings_def claim_key_def in_set_enumerate_eq)

text \<open>C14.
  Creating a volume uses each device at most once and never reserves more than the device has: what is
  accounted to a device afterwards does not exceed its capacity.\<close>

theorem created_within_capacity:
  assumes "result_of (create_volume L A srv S r) = Inr (data, S')"
    and "required_capacity r = Some bytes" and "0 \<le> bytes" and "bytes < 2 ^ 62"
    and "parse_attributes_all L [create_parameters r, mutable_parameters r] = Inr a"
    and "bytes * num_replicas a < 2 ^ 63"
    and "space (available_bindings (S\<lparr>ponds := ponds S'\<rparr>) (created_id data) (accessibility r)) < 2 ^ 62"
    and "ponds_ok (ponds_data (ponds S'))" and "sizes_ok (S\<lparr>ponds := ponds S'\<rparr>)"
  shows "\<exists>v. get_volume S' (created_id data) = Some v \<and> distinct (map claim_key (claim_bindings (vol_claim v)))
    \<and> (\<forall>c\<in>set (claim_bindings (vol_claim v)). \<exists>n. allocated S' (claim_key c) = Some n
         \<and> n \<le> dev_capacity (claim_device c))"
proof -
  have "created L S r data S'"
    using wp_create_volume [of L A srv S r "[]"] assms(1) by (simp add: wp_result)
  then obtain S1 bytes' a' opts picked where S1: "S1 = S\<lparr>ponds := ponds S'\<rparr>"
    and req: "required_capacity r = Some bytes'"
      "parse_attributes_all L [create_parameters r, mutable_parameters r] = Inr a'"
    and picked: "pick_bindings bytes' a' (available_bindings S1 (volume_name (create_name r)) (accessibility r)) = Inr picked"
    and i: "created_id data = volume_name (create_name r)"
    and S': "S' = store_volume (volume_name (create_name r)) (new_volume opts picked) S1"
    by (rule created_from)
  have req: "bytes' = bytes" "a' = a"
    using req assms(2,5) by simp_all
  let ?cs = "available_bindings S1 (created_id data) (accessibility r)"
  obtain used rest where taken: "?cs = used @ rest" "list_all2 takes used picked"
    using pick_bindings_fills [OF picked [unfolded req] assms(3)] assms(4,6) assms(7) [unfolded i, folded S1]
    unfolding i by auto
  have ok: "ponds_ok (ponds_data (ponds S1))" "sizes_ok S1"
    using assms(8,9) by (simp_all add: S1)
  have distinct: "distinct (map claim_key picked)"
    using distinct_available [OF ok(1), of "created_id data" "accessibility r"] takes_keys [OF taken(2)] taken(1) by simp
  have within: "\<exists>n. fold add_allocated (number_bindings picked) (allocated S1) (claim_key c) = Some n
      \<and> n \<le> dev_capacity (claim_device c)" if "c \<in> set (number_bindings picked)" for c
  proof -
    note in_bindings = that
    obtain c1 where c1: "c1 \<in> set picked" "claim_key c = claim_key c1" "claim_device c = claim_device c1"
      "vb_reserved (claim_metadata c) = vb_reserved (claim_metadata c1)"
      using number_bindings_in [OF in_bindings] by blast
    then obtain c0 where c0: "c0 \<in> set used" "takes c0 c1"
      using taken(2) c1(1) by (metis in_set_conv_nth list_all2_conv_all_nth)
    then obtain res where res: "c1 = c0\<lparr>claim_metadata := (claim_metadata c0)\<lparr>vb_reserved := res + claim_padding c0\<rparr>\<rparr>"
      "- lim < res" "res \<le> available c0"
      by (auto simp: takes_def)
    have "c0 \<in> set (candidates S1 (created_id data))"
      using c0(1) taken(1) available_bindings_in [of S1 "created_id data" "accessibility r"] by auto
    note facts = candidate_facts [OF ok this]
    let ?sum = "unwrap_or 0 (allocated S1 (claim_key c)) + vb_reserved (claim_metadata c)"
    have sum: "?sum = vb_offset (claim_metadata c0) + res + claim_padding c0"
      using c1 res(1) facts(1) by (simp add: claim_key_def)
    have le: "?sum \<le> dev_capacity (claim_device c)"
      using sum res(3) facts(2) c1(3) res(1) by simp
    have "dev_capacity (claim_device c) < 2 ^ 61"
      using facts(4) c1(3) res(1) by simp
    then have "wrap64 ?sum = ?sum"
      using le sum res(2) facts(3) claim_padding_range [of c0] by (intro wrap64_lim) auto
    then show ?thesis
      using fold_add_allocated [of "number_bindings picked" c "allocated S1"] in_bindings distinct le
      by (simp add: number_bindings_key)
  qed
  show ?thesis
    by (intro exI [of _ "new_volume opts picked"])
      (use within distinct in \<open>simp add: S' i get_volume_def bt_get_insert new_volume_def store_volume_def number_bindings_key\<close>)
qed

theorem created_within_capacity_witness:
  "\<exists>v. get_volume example_state ''pond_v'' = Some v \<and> distinct (map claim_key (claim_bindings (vol_claim v)))
    \<and> list_all (\<lambda>c. \<exists>n. allocated example_state (claim_key c) = Some n \<and> n \<le> dev_capacity (claim_device c))
        (claim_bindings (vol_claim v))"
proof -
  have "space (available_bindings (example_start\<lparr>ponds := ponds example_state\<rparr>) (created_id example_created)
      (accessibility example_create)) < 2 ^ 62"
    by (simp only: example_state_simps) code_simp
  moreover have "parse_attributes_all example_lib [create_parameters example_create, mutable_parameters example_create] =
      Inr example_attributes"
    by code_simp
  moreover have "ponds_ok (ponds_data (ponds example_state))" "sizes_ok (example_start\<lparr>ponds := ponds example_state\<rparr>)"
    unfolding example_state_simps by code_simp+
  ultimately show ?thesis
    using created_within_capacity [OF example_creates, of 15 example_attributes]
    by (simp add: example_create_def example_attributes_def num_replicas_def example_created_def list_all_iff)
qed

section \<open>Publishing\<close>

lemma fetch_cached:
  assumes "pond_clock A l < ponds_created_at (ponds S) + pond_ttl srv"
  shows "wp (fetch_ponds A srv S) Q l = Q (Inr S) l"
  using assms by (simp add: fetch_ponds_def eff_simps)

text \<open>A volume that is not shared and is published already is published again exactly in the mode it has:
  a second reader joins readers, and a second writer joins a writer, on whatever node.\<close>

theorem published_in_one_mode:
  assumes "get_volume S (publish_volume_id r) = Some v"
    and "\<not> mount_shared (claim_options (vol_claim v))" and "published_node_ids v \<noteq> {}"
    and "apply_volume_capability (unwrap_or capability_default (publish_capability r))
      (volume_options (default_fs_type srv)) = Inr opts"
    and "parse_attributes (publish_volume_context r) = Inr a"
    and "pond_clock A [] < ponds_created_at (ponds S) + pond_ttl srv"
  shows "(\<exists>context S'. result_of (controller_publish_volume L A srv S r) = Inr (context, S')
      \<and> get_volume S' (publish_volume_id r) = Some (publish_node (publish_node_id r) (publish_readonly r) v))
    = (publish_readonly r = vol_readonly v)"
proof -
  have "wp (controller_publish_volume L A srv S r)
      (\<lambda>res l. (\<exists>context S'. res = Inr (context, S')
        \<and> get_volume S' (publish_volume_id r) = Some (publish_node (publish_node_id r) (publish_readonly r) v))
      = (publish_readonly r = vol_readonly v)) []"
    using assms
    by (simp add: controller_publish_volume_def Let_def wp_tryE wp_fail_state parse_secrets_def fetch_cached
        get_volume_or_provision_def publish_conflict_def wp_ret wp_fail controller_dict_def)
       (auto simp: get_volume_def set_volume_def bt_get_insert)
  then show ?thesis
    by (simp add: wp_result)
qed

theorem published_in_one_mode_witness:
  "(\<exists>dict S'. result_of (controller_publish_volume example_lib (example_api example_time) example_server example_published
      (example_publish ''n2'' False)) = Inr (dict, S')
      \<and> get_volume S' ''pond_v'' = Some (publish_node ''n2'' False (publish_node ''n1'' False example_volume)))"
proof -
  have "get_volume example_published ''pond_v'' = Some (publish_node ''n1'' False example_volume)"
    by (simp add: example_published_def get_volume_def set_volume_def bt_get_insert)
  moreover have "ponds_created_at (ponds example_published) = example_time"
    by (simp add: example_published_def set_volume_def example_state_simps example_ponds_def)
  ultimately show ?thesis
    using published_in_one_mode [of example_published "example_publish ''n2'' False" "publish_node ''n1'' False example_volume"
      example_server "volume_options ''ext4''" example_attributes "example_api example_time" example_lib]
    by (simp add: example_publish_def publish_node_def example_volume_def Let_def volume_options_def
        capability_default_def apply_volume_capability_def example_server_def new_server_def example_api_def
        parse_attributes_def attributes_of_def example_attributes_def bt_get_def default_device_layer_def seconds_def)
qed

section \<open>What the controller keeps\<close>

text \<open>Bindings name their own device and the volume.\<close>

definition names_ok :: "string \<Rightarrow> VolumeBindingClaim \<Rightarrow> bool" where
  "names_ok i c \<longleftrightarrow> vb_volume_id (claim_metadata c) = i \<and> vb_device_id (claim_metadata c) = dev_id (claim_device c)"

definition volume_ok :: "string \<Rightarrow> Volume \<Rightarrow> bool" where
  "volume_ok i v \<longleftrightarrow> (vol_readonly v \<longrightarrow> published_node_ids v \<noteq> {})
     \<and> (\<forall>c\<in>set (claim_bindings (vol_claim v)). names_ok i c)"

definition state_ok :: "State \<Rightarrow> bool" where
  "state_ok S \<longleftrightarrow> (\<forall>(i, v)\<in>set (volumes S). volume_ok i v) \<and> bt_sorted (volumes S)"

lemma state_ok_get: "state_ok S \<Longrightarrow> get_volume S i = Some v \<Longrightarrow> volume_ok i v"
  by (auto simp: state_ok_def get_volume_def bt.get_entries)

lemma state_okI:
  assumes "bt_sorted (volumes S)" and "\<And>i v. get_volume S i = Some v \<Longrightarrow> volume_ok i v"
  shows "state_ok S"
  using assms unfolding state_ok_def get_volume_def by (auto simp: bt.get_entries)

lemma state_ok_refetched: "state_ok S \<Longrightarrow> refetched S S' \<Longrightarrow> state_ok S'"
  by (auto simp: state_ok_def refetched_def)

lemma state_ok_insert:
  assumes "state_ok S" and "volume_ok i v" and "volumes S' = bt_insert i v (volumes S)"
  shows "state_ok S'"
proof (rule state_okI)
  have sorted: "bt_sorted (volumes S)"
    using assms(1) by (simp add: state_ok_def)
  then show "bt_sorted (volumes S')"
    by (simp add: assms(3) bt_sorted_insert)
  show "volume_ok j w" if "get_volume S' j = Some w" for j w
    using that assms(1,2) state_ok_get [of S j w]
    by (auto simp: get_volume_def assms(3) bt_get_insert split: if_splits)
qed

lemma fill_replica_names:
  assumes "fill_replica required filled tot cs = (out, tot', rest)" and "\<forall>c\<in>set cs. names_ok i c"
  shows "(\<forall>c\<in>set out. names_ok i c) \<and> set rest \<subseteq> set cs"
  using assms
proof (induction cs arbitrary: filled tot out tot' rest)
  case (Cons c cs)
  then show ?case
    by (auto simp: Let_def reserve_def names_ok_def split: prod.splits if_splits) (blast | fastforce)+
qed simp

lemma fill_replicas_names:
  assumes "fill_replicas n required tot cs = (out, tot')" and "\<forall>c\<in>set cs. names_ok i c"
  shows "\<forall>c\<in>set out. names_ok i c"
  using assms
proof (induction n arbitrary: tot cs out)
  case (Suc n)
  obtain out1 tot1 rest where one: "fill_replica required 0 tot cs = (out1, tot1, rest)"
    by (cases "fill_replica required 0 tot cs") auto
  then obtain outs where rest: "fill_replicas n required tot1 rest = (outs, tot')" "out = out1 @ outs"
    using Suc.prems(1) by (auto split: prod.splits)
  show ?case
    using fill_replica_names [OF one Suc.prems(2)] Suc.IH [OF rest(1)] Suc.prems(2) rest(2) by auto
qed simp

lemma picked_names:
  assumes "pick_bindings bytes a (available_bindings S i req) = Inr picked"
  shows "\<forall>c\<in>set (number_bindings picked). names_ok i c"
proof -
  have "\<forall>c\<in>set (available_bindings S i req). names_ok i c"
    using available_bindings_in [of S i req] by (auto simp: candidates_def fresh_claim_def names_ok_def)
  then have "\<forall>c\<in>set picked. names_ok i c"
    using assms by (auto simp: pick_bindings_def Let_def split: prod.splits if_splits dest!: fill_replicas_names)
  then show ?thesis
    using number_bindings_in by (fastforce simp: names_ok_def)
qed

lemma created_ok:
  assumes "state_ok S" and "created L S r data S'"
  shows "state_ok S'"
proof -
  obtain S1 bytes a opts picked where S1: "refetched S S1"
    and picked: "pick_bindings bytes a (available_bindings S1 (volume_name (create_name r)) (accessibility r)) = Inr picked"
    and S': "S' = store_volume (volume_name (create_name r)) (new_volume opts picked) S1"
    using assms(2) by (auto simp: created_def)
  have "volume_ok (volume_name (create_name r)) (new_volume opts picked)"
    using picked_names [OF picked] by (simp add: volume_ok_def new_volume_def)
  then show ?thesis
    by (rule state_ok_insert [OF state_ok_refetched [OF assms(1) S1]]) (simp add: S' store_volume_def)
qed

lemma pond_claims_names:
  "pond_claims pid p ms = Inr cs \<Longrightarrow> \<forall>m\<in>set ms. vb_volume_id m = i \<Longrightarrow> \<forall>c\<in>set cs. names_ok i c"
  by (induction ms arbitrary: cs)
     (auto simp: names_ok_def find_device_def dest!: find_Some_D split: option.splits sum.splits)

lemma reported_claims_names: "reported_claims i ps = Inr cs \<Longrightarrow> \<forall>c\<in>set cs. names_ok i c"
proof (induction ps arbitrary: cs)
  case (Cons p ps)
  then obtain cs1 cs2 where "pond_claims (fst p) (snd p) (filter (\<lambda>m. vb_volume_id m = i) (pond_bindings (snd p))) = Inr cs1"
    "reported_claims i ps = Inr cs2" "cs = cs1 @ cs2"
    by (auto split: sum.splits)
  then show ?case
    using Cons.IH pond_claims_names [of _ _ _ cs1 i] by fastforce
qed simp

lemma validate_claims_in: "validate_claims cs = Inr ds \<Longrightarrow> set ds = set cs"
  by (auto simp: validate_claims_def Let_def split: if_splits)

lemma provision_ok: "provision i opts S = Inr v \<Longrightarrow> volume_ok i v"
  using reported_claims_names validate_claims_in
  by (fastforce simp: provision_def volume_ok_def split: sum.splits)

lemma get_or_provision_ok:
  assumes "state_ok S" and "get_volume_or_provision i opts S = Inr (v, S')"
  shows "state_ok S' \<and> volume_ok i v \<and> get_volume S' i = Some v"
proof (cases "get_volume S i")
  case (Some w)
  then show ?thesis
    using assms by (auto simp: get_volume_or_provision_def state_ok_get)
next
  case None
  then have v: "provision i opts S = Inr v" "S' = set_volume i v S"
    using assms(2) by (auto simp: get_volume_or_provision_def split: sum.splits)
  moreover have "state_ok S'"
    by (rule state_ok_insert [OF assms(1) provision_ok [OF v(1)]]) (simp add: v(2) set_volume_def)
  ultimately show ?thesis
    by (simp add: provision_ok get_volume_def set_volume_def bt_get_insert)
qed

lemma wp_fetch_ok:
  assumes "state_ok S" and "\<And>S' l'. state_ok S' \<Longrightarrow> wp (k S') Q l'" and "\<And>e S' l'. state_ok S' \<Longrightarrow> Q (Inl (e, S')) l'"
  shows "wp (tryE (fetch_ponds A srv S) k) Q l"
proof (rule wp_tryE_seq [OF wp_fetch_ponds])
  show "Q (Inl x) l'" if "left_with (\<lambda>S'. S' = S) (Inl x) \<and> (\<forall>S'. Inl x = Inr S' \<longrightarrow> refetched S S')" for x l'
    using that assms(1,3) by (cases x) auto
  show "wp (k S') Q l'" if "left_with (\<lambda>S'. S' = S) (Inr S') \<and> (\<forall>S2. Inr S' = Inr S2 \<longrightarrow> refetched S S2)" for S' l'
    using that assms(1,2) state_ok_refetched by blast
qed

lemma bt_sorted_remove: "bt_sorted m \<Longrightarrow> bt_sorted (bt_remove k m)"
  unfolding bt_sorted_def bt_remove_def by (simp add: sorted_wrt_map sorted_wrt_filter)

lemma drop_volume_ok: "state_ok S \<Longrightarrow> state_ok (drop_volume i v S)"
  by (auto simp: state_ok_def drop_volume_def bt_sorted_remove) (auto simp: bt_remove_def)

lemma with_state_simps:
  "tryE (with_state S (Inr a)) k = k a"
  "tryE (with_state S (Inl e)) k = fail (e, S)"
  by (simp_all add: with_state_def tryE_def ret_def fail_def)

lemma wp_delete_volume:
  assumes "state_ok S"
  shows "wp (delete_volume L A srv S r) (\<lambda>res l'. left_with state_ok res \<and> (\<forall>S'. res = Inr S' \<longrightarrow> state_ok S')) l"
proof -
  let ?Q = "\<lambda>res l'. left_with state_ok res \<and> (\<forall>S'. res = Inr S' \<longrightarrow> state_ok S')"
  have dealloc: "wp (tryE (deallocate_claim A secrets cl) (\<lambda>answer. case answer of Inl e \<Rightarrow> fail (e, S2) | Inr _ \<Rightarrow> ret (drop_volume i v S2))) ?Q l"
    if "state_ok S2" for secrets cl S2 i v l
    unfolding deallocate_claim_def
  proof (rule wp_tryE_seq [OF wp_ask_all])
    show "wp (case answer of Inl e \<Rightarrow> fail (e, S2) | Inr _ \<Rightarrow> ret (drop_volume i v S2)) ?Q l'" for answer :: "Status + unit" and l'
      using that by (cases answer) (simp_all add: wp_fail wp_ret drop_volume_ok)
  qed auto
  have found: "wp (case x of (v, S2) \<Rightarrow>
      if published_node_ids v \<noteq> {} then fail ((Aborted, m v), S2)
      else tryE (deallocate_claim A secrets (vol_claim v)) (\<lambda>answer. case answer of Inl e \<Rightarrow> fail (e, S2) | Inr _ \<Rightarrow> ret (drop_volume i v S2))) ?Q l"
    if "state_ok S1" "get_volume_or_provision i opts S1 = Inr x" for x S1 i opts secrets m l
    using get_or_provision_ok [OF that(1)] that(2) by (cases x) (auto simp: wp_fail intro!: dealloc)
  show ?thesis
    unfolding delete_volume_def Let_def parse_secrets_def with_state_simps
  proof (rule wp_fetch_ok [OF assms])
    show "wp (tryE (with_state S1 (get_volume_or_provision (delete_volume_id r) options_default S1)) (\<lambda>(v, S).
        if published_node_ids v \<noteq> {}
        then fail ((Aborted, ''Published volume: '' @ delete_volume_id r @ '' -> '' @ debug_nodes L (published_node_ids v)), S)
        else tryE (deallocate_claim A VolumeSecrets (vol_claim v)) (\<lambda>answer.
          case answer of Inl e \<Rightarrow> fail (e, S) | Inr _ \<Rightarrow> ret (drop_volume (delete_volume_id r) v S)))) ?Q l'"
      if "state_ok S1" for S1 l'
      using that found [OF that]
      by (cases "get_volume_or_provision (delete_volume_id r) options_default S1") (simp_all add: with_state_simps wp_fail)
  qed simp
qed

lemma publish_node_ok: "volume_ok i v \<Longrightarrow> volume_ok i (publish_node n ro v)"
  by (auto simp: volume_ok_def publish_node_def)

lemma unpublish_node_ok: "volume_ok i v \<Longrightarrow> volume_ok i (unpublish_node n v)"
  by (auto simp: volume_ok_def unpublish_node_def Let_def)

text \<open>What a publication answers: the bindings of the volume.\<close>

definition published :: "pond_lib \<Rightarrow> PublishVolumeRequest \<Rightarrow> labels \<Rightarrow> State \<Rightarrow> bool" where
  "published L r context S' \<longleftrightarrow>
     (\<exists>v layer. get_volume S' (publish_volume_id r) = Some v
        \<and> controller_dict L \<lparr>publish_bindings = map binding_context (claim_bindings (vol_claim v)),
            publish_layer = layer\<rparr> = Inr context)"

lemma wp_publish_volume:
  assumes "state_ok S"
  shows "wp (controller_publish_volume L A srv S r)
    (\<lambda>res l'. left_with state_ok res \<and> (\<forall>context S'. res = Inr (context, S') \<longrightarrow> state_ok S' \<and> published L r context S')) l"
proof -
  let ?cap = "apply_volume_capability (unwrap_or capability_default (publish_capability r)) (volume_options (default_fs_type srv))"
  let ?Q = "\<lambda>res l'. left_with state_ok res \<and> (\<forall>context S'. res = Inr (context, S') \<longrightarrow> state_ok S' \<and> published L r context S')"
  let ?i = "publish_volume_id r"
  have stored: "state_ok (set_volume ?i (publish_node n ro v) S2)" if "state_ok S2" "volume_ok ?i v" for S2 v n ro
    by (rule state_ok_insert [OF that(1) publish_node_ok [OF that(2)]]) (simp add: set_volume_def)
  have answer: "published L r dict (set_volume ?i (publish_node n ro v) S2)"
    if "controller_dict L \<lparr>publish_bindings = map binding_context (claim_bindings (vol_claim v)), publish_layer = layer\<rparr> = Inr dict"
    for dict n ro v S2 layer
    unfolding published_def
    by (rule exI [of _ "publish_node n ro v"]) (use that in \<open>auto simp: get_volume_def set_volume_def bt_get_insert publish_node_def\<close>)
  show ?thesis
  proof (cases "?cap")
    case (Inl e)
    with assms show ?thesis
      by (cases e) (simp add: controller_publish_volume_def Let_def with_state_simps wp_fail)
  next
    case cap: (Inr opts)
    show ?thesis
    proof (cases "parse_attributes (publish_volume_context r)")
      case (Inl e)
      with assms cap show ?thesis
        by (cases e) (simp add: controller_publish_volume_def Let_def with_state_simps wp_fail)
    next
      case (Inr a)
      have tail: "wp (tryE (with_state S1 (get_volume_or_provision ?i opts S1)) (\<lambda>(v, S).
          case publish_conflict ?i (publish_readonly r) v of
            Some e \<Rightarrow> fail (e, S)
          | None \<Rightarrow>
              tryE (with_state S (controller_dict L \<lparr>
                publish_bindings = map binding_context (claim_bindings (vol_claim v)),
                publish_layer = attr_layer a\<rparr>)) (\<lambda>context.
              ret (context, set_volume ?i (publish_node (publish_node_id r) (publish_readonly r) v) S)))) ?Q l'"
        if "state_ok S1" for S1 l'
      proof (cases "get_volume_or_provision ?i opts S1")
        case (Inl e)
        with that show ?thesis
          by (cases e) (simp add: with_state_simps wp_fail)
      next
        case (Inr x)
        obtain v S2 where x: "x = (v, S2)"
          by fastforce
        have ok: "state_ok S2" "volume_ok ?i v"
          using get_or_provision_ok [OF that] Inr x by auto
        show ?thesis
          using ok cap stored answer
          by (auto simp: Inr x with_state_simps wp_fail wp_ret controller_dict_def split: option.split)
      qed
      show ?thesis
        unfolding controller_publish_volume_def Let_def parse_secrets_def cap Inr with_state_simps
        by (rule wp_fetch_ok [OF assms tail]) simp_all
    qed
  qed
qed

lemma wp_unpublish_volume:
  assumes "state_ok S"
  shows "wp (controller_unpublish_volume A srv S r)
    (\<lambda>res l'. left_with state_ok res \<and> (\<forall>S'. res = Inr S' \<longrightarrow> state_ok S')) l"
proof -
  have "state_ok (set_volume i (unpublish_node n v) S1)" if "state_ok S1" "get_volume S1 i = Some v" for S1 i n v
    by (rule state_ok_insert [OF that(1) unpublish_node_ok [OF state_ok_get [OF that]]]) (simp add: set_volume_def)
  then show ?thesis
    unfolding controller_unpublish_volume_def parse_secrets_def with_state_simps
    by (intro wp_fetch_ok [OF assms]) (auto simp: wp_ret split: option.split)
qed

lemma publish_capability_ok:
  assumes "result_of (controller_publish_volume L A srv S r) = Inr x"
  shows "\<exists>opts. apply_volume_capability (unwrap_or capability_default (publish_capability r))
    (volume_options (default_fs_type srv)) = Inr opts"
proof (cases "apply_volume_capability (unwrap_or capability_default (publish_capability r))
    (volume_options (default_fs_type srv))")
  case (Inl e)
  then have "wp (controller_publish_volume L A srv S r) (\<lambda>res l. \<not> (\<exists>x. res = Inr x)) []"
    by (cases e) (simp add: controller_publish_volume_def Let_def with_state_simps wp_fail)
  then have "\<nexists>x. result_of (controller_publish_volume L A srv S r) = Inr x"
    by (simp add: wp_result)
  with assms show ?thesis
    by blast
qed simp

section \<open>Reachable states\<close>

text \<open>The controller starts with the answers of the ponds; each handler leaves its state behind, whether it answers or
  fails.\<close>

definition left_state :: "('a \<Rightarrow> State) \<Rightarrow> Status \<times> State + 'a \<Rightarrow> State" where
  "left_state f r = (case r of Inl (e, S) \<Rightarrow> S | Inr a \<Rightarrow> f a)"

inductive ctl_reachable :: "pond_lib \<Rightarrow> Server \<Rightarrow> State \<Rightarrow> bool" for L srv where
  start: "result_of (start_server A srv) = Inr S \<Longrightarrow> ctl_reachable L srv S"
| created: "ctl_reachable L srv S \<Longrightarrow>
    ctl_reachable L srv (left_state snd (result_of (create_volume L A srv S cr)))"
| deleted: "ctl_reachable L srv S \<Longrightarrow>
    ctl_reachable L srv (left_state id (result_of (delete_volume L A srv S dr)))"
| published: "ctl_reachable L srv S \<Longrightarrow>
    ctl_reachable L srv (left_state snd (result_of (controller_publish_volume L A srv S pr)))"
| unpublished: "ctl_reachable L srv S \<Longrightarrow>
    ctl_reachable L srv (left_state id (result_of (controller_unpublish_volume A srv S ur)))"

lemma left_stateI:
  assumes "left_with P r" and "\<And>a. r = Inr a \<Longrightarrow> P (f a)"
  shows "P (left_state f r)"
  using assms by (auto simp: left_state_def left_with_def split: sum.splits)

lemma left_created_ok:
  assumes "state_ok S"
  shows "state_ok (left_state snd (result_of (create_volume L A srv S r)))"
proof (rule left_stateI)
  have r: "left_with (refetched S) (result_of (create_volume L A srv S r))
      \<and> (\<forall>data S'. result_of (create_volume L A srv S r) = Inr (data, S') \<longrightarrow> created L S r data S')"
    using wp_create_volume [of L A srv S r "[]"] unfolding wp_result .
  then show "left_with state_ok (result_of (create_volume L A srv S r))"
    unfolding left_with_def using state_ok_refetched [OF assms]
    by (cases "result_of (create_volume L A srv S r)") simp_all
  show "state_ok (snd x)" if "result_of (create_volume L A srv S r) = Inr x" for x
    using r that created_ok [OF assms] by (cases x) simp
qed

lemma left_published_ok:
  assumes "state_ok S"
  shows "state_ok (left_state snd (result_of (controller_publish_volume L A srv S r)))"
proof (rule left_stateI)
  have r: "left_with state_ok (result_of (controller_publish_volume L A srv S r))
      \<and> (\<forall>context S'. result_of (controller_publish_volume L A srv S r) = Inr (context, S')
        \<longrightarrow> state_ok S' \<and> published L r context S')"
    using wp_publish_volume [OF assms, of L A srv r "[]"] unfolding wp_result .
  then show "left_with state_ok (result_of (controller_publish_volume L A srv S r))"
    by blast
  show "state_ok (snd x)" if "result_of (controller_publish_volume L A srv S r) = Inr x" for x
    using r that by (cases x) simp
qed

lemma left_deleted_ok:
  "state_ok S \<Longrightarrow> state_ok (left_state id (result_of (delete_volume L A srv S r)))"
  using wp_delete_volume [of S L A srv r "[]"] unfolding wp_result by (intro left_stateI [of state_ok]) simp_all

lemma left_unpublished_ok:
  "state_ok S \<Longrightarrow> state_ok (left_state id (result_of (controller_unpublish_volume A srv S r)))"
  using wp_unpublish_volume [of S A srv r "[]"] unfolding wp_result by (intro left_stateI [of state_ok]) simp_all

lemma state_ok_default: "state_ok state_default"
  by (simp add: state_ok_def state_default_def bt_sorted_def)

lemma started:
  assumes "result_of (start_server A srv) = Inr S"
  shows "refetched state_default S"
  using wp_fetch_ponds [of A srv state_default "[]"] assms unfolding wp_result start_server_def by simp

lemma reachable_ok: "ctl_reachable L srv S \<Longrightarrow> state_ok S"
  by (induction rule: ctl_reachable.induct)
    (simp_all add: state_ok_refetched [OF state_ok_default started] left_created_ok left_published_ok
      left_deleted_ok left_unpublished_ok)

end
