(* ===== verification/Pond_Recovery.thy ===== *)
theory Pond_Recovery
  imports Pond_System
begin

text \<open>
  What the controller and the nodes of data-pond agree on: a node accepts what the controller
  publishes, and the bindings that the nodes report bring a volume back after the controller has
  restarted.
\<close>

section \<open>Publishing on a node\<close>

definition programs_succeed :: "node_api \<Rightarrow> bool" where
  "programs_succeed N \<longleftrightarrow> (\<forall>l c. ans_run N l c = Inr (Some 0))"

definition allocate_call :: "VolumeOptions \<Rightarrow> VolumeBindingContext \<Rightarrow> node_call" where
  "allocate_call opts b = RunAllocate (program (layer_str (device_layer (ctx_device b))) ''allocate'')
     \<lparr>allocate_binding = b, allocate_options = opts, allocate_secrets = VolumeSecrets\<rparr>"

lemma wp_allocate_bindings:
  assumes "programs_succeed N"
    and "\<forall>b\<in>set bs. vb_device_id (ctx_metadata b) = dev_id (ctx_device b) \<and> vb_volume_id (ctx_metadata b) = i"
  shows "wp (allocate_bindings L N i opts VolumeSecrets bs)
    (\<lambda>r l'. r = Inr () \<and> l' = l @ map (allocate_call opts) bs) l"
  using assms(2)
proof (induction bs arbitrary: l)
  case Nil
  then show ?case by (simp add: wp_ret)
next
  case (Cons b bs)
  have "wp (execute N ''allocate'' \<lparr>allocate_binding = b, allocate_options = opts, allocate_secrets = VolumeSecrets\<rparr>)
      (\<lambda>r l'. r = Inr () \<and> l' = l @ [allocate_call opts b]) l"
    using assms(1) by (simp add: execute_def Let_def wp_tryE wp_call wp_if wp_ret programs_succeed_def exit_ok_def
        allocate_call_def)
  then have "wp (tryE (execute N ''allocate'' \<lparr>allocate_binding = b, allocate_options = opts,
        allocate_secrets = VolumeSecrets\<rparr>) (\<lambda>_. allocate_bindings L N i opts VolumeSecrets bs))
      (\<lambda>r l'. r = Inr () \<and> l' = l @ map (allocate_call opts) (b # bs)) l"
  proof (rule wp_tryE_seq)
    show "wp (allocate_bindings L N i opts VolumeSecrets bs)
        (\<lambda>r l'. r = Inr () \<and> l' = l @ map (allocate_call opts) (b # bs)) l1"
      if "Inr u = Inr () \<and> l1 = l @ [allocate_call opts b]" for u l1
      using that Cons.prems by (intro wp_mono [OF Cons.IH [of l1]]) auto
  qed simp
  then show ?case
    using Cons.prems by simp
qed

text \<open>The capability is refused for what it asks, whatever the default file system is.\<close>

lemma capability_accepted:
  assumes "apply_volume_capability c (volume_options fs) = Inr opts"
  shows "\<exists>opts'. apply_volume_capability c (volume_options fs') = Inr opts'"
  using assms
  by (auto simp: apply_volume_capability_def volume_options_def Let_def split: option.splits AccessType.splits if_splits)

definition publish_call :: "NodePublishVolumeRequest \<Rightarrow> string \<Rightarrow> VolumePublishControllerContext \<Rightarrow> VolumeOptions \<Rightarrow> node_call" where
  "publish_call r kind controller opts = RunPublish (program (layer_str (publish_layer controller)) kind)
     \<lparr>pub_controller = controller, pub_options = opts, pub_read_only = np_read_only r, pub_secrets = VolumeSecrets,
      pub_staging_target_path = np_staging_target_path r, pub_target_path = np_target_path r,
      pub_volume_id = np_volume_id r\<rparr>"

lemma wp_handle_node_publish:
  assumes "programs_succeed N" and "parse_controller L (np_publish_context r) = Inr controller"
    and "apply_volume_capability (unwrap_or capability_default (np_volume_capability r))
      (volume_options (srv_default_fs srv)) = Inr opts"
    and "\<forall>b\<in>set (publish_bindings controller).
      vb_device_id (ctx_metadata b) = dev_id (ctx_device b) \<and> vb_volume_id (ctx_metadata b) = np_volume_id r"
  shows "wp (handle_node_publish L N srv kind r) (\<lambda>res l'. res = Inr () \<and>
    l' = l @ map (allocate_call opts) (publish_bindings controller) @ [publish_call r kind controller opts]) l"
proof -
  have run: "wp (tryE (call (ans_run N) (publish_call r kind controller opts)) (\<lambda>e.
      if exit_ok e then ret () else fail (err e))) (\<lambda>res l'. res = Inr () \<and>
    l' = l @ map (allocate_call opts) (publish_bindings controller) @ [publish_call r kind controller opts])
      (l @ map (allocate_call opts) (publish_bindings controller))" for err
    using assms(1) by (simp add: wp_tryE wp_call wp_if wp_ret programs_succeed_def exit_ok_def)
  show ?thesis
    unfolding handle_node_publish_def assms(2,3) parse_secrets_def wp_tryE [of "lift_result _"] wp_lift_result sum.case
    by (rule wp_tryE_seq [OF wp_allocate_bindings [OF assms(1,4)]]) (use run in \<open>auto simp: publish_call_def\<close>)
qed

text \<open>C16.
  In every state the controller can reach, what it answers to a publication is accepted by the node:
  the node allocates the bindings of the volume in their order, then publishes the volume, and fails
  only if a program does.\<close>

theorem published_volume_is_accepted:
  assumes "ctl_reachable L srv S" and "json_reads_back L"
    and "result_of (controller_publish_volume L A srv S r) = Inr (dict, S')"
    and "programs_succeed N"
    and "cnp_publish_context q = dict" and "cnp_volume_id q = publish_volume_id r"
    and "cnp_volume_capability q = publish_capability r"
  shows "result_of (node_publish_volume L N nsrv q) = Inr () \<and>
    (\<exists>v layer opts. get_volume S' (publish_volume_id r) = Some v
      \<and> calls_of (node_publish_volume L N nsrv q) =
        map (allocate_call opts \<circ> binding_context) (claim_bindings (vol_claim v))
        @ [publish_call (of_publish q) ''publish''
            \<lparr>publish_bindings = map binding_context (claim_bindings (vol_claim v)), publish_layer = layer\<rparr> opts])"
proof -
  have "state_ok S' \<and> published L r dict S'"
    using wp_publish_volume [OF reachable_ok [OF assms(1)], of L A srv r "[]"] assms(3) unfolding wp_result by blast
  then obtain v layer where v: "state_ok S'" "get_volume S' (publish_volume_id r) = Some v"
    and dict: "controller_dict L \<lparr>publish_bindings = map binding_context (claim_bindings (vol_claim v)),
      publish_layer = layer\<rparr> = Inr dict"
    unfolding published_def by blast
  let ?c = "\<lparr>publish_bindings = map binding_context (claim_bindings (vol_claim v)), publish_layer = layer\<rparr>"
  obtain opts where opts: "apply_volume_capability (unwrap_or capability_default (publish_capability r))
      (volume_options (srv_default_fs nsrv)) = Inr opts"
    using publish_capability_ok [OF assms(3)] capability_accepted by blast
  have parse: "parse_controller L dict = Inr ?c"
    using controller_round_trip [OF assms(2), of ?c] dict by simp
  have names: "\<forall>b\<in>set (publish_bindings ?c). vb_device_id (ctx_metadata b) = dev_id (ctx_device b)
      \<and> vb_volume_id (ctx_metadata b) = publish_volume_id r"
    using state_ok_get [OF v] by (auto simp: volume_ok_def names_ok_def binding_context_def)
  have "wp (node_publish_volume L N nsrv q) (\<lambda>res l'. res = Inr () \<and>
      l' = [] @ map (allocate_call opts) (publish_bindings ?c) @ [publish_call (of_publish q) ''publish'' ?c opts]) []"
    unfolding node_publish_volume_def
    by (rule wp_handle_node_publish [OF assms(4)])
      (use parse opts names assms(5-7) in \<open>simp_all add: of_publish_def\<close>)
  then show ?thesis
    using v(2) unfolding wp_result by (auto simp: comp_def)
qed

lemma example_starts: "result_of (start_server (example_api example_time) example_server) = Inr example_start"
proof -
  let ?r = "result_of (start_server (example_api example_time) example_server)"
  have r: "\<not> isl ?r" "ponds (projr ?r) = example_ponds"
    by code_simp+
  then obtain S where S: "?r = Inr S"
    by (cases ?r) auto
  with r(2) started [OF S] show ?thesis
    by (auto simp: refetched_def example_start_def)
qed

theorem published_volume_is_accepted_witness:
  "result_of (node_publish_volume example_lib example_node example_node_server example_node_publish) = Inr ()"
proof -
  obtain S' where S': "result_of (controller_publish_volume example_lib (example_api example_time) example_server
      example_state (example_publish ''n1'' False)) = Inr (example_dict, S')"
    using example_publishes by blast
  have "ctl_reachable example_lib example_server example_state"
    using ctl_reachable.created [OF ctl_reachable.start [OF example_starts],
        where L = example_lib and A = "example_api example_time" and cr = example_create]
    by (simp add: example_creates left_state_def)
  from published_volume_is_accepted [OF this example_json_reads_back S', of example_node example_node_publish]
  show ?thesis
    by (simp add: programs_succeed_def example_node_def example_node_publish_def example_publish_def)
qed

section \<open>What a node reports\<close>

definition node_ok :: "NodeState \<Rightarrow> bool" where
  "node_ok S \<longleftrightarrow> bt_sorted (node_bindings S) \<and> (\<forall>(i, m)\<in>set (node_bindings S). vb_volume_id m = i)"

lemma node_okI:
  assumes "bt_sorted (node_bindings S)" and "\<And>i m. bt_get (node_bindings S) i = Some m \<Longrightarrow> vb_volume_id m = i"
  shows "node_ok S"
  using assms unfolding node_ok_def by (auto simp: bt.get_entries)

lemma node_ok_get: "node_ok S \<Longrightarrow> bt_get (node_bindings S) i = Some m \<Longrightarrow> vb_volume_id m = i"
  by (auto simp: node_ok_def bt.get_entries)

lemma node_ok_insert:
  assumes "node_ok S"
  shows "node_ok (S\<lparr>node_bindings := bt_insert (vb_volume_id m) m (node_bindings S)\<rparr>)"
proof (rule node_okI)
  show "bt_sorted (node_bindings (S\<lparr>node_bindings := bt_insert (vb_volume_id m) m (node_bindings S)\<rparr>))"
    using assms by (simp add: node_ok_def bt_sorted_insert)
  show "vb_volume_id x = i"
    if "bt_get (node_bindings (S\<lparr>node_bindings := bt_insert (vb_volume_id m) m (node_bindings S)\<rparr>)) i = Some x" for i x
    using that node_ok_get [OF assms, of i x] by (auto simp: bt_get_insert split: if_splits)
qed

lemma wp_tryE_any:
  assumes "\<And>e l. Q (Inl e) l" and "\<And>a l. wp (k a) Q l"
  shows "wp (tryE m k) Q l"
  by (rule wp_tryE_seq [of m "\<lambda>_ _. True"]) (auto simp: assms wp_def [of m])

inductive node_reachable :: "NodeServer \<Rightarrow> NodeState \<Rightarrow> bool" for srv where
  discovered: "result_of (discover A srv) = Inr S \<Longrightarrow> node_reachable srv S"
| asked: "node_reachable srv S \<Longrightarrow> result_of (handle_pond_allocate A srv kind r S) = Inr S' \<Longrightarrow> node_reachable srv S'"

lemma wp_handle_pond_allocate:
  "wp (handle_pond_allocate A srv kind r S) (\<lambda>res l'. \<forall>S'. res = Inr S' \<longrightarrow>
     (\<exists>b. alloc_binding r = Some b \<and> S' = S\<lparr>node_bindings := bt_insert (vb_volume_id b) b (node_bindings S)\<rparr>)) l"
proof -
  let ?Q = "\<lambda>res l'. \<forall>S'. res = Inr S' \<longrightarrow>
     (\<exists>b. alloc_binding r = Some b \<and> S' = S\<lparr>node_bindings := bt_insert (vb_volume_id b) b (node_bindings S)\<rparr>)"
  have "wp (tryE (execute A kind c) (\<lambda>_. ret (S\<lparr>node_bindings := bt_insert (vb_volume_id b) b (node_bindings S)\<rparr>))) ?Q l"
    if "alloc_binding r = Some b" for b c l
    using that by (intro wp_tryE_any) (auto simp: wp_ret)
  then show ?thesis
    by (auto simp: handle_pond_allocate_def parse_secrets_def wp_fail wp_tryE [of "lift_result _"] wp_lift_result
        split: option.split)
qed

lemma asked_state:
  assumes "result_of (handle_pond_allocate A srv kind r S) = Inr S'"
  obtains b where "alloc_binding r = Some b"
    and "S' = S\<lparr>node_bindings := bt_insert (vb_volume_id b) b (node_bindings S)\<rparr>"
  using wp_handle_pond_allocate [of A srv kind r S "[]"] assms unfolding wp_result by blast

lemma discovered_ok: "wp (discover A srv) (\<lambda>r l. \<forall>S. r = Inr S \<longrightarrow> node_ok S) l"
proof -
  have "node_ok \<lparr>node_bindings = bt_collect (map (\<lambda>m. (vb_volume_id m, m)) ms), node_devices = ds\<rparr>" for ms ds
    using set_bt_collect [of "map (\<lambda>m. (vb_volume_id m, m)) ms"] by (auto simp: node_ok_def bt_sorted_collect)
  then have "wp (tryE (discover_volumes A srv) (\<lambda>bs. ret \<lparr>node_bindings = bs, node_devices = ds\<rparr>))
      (\<lambda>r l. \<forall>S. r = Inr S \<longrightarrow> node_ok S) l" for ds l
    unfolding discover_volumes_def wp_tryE [of "tryE _ _"] by (intro wp_tryE_any) (auto simp: wp_ret)
  then have volumes: "wp (tryE (discover_volumes A srv) (\<lambda>bs. ret \<lparr>node_bindings = bs, node_devices = ds\<rparr>))
      (\<lambda>r l. \<forall>S. r = Inr S \<longrightarrow> node_ok S) l" for ds l .
  show ?thesis
    unfolding discover_def by (rule wp_tryE_any, simp, rule volumes)
qed

lemma node_reachable_ok: "node_reachable srv S \<Longrightarrow> node_ok S"
proof (induction rule: node_reachable.induct)
  case (discovered A S)
  then show ?case
    using discovered_ok [of A srv "[]"] unfolding wp_result by blast
next
  case (asked S A kind r S')
  from asked.hyps(2) show ?case
    by (rule asked_state) (simp add: node_ok_insert [OF asked.IH])
qed

lemma filter_by_key:
  assumes "bt_sorted es" and "\<forall>(k, m)\<in>set es. vb_volume_id m = k"
  shows "filter (\<lambda>m. vb_volume_id m = i) (map snd es) = (case bt_get es i of None \<Rightarrow> [] | Some m \<Rightarrow> [m])"
  using assms
proof (induction es)
  case Nil
  then show ?case by (simp add: bt_get_def)
next
  case (Cons e es)
  have tail: "bt_sorted es" and above: "\<forall>x\<in>set es. fst e < fst x"
    using Cons.prems(1) by (auto simp: bt_sorted_def)
  have "bt_get es (fst e) = None"
    using above by (auto simp: bt_get_def map_of_eq_None_iff)
  with Cons.IH [OF tail] Cons.prems(2) show ?case
    by (auto simp: bt_get_def)
qed

lemma reported_by_node:
  assumes "node_ok S"
  shows "filter (\<lambda>m. vb_volume_id m = i) (list_bindings (list_node_devices srv S)) =
    (case bt_get (node_bindings S) i of None \<Rightarrow> [] | Some m \<Rightarrow> [m])"
  unfolding list_node_devices_def ListDevicesResponse.simps
  by (rule filter_by_key) (use assms [unfolded node_ok_def] in blast)+

lemma filter_other_keys:
  "\<forall>(k, m)\<in>set es. vb_volume_id m = k \<Longrightarrow>
   filter (\<lambda>m. vb_volume_id m \<noteq> vb_volume_id b) (map snd (bt_insert (vb_volume_id b) b es)) =
   filter (\<lambda>m. vb_volume_id m \<noteq> vb_volume_id b) (map snd es)"
proof (induction es)
  case (Cons e es)
  then show ?case
    by (cases e) auto
qed simp

text \<open>A node keeps one binding of each volume: after a request of the controller the node reports exactly
  the binding of the request for its volume, and what it reported for other volumes.  This is so for
  an allocation, which replaces the binding of another device, and for a deallocation, which does not
  forget the binding.\<close>

theorem node_reports_last_binding:
  assumes "node_reachable srv S" and "alloc_binding r = Some b"
    and "result_of (allocate_volume A srv r S) = Inr S' \<or> result_of (deallocate_volume A srv r S) = Inr S'"
  shows "filter (\<lambda>m. vb_volume_id m = vb_volume_id b) (list_bindings (list_node_devices srv S')) = [b]
    \<and> filter (\<lambda>m. vb_volume_id m \<noteq> vb_volume_id b) (list_bindings (list_node_devices srv S')) =
      filter (\<lambda>m. vb_volume_id m \<noteq> vb_volume_id b) (list_bindings (list_node_devices srv S))"
proof -
  have ok: "node_ok S"
    using assms(1) by (rule node_reachable_ok)
  obtain kind where "result_of (handle_pond_allocate A srv kind r S) = Inr S'"
    using assms(3) unfolding allocate_volume_def deallocate_volume_def by blast
  then obtain b' where "alloc_binding r = Some b'"
      "S' = S\<lparr>node_bindings := bt_insert (vb_volume_id b') b' (node_bindings S)\<rparr>"
    by (rule asked_state)
  then have S': "S' = S\<lparr>node_bindings := bt_insert (vb_volume_id b) b (node_bindings S)\<rparr>"
    using assms(2) by simp
  have "filter (\<lambda>m. vb_volume_id m = vb_volume_id b) (list_bindings (list_node_devices srv S')) = [b]"
    unfolding S' reported_by_node [OF node_ok_insert [OF ok]] by (simp add: bt_get_insert)
  moreover have "filter (\<lambda>m. vb_volume_id m \<noteq> vb_volume_id b) (list_bindings (list_node_devices srv S')) =
      filter (\<lambda>m. vb_volume_id m \<noteq> vb_volume_id b) (list_bindings (list_node_devices srv S))"
    using ok by (simp add: S' list_node_devices_def node_ok_def filter_other_keys)
  ultimately show ?thesis ..
qed

lemma example_node_reachable: "node_reachable example_node_server example_node_state"
  by (rule node_reachable.discovered [OF example_discovers])

theorem node_reports_last_binding_witness:
  "\<exists>S'. result_of (deallocate_volume example_node example_node_server example_allocate example_node_state) = Inr S'
    \<and> filter (\<lambda>m. vb_volume_id m = ''pond_v'') (list_bindings (list_node_devices example_node_server S')) =
      [example_binding ''b'' 1]"
proof -
  have "\<not> isl (result_of (deallocate_volume example_node example_node_server example_allocate example_node_state))"
    by code_simp
  then obtain S' where S': "result_of (deallocate_volume example_node example_node_server example_allocate example_node_state) = Inr S'"
    by (cases "result_of (deallocate_volume example_node example_node_server example_allocate example_node_state)") auto
  show ?thesis
    using node_reports_last_binding [OF example_node_reachable, of example_allocate "example_binding ''b'' 1" example_node S'] S'
    by (auto simp: example_allocate_def example_binding_def)
qed

section \<open>After a restart of the controller\<close>

definition reported :: "string \<Rightarrow> (string \<times> Pond) list \<Rightarrow> VolumeBindingMetadata list" where
  "reported i ps = filter (\<lambda>m. vb_volume_id m = i) (concat (map (\<lambda>p. pond_bindings (snd p)) ps))"

lemma reported_simps [simp]:
  "reported i [] = []"
  "reported i (p # ps) = filter (\<lambda>m. vb_volume_id m = i) (pond_bindings (snd p)) @ reported i ps"
  by (simp_all add: reported_def)

lemma pond_claims_metadata: "pond_claims pid p ms = Inr cs \<Longrightarrow> map claim_metadata cs = ms"
  by (induction ms arbitrary: cs) (auto split: option.splits sum.splits)

lemma reported_claims_metadata: "reported_claims i ps = Inr cs \<Longrightarrow> map claim_metadata cs = reported i ps"
proof (induction ps arbitrary: cs)
  case (Cons p ps)
  then obtain cs1 cs2 where "pond_claims (fst p) (snd p) (filter (\<lambda>m. vb_volume_id m = i) (pond_bindings (snd p))) = Inr cs1"
    "reported_claims i ps = Inr cs2" "cs = cs1 @ cs2"
    by (auto split: sum.splits)
  then show ?case
    using Cons.IH pond_claims_metadata by simp
qed simp

text \<open>Every device that a binding names is reported by the same pond.\<close>

definition devices_known :: "(string \<times> Pond) list \<Rightarrow> bool" where
  "devices_known ps \<longleftrightarrow> (\<forall>(pid, p)\<in>set ps. \<forall>m\<in>set (pond_bindings p). find_device p (vb_device_id m) \<noteq> None)"

lemma pond_claims_found:
  "\<forall>m\<in>set ms. find_device p (vb_device_id m) \<noteq> None \<Longrightarrow> \<exists>cs. pond_claims pid p ms = Inr cs"
  by (induction ms) auto

lemma reported_claims_found: "devices_known ps \<Longrightarrow> \<exists>cs. reported_claims i ps = Inr cs"
proof (induction ps)
  case (Cons p ps)
  obtain cs2 where "reported_claims i ps = Inr cs2"
    using Cons by (auto simp: devices_known_def)
  moreover have "\<exists>cs. pond_claims (fst p) (snd p) (filter (\<lambda>m. vb_volume_id m = i) (pond_bindings (snd p))) = Inr cs"
    using Cons.prems by (intro pond_claims_found) (auto simp: devices_known_def)
  ultimately show ?case
    by auto
qed simp

lemma number_bindings_index:
  assumes "length cs < 2 ^ 31" and "k < length cs"
  shows "vb_index (claim_metadata (number_bindings cs ! k)) = int k"
    and "vb_total (claim_metadata (number_bindings cs ! k)) = int (length cs)"
  using assms by (simp_all add: number_bindings_def nth_enumerate_eq wrap32_id)

lemma length_number_bindings [simp]: "length (number_bindings cs) = length cs"
  by (simp add: number_bindings_def)

lemma sort_key_metadata:
  "sort_key (\<lambda>c. vb_index (claim_metadata c)) cs = sort_key (vb_index \<circ> claim_metadata) cs"
  by (simp add: comp_def)

lemma map_sort_key: "map f (sort_key (g \<circ> f) xs) = sort_key g (map f xs)"
proof -
  have "map f (insort_key (g \<circ> f) x ys) = insort_key g (f x) (map f ys)" for x ys
    by (induction ys) simp_all
  then show ?thesis
    by (induction xs) simp_all
qed

text \<open>Numbered bindings, reported in any order, are put back into their order.\<close>

lemma sorted_metadata:
  assumes "mset ms = mset (map claim_metadata (number_bindings cs))" and "length cs < 2 ^ 31"
  shows "sort_key vb_index ms = map claim_metadata (number_bindings cs)"
proof (rule sort_key_inj_key_eq)
  let ?ns = "map claim_metadata (number_bindings cs)"
  show "mset ms = mset ?ns"
    by (rule assms(1))
  have index: "map vb_index ?ns = map int [0..<length cs]"
    by (rule nth_equalityI) (simp_all add: number_bindings_index [OF assms(2)])
  then show "sorted (map vb_index ?ns)"
    by (simp add: sorted_map)
  have "distinct (map vb_index ?ns)"
    unfolding index by (simp add: distinct_map)
  then have "inj_on vb_index (set ?ns)"
    by (simp add: distinct_map del: map_map)
  then show "inj_on vb_index (set ms)"
    using mset_eq_setD [OF assms(1)] by simp
qed

lemma validate_numbered:
  assumes "mset (map claim_metadata ds) = mset (map claim_metadata (number_bindings cs))"
    and "cs \<noteq> []" and "length cs < 2 ^ 31"
  shows "\<exists>es. validate_claims ds = Inr es \<and> map claim_metadata es = map claim_metadata (number_bindings cs)"
proof -
  have len: "length ds = length cs"
    using mset_eq_length [OF assms(1)] by simp
  then obtain d ds' where ds: "ds = d # ds'"
    using assms(2) by (cases ds) auto
  have "claim_metadata d \<in> set (map claim_metadata (number_bindings cs))"
    using mset_eq_setD [OF assms(1)] by (simp add: ds) blast
  then have "vb_total (claim_metadata d) = int (length cs)"
    by (auto simp: in_set_conv_nth number_bindings_index [OF assms(3)])
  then have enough: "int (length ds) = as_usize (vb_total (claim_metadata (hd ds)))"
    using assms(3) len by (simp add: ds as_usize_id)
  let ?es = "sort_key (\<lambda>c. vb_index (claim_metadata c)) ds"
  have es: "map claim_metadata ?es = map claim_metadata (number_bindings cs)"
    unfolding sort_key_metadata map_sort_key by (rule sorted_metadata [OF assms(1,3)])
  have "vb_index (claim_metadata (?es ! k)) = int k" if "k < length cs" for k
  proof -
    have "claim_metadata (?es ! k) = claim_metadata (number_bindings cs ! k)"
      using arg_cong [OF es, of "\<lambda>ms. ms ! k"] that len by simp
    then show ?thesis
      using number_bindings_index [OF assms(3) that] by simp
  qed
  then have "\<not> list_ex (\<lambda>(i, c). int i \<noteq> as_usize (vb_index (claim_metadata c))) (enumerate 0 ?es)"
    using assms(3) len by (auto simp: list_ex_iff in_set_enumerate_eq as_usize_id)
  with enough es ds show ?thesis
    by (simp add: validate_claims_def Let_def del: sort_key_simps)
qed

text \<open>C15.
  A restart of the controller loses no volume (with a binding, and fewer than 2 to the 31 of them) whose
  bindings the nodes report, when every node also reports the devices of the bindings it reports: in
  whatever order they come, the volume found is made of the same bindings in the same order as the one that
  was created.\<close>

theorem recovered_after_restart:
  assumes "result_of (create_volume L A srv S r) = Inr (data, S')"
    and "get_volume S' (created_id data) = Some v"
    and "claim_bindings (vol_claim v) \<noteq> []" and "length (claim_bindings (vol_claim v)) < 2 ^ 31"
    and "mset (reported (created_id data) (ponds_data (ponds T))) = mset (map claim_metadata (claim_bindings (vol_claim v)))"
    and "devices_known (ponds_data (ponds T))" and "get_volume T (created_id data) = None"
  shows "\<exists>v'. get_volume_or_provision (created_id data) opts T = Inr (v', set_volume (created_id data) v' T)
    \<and> map claim_metadata (claim_bindings (vol_claim v')) = map claim_metadata (claim_bindings (vol_claim v))"
proof -
  have "created L S r data S'"
    using wp_create_volume [of L A srv S r "[]"] assms(1) by (simp add: wp_result)
  then obtain S1 opts' picked where i: "created_id data = volume_name (create_name r)"
    and S': "S' = store_volume (volume_name (create_name r)) (new_volume opts' picked) S1"
    by (rule created_from)
  have v: "v = new_volume opts' picked"
    using assms(2) by (simp add: S' i get_volume_created)
  obtain ds where ds: "reported_claims (created_id data) (ponds_data (ponds T)) = Inr ds"
    using reported_claims_found [OF assms(6)] by blast
  have "mset (map claim_metadata ds) = mset (map claim_metadata (number_bindings picked))"
    using assms(5) by (simp add: reported_claims_metadata [OF ds] v new_volume_def)
  moreover have "picked \<noteq> []" "length picked < 2 ^ 31"
    using assms(3,4) by (auto simp: v new_volume_def number_bindings_def)
  ultimately obtain es where "validate_claims ds = Inr es"
      "map claim_metadata es = map claim_metadata (number_bindings picked)"
    using validate_numbered by blast
  then show ?thesis
    using assms(7) ds by (simp add: get_volume_or_provision_def provision_def v new_volume_def)
qed

theorem recovered_after_restart_witness:
  "\<exists>v'. get_volume_or_provision ''pond_v'' options_default example_restarted = Inr (v', set_volume ''pond_v'' v' example_restarted)
    \<and> map claim_metadata (claim_bindings (vol_claim v')) = map claim_metadata (claim_bindings (vol_claim example_volume))"
proof -
  have "get_volume example_state (created_id example_created) = Some example_volume"
    by (simp add: get_volume_def example_state_simps example_created_def bt_get_def)
  moreover have "reported (created_id example_created) (ponds_data (ponds example_restarted)) =
      map claim_metadata (claim_bindings (vol_claim example_volume))"
    by code_simp
  moreover have "devices_known (ponds_data (ponds example_restarted))"
      "get_volume example_restarted (created_id example_created) = None"
      "claim_bindings (vol_claim example_volume) \<noteq> []"  "length (claim_bindings (vol_claim example_volume)) = 2"
    by code_simp+
  ultimately show ?thesis
    using recovered_after_restart [OF example_creates, of example_volume example_restarted options_default]
    by (simp add: example_created_def)
qed

text \<open>Each pond answered from a state of its node.\<close>

definition ponds_answered :: "(string \<times> Pond) list \<Rightarrow> bool" where
  "ponds_answered ps \<longleftrightarrow>
     (\<forall>(pid, p)\<in>set ps. \<exists>srv S. node_reachable srv S \<and> pond_bindings p = list_bindings (list_node_devices srv S))"

lemma reported_at_most_once: "ponds_answered ps \<Longrightarrow> length (reported i ps) \<le> length ps"
proof (induction ps)
  case (Cons p ps)
  obtain srv S where S: "node_reachable srv S" "pond_bindings (snd p) = list_bindings (list_node_devices srv S)"
    using Cons.prems by (cases p) (auto simp: ponds_answered_def)
  have "length (filter (\<lambda>m. vb_volume_id m = i) (pond_bindings (snd p))) \<le> 1"
    unfolding S(2) reported_by_node [OF node_reachable_ok [OF S(1)]] by (auto split: option.split)
  moreover have "length (reported i ps) \<le> length ps"
    using Cons by (simp add: ponds_answered_def)
  ultimately show ?case
    by simp
qed simp

text \<open>A volume with more bindings than there are nodes is lost when the controller restarts: a node
  reports one binding of the volume at most, so that the others are missing and every later request
  for the volume fails.\<close>

theorem volume_beyond_nodes_is_lost:
  assumes "ponds_answered (ponds_data (ponds T))" and "get_volume T i = None"
    and "\<forall>m\<in>set (reported i (ponds_data (ponds T))). vb_total m = int n"
    and "length (ponds_data (ponds T)) < n" and "n < 2 ^ 31"
  shows "\<exists>e. get_volume_or_provision i opts T = Inl e"
proof (cases "reported_claims i (ponds_data (ponds T))")
  case (Inl e)
  then show ?thesis
    using assms(2) by (simp add: get_volume_or_provision_def provision_def)
next
  case (Inr cs)
  have metadata: "map claim_metadata cs = reported i (ponds_data (ponds T))"
    by (rule reported_claims_metadata [OF Inr])
  have "length cs < n"
    using reported_at_most_once [OF assms(1), of i] assms(4) arg_cong [OF metadata, of length] by simp
  moreover have "as_usize (vb_total (claim_metadata (hd cs))) = int n" if "cs \<noteq> []"
  proof -
    have "claim_metadata (hd cs) \<in> set (map claim_metadata cs)"
      using that by simp
    then show ?thesis
      unfolding metadata using assms(3,5) by (simp add: as_usize_id)
  qed
  ultimately have "\<exists>e. validate_claims cs = Inl e"
    by (auto simp: validate_claims_def Let_def)
  then show ?thesis
    using Inr assms(2) by (auto simp: get_volume_or_provision_def provision_def)
qed

theorem volume_beyond_nodes_is_lost_witness:
  "\<exists>e. get_volume_or_provision ''pond_v'' options_default (state_default\<lparr>ponds := \<lparr>ponds_created_at = example_time,
     ponds_data = [pond_of ''10.0.0.1'' (list_node_devices example_node_server example_node_state)]\<rparr>\<rparr>) = Inl e"
proof -
  have "ponds_answered [pond_of ''10.0.0.1'' (list_node_devices example_node_server example_node_state)]"
    using example_node_reachable by (auto simp: ponds_answered_def pond_of_def)
  then show ?thesis
    using volume_beyond_nodes_is_lost [of "state_default\<lparr>ponds := \<lparr>ponds_created_at = example_time,
        ponds_data = [pond_of ''10.0.0.1'' (list_node_devices example_node_server example_node_state)]\<rparr>\<rparr>" "''pond_v''" 2]
    by (simp add: state_default_def get_volume_def bt_get_def reported_def pond_of_def list_node_devices_def
        example_node_state_def example_binding_def)
qed

section \<open>Deleting what was created\<close>

definition i64_range :: "int \<Rightarrow> bool" where
  "i64_range n \<longleftrightarrow> - (2 ^ 63) \<le> n \<and> n < 2 ^ 63"

definition reserved_on :: "DeviceKey \<Rightarrow> VolumeBindingClaim list \<Rightarrow> int" where
  "reserved_on k cs = sum_list (map (\<lambda>c. if claim_key c = k then vb_reserved (claim_metadata c) else 0) cs)"

lemma reserved_on_simps [simp]:
  "reserved_on k [] = 0"
  "reserved_on k (c # cs) = (if claim_key c = k then vb_reserved (claim_metadata c) else 0) + reserved_on k cs"
  by (simp_all add: reserved_on_def)

lemma wrap64_wrap: "wrap64 (wrap64 a + b) = wrap64 (a + b)"
proof -
  have "wrap64 (wrap64 a + b) = ((a + 2 ^ 63) mod 2 ^ 64 + b) mod 2 ^ 64 - 2 ^ 63"
    unfolding wrap64_def by (simp add: algebra_simps)
  also have "\<dots> = wrap64 (a + b)"
    unfolding wrap64_def mod_add_left_eq by (simp add: algebra_simps)
  finally show ?thesis .
qed

lemma wrap64_wrap_minus: "wrap64 (wrap64 a - b) = wrap64 (a - b)"
  using wrap64_wrap [of a "- b"] by simp

lemma wrap64_i64: "i64_range n \<Longrightarrow> wrap64 n = n"
  by (simp add: i64_range_def wrap64_id)

lemma i64_range_wrap64: "i64_range (wrap64 n)"
  using wrap64_range [of n] by (simp add: i64_range_def)

lemma fold_add_reserved:
  assumes "i64_range (unwrap_or 0 (m k))"
  shows "unwrap_or 0 (fold add_allocated cs m k) = wrap64 (unwrap_or 0 (m k) + reserved_on k cs)
    \<and> (k \<in> claim_key ` set cs \<longrightarrow> fold add_allocated cs m k \<noteq> None)"
  using assms
proof (induction cs arbitrary: m)
  case Nil
  then show ?case by (simp add: wrap64_i64)
next
  case (Cons c cs)
  have here: "unwrap_or 0 (add_allocated c m k) =
      wrap64 (unwrap_or 0 (m k) + (if claim_key c = k then vb_reserved (claim_metadata c) else 0))"
    using Cons.prems by (auto simp: add_allocated_def wrap64_i64)
  have kept: "fold add_allocated cs m' k \<noteq> None" if "m' k \<noteq> None" for m'
    using that by (induction cs arbitrary: m') (auto simp: add_allocated_def)
  have IH: "unwrap_or 0 (fold add_allocated cs (add_allocated c m) k) =
      wrap64 (unwrap_or 0 (add_allocated c m k) + reserved_on k cs)
      \<and> (k \<in> claim_key ` set cs \<longrightarrow> fold add_allocated cs (add_allocated c m) k \<noteq> None)"
    by (rule Cons.IH) (simp only: here i64_range_wrap64)
  then have "unwrap_or 0 (fold add_allocated (c # cs) m k) = wrap64 (unwrap_or 0 (m k) + reserved_on k (c # cs))"
    unfolding here wrap64_wrap by (simp add: add.assoc)
  moreover have "fold add_allocated (c # cs) m k \<noteq> None" if "k \<in> claim_key ` set (c # cs)"
  proof (cases "claim_key c = k")
    case True
    then have "add_allocated c m k \<noteq> None"
      by (auto simp: add_allocated_def)
    then show ?thesis
      using kept [of "add_allocated c m"] by simp
  next
    case False
    then show ?thesis
      using IH that by simp
  qed
  ultimately show ?case
    by blast
qed

lemma fold_sub_reserved:
  assumes "i64_range (unwrap_or 0 (m k))" and "k \<in> claim_key ` set cs \<Longrightarrow> m k \<noteq> None"
  shows "unwrap_or 0 (fold sub_allocated cs m k) = wrap64 (unwrap_or 0 (m k) - reserved_on k cs)"
  using assms
proof (induction cs arbitrary: m)
  case Nil
  then show ?case by (simp add: wrap64_i64)
next
  case (Cons c cs)
  have here: "unwrap_or 0 (sub_allocated c m k) =
      wrap64 (unwrap_or 0 (m k) - (if claim_key c = k then vb_reserved (claim_metadata c) else 0))"
    using Cons.prems by (auto simp: sub_allocated_def wrap64_i64 split: option.splits)
  have "sub_allocated c m k \<noteq> None" if "m k \<noteq> None"
    using that by (auto simp: sub_allocated_def split: option.splits)
  then have "unwrap_or 0 (fold sub_allocated cs (sub_allocated c m) k) =
      wrap64 (unwrap_or 0 (sub_allocated c m k) - reserved_on k cs)"
    using Cons.prems(2) by (intro Cons.IH) (simp_all only: here i64_range_wrap64, auto)
  then show ?case
    unfolding here wrap64_wrap_minus by (simp add: algebra_simps)
qed

lemma remove_inserted: "bt_get m k = None \<Longrightarrow> bt_remove k (bt_insert k v m) = m"
proof (induction m)
  case (Cons e m)
  then have "fst e \<noteq> k" "bt_get m k = None"
    by (auto simp: bt_get_def split: if_splits)
  moreover from this have "bt_remove k m = m"
    unfolding bt_remove_def by (intro filter_True) (auto simp: bt_get_def map_of_eq_None_iff)
  ultimately show ?case
    using Cons.IH by (cases e) (auto simp: bt_remove_def)
qed (simp add: bt_remove_def)

lemma store_then_drop:
  assumes "get_volume S i = None" and "\<forall>k. i64_range (unwrap_or 0 (allocated S k))"
  shows "volumes (drop_volume i v (store_volume i v S)) = volumes S
    \<and> (\<forall>k. unwrap_or 0 (allocated (drop_volume i v (store_volume i v S)) k) = unwrap_or 0 (allocated S k))"
proof -
  let ?cs = "claim_bindings (vol_claim v)"
  have "unwrap_or 0 (fold sub_allocated ?cs (fold add_allocated ?cs (allocated S)) k) = unwrap_or 0 (allocated S k)" for k
  proof -
    have add: "unwrap_or 0 (fold add_allocated ?cs (allocated S) k) = wrap64 (unwrap_or 0 (allocated S k) + reserved_on k ?cs)"
        "k \<in> claim_key ` set ?cs \<Longrightarrow> fold add_allocated ?cs (allocated S) k \<noteq> None"
      using fold_add_reserved [of "allocated S" k ?cs] assms(2) by blast+
    have "unwrap_or 0 (fold sub_allocated ?cs (fold add_allocated ?cs (allocated S)) k) =
        wrap64 (wrap64 (unwrap_or 0 (allocated S k) + reserved_on k ?cs) - reserved_on k ?cs)"
      unfolding add(1) [symmetric] by (rule fold_sub_reserved) (simp only: add(1) i64_range_wrap64, rule add(2))
    also have "\<dots> = unwrap_or 0 (allocated S k)"
      using wrap64_i64 [OF assms(2) [THEN spec, of k]] by (simp add: wrap64_wrap_minus)
    finally show ?thesis .
  qed
  moreover have "volumes (drop_volume i v (store_volume i v S)) = volumes S"
    using assms(1) by (simp add: drop_volume_def store_volume_def get_volume_def remove_inserted)
  ultimately show ?thesis
    by (simp add: drop_volume_def store_volume_def)
qed

lemma wp_ask_all_done:
  assumes "\<forall>l c. ans_allocate A l c = Inr ()"
  shows "wp (ask_all A request cs) (\<lambda>r l'. r = Inr (Inr ()) \<and> l' = l @ map request cs) l"
proof (induction cs arbitrary: l)
  case Nil
  then show ?case by (simp add: wp_ret)
next
  case (Cons c cs)
  have "wp (ask_all A request cs) (\<lambda>r l'. r = Inr (Inr ()) \<and> l' = l @ map request (c # cs)) (l @ [request c])"
    by (rule wp_mono [OF Cons.IH]) simp
  with assms show ?case
    by (simp add: wp_matchE wp_call)
qed

text \<open>Deleting a volume undoes its creation: the space accounted to every device and the volumes that are
  known are what they were, even when the sums have wrapped.\<close>

theorem delete_undoes_create:
  assumes "result_of (create_volume L A srv S r) = Inr (data, S')"
    and "get_volume S (volume_name (create_name r)) = None" and "\<forall>k. i64_range (unwrap_or 0 (allocated S k))"
    and "delete_volume_id q = created_id data"
    and "\<forall>l c. ans_allocate B l c = Inr ()" and "pond_clock B [] < ponds_created_at (ponds S') + pond_ttl srv"
  shows "\<exists>S''. result_of (delete_volume L B srv S' q) = Inr S'' \<and> volumes S'' = volumes S
    \<and> (\<forall>k. unwrap_or 0 (allocated S'' k) = unwrap_or 0 (allocated S k))"
proof -
  have "created L S r data S'"
    using wp_create_volume [of L A srv S r "[]"] assms(1) by (simp add: wp_result)
  then obtain S1 opts picked where i: "created_id data = volume_name (create_name r)"
    and S1: "S1 = S\<lparr>ponds := ponds S'\<rparr>"
    and S': "S' = store_volume (volume_name (create_name r)) (new_volume opts picked) S1"
    by (rule created_from)
  let ?i = "created_id data" and ?v = "new_volume opts picked"
  have found: "get_volume_or_provision ?i options_default S' = Inr (?v, S')"
    unfolding S' i by (simp add: get_volume_or_provision_def get_volume_created)
  have "wp (delete_volume L B srv S' q) (\<lambda>res l. res = Inr (drop_volume ?i ?v S')) []"
    unfolding delete_volume_def Let_def parse_secrets_def with_state_simps wp_tryE [of "fetch_ponds _ _ _"]
      fetch_cached [of B "[]" S' srv, OF assms(6)] sum.case assms(4) found deallocate_claim_def
    by (simp add: new_volume_def)
      (rule wp_tryE_seq [OF wp_ask_all_done [OF assms(5)]], auto simp: wp_ret)
  moreover have "get_volume S1 ?i = None" "\<forall>k. i64_range (unwrap_or 0 (allocated S1 k))"
    using assms(2,3) by (simp_all add: S1 i get_volume_def)
  from store_then_drop [OF this, of ?v]
  have "volumes (drop_volume ?i ?v S') = volumes S
      \<and> (\<forall>k. unwrap_or 0 (allocated (drop_volume ?i ?v S') k) = unwrap_or 0 (allocated S k))"
    unfolding i S' [symmetric] by (simp add: S1)
  ultimately show ?thesis
    unfolding wp_result by blast
qed

theorem delete_undoes_create_witness:
  "\<exists>S''. result_of (delete_volume example_lib (example_api example_time) example_server example_state
     \<lparr>delete_volume_id = ''pond_v'', delete_secrets = []\<rparr>) = Inr S'' \<and> volumes S'' = []
     \<and> unwrap_or 0 (allocated S'' (''n1'', ''a'')) = 0"
proof -
  have "ponds_created_at (ponds example_state) = example_time"
    by (simp add: example_state_simps example_ponds_def)
  then show ?thesis
    using delete_undoes_create [OF example_creates, of "\<lparr>delete_volume_id = ''pond_v'', delete_secrets = []\<rparr>" "example_api example_time"]
    by (simp add: example_api_def example_created_def example_start_def state_default_def get_volume_def bt_get_def i64_range_def
        example_server_def new_server_def seconds_def) blast
qed

section \<open>Requests that wrap\<close>

lemma fill_replicas_Nil: "fill_replicas n required tot [] = ([], tot)"
  by (induction n arbitrary: tot) simp_all

text \<open>When there is no device at all, a volume is created exactly when the total of the request, the
  capacity times the replicas, wraps to a number that is not positive.\<close>

theorem created_from_nothing:
  assumes "required_capacity r = Some bytes"
    and "apply_volume_capabilities (create_capabilities r) (volume_options (default_fs_type srv)) = Inr opts"
    and "parse_attributes_all L [create_parameters r, mutable_parameters r] = Inr a"
    and "\<not> create_content_source r"
    and "ponds_data (ponds S) = []" and "pond_clock A [] < ponds_created_at (ponds S) + pond_ttl srv"
  shows "(\<exists>data S'. result_of (create_volume L A srv S r) = Inr (data, S')
      \<and> (\<exists>v. get_volume S' (created_id data) = Some v \<and> claim_bindings (vol_claim v) = []))
    = (wrap64 (wrap64 bytes * num_replicas a) \<le> 0)"
proof -
  have none: "available_bindings S i req = []" for i req
    by (simp add: available_bindings_def candidates_def assms(5) List.map_filter_def bt_collect_def)
  have margin: "wrap64 (bytes + 0) = wrap64 bytes"
    by simp
  have "wp (create_volume L A srv S r) (\<lambda>res l. (\<exists>data S'. res = Inr (data, S')
      \<and> (\<exists>v. get_volume S' (created_id data) = Some v \<and> claim_bindings (vol_claim v) = []))
    = (wrap64 (wrap64 bytes * num_replicas a) \<le> 0)) []"
    using assms(4)
    by (simp add: create_volume_def Let_def assms(1-3) with_state_simps parse_secrets_def wp_tryE wp_fail wp_ret
        fetch_cached [of A "[]" S srv, OF assms(6)] none pick_bindings_def fill_replicas_Nil wp_fail_state
        number_bindings_def topology_segments_def allocate_claim_def get_volume_created)
  then show ?thesis
    unfolding wp_result .
qed

theorem created_from_nothing_witness:
  "\<exists>data S'. result_of (create_volume example_lib (example_api 0) example_server state_default
      (example_create\<lparr>required_capacity := Some (2 ^ 62), create_parameters := [(KEY_NUM_REPLICAS, ''4'')]\<rparr>)) = Inr (data, S')
    \<and> (\<exists>v. get_volume S' (created_id data) = Some v \<and> claim_bindings (vol_claim v) = [])"
proof -
  let ?r = "example_create\<lparr>required_capacity := Some (2 ^ 62), create_parameters := [(KEY_NUM_REPLICAS, ''4'')]\<rparr>"
  have "parse_attributes_all example_lib [create_parameters ?r, mutable_parameters ?r] =
      Inr (example_attributes\<lparr>attr_num_replicas := Some ''4''\<rparr>)"
    by code_simp
  moreover have "num_replicas (example_attributes\<lparr>attr_num_replicas := Some ''4''\<rparr>) = 4"
    by code_simp
  ultimately show ?thesis
    using created_from_nothing [of ?r "2 ^ 62" example_server "volume_options ''ext4''" example_lib
        "example_attributes\<lparr>attr_num_replicas := Some ''4''\<rparr>" state_default "example_api 0"]
    by (simp add: example_create_def example_server_def new_server_def state_default_def example_api_def seconds_def wrap64_def)
qed

end
