(* ===== verification/Lake_Pipe.thy ===== *)
theory Lake_Pipe
  imports Ark_Std
begin

text \<open>
  The files and pipes of the runtime of dark lake
  (\<^verbatim>\<open>contrib/dark-lake-rt-io-uring/src/pipe.rs\<close>): identifiers, handles, and two pools.
  The pool of pipes counts the ends that are in use and hands a pipe out again when both ends have come
  back.  Calls of the operating system are a parameter.
\<close>

unbundle bit_operations_syntax

section \<open>Identifiers and handles\<close>

type_synonym PipeID = u32

definition PIPE_INIT :: PipeID where
  "PIPE_INIT = 1"

definition ID_MAX :: u32 where
  "ID_MAX = - 1"

text \<open>The identifier that is handed out, and the next seed.\<close>

definition pipe_id_next :: "PipeID \<Rightarrow> PipeID \<times> PipeID" where
  "pipe_id_next seed = (seed, if seed = ID_MAX then PIPE_INIT else seed + 1)"

record PipeKind =
  kind_tx :: bool
  kind_rx :: bool

definition KIND_FILE :: PipeKind where
  "KIND_FILE = \<lparr>kind_tx = True, kind_rx = True\<rparr>"

definition KIND_TX :: PipeKind where
  "KIND_TX = \<lparr>kind_tx = True, kind_rx = False\<rparr>"

definition KIND_RX :: PipeKind where
  "KIND_RX = \<lparr>kind_tx = False, kind_rx = True\<rparr>"

record PipeState =
  offset :: i64
  len :: i64

definition UNLIMITED :: PipeState where
  "UNLIMITED = \<lparr>offset = - 1, len = - 1\<rparr>"

record Pipe =
  pipe_kind :: PipeKind
  pipe_id :: PipeID
  pipe_fd :: int
  pipe_buf_size :: i32
  pipe_state :: PipeState

text \<open>\<^verbatim>\<open>Pipe::update\<close>.\<close>

definition pipe_update :: "Pipe \<Rightarrow> Pipe \<Rightarrow> Pipe" where
  "pipe_update p q = p\<lparr>pipe_state := pipe_state q\<rparr>"

section \<open>System calls\<close>

datatype sys_call =
  Open string int u32
| Metadata int
| PipeTwo
| SetPipeSize int i32

record sys_api =
  ans_open :: "sys_call list \<Rightarrow> sys_call \<Rightarrow> string + int"
  ans_metadata :: "sys_call list \<Rightarrow> sys_call \<Rightarrow> string + u64"
  ans_pipe2 :: "sys_call list \<Rightarrow> sys_call \<Rightarrow> string + int \<times> int"
  ans_set_size :: "sys_call list \<Rightarrow> sys_call \<Rightarrow> string + unit"

type_synonym 'a sys = "(sys_call, string, 'a) eff"

section \<open>Files\<close>

definition O_WRONLY :: u32 where
  "O_WRONLY = 1"

text \<open>The length is taken from the metadata unless the bit of \<^verbatim>\<open>O_WRONLY\<close> is set, which the
  code looks for in the mode.\<close>

definition open_file :: "sys_api \<Rightarrow> PipeID \<Rightarrow> string \<Rightarrow> int \<Rightarrow> u32 \<Rightarrow> Pipe sys" where
  "open_file A i path oflag mode =
     (if CHR 0x00 \<in> set path then fail ''nul byte found in provided data''
      else
        tryE (call (ans_open A) (Open path oflag mode)) (\<lambda>fd.
        tryE (if mode AND O_WRONLY = O_WRONLY then ret 0
              else tryE (call (ans_metadata A) (Metadata fd)) (\<lambda>n. ret (wrap64 (uint n)))) (\<lambda>n.
        ret \<lparr>pipe_kind = KIND_FILE, pipe_id = i, pipe_fd = fd, pipe_buf_size = - 1,
          pipe_state = \<lparr>offset = 0, len = n\<rparr>\<rparr>)))"

record PipePool =
  files :: "PipeID \<Rightarrow> Pipe option"
  file_seed :: PipeID

definition pipe_pool_default :: PipePool where
  "pipe_pool_default = \<lparr>files = (\<lambda>_. None), file_seed = 0\<rparr>"

text \<open>The seed moves on although the file cannot be opened.\<close>

definition register_file ::
  "sys_api \<Rightarrow> string \<Rightarrow> int \<Rightarrow> u32 \<Rightarrow> PipePool \<Rightarrow> (sys_call, string \<times> PipePool, Pipe \<times> PipePool) eff" where
  "register_file A path oflag mode P =
     (case pipe_id_next (file_seed P) of
        (i, seed) \<Rightarrow>
          matchE (open_file A i path oflag mode)
            (\<lambda>e. fail (e, P\<lparr>file_seed := seed\<rparr>))
            (\<lambda>p. ret (p, \<lparr>files = (files P)(i \<mapsto> p), file_seed = seed\<rparr>)))"

text \<open>A handle that comes back; \<^verbatim>\<open>None\<close> is a panic.\<close>

definition enqueue_file :: "Pipe \<Rightarrow> PipePool \<Rightarrow> PipePool option" where
  "enqueue_file p P =
     (case files P (pipe_id p) of
        None \<Rightarrow> None
      | Some q \<Rightarrow> Some (P\<lparr>files := (files P)(pipe_id p \<mapsto> pipe_update q p)\<rparr>))"

section \<open>Pipes\<close>

record Pipe2 =
  tx :: Pipe
  rx :: Pipe

record Pipe2Pin =
  pin_data :: Pipe2
  refcnt :: u8

record Pipe2Pool =
  pool_buf_size :: i32
  pins :: "PipeID \<Rightarrow> Pipe2Pin option"
  pool_queue :: "PipeID list"
  pool_seed :: PipeID

definition pipe2_pool_new :: "i32 \<Rightarrow> Pipe2Pool" where
  "pipe2_pool_new n = \<lparr>pool_buf_size = n, pins = (\<lambda>_. None), pool_queue = [], pool_seed = 0\<rparr>"

definition pipe2_new :: "sys_api \<Rightarrow> PipeID \<Rightarrow> i32 \<Rightarrow> Pipe2 sys" where
  "pipe2_new A i n =
     tryE (call (ans_pipe2 A) PipeTwo) (\<lambda>(fd_rx, fd_tx).
     tryE (if n > 0 then call (ans_set_size A) (SetPipeSize fd_rx n) else ret ()) (\<lambda>_.
     ret \<lparr>tx = \<lparr>pipe_kind = KIND_TX, pipe_id = i, pipe_fd = fd_tx, pipe_buf_size = n, pipe_state = UNLIMITED\<rparr>,
       rx = \<lparr>pipe_kind = KIND_RX, pipe_id = i, pipe_fd = fd_rx, pipe_buf_size = n, pipe_state = UNLIMITED\<rparr>\<rparr>))"

text \<open>A pipe from the pool: one from the back of the queue, or a new one.  The error \<^verbatim>\<open>None\<close>
  is a panic.\<close>

definition dequeue_pipe ::
  "sys_api \<Rightarrow> Pipe2Pool \<Rightarrow> (sys_call, string option \<times> Pipe2Pool, Pipe2 \<times> Pipe2Pool) eff" where
  "dequeue_pipe A P =
     (if pool_queue P \<noteq> [] then
        let i = last (pool_queue P); P' = P\<lparr>pool_queue := butlast (pool_queue P)\<rparr> in
        case pins P i of
          None \<Rightarrow> fail (None, P')
        | Some pin \<Rightarrow> ret (pin_data pin, P'\<lparr>pins := (pins P)(i \<mapsto> pin\<lparr>refcnt := refcnt pin + 2\<rparr>)\<rparr>)
      else
        case pipe_id_next (pool_seed P) of
          (i, seed) \<Rightarrow>
            matchE (pipe2_new A i (pool_buf_size P))
              (\<lambda>e. fail (Some e, P\<lparr>pool_seed := seed\<rparr>))
              (\<lambda>d. ret (d, P\<lparr>pins := (pins P)(i \<mapsto> \<lparr>pin_data = d, refcnt = 2\<rparr>), pool_seed := seed\<rparr>)))"

text \<open>An end of a pipe that comes back.\<close>

definition return_tx :: "Pipe \<Rightarrow> Pipe2Pin \<Rightarrow> Pipe2Pin" where
  "return_tx p pin = (if kind_tx (pipe_kind p)
     then pin\<lparr>pin_data := (pin_data pin)\<lparr>tx := pipe_update (tx (pin_data pin)) p\<rparr>, refcnt := refcnt pin - 1\<rparr>
     else pin)"

definition return_rx :: "Pipe \<Rightarrow> Pipe2Pin \<Rightarrow> Pipe2Pin" where
  "return_rx p pin = (if kind_rx (pipe_kind p)
     then pin\<lparr>pin_data := (pin_data pin)\<lparr>rx := pipe_update (rx (pin_data pin)) p\<rparr>, refcnt := refcnt pin - 1\<rparr>
     else pin)"

definition enqueue_pipe :: "Pipe \<Rightarrow> Pipe2Pool \<Rightarrow> Pipe2Pool option" where
  "enqueue_pipe p P =
     (case pins P (pipe_id p) of
        None \<Rightarrow> None
      | Some pin \<Rightarrow>
          let pin = return_rx p (return_tx p pin) in
          Some (P\<lparr>pins := (pins P)(pipe_id p \<mapsto> pin),
            pool_queue := (if refcnt pin = 0 then pool_queue P @ [pipe_id p] else pool_queue P)\<rparr>))"

section \<open>Pipes in use\<close>

text \<open>The pool with the pipes whose ends are in use: both ends of a pipe that is taken, until each comes
  back.  The identifiers have not run out.\<close>

inductive pool_reachable :: "i32 \<Rightarrow> Pipe2Pool \<Rightarrow> PipeID set \<Rightarrow> PipeID set \<Rightarrow> bool" for n where
  start: "pool_reachable n (pipe2_pool_new n) {} {}"
| take_pipe: "\<lbrakk>pool_reachable n P TX RX; pool_seed P \<noteq> ID_MAX; result_of (dequeue_pipe A P) = Inr (d, P')\<rbrakk>
    \<Longrightarrow> pool_reachable n P' (insert (pipe_id (tx d)) TX) (insert (pipe_id (rx d)) RX)"
| give_tx: "\<lbrakk>pool_reachable n P TX RX; pipe_id p \<in> TX; pipe_kind p = KIND_TX; enqueue_pipe p P = Some P'\<rbrakk>
    \<Longrightarrow> pool_reachable n P' (TX - {pipe_id p}) RX"
| give_rx: "\<lbrakk>pool_reachable n P TX RX; pipe_id p \<in> RX; pipe_kind p = KIND_RX; enqueue_pipe p P = Some P'\<rbrakk>
    \<Longrightarrow> pool_reachable n P' TX (RX - {pipe_id p})"

definition in_use :: "PipeID set \<Rightarrow> PipeID set \<Rightarrow> PipeID \<Rightarrow> u8" where
  "in_use TX RX i = (if i \<in> TX then 1 else 0) + (if i \<in> RX then 1 else 0)"

definition pin_ok :: "PipeID \<Rightarrow> Pipe2Pin \<Rightarrow> bool" where
  "pin_ok i pin \<longleftrightarrow> pipe_id (tx (pin_data pin)) = i \<and> pipe_id (rx (pin_data pin)) = i"

definition pool_ok :: "Pipe2Pool \<Rightarrow> PipeID set \<Rightarrow> PipeID set \<Rightarrow> bool" where
  "pool_ok P TX RX \<longleftrightarrow>
     (\<forall>i pin. pins P i = Some pin \<longrightarrow> i < pool_seed P \<and> pin_ok i pin \<and> refcnt pin = in_use TX RX i)
     \<and> TX \<union> RX \<subseteq> dom (pins P)
     \<and> distinct (pool_queue P) \<and> set (pool_queue P) = {i \<in> dom (pins P). i \<notin> TX \<union> RX}"

lemma in_use_zero: "in_use TX RX i = 0 \<longleftrightarrow> i \<notin> TX \<union> RX"
  by (simp add: in_use_def)

lemma wp_pipe2_new: "wp (pipe2_new A i n) (\<lambda>r l. \<forall>d. r = Inr d \<longrightarrow> pipe_id (tx d) = i \<and> pipe_id (rx d) = i) l"
  by (auto simp: pipe2_new_def eff_simps split: sum.split)

text \<open>A pipe that has been taken from the pool.\<close>

definition taken :: "Pipe2Pool \<Rightarrow> Pipe2 \<Rightarrow> Pipe2Pool \<Rightarrow> bool" where
  "taken P d P' \<longleftrightarrow>
     (pool_queue P \<noteq> [] \<and> (\<exists>pin. pins P (last (pool_queue P)) = Some pin \<and> d = pin_data pin
        \<and> P' = P\<lparr>pool_queue := butlast (pool_queue P),
            pins := (pins P)(last (pool_queue P) \<mapsto> pin\<lparr>refcnt := refcnt pin + 2\<rparr>)\<rparr>))
     \<or> (pool_queue P = [] \<and> pipe_id (tx d) = pool_seed P \<and> pipe_id (rx d) = pool_seed P
        \<and> P' = P\<lparr>pins := (pins P)(pool_seed P \<mapsto> \<lparr>pin_data = d, refcnt = 2\<rparr>),
            pool_seed := snd (pipe_id_next (pool_seed P))\<rparr>)"

lemma wp_dequeue_pipe: "wp (dequeue_pipe A P) (\<lambda>r l. \<forall>d P'. r = Inr (d, P') \<longrightarrow> taken P d P') l"
proof (cases "pool_queue P = []")
  case True
  have "wp (pipe2_new A (pool_seed P) n)
      (\<lambda>r l. case r of Inl e \<Rightarrow> True | Inr d \<Rightarrow> taken P d (P\<lparr>pins := (pins P)(pool_seed P \<mapsto> \<lparr>pin_data = d, refcnt = 2\<rparr>),
            pool_seed := snd (pipe_id_next (pool_seed P))\<rparr>)) l" for n
    by (rule wp_mono [OF wp_pipe2_new]) (auto simp: taken_def True split: sum.split)
  with True show ?thesis
    by (simp add: dequeue_pipe_def pipe_id_next_def wp_matchE wp_fail wp_ret cong: sum.case_cong)
next
  case False
  then show ?thesis
    by (auto simp: dequeue_pipe_def Let_def wp_fail wp_ret taken_def split: option.split)
qed

lemma taken_ok:
  assumes ok: "pool_ok P TX RX" and seed: "pool_seed P \<noteq> ID_MAX" and taken: "taken P d P'"
  shows "pool_ok P' (insert (pipe_id (tx d)) TX) (insert (pipe_id (rx d)) RX)
    \<and> pipe_id (rx d) = pipe_id (tx d) \<and> pipe_id (tx d) \<notin> TX \<union> RX"
proof (cases "pool_queue P = []")
  case False
  let ?i = "last (pool_queue P)"
  obtain pin where pin: "pins P ?i = Some pin" "d = pin_data pin"
    and P': "P' = P\<lparr>pool_queue := butlast (pool_queue P), pins := (pins P)(?i \<mapsto> pin\<lparr>refcnt := refcnt pin + 2\<rparr>)\<rparr>"
    using taken False unfolding taken_def by blast
  have queue: "distinct (pool_queue P)" "set (pool_queue P) = {i \<in> dom (pins P). i \<notin> TX \<union> RX}"
    using ok by (simp_all add: pool_ok_def)
  have free: "?i \<notin> TX \<union> RX"
    using queue(2) last_in_set [OF False] by auto
  have ids: "pipe_id (tx d) = ?i" "pipe_id (rx d) = ?i"
    using ok pin by (auto simp: pool_ok_def pin_ok_def)
  obtain q where q: "pool_queue P = q @ [?i]"
    using append_butlast_last_id [OF False] by metis
  have parts: "butlast (pool_queue P) = q" "distinct q" "?i \<notin> set q"
    using queue(1) q by (metis butlast_snoc, metis distinct_append, metis distinct_butlast distinct_append not_distinct_conv_prefix)
  have "set (pool_queue P) = insert ?i (set q)"
    by (subst q) simp
  with parts(3) have "set q = {i \<in> dom (pins P). i \<notin> TX \<union> RX} - {?i}"
    unfolding queue(2) by auto
  with parts have "distinct (butlast (pool_queue P))"
    "set (butlast (pool_queue P)) = {i \<in> dom (pins P). i \<notin> TX \<union> RX} - {?i}"
    by simp_all
  then show ?thesis
    using ok free pin unfolding pool_ok_def P' ids by (auto simp: queue in_use_def pin_ok_def)
next
  case True
  then have d: "pipe_id (tx d) = pool_seed P" "pipe_id (rx d) = pool_seed P"
    and P': "P' = P\<lparr>pins := (pins P)(pool_seed P \<mapsto> \<lparr>pin_data = d, refcnt = 2\<rparr>), pool_seed := pool_seed P + 1\<rparr>"
    using taken seed by (auto simp: taken_def pipe_id_next_def)
  have "1 + pool_seed P \<noteq> 0"
    using seed unfolding ID_MAX_def by (metis add.commute eq_neg_iff_add_eq_0)
  then have "unat (pool_seed P + 1) = Suc (unat (pool_seed P))"
    by (simp add: unatSuc add.commute)
  then have next_seed: "pool_seed P < pool_seed P + 1"
    by (simp add: word_less_nat_alt)
  have fresh: "pool_seed P \<notin> dom (pins P)"
    using ok by (auto simp: pool_ok_def)
  then show ?thesis
    using ok True next_seed unfolding pool_ok_def P' d
    by (auto simp: in_use_def pin_ok_def d dom_def intro: less_trans)
qed

lemma return_ok:
  assumes ok: "pool_ok P TX RX" and pin: "pins P i = Some pin" and ids: "pin_ok i pin'"
    and use: "refcnt pin' = in_use TX' RX' i" and i: "i \<in> TX \<union> RX"
    and others: "\<forall>j. j \<noteq> i \<longrightarrow> (j \<in> TX') = (j \<in> TX) \<and> (j \<in> RX') = (j \<in> RX)" "TX' \<union> RX' \<subseteq> TX \<union> RX"
    and P': "P' = P\<lparr>pins := (pins P)(i \<mapsto> pin'), pool_queue := (if refcnt pin' = 0 then pool_queue P @ [i] else pool_queue P)\<rparr>"
  shows "pool_ok P' TX' RX'"
proof -
  have queue: "distinct (pool_queue P)" "set (pool_queue P) = {j \<in> dom (pins P). j \<notin> TX \<union> RX}"
    using ok by (simp_all add: pool_ok_def)
  have zero: "refcnt pin' = 0 \<longleftrightarrow> i \<notin> TX' \<union> RX'"
    unfolding use by (rule in_use_zero)
  have "i \<notin> set (pool_queue P)"
    using i queue(2) by auto
  moreover have "in_use TX' RX' j = in_use TX RX j" if "j \<noteq> i" for j
    using others(1) that by (simp add: in_use_def)
  moreover have "dom (pins P') = dom (pins P)"
    using pin by (auto simp: P')
  moreover have "set (pool_queue P') = {j \<in> dom (pins P). j \<notin> TX' \<union> RX'}"
    using queue(2) zero others pin i by (auto simp: P')
  ultimately show ?thesis
    using ok ids use queue(1) others(2) pin unfolding pool_ok_def by (auto simp: P')
qed

lemma enqueue_tx_ok:
  assumes ok: "pool_ok P TX RX" and p: "pipe_id p \<in> TX" "pipe_kind p = KIND_TX" and P': "enqueue_pipe p P = Some P'"
  shows "pool_ok P' (TX - {pipe_id p}) RX"
proof -
  obtain pin where pin: "pins P (pipe_id p) = Some pin" "refcnt pin = in_use TX RX (pipe_id p)" "pin_ok (pipe_id p) pin"
    using ok p(1) by (auto simp: pool_ok_def)
  show ?thesis
  proof (rule return_ok [OF ok pin(1), where pin' = "return_rx p (return_tx p pin)"])
    show "pin_ok (pipe_id p) (return_rx p (return_tx p pin))"
      using pin(3) by (simp add: pin_ok_def return_rx_def return_tx_def pipe_update_def)
    show "refcnt (return_rx p (return_tx p pin)) = in_use (TX - {pipe_id p}) RX (pipe_id p)"
      using pin(2) p by (simp add: return_rx_def return_tx_def KIND_TX_def in_use_def)
    show "P' = P\<lparr>pins := (pins P)(pipe_id p \<mapsto> return_rx p (return_tx p pin)), pool_queue :=
        (if refcnt (return_rx p (return_tx p pin)) = 0 then pool_queue P @ [pipe_id p] else pool_queue P)\<rparr>"
      using P' pin(1) by (simp add: enqueue_pipe_def Let_def)
  qed (use p in auto)
qed

lemma enqueue_rx_ok:
  assumes ok: "pool_ok P TX RX" and p: "pipe_id p \<in> RX" "pipe_kind p = KIND_RX" and P': "enqueue_pipe p P = Some P'"
  shows "pool_ok P' TX (RX - {pipe_id p})"
proof -
  obtain pin where pin: "pins P (pipe_id p) = Some pin" "refcnt pin = in_use TX RX (pipe_id p)" "pin_ok (pipe_id p) pin"
    using ok p(1) by (auto simp: pool_ok_def)
  show ?thesis
  proof (rule return_ok [OF ok pin(1), where pin' = "return_rx p (return_tx p pin)"])
    show "pin_ok (pipe_id p) (return_rx p (return_tx p pin))"
      using pin(3) by (simp add: pin_ok_def return_rx_def return_tx_def pipe_update_def)
    show "refcnt (return_rx p (return_tx p pin)) = in_use TX (RX - {pipe_id p}) (pipe_id p)"
      using pin(2) p by (simp add: return_rx_def return_tx_def KIND_RX_def in_use_def)
    show "P' = P\<lparr>pins := (pins P)(pipe_id p \<mapsto> return_rx p (return_tx p pin)), pool_queue :=
        (if refcnt (return_rx p (return_tx p pin)) = 0 then pool_queue P @ [pipe_id p] else pool_queue P)\<rparr>"
      using P' pin(1) by (simp add: enqueue_pipe_def Let_def)
  qed (use p in auto)
qed

lemma dequeue_taken: "result_of (dequeue_pipe A P) = Inr (d, P') \<Longrightarrow> taken P d P'"
  using wp_dequeue_pipe [of A P "[]"] unfolding wp_result by blast

lemma pool_reachable_ok: "pool_reachable n P TX RX \<Longrightarrow> pool_ok P TX RX"
proof (induction rule: pool_reachable.induct)
  case start
  then show ?case by (simp add: pool_ok_def pipe2_pool_new_def)
next
  case (take_pipe P TX RX A d P')
  then show ?case using taken_ok dequeue_taken by blast
next
  case (give_tx P TX RX p P')
  then show ?case by (intro enqueue_tx_ok)
next
  case (give_rx P TX RX p P')
  then show ?case by (intro enqueue_rx_ok)
qed

text \<open>A pipe is never shared: while any end of a pipe is in use the pool does not hand that pipe out
  again, whatever was taken and given back before; both ends that are handed out belong to one
  pipe.\<close>

theorem pipes_not_shared:
  assumes "pool_reachable n P TX RX" and "pool_seed P \<noteq> ID_MAX"
    and "result_of (dequeue_pipe A P) = Inr (d, P')"
  shows "pipe_id (rx d) = pipe_id (tx d) \<and> pipe_id (tx d) \<notin> TX \<and> pipe_id (tx d) \<notin> RX"
  using taken_ok [OF pool_reachable_ok [OF assms(1)] assms(2) dequeue_taken [OF assms(3)]] by simp

text \<open>A system that answers every call.\<close>

definition example_sys :: sys_api where
  "example_sys = \<lparr>ans_open = (\<lambda>l _. Inr (10 + int (length l))), ans_metadata = (\<lambda>_ _. Inr 10000000),
     ans_pipe2 = (\<lambda>_ _. Inr (5, 6)), ans_set_size = (\<lambda>_ _. Inr ())\<rparr>"

theorem pipes_not_shared_witness:
  "\<exists>d1 P1 d2 P2. result_of (dequeue_pipe example_sys (pipe2_pool_new 4096)) = Inr (d1, P1)
     \<and> result_of (dequeue_pipe example_sys P1) = Inr (d2, P2) \<and> pipe_id (tx d2) \<noteq> pipe_id (tx d1)"
proof -
  let ?P = "pipe2_pool_new 4096"
  obtain d1 P1 where first: "result_of (dequeue_pipe example_sys ?P) = Inr (d1, P1)" "pool_seed P1 = 1" "pool_queue P1 = []"
    by (simp add: result_of_def dequeue_pipe_def pipe2_pool_new_def pipe_id_next_def matchE_def pipe2_new_def tryE_def
        call_def ret_def fail_def example_sys_def ID_MAX_def)
  obtain d2 P2 where second: "result_of (dequeue_pipe example_sys P1) = Inr (d2, P2)"
    using first by (simp add: result_of_def dequeue_pipe_def pipe_id_next_def matchE_def pipe2_new_def tryE_def
        call_def ret_def fail_def example_sys_def ID_MAX_def)
  have "pool_reachable 4096 P1 {pipe_id (tx d1)} {pipe_id (rx d1)}"
    by (rule pool_reachable.take_pipe [OF pool_reachable.start _ first(1)]) (simp add: pipe2_pool_new_def ID_MAX_def)
  from pipes_not_shared [OF this _ second] first second show ?thesis
    by (auto simp: ID_MAX_def)
qed

text \<open>The length of a file that is opened depends on its mode: with a mode that lets others execute the
  file its length counts as 0, also when it is opened for reading.\<close>

theorem executable_file_is_empty:
  assumes "result_of (open_file A i path oflag mode) = Inr p" and "mode AND 1 = 1"
  shows "len (pipe_state p) = 0 \<and> Metadata (pipe_fd p) \<notin> set (calls_of (open_file A i path oflag mode))"
proof -
  have "wp (open_file A i path oflag mode) (\<lambda>r l. \<forall>p. r = Inr p \<longrightarrow>
      len (pipe_state p) = 0 \<and> Metadata (pipe_fd p) \<notin> set l) []"
    using assms(2) by (auto simp: open_file_def O_WRONLY_def eff_simps split: sum.split)
  with assms(1) show ?thesis
    unfolding wp_result by blast
qed

theorem executable_file_is_empty_witness:
  "\<exists>p. result_of (open_file example_sys 0 ''/bin/true'' 0 0x1ED) = Inr p \<and> len (pipe_state p) = 0"
proof -
  obtain p where p: "result_of (open_file example_sys 0 ''/bin/true'' 0 0x1ED) = Inr p"
    by (simp add: result_of_def open_file_def O_WRONLY_def tryE_def call_def ret_def example_sys_def)
  then show ?thesis
    using executable_file_is_empty [OF p] by simp
qed

end
