(* ===== verification/Lake_Program.thy ===== *)
theory Lake_Program
  imports Lake_Pipe
begin

text \<open>
  Programs of the runtime of dark lake and how they are polled
  (\<^verbatim>\<open>contrib/dark-lake-rt-io-uring/src\<close>: \<^verbatim>\<open>prog\<close>, \<^verbatim>\<open>handler.rs\<close>,
  \<^verbatim>\<open>sched.rs\<close>, the contexts of \<^verbatim>\<open>proc.rs\<close> and the handler of
  \<^verbatim>\<open>lib.rs\<close>).  A poll pushes submissions into the buffer of the handler, and it changes the
  program as it goes: what it has changed stays, also when the ring is full.
\<close>

section \<open>Processes and interrupts\<close>

type_synonym ProcessID = u32

definition PID_INIT :: ProcessID where
  "PID_INIT = 1"

definition process_id_next :: "ProcessID \<Rightarrow> ProcessID \<times> ProcessID" where
  "process_id_next seed = (seed, if seed = ID_MAX then PID_INIT + 1 else seed + 1)"

datatype Phase = Init | Running | Terminating

definition set_running :: "Phase \<Rightarrow> Phase" where
  "set_running ph = (case ph of Init \<Rightarrow> Running | _ \<Rightarrow> ph)"

record Context =
  ctx_pid :: ProcessID
  ctx_phase :: Phase
  ctx_count :: nat

datatype RunState = Retry | Sleep | Terminate

datatype SystemInterrupt = Completed | Panic

text \<open>\<open>Unreachable\<close> is a panic of the program.\<close>

datatype Interrupt = EmptyPipe | Full | Halt | System SystemInterrupt | Unreachable string

section \<open>Submissions\<close>

text \<open>\<^verbatim>\<open>SPLICE_F_NONBLOCK\<close> and \<^verbatim>\<open>SPLICE_F_MOVE\<close> are always set; \<open>splice_more\<close> is
  \<^verbatim>\<open>SPLICE_F_MORE\<close>.\<close>

datatype op =
  Read (read_fd: int)
| SpliceOp (fd_in: int) (off_in: i64) (fd_out: int) (off_out: i64) (splice_len: u32) (splice_more: bool)

record Entry =
  entry_op :: op
  user_data :: u64

definition build_entry :: "op \<Rightarrow> Entry" where
  "build_entry x = \<lparr>entry_op = x, user_data = 0\<rparr>"

definition EOS :: u64 where
  "EOS = 1"

definition pack_pid :: "ProcessID \<Rightarrow> u64" where
  "pack_pid p = push_bit 32 (ucast p)"

definition entry_pid :: "u64 \<Rightarrow> ProcessID" where
  "entry_pid d = ucast (drop_bit 32 d)"

definition entry_eos :: "u64 \<Rightarrow> bool" where
  "entry_eos d \<longleftrightarrow> (ucast d :: u32) AND 1 = 1"

record Handler =
  buf :: "Entry list"
  capacity :: nat

text \<open>\<^verbatim>\<open>poll_closure\<close>: the ring may be full.\<close>

definition poll_closure :: "Context \<Rightarrow> Entry \<Rightarrow> Handler \<Rightarrow> (Interrupt + unit) \<times> Handler" where
  "poll_closure c e h =
     (if capacity h = 0 then (Inl Full, h)
      else (Inr (), h\<lparr>capacity := capacity h - 1, buf := buf h @ [e\<lparr>user_data := pack_pid (ctx_pid c)\<rparr>]\<rparr>))"

definition closure_poll :: "Entry \<Rightarrow> Context \<times> Handler \<Rightarrow> (Interrupt + RunState) \<times> Context \<times> Handler" where
  "closure_poll e ch =
     (case ch of (c, h) \<Rightarrow>
        (case poll_closure c e h of
           (Inl i, h) \<Rightarrow> (Inl i, c, h)
         | (Inr _, h) \<Rightarrow> (Inr Sleep, c\<lparr>ctx_count := ctx_count c + 1\<rparr>, h)))"

text \<open>\<^verbatim>\<open>exit_closure\<close>: the last submission of a poll is marked.  The code takes it with
  \<^verbatim>\<open>unwrap\<close>; there is one, since the count is that of the submissions that the poll has
  appended (\<open>pushes\<close> in \<open>Lake_System\<close>).\<close>

definition mark_eos :: "Entry \<Rightarrow> Entry" where
  "mark_eos e = e\<lparr>user_data := user_data e OR EOS\<rparr>"

definition exit_closure :: "Context \<Rightarrow> Handler \<Rightarrow> Handler" where
  "exit_closure c h =
     (if ctx_count c > 0 then h\<lparr>buf := butlast (buf h) @ [mark_eos (last (buf h))]\<rparr> else h)"

section \<open>Programs\<close>

record Splice =
  sp_rx :: Pipe
  sp_tx :: Pipe
  remaining :: i64

text \<open>The signal number is what the read has put into the buffer of the program.\<close>

datatype ProgramState =
  Nop
| Serial "ProgramState list"
| Signal (signal_fd: int) (signo: int)
| SpliceState Splice

record Program =
  prog_state :: ProgramState
  prog_kernel :: bool

definition program_new :: "ProgramState \<Rightarrow> Program" where
  "program_new p = \<lparr>prog_state = p, prog_kernel = False\<rparr>"

definition on_kernel :: "Program \<Rightarrow> Program" where
  "on_kernel p = p\<lparr>prog_kernel := True\<rparr>"

definition SIGINT :: int where
  "SIGINT = 2"

definition SIGTERM :: int where
  "SIGTERM = 15"

definition splice_buf_size :: "i32 \<Rightarrow> i32 \<Rightarrow> i32" where
  "splice_buf_size a b = (if a = - 1 then b else if b = - 1 then a else min a b)"

definition move_offset :: "i64 \<Rightarrow> Pipe \<Rightarrow> Pipe" where
  "move_offset chunk p =
     (if offset (pipe_state p) \<noteq> - 1
      then p\<lparr>pipe_state := (pipe_state p)\<lparr>offset := wrap64 (offset (pipe_state p) + chunk)\<rparr>\<rparr>
      else p)"

text \<open>What is left to move: known from the length of a file at its first poll.\<close>

definition splice_remaining :: "Splice \<Rightarrow> i64" where
  "splice_remaining s =
     (let st = pipe_state (sp_rx s) in
      if remaining s = - 1 \<and> offset st \<noteq> - 1 \<and> len st \<noteq> - 1 then wrap64 (len st - offset st)
      else remaining s)"

text \<open>The program after one round, and the operation of the round.\<close>

definition splice_round :: "Splice \<Rightarrow> Splice \<times> op" where
  "splice_round s =
     (let size = splice_buf_size (pipe_buf_size (sp_rx s)) (pipe_buf_size (sp_tx s));
          left = splice_remaining s;
          chunk = (if left \<noteq> - 1 then min size left else size);
          left = (if left \<noteq> - 1 then wrap64 (left - chunk) else left)
      in (\<lparr>sp_rx = move_offset chunk (sp_rx s), sp_tx = move_offset chunk (sp_tx s), remaining = left\<rparr>,
          SpliceOp (pipe_fd (sp_rx s)) (offset (pipe_state (sp_rx s))) (pipe_fd (sp_tx s)) (offset (pipe_state (sp_tx s)))
            (word_of_int chunk) (left > 0)))"

fun poll :: "ProgramState \<Rightarrow> Context \<times> Handler \<Rightarrow> (Interrupt + RunState) \<times> ProgramState \<times> Context \<times> Handler"
  and poll_children ::
    "ProgramState list \<Rightarrow> Context \<times> Handler \<Rightarrow> (Interrupt + RunState) \<times> ProgramState list \<times> Context \<times> Handler" where
  "poll Nop ch = (Inr Terminate, Nop, ch)"
| "poll (Serial ps) ch = (case poll_children ps ch of (r, ps, ch) \<Rightarrow> (r, Serial ps, ch))"
| "poll (Signal fd sig) ch =
     (if ctx_phase (fst ch) = Init
      then (case closure_poll (build_entry (Read fd)) ch of (r, ch) \<Rightarrow> (r, Signal fd sig, ch))
      else if sig = SIGINT \<or> sig = SIGTERM then (Inl Halt, Signal fd sig, ch)
      else (Inl (Unreachable (''Received unhandled signal: '' @ int_str sig)), Signal fd sig, ch))"
| "poll (SpliceState s) ch =
     (if ctx_phase (fst ch) = Terminating \<or> remaining s = 0 then (Inr Terminate, SpliceState s, ch)
      else (case splice_round s of (s, x) \<Rightarrow>
        (case closure_poll (build_entry x) ch of (r, ch) \<Rightarrow> (r, SpliceState s, ch))))"
| "poll_children [] ch = (Inr Sleep, [], ch)"
| "poll_children (p # ps) ch =
     (case poll p ch of
        (Inl i, p, ch) \<Rightarrow> (Inl i, p # ps, ch)
      | (Inr Retry, p, ch) \<Rightarrow> (Inr Retry, p # ps, ch)
      | (Inr Terminate, p, ch) \<Rightarrow> (Inr Terminate, p # ps, ch)
      | (Inr Sleep, p, ch) \<Rightarrow> (case poll_children ps ch of (r, ps, ch) \<Rightarrow> (r, p # ps, ch)))"

text \<open>\<^verbatim>\<open>poll_within\<close>: the context is a copy, the handler is not.\<close>

definition poll_within :: "Context \<Rightarrow> ProgramState \<Rightarrow> Handler \<Rightarrow> (Interrupt + RunState) \<times> ProgramState \<times> Handler" where
  "poll_within c p h = (case poll p (c, h) of (r, p, c, h) \<Rightarrow> (r, p, exit_closure c h))"

end
