(* ===== verification/Lake_Kernel.thy ===== *)
theory Lake_Kernel
  imports Lake_Program "HOL-Library.Multiset"
begin

text \<open>
  The kernel of the runtime of dark lake (\<^verbatim>\<open>contrib/dark-lake-rt-io-uring/src\<close>:
  \<^verbatim>\<open>proc.rs\<close>, \<^verbatim>\<open>sched.rs\<close> and the loop of \<^verbatim>\<open>lib.rs\<close>).  The scheduler polls
  processes, which push submissions into a buffer; a commit hands the buffer to the ring, and the
  completions of marked submissions put their process back into the queue.  Which submissions complete
  when is up to the operating system: a turn of the kernel says how many completions it waits for, and a
  step takes any choice of them from what is in flight.
\<close>

section \<open>Processes\<close>

record Process =
  proc_ctx :: Context
  proc_prog :: Program
  proc_next :: "ProcessID list"
  proc_sink :: "ProcessID list"

datatype Next = Forget | Reschedule | RetryNext | Later "ProcessID list"

record ControlGroups =
  kernel_pids :: "ProcessID list"
  group_files :: PipePool
  group_pipes :: Pipe2Pool
  procs :: "(ProcessID \<times> Process) list"
  group_seed :: ProcessID
  terminating :: bool

definition groups_default :: ControlGroups where
  "groups_default = \<lparr>kernel_pids = [], group_files = pipe_pool_default, group_pipes = pipe2_pool_new (2 ^ 20),
     procs = [], group_seed = PID_INIT, terminating = False\<rparr>"

definition remove_key :: "'k \<Rightarrow> ('k \<times> 'v) list \<Rightarrow> ('k \<times> 'v) list" where
  "remove_key k m = filter (\<lambda>e. fst e \<noteq> k) m"

definition completed :: "ControlGroups \<Rightarrow> bool" where
  "completed G \<longleftrightarrow> length (kernel_pids G) \<le> length (procs G)
     \<and> list_all (\<lambda>e. fst e \<in> set (kernel_pids G)) (procs G)"

definition spawn :: "Program \<Rightarrow> ControlGroups \<Rightarrow> ProcessID \<times> ControlGroups" where
  "spawn p G =
     (case process_id_next (group_seed G) of
        (pid, seed) \<Rightarrow>
          (pid, G\<lparr>group_seed := seed,
             kernel_pids := (if prog_kernel p then List.insert pid (kernel_pids G) else kernel_pids G),
             procs := bt_insert pid \<lparr>proc_ctx = \<lparr>ctx_pid = pid, ctx_phase = Init, ctx_count = 0\<rparr>, proc_prog = p,
               proc_next = [], proc_sink = []\<rparr> (procs G)\<rparr>))"

text \<open>A pipe that comes back, and the end of all groups.\<close>

definition dealloc_pipe :: "Pipe \<Rightarrow> ControlGroups \<Rightarrow> ControlGroups option" where
  "dealloc_pipe p G =
     (case enqueue_pipe p (group_pipes G) of None \<Rightarrow> None | Some Q \<Rightarrow> Some (G\<lparr>group_pipes := Q\<rparr>))"

definition groups_exit :: "ControlGroups \<Rightarrow> ControlGroups" where
  "groups_exit G = G\<lparr>kernel_pids := [], procs := [], group_seed := PID_INIT, terminating := False\<rparr>"

text \<open>What a poll makes the kernel do; \<open>Panicked\<close> is a panic.\<close>

datatype poll_outcome = NextStep Next | Stopped SystemInterrupt | Panicked string

definition terminate :: "ProcessID \<Rightarrow> ControlGroups \<Rightarrow> poll_outcome \<times> ControlGroups" where
  "terminate pid G =
     (case bt_get (procs G) pid of
        None \<Rightarrow> (Panicked ''missing process'', G\<lparr>kernel_pids := removeAll pid (kernel_pids G)\<rparr>)
      | Some p \<Rightarrow>
          let G = G\<lparr>kernel_pids := removeAll pid (kernel_pids G), procs := remove_key pid (procs G)\<rparr> in
          (if proc_next p \<noteq> [] then NextStep (Later (proc_next p))
           else if completed G then Stopped Completed else NextStep Forget, G))"

definition set_phase :: "Phase \<Rightarrow> Process \<Rightarrow> Process" where
  "set_phase ph p = p\<lparr>proc_ctx := (proc_ctx p)\<lparr>ctx_phase := ph\<rparr>\<rparr>"

definition set_prog :: "ProgramState \<Rightarrow> Process \<Rightarrow> Process" where
  "set_prog st p = p\<lparr>proc_prog := (proc_prog p)\<lparr>prog_state := st\<rparr>\<rparr>"

definition put_proc :: "ProcessID \<Rightarrow> Process \<Rightarrow> ControlGroups \<Rightarrow> ControlGroups" where
  "put_proc pid p G = G\<lparr>procs := bt_insert pid p (procs G)\<rparr>"

text \<open>What follows from the result of a program.\<close>

definition after_poll ::
  "ProcessID \<Rightarrow> Process \<Rightarrow> Interrupt + RunState \<Rightarrow> ControlGroups \<Rightarrow> poll_outcome \<times> ControlGroups" where
  "after_poll pid p r G =
     (case r of
        Inr Retry \<Rightarrow> (NextStep RetryNext, put_proc pid p G)
      | Inr Sleep \<Rightarrow> (NextStep Forget, put_proc pid (set_phase (set_running (ctx_phase (proc_ctx p))) p) G)
      | Inr Terminate \<Rightarrow> terminate pid (put_proc pid p G)
      | Inl EmptyPipe \<Rightarrow> (NextStep RetryNext, put_proc pid p G)
      | Inl Full \<Rightarrow> (NextStep Reschedule, put_proc pid p G)
      | Inl Halt \<Rightarrow> terminate pid (put_proc pid (set_phase Terminating p) (G\<lparr>terminating := True\<rparr>))
      | Inl (System i) \<Rightarrow> (Stopped i, put_proc pid p G)
      | Inl (Unreachable e) \<Rightarrow> (Panicked e, put_proc pid p G))"

definition groups_poll :: "ProcessID \<Rightarrow> ControlGroups \<Rightarrow> Handler \<Rightarrow> poll_outcome \<times> ControlGroups \<times> Handler" where
  "groups_poll pid G h =
     (case bt_get (procs G) pid of
        None \<Rightarrow> (Panicked (''missing process: '' @ word_str pid), G, h)
      | Some p \<Rightarrow>
          let p = (if terminating G then set_phase Terminating p else p) in
          (case poll_within (proc_ctx p) (prog_state (proc_prog p)) h of
             (r, st, h) \<Rightarrow> (case after_poll pid (set_prog st p) r G of (x, G) \<Rightarrow> (x, G, h))))"

section \<open>The kernel\<close>

text \<open>The queue of the scheduler, the handler, and what the ring has in flight.\<close>

record Machine =
  groups :: ControlGroups
  rq :: "ProcessID list"
  handler :: Handler
  in_flight :: "Entry list"

definition entries :: nat where
  "entries = 4"

text \<open>The buffer goes to the ring; or it is dropped.\<close>

definition commit :: "Machine \<Rightarrow> Machine" where
  "commit M = M\<lparr>in_flight := in_flight M @ buf (handler M), handler := (handler M)\<lparr>buf := []\<rparr>\<rparr>"

definition cancel :: "Machine \<Rightarrow> Machine" where
  "cancel M = M\<lparr>handler := (handler M)\<lparr>buf := []\<rparr>\<rparr>"

text \<open>A turn goes on at once, or waits for completions; \<open>Finished\<close> leaves the loop.\<close>

datatype turn = Go Machine | Wait nat Machine | Finished | Crashed string

definition kernel_turn :: "Machine \<Rightarrow> turn" where
  "kernel_turn M =
     (case rq M of
        [] \<Rightarrow> Wait 1 (commit M)
      | pid # rest \<Rightarrow>
          (case groups_poll pid (groups M) (handler M) of
             (x, G, h) \<Rightarrow>
               let M = M\<lparr>groups := G, rq := rest, handler := h\<rparr> in
               (case x of
                  NextStep Forget \<Rightarrow> Go M
                | NextStep (Later pids) \<Rightarrow> Wait 0 ((commit M)\<lparr>rq := rest @ pids\<rparr>)
                | NextStep Reschedule \<Rightarrow> Wait 1 ((cancel M)\<lparr>rq := pid # rest\<rparr>)
                | NextStep RetryNext \<Rightarrow> Wait 0 ((cancel M)\<lparr>rq := rest @ [pid]\<rparr>)
                | Stopped Completed \<Rightarrow> Finished
                | Stopped Panic \<Rightarrow> Crashed ''kernel panic''
                | Panicked e \<Rightarrow> Crashed e)))"

text \<open>The completions: the ring has room again, and marked ones request their process.\<close>

definition wakes :: "Entry list \<Rightarrow> ProcessID list" where
  "wakes cs = map (\<lambda>e. entry_pid (user_data e)) (filter (\<lambda>e. entry_eos (user_data e)) cs)"

definition absorb :: "Entry list \<Rightarrow> Entry list \<Rightarrow> Machine \<Rightarrow> Machine" where
  "absorb cs rest M = M\<lparr>handler := (handler M)\<lparr>capacity := capacity (handler M) + length cs\<rparr>, in_flight := rest,
     rq := rq M @ wakes cs\<rparr>"

text \<open>A read that completes may have put the number of a signal into the program that asked for it.\<close>

definition is_read :: "Entry \<Rightarrow> bool" where
  "is_read e \<longleftrightarrow> (case entry_op e of Read _ \<Rightarrow> True | SpliceOp _ _ _ _ _ _ \<Rightarrow> False)"

definition set_signo :: "int \<Rightarrow> ProgramState \<Rightarrow> ProgramState" where
  "set_signo n st = (case st of Signal fd _ \<Rightarrow> Signal fd n | _ \<Rightarrow> st)"

definition deliver :: "(ProcessID \<Rightarrow> int option) \<Rightarrow> Entry list \<Rightarrow> ControlGroups \<Rightarrow> ControlGroups" where
  "deliver sig cs G = G\<lparr>procs := map (\<lambda>(pid, p).
     (pid, case sig pid of
        Some n \<Rightarrow> if \<exists>c\<in>set cs. is_read c \<and> entry_pid (user_data c) = pid
          then set_prog (set_signo n (prog_state (proc_prog p))) p else p
      | None \<Rightarrow> p)) (procs G)\<rparr>"

text \<open>A wait ends with at least as many completions as it asks for, in any order.  An error of the ring while waiting
  ends the kernel, so that there is no step for it.\<close>

inductive kernel_step :: "Machine \<Rightarrow> Machine \<Rightarrow> bool" where
  go: "kernel_turn M = Go M' \<Longrightarrow> kernel_step M M'"
| wait: "\<lbrakk>kernel_turn M = Wait n M1; n \<le> length cs; mset (in_flight M1) = mset cs + mset rest\<rbrakk>
    \<Longrightarrow> kernel_step M (absorb cs rest (M1\<lparr>groups := deliver sig cs (groups M1)\<rparr>))"

section \<open>Boot\<close>

definition OPEN_IN :: int where
  "OPEN_IN = 2048"

definition OPEN_OUT :: int where
  "OPEN_OUT = 1 + 2048 + 16384 + 64 + 512"

definition MODE :: u32 where
  "MODE = 420"

definition transfer :: "Pipe \<Rightarrow> Pipe \<Rightarrow> Pipe2 \<Rightarrow> ProgramState" where
  "transfer src dst p = Serial [SpliceState \<lparr>sp_rx = src, sp_tx = tx p, remaining = - 1\<rparr>,
     SpliceState \<lparr>sp_rx = rx p, sp_tx = dst, remaining = - 1\<rparr>]"

definition boot_machine :: "ProcessID \<Rightarrow> Pipe \<Rightarrow> Pipe \<Rightarrow> Pipe2 \<Rightarrow> ControlGroups \<Rightarrow> Machine" where
  "boot_machine sig_pid src dst p G =
     (case spawn (program_new (transfer src dst p)) G of
        (pid, G) \<Rightarrow> \<lparr>groups = G, rq = [sig_pid, pid], handler = \<lparr>buf = [], capacity = entries\<rparr>, in_flight = []\<rparr>)"

text \<open>The signal process, the two files and the pipe between them.\<close>

definition boot :: "sys_api \<Rightarrow> int \<Rightarrow> Machine sys" where
  "boot A sigfd =
     (case spawn (on_kernel (program_new (Signal sigfd 0))) groups_default of
        (sig_pid, G) \<Rightarrow>
          matchE (register_file A ''/tmp/bigfile'' OPEN_IN MODE (group_files G)) (\<lambda>(e, _). fail e) (\<lambda>(src, F).
          matchE (register_file A ''/tmp/bigfile2'' OPEN_OUT MODE F) (\<lambda>(e, _). fail e) (\<lambda>(dst, F).
          matchE (dequeue_pipe A (group_pipes G)) (\<lambda>(e, _). fail (case e of None \<Rightarrow> ''missing pipe2'' | Some e \<Rightarrow> e)) (\<lambda>(p, Q).
          ret (boot_machine sig_pid src dst p (G\<lparr>group_files := F, group_pipes := Q\<rparr>))))))"

end
