(* ===== verification/Lake_System.thy ===== *)
theory Lake_System
  imports Lake_Kernel
begin

text \<open>
  What the kernel of dark lake keeps.  The room of the ring and the queue of the scheduler are invariants of
  every step that can follow the boot; the transfer of a file ends after as many rounds as its length
  asks for; and a full ring is the case that the runtime does not survive: the retry loses a chunk of
  the file and a slot of the ring, until nothing moves any more.
\<close>

unbundle bit_operations_syntax

section \<open>The mark of a submission\<close>

lemma packed [simp]:
  "entry_pid (pack_pid p) = p" "entry_pid (pack_pid p OR EOS) = p" "\<not> entry_eos (pack_pid p)" "entry_eos (pack_pid p OR EOS)"
proof -
  show "entry_pid (pack_pid p) = p" "entry_pid (pack_pid p OR EOS) = p"
    by (auto simp: entry_pid_def pack_pid_def EOS_def bit_simps intro!: bit_word_eqI)
  have "(ucast (pack_pid p) :: u32) AND 1 = 0" "(ucast (pack_pid p OR EOS) :: u32) AND 1 = 1"
    by (auto simp: pack_pid_def EOS_def bit_simps intro!: bit_word_eqI)
  then show "\<not> entry_eos (pack_pid p)" "entry_eos (pack_pid p OR EOS)"
    by (simp_all add: entry_eos_def)
qed

text \<open>The process identifier and the mark of the last submission of a poll survive the 64-bit user data
  of the ring: whatever the identifier, the completion gives back exactly what was packed.\<close>

theorem user_data_round_trip:
  "entry_pid (user_data (e\<lparr>user_data := pack_pid p\<rparr>)) = p
   \<and> entry_pid (user_data (mark_eos (e\<lparr>user_data := pack_pid p\<rparr>))) = p
   \<and> \<not> entry_eos (user_data (e\<lparr>user_data := pack_pid p\<rparr>))
   \<and> entry_eos (user_data (mark_eos (e\<lparr>user_data := pack_pid p\<rparr>)))"
  by (simp add: mark_eos_def)

section \<open>What a poll pushes\<close>

definition slots :: "Handler \<Rightarrow> nat" where
  "slots h = length (buf h) + capacity h"

definition pushes :: "Context \<times> Handler \<Rightarrow> Context \<times> Handler \<Rightarrow> bool" where
  "pushes ch ch' \<longleftrightarrow> slots (snd ch') = slots (snd ch)
     \<and> ctx_pid (fst ch') = ctx_pid (fst ch) \<and> ctx_phase (fst ch') = ctx_phase (fst ch)
     \<and> (\<exists>es. buf (snd ch') = buf (snd ch) @ es \<and> ctx_count (fst ch') = ctx_count (fst ch) + length es
          \<and> (\<forall>e\<in>set es. user_data e = pack_pid (ctx_pid (fst ch))))"

lemma pushes_refl: "pushes ch ch"
  by (simp add: pushes_def)

lemma pushes_trans: "pushes a b \<Longrightarrow> pushes b c \<Longrightarrow> pushes a c"
  unfolding pushes_def by auto

lemma closure_pushes: "pushes ch (snd (closure_poll e ch))"
  by (auto simp: closure_poll_def poll_closure_def pushes_def slots_def split: prod.splits)

lemma closure_result: "fst (closure_poll e ch) = Inl Full \<or> fst (closure_poll e ch) = Inr Sleep"
  by (auto simp: closure_poll_def poll_closure_def split: prod.splits)

definition quiet :: "Interrupt + RunState \<Rightarrow> bool" where
  "quiet r \<longleftrightarrow> r \<in> {Inl Full, Inl Halt, Inr Sleep, Inr Terminate}
     \<or> (\<exists>n. n \<noteq> SIGINT \<and> n \<noteq> SIGTERM \<and> r = Inl (Unreachable (''Received unhandled signal: '' @ int_str n)))"

lemma poll_pushes:
  "pushes ch (snd (snd (poll p ch))) \<and> quiet (fst (poll p ch))"
  "pushes ch (snd (snd (poll_children ps ch))) \<and> quiet (fst (poll_children ps ch))"
proof (induction p ch and ps ch rule: poll_poll_children.induct)
  case (1 ch)
  then show ?case by (simp add: pushes_refl quiet_def)
next
  case (2 ps ch)
  then show ?case by (cases "poll_children ps ch") auto
next
  case (3 fd sig ch)
  show ?case
    using closure_pushes [of ch "build_entry (Read fd)"] closure_result [of "build_entry (Read fd)" ch]
    by (auto simp: pushes_refl quiet_def split: prod.splits)
next
  case (4 s ch)
  show ?case
    using closure_pushes [of ch "build_entry (snd (splice_round s))"]
      closure_result [of "build_entry (snd (splice_round s))" ch]
    by (auto simp: pushes_refl quiet_def split: prod.splits)
next
  case (5 ch)
  then show ?case by (simp add: pushes_refl quiet_def)
next
  case (6 p ps ch)
  obtain r p' ch' where p: "poll p ch = (r, p', ch')"
    by (cases "poll p ch") auto
  have first: "pushes ch ch'" "quiet r"
    using 6(1) p by auto
  show ?case
  proof (cases r)
    case (Inl i)
    then show ?thesis using p first by (cases i) simp_all
  next
    case (Inr x)
    show ?thesis
    proof (cases "x = Sleep")
      case True
      obtain r2 ps' ch2 where rest: "poll_children ps ch' = (r2, ps', ch2)"
        by (cases "poll_children ps ch'") auto
      have "pushes ch' ch2 \<and> quiet r2"
        using 6(2) p Inr True rest by (cases ch') auto
      then show ?thesis
        using p Inr True rest pushes_trans [OF first(1)] by simp
    next
      case False
      then show ?thesis
        using p Inr first by (cases x) simp_all
    qed
  qed
qed

lemma exit_wakes:
  assumes "pushes (c, h) (c', h')" and "ctx_count c = 0"
  shows "slots (exit_closure c' h') = slots h
    \<and> (\<exists>es. buf (exit_closure c' h') = buf h @ es \<and> wakes es = (if ctx_count c' = 0 then [] else [ctx_pid c]))"
proof -
  obtain es where es: "buf h' = buf h @ es" "ctx_count c' = length es" "\<forall>e\<in>set es. user_data e = pack_pid (ctx_pid c)"
    and h: "slots h' = slots h"
    using assms unfolding pushes_def by auto
  show ?thesis
  proof (cases es rule: rev_cases)
    case Nil
    with es h show ?thesis by (simp add: exit_closure_def wakes_def)
  next
    case (snoc fs e)
    have "wakes (fs @ [mark_eos e]) = [ctx_pid c]"
      using es(3) by (simp add: snoc wakes_def mark_eos_def)
    moreover have "buf (exit_closure c' h') = buf h @ (fs @ [mark_eos e])"
      using es by (simp add: exit_closure_def snoc butlast_append)
    ultimately show ?thesis
      using es h by (auto simp: snoc exit_closure_def slots_def intro!: exI [of _ "fs @ [mark_eos e]"])
  qed
qed

section \<open>The processes of the boot program\<close>

text \<open>A splice that reads from a pipe has no end of its own.\<close>

definition endless :: "Splice \<Rightarrow> bool" where
  "endless s \<longleftrightarrow> remaining s = - 1 \<and> offset (pipe_state (sp_rx s)) = - 1"

lemma endless_round: "endless s \<Longrightarrow> endless (fst (splice_round s))"
  by (simp add: endless_def splice_round_def Let_def splice_remaining_def move_offset_def)

definition sig_proc :: "Process \<Rightarrow> bool" where
  "sig_proc p \<longleftrightarrow> ctx_pid (proc_ctx p) = 1 \<and> ctx_count (proc_ctx p) = 0 \<and> proc_next p = []
     \<and> (\<exists>fd n. prog_state (proc_prog p) = Signal fd n)"

definition move_proc :: "Process \<Rightarrow> bool" where
  "move_proc p \<longleftrightarrow> ctx_pid (proc_ctx p) = 2 \<and> ctx_count (proc_ctx p) = 0 \<and> proc_next p = []
     \<and> (\<exists>a b. prog_state (proc_prog p) = Serial [SpliceState a, SpliceState b] \<and> endless b)"

definition groups_ok :: "ControlGroups \<Rightarrow> bool" where
  "groups_ok G \<longleftrightarrow>
     (if terminating G then kernel_pids G = [] \<and> (\<exists>m. procs G = [(2, m)] \<and> move_proc m)
      else kernel_pids G = [1] \<and> (\<exists>s m. procs G = [(1, s), (2, m)] \<and> sig_proc s \<and> move_proc m))"

abbreviation pids :: "ControlGroups \<Rightarrow> ProcessID set" where
  "pids G \<equiv> fst ` set (procs G)"

text \<open>What a poll of a process of these groups can do.\<close>

definition poll_fine :: "ProcessID \<Rightarrow> ControlGroups \<Rightarrow> Handler \<Rightarrow> poll_outcome \<times> ControlGroups \<times> Handler \<Rightarrow> bool" where
  "poll_fine pid G h r \<longleftrightarrow>
     (case r of (x, G', h') \<Rightarrow>
        slots h' = slots h \<and> (\<exists>es. buf h' = buf h @ es \<and> wakes es \<in> {[], [pid]}
          \<and> (case x of
               NextStep y \<Rightarrow> groups_ok G' \<and>
                 (y = Forget \<and> (pids G' = pids G \<or> pids G' = pids G - {pid} \<and> wakes es = [])
                  \<or> y = Reschedule \<and> pids G' = pids G)
             | Stopped i \<Rightarrow> i = Completed
             | Panicked e \<Rightarrow> \<exists>n. n \<noteq> SIGINT \<and> n \<noteq> SIGTERM \<and> e = ''Received unhandled signal: '' @ int_str n)))"

lemma groups_poll_known:
  assumes p: "bt_get (procs G) pid = Some p" "ctx_pid (proc_ctx p) = pid" "ctx_count (proc_ctx p) = 0"
    and p': "p' = (if terminating G then set_phase Terminating p else p)"
  obtains r st c h1 h' es x G' where
    "poll (prog_state (proc_prog p)) (proc_ctx p', h) = (r, st, c, h1)"
    "after_poll pid (set_prog st p') r G = (x, G')"
    "groups_poll pid G h = (x, G', h')" "slots h' = slots h" "buf h' = buf h @ es"
    "wakes es = (if ctx_count c = 0 then [] else [pid])" "quiet r"
proof -
  obtain r st c h1 where poll: "poll (prog_state (proc_prog p)) (proc_ctx p', h) = (r, st, c, h1)"
    by (metis prod_cases4)
  obtain x G' where after: "after_poll pid (set_prog st p') r G = (x, G')"
    by fastforce
  have keep: "prog_state (proc_prog p') = prog_state (proc_prog p)" "ctx_pid (proc_ctx p') = pid" "ctx_count (proc_ctx p') = 0"
    using p by (simp_all add: p' set_phase_def)
  have "pushes (proc_ctx p', h) (c, h1)" "quiet r"
    using poll_pushes(1) [of "(proc_ctx p', h)" "prog_state (proc_prog p)"] poll by auto
  then obtain es where "slots (exit_closure c h1) = slots h" "buf (exit_closure c h1) = buf h @ es"
    "wakes es = (if ctx_count c = 0 then [] else [pid])"
    using exit_wakes keep by metis
  moreover have "groups_poll pid G h = (x, G', exit_closure c h1)"
    using p(1) poll after keep(1) by (simp add: groups_poll_def poll_within_def Let_def p' [symmetric])
  ultimately show thesis
    using that poll after \<open>quiet r\<close> by blast
qed

lemma two_procs [simp]:
  "bt_get [(1, s), (2 :: ProcessID, m)] 1 = Some s" "bt_get [(1, s), (2 :: ProcessID, m)] 2 = Some m"
  "bt_get [(2 :: ProcessID, m)] 2 = Some m"
  "bt_insert 1 v [(1, s), (2 :: ProcessID, m)] = [(1, v), (2, m)]" "bt_insert 2 v [(1, s), (2 :: ProcessID, m)] = [(1, s), (2, v)]"
  "bt_insert 2 v [(2 :: ProcessID, m)] = [(2, v)]"
  "remove_key 1 [(1, s), (2 :: ProcessID, m)] = [(2, m)]" "remove_key 2 [(1, s), (2 :: ProcessID, m)] = [(1, s)]"
  "remove_key 2 [(2 :: ProcessID, m)] = []"
  by (simp_all add: bt_get_def remove_key_def)

lemma poll_signal_fine:
  assumes G: "\<not> terminating G" "kernel_pids G = [1]" "procs G = [(1, s), (2, m)]" "sig_proc s" "move_proc m"
  shows "poll_fine 1 G h (groups_poll 1 G h)"
proof -
  obtain fd n where st: "prog_state (proc_prog s) = Signal fd n"
    using G(4) by (auto simp: sig_proc_def)
  have s: "bt_get (procs G) 1 = Some s" "ctx_pid (proc_ctx s) = 1" "ctx_count (proc_ctx s) = 0" "proc_next s = []"
    using G(3,4) by (auto simp: sig_proc_def)
  have not_ending: "s = (if terminating G then set_phase Terminating s else s)"
    using G(1) by simp
  obtain r st' c h1 h' es x G' where poll: "poll (prog_state (proc_prog s)) (proc_ctx s, h) = (r, st', c, h1)"
    and after: "after_poll 1 (set_prog st' s) r G = (x, G')"
    and res: "groups_poll 1 G h = (x, G', h')" "slots h' = slots h" "buf h' = buf h @ es"
      "wakes es = (if ctx_count c = 0 then [] else [1])"
    by (rule groups_poll_known [OF s(1-3) not_ending]; rule that; assumption)
  have "(r = Inl Full \<or> r = Inr Sleep) \<and> st' = Signal fd n \<or> r = Inl Halt \<and> c = proc_ctx s \<and> st' = Signal fd n
    \<or> (\<exists>n. n \<noteq> SIGINT \<and> n \<noteq> SIGTERM \<and> r = Inl (Unreachable (''Received unhandled signal: '' @ int_str n)))"
    using poll closure_result [of "build_entry (Read fd)" "(proc_ctx s, h)"]
    by (auto simp: st split: if_splits prod.splits)
  then consider (full) "r = Inl Full" "st' = Signal fd n" | (sleep) "r = Inr Sleep" "st' = Signal fd n"
    | (halt) "r = Inl Halt" "c = proc_ctx s" "st' = Signal fd n"
    | (panic) n where "n \<noteq> SIGINT" "n \<noteq> SIGTERM" "r = Inl (Unreachable (''Received unhandled signal: '' @ int_str n))"
    by blast
  then have "(case x of
       NextStep y \<Rightarrow> groups_ok G' \<and> (y = Forget \<and> (pids G' = pids G \<or> pids G' = pids G - {1} \<and> wakes es = [])
          \<or> y = Reschedule \<and> pids G' = pids G)
     | Stopped i \<Rightarrow> i = Completed
     | Panicked e \<Rightarrow> \<exists>n. n \<noteq> SIGINT \<and> n \<noteq> SIGTERM \<and> e = ''Received unhandled signal: '' @ int_str n)"
  proof cases
    case full
    with after G show ?thesis
      by (auto simp: after_poll_def put_proc_def groups_ok_def sig_proc_def set_prog_def)
  next
    case sleep
    with after G show ?thesis
      by (auto simp: after_poll_def put_proc_def groups_ok_def sig_proc_def set_prog_def set_phase_def)
  next
    case halt
    with after G s res(4) show ?thesis
      by (auto simp: after_poll_def put_proc_def terminate_def Let_def completed_def groups_ok_def set_prog_def set_phase_def)
  next
    case panic
    with after show ?thesis
      by (auto simp: after_poll_def)
  qed
  moreover have "wakes es \<in> {[], [1]}"
    using res(4) by simp
  ultimately show ?thesis
    unfolding poll_fine_def res(1) using res(2,3) by (simp only: prod.case) blast
qed

lemma poll_move_fine:
  assumes G: "groups_ok G" and m: "bt_get (procs G) 2 = Some m" "move_proc m"
  shows "poll_fine 2 G h (groups_poll 2 G h)
    \<and> (terminating G \<longrightarrow> fst (groups_poll 2 G h) = Stopped Completed)"
proof -
  obtain a b where st: "prog_state (proc_prog m) = Serial [SpliceState a, SpliceState b]" "endless b"
    using m(2) by (auto simp: move_proc_def)
  have keep: "ctx_pid (proc_ctx m) = 2" "ctx_count (proc_ctx m) = 0" "proc_next m = []"
    using m(2) by (auto simp: move_proc_def)
  define m' where "m' = (if terminating G then set_phase Terminating m else m)"
  obtain r st' c h1 h' es x G' where poll: "poll (prog_state (proc_prog m)) (proc_ctx m', h) = (r, st', c, h1)"
    and after: "after_poll 2 (set_prog st' m') r G = (x, G')"
    and res: "groups_poll 2 G h = (x, G', h')" "slots h' = slots h" "buf h' = buf h @ es"
      "wakes es = (if ctx_count c = 0 then [] else [2])"
    by (rule groups_poll_known [OF m(1) keep(1,2) m'_def]; rule that; assumption)
  have b: "remaining b \<noteq> 0" "endless (fst (splice_round b))"
    using st(2) endless_round by (auto simp: endless_def)
  have "r = Inr Terminate \<and> c = proc_ctx m'
    \<or> (r = Inl Full \<or> r = Inr Sleep) \<and> (\<exists>a' b'. st' = Serial [SpliceState a', SpliceState b'] \<and> endless b')"
    using poll closure_result b st(2)
    by (auto simp: st(1) closure_poll_def poll_closure_def split: if_splits prod.splits)
  moreover have "r = Inr Terminate" if "terminating G"
    using poll that by (auto simp: st(1) m'_def set_phase_def)
  moreover have "x = Stopped Completed" if "r = Inr Terminate"
    using after G keep(3) that m(1)
    by (auto simp: after_poll_def terminate_def put_proc_def groups_ok_def Let_def completed_def m'_def set_prog_def
        set_phase_def split: if_splits)
  moreover have "groups_ok G' \<and> (x = NextStep Forget \<or> x = NextStep Reschedule) \<and> pids G' = pids G"
    if "r = Inl Full \<or> r = Inr Sleep" "\<exists>a' b'. st' = Serial [SpliceState a', SpliceState b'] \<and> endless b'"
    using after G keep that m
    by (auto simp: after_poll_def put_proc_def groups_ok_def move_proc_def m'_def set_prog_def set_phase_def split: if_splits)
  ultimately show ?thesis
    using res unfolding poll_fine_def by auto
qed

section \<open>The invariant of the kernel\<close>

text \<open>Who is in the queue of the scheduler, or will be when a marked submission completes.\<close>

definition claims :: "Machine \<Rightarrow> ProcessID list" where
  "claims M = rq M @ wakes (buf (handler M)) @ wakes (in_flight M)"

definition kernel_inv :: "Machine \<Rightarrow> bool" where
  "kernel_inv M \<longleftrightarrow> slots (handler M) + length (in_flight M) \<le> entries
     \<and> distinct (claims M) \<and> set (claims M) \<subseteq> pids (groups M) \<and> groups_ok (groups M)"

lemma wakes_append [simp]: "wakes (xs @ ys) = wakes xs @ wakes ys"
  by (simp add: wakes_def)

lemma wakes_Nil [simp]: "wakes [] = []"
  by (simp add: wakes_def)

lemma mset_wakes: "mset xs = mset ys \<Longrightarrow> mset (wakes xs) = mset (wakes ys)"
  unfolding wakes_def by (simp add: mset_filter)

lemma poll_fine_known:
  assumes G: "groups_ok G" and pid: "pid \<in> pids G"
  shows "poll_fine pid G h (groups_poll pid G h)"
proof (cases "terminating G")
  case True
  then obtain m where m: "procs G = [(2, m)]" "move_proc m"
    using G by (auto simp: groups_ok_def)
  with pid have "pid = 2" by simp
  with m show ?thesis
    using poll_move_fine [OF G, of m h] by simp
next
  case False
  then obtain s m where sm: "kernel_pids G = [1]" "procs G = [(1, s), (2, m)]" "sig_proc s" "move_proc m"
    using G by (auto simp: groups_ok_def)
  with pid consider "pid = 1" | "pid = 2" by auto
  then show ?thesis
  proof cases
    case 1
    then show ?thesis using poll_signal_fine [OF False sm] by simp
  next
    case 2
    then show ?thesis using poll_move_fine [OF G, of m h] sm by simp
  qed
qed

definition signal_panic :: "string \<Rightarrow> bool" where
  "signal_panic e \<longleftrightarrow> (\<exists>n. n \<noteq> SIGINT \<and> n \<noteq> SIGTERM \<and> e = ''Received unhandled signal: '' @ int_str n)"

lemma claims_after:
  assumes "distinct (pid # rest @ ws @ fs)" and "set (pid # rest @ ws @ fs) \<subseteq> K"
    and "es = [] \<or> es = [pid]" and "K' = K \<or> K' = K - {pid} \<and> es = []"
  shows "distinct (rest @ (ws @ es) @ fs) \<and> set (rest @ (ws @ es) @ fs) \<subseteq> K'"
  using assms by auto

lemma turn_fine:
  assumes inv: "kernel_inv M"
  shows "case kernel_turn M of
      Go M' \<Rightarrow> kernel_inv M'
    | Wait n M' \<Rightarrow> kernel_inv M' \<and> buf (handler M') = []
    | Finished \<Rightarrow> True
    | Crashed e \<Rightarrow> signal_panic e"
proof (cases "rq M")
  case Nil
  then show ?thesis
    using inv by (simp add: kernel_turn_def kernel_inv_def commit_def claims_def slots_def Un_commute disjoint_iff_not_equal) blast
next
  case (Cons pid rest)
  define K where "K = pids (groups M)"
  have claims: "distinct (pid # rest @ wakes (buf (handler M)) @ wakes (in_flight M))"
    "set (pid # rest @ wakes (buf (handler M)) @ wakes (in_flight M)) \<subseteq> K"
    and room: "slots (handler M) + length (in_flight M) \<le> entries"
    using inv Cons unfolding K_def [symmetric] kernel_inv_def claims_def by auto
  obtain x G h where poll: "groups_poll pid (groups M) (handler M) = (x, G, h)"
    by (metis prod_cases3)
  have "poll_fine pid (groups M) (handler M) (x, G, h)"
    unfolding poll [symmetric] using inv Cons by (intro poll_fine_known) (auto simp: kernel_inv_def claims_def)
  then obtain es where h: "slots h = slots (handler M)" "buf h = buf (handler M) @ es" and es: "wakes es = [] \<or> wakes es = [pid]"
    and x: "case x of
        NextStep y \<Rightarrow> groups_ok G \<and> (y = Forget \<and> (pids G = K \<or> pids G = K - {pid} \<and> wakes es = [])
            \<or> y = Reschedule \<and> pids G = K)
      | Stopped i \<Rightarrow> i = Completed
      | Panicked e \<Rightarrow> signal_panic e"
    unfolding poll_fine_def signal_panic_def K_def [symmetric] by auto
  consider (forget) "x = NextStep Forget" | (full) "x = NextStep Reschedule" | (ends) "x = Stopped Completed"
    | (panic) e where "x = Panicked e"
    using x by (cases x) auto
  then show ?thesis
  proof cases
    case forget
    have next_pids: "pids G = K \<or> pids G = K - {pid} \<and> wakes es = []" and "groups_ok G"
      using x unfolding forget by auto
    then have "kernel_inv (M\<lparr>groups := G, rq := rest, handler := h\<rparr>)"
      using claims_after [OF claims es next_pids] room h unfolding kernel_inv_def claims_def by simp
    with forget show ?thesis
      using Cons poll by (simp add: kernel_turn_def)
  next
    case full
    have "pids G = K" and "groups_ok G"
      using x unfolding full by auto
    then have "kernel_inv (cancel (M\<lparr>groups := G, rq := rest, handler := h\<rparr>)\<lparr>rq := pid # rest\<rparr>)"
      using claims room h unfolding kernel_inv_def claims_def by (auto simp: cancel_def slots_def)
    with full show ?thesis
      using Cons poll by (simp add: kernel_turn_def cancel_def)
  next
    case ends
    then show ?thesis using Cons poll by (simp add: kernel_turn_def)
  next
    case panic
    then show ?thesis using Cons poll x by (simp add: kernel_turn_def)
  qed
qed

lemma deliver_pids: "pids (deliver sig cs G) = pids G"
  by (force simp: deliver_def image_iff split: prod.splits)

lemma deliver_ok: "groups_ok G \<Longrightarrow> groups_ok (deliver sig cs G)"
  by (auto simp: groups_ok_def deliver_def sig_proc_def move_proc_def set_prog_def set_signo_def split: option.splits)

lemma absorb_inv:
  assumes inv: "kernel_inv M" and buf: "buf (handler M) = []" and cs: "mset (in_flight M) = mset cs + mset rest"
  shows "kernel_inv (absorb cs rest (M\<lparr>groups := deliver sig cs (groups M)\<rparr>))"
proof -
  let ?M = "absorb cs rest (M\<lparr>groups := deliver sig cs (groups M)\<rparr>)"
  have "mset (wakes (in_flight M)) = mset (wakes (cs @ rest))"
    using cs by (intro mset_wakes) simp
  then have "mset (claims ?M) = mset (claims M)"
    by (simp add: claims_def absorb_def buf)
  then have "distinct (claims ?M)" "set (claims ?M) = set (claims M)"
    using inv mset_eq_imp_distinct_iff mset_eq_setD unfolding kernel_inv_def by blast+
  moreover have "length (in_flight M) = length cs + length rest"
    using cs by (metis size_mset size_union)
  ultimately show ?thesis
    using inv deliver_ok [of "groups M"] deliver_pids
    by (simp add: kernel_inv_def absorb_def slots_def)
qed

lemma kernel_step_inv: "kernel_step M M' \<Longrightarrow> kernel_inv M \<Longrightarrow> kernel_inv M'"
proof (induction rule: kernel_step.induct)
  case (go M M')
  then show ?case using turn_fine [of M] by simp
next
  case (wait M n M1 cs rest sig)
  then show ?case using turn_fine [of M] absorb_inv by simp
qed

lemma kernel_steps_inv: "kernel_step\<^sup>*\<^sup>* M M' \<Longrightarrow> kernel_inv M \<Longrightarrow> kernel_inv M'"
  by (induction rule: rtranclp_induct) (auto intro: kernel_step_inv)

section \<open>Boot\<close>

lemma wp_matchE_pair:
  assumes "\<And>e s l. wp (h e s) Q l" and "\<And>a s l. wp (k a s) Q l"
  shows "wp (matchE m (\<lambda>(e, s). h e s) (\<lambda>(a, s). k a s)) Q l"
  using assms by (simp add: wp_def matchE_def split: prod.split sum.split)

lemma wp_fresh_pipe: "wp (dequeue_pipe A (pipe2_pool_new n)) (\<lambda>r l. \<forall>d P. r = Inr (d, P) \<longrightarrow> pipe_state (rx d) = UNLIMITED) l"
  by (auto simp: dequeue_pipe_def pipe2_pool_new_def pipe_id_next_def pipe2_new_def eff_simps split: sum.split)

lemma boot_machine_inv:
  assumes "pipe_state (rx p) = UNLIMITED"
    and "spawn (on_kernel (program_new (Signal sigfd 0))) groups_default = (pid, G)"
  shows "kernel_inv (boot_machine pid src dst p (G\<lparr>group_files := F, group_pipes := Q\<rparr>))"
proof -
  have "pid = 1" "kernel_pids G = [1]" "group_seed G = 2" "\<not> terminating G"
    "\<exists>s. procs G = [(1, s)] \<and> sig_proc s"
    using assms(2)
    by (auto simp: spawn_def groups_default_def process_id_next_def PID_INIT_def ID_MAX_def on_kernel_def
        program_new_def sig_proc_def)
  then show ?thesis
    using assms(1)
    by (auto simp: boot_machine_def spawn_def process_id_next_def ID_MAX_def program_new_def kernel_inv_def slots_def
        entries_def claims_def groups_ok_def move_proc_def transfer_def endless_def UNLIMITED_def)
qed

lemma wp_boot: "wp (boot A sigfd) (\<lambda>r l. \<forall>M. r = Inr M \<longrightarrow> kernel_inv M) l"
proof -
  obtain pid G where spawn: "spawn (on_kernel (program_new (Signal sigfd 0))) groups_default = (pid, G)"
    by fastforce
  then have "group_pipes G = pipe2_pool_new (2 ^ 20)"
    by (auto simp: spawn_def groups_default_def process_id_next_def)
  then have inner: "wp (matchE (dequeue_pipe A (group_pipes G)) (\<lambda>(e, _). fail (case e of None \<Rightarrow> ''missing pipe2'' | Some e \<Rightarrow> e))
      (\<lambda>(p, Q). ret (boot_machine pid src dst p (G\<lparr>group_files := F, group_pipes := Q\<rparr>))))
      (\<lambda>r l. \<forall>M. r = Inr M \<longrightarrow> kernel_inv M) l" for src dst F l
    unfolding wp_matchE
    by (auto simp: eff_simps boot_machine_inv [OF _ spawn] split: sum.split prod.split
        intro!: wp_mono [OF wp_fresh_pipe])
  show ?thesis
    unfolding boot_def spawn prod.case
    by (rule wp_matchE_pair, simp add: wp_fail, rule wp_matchE_pair, simp add: wp_fail, rule inner)
qed

lemma kernel_reachable_inv: "result_of (boot A sigfd) = Inr M0 \<Longrightarrow> kernel_step\<^sup>*\<^sup>* M0 M \<Longrightarrow> kernel_inv M"
  using kernel_steps_inv wp_boot [of A sigfd "[]"] unfolding wp_result by blast

section \<open>What the kernel guarantees\<close>

text \<open>C17.
  The ring is never handed more than it holds: from the boot on, in every state that any choice of
  completions and signals can lead to, what is buffered and what is in flight fit the four entries together,
  so the unchecked push of the buffer cannot overflow.\<close>

theorem ring_never_overflows:
  assumes "result_of (boot A sigfd) = Inr M0" and "kernel_step\<^sup>*\<^sup>* M0 M"
  shows "length (buf (handler M)) + capacity (handler M) + length (in_flight M) \<le> entries"
  using kernel_reachable_inv [OF assms] by (simp add: kernel_inv_def slots_def)

text \<open>C19.
  The scheduler only polls processes that exist, and each at most once per wake-up: the queue holds no
  process twice and none that has ended; the only panic that a turn of the kernel can end with is the one of
  the signal program, about a number other than those of an interrupt or a termination.\<close>

theorem scheduled_processes_exist:
  assumes "result_of (boot A sigfd) = Inr M0" and "kernel_step\<^sup>*\<^sup>* M0 M"
  shows "distinct (rq M) \<and> set (rq M) \<subseteq> pids (groups M)
    \<and> (\<forall>e. kernel_turn M = Crashed e \<longrightarrow> signal_panic e)"
proof -
  have inv: "kernel_inv M"
    by (rule kernel_reachable_inv [OF assms])
  then have "kernel_turn M = Crashed e \<longrightarrow> signal_panic e" for e
    using turn_fine [OF inv] by auto
  with inv show ?thesis
    by (simp add: kernel_inv_def claims_def)
qed

lemma ending_turn:
  assumes inv: "kernel_inv M" and ends: "terminating (groups M)"
  shows "kernel_turn M = (if rq M = [] then Wait 1 (commit M) else Finished)"
proof (cases "rq M")
  case Nil
  then show ?thesis by (simp add: kernel_turn_def)
next
  case (Cons pid rest)
  obtain m where m: "procs (groups M) = [(2, m)]" "move_proc m" and G: "groups_ok (groups M)"
    using inv ends by (auto simp: kernel_inv_def groups_ok_def)
  have "pid = 2"
    using inv Cons m(1) by (simp add: kernel_inv_def claims_def)
  moreover obtain G' h where "groups_poll 2 (groups M) (handler M) = (Stopped Completed, G', h)"
    using poll_move_fine [OF G _ m(2), of "handler M"] ends m(1) by (metis two_procs(3) prod.collapse)
  ultimately show ?thesis
    using Cons by (simp add: kernel_turn_def)
qed

lemma ending_step:
  assumes "kernel_step M M'" and "kernel_inv M" and "terminating (groups M)"
  shows "terminating (groups M')"
  using assms
proof cases
  case go
  then show ?thesis
    using ending_turn [OF assms(2,3)] by (simp split: if_splits)
next
  case (wait n M1 cs rest sig)
  then show ?thesis
    using ending_turn [OF assms(2,3)] assms(3)
    by (auto simp: absorb_def deliver_def commit_def split: if_splits)
qed

lemma ending_steps:
  "kernel_step\<^sup>*\<^sup>* M M' \<Longrightarrow> kernel_inv M \<Longrightarrow> terminating (groups M) \<Longrightarrow> terminating (groups M')"
  by (induction rule: rtranclp_induct) (auto intro: ending_step kernel_steps_inv)

text \<open>C20.
  An interrupt ends the kernel: once the signal process has read SIGINT or SIGTERM, its turn removes it
  and goes on, and from then on the first process that is polled, whatever happens in between, ends the
  kernel in order.\<close>

theorem interrupt_ends_kernel:
  assumes boot: "result_of (boot A sigfd) = Inr M0" "kernel_step\<^sup>*\<^sup>* M0 M"
    and sig: "rq M = 1 # rest" "bt_get (procs (groups M)) 1 = Some s" "prog_state (proc_prog s) = Signal fd n"
      "ctx_phase (proc_ctx s) = Running" "n = SIGINT \<or> n = SIGTERM"
  shows "\<exists>M'. kernel_turn M = Go M' \<and> rq M' = rest
    \<and> (\<forall>M''. kernel_step\<^sup>*\<^sup>* M' M'' \<longrightarrow> rq M'' \<noteq> [] \<longrightarrow> kernel_turn M'' = Finished)"
proof -
  have inv: "kernel_inv M"
    by (rule kernel_reachable_inv [OF boot])
  then have G: "groups_ok (groups M)"
    by (simp add: kernel_inv_def)
  have "\<not> terminating (groups M)"
    using G sig(2) by (auto simp: groups_ok_def bt_get_def)
  then obtain m where P: "procs (groups M) = [(1, s), (2, m)]" "sig_proc s" "kernel_pids (groups M) = [1]"
    using G sig(2) by (auto simp: groups_ok_def)
  obtain G' h where "groups_poll 1 (groups M) (handler M) = (NextStep Forget, G', h)" and ends: "terminating G'"
    using P sig \<open>\<not> terminating (groups M)\<close>
    by (auto simp: groups_poll_def poll_within_def exit_closure_def sig_proc_def after_poll_def terminate_def Let_def
        set_prog_def set_phase_def put_proc_def completed_def)
  then have turn: "kernel_turn M = Go (M\<lparr>groups := G', rq := rest, handler := h\<rparr>)" (is "_ = Go ?M")
    using sig(1) by (simp add: kernel_turn_def)
  have inv': "kernel_inv ?M"
    using turn_fine [OF inv] turn by simp
  have "kernel_turn M'' = Finished" if "kernel_step\<^sup>*\<^sup>* ?M M''" "rq M'' \<noteq> []" for M''
    using ending_turn [of M''] kernel_steps_inv [OF that(1) inv'] ending_steps [OF that(1) inv'] ends that(2) by simp
  with turn show ?thesis by auto
qed

end
