(* ===== verification/Lake_Transfer.thy ===== *)
theory Lake_Transfer
  imports Lake_System
begin

text \<open>
  The transfer of a file by the program that the kernel of dark lake boots: while the ring has room its
  rounds cover the file chunk after chunk and end; when the ring is full a chunk is lost, and
  so is a slot, up to a kernel that waits for a completion that cannot come.
\<close>

section \<open>Rounds\<close>

text \<open>The program polled again and again, each time with some context and some buffer: the operations
  that each round appends.\<close>

primrec rounds :: "(Context \<times> Handler) list \<Rightarrow> ProgramState \<Rightarrow> op list list \<times> ProgramState" where
  "rounds [] p = ([], p)"
| "rounds (ch # chs) p =
     (case poll_within (fst ch) p (snd ch) of
        (r, p, h) \<Rightarrow> (case rounds chs p of
           (xs, p) \<Rightarrow> (map entry_op (drop (length (buf (snd ch))) (buf h)) # xs, p)))"

text \<open>The process is not being terminated, and there is room for its two submissions.\<close>

definition has_room :: "Context \<times> Handler \<Rightarrow> bool" where
  "has_room ch \<longleftrightarrow> ctx_count (fst ch) = 0 \<and> ctx_phase (fst ch) \<noteq> Terminating \<and> 2 \<le> capacity (snd ch)"

definition at :: "Pipe \<Rightarrow> i64 \<Rightarrow> Pipe" where
  "at q i = q\<lparr>pipe_state := (pipe_state q)\<lparr>offset := i\<rparr>\<rparr>"

lemma at_sel [simp]:
  "offset (pipe_state (at q i)) = i" "len (pipe_state (at q i)) = len (pipe_state q)"
  "pipe_fd (at q i) = pipe_fd q" "pipe_buf_size (at q i) = pipe_buf_size q" "at (at q i) j = at q j"
  by (simp_all add: at_def)

lemma at_self [simp]: "offset (pipe_state q) = i \<Longrightarrow> at q i = q"
  by (auto simp: at_def)

lemma move_at: "move_offset chunk q =
    (if offset (pipe_state q) = - 1 then q else at q (wrap64 (offset (pipe_state q) + chunk)))"
  by (simp add: move_offset_def at_def)

text \<open>The transfer with a file at an offset, and what is left of it.\<close>

definition moving :: "Pipe \<Rightarrow> Pipe \<Rightarrow> Pipe2 \<Rightarrow> i64 \<Rightarrow> i64 \<Rightarrow> i64 \<Rightarrow> ProgramState" where
  "moving src dst p i j left = Serial [SpliceState \<lparr>sp_rx = at src i, sp_tx = tx p, remaining = left\<rparr>,
     SpliceState \<lparr>sp_rx = rx p, sp_tx = at dst j, remaining = - 1\<rparr>]"

text \<open>A chunk goes from the file into the pipe, and whatever is in the pipe to the other file.\<close>

definition chunk_ops :: "Pipe \<Rightarrow> Pipe \<Rightarrow> Pipe2 \<Rightarrow> i32 \<Rightarrow> i64 \<Rightarrow> i64 \<Rightarrow> i64 \<Rightarrow> op list" where
  "chunk_ops src dst p n i j left =
     [SpliceOp (pipe_fd src) i (pipe_fd (tx p)) (- 1) (word_of_int (min n left)) (left > n),
      SpliceOp (pipe_fd (rx p)) (- 1) (pipe_fd dst) j (word_of_int n) False]"

definition pipe_of :: "i32 \<Rightarrow> Pipe2 \<Rightarrow> bool" where
  "pipe_of n p \<longleftrightarrow> pipe_buf_size (tx p) = n \<and> pipe_buf_size (rx p) = n
     \<and> pipe_state (tx p) = UNLIMITED \<and> pipe_state (rx p) = UNLIMITED"

abbreviation max_pos :: int where
  "max_pos \<equiv> 4611686018427387904"

lemma source_round:
  assumes p: "pipe_of n p" "0 < n" "n < 2 ^ 31" and src: "pipe_buf_size src = - 1"
    and left: "0 \<le> left" "left \<le> max_pos" and pos: "0 \<le> i" "i \<le> max_pos"
    and known: "splice_remaining \<lparr>sp_rx = at src i, sp_tx = tx p, remaining = r\<rparr> = left"
  shows "splice_round \<lparr>sp_rx = at src i, sp_tx = tx p, remaining = r\<rparr> =
    (\<lparr>sp_rx = at src (i + min n left), sp_tx = tx p, remaining = left - min n left\<rparr>,
     SpliceOp (pipe_fd src) i (pipe_fd (tx p)) (- 1) (word_of_int (min n left)) (left > n))"
proof -
  have "wrap64 (left - min n left) = left - min n left" "wrap64 (i + min n left) = i + min n left"
    using left pos p by (simp_all add: wrap64_id)
  then show ?thesis
    using p src left pos
    by (auto simp: splice_round_def Let_def known splice_buf_size_def pipe_of_def UNLIMITED_def move_at min_def)
qed

lemma sink_round:
  assumes p: "pipe_of n p" "0 < n" "n < 2 ^ 31" and dst: "pipe_buf_size dst = - 1"
    and pos: "0 \<le> j" "j \<le> max_pos"
  shows "splice_round \<lparr>sp_rx = rx p, sp_tx = at dst j, remaining = - 1\<rparr> =
    (\<lparr>sp_rx = rx p, sp_tx = at dst (j + n), remaining = - 1\<rparr>,
     SpliceOp (pipe_fd (rx p)) (- 1) (pipe_fd dst) j (word_of_int n) False)"
proof -
  have "wrap64 (j + n) = j + n"
    using pos p by (simp add: wrap64_id)
  then show ?thesis
    using p dst pos
    by (auto simp: splice_round_def Let_def splice_remaining_def splice_buf_size_def pipe_of_def UNLIMITED_def move_at)
qed

lemma one_round:
  assumes p: "pipe_of n p" "0 < n" "n < 2 ^ 31" and files: "pipe_buf_size src = - 1" "pipe_buf_size dst = - 1"
    and left: "0 \<le> left" "left \<le> max_pos" and pos: "0 \<le> i" "i \<le> max_pos" "0 \<le> j" "j \<le> max_pos"
    and known: "splice_remaining \<lparr>sp_rx = at src i, sp_tx = tx p, remaining = r\<rparr> = left" "r \<noteq> 0"
    and c: "has_room ch"
    and q: "poll_within (fst ch) (moving src dst p i j r) (snd ch) = (x, q, h)"
  shows "map entry_op (drop (length (buf (snd ch))) (buf h)) = chunk_ops src dst p n i j left
    \<and> q = moving src dst p (i + min n left) (j + n) (left - min n left)"
proof -
  obtain c g where ch: "ch = (c, g)" by force
  from c obtain k where k: "capacity g = Suc (Suc k)" "ctx_count c = 0" "ctx_phase c \<noteq> Terminating"
    unfolding has_room_def ch fst_conv snd_conv by (metis add_2_eq_Suc le_Suc_ex)
  show ?thesis
    using q known(2) source_round [OF p files(1) left pos(1,2) known(1)] sink_round [OF p files(2) pos(3,4)] k
    by (auto simp: ch poll_within_def moving_def closure_poll_def poll_closure_def exit_closure_def mark_eos_def
        build_entry_def chunk_ops_def butlast_append)
qed

lemma rounds_moving:
  assumes p: "pipe_of n p" "0 < n" "n < 2 ^ 31" and files: "pipe_buf_size src = - 1" "pipe_buf_size dst = - 1"
  shows "0 \<le> left \<Longrightarrow> 0 \<le> i \<Longrightarrow> i + left \<le> max_pos \<Longrightarrow> 0 \<le> j \<Longrightarrow> j + left \<le> max_pos \<Longrightarrow> r \<noteq> 0 \<Longrightarrow>
    splice_remaining \<lparr>sp_rx = at src i, sp_tx = tx p, remaining = r\<rparr> = left \<Longrightarrow>
    length chs = max 1 (nat ((left + n - 1) div n)) \<Longrightarrow> list_all has_room chs \<Longrightarrow>
    rounds chs (moving src dst p i j r) =
      (map (\<lambda>m. chunk_ops src dst p n (i + int m * n) (j + int m * n) (left - int m * n)) [0..<length chs],
       moving src dst p (i + left) (j + int (length chs) * n) 0)"
proof (induction chs arbitrary: left i j r)
  case (Cons ch chs)
  obtain x q h where q: "poll_within (fst ch) (moving src dst p i j r) (snd ch) = (x, q, h)"
    by (metis prod_cases3)
  have "has_room ch" using Cons.prems(9) by simp
  have round: "map entry_op (drop (length (buf (snd ch))) (buf h)) = chunk_ops src dst p n i j left"
    "q = moving src dst p (i + min n left) (j + n) (left - min n left)"
    using one_round [OF p files _ _ _ _ _ _ _ _ \<open>has_room ch\<close> q, of left] Cons.prems by auto
  show ?case
  proof (cases "left \<le> n")
    case True
    have "(left + n - 1) div n \<le> 1"
      using True p zdiv_mono1 [of "left + n - 1" "n + n - 1" n] int_div_pos_eq [of "n + n - 1" n 1 "n - 1"] by simp
    then have "nat ((left + n - 1) div n) \<le> 1"
      by simp
    then have "chs = []"
      using Cons.prems(8) by (simp add: max_def split: if_splits)
    then show ?thesis
      using q round True by simp
  next
    case False
    have "(left + n - 1) div n = (left - n + n - 1) div n + 1"
      using p by (metis add_diff_eq diff_add_cancel div_add_self2 add.commute less_irrefl)
    moreover have "1 \<le> (left - n + n - 1) div n"
      using False p by (simp add: pos_imp_zdiv_pos_iff int_one_le_iff_zero_less)
    ultimately have k: "length chs = max 1 (nat ((left - n + n - 1) div n))"
      using Cons.prems(8) by simp
    have "rounds chs q = (map (\<lambda>m. chunk_ops src dst p n (i + n + int m * n) (j + n + int m * n) (left - n - int m * n)) [0..<length chs],
        moving src dst p (i + n + (left - n)) (j + n + int (length chs) * n) 0)"
    proof -
      have "min n left = n" using False by simp
      moreover have "splice_remaining \<lparr>sp_rx = at src (i + n), sp_tx = tx p, remaining = left - n\<rparr> = left - n"
        using False by (simp add: splice_remaining_def)
      moreover have "0 \<le> left - n" "0 \<le> i + n" "0 \<le> j + n" "i + n + (left - n) \<le> max_pos"
        "j + n + (left - n) \<le> max_pos" "left - n \<noteq> 0"
        using False p(2) Cons.prems(1-5) by linarith+
      moreover have "list_all has_room chs" using Cons.prems(9) by simp
      ultimately show ?thesis
        unfolding round(2) using Cons.IH [OF _ _ _ _ _ _ _ k] by presburger
    qed
    moreover have "[0..<Suc (length chs)] = 0 # map Suc [0..<length chs]"
      by (simp add: map_Suc_upt upt_conv_Cons del: upt_Suc)
    ultimately show ?thesis
      using q round(1) by (simp add: algebra_simps comp_def)
  qed
qed simp

text \<open>C18.
  A transfer ends as long as the ring has room: when each poll of the process finds room for its two
  submissions and nothing terminates it, a file of any length up to 2 to the 62 is moved in as many rounds
  as there are buffers of the pipe in it, rounded up, and an empty file in one; each round reads the next
  chunk behind the one before it, the last chunk is what is left, and the write behind it goes to the same
  place of the other file; the poll after the last round terminates the process.  (What happens when the
  ring has no room is C21.)\<close>

theorem transfer_terminates:
  assumes "pipe_of n p" and "0 < n" and "n < 2 ^ 31"
    and "pipe_buf_size src = - 1" and "pipe_buf_size dst = - 1"
    and "offset (pipe_state src) = 0" and "offset (pipe_state dst) = 0"
    and "len (pipe_state src) = L" and "0 \<le> L" and "L \<le> max_pos"
    and "list_all has_room chs" and "length chs = max 1 (nat ((L + n - 1) div n))"
  shows "fst (rounds chs (transfer src dst p)) =
      map (\<lambda>m. chunk_ops src dst p n (int m * n) (int m * n) (L - int m * n)) [0..<length chs]
    \<and> fst (poll (snd (rounds chs (transfer src dst p))) (c, h)) = Inr Terminate"
proof -
  have "transfer src dst p = moving src dst p 0 0 (- 1)"
    using assms(6,7) by (simp add: transfer_def moving_def)
  moreover have "splice_remaining \<lparr>sp_rx = at src 0, sp_tx = tx p, remaining = - 1\<rparr> = L"
    using assms(8-10) by (simp add: splice_remaining_def Let_def wrap64_id)
  ultimately have "rounds chs (transfer src dst p) =
      (map (\<lambda>m. chunk_ops src dst p n (0 + int m * n) (0 + int m * n) (L - int m * n)) [0..<length chs],
       moving src dst p (0 + L) (0 + int (length chs) * n) 0)"
    using rounds_moving [OF assms(1-5), of L 0 0 "- 1" chs] assms by simp
  then show ?thesis
    by (simp add: moving_def)
qed

section \<open>A run of the kernel\<close>

definition example_boot :: Machine where
  "example_boot = projr (result_of (boot example_sys 3))"

text \<open>The completions of a waiting turn are chosen by their places.\<close>

definition chosen :: "nat list \<Rightarrow> Entry list \<Rightarrow> Entry list" where
  "chosen ks xs = map fst (filter (\<lambda>(x, i). List.member ks i) (zip xs [0..<length xs]))"

definition others :: "nat list \<Rightarrow> Entry list \<Rightarrow> Entry list" where
  "others ks xs = map fst (filter (\<lambda>(x, i). \<not> List.member ks i) (zip xs [0..<length xs]))"

lemma mset_chosen: "mset xs = mset (chosen ks xs) + mset (others ks xs)"
proof -
  have "mset (zip xs [0..<length xs]) = mset (filter (\<lambda>(x, i). List.member ks i) (zip xs [0..<length xs]))
      + mset (filter (\<lambda>(x, i). \<not> List.member ks i) (zip xs [0..<length xs]))"
    unfolding mset_filter by (simp add: multiset_partition [where P = "\<lambda>(x, i). List.member ks i"] case_prod_unfold)
  then have "image_mset fst (mset (zip xs [0..<length xs])) = mset (chosen ks xs) + mset (others ks xs)"
    unfolding chosen_def others_def mset_map by (metis image_mset_union)
  then show ?thesis
    by (metis length_upt map_fst_zip minus_nat.diff_0 mset_map)
qed

definition run_turn :: "nat list \<Rightarrow> int option \<Rightarrow> Machine \<Rightarrow> Machine option" where
  "run_turn ks sig M =
     (case kernel_turn M of
        Go M' \<Rightarrow> Some M'
      | Wait n M1 \<Rightarrow>
          (let cs = chosen ks (in_flight M1) in
           if n \<le> length cs
           then Some (absorb cs (others ks (in_flight M1)) (M1\<lparr>groups := deliver (\<lambda>_. sig) cs (groups M1)\<rparr>))
           else None)
      | _ \<Rightarrow> None)"

lemma run_turn_step: "run_turn ks sig M = Some M' \<Longrightarrow> kernel_step M M'"
  using mset_chosen
  by (auto simp: run_turn_def Let_def split: turn.splits if_splits intro: kernel_step.intros)

fun run_turns :: "(nat list \<times> int option) list \<Rightarrow> Machine \<Rightarrow> Machine option" where
  "run_turns [] M = Some M"
| "run_turns ((ks, sig) # xs) M = (case run_turn ks sig M of None \<Rightarrow> None | Some M \<Rightarrow> run_turns xs M)"

lemma run_turns_steps: "run_turns xs M = Some M' \<Longrightarrow> kernel_step\<^sup>*\<^sup>* M M'"
  by (induction xs M rule: run_turns.induct)
    (auto split: option.splits intro: converse_rtranclp_into_rtranclp run_turn_step)

lemma example_boots: "result_of (boot example_sys 3) = Inr example_boot"
proof -
  have "\<not> isl (result_of (boot example_sys 3))"
    by code_simp
  then show ?thesis
    by (simp add: example_boot_def)
qed

text \<open>The second poll of the transfer finds its write done and the read before it not yet, and so does the
  third, for which the ring has only one entry left.\<close>

definition stalling :: "(nat list \<times> int option) list" where
  "stalling = [([], None), ([], None), ([2], None), ([], None), ([3], None), ([1], None), ([1], None), ([0], Some SIGINT)]"

lemma stalls:
  "(case run_turns stalling example_boot of
      None \<Rightarrow> False
    | Some M \<Rightarrow> rq M = [2, 1] \<and> in_flight M = [] \<and> capacity (handler M) < entries \<and> \<not> terminating (groups M)
        \<and> (case bt_get (procs (groups M)) 1 of None \<Rightarrow> False
           | Some s \<Rightarrow> prog_state (proc_prog s) = Signal 3 SIGINT \<and> ctx_phase (proc_ctx s) = Running)
        \<and> (case kernel_turn M of Wait n M1 \<Rightarrow> n = 1 \<and> in_flight M1 = [] | _ \<Rightarrow> False))"
  by code_simp

lemma waits_for_nothing:
  assumes "kernel_turn M = Wait n M1" and "length (in_flight M1) < n"
  shows "\<not> kernel_step M M'"
proof
  assume "kernel_step M M'"
  then show False
  proof cases
    case go
    with assms show False by simp
  next
    case (wait k M2 cs rest sig)
    then have "length (in_flight M1) = length cs + length rest"
      using assms(1) by (metis size_mset size_union turn.inject(2))
    with wait assms show False by simp
  qed
qed

text \<open>C21.
  The kernel can come to a stand: each time that the ring is full the buffered submissions are dropped and
  their slots are not given back, so that completions in an unlucky order lead from the boot to a state in
  which nothing is in flight although slots are missing, and the kernel, polling the transfer, waits for one
  completion that cannot come.  No step is possible from there; the interrupt has been read, but its
  process stands behind the transfer in the queue and is never polled, so that nothing is being terminated.\<close>

theorem kernel_can_stall:
  "\<exists>M M1 s. kernel_step\<^sup>*\<^sup>* example_boot M \<and> rq M = [2, 1]
     \<and> in_flight M = [] \<and> capacity (handler M) < entries
     \<and> kernel_turn M = Wait 1 M1 \<and> in_flight M1 = [] \<and> (\<forall>M'. \<not> kernel_step M M')
     \<and> bt_get (procs (groups M)) 1 = Some s \<and> prog_state (proc_prog s) = Signal 3 SIGINT
     \<and> ctx_phase (proc_ctx s) = Running \<and> \<not> terminating (groups M)"
proof -
  obtain M s where run: "run_turns stalling example_boot = Some M"
    and M: "rq M = [2, 1]" "in_flight M = []" "capacity (handler M) < entries" "\<not> terminating (groups M)"
      "bt_get (procs (groups M)) 1 = Some s" "prog_state (proc_prog s) = Signal 3 SIGINT" "ctx_phase (proc_ctx s) = Running"
    and turn: "case kernel_turn M of Wait n M1 \<Rightarrow> n = 1 \<and> in_flight M1 = [] | _ \<Rightarrow> False"
    using stalls by (auto split: option.splits)
  obtain M1 where M1: "kernel_turn M = Wait 1 M1" "in_flight M1 = []"
    using turn by (auto split: turn.splits)
  then have "\<not> kernel_step M M'" for M'
    by (intro waits_for_nothing [of M 1 M1]) simp_all
  with M M1 run_turns_steps [OF run] show ?thesis
    by blast
qed

text \<open>A full ring loses data: when a splice is polled and the ring has no room, nothing is submitted, but
  the offset of the file and what is left of it move on all the same, so that the retry reads behind the
  chunk that was not read.\<close>

theorem full_ring_skips_chunk:
  assumes "capacity h = 0" and "ctx_phase c \<noteq> Terminating" and "remaining s \<noteq> 0"
    and "pipe_of n p" and "0 < n" and "n < 2 ^ 31" and "pipe_buf_size src = - 1"
    and "s = \<lparr>sp_rx = at src i, sp_tx = tx p, remaining = r\<rparr>"
    and "splice_remaining s = left" and "n < left" and "left \<le> max_pos" and "0 \<le> i" and "i \<le> max_pos - n"
  shows "\<exists>s'. poll (SpliceState s) (c, h) = (Inl Full, SpliceState s', c, h)
    \<and> off_in (snd (splice_round s)) = i \<and> off_in (snd (splice_round s')) = i + n"
proof -
  have round: "splice_round s = (\<lparr>sp_rx = at src (i + n), sp_tx = tx p, remaining = left - n\<rparr>,
      SpliceOp (pipe_fd src) i (pipe_fd (tx p)) (- 1) (word_of_int n) True)"
    using source_round [of n p src left i r] assms by simp
  have "splice_round \<lparr>sp_rx = at src (i + n), sp_tx = tx p, remaining = left - n\<rparr> =
      (\<lparr>sp_rx = at src (i + n + min n (left - n)), sp_tx = tx p, remaining = left - n - min n (left - n)\<rparr>,
       SpliceOp (pipe_fd src) (i + n) (pipe_fd (tx p)) (- 1) (word_of_int (min n (left - n))) (left - n > n))"
    using assms by (intro source_round) (simp_all add: splice_remaining_def Let_def)
  with round show ?thesis
    using assms(1-3) by (simp add: closure_poll_def poll_closure_def)
qed

section \<open>The example transfer\<close>

definition example_src :: Pipe where
  "example_src = \<lparr>pipe_kind = KIND_FILE, pipe_id = 0, pipe_fd = 10, pipe_buf_size = - 1, pipe_state = \<lparr>offset = 0, len = 2500\<rparr>\<rparr>"

definition example_dst :: Pipe where
  "example_dst = example_src\<lparr>pipe_id := 1, pipe_fd := 11, pipe_state := \<lparr>offset = 0, len = 0\<rparr>\<rparr>"

definition example_pipe :: Pipe2 where
  "example_pipe = \<lparr>tx = \<lparr>pipe_kind = KIND_TX, pipe_id = 0, pipe_fd = 6, pipe_buf_size = 1000, pipe_state = UNLIMITED\<rparr>,
     rx = \<lparr>pipe_kind = KIND_RX, pipe_id = 0, pipe_fd = 5, pipe_buf_size = 1000, pipe_state = UNLIMITED\<rparr>\<rparr>"

definition example_context :: Context where
  "example_context = \<lparr>ctx_pid = 2, ctx_phase = Init, ctx_count = 0\<rparr>"

lemma example_sizes:
  "pipe_of 1000 example_pipe" "pipe_buf_size example_src = - 1" "pipe_buf_size example_dst = - 1"
  "pipe_state example_src = \<lparr>offset = 0, len = 2500\<rparr>" "offset (pipe_state example_dst) = 0"
  "ctx_count example_context = 0" "ctx_phase example_context = Init"
  by (simp_all add: pipe_of_def example_pipe_def example_src_def example_dst_def example_context_def UNLIMITED_def)

definition example_rounds :: "(Context \<times> Handler) list" where
  "example_rounds = [(example_context, \<lparr>buf = [], capacity = 4\<rparr>), (example_context\<lparr>ctx_phase := Running\<rparr>, \<lparr>buf = [], capacity = 2\<rparr>),
     (example_context\<lparr>ctx_phase := Running\<rparr>, \<lparr>buf = [], capacity = 3\<rparr>)]"

lemma example_rounds_room: "list_all has_room example_rounds" "length example_rounds = 3"
  by (simp_all add: example_rounds_def has_room_def example_sizes)

theorem transfer_terminates_witness:
  "length (fst (rounds example_rounds (transfer example_src example_dst example_pipe))) = 3
   \<and> fst (poll (snd (rounds example_rounds (transfer example_src example_dst example_pipe)))
        (example_context, \<lparr>buf = [], capacity = 4\<rparr>)) = Inr Terminate"
proof -
  have "fst (rounds example_rounds (transfer example_src example_dst example_pipe)) =
      map (\<lambda>m. chunk_ops example_src example_dst example_pipe 1000 (int m * 1000) (int m * 1000) (2500 - int m * 1000))
        [0..<length example_rounds]
    \<and> fst (poll (snd (rounds example_rounds (transfer example_src example_dst example_pipe)))
        (example_context, \<lparr>buf = [], capacity = 4\<rparr>)) = Inr Terminate"
    by (rule transfer_terminates) (simp_all add: example_sizes example_rounds_room)
  then show ?thesis
    by (simp add: example_rounds_room)
qed

theorem full_ring_skips_chunk_witness:
  "\<exists>s'. poll (SpliceState \<lparr>sp_rx = example_src, sp_tx = tx example_pipe, remaining = - 1\<rparr>)
       (example_context, \<lparr>buf = [], capacity = 0\<rparr>) = (Inl Full, SpliceState s', example_context, \<lparr>buf = [], capacity = 0\<rparr>)
     \<and> off_in (snd (splice_round s')) = 1000"
proof -
  let ?s = "\<lparr>sp_rx = at example_src 0, sp_tx = tx example_pipe, remaining = - 1\<rparr>"
  have left: "splice_remaining ?s = 2500"
    by (simp add: example_sizes splice_remaining_def Let_def wrap64_id)
  have "\<exists>s'. poll (SpliceState ?s) (example_context, \<lparr>buf = [], capacity = 0\<rparr>) =
        (Inl Full, SpliceState s', example_context, \<lparr>buf = [], capacity = 0\<rparr>)
      \<and> off_in (snd (splice_round ?s)) = 0 \<and> off_in (snd (splice_round s')) = 0 + 1000"
    by (rule full_ring_skips_chunk [OF _ _ _ example_sizes(1) _ _ example_sizes(2) refl left])
      (simp_all add: example_sizes)
  moreover have "at example_src 0 = example_src"
    by (simp add: example_sizes)
  ultimately show ?thesis
    by auto
qed

text \<open>After two turns both processes have pushed; then the signal arrives.\<close>

definition interrupted :: "(nat list \<times> int option) list" where
  "interrupted = [([], None), ([], None), ([0], Some SIGINT)]"

lemma interrupted_run:
  "(case run_turns interrupted example_boot of
      None \<Rightarrow> False
    | Some M \<Rightarrow> rq M = [1] \<and> length (in_flight M) = 2 \<and> (case bt_get (procs (groups M)) 1 of
        None \<Rightarrow> False
      | Some s \<Rightarrow> prog_state (proc_prog s) = Signal 3 SIGINT \<and> ctx_phase (proc_ctx s) = Running))"
  by code_simp

theorem ring_never_overflows_witness:
  "\<exists>M. run_turns interrupted example_boot = Some M \<and> length (buf (handler M)) + length (in_flight M) \<le> entries"
proof -
  obtain M where run: "run_turns interrupted example_boot = Some M"
    using interrupted_run by (auto split: option.splits)
  from ring_never_overflows [OF example_boots run_turns_steps [OF run]] show ?thesis
    by (auto simp: run)
qed

theorem scheduled_processes_exist_witness:
  "\<exists>M. run_turns interrupted example_boot = Some M \<and> rq M = [1] \<and> 1 \<in> pids (groups M)"
proof -
  obtain M where run: "run_turns interrupted example_boot = Some M" "rq M = [1]"
    using interrupted_run by (auto split: option.splits)
  from scheduled_processes_exist [OF example_boots run_turns_steps [OF run(1)]] run show ?thesis
    by auto
qed

theorem interrupt_ends_kernel_witness:
  "\<exists>M M'. run_turns interrupted example_boot = Some M \<and> kernel_turn M = Go M' \<and> rq M' = []"
proof -
  obtain M s where run: "run_turns interrupted example_boot = Some M" "rq M = [1]" "bt_get (procs (groups M)) 1 = Some s"
    "prog_state (proc_prog s) = Signal 3 SIGINT" "ctx_phase (proc_ctx s) = Running"
    using interrupted_run by (auto split: option.splits)
  from interrupt_ends_kernel [OF example_boots run_turns_steps [OF run(1)] run(2-5)] run show ?thesis
    by auto
qed

end
