(* ===== verification/Lake_Script.thy ===== *)
theory Lake_Script
  imports Ark_Std
begin

text \<open>
  Scripts of dark lake and their compilation (\<^verbatim>\<open>contrib/dark-lake-api/src\<close>:
  \<^verbatim>\<open>kernel.rs\<close>, \<^verbatim>\<open>script.rs\<close>, \<^verbatim>\<open>builder.rs\<close>), and the program that
  runs them (\<^verbatim>\<open>contrib/dark-lake/src/main.rs\<close>).  The values that builders make, and the
  loading of a file, are parameters.
\<close>

section \<open>Scripts\<close>

datatype Kind = Format | Sink | Source | Store | Table

definition kind_str :: "Kind \<Rightarrow> string" where
  "kind_str k = (case k of Format \<Rightarrow> ''Format'' | Sink \<Rightarrow> ''Sink'' | Source \<Rightarrow> ''Source'' | Store \<Rightarrow> ''Store'' | Table \<Rightarrow> ''Table'')"

definition kind_field :: "Kind \<Rightarrow> string" where
  "kind_field k = (case k of Format \<Rightarrow> ''format'' | Sink \<Rightarrow> ''sink'' | Source \<Rightarrow> ''source'' | Store \<Rightarrow> ''store'' | Table \<Rightarrow> ''table'')"

record NodeMetadata =
  md_kind :: Kind
  md_model :: string
  md_name :: string

definition metadata_str :: "NodeMetadata \<Rightarrow> string" where
  "metadata_str m = kind_str (md_kind m) @ ''/'' @ md_model m @ ''/'' @ md_name m"

record 'p Node =
  node_metadata :: NodeMetadata
  node_params :: 'p

record 'a Edge =
  src :: 'a
  sink :: 'a

record 'p Script =
  nodes :: "'p Node list"
  edges :: "string Edge list"

record 'v CompiledScript =
  compiled_nodes :: "Kind \<Rightarrow> (string \<times> 'v) list"
  compiled_edges :: "NodeMetadata Edge list"

definition compiled_default :: "'v CompiledScript" where
  "compiled_default = \<lparr>compiled_nodes = (\<lambda>_. []), compiled_edges = []\<rparr>"

section \<open>Builders\<close>

record ('p, 'v) Builder =
  builder_kind :: Kind
  builder_name :: string
  builder_build :: "'p \<Rightarrow> string + 'v"

type_synonym ('p, 'v) Builders = "Kind \<Rightarrow> (string \<times> ('p, 'v) Builder) list"

definition builders_default :: "('p, 'v) Builders" where
  "builders_default = (\<lambda>_. [])"

text \<open>A builder of another kind is logged and left out.\<close>

definition register :: "Kind \<Rightarrow> ('p, 'v) Builder \<Rightarrow> ('p, 'v) Builders \<Rightarrow> ('p, 'v) Builders" where
  "register k b B = (if builder_kind b \<noteq> k then B else B(k := bt_insert (builder_name b) b (B k)))"

section \<open>Compilation\<close>

definition convert_edge :: "'p Node list \<Rightarrow> string \<Rightarrow> string + NodeMetadata" where
  "convert_edge ns name =
     (case map node_metadata (filter (\<lambda>n. md_name (node_metadata n) = name) ns) of
        [] \<Rightarrow> Inl (''No such node: '' @ name)
      | [n] \<Rightarrow> Inr n
      | ms \<Rightarrow> Inl (''Multiple nodes are found: '' @ join '', '' (map metadata_str ms)))"

fun convert_edges :: "'p Node list \<Rightarrow> string Edge list \<Rightarrow> string + NodeMetadata Edge list" where
  "convert_edges ns [] = Inr []"
| "convert_edges ns (e # es) =
     (case convert_edge ns (src e) of
        Inl x \<Rightarrow> Inl x
      | Inr a \<Rightarrow>
          (case convert_edge ns (sink e) of
             Inl x \<Rightarrow> Inl x
           | Inr b \<Rightarrow>
               (case convert_edges ns es of
                  Inl x \<Rightarrow> Inl x
                | Inr cs \<Rightarrow> Inr (\<lparr>src = a, sink = b\<rparr> # cs))))"

definition build_node ::
  "('p, 'v) Builders \<Rightarrow> 'p Node \<Rightarrow> (Kind \<Rightarrow> (string \<times> 'v) list) \<Rightarrow> string + (Kind \<Rightarrow> (string \<times> 'v) list)" where
  "build_node B n C =
     (let m = node_metadata n; k = md_kind m in
      case bt_get (B k) (md_model m) of
        None \<Rightarrow> Inl (''No such '' @ kind_field k @ '': '' @ md_model m)
      | Some b \<Rightarrow>
          (case builder_build b (node_params n) of
             Inl e \<Rightarrow> Inl e
           | Inr v \<Rightarrow>
               if bt_get (C k) (md_name m) \<noteq> None then Inl (''Multiple nodes are found: '' @ metadata_str m)
               else Inr (C(k := bt_insert (md_name m) v (C k)))))"

fun build_nodes ::
  "('p, 'v) Builders \<Rightarrow> 'p Node list \<Rightarrow> (Kind \<Rightarrow> (string \<times> 'v) list) \<Rightarrow> string + (Kind \<Rightarrow> (string \<times> 'v) list)" where
  "build_nodes B [] C = Inr C"
| "build_nodes B (n # ns) C = (case build_node B n C of Inl e \<Rightarrow> Inl e | Inr C \<Rightarrow> build_nodes B ns C)"

definition build_script :: "('p, 'v) Builders \<Rightarrow> 'p Script \<Rightarrow> string + 'v CompiledScript" where
  "build_script B s =
     (case convert_edges (nodes s) (edges s) of
        Inl e \<Rightarrow> Inl e
      | Inr es \<Rightarrow>
          (case build_nodes B (nodes s) (compiled_nodes compiled_default) of
             Inl e \<Rightarrow> Inl e
           | Inr C \<Rightarrow> Inr \<lparr>compiled_nodes = C, compiled_edges = es\<rparr>))"

section \<open>The program\<close>

definition load_vm :: "(string \<Rightarrow> string + 'p Script) \<Rightarrow> string \<Rightarrow> string + 'p Script" where
  "load_vm read_json path =
     (case extension path of
        Some ext \<Rightarrow> if ext = ''json'' then read_json path else Inl (''Unknown vm file type: '' @ ext)
      | None \<Rightarrow> Inl ''Unknown vm file type'')"

datatype Command = Daemon string | Run string

datatype 'v main_outcome = Failed string | Unfinished | Boots "'v CompiledScript"

text \<open>The lake of the program has no builder; an expression hits a \<^verbatim>\<open>todo!()\<close>.  The kernel that
  boots does not look at the script.\<close>

definition try_main :: "(string \<Rightarrow> string + 'p Script) \<Rightarrow> ('p, 'v) Builders \<Rightarrow> Command \<Rightarrow> 'v main_outcome" where
  "try_main read_json B c =
     (case c of
        Run _ \<Rightarrow> Unfinished
      | Daemon path \<Rightarrow>
          (case load_vm read_json path of
             Inl e \<Rightarrow> Failed e
           | Inr s \<Rightarrow> (case build_script B s of Inl e \<Rightarrow> Failed e | Inr v \<Rightarrow> Boots v)))"

section \<open>Compiled scripts are well typed\<close>

text \<open>A compiled script: every edge joins compiled nodes, each of the kind that the edge says.\<close>

definition well_typed :: "'v CompiledScript \<Rightarrow> bool" where
  "well_typed c \<longleftrightarrow> list_all (\<lambda>e. list_all (\<lambda>m. bt_get (compiled_nodes c (md_kind m)) (md_name m) \<noteq> None)
     [src e, sink e]) (compiled_edges c)"

text \<open>What a script needs to be compiled.\<close>

definition node_key :: "'p Node \<Rightarrow> Kind \<times> string" where
  "node_key n = (md_kind (node_metadata n), md_name (node_metadata n))"

definition buildable :: "('p, 'v) Builders \<Rightarrow> 'p Node \<Rightarrow> bool" where
  "buildable B n \<longleftrightarrow> (case bt_get (B (md_kind (node_metadata n))) (md_model (node_metadata n)) of
     None \<Rightarrow> False | Some b \<Rightarrow> \<not> isl (builder_build b (node_params n)))"

definition named_once :: "'p Node list \<Rightarrow> string \<Rightarrow> bool" where
  "named_once ns name \<longleftrightarrow> length (filter (\<lambda>n. md_name (node_metadata n) = name) ns) = 1"

definition compilable :: "('p, 'v) Builders \<Rightarrow> 'p Script \<Rightarrow> bool" where
  "compilable B s \<longleftrightarrow>
     list_all (\<lambda>e. named_once (nodes s) (src e) \<and> named_once (nodes s) (sink e)) (edges s)
     \<and> list_all (buildable B) (nodes s) \<and> distinct (map node_key (nodes s))"

lemma build_node_ok:
  "(\<exists>C'. build_node B n C = Inr C') \<longleftrightarrow>
     buildable B n \<and> bt_get (C (md_kind (node_metadata n))) (md_name (node_metadata n)) = None"
  by (auto simp: build_node_def Let_def buildable_def split: option.splits sum.splits)

lemma build_node_keys:
  "build_node B n C = Inr C' \<Longrightarrow>
    (bt_get (C' k) x \<noteq> None) = (bt_get (C k) x \<noteq> None \<or> (k, x) = node_key n)"
  by (auto simp: build_node_def Let_def node_key_def bt_get_insert split: option.splits sum.splits if_splits)

lemma build_nodes_keys:
  "build_nodes B ns C = Inr C' \<Longrightarrow>
    (bt_get (C' k) x \<noteq> None) = (bt_get (C k) x \<noteq> None \<or> (k, x) \<in> node_key ` set ns)"
proof (induction B ns C rule: build_nodes.induct)
  case (1 B C)
  then show ?case by simp
next
  case (2 B n ns C)
  then obtain C1 where C1: "build_node B n C = Inr C1" "build_nodes B ns C1 = Inr C'"
    by (auto split: sum.splits)
  show ?case
    using 2(1) [OF C1] build_node_keys [OF C1(1), of k x] by auto
qed

lemma build_nodes_ok:
  "(\<exists>C'. build_nodes B ns C = Inr C') \<longleftrightarrow> list_all (buildable B) ns \<and> distinct (map node_key ns)
     \<and> (\<forall>q\<in>node_key ` set ns. bt_get (C (fst q)) (snd q) = None)"
proof (induction B ns C rule: build_nodes.induct)
  case (1 B C)
  then show ?case by simp
next
  case (2 B n ns C)
  let ?k = "md_kind (node_metadata n)" and ?x = "md_name (node_metadata n)"
  show ?case
  proof (cases "build_node B n C")
    case (Inl e)
    then have "\<not> (buildable B n \<and> bt_get (C ?k) ?x = None)"
      using build_node_ok [of B n C] by auto
    then show ?thesis
      using Inl by (auto simp: node_key_def)
  next
    case (Inr C1)
    then have n: "buildable B n" "bt_get (C ?k) ?x = None"
      using build_node_ok [of B n C] by auto
    have free: "bt_get (C1 (fst q)) (snd q) = None \<longleftrightarrow> bt_get (C (fst q)) (snd q) = None \<and> q \<noteq> node_key n" for q
      using build_node_keys [OF Inr, of "fst q" "snd q"] by auto
    have "bt_get (C (fst (node_key n))) (snd (node_key n)) = None"
      using n(2) by (simp add: node_key_def)
    then show ?thesis
      using 2 [OF Inr] Inr n(1) unfolding free by auto (metis imageI)
  qed
qed

lemma convert_edge_ok: "(\<exists>m. convert_edge ns name = Inr m) \<longleftrightarrow> named_once ns name"
  by (auto simp: convert_edge_def named_once_def length_Suc_conv split: list.splits)

lemma convert_edge_node:
  "convert_edge ns name = Inr m \<Longrightarrow> m \<in> node_metadata ` set ns \<and> md_name m = name"
proof -
  assume "convert_edge ns name = Inr m"
  then have "map node_metadata (filter (\<lambda>n. md_name (node_metadata n) = name) ns) = [m]"
    by (auto simp: convert_edge_def split: list.splits)
  then have "m \<in> set (map node_metadata (filter (\<lambda>n. md_name (node_metadata n) = name) ns))"
    by simp
  then show ?thesis by auto
qed

lemma convert_edges_ok:
  "(\<exists>cs. convert_edges ns es = Inr cs) \<longleftrightarrow> list_all (\<lambda>e. named_once ns (src e) \<and> named_once ns (sink e)) es"
proof (induction es)
  case Nil
  then show ?case by simp
next
  case (Cons e es)
  then show ?case
    using convert_edge_ok [of ns "src e"] convert_edge_ok [of ns "sink e"] by (auto split: sum.splits)
qed

lemma convert_edges_nodes:
  "convert_edges ns es = Inr cs \<Longrightarrow>
    list_all (\<lambda>e. src e \<in> node_metadata ` set ns \<and> sink e \<in> node_metadata ` set ns) cs
    \<and> map (\<lambda>e. (md_name (src e), md_name (sink e))) cs = map (\<lambda>e. (src e, sink e)) es"
proof (induction es arbitrary: cs)
  case Nil
  then show ?case by simp
next
  case (Cons e es)
  then show ?case
    using convert_edge_node [of ns "src e"] convert_edge_node [of ns "sink e"] by (auto split: sum.splits)
qed

text \<open>C22.
  A script that compiles is well typed: every edge of the result joins two nodes that have been built, each
  under the kind that the edge carries, and the edges are those of the script in order.\<close>

theorem compiled_scripts_are_well_typed:
  assumes "build_script B s = Inr c"
  shows "well_typed c \<and> map (\<lambda>e. (md_name (src e), md_name (sink e))) (compiled_edges c) = map (\<lambda>e. (src e, sink e)) (edges s)"
proof -
  obtain es C where es: "convert_edges (nodes s) (edges s) = Inr es"
    and C: "build_nodes B (nodes s) (\<lambda>_. []) = Inr C" and c: "c = \<lparr>compiled_nodes = C, compiled_edges = es\<rparr>"
    using assms by (auto simp: build_script_def compiled_default_def split: sum.splits)
  have "bt_get (C (md_kind m)) (md_name m) \<noteq> None" if "m \<in> node_metadata ` set (nodes s)" for m
    using that build_nodes_keys [OF C, of "md_kind m" "md_name m"] by (auto simp: node_key_def image_iff)
  then show ?thesis
    using convert_edges_nodes [OF es] by (auto simp: c well_typed_def list_all_iff)
qed

text \<open>C23.
  A script compiles exactly when each end of an edge names one node, every node has a builder that
  accepts its parameters, and no two nodes of a kind share a name.\<close>

theorem script_compiles_iff: "(\<exists>c. build_script B s = Inr c) \<longleftrightarrow> compilable B s"
proof -
  have "(\<exists>c. build_script B s = Inr c) \<longleftrightarrow>
      (\<exists>es. convert_edges (nodes s) (edges s) = Inr es) \<and> (\<exists>C. build_nodes B (nodes s) (\<lambda>_. []) = Inr C)"
    by (auto simp: build_script_def compiled_default_def split: sum.splits)
  then show ?thesis
    unfolding convert_edges_ok build_nodes_ok compilable_def by (auto simp: bt_get_def)
qed

text \<open>The program can only boot with an empty script: it registers no builder, so that a file with any node or
  edge is refused, and an expression is not implemented.\<close>

theorem program_boots_empty_scripts_only:
  fixes read_json :: "string \<Rightarrow> string + 'p Script" and v :: "'v CompiledScript"
  assumes "try_main read_json builders_default c = Boots v"
  shows "\<exists>path. c = Daemon path \<and> extension path = Some ''json'' \<and> read_json path = Inr \<lparr>nodes = [], edges = []\<rparr>"
proof -
  let ?B = "builders_default :: ('p, 'v) Builders"
  obtain path s where c: "c = Daemon path" and s: "load_vm read_json path = Inr s" "build_script ?B s = Inr v"
    using assms by (auto simp: try_main_def split: Command.splits sum.splits)
  have "extension path = Some ''json''" "read_json path = Inr s"
    using s(1) by (auto simp: load_vm_def split: option.splits if_splits)
  moreover have "compilable ?B s"
    using script_compiles_iff [of ?B s] s(2) by blast
  then have "nodes s = []" "edges s = []"
    by (cases "nodes s"; cases "edges s"; simp add: compilable_def buildable_def builders_default_def bt_get_def named_once_def)+
  ultimately show ?thesis
    using c by (cases s) auto
qed

section \<open>An example script\<close>

text \<open>A source and a sink of the same name in two kinds, and an edge from the store to the sink.\<close>

definition example_builders :: "(nat, nat) Builders" where
  "example_builders =
     register Store \<lparr>builder_kind = Store, builder_name = ''fs'', builder_build = Inr\<rparr>
      (register Sink \<lparr>builder_kind = Sink, builder_name = ''stdout'', builder_build = Inr\<rparr> builders_default)"

definition example_script :: "nat Script" where
  "example_script = \<lparr>nodes =
     [\<lparr>node_metadata = \<lparr>md_kind = Store, md_model = ''fs'', md_name = ''in''\<rparr>, node_params = 1\<rparr>,
      \<lparr>node_metadata = \<lparr>md_kind = Sink, md_model = ''stdout'', md_name = ''out''\<rparr>, node_params = 2\<rparr>],
     edges = [\<lparr>src = ''in'', sink = ''out''\<rparr>]\<rparr>"

theorem compiled_scripts_are_well_typed_witness:
  "\<exists>c. build_script example_builders example_script = Inr c \<and> well_typed c \<and> length (compiled_edges c) = 1"
proof -
  have "\<not> isl (build_script example_builders example_script)"
    by code_simp
  then obtain c where c: "build_script example_builders example_script = Inr c"
    by (cases "build_script example_builders example_script") auto
  note typed = compiled_scripts_are_well_typed [OF c]
  have "length (compiled_edges c) = length (edges example_script)"
    using arg_cong [OF conjunct2 [OF typed], of length] by (simp only: length_map)
  with c typed show ?thesis
    by (simp add: example_script_def)
qed

theorem program_boots_empty_scripts_only_witness:
  "\<exists>v. try_main (\<lambda>_. Inr \<lparr>nodes = [] :: nat Node list, edges = []\<rparr>) builders_default (Daemon ''/etc/vm.json'')
     = Boots (v :: nat CompiledScript)"
proof -
  let ?r = "\<lambda>_. Inr \<lparr>nodes = [] :: nat Node list, edges = []\<rparr>"
  obtain v :: "nat CompiledScript" where v: "try_main ?r builders_default (Daemon ''/etc/vm.json'') = Boots v"
    by (simp add: try_main_def load_vm_def extension_def name_extension_def file_name_def build_script_def)
  from program_boots_empty_scripts_only [OF v] v show ?thesis
    by auto
qed

end
