(* ===== verification/Spec2Isabelle.thy ===== *)
theory Spec2Isabelle
  imports Kiss_System Kiss_Dns Spectrum_Children Vine_System Vine_Backend Vine_Handler Vine_Browser
    Vine_Dashboard Vine_Front_Io Vine_Front_Net
    Vine_Front_View Vine_Front_Form Vine_Front_Store Spectrum_Backend Ollama_Filter Ark_Admission
    Pond_Recovery Lake_Transfer Lake_Script
begin

text \<open>
  A model of the Rust programs of this repository, with the properties that make them correct.
  Every definition is translated from the files it names; paths are relative to
  \<^verbatim>\<open>src/\<close>.

  \<^bold>\<open>The programs.\<close>  Four groups of programs cooperate through the Kubernetes API, and a
  fifth one moves data on a node:

  \<^item> KISS (\<^verbatim>\<open>crates/openark-kiss-*\<close>) provisions machines.  A machine registers at a
    gateway, an operator drives its box through a state machine by spawning Ansible jobs, the outcome
    of a job is written back, and a DNS server answers the addresses of the boxes.
  \<^item> Spectrum (\<^verbatim>\<open>crates/openark-spectrum-*\<close>) distributes the endpoints of a service:
    classes name a source of weights, pools give endpoints to claims by linear programs, histograms
    sort them into buckets, and a pool server keeps which endpoint is bound and probes it.
  \<^item> VINE (\<^verbatim>\<open>crates/openark-vine-*\<close>) binds desktop nodes to session profiles
    and keeps an application with the session chart for each node; a daemon on each node starts and stops
    the services of a session, and web servers behind one identity provider list sessions, run
    commands in them, send files, and serve the pages of a dashboard.
  \<^item> Data pond (\<^verbatim>\<open>contrib/data-pond*\<close>) is a storage driver: a controller reserves
    space for volumes on the devices of the nodes and publishes them, and a server on each node
    discovers devices and runs the programs that allocate and mount.
  \<^item> Dark lake (\<^verbatim>\<open>contrib/dark-lake*\<close>) compiles scripts of stages, and its kernel
    moves data between files through pipes and the ring of submissions of the operating system.

  \<^bold>\<open>Theories.\<close>
  \<^item> \<open>Ark_Prelude\<close>: handlers (the type \<open>eff\<close>: a function of the calls made so
    far, that answers an error or a value and appends its own calls), weakest preconditions
    \<open>wp\<close> with the rules \<open>eff_simps\<close>, predicates on all calls (\<open>emits\<close>), and
    \<^verbatim>\<open>BTreeMap\<close> behind the locale \<open>ordered_dict\<close>.
  \<^item> \<open>Ark_Std\<close>: the parts of the standard library the programs use (numbers and addresses
    as texts); \<open>Ark_Kube\<close>: Kubernetes metadata, errors, actions and events.
  \<^item> \<open>Ark_Operator\<close>: \<^verbatim>\<open>openark-core/src/operator.rs\<close>: installing resource
    definitions and committing a status, with the contracts \<open>resource_api\<close>,
    \<open>reason_api\<close> and \<open>committing\<close> that the controllers interpret.
  \<^item> \<open>Kiss_Box\<close> (\<^verbatim>\<open>openark-kiss-api/src/box.rs\<close>), \<open>Kiss_Config\<close>,
    \<open>Kiss_Cluster\<close>, \<open>Kiss_Ansible\<close> (\<^verbatim>\<open>openark-kiss-ansible/src\<close>:
    \<^verbatim>\<open>config.rs\<close>, \<^verbatim>\<open>cluster.rs\<close>, \<^verbatim>\<open>lib.rs\<close> and
    \<^verbatim>\<open>job.rs\<close>), \<open>Kiss_Operator\<close> (\<^verbatim>\<open>openark-kiss-operator/src\<close>),
    \<open>Kiss_Backend\<close> (\<^verbatim>\<open>openark-kiss-backend/src/routes\<close>), \<open>Kiss_Dns\<close>
    (\<^verbatim>\<open>openark-kiss-dns/src/reloader.rs\<close>).  \<open>Kiss_System\<close> composes them: a
    step relation of requests, reconciliations, job outcomes, edits, deletions and crashes on the
    store of boxes, with the invariant that no cluster has two control planes joining.
  \<^item> \<open>Spectrum_Api\<close> (\<^verbatim>\<open>openark-spectrum-api/src\<close>), \<open>Spectrum_Pool\<close>
    (\<^verbatim>\<open>openark-spectrum-pool/src\<close>), \<open>Spectrum_Scheduler\<close>
    (\<^verbatim>\<open>openark-spectrum-scheduler/src\<close>), \<open>Spectrum_Targets\<close>,
    \<open>Spectrum_Histogram\<close>, \<open>Spectrum_Operator\<close> and \<open>Spectrum_Children\<close>
    (\<^verbatim>\<open>openark-spectrum-operator/src\<close>).  \<open>Spectrum_Backend\<close>
    (\<^verbatim>\<open>openark-spectrum-backend/src\<close>) is the server of weights; the contract
    \<open>weight_source\<close> that the operator relies on is interpreted on it.
  \<^item> \<open>Ollama_Filter\<close> (\<^verbatim>\<open>openark-gateway-filter-ollama/src\<close>), a filter of a
    proxy, and \<open>Ark_Admission\<close> (\<^verbatim>\<open>openark-admission-*\<close>), a web hook that asks a
    script, stand on their own.
  \<^item> \<open>Vine_Profile\<close>, \<open>Vine_Session\<close> (\<^verbatim>\<open>openark-vine-session-api/src\<close>)
    and \<open>Vine_Operator\<close> (\<^verbatim>\<open>openark-vine-session-operator/src/main.rs\<close>).
    \<open>Vine_System\<close> follows a node over several rounds: what a round writes is merged into
    the node (\<open>merges\<close>, a hypothesis on the API server) and read by the next one.
  \<^item> \<open>Pond_Api\<close> (\<^verbatim>\<open>contrib/data-pond-csi\<close>,
    \<^verbatim>\<open>contrib/data-pond-api\<close> and the conversions of
    \<^verbatim>\<open>contrib/data-pond/src/volume.rs\<close>), \<open>Pond_Controller\<close>
    (\<^verbatim>\<open>controller.rs\<close>) and \<open>Pond_Node\<close> (\<^verbatim>\<open>node.rs\<close>,
    \<^verbatim>\<open>pond.rs\<close>, \<^verbatim>\<open>discovery.rs\<close>).  \<open>Pond_Example\<close> is a small
    cluster for the witnesses, with a text form that reads back.  \<open>Pond_System\<close> has what a
    created volume gets and what the controller keeps in every state it can reach,
    \<open>Pond_Recovery\<close> what nodes accept and report, and what that means after a restart.
  \<^item> \<open>Vine_Oauth\<close> (\<^verbatim>\<open>openark-vine-oauth/src\<close> and
    \<^verbatim>\<open>openark-core/src/client.rs\<close>): tokens, users and rights of a request, used by the
    three web servers \<open>Vine_Backend\<close> (\<^verbatim>\<open>openark-vine-session-backend/src\<close>,
    \<^verbatim>\<open>openark-vine-session-exec/src\<close>), \<open>Vine_Browser\<close>
    (\<^verbatim>\<open>openark-vine-browser-api/src\<close>, \<^verbatim>\<open>-backend/src/routes\<close>) and
    \<open>Vine_Dashboard\<close> (\<^verbatim>\<open>openark-vine-dashboard-api/src\<close>,
    \<^verbatim>\<open>-backend/src/routes\<close>, \<^verbatim>\<open>-jq/src\<close>);
    \<open>Vine_Handler\<close> (\<^verbatim>\<open>openark-vine-session-handler/src/main.rs\<close>) is the daemon.
  \<^item> The web pages: \<open>Vine_Front_Net\<close> (\<^verbatim>\<open>openark-vine-browser-frontend/src/net\<close>:
    requests with their sign-in, and the cache of a view), \<open>Vine_Front_Io\<close>
    (\<^verbatim>\<open>pages/directory/io.rs\<close>: the queue of uploads), \<open>Vine_Front_View\<close>
    (\<^verbatim>\<open>i18n\<close>, \<^verbatim>\<open>pages/directory\<close>: texts, links, boxes, dragging and moving around),
    \<open>Vine_Front_Form\<close> and
    \<open>Vine_Front_Store\<close> (\<^verbatim>\<open>openark-vine-dashboard-frontend/src\<close>: forms and tables, and the
    stores with the hooks that fetch, the dialog and the screens).  A page is a state that is changed by
    drawings, answers and clicks in any order; a piece of markup is the texts and callbacks it holds, and a
  callback holds the stores of the last drawing.  What the browser does by itself is left out.
  \<^item> \<open>Lake_Pipe\<close> (\<^verbatim>\<open>contrib/dark-lake-rt-io-uring/src/pipe.rs\<close>),
    \<open>Lake_Program\<close> (\<^verbatim>\<open>prog/\<close>, the closures of \<^verbatim>\<open>lib.rs\<close>) and
    \<open>Lake_Kernel\<close> (\<^verbatim>\<open>proc.rs\<close>, \<^verbatim>\<open>sched.rs\<close>, the loop of
    \<^verbatim>\<open>lib.rs\<close>), with the step relation \<open>kernel_step\<close> in which completions arrive
    in any order.  \<open>Lake_System\<close> has the invariant of the kernel, \<open>Lake_Transfer\<close> the life of a
    transfer (its rounds, as long as every poll finds room in the ring) and what a full ring does to it, \<open>Lake_Script\<close>
    (\<^verbatim>\<open>contrib/dark-lake-api/src\<close>) the compilation of scripts.

  \<^bold>\<open>How code corresponds to definitions.\<close>  A struct is a record, an enum a datatype, an
  \<^verbatim>\<open>async fn\<close> over the API a handler.  What the API server, the clock and other
  servers answer is an argument of the handlers (an oracle of the calls made so far), never a
  definition.  \<^verbatim>\<open>?\<close> is \<open>tryE\<close>; a panic is the error \<open>Panic\<close>.  In the scheduler,
  whose code indexes four arrays, every index is checked and one out of range is a panic; that none is, is a
  property (the unchecked versions beside them only serve its proof).  Machine
  integers are words where their width matters (ports, bits of histograms, UUIDs, addresses), and
  integers where the program only compares them; the sizes of data pond are integers wrapped at 64
  bits as in a release build (\<open>wrap64\<close>).  Weights (\<^verbatim>\<open>f64\<close>) are elements of an
  ordered field: rounding, infinities and NaN are not modelled.  Time is a number of nanoseconds; the time of a
  taint is stored by the API server to the second, and read back so (\<open>stored_taint\<close>).
  Crates from outside of the repository (the solver of linear programs, \<^verbatim>\<open>redb\<close>,
  \<^verbatim>\<open>hickory\<close>, \<^verbatim>\<open>convert_case\<close>, \<^verbatim>\<open>kube_quantity\<close>,
  \<^verbatim>\<open>jiff\<close>) are parameters, with what the code relies on as hypotheses.

  \<^bold>\<open>What the lemmas show.\<close>  Each component has lemmas on the calls of its handlers, on what
  its operations keep, and on what they answer; the properties are stated where their component is,
  after a text that begins with their number.  All loops but that of the kernel of dark lake are
  structural recursions or end by a measure, so that every definition is total.  The one fuel is that of a request of a web page, which can be
  sent again without end; that two rounds are enough while the token is not disputed is a theorem.
  The loop of the kernel is a step relation, and that a transfer ends is a theorem about its
  rounds.

  \<^bold>\<open>Not modelled.\<close>  The start of the programs (arguments, \<^verbatim>\<open>loop_forever\<close>,
  HTTP servers), tracing, the JSON form of patches, and the command line, which only runs
  \<open>exec_session\<close> of \<open>Vine_Backend\<close> with its arguments.  What is left of
  the web pages (\<^verbatim>\<open>openark-vine-*-frontend\<close>) is markup of a library, and the stages of
  dark lake are stubs or wrappers of libraries: they are not meant to be modelled.
\<close>

end
